(* ===== verification/JsPrelude.thy ===== *)
theory JsPrelude
  imports Complex_Main "HOL-Library.Multiset"
begin

text \<open>
  Shared ground of the development: the collections of simplification rules that the component
  proofs are carried by, and generic lemmas about lists and association lists that several
  components use (the insertion-ordered set of JavaScript, updates of the first or of every
  matching element, association lists as ordered dictionaries).
\<close>

named_theorems js_defs \<open>definitions of the runtime model that component proofs unfold\<close>
named_theorems js_wf \<open>well-formedness facts of runtime values\<close>
named_theorems comp_defs \<open>definitions of component operations that invariant proofs unfold\<close>

subsection \<open>Insertion-ordered sets: Array.from(new Set(xs))\<close>

text \<open>
  A JavaScript Set keeps the first occurrence of each element, in insertion order.
\<close>

definition js_set_add :: "'a list \<Rightarrow> 'a \<Rightarrow> 'a list" where
  "js_set_add acc x = (if x \<in> set acc then acc else acc @ [x])"

definition js_set :: "'a list \<Rightarrow> 'a list" where
  "js_set xs = foldl js_set_add [] xs"

lemma foldl_set_add_set: "set (foldl js_set_add acc xs) = set acc \<union> set xs"
  by (induction xs arbitrary: acc) (auto simp: js_set_add_def)

lemma foldl_set_add_distinct: "distinct acc \<Longrightarrow> distinct (foldl js_set_add acc xs)"
  by (induction xs arbitrary: acc) (auto simp: js_set_add_def)

lemma foldl_set_add_fresh:
  "distinct (acc @ xs) \<Longrightarrow> foldl js_set_add acc xs = acc @ xs"
proof (induction xs arbitrary: acc)
  case (Cons x xs)
  then have "x \<notin> set acc" by auto
  then have "js_set_add acc x = acc @ [x]" by (simp add: js_set_add_def)
  moreover have "distinct ((acc @ [x]) @ xs)" using Cons.prems by auto
  ultimately show ?case using Cons.IH [of "acc @ [x]"] by simp
qed simp

lemma set_js_set [simp]: "set (js_set xs) = set xs"
  by (simp add: js_set_def foldl_set_add_set)

lemma distinct_js_set [simp]: "distinct (js_set xs)"
  by (simp add: js_set_def foldl_set_add_distinct)

lemma js_set_distinct: "distinct xs \<Longrightarrow> js_set xs = xs"
  using foldl_set_add_fresh [of "[]" xs] by (simp add: js_set_def)

lemma js_set_idem [simp]: "js_set (js_set xs) = js_set xs"
  by (simp add: js_set_distinct)

lemma js_set_Nil [simp]: "js_set [] = []"
  by (simp add: js_set_def)

lemma foldl_set_add_filter: "foldl js_set_add acc xs = acc @ filter (\<lambda>y. y \<notin> set acc) (js_set xs)"
proof (induction xs rule: rev_induct)
  case (snoc x xs)
  then show ?case by (auto simp: js_set_def js_set_add_def foldl_set_add_set)
qed simp

lemma js_set_Cons: "js_set (x # xs) = x # filter (\<lambda>y. y \<noteq> x) (js_set xs)"
  using foldl_set_add_filter [of "[x]" xs] by (simp add: js_set_def js_set_add_def)

subsection \<open>Updating the elements that match an identifier\<close>

text \<open>
  The editors update list elements by mapping over the list and replacing the elements whose key
  matches: \<open>prev.map(item => item.id === id ? f(item) : item)\<close>.
\<close>

definition map_matching :: "('a \<Rightarrow> 'k) \<Rightarrow> 'k \<Rightarrow> ('a \<Rightarrow> 'a) \<Rightarrow> 'a list \<Rightarrow> 'a list" where
  "map_matching key k f xs = map (\<lambda>x. if key x = k then f x else x) xs"

lemma length_map_matching [simp]: "length (map_matching key k f xs) = length xs"
  by (simp add: map_matching_def)

lemma map_matching_absent: "k \<notin> key ` set xs \<Longrightarrow> map_matching key k f xs = xs"
  unfolding map_matching_def by (rule map_idI) auto

lemma map_matching_keys:
  "(\<And>x. key (f x) = key x) \<Longrightarrow> map key (map_matching key k f xs) = map key xs"
  by (simp add: map_matching_def)

lemma map_matching_Nil [simp]: "map_matching key k f [] = []"
  by (simp add: map_matching_def)

lemma map_matching_empty_iff [simp]: "map_matching key k f xs = [] \<longleftrightarrow> xs = []"
  by (simp add: map_matching_def)

subsection \<open>Index of the first match: Array.prototype.findIndex\<close>

fun find_index :: "('a \<Rightarrow> bool) \<Rightarrow> 'a list \<Rightarrow> nat option" where
  "find_index P [] = None"
| "find_index P (x # xs) = (if P x then Some 0 else map_option Suc (find_index P xs))"

lemma find_index_None_iff: "find_index P xs = None \<longleftrightarrow> (\<forall>x \<in> set xs. \<not> P x)"
  by (induction xs) auto

lemma find_index_SomeD:
  "find_index P xs = Some i \<Longrightarrow> i < length xs \<and> P (xs ! i) \<and> (\<forall>j < i. \<not> P (xs ! j))"
proof (induction xs arbitrary: i)
  case (Cons x xs)
  show ?case
  proof (cases "P x")
    case True
    with Cons.prems show ?thesis by simp
  next
    case False
    with Cons.prems obtain k where k: "find_index P xs = Some k" "i = Suc k" by auto
    from Cons.IH [OF k(1)] False k(2) show ?thesis
      by (auto simp: nth_Cons less_Suc_eq_0_disj split: nat.splits)
  qed
qed simp

text \<open>\<open>xs.splice(i, 1)\<close> and \<open>xs.splice(i, 0, x)\<close>.\<close>

definition remove_at :: "nat \<Rightarrow> 'a list \<Rightarrow> 'a list" where
  "remove_at i xs = take i xs @ drop (Suc i) xs"

definition insert_at :: "nat \<Rightarrow> 'a \<Rightarrow> 'a list \<Rightarrow> 'a list" where
  "insert_at i x xs = take i xs @ [x] @ drop i xs"

lemma mset_remove_at: "i < length xs \<Longrightarrow> mset (remove_at i xs) + {#xs ! i#} = mset xs"
  by (metis (no_types, lifting) add.commute add.left_commute append_take_drop_id id_take_nth_drop
      mset.simps(2) mset_append remove_at_def add_mset_add_single Cons_nth_drop_Suc)

lemma length_insert_at [simp]: "length (insert_at i x xs) = Suc (length xs)"
  by (simp add: insert_at_def)

lemma set_insert_at: "set (insert_at i x xs) = insert x (set xs)"
proof -
  have "set xs = set (take i xs @ drop i xs)" by simp
  then show ?thesis unfolding insert_at_def set_append by auto
qed

lemma mset_insert_at [simp]: "mset (insert_at i x xs) = add_mset x (mset xs)"
proof -
  have "mset xs = mset (take i xs @ drop i xs)" by simp
  then show ?thesis unfolding insert_at_def mset_append by simp
qed

lemma remove_at_filter:
  assumes "distinct (map key xs)" "i < length xs"
  shows "remove_at i xs = filter (\<lambda>x. key x \<noteq> key (xs ! i)) xs"
  using assms
proof (induction xs arbitrary: i)
  case (Cons x xs)
  show ?case
  proof (cases i)
    case 0
    with Cons.prems show ?thesis by (auto simp: remove_at_def image_iff intro!: filter_True [symmetric])
  next
    case (Suc j)
    with Cons show ?thesis by (auto simp: remove_at_def)
  qed
qed simp

subsection \<open>Slices and sorting\<close>

text \<open>\<open>xs.slice(from, to)\<close>: negative positions count from the end.\<close>

definition slice_pos :: "int \<Rightarrow> 'a list \<Rightarrow> nat" where
  "slice_pos i xs = (if i < 0 then nat (int (length xs) + i) else min (nat i) (length xs))"

definition js_slice :: "int \<Rightarrow> int \<Rightarrow> 'a list \<Rightarrow> 'a list" where
  "js_slice a b xs = drop (slice_pos a xs) (take (slice_pos b xs) xs)"

lemma length_js_slice: "0 \<le> a \<Longrightarrow> a \<le> b \<Longrightarrow> int (length (js_slice a b xs)) \<le> b - a"
  by (auto simp: js_slice_def slice_pos_def)

lemma set_js_slice: "set (js_slice a b xs) \<subseteq> set xs"
  by (auto simp: js_slice_def dest!: in_set_dropD in_set_takeD)

lemma js_slice_nat: "js_slice (int a) (int b) xs = drop a (take b xs)"
  by (cases "a \<le> length xs"; cases "b \<le> length xs") (auto simp: js_slice_def slice_pos_def)

text \<open>The pages of a list, one after the other, are the list.\<close>

lemma concat_pages: "concat (map (\<lambda>i. js_slice (int i * int c) (int i * int c + int c) xs) [0..<n]) = take (n * c) xs"
proof (induction n)
  case (Suc n)
  have "js_slice (int n * int c) (int n * int c + int c) xs = drop (n * c) (take (n * c + c) xs)"
    using js_slice_nat [of "n * c" "n * c + c" xs] by simp
  then have "take (n * c) xs @ js_slice (int n * int c) (int n * int c + int c) xs = take (n * c + c) xs"
    by (metis add.commute drop_take take_add diff_add_inverse2)
  with Suc show ?case by (simp add: add.commute)
qed simp

lemma js_slice_length_neg: "a < 0 \<Longrightarrow> b < 0 \<Longrightarrow> a \<le> b \<Longrightarrow> int (length (js_slice a b xs)) \<le> b - a"
  by (auto simp: js_slice_def slice_pos_def)

text \<open>\<open>xs.sort(cmp)\<close>: the stable order that a consistent comparison function determines.\<close>

fun js_insort :: "('a \<Rightarrow> 'a \<Rightarrow> int) \<Rightarrow> 'a \<Rightarrow> 'a list \<Rightarrow> 'a list" where
  "js_insort cmp x [] = [x]"
| "js_insort cmp x (y # ys) = (if cmp x y \<le> 0 then x # y # ys else y # js_insort cmp x ys)"

definition js_sort :: "('a \<Rightarrow> 'a \<Rightarrow> int) \<Rightarrow> 'a list \<Rightarrow> 'a list" where
  "js_sort cmp xs = foldr (js_insort cmp) xs []"

lemma mset_js_insort [simp]: "mset (js_insort cmp x xs) = add_mset x (mset xs)"
  by (induction xs) auto

lemma mset_js_sort [simp]: "mset (js_sort cmp xs) = mset xs"
proof -
  have "mset (foldr (js_insort cmp) xs acc) = mset xs + mset acc" for acc by (induction xs) auto
  then show ?thesis by (simp add: js_sort_def)
qed

lemma set_js_sort [simp]: "set (js_sort cmp xs) = set xs"
  by (rule mset_eq_setD) simp

subsection \<open>Stores of records with a key\<close>

text \<open>
  What the editors rely on when they keep records in a list and address them by a key: the list
  refines a finite map. The interface lists the operations and what a lookup returns after each of
  them; the lemmas are the ones its clients use.
\<close>

locale keyed_store =
  fixes key :: "'v \<Rightarrow> 'k" and lookup :: "'s \<Rightarrow> 'k \<Rightarrow> 'v option"
    and upsert :: "'k \<Rightarrow> ('v \<Rightarrow> 'v) \<Rightarrow> 's \<Rightarrow> 's" and add :: "'v \<Rightarrow> 's \<Rightarrow> 's" and remove :: "'k \<Rightarrow> 's \<Rightarrow> 's"
    and ok :: "'s \<Rightarrow> bool"
  assumes lookup_key: "lookup s k = Some v \<Longrightarrow> key v = k"
    and lookup_upsert: "\<forall>v. key (f v) = key v \<Longrightarrow> lookup (upsert k f s) = (lookup s)(k := map_option f (lookup s k))"
    and lookup_add: "lookup (add v s) = (lookup s)(key v \<mapsto> v)"
    and lookup_remove: "lookup (remove k s) = (lookup s)(k := None)"
    and ok_upsert: "\<forall>v. key (f v) = key v \<Longrightarrow> ok s \<Longrightarrow> ok (upsert k f s)"
    and ok_add: "ok s \<Longrightarrow> lookup s (key v) = None \<Longrightarrow> ok (add v s)"
    and ok_remove: "ok s \<Longrightarrow> ok (remove k s)"
begin

lemma remove_added: "lookup s (key v) = None \<Longrightarrow> lookup (remove (key v) (add v s)) = lookup s"
  by (auto simp: lookup_remove lookup_add)

lemma upsert_elsewhere: "\<forall>v. key (f v) = key v \<Longrightarrow> k' \<noteq> k \<Longrightarrow> lookup (upsert k f s) k' = lookup s k'"
  by (simp add: lookup_upsert)

lemma upsert_upsert:
  "\<forall>v. key (f v) = key v \<Longrightarrow> \<forall>v. key (g v) = key v \<Longrightarrow>
   lookup (upsert k g (upsert k f s)) = lookup (upsert k (g \<circ> f) s)"
  by (simp add: lookup_upsert option.map_comp)

lemma dom_upsert: "\<forall>v. key (f v) = key v \<Longrightarrow> dom (lookup (upsert k f s)) = dom (lookup s)"
  by (auto simp: lookup_upsert split: if_splits)

end

text \<open>Lists of records with distinct keys are such a store.\<close>

definition list_lookup :: "('v \<Rightarrow> 'k) \<Rightarrow> 'v list \<Rightarrow> 'k \<Rightarrow> 'v option" where
  "list_lookup key xs k = find (\<lambda>x. key x = k) xs"

definition distinct_keys :: "('v \<Rightarrow> 'k) \<Rightarrow> 'v list \<Rightarrow> bool" where
  "distinct_keys key xs \<longleftrightarrow> distinct (map key xs)"

lemma list_lookup_Nil [simp]: "list_lookup key [] = Map.empty"
  by (simp add: list_lookup_def fun_eq_iff)

lemma list_lookup_Cons: "list_lookup key (x # xs) = (list_lookup key xs)(key x \<mapsto> x)"
  by (auto simp: list_lookup_def fun_eq_iff)

lemma dom_list_lookup: "dom (list_lookup key xs) = key ` set xs"
proof (rule set_eqI)
  fix k
  have "k \<notin> dom (list_lookup key xs) \<longleftrightarrow> (\<forall>x \<in> set xs. key x \<noteq> k)"
    unfolding domIff list_lookup_def by (auto simp: find_None_iff)
  then show "k \<in> dom (list_lookup key xs) \<longleftrightarrow> k \<in> key ` set xs" by blast
qed

lemma list_lookup_key: "list_lookup key xs k = Some v \<Longrightarrow> key v = k \<and> v \<in> set xs"
  by (auto simp: list_lookup_def find_Some_iff)

lemma list_lookup_None_iff: "list_lookup key xs k = None \<longleftrightarrow> k \<notin> key ` set xs"
  using dom_list_lookup [of key xs] by (auto simp: domIff)

lemma list_lookup_member: "distinct_keys key xs \<Longrightarrow> x \<in> set xs \<Longrightarrow> list_lookup key xs (key x) = Some x"
proof (induction xs)
  case (Cons y xs)
  then show ?case by (cases "x = y") (auto simp: list_lookup_Cons distinct_keys_def rev_image_eqI)
qed simp

lemma list_lookup_matching:
  "\<forall>v. key (f v) = key v \<Longrightarrow>
   list_lookup key (map_matching key k f xs) = (list_lookup key xs)(k := map_option f (list_lookup key xs k))"
proof (induction xs)
  case (Cons x xs)
  then show ?case by (auto simp: list_lookup_Cons map_matching_def fun_eq_iff)
qed (auto simp: map_matching_def)

lemma list_lookup_filter: "list_lookup key (filter (\<lambda>x. key x \<noteq> k) xs) = (list_lookup key xs)(k := None)"
  by (induction xs) (auto simp: list_lookup_Cons fun_eq_iff)

lemma list_keyed_store:
  "keyed_store key (list_lookup key) (map_matching key) Cons (\<lambda>k. filter (\<lambda>x. key x \<noteq> k)) (distinct_keys key)"
  by unfold_locales
     (auto simp: list_lookup_matching list_lookup_Cons list_lookup_filter list_lookup_None_iff distinct_keys_def
       map_matching_keys distinct_map_filter dest: list_lookup_key)

subsection \<open>Codecs\<close>

text \<open>
  What the components rely on when one writes a text and another reads it back: decoding an encoded
  value gives the value. A codec that also accepts texts of values it cannot express exactly comes
  with the normalisation the two directions together perform.
\<close>

locale codec =
  fixes enc :: "'v \<Rightarrow> 't" and dec :: "'t \<Rightarrow> 'v option" and ok :: "'v \<Rightarrow> bool"
  assumes dec_enc: "ok v \<Longrightarrow> dec (enc v) = Some v"
begin

lemma enc_inj: "ok v \<Longrightarrow> ok w \<Longrightarrow> enc v = enc w \<longleftrightarrow> v = w"
  using dec_enc by (metis option.inject)

end

locale reformatting_codec = codec enc dec ok
  for enc :: "'v \<Rightarrow> 't" and dec :: "'t \<Rightarrow> 'v option" and ok :: "'v \<Rightarrow> bool" +
  fixes norm :: "'v \<Rightarrow> 'v" and readable :: "'v \<Rightarrow> bool"
  assumes dec_readable: "dec t = Some v \<Longrightarrow> readable v"
    and norm_ok: "readable v \<Longrightarrow> ok (norm v)"
    and enc_norm: "readable v \<Longrightarrow> enc (norm v) = enc v"
begin

lemma dec_enc_norm: "readable v \<Longrightarrow> dec (enc v) = Some (norm v)"
  using dec_enc [OF norm_ok] enc_norm by simp

text \<open>Formatting a text (decode, then encode) a second time changes nothing.\<close>

lemma reformat_idem: "dec t = Some v \<Longrightarrow> map_option enc (dec (enc v)) = Some (enc v)"
  using dec_enc_norm dec_readable enc_norm by simp

end

end
