(* ===== verification/JsString.thy ===== *)
theory JsString
  imports JsPrelude
begin

text \<open>
  JavaScript strings. A string is the list of its UTF-16 code units (\<open>nat\<close> values below 65536);
  \<open>js ''abc''\<close> is the literal with the given ASCII text, and a literal with other characters is
  written as the list of its code units. The operations are those the modelled sources call:
  trim, split at one code unit, join, includes, startsWith, indexOf, replaceAll of one code unit,
  toLowerCase/toUpperCase, and decimal printing of integers with its inverse.
\<close>

type_synonym jstring = "nat list"

definition js :: "string \<Rightarrow> jstring" where
  "js s = map of_char s"

lemma js_eq_iff [simp]: "js s = js t \<longleftrightarrow> s = t"
  unfolding js_def by (auto simp: inj_map_eq_map inj_def of_char_eq_iff)

lemma js_Nil [simp]: "js [] = []"
  by (simp add: js_def)

lemma js_eq_Nil_iff [simp]: "js s = [] \<longleftrightarrow> s = []" "[] = js s \<longleftrightarrow> s = []"
  by (auto simp: js_def)

lemma length_js [simp]: "length (js s) = length s"
  by (simp add: js_def)

subsection \<open>White space and trim\<close>

text \<open>The code units that \<open>String.prototype.trim\<close> removes (WhiteSpace and LineTerminator).\<close>

definition is_ws :: "nat \<Rightarrow> bool" where
  "is_ws c \<longleftrightarrow> (9 \<le> c \<and> c \<le> 13) \<or> c = 32 \<or> c = 160 \<or> c = 5760 \<or> (8192 \<le> c \<and> c \<le> 8202) \<or>
     c = 8232 \<or> c = 8233 \<or> c = 8239 \<or> c = 8287 \<or> c = 12288 \<or> c = 65279"

definition trim_start :: "jstring \<Rightarrow> jstring" where
  "trim_start s = dropWhile is_ws s"

definition trim_end :: "jstring \<Rightarrow> jstring" where
  "trim_end s = rev (dropWhile is_ws (rev s))"

definition trim :: "jstring \<Rightarrow> jstring" where
  "trim s = trim_end (trim_start s)"

text \<open>A string is trimmed when neither end is white space.\<close>

definition trimmed :: "jstring \<Rightarrow> bool" where
  "trimmed s \<longleftrightarrow> s = [] \<or> (\<not> is_ws (hd s) \<and> \<not> is_ws (last s))"

lemma trim_Nil [simp]: "trim [] = []"
  by (simp add: trim_def trim_start_def trim_end_def)

lemma trim_trimmed: "trimmed s \<Longrightarrow> trim s = s"
proof (cases "s = []")
  case False
  assume "trimmed s"
  with False have h: "\<not> is_ws (hd s)" and l: "\<not> is_ws (last s)" by (auto simp: trimmed_def)
  from False h have "dropWhile is_ws s = s" by (cases s) auto
  moreover from False l have "dropWhile is_ws (rev s) = rev s"
    by (metis dropWhile_eq_self_iff hd_rev)
  ultimately show ?thesis by (simp add: trim_def trim_start_def trim_end_def)
qed simp

lemma trim_end_append_last:
  "trim_end s = [] \<or> \<not> is_ws (last (trim_end s))"
  by (metis hd_dropWhile last_rev rev_is_Nil_conv trim_end_def)

lemma trim_end_prefix: "\<exists>w. s = trim_end s @ w \<and> (\<forall>c \<in> set w. is_ws c)"
proof -
  have "rev s = takeWhile is_ws (rev s) @ dropWhile is_ws (rev s)" by simp
  then have "s = trim_end s @ rev (takeWhile is_ws (rev s))"
    unfolding trim_end_def by (metis rev_append rev_rev_ident)
  moreover have "\<forall>c \<in> set (rev (takeWhile is_ws (rev s))). is_ws c"
    by (auto dest: set_takeWhileD)
  ultimately show ?thesis by blast
qed

lemma trimmed_trim [simp]: "trimmed (trim s)"
proof (cases "trim s = []")
  case False
  let ?u = "dropWhile is_ws s"
  have ne: "trim_end ?u \<noteq> []" using False by (simp add: trim_def trim_start_def)
  obtain w where w: "?u = trim_end ?u @ w" using trim_end_prefix by blast
  have "?u \<noteq> []" using w ne by (metis append_is_Nil_conv)
  then have "\<not> is_ws (hd ?u)" by (rule hd_dropWhile)
  moreover have "hd ?u = hd (trim_end ?u)" using w ne by (metis hd_append2)
  moreover have "\<not> is_ws (last (trim_end ?u))" using trim_end_append_last ne by blast
  ultimately show ?thesis by (simp add: trimmed_def trim_def trim_start_def)
qed (simp add: trimmed_def)

lemma trim_idem [simp]: "trim (trim s) = trim s"
  by (simp add: trim_trimmed)

lemma set_trim: "set (trim s) \<subseteq> set s"
  unfolding trim_def trim_start_def trim_end_def
  using set_dropWhileD by (metis set_rev subsetI)

lemma trimmed_Nil [simp]: "trimmed []"
  by (simp add: trimmed_def)

lemma trim_no_ws: "\<forall>c \<in> set s. \<not> is_ws c \<Longrightarrow> trim s = s"
  by (rule trim_trimmed) (auto simp: trimmed_def)

lemma trim_eq_Nil_iff: "trim s = [] \<longleftrightarrow> (\<forall>c \<in> set s. is_ws c)"
proof
  assume "trim s = []"
  then have "dropWhile is_ws (rev (dropWhile is_ws s)) = []" by (simp add: trim_def trim_start_def trim_end_def)
  then have a: "\<forall>c \<in> set (dropWhile is_ws s). is_ws c" by (simp add: dropWhile_eq_Nil_conv)
  have "dropWhile is_ws s = []"
  proof (rule ccontr)
    assume "dropWhile is_ws s \<noteq> []"
    then have "\<not> is_ws (hd (dropWhile is_ws s))" by (rule hd_dropWhile)
    with a \<open>dropWhile is_ws s \<noteq> []\<close> show False by auto
  qed
  then show "\<forall>c \<in> set s. is_ws c" by (simp add: dropWhile_eq_Nil_conv)
next
  assume "\<forall>c \<in> set s. is_ws c"
  then have "dropWhile is_ws s = []" by (simp only: dropWhile_eq_Nil_conv)
  then show "trim s = []" by (simp add: trim_def trim_start_def trim_end_def del: dropWhile_eq_Nil_conv)
qed

subsection \<open>Split, join, search\<close>

fun split_on :: "nat \<Rightarrow> jstring \<Rightarrow> jstring list" where
  "split_on c [] = [[]]"
| "split_on c (x # xs) =
     (if x = c then [] # split_on c xs
      else (case split_on c xs of [] \<Rightarrow> [[x]] | y # ys \<Rightarrow> (x # y) # ys))"

fun join :: "'a list \<Rightarrow> 'a list list \<Rightarrow> 'a list" where
  "join sep [] = []"
| "join sep [x] = x"
| "join sep (x # y # ys) = x @ sep @ join sep (y # ys)"

lemma split_on_not_Nil [simp]: "split_on c s \<noteq> []"
  by (cases s) (auto split: list.splits)

lemma split_on_absent: "c \<notin> set s \<Longrightarrow> split_on c s = [s]"
  by (induction s) auto

lemma split_on_append: "c \<notin> set s \<Longrightarrow> split_on c (s @ c # t) = s # split_on c t"
  by (induction s) auto

lemma split_on_join:
  "xs \<noteq> [] \<Longrightarrow> \<forall>x \<in> set xs. c \<notin> set x \<Longrightarrow> split_on c (join [c] xs) = xs"
proof (induction "[c]" xs rule: join.induct)
  case (2 x)
  then show ?case by (simp add: split_on_absent)
next
  case (3 x y ys)
  then show ?case by (simp add: split_on_append)
qed simp

lemma join_split_on [simp]: "join [c] (split_on c s) = s"
proof (induction s)
  case (Cons x s)
  obtain y ys where sp: "split_on c s = y # ys" by (cases "split_on c s") auto
  show ?case
  proof (cases "x = c")
    case True
    with Cons sp show ?thesis by simp
  next
    case False
    with Cons sp show ?thesis by (cases ys) auto
  qed
qed simp

lemma split_on_no_sep: "x \<in> set (split_on c s) \<Longrightarrow> c \<notin> set x"
proof (induction s arbitrary: x)
  case (Cons a s)
  obtain y ys where "split_on c s = y # ys" by (cases "split_on c s") auto
  with Cons show ?case by (auto split: if_splits)
qed simp

lemma split_on_subset: "x \<in> set (split_on c s) \<Longrightarrow> set x \<subseteq> set s"
proof (induction s arbitrary: x)
  case (Cons a s)
  obtain y ys where "split_on c s = y # ys" by (cases "split_on c s") auto
  with Cons show ?case by (fastforce split: if_splits)
qed simp

fun starts_with :: "jstring \<Rightarrow> jstring \<Rightarrow> bool" where
  "starts_with s [] = True"
| "starts_with [] (p # ps) = False"
| "starts_with (x # s) (p # ps) = (x = p \<and> starts_with s ps)"

fun str_includes :: "jstring \<Rightarrow> jstring \<Rightarrow> bool" where
  "str_includes [] p = (p = [])"
| "str_includes (x # s) p = (starts_with (x # s) p \<or> str_includes s p)"

lemma starts_with_iff: "starts_with s p \<longleftrightarrow> (\<exists>t. s = p @ t)"
  by (induction s p rule: starts_with.induct) auto

lemma str_includes_iff: "str_includes s p \<longleftrightarrow> (\<exists>u t. s = u @ p @ t)"
proof (induction s)
  case (Cons x s)
  note IH = Cons.IH
  show ?case
  proof
    assume "str_includes (x # s) p"
    then show "\<exists>u t. x # s = u @ p @ t"
      using IH by (auto simp: starts_with_iff) (metis append_Cons append_Nil)+
  next
    assume "\<exists>u t. x # s = u @ p @ t"
    then obtain u t where "x # s = u @ p @ t" by blast
    then show "str_includes (x # s) p"
    proof (cases u)
      case Nil
      with \<open>x # s = u @ p @ t\<close> have "starts_with (x # s) p" by (auto simp: starts_with_iff)
      then show ?thesis by simp
    next
      case (Cons y u')
      with \<open>x # s = u @ p @ t\<close> have "s = u' @ p @ t" by simp
      then show ?thesis using IH by auto
    qed
  qed
qed auto

lemma str_includes_single: "str_includes s [c] \<longleftrightarrow> c \<in> set s"
  by (auto simp: str_includes_iff in_set_conv_decomp)

definition remove_unit :: "nat \<Rightarrow> jstring \<Rightarrow> jstring" where
  "remove_unit c s = filter (\<lambda>x. x \<noteq> c) s"

definition replace_unit :: "nat \<Rightarrow> nat \<Rightarrow> jstring \<Rightarrow> jstring" where
  "replace_unit c d s = map (\<lambda>x. if x = c then d else x) s"

subsection \<open>Case mapping\<close>

text \<open>
  The simple case pairs of ASCII, Latin-1, Greek, Cyrillic and full-width letters, and the Kelvin
  sign; every other code unit is its own lower and upper case here. (The modelled code compares
  the results with ASCII words or uses them for searching.)
\<close>

definition lower_unit :: "nat \<Rightarrow> nat" where
  "lower_unit c =
     (if 65 \<le> c \<and> c \<le> 90 then c + 32
      else if 192 \<le> c \<and> c \<le> 222 \<and> c \<noteq> 215 then c + 32
      else if 913 \<le> c \<and> c \<le> 939 \<and> c \<noteq> 930 then c + 32
      else if 1040 \<le> c \<and> c \<le> 1071 then c + 32
      else if 1024 \<le> c \<and> c \<le> 1039 then c + 80
      else if 65313 \<le> c \<and> c \<le> 65338 then c + 32
      else if c = 8490 then 107 else c)"

definition upper_unit :: "nat \<Rightarrow> nat" where
  "upper_unit c =
     (if 97 \<le> c \<and> c \<le> 122 then c - 32
      else if 224 \<le> c \<and> c \<le> 254 \<and> c \<noteq> 247 then c - 32
      else if 945 \<le> c \<and> c \<le> 971 \<and> c \<noteq> 962 then c - 32
      else if 1072 \<le> c \<and> c \<le> 1103 then c - 32
      else if 1104 \<le> c \<and> c \<le> 1119 then c - 80
      else if 65345 \<le> c \<and> c \<le> 65370 then c - 32 else c)"

definition to_lower :: "jstring \<Rightarrow> jstring" where
  "to_lower s = map lower_unit s"

definition to_upper :: "jstring \<Rightarrow> jstring" where
  "to_upper s = map upper_unit s"

subsection \<open>Decimal digits\<close>

definition is_digit :: "nat \<Rightarrow> bool" where
  "is_digit c \<longleftrightarrow> 48 \<le> c \<and> c \<le> 57"

fun dec :: "nat \<Rightarrow> jstring" where
  "dec n = (if n < 10 then [48 + n] else dec (n div 10) @ [48 + n mod 10])"

declare dec.simps [simp del]

definition digits_val :: "jstring \<Rightarrow> nat" where
  "digits_val s = foldl (\<lambda>a c. 10 * a + (c - 48)) 0 s"

lemma digits_val_Nil [simp]: "digits_val [] = 0"
  by (simp add: digits_val_def)

lemma digits_val_snoc [simp]: "digits_val (s @ [c]) = 10 * digits_val s + (c - 48)"
  by (simp add: digits_val_def)

lemma dec_not_Nil [simp]: "dec n \<noteq> []"
  by (subst dec.simps) simp

lemma dec_digits: "c \<in> set (dec n) \<Longrightarrow> is_digit c"
proof (induction n rule: dec.induct)
  case (1 n)
  show ?case
  proof (cases "n < 10")
    case True
    with "1.prems" show ?thesis by (auto simp: dec.simps [of n] is_digit_def)
  next
    case False
    with 1 show ?thesis by (auto simp: dec.simps [of n] is_digit_def)
  qed
qed

lemma digits_val_dec [simp]: "digits_val (dec n) = n"
proof (induction n rule: dec.induct)
  case (1 n)
  show ?case
  proof (cases "n < 10")
    case True
    then show ?thesis using digits_val_snoc [of "[]" "48 + n"] by (simp add: dec.simps [of n])
  next
    case False
    with 1 show ?thesis by (simp add: dec.simps [of n])
  qed
qed

lemma dec_inj [simp]: "dec m = dec n \<longleftrightarrow> m = n"
  by (metis digits_val_dec)

lemma digit_not_ws: "is_digit c \<Longrightarrow> \<not> is_ws c"
  by (auto simp: is_digit_def is_ws_def)

lemma trim_dec [simp]: "trim (dec n) = dec n"
  by (rule trim_no_ws) (auto dest: dec_digits digit_not_ws)

text \<open>A digit string without superfluous leading zeros is what its value prints as.\<close>

lemma dec_digits_val: "list_all is_digit k \<Longrightarrow> k = [48] \<or> hd k \<noteq> 48 \<Longrightarrow> k \<noteq> [] \<Longrightarrow> dec (digits_val k) = k"
proof (induction k rule: rev_induct)
  case (snoc c k)
  have c: "48 \<le> c" "c \<le> 57" using snoc.prems by (auto simp: is_digit_def)
  show ?case
  proof (cases "k = []")
    case True
    then show ?thesis using c digits_val_snoc [of "[]" c] by (simp add: dec.simps)
  next
    case False
    with snoc.prems have "hd k \<noteq> 48" by (auto simp: append_eq_Cons_conv)
    with snoc.IH snoc.prems False have ih: "dec (digits_val k) = k" by simp
    have "0 < digits_val k"
    proof (rule ccontr)
      assume "\<not> 0 < digits_val k"
      with ih have "k = dec 0" by simp
      with \<open>hd k \<noteq> 48\<close> show False by (simp add: dec.simps)
    qed
    then have "\<not> digits_val (k @ [c]) < 10" by simp
    then have "dec (digits_val (k @ [c])) = dec (digits_val (k @ [c]) div 10) @ [48 + digits_val (k @ [c]) mod 10]"
      by (subst dec.simps) simp
    moreover have "digits_val (k @ [c]) div 10 = digits_val k" "digits_val (k @ [c]) mod 10 = c - 48"
    proof -
      from c obtain d where d: "c = 48 + d" "d < 10" using le_Suc_ex by fastforce
      show "digits_val (k @ [c]) div 10 = digits_val k" "digits_val (k @ [c]) mod 10 = c - 48"
        unfolding digits_val_snoc using d by simp_all
    qed
    ultimately show ?thesis using ih c by simp
  qed
qed simp

end
