(* ===== verification/JsNumber.thy ===== *)
theory JsNumber
  imports JsString "HOL-Library.Log_Nat"
begin

text \<open>
  JavaScript numbers: IEEE 754 binary64 values. A finite number is the rational it denotes
  (\<open>Num r\<close>; the two zeros are one value, which no modelled operation can tell apart), and \<open>rnd\<close>
  rounds a rational to the nearest double, ties to even, with gradual underflow and overflow to
  the infinities. Arithmetic is exact rational arithmetic followed by \<open>rnd\<close>. Printing
  (\<open>num_to_string\<close>, the shortest decimal that rounds back), \<open>toFixed\<close>, \<open>Number(string)\<close>,
  \<open>parseFloat\<close>, \<open>parseInt\<close> with radix 10 and \<open>Math.round\<close> follow ECMA-262.
  The main facts: \<open>rnd\<close> is idempotent and exact on integers up to \<open>2 ^ 53\<close>, and reading back a
  printed double gives that double.
\<close>

datatype jsnum = NaN | PosInf | NegInf | Num rat

subsection \<open>Rounding to nearest, ties to even\<close>

definition rhe :: "rat \<Rightarrow> int" where
  "rhe x = (let f = \<lfloor>x\<rfloor>; d = x - of_int f in
     if d < 1 / 2 then f else if d > 1 / 2 then f + 1 else if even f then f else f + 1)"

lemma rhe_of_int [simp]: "rhe (of_int z) = z"
  by (simp add: rhe_def)

lemma rhe_bounds: "of_int (rhe x) \<le> x + 1 / 2" "x - 1 / 2 \<le> of_int (rhe x)"
  unfolding rhe_def Let_def by (auto simp: not_less) linarith+

lemma rhe_ge_int: "of_int z \<le> x \<Longrightarrow> z \<le> rhe x"
proof -
  assume "of_int z \<le> x"
  then have "z \<le> \<lfloor>x\<rfloor>" by (simp add: le_floor_iff)
  then show ?thesis unfolding rhe_def Let_def by auto
qed

lemma rhe_le_int: "x \<le> of_int z \<Longrightarrow> rhe x \<le> z"
proof (cases "x = of_int z")
  case False
  assume "x \<le> of_int z"
  with False have "\<lfloor>x\<rfloor> < z" by (simp add: floor_less_iff)
  then show ?thesis unfolding rhe_def Let_def by auto
qed simp

text \<open>The exponent of the leading bit of a positive rational.\<close>

definition ilog2 :: "rat \<Rightarrow> int" where
  "ilog2 r = (let (n, d) = quotient_of r; e = bitlen n - bitlen d
     in if 2 powi e \<le> r then e else e - 1)"

lemma bitlen_rat_bounds:
  assumes "0 < n"
  shows "2 powi (bitlen n - 1) \<le> (of_int n :: rat)" "(of_int n :: rat) < 2 powi bitlen n"
proof -
  have b: "2 ^ nat (bitlen n - 1) \<le> n" "n < 2 ^ nat (bitlen n)"
    using bitlen_bounds [OF assms] by auto
  have pos: "0 < bitlen n" using assms by (simp add: bitlen_eq_zero_iff order_less_le bitlen_nonneg)
  have "(of_int (2 ^ nat (bitlen n - 1)) :: rat) \<le> of_int n" using b(1) by (simp only: of_int_le_iff)
  then show "2 powi (bitlen n - 1) \<le> (of_int n :: rat)" using pos by (simp add: power_int_def)
  have "(of_int n :: rat) < of_int (2 ^ nat (bitlen n))" using b(2) by (simp only: of_int_less_iff)
  then show "(of_int n :: rat) < 2 powi bitlen n" using pos by (simp add: power_int_def)
qed

lemma ilog2_bounds:
  assumes "0 < r"
  shows "2 powi ilog2 r \<le> r \<and> r < 2 powi (ilog2 r + 1)"
proof -
  obtain n d where q: "quotient_of r = (n, d)" by fastforce
  have d: "0 < d" by (rule quotient_of_denom_pos [OF q])
  have r: "r = of_int n / of_int d" by (rule quotient_of_div [OF q])
  with assms d have n: "0 < n" by (simp add: zero_less_divide_iff)
  let ?e = "bitlen n - bitlen d"
  have dr: "0 < (of_int d :: rat)" using d by simp
  have "r * of_int d = of_int n" using r d by simp
  moreover have "(of_int n :: rat) < 2 powi bitlen n" using bitlen_rat_bounds [OF n] by simp
  ultimately have "r * of_int d < 2 powi bitlen n" by simp
  moreover have "r * 2 powi (bitlen d - 1) \<le> r * of_int d"
    using bitlen_rat_bounds(1) [OF d] assms by (intro mult_left_mono) auto
  ultimately have "r * 2 powi (bitlen d - 1) < 2 powi bitlen n" by simp
  also have "(2 :: rat) powi bitlen n = 2 powi (?e + 1) * 2 powi (bitlen d - 1)"
    by (simp add: power_int_add [symmetric])
  finally have up: "r < 2 powi (?e + 1)" by (simp add: mult_less_cancel_right)
  have "2 powi (bitlen n - 1) \<le> r * of_int d"
    using bitlen_rat_bounds(1) [OF n] \<open>r * of_int d = of_int n\<close> by simp
  also have "\<dots> \<le> r * 2 powi bitlen d"
    using bitlen_rat_bounds(2) [OF d] assms by (intro mult_left_mono) auto
  finally have "2 powi (?e - 1) * 2 powi bitlen d \<le> r * 2 powi bitlen d"
    by (simp add: power_int_add [symmetric])
  then have lo: "2 powi (?e - 1) \<le> r" by simp
  show ?thesis using up lo by (simp add: ilog2_def q Let_def)
qed

lemma powi2_less_iff [simp]: "(2 :: rat) powi a < 2 powi b \<longleftrightarrow> a < b"
proof
  assume l: "(2 :: rat) powi a < 2 powi b"
  show "a < b"
  proof (rule ccontr)
    assume "\<not> a < b"
    then have "(2 :: rat) powi b \<le> 2 powi a" by (intro power_int_increasing) auto
    with l show False by simp
  qed
next
  assume "a < b"
  then show "(2 :: rat) powi a < 2 powi b" by (intro power_int_strict_increasing) auto
qed

lemma powi2_le_iff [simp]: "(2 :: rat) powi a \<le> 2 powi b \<longleftrightarrow> a \<le> b"
  by (simp add: linorder_not_less [symmetric])

lemma ilog2_unique:
  assumes "2 powi e \<le> r" "r < 2 powi (e + 1)"
  shows "ilog2 r = e"
proof -
  have "0 < r" using assms(1) by (rule order_less_le_trans [rotated]) simp
  then have b: "2 powi ilog2 r \<le> r" "r < 2 powi (ilog2 r + 1)" using ilog2_bounds by auto
  have "(2 :: rat) powi e < 2 powi (ilog2 r + 1)" using assms(1) b(2) by (rule order_le_less_trans)
  moreover have "(2 :: rat) powi ilog2 r < 2 powi (e + 1)" using b(1) assms(2) by (rule order_le_less_trans)
  ultimately show ?thesis by simp
qed

definition qexp :: "rat \<Rightarrow> int" where
  "qexp x = max (ilog2 \<bar>x\<bar> - 52) (- 1074)"

definition dbl_limit :: rat where
  "dbl_limit = 2 ^ 1024"

definition rnd :: "rat \<Rightarrow> jsnum" where
  "rnd x = (if x = 0 then Num 0 else
     (let q = qexp x; y = of_int (rhe (\<bar>x\<bar> / 2 powi q)) * 2 powi q
      in if y \<ge> dbl_limit then (if 0 < x then PosInf else NegInf) else Num (sgn x * y)))"

definition is_double :: "rat \<Rightarrow> bool" where
  "is_double x \<longleftrightarrow> rnd x = Num x"

lemma rnd_0 [simp]: "rnd 0 = Num 0"
  by (simp add: rnd_def)

text \<open>A rational whose scaled significand is an integer is a double.\<close>

lemma rnd_exact:
  assumes int: "\<bar>x\<bar> / 2 powi qexp x = of_int m" and small: "\<bar>x\<bar> < dbl_limit"
  shows "rnd x = Num x"
proof (cases "x = 0")
  case False
  have "of_int m * 2 powi qexp x = \<bar>x\<bar>" using int by (simp add: field_simps)
  moreover have "sgn x * \<bar>x\<bar> = x" by (rule sgn_mult_abs)
  ultimately show ?thesis using False small by (simp add: rnd_def Let_def int)
qed simp

lemma powi2_of_int: "0 \<le> q \<Longrightarrow> (2 :: rat) powi q = of_int (2 ^ nat q)"
  by (simp add: power_int_def)

lemma scaled_int:
  fixes x :: rat
  assumes "x = of_int k * 2 powi p" and "q \<le> p"
  shows "x / 2 powi q = of_int (k * 2 ^ nat (p - q))"
proof -
  have "x / 2 powi q = of_int k * 2 powi (p - q)"
    using assms(1) by (simp add: power_int_diff)
  also have "\<dots> = of_int (k * 2 ^ nat (p - q))"
    using assms(2) powi2_of_int [of "p - q"] by simp
  finally show ?thesis .
qed

lemma rnd_dyadic:
  assumes x: "\<bar>x\<bar> = of_int k * 2 powi p" and "qexp x \<le> p" and "\<bar>x\<bar> < dbl_limit"
  shows "rnd x = Num x"
  using rnd_exact [OF scaled_int [OF x assms(2)] assms(3)] .

lemma rnd_of_int:
  assumes "\<bar>z\<bar> \<le> 2 ^ 53"
  shows "rnd (of_int z) = Num (of_int z)"
proof (cases "z = 0")
  case False
  have big: "(2 :: rat) ^ 53 < dbl_limit" unfolding dbl_limit_def by (rule power_strict_increasing) auto
  have le: "\<bar>of_int z :: rat\<bar> \<le> 2 ^ 53"
    using assms by (metis of_int_abs of_int_le_iff of_int_numeral of_int_power)
  have pos: "0 < \<bar>of_int z :: rat\<bar>" using False by simp
  show ?thesis
  proof (cases "\<bar>z\<bar> = 2 ^ 53")
    case True
    have a: "\<bar>of_int z :: rat\<bar> = 2 powi 53"
      using True by (metis of_int_abs of_int_numeral of_int_power power_int_numeral)
    have l: "ilog2 \<bar>of_int z\<bar> = 53" unfolding a by (rule ilog2_unique) auto
    then show ?thesis
      using big by (intro rnd_dyadic [where k = "1" and p = 53]) (auto simp: qexp_def a)
  next
    case False
    then have "\<bar>of_int z :: rat\<bar> < 2 ^ 53"
      using le assms by (metis of_int_abs of_int_less_iff of_int_numeral of_int_power order_less_le)
    then have lt: "\<bar>of_int z :: rat\<bar> < 2 powi 53" by simp
    have "2 powi ilog2 \<bar>of_int z :: rat\<bar> \<le> \<bar>of_int z :: rat\<bar>" using ilog2_bounds [OF pos] by simp
    with lt have "(2 :: rat) powi ilog2 \<bar>of_int z\<bar> < 2 powi 53" by (rule order_le_less_trans [rotated])
    then have "ilog2 \<bar>of_int z\<bar> < 53" by (simp only: powi2_less_iff)
    then have "qexp (of_int z) \<le> 0" by (simp add: qexp_def)
    then show ?thesis
      using le big by (intro rnd_dyadic [where k = "\<bar>z\<bar>" and p = 0]) auto
  qed
qed simp

lemma rnd_of_nat: "n \<le> 2 ^ 53 \<Longrightarrow> rnd (of_nat n) = Num (of_nat n)"
proof -
  assume "n \<le> 2 ^ 53"
  then have "\<bar>int n\<bar> \<le> 2 ^ 53"
    by (metis abs_of_nat of_nat_le_iff of_nat_numeral of_nat_power)
  then show ?thesis using rnd_of_int [of "int n"] by simp
qed

text \<open>The value that \<open>rnd\<close> computes, with its bounds.\<close>

lemma rnd_NumD:
  assumes "rnd x = Num y" and "x \<noteq> 0"
  shows "\<bar>y\<bar> = of_int (rhe (\<bar>x\<bar> / 2 powi qexp x)) * 2 powi qexp x" and "\<bar>y\<bar> < dbl_limit"
    and "y = sgn x * \<bar>y\<bar>"
proof -
  let ?y = "of_int (rhe (\<bar>x\<bar> / 2 powi qexp x)) * 2 powi qexp x :: rat"
  have r: "y = sgn x * ?y" "?y < dbl_limit"
    using assms by (auto simp: rnd_def Let_def split: if_splits)
  have "0 \<le> rhe (\<bar>x\<bar> / 2 powi qexp x)" by (rule rhe_ge_int) simp
  then have "0 \<le> ?y" by simp
  moreover have "\<bar>sgn x\<bar> = 1" using assms(2) by (simp add: abs_sgn_eq)
  ultimately have "\<bar>y\<bar> = ?y" using abs_mult [of "sgn x" ?y] r(1) by (simp only: abs_of_nonneg mult_1)
  with r show "\<bar>y\<bar> = ?y" "\<bar>y\<bar> < dbl_limit" "y = sgn x * \<bar>y\<bar>" by auto
qed

lemma rnd_ge_leading:
  assumes "rnd x = Num y" and "2 powi e \<le> \<bar>x\<bar>" and "- 1022 \<le> e"
  shows "2 powi e \<le> \<bar>y\<bar>"
proof -
  have pos: "0 < \<bar>x\<bar>" using assms(2) by (rule order_less_le_trans [rotated]) simp
  let ?l = "ilog2 \<bar>x\<bar>"
  have b: "2 powi ?l \<le> \<bar>x\<bar>" "\<bar>x\<bar> < 2 powi (?l + 1)" using ilog2_bounds [OF pos] by auto
  have "(2 :: rat) powi e < 2 powi (?l + 1)" using assms(2) b(2) by (rule order_le_less_trans)
  then have el: "e \<le> ?l" by simp
  then have q: "qexp x = ?l - 52" using assms(3) by (simp add: qexp_def)
  have "2 powi 52 \<le> \<bar>x\<bar> / 2 powi qexp x"
    using b(1) unfolding q by (simp add: field_simps power_int_diff)
  then have "of_int (2 ^ 52) \<le> \<bar>x\<bar> / 2 powi qexp x" by simp
  then have "2 ^ 52 \<le> rhe (\<bar>x\<bar> / 2 powi qexp x)" by (rule rhe_ge_int)
  then have "of_int (2 ^ 52) \<le> (of_int (rhe (\<bar>x\<bar> / 2 powi qexp x)) :: rat)" by (simp only: of_int_le_iff)
  then have "of_int (2 ^ 52) * 2 powi qexp x \<le> \<bar>y\<bar>"
    using rnd_NumD(1) [OF assms(1)] pos by (auto intro!: mult_right_mono)
  moreover have "(of_int (2 ^ 52) :: rat) * 2 powi qexp x = 2 powi ?l"
    unfolding q by (simp add: power_int_diff)
  moreover have "(2 :: rat) powi e \<le> 2 powi ?l" using el by simp
  ultimately show ?thesis by (metis order_trans)
qed

theorem rnd_idem:
  assumes "rnd x = Num y"
  shows "rnd y = Num y"
proof (cases "x = 0")
  case False
  let ?q = "qexp x" and ?m = "rhe (\<bar>x\<bar> / 2 powi qexp x)"
  have y: "\<bar>y\<bar> = of_int ?m * 2 powi ?q" "\<bar>y\<bar> < dbl_limit" using rnd_NumD [OF assms False] by auto
  have pos: "0 < \<bar>x\<bar>" using False by simp
  have "\<bar>x\<bar> < 2 powi (ilog2 \<bar>x\<bar> + 1)" using ilog2_bounds [OF pos] by simp
  also have "\<dots> \<le> 2 powi (?q + 53)" by (simp add: qexp_def)
  finally have "\<bar>x\<bar> / 2 powi ?q \<le> of_int (2 ^ 53)" by (simp add: field_simps power_int_add)
  then have m: "?m \<le> 2 ^ 53" by (rule rhe_le_int)
  show ?thesis
  proof (cases "y = 0")
    case False
    then have ypos: "0 < \<bar>y\<bar>" by simp
    have le: "2 powi ilog2 \<bar>y\<bar> \<le> \<bar>y\<bar>" using ilog2_bounds [OF ypos] by simp
    show ?thesis
    proof (cases "?m = 2 ^ 53")
      case True
      then have y': "\<bar>y\<bar> = 2 powi (?q + 53)" using y(1) by (simp add: power_int_add)
      then have "ilog2 \<bar>y\<bar> = ?q + 53" using ilog2_unique [of "?q + 53" "\<bar>y\<bar>"] by simp
      then have "qexp y \<le> ?q + 53" by (auto simp: qexp_def)
      with y' y(2) show ?thesis by (intro rnd_dyadic [where k = 1 and p = "?q + 53"]) auto
    next
      case False
      with m have "?m < 2 ^ 53" by simp
      then have "(of_int ?m :: rat) < of_int (2 ^ 53)" by (simp only: of_int_less_iff)
      then have "\<bar>y\<bar> < of_int (2 ^ 53) * 2 powi ?q" unfolding y(1) by (intro mult_strict_right_mono) auto
      also have "(of_int (2 ^ 53) :: rat) * 2 powi ?q = 2 powi (?q + 53)" by (simp add: power_int_add)
      finally have "(2 :: rat) powi ilog2 \<bar>y\<bar> < 2 powi (?q + 53)" using le by (rule order_le_less_trans [rotated])
      then have "ilog2 \<bar>y\<bar> < ?q + 53" by (simp only: powi2_less_iff)
      then have "qexp y \<le> ?q" by (auto simp: qexp_def)
      with y show ?thesis by (intro rnd_dyadic [where k = ?m and p = ?q]) auto
    qed
  qed simp
qed (use assms in auto)

subsection \<open>Arithmetic and comparison\<close>

definition num_finite :: "jsnum \<Rightarrow> bool" where
  "num_finite x \<longleftrightarrow> (case x of Num _ \<Rightarrow> True | _ \<Rightarrow> False)"

text \<open>A value that JavaScript code can hold: finite values are doubles.\<close>

definition num_wf :: "jsnum \<Rightarrow> bool" where
  "num_wf x \<longleftrightarrow> (case x of Num r \<Rightarrow> is_double r | _ \<Rightarrow> True)"

definition inf_of_sign :: "rat \<Rightarrow> jsnum" where
  "inf_of_sign s = (if s = 0 then NaN else if 0 < s then PosInf else NegInf)"

fun num_sign :: "jsnum \<Rightarrow> rat" where
  "num_sign NaN = 0"
| "num_sign PosInf = 1"
| "num_sign NegInf = - 1"
| "num_sign (Num r) = sgn r"

fun num_mul :: "jsnum \<Rightarrow> jsnum \<Rightarrow> jsnum" where
  "num_mul (Num a) (Num b) = rnd (a * b)"
| "num_mul NaN b = NaN"
| "num_mul a NaN = NaN"
| "num_mul a b = inf_of_sign (num_sign a * num_sign b)"

text \<open>Division; a zero divisor counts as the positive zero.\<close>

fun num_div :: "jsnum \<Rightarrow> jsnum \<Rightarrow> jsnum" where
  "num_div (Num a) (Num b) = (if b = 0 then inf_of_sign a else rnd (a / b))"
| "num_div NaN b = NaN"
| "num_div a NaN = NaN"
| "num_div (Num a) b = Num 0"
| "num_div a (Num b) = inf_of_sign (num_sign a * (if b = 0 then 1 else sgn b))"
| "num_div a b = NaN"

fun num_add :: "jsnum \<Rightarrow> jsnum \<Rightarrow> jsnum" where
  "num_add (Num a) (Num b) = rnd (a + b)"
| "num_add NaN b = NaN"
| "num_add a NaN = NaN"
| "num_add (Num a) b = b"
| "num_add a (Num b) = a"
| "num_add a b = (if a = b then a else NaN)"

fun num_neg :: "jsnum \<Rightarrow> jsnum" where
  "num_neg NaN = NaN"
| "num_neg PosInf = NegInf"
| "num_neg NegInf = PosInf"
| "num_neg (Num r) = Num (- r)"

fun num_le :: "jsnum \<Rightarrow> jsnum \<Rightarrow> bool" where
  "num_le NaN b = False"
| "num_le a NaN = False"
| "num_le NegInf b = True"
| "num_le a PosInf = True"
| "num_le (Num a) (Num b) = (a \<le> b)"
| "num_le a b = False"

definition num_eq :: "jsnum \<Rightarrow> jsnum \<Rightarrow> bool" where
  "num_eq a b \<longleftrightarrow> a \<noteq> NaN \<and> a = b"

definition num_lt :: "jsnum \<Rightarrow> jsnum \<Rightarrow> bool" where
  "num_lt a b \<longleftrightarrow> num_le a b \<and> \<not> num_eq a b"

definition num_is_integer :: "jsnum \<Rightarrow> bool" where
  "num_is_integer x \<longleftrightarrow> (case x of Num r \<Rightarrow> r = of_int \<lfloor>r\<rfloor> | _ \<Rightarrow> False)"

text \<open>\<open>Math.floor\<close>, \<open>Math.round\<close> (half up), \<open>Math.abs\<close> and \<open>Math.sign\<close>.\<close>

fun math_floor :: "jsnum \<Rightarrow> jsnum" where
  "math_floor (Num r) = Num (of_int \<lfloor>r\<rfloor>)"
| "math_floor x = x"

fun math_round :: "jsnum \<Rightarrow> jsnum" where
  "math_round (Num r) = rnd (of_int \<lfloor>r + 1 / 2\<rfloor>)"
| "math_round x = x"

fun math_abs :: "jsnum \<Rightarrow> jsnum" where
  "math_abs NaN = NaN"
| "math_abs (Num r) = Num \<bar>r\<bar>"
| "math_abs _ = PosInf"

fun math_sign :: "jsnum \<Rightarrow> jsnum" where
  "math_sign NaN = NaN"
| "math_sign x = Num (num_sign x)"

lemma num_wf_rnd [simp, js_wf]: "num_wf (rnd x)"
  by (cases "rnd x") (auto simp: num_wf_def is_double_def dest: rnd_idem)

lemma num_wf_simps [simp]: "num_wf NaN" "num_wf PosInf" "num_wf NegInf" "num_wf (Num r) = is_double r"
  by (auto simp: num_wf_def)

lemma is_double_0 [simp]: "is_double 0"
  by (simp add: is_double_def)

lemma is_double_of_nat: "n \<le> 2 ^ 53 \<Longrightarrow> is_double (of_nat n)"
  by (simp add: is_double_def rnd_of_nat)

lemma num_wf_inf_of_sign [simp]: "num_wf (inf_of_sign s)"
  by (simp add: inf_of_sign_def)

lemma num_wf_mul [js_wf]: "num_wf (num_mul a b)"
  by (cases "(a, b)" rule: num_mul.cases) (auto simp del: rnd_0)

lemma num_wf_div [js_wf]: "num_wf (num_div a b)"
  by (cases "(a, b)" rule: num_div.cases) (auto simp del: rnd_0)

subsection \<open>Printing: the shortest decimal that rounds back\<close>

definition ilog10 :: "rat \<Rightarrow> int" where
  "ilog10 r = (let (n, d) = quotient_of r;
       e = int (length (dec (nat n))) - int (length (dec (nat d)))
     in if 10 powi e \<le> r then e else e - 1)"

text \<open>
  For a positive double \<open>x\<close> with \<open>10 powi (n - 1) \<le> x < 10 powi n\<close>: the \<open>k\<close>-digit decimals next
  to \<open>x\<close> that round to \<open>x\<close>, the closer one first (the even one on a tie). The result is the
  significand \<open>s\<close> and the exponent \<open>p\<close> of \<open>s * 10 powi p\<close>.
\<close>

definition dec_candidate :: "rat \<Rightarrow> int \<Rightarrow> (nat \<times> int) option" where
  "dec_candidate x p =
     (let u = x / 10 powi p; lo = \<lfloor>u\<rfloor>; hi = lo + 1;
          lo_ok = (0 < lo \<and> rnd (of_int lo * 10 powi p) = Num x);
          hi_ok = (rnd (of_int hi * 10 powi p) = Num x)
      in if lo_ok \<and> hi_ok then
           (if u - of_int lo < of_int hi - u \<or> (u - of_int lo = of_int hi - u \<and> even lo)
            then Some (nat lo, p) else Some (nat hi, p))
         else if lo_ok then Some (nat lo, p)
         else if hi_ok then Some (nat hi, p)
         else None)"

fun shortest_from :: "nat \<Rightarrow> rat \<Rightarrow> int \<Rightarrow> (nat \<times> int) option" where
  "shortest_from 0 x p = None"
| "shortest_from (Suc fuel) x p =
     (case dec_candidate x p of Some r \<Rightarrow> Some r | None \<Rightarrow> shortest_from fuel x (p - 1))"

definition shortest :: "rat \<Rightarrow> (nat \<times> int) option" where
  "shortest x = shortest_from 1400 x (ilog10 x)"

definition zeros :: "nat \<Rightarrow> jstring" where
  "zeros n = replicate n 48"

text \<open>Number::toString for \<open>s * 10 powi p\<close>, \<open>s\<close> positive; trailing zeros of \<open>s\<close> are moved into \<open>p\<close>.\<close>

fun strip_zeros :: "nat \<Rightarrow> nat \<Rightarrow> int \<Rightarrow> nat \<times> int" where
  "strip_zeros 0 s p = (s, p)"
| "strip_zeros (Suc f) s p =
     (if s mod 10 = 0 \<and> s \<noteq> 0 then strip_zeros f (s div 10) (p + 1) else (s, p))"

definition exp_string :: "int \<Rightarrow> jstring" where
  "exp_string e = (if e < 0 then [101, 45] @ dec (nat (- e)) else [101, 43] @ dec (nat e))"

definition format_dec :: "nat \<Rightarrow> int \<Rightarrow> jstring" where
  "format_dec s p =
     (let ds = dec s; k = int (length ds); n = p + k in
      if k \<le> n \<and> n \<le> 21 then ds @ zeros (nat (n - k))
      else if 0 < n \<and> n \<le> 21 then take (nat n) ds @ [46] @ drop (nat n) ds
      else if - 6 < n \<and> n \<le> 0 then [48, 46] @ zeros (nat (- n)) @ ds
      else if k = 1 then ds @ exp_string (n - 1)
      else take 1 ds @ [46] @ drop 1 ds @ exp_string (n - 1))"

definition pos_to_string :: "rat \<Rightarrow> jstring" where
  "pos_to_string x = (case shortest x of
       None \<Rightarrow> []
     | Some (s, p) \<Rightarrow> (case strip_zeros (length (dec s)) s p of (s', p') \<Rightarrow> format_dec s' p'))"

fun num_to_string :: "jsnum \<Rightarrow> jstring" where
  "num_to_string NaN = js ''NaN''"
| "num_to_string PosInf = js ''Infinity''"
| "num_to_string NegInf = js ''-Infinity''"
| "num_to_string (Num r) =
     (if r = 0 then js ''0'' else if r < 0 then 45 # pos_to_string (- r) else pos_to_string r)"

text \<open>\<open>Number.prototype.toFixed(f)\<close>: the integer nearest to \<open>x * 10 ^ f\<close>, the larger one on a tie.\<close>

definition fixed_digits :: "nat \<Rightarrow> nat \<Rightarrow> jstring" where
  "fixed_digits f n =
     (if f = 0 then dec n
      else (let ds = dec n; padded = (if length ds \<le> f then zeros (Suc f - length ds) @ ds else ds);
                k = length padded in
            take (k - f) padded @ [46] @ drop (k - f) padded))"

fun to_fixed :: "nat \<Rightarrow> jsnum \<Rightarrow> jstring" where
  "to_fixed f (Num r) =
     (if \<bar>r\<bar> \<ge> 10 ^ 21 then num_to_string (Num r)
      else (let n = nat \<lfloor>\<bar>r\<bar> * 10 ^ f + 1 / 2\<rfloor> in
            (if r < 0 then [45] else []) @ fixed_digits f n))"
| "to_fixed f x = num_to_string x"

subsection \<open>Reading decimals\<close>

text \<open>The exponent part: nothing, or e/E with an optional sign and digits.\<close>

definition exp_digits :: "jstring \<Rightarrow> nat option" where
  "exp_digits s = (if s \<noteq> [] \<and> list_all is_digit s then Some (digits_val s) else None)"

fun exp_part :: "jstring \<Rightarrow> int option" where
  "exp_part [] = Some 0"
| "exp_part (c # r) =
     (if c = 101 \<or> c = 69 then
        (case r of
           [] \<Rightarrow> None
         | d # r' \<Rightarrow>
             if d = 45 then map_option (\<lambda>n. - int n) (exp_digits r')
             else if d = 43 then map_option int (exp_digits r')
             else map_option int (exp_digits r))
      else None)"

text \<open>Integer digits, the digits after a point when there is one, and the exponent.\<close>

definition dec_parts :: "jstring \<Rightarrow> (jstring \<times> jstring option \<times> int) option" where
  "dec_parts s =
     (let ip = takeWhile is_digit s; r = dropWhile is_digit s in
      if r \<noteq> [] \<and> hd r = 46 then
        map_option (\<lambda>e. (ip, Some (takeWhile is_digit (tl r)), e)) (exp_part (dropWhile is_digit (tl r)))
      else map_option (\<lambda>e. (ip, None, e)) (exp_part r))"

definition frac_digits :: "jstring option \<Rightarrow> jstring" where
  "frac_digits fo = (case fo of None \<Rightarrow> [] | Some f \<Rightarrow> f)"

definition dec_value :: "jstring \<Rightarrow> jstring option \<Rightarrow> int \<Rightarrow> rat" where
  "dec_value ip fo e =
     of_nat (digits_val (ip @ frac_digits fo)) * 10 powi (e - int (length (frac_digits fo)))"

definition with_sign :: "bool \<Rightarrow> jsnum \<Rightarrow> jsnum" where
  "with_sign neg x = (if neg then num_neg x else x)"

definition str_udec :: "jstring \<Rightarrow> jsnum option" where
  "str_udec s =
     (if s = js ''Infinity'' then Some PosInf
      else (case dec_parts s of
              None \<Rightarrow> None
            | Some (ip, fo, e) \<Rightarrow>
                if ip = [] \<and> frac_digits fo = [] then None else Some (rnd (dec_value ip fo e))))"

definition str_dec :: "jstring \<Rightarrow> jsnum option" where
  "str_dec s = (case s of
       [] \<Rightarrow> None
     | c # r \<Rightarrow> if c = 45 then map_option num_neg (str_udec r)
                else if c = 43 then str_udec r else str_udec s)"

definition radix_digit :: "nat \<Rightarrow> nat \<Rightarrow> nat option" where
  "radix_digit b c =
     (let v = (if is_digit c then Some (c - 48)
               else if 97 \<le> c \<and> c \<le> 102 then Some (c - 87)
               else if 65 \<le> c \<and> c \<le> 70 then Some (c - 55) else None)
      in (case v of None \<Rightarrow> None | Some d \<Rightarrow> if d < b then Some d else None))"

fun radix_value :: "nat \<Rightarrow> nat \<Rightarrow> jstring \<Rightarrow> nat option" where
  "radix_value b acc [] = Some acc"
| "radix_value b acc (c # r) =
     (case radix_digit b c of None \<Rightarrow> None | Some d \<Rightarrow> radix_value b (b * acc + d) r)"

definition radix_of :: "nat \<Rightarrow> nat option" where
  "radix_of c = (if c = 120 \<or> c = 88 then Some 16 else if c = 111 \<or> c = 79 then Some 8
     else if c = 98 \<or> c = 66 then Some 2 else None)"

definition str_radix :: "jstring \<Rightarrow> jsnum option" where
  "str_radix s = (case s of
       z # c # d # r \<Rightarrow>
         if z = 48 then
           (case radix_of c of
              None \<Rightarrow> None
            | Some b \<Rightarrow> map_option (\<lambda>n. rnd (of_nat n)) (radix_value b 0 (d # r)))
         else None
     | _ \<Rightarrow> None)"

text \<open>\<open>Number(s)\<close> for a string (StringToNumber).\<close>

definition string_to_number :: "jstring \<Rightarrow> jsnum" where
  "string_to_number s =
     (let u = trim s in
      if u = [] then Num 0
      else (case str_radix u of
              Some n \<Rightarrow> n
            | None \<Rightarrow> (case str_dec u of Some n \<Rightarrow> n | None \<Rightarrow> NaN)))"

text \<open>\<open>parseFloat(s)\<close>: the longest prefix that is a decimal literal.\<close>

fun longest_dec :: "jstring \<Rightarrow> nat \<Rightarrow> jsnum" where
  "longest_dec s 0 = NaN"
| "longest_dec s (Suc n) =
     (case str_dec (take (Suc n) s) of Some v \<Rightarrow> v | None \<Rightarrow> longest_dec s n)"

definition parse_float :: "jstring \<Rightarrow> jsnum" where
  "parse_float s = (let u = trim_start s in longest_dec u (length u))"

text \<open>\<open>Number.parseInt(s, 10)\<close>: optional sign and the leading run of digits.\<close>

definition parse_int10 :: "jstring \<Rightarrow> jsnum" where
  "parse_int10 s =
     (let u = trim_start s; neg = (u \<noteq> [] \<and> hd u = 45);
          v = (if u \<noteq> [] \<and> (hd u = 45 \<or> hd u = 43) then tl u else u);
          ds = takeWhile is_digit v
      in if ds = [] then NaN else with_sign neg (rnd (of_nat (digits_val ds))))"

text \<open>A JSON number: no plus sign, no leading zeros, digits on both sides of a point.\<close>

definition json_unumber :: "jstring \<Rightarrow> jsnum option" where
  "json_unumber s = (case dec_parts s of
       None \<Rightarrow> None
     | Some (ip, fo, e) \<Rightarrow>
         if ip \<noteq> [] \<and> (ip = [48] \<or> hd ip \<noteq> 48) \<and> fo \<noteq> Some [] then Some (rnd (dec_value ip fo e)) else None)"

definition json_number :: "jstring \<Rightarrow> jsnum option" where
  "json_number s = (case s of
       [] \<Rightarrow> None
     | c # r \<Rightarrow> if c = 45 then map_option num_neg (json_unumber r) else json_unumber s)"

subsection \<open>Reading back a printed number\<close>

lemma digits_val_append: "digits_val (a @ b) = digits_val a * 10 ^ length b + digits_val b"
proof (induction b rule: rev_induct)
  case (snoc c b)
  have "digits_val (a @ b @ [c]) = 10 * digits_val (a @ b) + (c - 48)"
    using digits_val_snoc [of "a @ b" c] by simp
  with snoc show ?case by (simp add: algebra_simps)
qed simp

lemma digits_val_zeros [simp]: "digits_val (zeros n) = 0"
  unfolding zeros_def
proof (induction n)
  case (Suc n)
  then show ?case using digits_val_snoc [of "replicate n 48" 48]
    by (simp add: replicate_append_same [symmetric])
qed simp

lemma length_zeros [simp]: "length (zeros n) = n"
  by (simp add: zeros_def)

lemma zeros_digits: "c \<in> set (zeros n) \<Longrightarrow> is_digit c"
  by (simp add: zeros_def is_digit_def)

lemma hd_dec: "0 < n \<Longrightarrow> hd (dec n) \<noteq> 48"
proof (induction n rule: dec.induct)
  case (1 n)
  show ?case
  proof (cases "n < 10")
    case True
    with "1.prems" show ?thesis by (simp add: dec.simps [of n])
  next
    case False
    then have "0 < n div 10" by simp
    with False 1 show ?thesis by (simp add: dec.simps [of n])
  qed
qed

lemma takeWhile_digits: "\<forall>c \<in> set a. is_digit c \<Longrightarrow> b = [] \<or> \<not> is_digit (hd b) \<Longrightarrow>
    takeWhile is_digit (a @ b) = a \<and> dropWhile is_digit (a @ b) = b"
  by (induction a) (auto simp: dropWhile_eq_self_iff takeWhile_eq_Nil_iff)

lemma exp_part_exp_string: "exp_part (exp_string e) = Some e"
proof -
  have *: "list_all is_digit (dec n)" for n by (auto simp: list_all_iff dest: dec_digits)
  show ?thesis by (auto simp: exp_string_def exp_digits_def *)
qed

lemma dec_parts_plain:
  assumes "\<forall>c \<in> set ip. is_digit c" and "r = [] \<or> hd r = 101"
  shows "dec_parts (ip @ r) = map_option (\<lambda>e. (ip, None, e)) (exp_part r)"
  using takeWhile_digits [of ip r] assms by (auto simp: dec_parts_def Let_def is_digit_def)

lemma dec_parts_point:
  assumes "\<forall>c \<in> set ip. is_digit c" and "\<forall>c \<in> set fp. is_digit c" and "r = [] \<or> hd r = 101"
  shows "dec_parts (ip @ [46] @ fp @ r) = map_option (\<lambda>e. (ip, Some fp, e)) (exp_part r)"
  using takeWhile_digits [of ip "46 # fp @ r"] takeWhile_digits [of fp r] assms
  by (auto simp: dec_parts_def Let_def is_digit_def)

definition json_ok :: "jstring \<Rightarrow> rat \<Rightarrow> bool" where
  "json_ok s v \<longleftrightarrow> (\<exists>ip fo e. dec_parts s = Some (ip, fo, e) \<and> ip \<noteq> [] \<and> (ip = [48] \<or> hd ip \<noteq> 48) \<and>
     fo \<noteq> Some [] \<and> dec_value ip fo e = v)"

lemma powi10_split: "(10 :: rat) powi p = 10 powi (p - int k) * 10 ^ k"
  by (simp add: power_int_diff)

lemma hd_exp_string: "hd (exp_string e) = 101"
  by (simp add: exp_string_def)

lemma json_ok_format_dec:
  assumes s: "0 < s"
  shows "json_ok (format_dec s p) (of_nat s * 10 powi p)"
proof -
  let ?ds = "dec s" and ?k = "int (length (dec s))"
  let ?n = "p + ?k"
  have ds: "\<forall>c \<in> set ?ds. is_digit c" by (auto dest: dec_digits)
  have h: "hd ?ds \<noteq> 48" using s by (rule hd_dec)
  consider (plain) "?k \<le> ?n" "?n \<le> 21" | (point) "\<not> ?k \<le> ?n" "0 < ?n" "?n \<le> 21"
    | (small) "- 6 < ?n" "?n \<le> 0" | (exp1) "\<not> (- 6 < ?n \<and> ?n \<le> 21)" "?k = 1"
    | (exp) "\<not> (- 6 < ?n \<and> ?n \<le> 21)" "?k \<noteq> 1"
    by linarith
  then show ?thesis
  proof cases
    case plain
    let ?z = "zeros (nat (?n - ?k))"
    have f: "format_dec s p = ?ds @ ?z" using plain by (simp add: format_dec_def Let_def)
    have "dec_parts (?ds @ ?z) = Some (?ds @ ?z, None, 0)"
      using dec_parts_plain [of "?ds @ ?z" "[]"] ds by (auto dest: zeros_digits)
    moreover have "dec_value (?ds @ ?z) None 0 = of_nat s * 10 powi p"
      using plain by (simp add: dec_value_def frac_digits_def digits_val_append power_int_def)
    ultimately show ?thesis using h by (auto simp: json_ok_def f)
  next
    case point
    let ?i = "take (nat ?n) ?ds" and ?f = "drop (nat ?n) ?ds"
    have f: "format_dec s p = ?i @ [46] @ ?f" using point by (simp add: format_dec_def Let_def)
    have "dec_parts (?i @ [46] @ ?f) = Some (?i, Some ?f, 0)"
      using dec_parts_point [of ?i ?f "[]"] ds by (auto dest: in_set_takeD in_set_dropD)
    moreover have "dec_value ?i (Some ?f) 0 = of_nat s * 10 powi p"
      using point by (simp add: dec_value_def frac_digits_def of_nat_diff algebra_simps)
    moreover have "?i \<noteq> []" "?f \<noteq> []" "hd ?i \<noteq> 48" using point h by auto
    ultimately show ?thesis by (auto simp: json_ok_def f)
  next
    case small
    let ?z = "zeros (nat (- ?n))"
    have "0 < length ?ds" by simp
    with small have k: "p < 0" by linarith
    have f: "format_dec s p = [48] @ [46] @ (?z @ ?ds)" using small k by (simp add: format_dec_def Let_def)
    have "\<forall>c \<in> set (?z @ ?ds). is_digit c" using ds by (auto dest: zeros_digits)
    then have "dec_parts ([48] @ [46] @ (?z @ ?ds) @ []) = Some ([48], Some (?z @ ?ds), 0)"
      using dec_parts_point [of "[48]" "?z @ ?ds" "[]"] by (simp add: is_digit_def)
    moreover have "dec_value [48] (Some (?z @ ?ds)) 0 = of_nat s * 10 powi p"
      using small digits_val_append [of "48 # ?z" ?ds] digits_val_append [of "[48]" ?z] digits_val_snoc [of "[]" 48]
      by (simp add: dec_value_def frac_digits_def)
    ultimately show ?thesis by (auto simp: json_ok_def f)
  next
    case exp1
    have f: "format_dec s p = ?ds @ exp_string (?n - 1)"
      using exp1 by (auto simp: format_dec_def Let_def)
    have "dec_parts (?ds @ exp_string (?n - 1)) = Some (?ds, None, ?n - 1)"
      using dec_parts_plain [of ?ds "exp_string (?n - 1)"] ds
      by (simp add: exp_part_exp_string hd_exp_string)
    moreover have "dec_value ?ds None (?n - 1) = of_nat s * 10 powi p"
      using exp1 by (simp add: dec_value_def frac_digits_def)
    ultimately show ?thesis using h by (auto simp: json_ok_def f)
  next
    case exp
    let ?i = "take 1 ?ds" and ?f = "drop 1 ?ds"
    have f: "format_dec s p = ?i @ [46] @ ?f @ exp_string (?n - 1)"
      using exp by (auto simp: format_dec_def Let_def)
    have "dec_parts (?i @ [46] @ ?f @ exp_string (?n - 1)) = Some (?i, Some ?f, ?n - 1)"
      using dec_parts_point [of ?i ?f "exp_string (?n - 1)"] ds
      by (auto simp: exp_part_exp_string hd_exp_string dest: in_set_takeD in_set_dropD)
    moreover have "dec_value ?i (Some ?f) (?n - 1) = of_nat s * 10 powi p"
      using exp by (simp add: dec_value_def frac_digits_def of_nat_diff Suc_le_eq)
    moreover have "?i \<noteq> []" "hd ?i \<noteq> 48" using h by auto
    moreover have "?f \<noteq> []" using exp by (cases ?ds) auto
    ultimately show ?thesis by (auto simp: json_ok_def f)
  qed
qed

lemma strip_zeros_value:
  "0 < s \<Longrightarrow> strip_zeros f s p = (s', p') \<Longrightarrow>
    0 < s' \<and> of_nat s' * (10 :: rat) powi p' = of_nat s * 10 powi p"
proof (induction f s p rule: strip_zeros.induct)
  case (2 f s p)
  show ?case
  proof (cases "s mod 10 = 0")
    case True
    then have d: "s = 10 * (s div 10)" by presburger
    with "2.prems"(1) have pos: "0 < s div 10" by presburger
    have "strip_zeros f (s div 10) (p + 1) = (s', p')" using "2.prems" True by simp
    from "2.IH" [OF _ pos this] True "2.prems"(1)
    have "0 < s' \<and> of_nat s' * (10 :: rat) powi p' = of_nat (s div 10) * 10 powi (p + 1)" by simp
    moreover have "(of_nat (s div 10) :: rat) * 10 powi (p + 1) = of_nat (10 * (s div 10)) * 10 powi p"
      by (simp add: power_int_add)
    ultimately show ?thesis using d by simp
  qed (use "2.prems" in auto)
qed simp

lemma dec_candidate_Some:
  assumes "dec_candidate x p = Some (s, p')" and "0 < x"
  shows "p' = p \<and> 0 < s \<and> rnd (of_nat s * 10 powi p) = Num x"
proof -
  have "0 \<le> \<lfloor>x / 10 powi p\<rfloor>" using assms(2) by simp
  then show ?thesis
    using assms(1) by (auto simp: dec_candidate_def Let_def split: if_splits)
qed

lemma shortest_from_Some:
  "0 < x \<Longrightarrow> shortest_from f x p = Some (s, p') \<Longrightarrow> 0 < s \<and> rnd (of_nat s * 10 powi p') = Num x"
proof (induction f x p rule: shortest_from.induct)
  case (2 fuel x p)
  show ?case
  proof (cases "dec_candidate x p")
    case None
    with 2 show ?thesis by simp
  next
    case (Some r)
    with "2.prems" have "dec_candidate x p = Some (s, p')" by simp
    from dec_candidate_Some [OF this "2.prems"(1)] show ?thesis by simp
  qed
qed simp

lemma shortest_from_total:
  "j < f \<Longrightarrow> dec_candidate x (p - int j) \<noteq> None \<Longrightarrow> shortest_from f x p \<noteq> None"
proof (induction f x p arbitrary: j rule: shortest_from.induct)
  case (2 fuel x p)
  show ?case
  proof (cases "dec_candidate x p")
    case None
    with "2.prems" obtain i where j: "j = Suc i" by (cases j) auto
    with "2.prems" have "dec_candidate x (p - 1 - int i) \<noteq> None" "i < fuel"
      by (auto simp: algebra_simps)
    with "2.IH" [OF None] None show ?thesis by simp
  qed simp
qed simp

lemma dec_candidate_exact:
  assumes "x / 10 powi p = of_int m" and "0 < x" and "is_double x"
  shows "dec_candidate x p \<noteq> None"
proof -
  have "0 < x / 10 powi p" using assms(2) by simp
  with assms(1) have "0 < m" by simp
  moreover have "of_int m * 10 powi p = x" using assms(1) by (simp add: field_simps)
  ultimately show ?thesis using assms by (simp add: dec_candidate_def Let_def is_double_def)
qed

lemma dec_length_bounds: "0 < n \<Longrightarrow> 10 ^ (length (dec n) - 1) \<le> n \<and> n < 10 ^ length (dec n)"
proof (induction n rule: dec.induct)
  case (1 n)
  show ?case
  proof (cases "n < 10")
    case True
    with "1.prems" show ?thesis by (simp add: dec.simps [of n])
  next
    case False
    let ?l = "length (dec (n div 10))"
    have l: "0 < ?l" by simp
    have "10 ^ (?l - 1) \<le> n div 10" "n div 10 < 10 ^ ?l" using 1 False by auto
    then have "10 * 10 ^ (?l - 1) \<le> n" "n < 10 * 10 ^ ?l" by linarith+
    moreover have "(10 :: nat) * 10 ^ (?l - 1) = 10 ^ ?l" using l by (cases ?l) auto
    ultimately show ?thesis using False by (simp add: dec.simps [of n])
  qed
qed

lemma ilog10_le:
  assumes "0 < x"
  shows "10 powi ilog10 x \<le> x"
proof -
  obtain n d where q: "quotient_of x = (n, d)" by fastforce
  have d: "0 < d" by (rule quotient_of_denom_pos [OF q])
  have x: "x = of_int n / of_int d" by (rule quotient_of_div [OF q])
  with assms d have n: "0 < n" by (simp add: zero_less_divide_iff)
  let ?a = "length (dec (nat n))" and ?b = "length (dec (nat d))"
  let ?e = "int ?a - int ?b"
  have "10 ^ (?a - 1) \<le> nat n" "nat d < 10 ^ ?b"
    using dec_length_bounds [of "nat n"] dec_length_bounds [of "nat d"] n d by simp_all
  then have "(of_nat (10 ^ (?a - 1)) :: rat) \<le> of_nat (nat n)" "(of_nat (nat d) :: rat) < of_nat (10 ^ ?b)"
    by (simp_all only: of_nat_le_iff of_nat_less_iff)
  then have nd: "10 ^ (?a - 1) \<le> (of_int n :: rat)" "(of_int d :: rat) \<le> 10 ^ ?b" using n d by auto
  have "(10 :: rat) powi (?e - 1) = 10 ^ (?a - 1) / 10 ^ ?b"
  proof -
    have "0 < ?a" by simp
    then have e: "?e - 1 = int (?a - 1) - int ?b" by (simp add: of_nat_diff Suc_le_eq)
    show ?thesis unfolding e by (subst power_int_diff) (simp_all only: power_int_of_nat, simp)
  qed
  also have "\<dots> \<le> of_int n / of_int d" using nd d n by (intro frac_le) auto
  finally have "10 powi (?e - 1) \<le> x" using x by simp
  then show ?thesis by (simp add: ilog10_def q Let_def)
qed

lemma dyadic_scaled_int:
  assumes x: "x = of_int m * 2 powi q" and q: "- int k \<le> q"
  shows "\<exists>z. (x :: rat) * 10 ^ k = of_int z"
proof -
  have "(2 :: rat) powi q * 2 ^ k = 2 powi (q + int k)"
    by (simp add: power_int_add)
  also have "\<dots> = of_int (2 ^ nat (q + int k))" using q powi2_of_int [of "q + int k"] by simp
  finally have two: "(2 :: rat) powi q * 2 ^ k = of_int (2 ^ nat (q + int k))" .
  have "(10 :: rat) ^ k = 2 ^ k * 5 ^ k" by (simp add: power_mult_distrib [symmetric])
  then have "x * 10 ^ k = of_int m * (2 powi q * 2 ^ k) * 5 ^ k" using x by simp
  also have "\<dots> = of_int (m * 2 ^ nat (q + int k) * 5 ^ k)" unfolding two by simp
  finally show ?thesis by blast
qed

lemma shortest_total:
  assumes "is_double x" and "0 < x"
  shows "shortest x \<noteq> None"
proof -
  have r: "rnd x = Num x" "x \<noteq> 0" using assms by (auto simp: is_double_def)
  obtain m where m: "x = of_int m * 2 powi qexp x" using rnd_NumD(1) [OF r] assms(2) by auto
  have lim: "x < dbl_limit" using rnd_NumD(2) [OF r] assms(2) by simp
  define p where "p = ilog10 x"
  have "10 powi p \<le> x" unfolding p_def by (rule ilog10_le [OF assms(2)])
  also have "x < 10 powi 309"
  proof -
    have "(2 :: rat) ^ 1024 = (2 ^ 10) ^ 102 * 2 ^ 4" by (simp only: power_mult [symmetric] power_add [symmetric]) simp
    moreover have "(2 :: rat) ^ 1024 \<le> 10 ^ 309" by simp
    ultimately show ?thesis using lim by (simp add: dbl_limit_def)
  qed
  finally have "(10 :: rat) powi p < 10 powi 309" .
  then have p: "p < 309" by (meson linorder_not_less not_less_iff_gr_or_eq one_le_numeral power_int_increasing)
  define k where "k = (1074 :: nat)"
  have "- int k \<le> qexp x" by (simp add: qexp_def k_def)
  define j where "j = nat (p + int k)"
  have pj: "int k \<le> int j - p" "j < 1400" using p by (auto simp: j_def k_def)
  have "- int (nat (int j - p)) \<le> qexp x" using pj \<open>- int k \<le> qexp x\<close> by linarith
  from dyadic_scaled_int [OF m this] obtain z where z: "x * 10 ^ nat (int j - p) = of_int z" by blast
  have "x / 10 powi (p - int j) = x * 10 powi (int j - p)"
    by (metis divide_inverse minus_diff_eq power_int_minus)
  also have "\<dots> = of_int z" using z pj(1) by (simp add: power_int_def)
  finally have "dec_candidate x (p - int j) \<noteq> None" using dec_candidate_exact assms by blast
  from shortest_from_total [OF pj(2) this] show ?thesis by (simp add: shortest_def p_def)
qed

text \<open>A printed positive double is a JSON number that reads back as that double.\<close>

lemma json_ok_pos_to_string:
  assumes "is_double x" and "0 < x"
  obtains v where "json_ok (pos_to_string x) v" and "rnd v = Num x"
proof -
  obtain s p where sp: "shortest x = Some (s, p)" using shortest_total [OF assms] by auto
  have s: "0 < s" "rnd (of_nat s * 10 powi p) = Num x"
    using shortest_from_Some [OF assms(2)] sp by (auto simp: shortest_def)
  obtain s' p' where st: "strip_zeros (length (dec s)) s p = (s', p')" by fastforce
  have s': "0 < s'" "of_nat s' * (10 :: rat) powi p' = of_nat s * 10 powi p"
    using strip_zeros_value [OF s(1) st] by auto
  have "json_ok (pos_to_string x) (of_nat s' * 10 powi p')"
    using json_ok_format_dec [OF s'(1)] by (simp add: pos_to_string_def sp st)
  with s' s(2) that show ?thesis by simp
qed

lemma json_unumber_pos:
  assumes "is_double x" and "0 < x"
  shows "json_unumber (pos_to_string x) = Some (Num x)"
proof -
  obtain v where "json_ok (pos_to_string x) v" "rnd v = Num x" by (rule json_ok_pos_to_string [OF assms])
  then show ?thesis by (auto simp: json_ok_def json_unumber_def)
qed

lemma is_double_uminus: "is_double (- x) = is_double x"
proof -
  have "rnd (- x) = num_neg (rnd x)" by (simp add: rnd_def Let_def qexp_def sgn_minus)
  then show ?thesis unfolding is_double_def by (cases "rnd x") auto
qed

text \<open>The code units that occur in a printed finite number.\<close>

definition is_num_char :: "nat \<Rightarrow> bool" where
  "is_num_char c \<longleftrightarrow> is_digit c \<or> c = 43 \<or> c = 45 \<or> c = 46 \<or> c = 69 \<or> c = 101"

lemma format_dec_chars: "c \<in> set (format_dec s p) \<Longrightarrow> is_num_char c"
  by (auto simp: format_dec_def Let_def exp_string_def is_num_char_def is_digit_def
      dest!: dec_digits zeros_digits in_set_takeD in_set_dropD split: if_splits)

lemma pos_to_string_chars: "c \<in> set (pos_to_string x) \<Longrightarrow> is_num_char c"
  by (auto simp: pos_to_string_def format_dec_chars split: option.splits prod.splits)

lemma num_to_string_chars: "c \<in> set (num_to_string (Num x)) \<Longrightarrow> is_num_char c"
  by (auto simp: is_num_char_def is_digit_def js_def dest!: pos_to_string_chars split: if_splits)

lemma json_ok_hd: "json_ok s v \<Longrightarrow> s \<noteq> [] \<and> is_digit (hd s)"
proof -
  assume "json_ok s v"
  then have "takeWhile is_digit s \<noteq> []"
    by (auto simp: json_ok_def dec_parts_def Let_def split: if_splits)
  then show ?thesis by (cases s) (auto split: if_splits)
qed

lemma pos_to_string_hd:
  assumes "is_double x" and "0 < x"
  shows "pos_to_string x \<noteq> [] \<and> is_digit (hd (pos_to_string x))"
  by (rule json_ok_pos_to_string [OF assms]) (use json_ok_hd in blast)

theorem json_number_to_string:
  assumes "is_double x"
  shows "json_number (num_to_string (Num x)) = Some (Num x)"
proof -
  consider "x = 0" | "0 < x" | "x < 0" by linarith
  then show ?thesis
  proof cases
    case 1
    have "json_unumber [48] = Some (Num 0)"
      using digits_val_snoc [of "[]" 48]
      by (simp add: json_unumber_def dec_parts_def is_digit_def Let_def dec_value_def frac_digits_def)
    with 1 show ?thesis by (simp add: json_number_def js_def)
  next
    case 2
    have "hd (pos_to_string x) \<noteq> 45" using pos_to_string_hd [OF assms 2] by (auto simp: is_digit_def)
    with json_unumber_pos [OF assms 2] pos_to_string_hd [OF assms 2] 2 show ?thesis
      by (cases "pos_to_string x") (auto simp: json_number_def)
  next
    case 3
    then have "is_double (- x)" "0 < - x" using assms by (simp_all add: is_double_uminus)
    from json_unumber_pos [OF this] 3 show ?thesis by (simp add: json_number_def)
  qed
qed

lemma json_unumber_str_udec:
  "json_unumber s = Some n \<Longrightarrow> str_udec s = Some n \<and> s \<noteq> [] \<and> is_digit (hd s)"
proof -
  assume a: "json_unumber s = Some n"
  then obtain ip fo e where d: "dec_parts s = Some (ip, fo, e)" "ip \<noteq> []"
    and n: "n = rnd (dec_value ip fo e)" "ip = [48] \<or> hd ip \<noteq> 48" "fo \<noteq> Some []"
    by (auto simp: json_unumber_def split: option.splits if_splits)
  then have "json_ok s (dec_value ip fo e)" by (auto simp: json_ok_def)
  then have h: "s \<noteq> [] \<and> is_digit (hd s)" by (rule json_ok_hd)
  then have "s \<noteq> js ''Infinity''" by (auto simp: js_def is_digit_def)
  with d n h show ?thesis by (simp add: str_udec_def)
qed

lemma json_number_str_dec: "json_number s = Some n \<Longrightarrow> str_dec s = Some n"
  by (auto simp: json_number_def str_dec_def is_digit_def dest!: json_unumber_str_udec
      split: list.splits if_splits)

lemma num_char_not_ws: "is_num_char c \<Longrightarrow> \<not> is_ws c"
  by (auto simp: is_num_char_def is_digit_def is_ws_def)

lemma str_radix_num_chars: "\<forall>c \<in> set s. is_num_char c \<Longrightarrow> str_radix s = None"
  by (auto simp: str_radix_def radix_of_def is_num_char_def is_digit_def split: list.splits if_splits)

lemma json_number_not_Nil: "json_number s = Some n \<Longrightarrow> s \<noteq> []"
  by (auto simp: json_number_def)

theorem string_to_number_to_string:
  assumes "is_double x"
  shows "string_to_number (num_to_string (Num x)) = Num x"
proof -
  let ?s = "num_to_string (Num x)"
  have c: "\<forall>c \<in> set ?s. is_num_char c" using num_to_string_chars by blast
  have t: "trim ?s = ?s" by (rule trim_no_ws) (use c num_char_not_ws in blast)
  have j: "json_number ?s = Some (Num x)" by (rule json_number_to_string [OF assms])
  show ?thesis
    using json_number_str_dec [OF j] json_number_not_Nil [OF j] str_radix_num_chars [OF c]
    by (simp add: string_to_number_def t Let_def del: num_to_string.simps)
qed

theorem parse_float_to_string:
  assumes "is_double x"
  shows "parse_float (num_to_string (Num x)) = Num x"
proof -
  let ?s = "num_to_string (Num x)"
  have j: "json_number ?s = Some (Num x)" by (rule json_number_to_string [OF assms])
  obtain c r where s: "?s = c # r" using json_number_not_Nil [OF j] by (cases ?s) auto
  have "is_num_char c" using num_to_string_chars [of c x] s by simp
  then have "trim_start ?s = ?s" by (simp add: trim_start_def s num_char_not_ws del: num_to_string.simps)
  then show ?thesis using json_number_str_dec [OF j]
    by (simp add: parse_float_def Let_def s del: num_to_string.simps)
qed

lemma num_to_string_not_Nil: "is_double x \<Longrightarrow> num_to_string (Num x) \<noteq> []"
  using pos_to_string_hd [of x] by (cases "x = 0"; cases "x < 0") (auto simp: js_def)

lemma num_wf_num_neg [simp]: "num_wf (num_neg n) = num_wf n"
  by (cases n) (simp_all add: is_double_uminus)

lemma num_wf_with_sign [simp]: "num_wf (with_sign b n) = num_wf n"
  by (simp add: with_sign_def)

lemma num_wf_str_dec: "str_dec s = Some n \<Longrightarrow> num_wf n"
  by (auto simp: str_dec_def str_udec_def split: list.splits if_splits option.splits)

lemma num_wf_string_to_number [simp, js_wf]: "num_wf (string_to_number s)"
  by (auto simp: string_to_number_def Let_def str_radix_def num_wf_str_dec split: option.splits list.splits if_splits)

subsection \<open>Integers print as their decimal digits\<close>

lemma dec_times_10: "0 < m \<Longrightarrow> dec (10 * m) = dec m @ [48]"
  by (subst dec.simps) simp

lemma dec_mult_power: "0 < s \<Longrightarrow> dec (s * 10 ^ q) = dec s @ zeros q"
proof (induction q)
  case (Suc q)
  have "dec (s * 10 ^ Suc q) = dec (10 * (s * 10 ^ q))" by (simp add: algebra_simps)
  also have "\<dots> = dec s @ zeros q @ [48]" using Suc dec_times_10 [of "s * 10 ^ q"] by simp
  finally show ?case by (simp add: zeros_def replicate_append_same)
qed (simp add: zeros_def)

lemma dec_candidate_nat:
  assumes "0 < n" and "n + 10 ^ p \<le> 2 ^ 53"
  shows "dec_candidate (of_nat n) (int p) = (if 10 ^ p dvd n then Some (n div 10 ^ p, int p) else None)"
proof -
  let ?t = "10 ^ p :: nat"
  have fl: "\<lfloor>of_nat n / (10 :: rat) powi int p\<rfloor> = int (n div ?t)"
    using floor_divide_of_nat_eq [of n ?t, where ?'a = rat] by simp
  have le: "n div ?t * ?t \<le> n" by (simp add: div_times_less_eq_dividend)
  have lo: "rnd (of_int (int (n div ?t)) * 10 powi int p) = Num (of_nat (n div ?t * ?t))"
  proof -
    have "n div ?t * ?t \<le> 2 ^ 53" using le assms(2) by linarith
    from rnd_of_nat [OF this] show ?thesis by simp
  qed
  have "(n div ?t + 1) * ?t = n div ?t * ?t + ?t" by simp
  then have hi_le: "(n div ?t + 1) * ?t \<le> 2 ^ 53" using le assms(2) by linarith
  have hi: "rnd (of_int (int (n div ?t) + 1) * 10 powi int p) = Num (of_nat ((n div ?t + 1) * ?t))"
    using rnd_of_nat [OF hi_le] by (simp add: distrib_right add.commute)
  have "n < (n div ?t + 1) * ?t"
    using dividend_less_div_times [of ?t n] by (simp add: algebra_simps)
  then have hi_no: "(of_nat ((n div ?t + 1) * ?t) :: rat) \<noteq> of_nat n" by (simp only: of_nat_eq_iff)
  have lo_iff: "(of_nat (n div ?t * ?t) :: rat) = of_nat n \<longleftrightarrow> ?t dvd n"
    unfolding of_nat_eq_iff by (auto simp: dvd_div_mult_self) (metis dvd_triv_right)
  have pos: "?t dvd n \<Longrightarrow> 0 < n div ?t" using assms(1) by (simp add: div_greater_zero_iff dvd_imp_le)
  show ?thesis
    using pos unfolding dec_candidate_def Let_def fl lo hi jsnum.inject lo_iff
    using hi_no by simp
qed

lemma shortest_from_nat:
  assumes "0 < n" and "n + 10 ^ p \<le> 2 ^ 53" and "p < f"
  shows "\<exists>q \<le> p. 10 ^ q dvd n \<and> (q = p \<or> \<not> 10 ^ Suc q dvd n) \<and>
    shortest_from f (of_nat n) (int p) = Some (n div 10 ^ q, int q)"
  using assms(2,3)
proof (induction p arbitrary: f)
  case 0
  then obtain g where "f = Suc g" by (cases f) auto
  with 0 assms(1) show ?case using dec_candidate_nat [OF assms(1), of 0] by auto
next
  case (Suc p)
  then obtain g where f: "f = Suc g" by (cases f) auto
  show ?case
  proof (cases "10 ^ Suc p dvd n")
    case True
    with dec_candidate_nat [OF assms(1) Suc.prems(1)] show ?thesis
      by (intro exI [of _ "Suc p"]) (simp add: f)
  next
    case False
    have "n + 10 ^ p \<le> 2 ^ 53" "p < g" using Suc.prems f by auto
    from Suc.IH [OF this] obtain q where q: "q \<le> p" "10 ^ q dvd n" "q = p \<or> \<not> 10 ^ Suc q dvd n"
      "shortest_from g (of_nat n) (int p) = Some (n div 10 ^ q, int q)" by blast
    have "dec_candidate (of_nat n) (int (Suc p)) = None"
      using dec_candidate_nat [OF assms(1) Suc.prems(1)] False by simp
    with q False show ?thesis by (intro exI [of _ q]) (auto simp: f)
  qed
qed

lemma ilog10_nat: "0 < n \<Longrightarrow> ilog10 (of_nat n) = int (length (dec n) - 1)"
proof -
  assume n: "0 < n"
  let ?l = "length (dec n)"
  have q: "quotient_of (of_nat n) = (int n, 1)" using quotient_of_int [of "int n"] by simp
  have l: "0 < ?l" by simp
  have "10 ^ (?l - 1) \<le> n" using dec_length_bounds [OF n] by simp
  then have "(of_nat (10 ^ (?l - 1)) :: rat) \<le> of_nat n" by (simp only: of_nat_le_iff)
  then have le: "(10 :: rat) powi int (?l - 1) \<le> of_nat n" by (simp only: power_int_of_nat of_nat_power of_nat_numeral)
  have "length (dec 1) = 1" by (simp add: dec.simps)
  then have e: "int ?l - int (length (dec (nat 1))) = int (?l - 1)" using l by (simp add: of_nat_diff Suc_le_eq)
  show ?thesis unfolding ilog10_def q Let_def prod.case nat_int e using le by simp
qed

theorem num_to_string_of_nat:
  assumes "n < 10 ^ 15"
  shows "num_to_string (Num (of_nat n)) = dec n"
proof (cases "n = 0")
  case True
  then show ?thesis by (simp add: js_def dec.simps)
next
  case False
  then have n: "0 < n" by simp
  let ?l = "length (dec n)"
  have lb: "10 ^ (?l - 1) \<le> n" "n < 10 ^ ?l" using dec_length_bounds [OF n] by auto
  then have b: "n + 10 ^ (?l - 1) \<le> 2 ^ 53" using assms by simp
  have "(10 :: nat) ^ (?l - 1) < 10 ^ 15" using lb(1) assms by linarith
  then have l15: "?l - 1 < 15" by (rule power_less_imp_less_exp [rotated]) simp
  then have "?l - 1 < 1400" by simp
  from shortest_from_nat [OF n b this] obtain q where q: "q \<le> ?l - 1" "10 ^ q dvd n"
    "q = ?l - 1 \<or> \<not> 10 ^ Suc q dvd n" and sh: "shortest (of_nat n) = Some (n div 10 ^ q, int q)"
    by (auto simp: shortest_def ilog10_nat [OF n])
  let ?s = "n div 10 ^ q"
  have ns: "n = ?s * 10 ^ q" using q(2) by simp
  have s: "0 < ?s" using n ns by (metis mult_0 not_gr_zero)
  have "?s mod 10 \<noteq> 0"
  proof
    assume "?s mod 10 = 0"
    then have "10 dvd ?s" by auto
    then have "10 ^ Suc q dvd n" using ns by (metis mult_dvd_mono dvd_refl power_Suc)
    with q(3) have "q = ?l - 1" by simp
    with ns lb(2) have "?s * 10 ^ q < 10 * 10 ^ q" by (metis Suc_pred' dec_not_Nil length_greater_0_conv power_Suc)
    then have "?s < 10" by simp
    with \<open>10 dvd ?s\<close> s show False by (auto dest: dvd_imp_le)
  qed
  then have st: "strip_zeros (length (dec ?s)) ?s (int q) = (?s, int q)"
    by (cases "length (dec ?s)") auto
  have d: "dec n = dec ?s @ zeros q" using dec_mult_power [OF s, of q] ns by simp
  then have "?l = length (dec ?s) + q" by simp
  with l15 have "format_dec ?s (int q) = dec n"
    unfolding d by (auto simp: format_dec_def Let_def)
  with n show ?thesis by (simp add: pos_to_string_def sh st)
qed

end
