(* ===== verification/JsValue.thy ===== *)
theory JsValue
  imports JsNumber
begin

text \<open>
  JavaScript values and the coercions the modelled sources use. An object is the list of its own
  properties in enumeration order (array-index keys ascending, then the other keys in insertion
  order), which \<open>obj_set\<close> keeps; a property that is not there reads as \<open>undefined\<close>. Reading a
  property of \<open>undefined\<close> or \<open>null\<close>, and \<open>String(x)\<close> of an object that shadows \<open>toString\<close> with
  data, throw a TypeError: results that may throw are of the type \<open>exn + 'a\<close>.
\<close>

datatype jsval =
    JUndef
  | JNull
  | JBool bool
  | JNum jsnum
  | JStr jstring
  | JArr "jsval list"
  | JObj "(jstring \<times> jsval) list"

type_synonym jsobj = "(jstring \<times> jsval) list"

text \<open>The translation function \<open>t(key, options)\<close> of react-i18next, a parameter of the model.\<close>

type_synonym i18n = "jstring \<Rightarrow> jsobj \<Rightarrow> jstring"

text \<open>A TypeError raised by the engine, or \<open>new Error(message)\<close> thrown by the program.\<close>

datatype exn = TypeError | Error jstring

type_synonym 'a res = "exn + 'a"

definition rbind :: "'a res \<Rightarrow> ('a \<Rightarrow> 'b res) \<Rightarrow> 'b res" where
  "rbind r f = (case r of Inl e \<Rightarrow> Inl e | Inr a \<Rightarrow> f a)"

lemma rbind_simps [simp]: "rbind (Inl e) f = Inl e" "rbind (Inr a) f = f a"
  by (simp_all add: rbind_def)

lemma rbind_Inr_iff: "rbind r f = Inr b \<longleftrightarrow> (\<exists>a. r = Inr a \<and> f a = Inr b)"
  by (cases r) auto

lemma rbind_cong [fundef_cong]:
  "r = r' \<Longrightarrow> (\<And>a. r' = Inr a \<Longrightarrow> f a = g a) \<Longrightarrow> rbind r f = rbind r' g"
  by (cases r') auto

fun res_list :: "'a res list \<Rightarrow> 'a list res" where
  "res_list [] = Inr []"
| "res_list (r # rs) = rbind r (\<lambda>a. rbind (res_list rs) (\<lambda>as. Inr (a # as)))"

lemma res_list_Inr: "res_list (map Inr xs) = Inr xs"
  by (induction xs) auto

lemma res_list_Inr_iff: "res_list (map f xs) = Inr ys \<longleftrightarrow> list_all2 (\<lambda>x y. f x = Inr y) xs ys"
  by (induction xs arbitrary: ys) (auto simp: rbind_Inr_iff list_all2_Cons1)

subsection \<open>Truth values, nullish values\<close>

fun truthy :: "jsval \<Rightarrow> bool" where
  "truthy JUndef = False"
| "truthy JNull = False"
| "truthy (JBool b) = b"
| "truthy (JNum n) = (n \<noteq> NaN \<and> n \<noteq> Num 0)"
| "truthy (JStr s) = (s \<noteq> [])"
| "truthy (JArr _) = True"
| "truthy (JObj _) = True"

definition js_or :: "jsval \<Rightarrow> jsval \<Rightarrow> jsval" where
  "js_or a b = (if truthy a then a else b)"

definition nullish :: "jsval \<Rightarrow> bool" where
  "nullish v \<longleftrightarrow> v = JUndef \<or> v = JNull"

definition js_nullish_or :: "jsval \<Rightarrow> jsval \<Rightarrow> jsval" where
  "js_nullish_or a b = (if nullish a then b else a)"

text \<open>\<open>v && typeof v === 'object' && !Array.isArray(v)\<close>: the own properties of a plain object.\<close>

definition as_plain_object :: "jsval \<Rightarrow> jsobj option" where
  "as_plain_object v = (case v of JObj o' \<Rightarrow> Some o' | _ \<Rightarrow> None)"

lemma as_plain_object_simps [simp]: "as_plain_object (JObj ob) = Some ob" "as_plain_object JNull = None"
  "as_plain_object JUndef = None" "as_plain_object (JStr s) = None" "as_plain_object (JNum n) = None"
  "as_plain_object (JBool b) = None" "as_plain_object (JArr vs) = None"
  by (simp_all add: as_plain_object_def)

subsection \<open>Objects\<close>

definition array_index :: "jstring \<Rightarrow> nat option" where
  "array_index k =
     (if k \<noteq> [] \<and> list_all is_digit k \<and> (k = [48] \<or> hd k \<noteq> 48) \<and> digits_val k < 2 ^ 32 - 1
      then Some (digits_val k) else None)"

definition get_own :: "jsobj \<Rightarrow> jstring \<Rightarrow> jsval" where
  "get_own ob k = (case map_of ob k of None \<Rightarrow> JUndef | Some v \<Rightarrow> v)"

fun obj_replace :: "jstring \<Rightarrow> 'v \<Rightarrow> (jstring \<times> 'v) list \<Rightarrow> (jstring \<times> 'v) list" where
  "obj_replace k v [] = []"
| "obj_replace k v ((k', v') # ob) = (if k' = k then (k, v) # ob else (k', v') # obj_replace k v ob)"

fun obj_insert :: "jstring \<Rightarrow> 'v \<Rightarrow> (jstring \<times> 'v) list \<Rightarrow> (jstring \<times> 'v) list" where
  "obj_insert k v [] = [(k, v)]"
| "obj_insert k v ((k', v') # ob) =
     (case array_index k of
        None \<Rightarrow> (k', v') # obj_insert k v ob
      | Some n \<Rightarrow>
          (case array_index k' of
             Some m \<Rightarrow> if m < n then (k', v') # obj_insert k v ob else (k, v) # (k', v') # ob
           | None \<Rightarrow> (k, v) # (k', v') # ob))"

definition obj_set :: "jstring \<Rightarrow> 'v \<Rightarrow> (jstring \<times> 'v) list \<Rightarrow> (jstring \<times> 'v) list" where
  "obj_set k v ob = (if k \<in> fst ` set ob then obj_replace k v ob else obj_insert k v ob)"

text \<open>\<open>{...a, ...b}\<close>, and \<open>delete o[k]\<close>.\<close>

definition obj_merge :: "(jstring \<times> 'v) list \<Rightarrow> (jstring \<times> 'v) list \<Rightarrow> (jstring \<times> 'v) list" where
  "obj_merge a b = foldl (\<lambda>acc (k, v). obj_set k v acc) a b"

definition obj_delete :: "jstring \<Rightarrow> (jstring \<times> 'v) list \<Rightarrow> (jstring \<times> 'v) list" where
  "obj_delete k ob = filter (\<lambda>kv. fst kv \<noteq> k) ob"

text \<open>\<open>if (b) o[k] = v\<close>\<close>

definition set_if :: "bool \<Rightarrow> jstring \<Rightarrow> 'v \<Rightarrow> (jstring \<times> 'v) list \<Rightarrow> (jstring \<times> 'v) list" where
  "set_if b k v ob = (if b then obj_set k v ob else ob)"

definition key_before :: "jstring \<Rightarrow> jstring \<Rightarrow> bool" where
  "key_before k k' = (case array_index k of
       Some m \<Rightarrow> (case array_index k' of Some n \<Rightarrow> m < n | None \<Rightarrow> True)
     | None \<Rightarrow> array_index k' = None)"

definition obj_canon :: "(jstring \<times> 'v) list \<Rightarrow> bool" where
  "obj_canon ob \<longleftrightarrow> distinct (map fst ob) \<and> sorted_wrt key_before (map fst ob)"

lemma obj_canon_Nil [simp]: "obj_canon []"
  by (simp add: obj_canon_def)

lemma map_of_obj_replace:
  "k \<in> fst ` set ob \<Longrightarrow> map_of (obj_replace k v ob) = (map_of ob)(k \<mapsto> v)"
proof (induction ob)
  case (Cons kv ob)
  obtain k' v' where "kv = (k', v')" by fastforce
  with Cons show ?case by (cases "k' = k") (auto simp: fun_upd_twist)
qed simp

lemma map_of_obj_insert: "k \<notin> fst ` set ob \<Longrightarrow> map_of (obj_insert k v ob) = (map_of ob)(k \<mapsto> v)"
  by (induction ob) (auto simp: fun_eq_iff split: option.splits)

theorem map_of_obj_set: "map_of (obj_set k v ob) = (map_of ob)(k \<mapsto> v)"
  by (simp add: obj_set_def map_of_obj_replace map_of_obj_insert)

lemma get_own_obj_set [simp]: "get_own (obj_set k v ob) k' = (if k' = k then v else get_own ob k')"
  by (simp add: get_own_def map_of_obj_set)

lemma get_own_set_if [simp]: "get_own (set_if b k v ob) k' = (if k' = k \<and> b then v else get_own ob k')"
  by (simp add: set_if_def)

lemma keys_obj_replace: "map fst (obj_replace k v ob) = map fst ob"
  by (induction ob) auto

lemma set_keys_obj_insert: "fst ` set (obj_insert k v ob) = insert k (fst ` set ob)"
proof (induction ob)
  case (Cons kv ob)
  then show ?case by (cases kv) (simp add: insert_commute split: option.splits)
qed simp

lemma array_index_SomeD: "array_index k = Some n \<Longrightarrow> k = dec n"
  using dec_digits_val [of k] by (auto simp: array_index_def simp del: list_all_iff split: if_splits)

lemma array_index_inj: "array_index k = Some n \<Longrightarrow> array_index k' = Some n \<Longrightarrow> k = k'"
  by (metis array_index_SomeD)

lemma obj_canon_Cons:
  "obj_canon ((k, v) # ob) \<longleftrightarrow>
     k \<notin> fst ` set ob \<and> (\<forall>k' \<in> fst ` set ob. key_before k k') \<and> obj_canon ob"
  by (auto simp: obj_canon_def)

lemma key_before_trans: "key_before a b \<Longrightarrow> key_before b c \<Longrightarrow> key_before a c"
  by (auto simp: key_before_def split: option.splits)

lemma obj_canon_insert: "obj_canon ob \<Longrightarrow> k \<notin> fst ` set ob \<Longrightarrow> obj_canon (obj_insert k v ob)"
proof (induction ob)
  case (Cons kv ob)
  obtain k' v' where kv: "kv = (k', v')" by fastforce
  have c: "k' \<notin> fst ` set ob" "\<forall>x \<in> fst ` set ob. key_before k' x" "obj_canon ob"
    using Cons.prems(1) unfolding kv obj_canon_Cons by auto
  have ih: "obj_canon (obj_insert k v ob)" using Cons c(3) by auto
  have behind: "key_before k' k \<Longrightarrow> obj_canon ((k', v') # obj_insert k v ob)"
    using ih c Cons.prems(2) kv by (auto simp: obj_canon_Cons set_keys_obj_insert)
  have front: "key_before k k' \<Longrightarrow> obj_canon ((k, v) # (k', v') # ob)"
    using Cons.prems kv c unfolding obj_canon_Cons by (auto intro: key_before_trans)
  show ?case
  proof (cases "array_index k")
    case None
    then show ?thesis
      using behind by (simp add: kv key_before_def split: option.splits)
  next
    case (Some n)
    then have n: "array_index k = Some n" .
    show ?thesis
    proof (cases "array_index k'")
      case None
      then show ?thesis using n front by (simp add: kv key_before_def)
    next
      case (Some m)
      have "m \<noteq> n" using array_index_inj [OF n] Some Cons.prems(2) kv by auto
      then show ?thesis using n Some front behind by (auto simp: kv key_before_def)
    qed
  qed
qed (simp add: obj_canon_def)

lemma obj_canon_set: "obj_canon ob \<Longrightarrow> obj_canon (obj_set k v ob)"
proof (cases "k \<in> fst ` set ob")
  case True
  assume "obj_canon ob"
  with True show ?thesis by (simp add: obj_set_def obj_canon_def keys_obj_replace)
qed (simp add: obj_set_def obj_canon_insert)

lemma obj_canon_foldl: "obj_canon a \<Longrightarrow> obj_canon (foldl (\<lambda>acc (k, v). obj_set k v acc) a b)"
  by (induction b arbitrary: a) (auto simp: obj_canon_set)

lemma obj_canon_merge: "obj_canon a \<Longrightarrow> obj_canon (obj_merge a b)"
  by (simp add: obj_merge_def obj_canon_foldl)

lemma obj_canon_append_last:
  "obj_canon (ob @ [(k, v)]) \<Longrightarrow> obj_set k v ob = ob @ [(k, v)]"
proof -
  have ins: "\<forall>x \<in> fst ` set ob. key_before x k \<Longrightarrow> obj_insert k v ob = ob @ [(k, v)]" for ob
    by (induction ob) (auto simp: key_before_def split: option.splits)
  assume "obj_canon (ob @ [(k, v)])"
  then have "k \<notin> fst ` set ob" "\<forall>x \<in> fst ` set ob. key_before x k"
    by (auto simp: obj_canon_def sorted_wrt_append)
  then show ?thesis by (simp add: obj_set_def ins)
qed

text \<open>Adding the properties of an object one by one, in its enumeration order, rebuilds it.\<close>

theorem obj_merge_canon: "obj_canon (a @ b) \<Longrightarrow> obj_merge a b = a @ b"
proof (induction b arbitrary: a)
  case (Cons kv b)
  obtain k v where kv: "kv = (k, v)" by fastforce
  have "obj_canon (a @ [(k, v)])" using Cons.prems by (auto simp: obj_canon_def kv sorted_wrt_append)
  then have "obj_set k v a = a @ [(k, v)]" by (rule obj_canon_append_last)
  then show ?case using Cons.IH [of "a @ [(k, v)]"] Cons.prems by (simp add: obj_merge_def kv)
qed (simp add: obj_merge_def)

lemma obj_canon_names:
  "distinct (map fst ob) \<Longrightarrow> \<forall>k \<in> fst ` set ob. array_index k = None \<Longrightarrow> obj_canon ob"
  by (auto simp: obj_canon_def key_before_def sorted_wrt_iff_nth_less)

lemma array_index_js [simp]: "array_index (js (c # s)) = None" if "\<not> is_digit (of_char c)"
  using that by (simp add: array_index_def js_def)

subsection \<open>Property access and coercions\<close>

definition get_prop :: "jsval \<Rightarrow> jstring \<Rightarrow> jsval res" where
  "get_prop v k = (case v of
       JUndef \<Rightarrow> Inl TypeError
     | JNull \<Rightarrow> Inl TypeError
     | JObj ob \<Rightarrow> Inr (get_own ob k)
     | JArr vs \<Rightarrow>
         if k = js ''length'' then Inr (JNum (Num (of_nat (length vs))))
         else (case array_index k of
                 Some i \<Rightarrow> Inr (if i < length vs then vs ! i else JUndef)
               | None \<Rightarrow> Inr JUndef)
     | JStr s \<Rightarrow>
         if k = js ''length'' then Inr (JNum (Num (of_nat (length s))))
         else (case array_index k of
                 Some i \<Rightarrow> Inr (if i < length s then JStr [s ! i] else JUndef)
               | None \<Rightarrow> Inr JUndef)
     | _ \<Rightarrow> Inr JUndef)"

fun js_String :: "jsval \<Rightarrow> jstring res" where
  "js_String JUndef = Inr (js ''undefined'')"
| "js_String JNull = Inr (js ''null'')"
| "js_String (JBool b) = Inr (if b then js ''true'' else js ''false'')"
| "js_String (JNum n) = Inr (num_to_string n)"
| "js_String (JStr s) = Inr s"
| "js_String (JArr vs) =
     rbind (res_list (map (\<lambda>v. if nullish v then Inr [] else js_String v) vs)) (\<lambda>ss. Inr (join [44] ss))"
| "js_String (JObj ob) =
     (if js ''toString'' \<in> fst ` set ob then Inl TypeError else Inr (js ''[object Object]''))"

fun js_Number :: "jsval \<Rightarrow> jsnum res" where
  "js_Number JUndef = Inr NaN"
| "js_Number JNull = Inr (Num 0)"
| "js_Number (JBool b) = Inr (Num (if b then 1 else 0))"
| "js_Number (JNum n) = Inr n"
| "js_Number (JStr s) = Inr (string_to_number s)"
| "js_Number v = rbind (js_String v) (\<lambda>s. Inr (string_to_number s))"

text \<open>\<open>v?.k\<close>\<close>

definition opt_prop :: "jsval \<Rightarrow> jstring \<Rightarrow> jsval" where
  "opt_prop v k = (case get_prop v k of Inr w \<Rightarrow> w | Inl _ \<Rightarrow> JUndef)"

text \<open>Names that every object inherits: \<open>ob[name]\<close> is defined although the object has no such property of its own.\<close>

definition PROTO_NAMES :: "jstring list" where
  "PROTO_NAMES = map js [''constructor'', ''toString'', ''toLocaleString'', ''valueOf'', ''hasOwnProperty'', ''isPrototypeOf'',
     ''propertyIsEnumerable'', ''__proto__'', ''__defineGetter__'', ''__defineSetter__'', ''__lookupGetter__'', ''__lookupSetter__'']"

text \<open>\<open>Object.keys(v)\<close> of an object or an array.\<close>

definition object_keys :: "jsval \<Rightarrow> jstring list" where
  "object_keys v = (case v of JObj ob \<Rightarrow> map fst ob | JArr vs \<Rightarrow> map dec [0..<length vs] | _ \<Rightarrow> [])"

text \<open>\<open>String(v ?? '').trim()\<close>\<close>

definition trim_string :: "jsval \<Rightarrow> jstring res" where
  "trim_string v = rbind (js_String (js_nullish_or v (JStr []))) (\<lambda>s. Inr (trim s))"

end
