(* ===== verification/StatusCodeRules.thy ===== *)
theory StatusCodeRules
  imports JsValue
begin

text \<open>
  \<open>web/src/helpers/statusCodeRules.js\<close>: the parser of the status code rule lists that the
  operation settings use for automatic disabling and retrying ("401, 403-405"). A rule is one
  code or an inclusive range within 100..599; the parser reports the tokens it cannot read, or
  merges the ranges and prints them back. Its contract is a set of codes: \<open>mergeRanges\<close> computes
  the canonical list of separated ranges that covers the same codes, and printing that list and
  parsing it again changes nothing.
\<close>

subsection \<open>Ranges and their order\<close>

datatype range = Range (rstart: int) (rend: int)

text \<open>The comparator of \<open>mergeRanges\<close>: by start, then by end.\<close>

instantiation range :: linorder
begin

definition less_eq_range :: "range \<Rightarrow> range \<Rightarrow> bool" where
  "less_eq_range a b \<longleftrightarrow> rstart a < rstart b \<or> (rstart a = rstart b \<and> rend a \<le> rend b)"

definition less_range :: "range \<Rightarrow> range \<Rightarrow> bool" where
  "less_range a b \<longleftrightarrow> rstart a < rstart b \<or> (rstart a = rstart b \<and> rend a < rend b)"

instance
  by standard (auto simp: less_eq_range_def less_range_def range.expand)

end

subsection \<open>The parser\<close>

record rule_result =
  scr_ok :: bool
  scr_ranges :: "range list"
  scr_tokens :: "jstring list"
  scr_normalized :: jstring
  scr_invalidTokens :: "jstring list"

definition isNumber :: "jstring \<Rightarrow> bool" where
  "isNumber s \<longleftrightarrow> s \<noteq> [] \<and> list_all is_digit s"

text \<open>The integer a finite integral number denotes.\<close>

definition num_int :: "jsnum \<Rightarrow> int" where
  "num_int x = (case x of Num r \<Rightarrow> \<lfloor>r\<rfloor> | _ \<Rightarrow> 0)"

definition parseToken :: "jstring \<Rightarrow> range option" where
  "parseToken token =
     (let cleaned = remove_unit 32 (trim token) in
      if cleaned = [] then None
      else if str_includes cleaned [45] then
        (let parts = split_on 45 cleaned in
         if length parts \<noteq> 2 then None
         else
           (let a = parts ! 0; b = parts ! 1 in
            if \<not> isNumber a \<or> \<not> isNumber b then None
            else
              (let start = parse_int10 a; end' = parse_int10 b in
               if \<not> num_finite start \<or> \<not> num_finite end' then None
               else if num_lt end' start then None
               else if num_lt start (Num 100) \<or> num_lt (Num 599) end' then None
               else Some (Range (num_int start) (num_int end')))))
      else if \<not> isNumber cleaned then None
      else
        (let code = parse_int10 cleaned in
         if \<not> num_finite code then None
         else if num_lt code (Num 100) \<or> num_lt (Num 599) code then None
         else Some (Range (num_int code) (num_int code))))"

fun merge_loop :: "range list \<Rightarrow> range list \<Rightarrow> range list" where
  "merge_loop merged [] = merged"
| "merge_loop merged (current # rest) =
     (let lst = last merged in
      if rstart current \<le> rend lst + 1
      then merge_loop (butlast merged @ [Range (rstart lst) (max (rend lst) (rend current))]) rest
      else merge_loop (merged @ [current]) rest)"

definition mergeRanges :: "range list \<Rightarrow> range list" where
  "mergeRanges ranges =
     (if ranges = [] then []
      else (let sorted = sort ranges in merge_loop [sorted ! 0] (drop 1 sorted)))"

text \<open>The loop over the segments: blank ones are skipped, the others parsed in order.\<close>

fun scan_segments :: "jstring list \<Rightarrow> range list \<times> jstring list" where
  "scan_segments [] = ([], [])"
| "scan_segments (segment # segments) =
     (let trimmed' = trim segment; (ranges, invalid) = scan_segments segments in
      if trimmed' = [] then (ranges, invalid)
      else (case parseToken trimmed' of
              None \<Rightarrow> (ranges, trimmed' # invalid)
            | Some r \<Rightarrow> (r # ranges, invalid)))"

definition range_token :: "range \<Rightarrow> jstring" where
  "range_token r =
     (if rstart r = rend r then num_to_string (Num (of_int (rstart r)))
      else num_to_string (Num (of_int (rstart r))) @ [45] @ num_to_string (Num (of_int (rend r))))"

definition parse_rules :: "jstring \<Rightarrow> rule_result" where
  "parse_rules input =
     (let raw = trim input in
      if raw = [] then
        \<lparr>scr_ok = True, scr_ranges = [], scr_tokens = [], scr_normalized = [], scr_invalidTokens = []\<rparr>
      else
        (let sanitized = replace_unit 0xFF0C 44 raw;
             segments = split_on 44 sanitized;
             (ranges, invalid) = scan_segments segments
         in if invalid \<noteq> [] then
              \<lparr>scr_ok = False, scr_ranges = [], scr_tokens = [], scr_normalized = raw,
               scr_invalidTokens = invalid\<rparr>
            else
              (let merged = mergeRanges ranges; tokens = map range_token merged in
               \<lparr>scr_ok = True, scr_ranges = merged, scr_tokens = tokens,
                scr_normalized = join [44] tokens, scr_invalidTokens = []\<rparr>)))"

definition parseHttpStatusCodeRules :: "jsval \<Rightarrow> rule_result res" where
  "parseHttpStatusCodeRules input =
     rbind (js_String (js_nullish_or input (JStr []))) (\<lambda>s. Inr (parse_rules s))"

subsection \<open>The set of codes a list of ranges stands for\<close>

definition covers :: "range list \<Rightarrow> int set" where
  "covers rs = (\<Union>r \<in> set rs. {rstart r..rend r})"

definition proper :: "range \<Rightarrow> bool" where
  "proper r \<longleftrightarrow> rstart r \<le> rend r"

text \<open>Canonical lists: proper ranges in ascending order with a gap between neighbours.\<close>

definition separated :: "range list \<Rightarrow> bool" where
  "separated rs \<longleftrightarrow> list_all proper rs \<and> sorted_wrt (\<lambda>a b. rend a + 1 < rstart b) rs"

lemma covers_Nil [simp]: "covers [] = {}"
  by (simp add: covers_def)

lemma covers_Cons [simp]: "covers (r # rs) = {rstart r..rend r} \<union> covers rs"
  by (simp add: covers_def)

lemma covers_append [simp]: "covers (rs @ rs') = covers rs \<union> covers rs'"
  by (simp add: covers_def)

fun collapse :: "range \<Rightarrow> range list \<Rightarrow> range list" where
  "collapse l [] = [l]"
| "collapse l (c # cs) =
     (if rstart c \<le> rend l + 1 then collapse (Range (rstart l) (max (rend l) (rend c))) cs
      else l # collapse c cs)"

lemma merge_loop_collapse: "merge_loop (m @ [l]) cs = m @ collapse l cs"
proof (induction l cs arbitrary: m rule: collapse.induct)
  case (2 l c cs)
  show ?case
  proof (cases "rstart c \<le> rend l + 1")
    case True
    with "2.IH"(1) [OF True, of m] show ?thesis by simp
  next
    case False
    with "2.IH"(2) [OF False, of "m @ [l]"] show ?thesis by simp
  qed
qed simp

lemma mergeRanges_collapse:
  "mergeRanges rs = (case sort rs of [] \<Rightarrow> [] | l # cs \<Rightarrow> collapse l cs)"
proof (cases "sort rs")
  case Nil
  then have "rs = []" by (metis length_0_conv length_sort)
  then show ?thesis by (simp add: mergeRanges_def)
next
  case (Cons l cs)
  then have "rs \<noteq> []" by auto
  then show ?thesis using merge_loop_collapse [of "[]" l cs] by (simp add: mergeRanges_def Cons)
qed

lemma collapse_covers:
  "list_all proper (l # cs) \<Longrightarrow> sorted (map rstart (l # cs)) \<Longrightarrow> covers (collapse l cs) = covers (l # cs)"
proof (induction l cs rule: collapse.induct)
  case (2 l c cs)
  show ?case
  proof (cases "rstart c \<le> rend l + 1")
    case True
    let ?m = "Range (rstart l) (max (rend l) (rend c))"
    have "covers (collapse ?m cs) = covers (?m # cs)"
      by (rule "2.IH"(1) [OF True]) (use "2.prems" in \<open>auto simp: proper_def\<close>)
    moreover have "{rstart ?m..rend ?m} = {rstart l..rend l} \<union> {rstart c..rend c}"
      using True "2.prems" by (auto simp: proper_def)
    ultimately show ?thesis using True by (simp add: Un_assoc)
  next
    case False
    with 2 show ?thesis by auto
  qed
qed simp

lemma collapse_starts: "r \<in> set (collapse l cs) \<Longrightarrow> sorted (map rstart (l # cs)) \<Longrightarrow> rstart l \<le> rstart r"
proof (induction l cs rule: collapse.induct)
  case (2 l c cs)
  then show ?case by (cases "rstart c \<le> rend l + 1") fastforce+
qed simp

lemma collapse_separated:
  "list_all proper (l # cs) \<Longrightarrow> sorted (map rstart (l # cs)) \<Longrightarrow> separated (collapse l cs)"
proof (induction l cs rule: collapse.induct)
  case (2 l c cs)
  show ?case
  proof (cases "rstart c \<le> rend l + 1")
    case True
    with 2 show ?thesis by (auto simp: proper_def)
  next
    case False
    have "separated (collapse c cs)" using "2.IH"(2) [OF False] "2.prems" by simp
    moreover have "\<forall>r \<in> set (collapse c cs). rend l + 1 < rstart r"
      using False collapse_starts [of _ c cs] "2.prems" by fastforce
    ultimately show ?thesis using False "2.prems" by (simp add: separated_def)
  qed
qed (simp add: separated_def)

lemma sorted_rstart: "sorted (rs :: range list) \<Longrightarrow> sorted (map rstart rs)"
  by (induction rs) (auto simp: less_eq_range_def)

lemma mergeRanges_correct:
  assumes "list_all proper rs"
  shows "covers (mergeRanges rs) = covers rs" and "separated (mergeRanges rs)"
proof -
  have p: "list_all proper (sort rs)" using assms by (simp add: list_all_iff)
  have s: "sorted (map rstart (sort rs))" by (rule sorted_rstart) simp
  have c: "covers (sort rs) = covers rs" by (simp add: covers_def)
  show "covers (mergeRanges rs) = covers rs" "separated (mergeRanges rs)"
    using collapse_covers collapse_separated p s c
    by (auto simp: mergeRanges_collapse separated_def split: list.splits)
qed

text \<open>A canonical list is determined by the codes it covers.\<close>

lemma separated_tail_above: "separated (r # rs) \<Longrightarrow> x \<in> covers rs \<Longrightarrow> rend r + 1 < x"
  by (fastforce simp: separated_def covers_def)

lemma separated_head:
  assumes "separated (r # rs)"
  shows "rstart r \<in> covers (r # rs)" and "x \<in> covers (r # rs) \<Longrightarrow> rstart r \<le> x"
    and "rend r + 1 \<notin> covers (r # rs)" and "rstart r \<le> x \<Longrightarrow> x \<le> rend r \<Longrightarrow> x \<in> covers (r # rs)"
  using assms separated_tail_above [OF assms] by (fastforce simp: separated_def proper_def)+

lemma separated_unique:
  "separated rs \<Longrightarrow> separated rs' \<Longrightarrow> covers rs = covers rs' \<Longrightarrow> rs = rs'"
proof (induction rs arbitrary: rs')
  case Nil
  then show ?case using separated_head(1) by (cases rs') auto
next
  case (Cons r rs)
  then obtain r' rs'' where rs': "rs' = r' # rs''"
    using separated_head(1) [OF Cons.prems(1)] by (cases rs') auto
  note h = separated_head [OF Cons.prems(1)]
  note h' = separated_head [OF Cons.prems(2) [unfolded rs']]
  have eq: "covers (r # rs) = covers (r' # rs'')" using Cons.prems(3) rs' by simp
  have st: "rstart r = rstart r'" using h h' eq by (metis order_antisym)
  have "rend r = rend r'"
  proof (rule ccontr)
    assume "rend r \<noteq> rend r'"
    then consider "rend r < rend r'" | "rend r' < rend r" by linarith
    then show False
    proof cases
      case 1
      have "rstart r' \<le> rend r + 1" using st Cons.prems(1) by (simp add: separated_def proper_def)
      with 1 have "rend r + 1 \<in> covers (r' # rs'')" by (intro h'(4)) auto
      with h(3) eq show False by metis
    next
      case 2
      have "rstart r \<le> rend r' + 1" using st Cons.prems(2) rs' by (simp add: separated_def proper_def)
      with 2 have "rend r' + 1 \<in> covers (r # rs)" by (intro h(4)) auto
      with h'(3) eq show False by metis
    qed
  qed
  with st have rr: "r = r'" by (simp add: range.expand)
  have "covers rs = covers (r # rs) - {rstart r..rend r}"
    using separated_tail_above [OF Cons.prems(1)] by fastforce
  moreover have "covers rs'' = covers (r' # rs'') - {rstart r'..rend r'}"
    using separated_tail_above [OF Cons.prems(2) [unfolded rs']] by fastforce
  ultimately have "covers rs = covers rs''" using eq rr by simp
  then show ?case using Cons.IH [of rs''] Cons.prems rs' rr by (simp add: separated_def)
qed

lemma covers_sorted_id: "separated rs \<Longrightarrow> mergeRanges rs = rs"
proof (rule separated_unique)
  assume "separated rs"
  then have "list_all proper rs" by (simp add: separated_def)
  then show "separated (mergeRanges rs)" "covers (mergeRanges rs) = covers rs"
    by (simp_all add: mergeRanges_correct)
qed

subsection \<open>Tokens\<close>

definition valid_code :: "int \<Rightarrow> bool" where
  "valid_code c \<longleftrightarrow> 100 \<le> c \<and> c \<le> 599"

definition valid_range :: "range \<Rightarrow> bool" where
  "valid_range r \<longleftrightarrow> proper r \<and> valid_code (rstart r) \<and> valid_code (rend r)"

lemma parse_int10_digits:
  assumes "isNumber s"
  shows "parse_int10 s = rnd (of_nat (digits_val s))"
proof -
  from assms obtain c r where s: "s = c # r" "is_digit c" by (cases s) (auto simp: isNumber_def)
  then have h: "trim_start s = s" "hd s \<noteq> 45" "hd s \<noteq> 43" "s \<noteq> []"
    by (auto simp: trim_start_def digit_not_ws is_digit_def)
  have tw: "takeWhile is_digit s = s" using assms by (simp add: isNumber_def list_all_iff takeWhile_eq_all_conv)
  show ?thesis using h by (simp add: parse_int10_def with_sign_def Let_def tw)
qed

lemma parse_int10_small:
  assumes "isNumber s" and "parse_int10 s = Num r" and "r \<le> 599"
  shows "r = of_nat (digits_val s)"
proof (cases "digits_val s \<le> 2 ^ 53")
  case True
  then show ?thesis using assms parse_int10_digits [OF assms(1)] rnd_of_nat [OF True] by simp
next
  case False
  let ?x = "of_nat (digits_val s) :: rat"
  have "2 ^ 53 \<le> digits_val s" using False by linarith
  then have "(of_nat (2 ^ 53) :: rat) \<le> ?x" by (rule of_nat_mono)
  then have a: "2 powi 53 \<le> \<bar>?x\<bar>" by simp
  have b: "rnd ?x = Num r" using assms parse_int10_digits [OF assms(1)] by simp
  have "2 powi 53 \<le> \<bar>r\<bar>" by (rule rnd_ge_leading [OF b a]) simp
  moreover have "0 \<le> r"
  proof -
    have "?x \<noteq> 0" using False by auto
    then have "sgn ?x = 1" by simp
    with rnd_NumD(3) [OF b \<open>?x \<noteq> 0\<close>] have "r = \<bar>r\<bar>" by simp
    then show ?thesis by simp
  qed
  ultimately show ?thesis using assms(3) by simp
qed

lemma num_int_digits:
  assumes "isNumber s" and "parse_int10 s = Num r" and "r \<le> 599"
  shows "num_int (parse_int10 s) = int (digits_val s)"
  using parse_int10_small [OF assms] assms(2) by (simp add: num_int_def)

lemma parseToken_valid:
  assumes "parseToken t = Some rg"
  shows "valid_range rg"
proof -
  have key: "valid_code (num_int x) \<and> num_int x \<le> num_int y \<and> valid_code (num_int y)"
    if fin: "num_finite x" "num_finite y" and ord: "\<not> num_lt y x" "\<not> num_lt x (Num 100)" "\<not> num_lt (Num 599) y" for x y
  proof -
    obtain a b where ab: "x = Num a" "y = Num b" using fin by (cases x; cases y) (auto simp: num_finite_def)
    have "a \<le> b" "100 \<le> a" "b \<le> 599" using ord ab by (auto simp: num_lt_def num_eq_def)
    then have "100 \<le> \<lfloor>a\<rfloor>" "\<lfloor>a\<rfloor> \<le> \<lfloor>b\<rfloor>" "\<lfloor>b\<rfloor> \<le> 599" using floor_mono [of a b] by (auto simp: le_floor_iff floor_le_iff)
    then have "valid_code \<lfloor>a\<rfloor> \<and> \<lfloor>a\<rfloor> \<le> \<lfloor>b\<rfloor> \<and> valid_code \<lfloor>b\<rfloor>"
      unfolding valid_code_def by linarith
    with ab show ?thesis by (simp add: num_int_def)
  qed
  have irr: "\<not> num_lt x x" for x by (cases x) (auto simp: num_lt_def num_eq_def)
  show ?thesis
    using assms key irr
    by (auto simp: parseToken_def Let_def valid_range_def proper_def split: if_splits)
qed

lemma isNumber_dec [simp]: "isNumber (dec n)"
  by (auto simp: isNumber_def list_all_iff dest: dec_digits)

lemma parse_int10_dec: "n \<le> 2 ^ 53 \<Longrightarrow> parse_int10 (dec n) = Num (of_nat n)"
  by (simp add: parse_int10_digits rnd_of_nat)

lemma remove_unit_absent: "c \<notin> set s \<Longrightarrow> remove_unit c s = s"
  by (auto simp: remove_unit_def intro!: filter_True)

lemma dec_not_mem: "\<not> is_digit c \<Longrightarrow> c \<notin> set (dec n)"
  by (auto dest: dec_digits)

lemma range_token_nat:
  assumes "valid_range r"
  shows "range_token r = (if rstart r = rend r then dec (nat (rstart r))
     else dec (nat (rstart r)) @ [45] @ dec (nat (rend r)))"
proof -
  have "num_to_string (Num (of_int x)) = dec (nat x)" if "valid_code x" for x
  proof -
    have "nat x < 10 ^ 15" using that by (auto simp: valid_code_def nat_less_iff)
    from num_to_string_of_nat [OF this] that show ?thesis by (simp add: valid_code_def del: num_to_string.simps)
  qed
  with assms show ?thesis by (simp add: range_token_def valid_range_def del: num_to_string.simps)
qed

text \<open>A printed token has no white space and no comma, and parses back to its range.\<close>

lemma range_token_chars:
  assumes "valid_range r" and "c \<in> set (range_token r)"
  shows "is_digit c \<or> c = 45"
  using assms by (auto simp: range_token_nat dest: dec_digits split: if_splits)

lemma trim_range_token: "valid_range r \<Longrightarrow> trim (range_token r) = range_token r"
  by (rule trim_no_ws) (use range_token_chars in \<open>fastforce simp: is_digit_def is_ws_def\<close>)

lemma parseToken_range_token:
  assumes "valid_range r"
  shows "parseToken (range_token r) = Some r"
proof -
  have no_sp: "remove_unit 32 (range_token r) = range_token r"
    by (rule remove_unit_absent) (use range_token_chars [OF assms, of 32] in \<open>auto simp: is_digit_def\<close>)
  let ?a = "nat (rstart r)" and ?b = "nat (rend r)"
  have ab: "?a \<le> 599" "?b \<le> 599" "100 \<le> ?a" "?a \<le> ?b" "int ?a = rstart r" "int ?b = rend r"
    using assms by (auto simp: valid_range_def valid_code_def proper_def)
  have pa: "parse_int10 (dec ?a) = Num (of_nat ?a)" "parse_int10 (dec ?b) = Num (of_nat ?b)"
    using ab(1,2) by (intro parse_int10_dec; simp)+
  have cmp: "\<not> num_lt (Num (of_nat ?b)) (Num (of_nat ?a))" "\<not> num_lt (Num (of_nat ?a)) (Num 100)"
    "\<not> num_lt (Num 599) (Num (of_nat ?b))" "\<not> num_lt (Num 599) (Num (of_nat ?a))"
    using ab by (auto simp: num_lt_def num_eq_def)
  have hy: "45 \<notin> set (dec n)" for n by (rule dec_not_mem) (simp add: is_digit_def)
  have ni: "num_int (Num (of_nat n)) = int n" for n by (simp add: num_int_def)
  show ?thesis
  proof (cases "rstart r = rend r")
    case True
    then have t: "range_token r = dec ?a" using assms by (simp add: range_token_nat)
    have "parseToken (dec ?a) = Some (Range (int ?a) (int ?a))"
      using no_sp hy cmp pa unfolding t
      by (simp add: parseToken_def Let_def str_includes_single num_finite_def ni)
    with t ab True show ?thesis by (metis range.collapse)
  next
    case False
    then have t: "range_token r = dec ?a @ [45] @ dec ?b" using assms by (simp add: range_token_nat)
    have sp: "split_on 45 (dec ?a @ [45] @ dec ?b) = [dec ?a, dec ?b]"
      using hy by (simp add: split_on_append split_on_absent)
    have "trim (dec ?a @ [45] @ dec ?b) = dec ?a @ [45] @ dec ?b"
      using trim_range_token [OF assms] t by simp
    with no_sp sp cmp pa have "parseToken (dec ?a @ [45] @ dec ?b) = Some (Range (int ?a) (int ?b))"
      unfolding t by (simp add: parseToken_def Let_def str_includes_single num_finite_def ni)
    with t ab show ?thesis by (metis range.collapse)
  qed
qed

subsection \<open>Printing and parsing again\<close>

lemma scan_segments_tokens:
  "list_all valid_range rs \<Longrightarrow> scan_segments (map range_token rs) = (rs, [])"
proof (induction rs)
  case (Cons r rs)
  then have "trim (range_token r) = range_token r" "parseToken (range_token r) = Some r"
    by (simp_all add: trim_range_token parseToken_range_token)
  moreover from this(2) have "range_token r \<noteq> []" by (auto simp: parseToken_def remove_unit_def)
  ultimately show ?case using Cons by simp
qed simp

text \<open>The tokens of an input: the trimmed, non-blank pieces between commas of either width.\<close>

definition rule_tokens :: "jstring \<Rightarrow> jstring list" where
  "rule_tokens s = filter (\<lambda>t. t \<noteq> []) (map trim (split_on 44 (replace_unit 0xFF0C 44 (trim s))))"

definition token_codes :: "jstring \<Rightarrow> int set" where
  "token_codes t = (case parseToken t of None \<Rightarrow> {} | Some r \<Rightarrow> {rstart r..rend r})"

lemma scan_segments_spec:
  "scan_segments segs =
     (let ts = filter (\<lambda>t. t \<noteq> []) (map trim segs)
      in (List.map_filter parseToken ts, filter (\<lambda>t. parseToken t = None) ts))"
  by (induction segs) (auto simp: Let_def map_filter_simps split: option.splits)

lemma parse_rules_spec:
  "parse_rules s =
     (let ts = rule_tokens s; bad = filter (\<lambda>t. parseToken t = None) ts;
          merged = mergeRanges (List.map_filter parseToken ts) in
      if bad \<noteq> [] then
        \<lparr>scr_ok = False, scr_ranges = [], scr_tokens = [], scr_normalized = trim s, scr_invalidTokens = bad\<rparr>
      else
        \<lparr>scr_ok = True, scr_ranges = merged, scr_tokens = map range_token merged,
         scr_normalized = join [44] (map range_token merged), scr_invalidTokens = []\<rparr>)"
proof (cases "trim s = []")
  case True
  then have "rule_tokens s = []" by (simp add: rule_tokens_def replace_unit_def)
  with True show ?thesis by (simp add: parse_rules_def mergeRanges_def map_filter_simps)
next
  case False
  then show ?thesis by (simp add: parse_rules_def scan_segments_spec rule_tokens_def Let_def)
qed

lemma map_filter_valid: "list_all valid_range (List.map_filter parseToken ts)"
  by (induction ts) (auto simp: map_filter_simps parseToken_valid split: option.splits)

lemma covers_map_filter: "covers (List.map_filter parseToken ts) = (\<Union>t \<in> set ts. token_codes t)"
  by (induction ts) (auto simp: map_filter_simps token_codes_def split: option.splits)

lemma list_all_valid_proper: "list_all valid_range rs \<Longrightarrow> list_all proper rs"
  by (auto simp: list_all_iff valid_range_def)

lemma covers_valid: "list_all valid_range rs \<Longrightarrow> c \<in> covers rs \<Longrightarrow> valid_code c"
  by (fastforce simp: covers_def list_all_iff valid_range_def valid_code_def)

lemma valid_merge:
  assumes "list_all valid_range rs"
  shows "list_all valid_range (mergeRanges rs)"
proof -
  note m = mergeRanges_correct [OF list_all_valid_proper [OF assms]]
  have "valid_range r" if "r \<in> set (mergeRanges rs)" for r
  proof -
    have "proper r" using m(2) that by (auto simp: separated_def list_all_iff)
    moreover from this that have "rstart r \<in> covers (mergeRanges rs)" "rend r \<in> covers (mergeRanges rs)"
      by (auto simp: covers_def proper_def)
    ultimately show ?thesis using covers_valid [OF assms] m(1) by (simp add: valid_range_def)
  qed
  then show ?thesis by (simp add: list_all_iff)
qed

lemma rule_tokens_normalized:
  assumes "list_all valid_range rs"
  shows "rule_tokens (join [44] (map range_token rs)) = map range_token rs"
proof (cases "rs = []")
  case True
  then show ?thesis by (simp add: rule_tokens_def replace_unit_def)
next
  case False
  let ?ts = "map range_token rs"
  have ch: "is_digit c \<or> c = 45" if "t \<in> set ?ts" "c \<in> set t" for t c
    using that assms range_token_chars by (auto simp: list_all_iff)
  have no_comma: "\<forall>t \<in> set ?ts. 44 \<notin> set t" using ch by (fastforce simp: is_digit_def)
  have set_join: "set (join [44] xs) \<subseteq> (\<Union>t \<in> set xs. set t) \<union> {44}" for xs :: "nat list list"
    by (induction "[44 :: nat]" xs rule: join.induct) auto
  then have jc: "is_digit c \<or> c = 45 \<or> c = 44" if "c \<in> set (join [44] ?ts)" for c
    using that ch set_join [of ?ts] by blast
  have tr: "trim (join [44] ?ts) = join [44] ?ts"
    by (rule trim_no_ws) (use jc in \<open>fastforce simp: is_digit_def is_ws_def\<close>)
  have rp: "replace_unit 0xFF0C 44 (join [44] ?ts) = join [44] ?ts"
    unfolding replace_unit_def by (rule map_idI) (use jc in \<open>fastforce simp: is_digit_def\<close>)
  have "split_on 44 (join [44] ?ts) = ?ts" using split_on_join [of ?ts 44] no_comma False by simp
  moreover have "map trim ?ts = ?ts"
    using assms by (auto simp: list_all_iff trim_range_token intro!: map_idI)
  moreover have "filter (\<lambda>t. t \<noteq> []) ?ts = ?ts"
    using assms parseToken_range_token by (fastforce simp: list_all_iff parseToken_def remove_unit_def intro!: filter_True)
  ultimately show ?thesis by (simp only: rule_tokens_def tr rp)
qed

lemma map_filter_tokens:
  "list_all valid_range rs \<Longrightarrow> List.map_filter parseToken (map range_token rs) = rs \<and>
     filter (\<lambda>t. parseToken t = None) (map range_token rs) = []"
  by (induction rs) (auto simp: map_filter_simps parseToken_range_token)

text \<open>Two concrete inputs.\<close>

lemma sample_rules:
  shows "rule_tokens (js ''401'') = [js ''401'']"
    and "parseToken (js ''401'') = Some (Range 401 401)"
    and "scr_ok (parse_rules (js ''401''))"
proof -
  show tok: "rule_tokens (js ''401'') = [js ''401'']"
    by (simp add: rule_tokens_def trim_def trim_start_def trim_end_def is_ws_def js_def replace_unit_def)
  have "range_token (Range 401 401) = js ''401''"
    by (simp add: range_token_nat valid_range_def proper_def valid_code_def js_def dec.simps)
  then show p: "parseToken (js ''401'') = Some (Range 401 401)"
    using parseToken_range_token [of "Range 401 401"] by (simp add: valid_range_def proper_def valid_code_def)
  show "scr_ok (parse_rules (js ''401''))" by (simp add: parse_rules_spec tok p Let_def)
qed

lemma sample_padded:
  shows "rule_tokens (js '' 401,401'') = [js ''401'', js ''401'']"
    and "scr_ok (parse_rules (js '' 401,401''))"
proof -
  show tok: "rule_tokens (js '' 401,401'') = [js ''401'', js ''401'']"
    by (simp add: rule_tokens_def trim_def trim_start_def trim_end_def is_ws_def js_def replace_unit_def)
  show "scr_ok (parse_rules (js '' 401,401''))" by (simp add: parse_rules_spec tok sample_rules(2) Let_def)
qed

subsection \<open>Properties\<close>

text \<open>
  C14. When the parser accepts an input, its ranges cover exactly the codes that the tokens of the
  input denote, every one of them within 100..599, and they are in canonical form: ascending,
  non-empty and with at least one uncovered code between neighbours.
\<close>

theorem parse_rules_covers:
  assumes "scr_ok (parse_rules s)"
  shows "covers (scr_ranges (parse_rules s)) = (\<Union>t \<in> set (rule_tokens s). token_codes t) \<and>
    separated (scr_ranges (parse_rules s)) \<and>
    (\<forall>c \<in> covers (scr_ranges (parse_rules s)). 100 \<le> c \<and> c \<le> 599)"
proof -
  let ?rs = "List.map_filter parseToken (rule_tokens s)"
  have r: "scr_ranges (parse_rules s) = mergeRanges ?rs"
    using assms by (auto simp: parse_rules_spec Let_def split: if_splits)
  note m = mergeRanges_correct [OF list_all_valid_proper [OF map_filter_valid]]
  have "covers (scr_ranges (parse_rules s)) = (\<Union>t \<in> set (rule_tokens s). token_codes t)"
    "separated (scr_ranges (parse_rules s))"
    using m [of "rule_tokens s"] by (simp_all add: r covers_map_filter)
  moreover have "\<forall>c \<in> covers (scr_ranges (parse_rules s)). 100 \<le> c \<and> c \<le> 599"
    using covers_valid [OF map_filter_valid] m(1) [of "rule_tokens s"] by (auto simp: r valid_code_def)
  ultimately show ?thesis by simp
qed

theorem parse_rules_covers_witness:
  "scr_ok (parse_rules (js ''401'')) \<and> covers (scr_ranges (parse_rules (js ''401''))) = {401}"
  using sample_rules(3) parse_rules_covers [OF sample_rules(3)] by (simp add: sample_rules token_codes_def)

text \<open>
  Parsing is idempotent on what it accepts: the normalised text of an accepted input parses
  to exactly the same result (ranges, tokens and normalised text).
\<close>

theorem parse_rules_idem:
  assumes "scr_ok (parse_rules s)"
  shows "parse_rules (scr_normalized (parse_rules s)) = parse_rules s"
proof -
  let ?m = "mergeRanges (List.map_filter parseToken (rule_tokens s))"
  have v: "list_all valid_range ?m" by (rule valid_merge [OF map_filter_valid])
  have "separated ?m" by (rule mergeRanges_correct(2) [OF list_all_valid_proper [OF map_filter_valid]])
  then have id: "mergeRanges ?m = ?m" by (rule covers_sorted_id)
  have p: "parse_rules s = \<lparr>scr_ok = True, scr_ranges = ?m, scr_tokens = map range_token ?m,
         scr_normalized = join [44] (map range_token ?m), scr_invalidTokens = []\<rparr>"
    using assms by (auto simp: parse_rules_spec Let_def split: if_splits)
  show ?thesis
    unfolding p rule_result.simps
    using rule_tokens_normalized [OF v] map_filter_tokens [OF v] id by (simp add: parse_rules_spec Let_def)
qed

theorem parse_rules_idem_witness:
  "parse_rules (scr_normalized (parse_rules (js '' 401,401''))) = parse_rules (js '' 401,401'')"
  by (rule parse_rules_idem [OF sample_padded(2)])

text \<open>
  The normalised text is a faithful name of the set of codes: two accepted inputs denote the
  same set of codes exactly when they normalise to the same text.
\<close>

theorem parse_rules_normalized_iff:
  assumes "scr_ok (parse_rules s)" and "scr_ok (parse_rules s')"
  shows "scr_normalized (parse_rules s) = scr_normalized (parse_rules s') \<longleftrightarrow>
    (\<Union>t \<in> set (rule_tokens s). token_codes t) = (\<Union>t \<in> set (rule_tokens s'). token_codes t)"
proof
  let ?m = "\<lambda>s. mergeRanges (List.map_filter parseToken (rule_tokens s))"
  have n: "scr_normalized (parse_rules u) = join [44] (map range_token (?m u))" if "scr_ok (parse_rules u)" for u
    using that by (auto simp: parse_rules_spec Let_def split: if_splits)
  have v: "list_all valid_range (?m u)" for u by (rule valid_merge [OF map_filter_valid])
  have c: "covers (?m u) = (\<Union>t \<in> set (rule_tokens u). token_codes t)" "separated (?m u)" for u
    using mergeRanges_correct [OF list_all_valid_proper [OF map_filter_valid]] by (simp_all add: covers_map_filter)
  {
    assume "scr_normalized (parse_rules s) = scr_normalized (parse_rules s')"
    then have "map range_token (?m s) = map range_token (?m s')"
      using n assms rule_tokens_normalized [OF v] by metis
    then have "?m s = ?m s'" using map_filter_tokens [OF v] by metis
    then show "(\<Union>t \<in> set (rule_tokens s). token_codes t) = (\<Union>t \<in> set (rule_tokens s'). token_codes t)"
      using c(1) by metis
  next
    assume "(\<Union>t \<in> set (rule_tokens s). token_codes t) = (\<Union>t \<in> set (rule_tokens s'). token_codes t)"
    then have "?m s = ?m s'" using c separated_unique by metis
    then show "scr_normalized (parse_rules s) = scr_normalized (parse_rules s')" using n assms by simp
  }
qed

theorem parse_rules_normalized_iff_witness:
  "scr_normalized (parse_rules (js ''401'')) = scr_normalized (parse_rules (js '' 401,401''))"
  using parse_rules_normalized_iff [OF sample_rules(3) sample_padded(2)]
  by (simp add: sample_rules(1) sample_padded(1))

end
