(* ===== verification/JsJson.thy ===== *)
theory JsJson
  imports JsValue
begin

text \<open>
  \<open>JSON.parse\<close> and \<open>JSON.stringify\<close> (ECMA-262, chapter on the JSON object), as the sources call
  them: parsing without a reviver, printing without a replacer, compact or with an indentation
  of two. The parser is a lexer and a stack machine over the tokens; duplicate keys keep the last
  value. The main fact is the round trip: parsing either printed form of a JSON value gives that
  value back.
\<close>

subsection \<open>Tokens\<close>

datatype jtok =
    TLBrace | TRBrace | TLBrack | TRBrack | TColon | TComma
  | TTrue | TFalse | TNull | TStr jstring | TNum jsnum

definition json_ws :: "nat \<Rightarrow> bool" where
  "json_ws c \<longleftrightarrow> c = 9 \<or> c = 10 \<or> c = 13 \<or> c = 32"

definition hex_digit :: "nat \<Rightarrow> nat option" where
  "hex_digit c = radix_digit 16 c"

definition hex4 :: "nat \<Rightarrow> nat \<Rightarrow> nat \<Rightarrow> nat \<Rightarrow> nat option" where
  "hex4 a b c d = (case hex_digit a of None \<Rightarrow> None | Some a' \<Rightarrow>
     (case hex_digit b of None \<Rightarrow> None | Some b' \<Rightarrow>
     (case hex_digit c of None \<Rightarrow> None | Some c' \<Rightarrow>
     (case hex_digit d of None \<Rightarrow> None | Some d' \<Rightarrow> Some (((a' * 16 + b') * 16 + c') * 16 + d')))))"

definition simple_escape :: "nat \<Rightarrow> nat option" where
  "simple_escape c =
     (if c = 34 \<or> c = 92 \<or> c = 47 then Some c
      else if c = 98 then Some 8 else if c = 102 then Some 12 else if c = 110 then Some 10
      else if c = 114 then Some 13 else if c = 116 then Some 9 else None)"

text \<open>The characters of a string literal after its opening quote, and the rest of the input.\<close>

fun lex_str :: "jstring \<Rightarrow> (jstring \<times> jstring) option" where
  "lex_str [] = None"
| "lex_str (c # r) =
     (if c = 34 then Some ([], r)
      else if c < 32 then None
      else if c = 92 then
        (case r of
           [] \<Rightarrow> None
         | e # r1 \<Rightarrow>
             (case simple_escape e of
                Some v \<Rightarrow> map_option (apfst (Cons v)) (lex_str r1)
              | None \<Rightarrow>
                  if e = 117 then
                    (case r1 of
                       h1 # h2 # h3 # h4 # r2 \<Rightarrow>
                         (case hex4 h1 h2 h3 h4 of
                            None \<Rightarrow> None
                          | Some v \<Rightarrow> map_option (apfst (Cons v)) (lex_str r2))
                     | _ \<Rightarrow> None)
                  else None))
      else map_option (apfst (Cons c)) (lex_str r))"

lemma lex_str_length: "lex_str s = Some (a, r) \<Longrightarrow> length r < length s"
proof (induction s arbitrary: a rule: lex_str.induct)
  case (2 c r')
  then show ?case by (fastforce split: if_splits option.splits list.splits)
qed simp

function json_lex :: "jstring \<Rightarrow> jtok list option" where
  "json_lex [] = Some []"
| "json_lex (c # r) =
     (if json_ws c then json_lex r
      else if c = 123 then map_option (Cons TLBrace) (json_lex r)
      else if c = 125 then map_option (Cons TRBrace) (json_lex r)
      else if c = 91 then map_option (Cons TLBrack) (json_lex r)
      else if c = 93 then map_option (Cons TRBrack) (json_lex r)
      else if c = 58 then map_option (Cons TColon) (json_lex r)
      else if c = 44 then map_option (Cons TComma) (json_lex r)
      else if c = 34 then
        (case lex_str r of None \<Rightarrow> None | Some (s, r') \<Rightarrow> map_option (Cons (TStr s)) (json_lex r'))
      else if is_digit c \<or> c = 45 then
        (case json_number (takeWhile is_num_char (c # r)) of
           None \<Rightarrow> None
         | Some n \<Rightarrow> map_option (Cons (TNum n)) (json_lex (dropWhile is_num_char r)))
      else if starts_with (c # r) (js ''true'') then map_option (Cons TTrue) (json_lex (drop 3 r))
      else if starts_with (c # r) (js ''false'') then map_option (Cons TFalse) (json_lex (drop 4 r))
      else if starts_with (c # r) (js ''null'') then map_option (Cons TNull) (json_lex (drop 3 r))
      else None)"
  by pat_completeness auto
termination
  by (relation "measure length")
     (auto simp: less_Suc_eq_le length_dropWhile_le dest: lex_str_length)

declare json_lex.simps [simp del]

subsection \<open>The parser\<close>

text \<open>The containers that are open: an array with its elements so far, an object with its
  properties so far and the key whose value is being read.\<close>

datatype jframe = FArr "jsval list" | FObj jsobj jstring

datatype pstate =
    PVal "jframe list"
  | PArr "jframe list"
  | PObj "jframe list"
  | PKey jsobj "jframe list"
  | PColon jsobj jstring "jframe list"
  | PAfter jsval "jframe list"

fun start_value :: "jframe list \<Rightarrow> jtok \<Rightarrow> pstate option" where
  "start_value fs TNull = Some (PAfter JNull fs)"
| "start_value fs TTrue = Some (PAfter (JBool True) fs)"
| "start_value fs TFalse = Some (PAfter (JBool False) fs)"
| "start_value fs (TNum n) = Some (PAfter (JNum n) fs)"
| "start_value fs (TStr s) = Some (PAfter (JStr s) fs)"
| "start_value fs TLBrack = Some (PArr fs)"
| "start_value fs TLBrace = Some (PObj fs)"
| "start_value fs _ = None"

fun after_value :: "jsval \<Rightarrow> jframe list \<Rightarrow> jtok \<Rightarrow> pstate option" where
  "after_value v (FArr vs # fs) TComma = Some (PVal (FArr (vs @ [v]) # fs))"
| "after_value v (FArr vs # fs) TRBrack = Some (PAfter (JArr (vs @ [v])) fs)"
| "after_value v (FObj ob k # fs) TComma = Some (PKey (obj_set k v ob) fs)"
| "after_value v (FObj ob k # fs) TRBrace = Some (PAfter (JObj (obj_set k v ob)) fs)"
| "after_value v _ _ = None"

fun pstep :: "pstate \<Rightarrow> jtok \<Rightarrow> pstate option" where
  "pstep (PVal fs) t = start_value fs t"
| "pstep (PArr fs) t = (if t = TRBrack then Some (PAfter (JArr []) fs) else start_value (FArr [] # fs) t)"
| "pstep (PObj fs) t = (case t of
       TRBrace \<Rightarrow> Some (PAfter (JObj []) fs) | TStr k \<Rightarrow> Some (PColon [] k fs) | _ \<Rightarrow> None)"
| "pstep (PKey ob fs) t = (case t of TStr k \<Rightarrow> Some (PColon ob k fs) | _ \<Rightarrow> None)"
| "pstep (PColon ob k fs) t = (if t = TColon then Some (PVal (FObj ob k # fs)) else None)"
| "pstep (PAfter v fs) t = after_value v fs t"

fun prun :: "pstate \<Rightarrow> jtok list \<Rightarrow> pstate option" where
  "prun st [] = Some st"
| "prun st (t # ts) = (case pstep st t of None \<Rightarrow> None | Some st' \<Rightarrow> prun st' ts)"

text \<open>\<open>JSON.parse(s)\<close>; \<open>None\<close> is the SyntaxError.\<close>

definition json_parse :: "jstring \<Rightarrow> jsval option" where
  "json_parse s = (case json_lex s of
       None \<Rightarrow> None
     | Some ts \<Rightarrow> (case prun (PVal []) ts of Some (PAfter v []) \<Rightarrow> Some v | _ \<Rightarrow> None))"

subsection \<open>JSON.stringify\<close>

definition hex_char :: "nat \<Rightarrow> nat" where
  "hex_char d = (if d < 10 then 48 + d else 87 + d)"

definition unicode_escape :: "nat \<Rightarrow> jstring" where
  "unicode_escape c =
     [92, 117, hex_char (c div 4096 mod 16), hex_char (c div 256 mod 16),
      hex_char (c div 16 mod 16), hex_char (c mod 16)]"

definition escape_unit :: "nat \<Rightarrow> jstring" where
  "escape_unit c =
     (if c = 8 then [92, 98] else if c = 9 then [92, 116] else if c = 10 then [92, 110]
      else if c = 12 then [92, 102] else if c = 13 then [92, 114]
      else if c = 34 then [92, 34] else if c = 92 then [92, 92]
      else if c < 32 then unicode_escape c else [c])"

definition is_high :: "nat \<Rightarrow> bool" where "is_high c \<longleftrightarrow> 55296 \<le> c \<and> c \<le> 56319"
definition is_low :: "nat \<Rightarrow> bool" where "is_low c \<longleftrightarrow> 56320 \<le> c \<and> c \<le> 57343"

definition lone_unit :: "nat \<Rightarrow> jstring" where
  "lone_unit c = (if is_high c \<or> is_low c then unicode_escape c else escape_unit c)"

fun quote_units :: "jstring \<Rightarrow> jstring" where
  "quote_units [] = []"
| "quote_units [c] = lone_unit c"
| "quote_units (c # d # r) =
     (if is_high c \<and> is_low d then c # d # quote_units r else lone_unit c @ quote_units (d # r))"

definition quote :: "jstring \<Rightarrow> jstring" where
  "quote s = [34] @ quote_units s @ [34]"

text \<open>Properties whose value is \<open>undefined\<close> are left out; in an array \<open>undefined\<close> prints as null.\<close>

definition json_props :: "jsobj \<Rightarrow> jsobj" where
  "json_props ob = filter (\<lambda>kv. snd kv \<noteq> JUndef) ob"

lemma json_props_in: "kv \<in> set (json_props ob) \<Longrightarrow> kv \<in> set ob"
  by (simp add: json_props_def)

lemma json_props_cong [fundef_cong]:
  "ob = ob' \<Longrightarrow> json_props ob = json_props ob'" by simp

text \<open>\<open>JSON.stringify(v)\<close> for a value other than \<open>undefined\<close>.\<close>

function json_str :: "jsval \<Rightarrow> jstring" where
  "json_str JUndef = js ''null''"
| "json_str JNull = js ''null''"
| "json_str (JBool b) = (if b then js ''true'' else js ''false'')"
| "json_str (JNum n) = (if num_finite n then num_to_string n else js ''null'')"
| "json_str (JStr s) = quote s"
| "json_str (JArr vs) = [91] @ join [44] (map json_str vs) @ [93]"
| "json_str (JObj ob) =
     [123] @ join [44] (map (\<lambda>kv. quote (fst kv) @ [58] @ json_str (snd kv)) (json_props ob)) @ [125]"
  by pat_completeness auto
termination
proof (relation "measure size", goal_cases)
  case (3 ob kv)
  then have "kv \<in> set ob" by (rule json_props_in)
  then have "size (snd kv) < Suc (size_list (size_prod (\<lambda>_. 0) size) ob)"
    by (induction ob) auto
  then show ?case by simp
qed (auto simp: less_Suc_eq_le size_list_estimation')

text \<open>\<open>JSON.stringify(v, null, 2)\<close>; \<open>n\<close> is the current indentation.\<close>

definition indent :: "nat \<Rightarrow> jstring" where
  "indent n = 10 # replicate n 32"

function json_ind :: "nat \<Rightarrow> jsval \<Rightarrow> jstring" where
  "json_ind n JUndef = js ''null''"
| "json_ind n JNull = js ''null''"
| "json_ind n (JBool b) = (if b then js ''true'' else js ''false'')"
| "json_ind n (JNum x) = (if num_finite x then num_to_string x else js ''null'')"
| "json_ind n (JStr s) = quote s"
| "json_ind n (JArr vs) =
     (if vs = [] then js ''[]''
      else [91] @ indent (n + 2) @ join (44 # indent (n + 2)) (map (json_ind (n + 2)) vs) @ indent n @ [93])"
| "json_ind n (JObj ob) =
     (let ps = json_props ob in
      if ps = [] then js ''{}''
      else [123] @ indent (n + 2) @
           join (44 # indent (n + 2)) (map (\<lambda>kv. quote (fst kv) @ [58, 32] @ json_ind (n + 2) (snd kv)) ps) @
           indent n @ [125])"
  by pat_completeness auto
termination
proof (relation "measure (\<lambda>(n, v). size v)", goal_cases)
  case (3 n ob ps kv)
  then have "kv \<in> set ob" using json_props_in by blast
  then have "size (snd kv) < Suc (size_list (size_prod (\<lambda>_. 0) size) ob)"
    by (induction ob) auto
  then show ?case by simp
qed (auto simp: less_Suc_eq_le size_list_estimation')

subsection \<open>JSON values\<close>

text \<open>A value that JSON can express: no \<open>undefined\<close>, finite doubles, objects in enumeration order.\<close>

fun json_wf :: "jsval \<Rightarrow> bool" where
  "json_wf JUndef = False"
| "json_wf JNull = True"
| "json_wf (JBool b) = True"
| "json_wf (JNum n) = (case n of Num r \<Rightarrow> is_double r | _ \<Rightarrow> False)"
| "json_wf (JStr s) = True"
| "json_wf (JArr vs) = (\<forall>v \<in> set vs. json_wf v)"
| "json_wf (JObj ob) = (obj_canon ob \<and> (\<forall>kv \<in> set ob. json_wf (snd kv)))"

lemma json_props_wf: "\<forall>kv \<in> set ob. json_wf (snd kv) \<Longrightarrow> json_props ob = ob"
  by (auto simp: json_props_def intro!: filter_True)

fun toks :: "jsval \<Rightarrow> jtok list" where
  "toks JUndef = [TNull]"
| "toks JNull = [TNull]"
| "toks (JBool b) = [if b then TTrue else TFalse]"
| "toks (JNum n) = [TNum n]"
| "toks (JStr s) = [TStr s]"
| "toks (JArr vs) = [TLBrack] @ join [TComma] (map toks vs) @ [TRBrack]"
| "toks (JObj ob) =
     [TLBrace] @ join [TComma] (map (\<lambda>kv. [TStr (fst kv), TColon] @ toks (snd kv)) ob) @ [TRBrace]"

subsection \<open>Lexing printed values\<close>

lemma hex_digit_char: "d < 16 \<Longrightarrow> hex_digit (hex_char d) = Some d"
  by (auto simp: hex_digit_def hex_char_def radix_digit_def is_digit_def Let_def)

lemma hex4_unicode:
  assumes "c < 65536"
  shows "hex4 (hex_char (c div 4096 mod 16)) (hex_char (c div 256 mod 16))
     (hex_char (c div 16 mod 16)) (hex_char (c mod 16)) = Some c"
proof -
  have "((c div 4096 mod 16 * 16 + c div 256 mod 16) * 16 + c div 16 mod 16) * 16 + c mod 16 = c"
  proof -
    have d: "c div 4096 = c div 16 div 16 div 16" "c div 256 = c div 16 div 16"
      by (simp_all add: div_mult2_eq [symmetric])
    have "c div 16 div 16 div 16 < 16" using assms by (simp add: div_mult2_eq [symmetric] less_mult_imp_div_less)
    then show ?thesis unfolding d
      using div_mult_mod_eq [of c 16] div_mult_mod_eq [of "c div 16" 16] div_mult_mod_eq [of "c div 16 div 16" 16]
      by simp
  qed
  moreover have "hex_digit (hex_char (x mod 16)) = Some (x mod 16)" for x
    by (rule hex_digit_char) simp
  ultimately show ?thesis by (simp only: hex4_def option.case)
qed

lemma lex_str_unicode: "c < 65536 \<Longrightarrow> lex_str (unicode_escape c @ t) = map_option (apfst (Cons c)) (lex_str t)"
  using hex4_unicode [of c] by (simp add: unicode_escape_def simple_escape_def)

lemma lex_str_lone: "lex_str (lone_unit c @ t) = map_option (apfst (Cons c)) (lex_str t)"
proof (cases "is_high c \<or> is_low c \<or> (c < 32 \<and> c \<notin> {8, 9, 10, 12, 13})")
  case True
  then have "c < 65536" "lone_unit c = unicode_escape c"
    by (auto simp: lone_unit_def escape_unit_def is_high_def is_low_def)
  then show ?thesis by (simp add: lex_str_unicode)
next
  case False
  then show ?thesis by (auto simp: lone_unit_def escape_unit_def simple_escape_def)
qed

lemma lex_str_plain: "is_high c \<or> is_low c \<Longrightarrow> lex_str (c # t) = map_option (apfst (Cons c)) (lex_str t)"
  by (auto simp: is_high_def is_low_def)

lemma lex_str_quote: "lex_str (quote_units s @ 34 # r) = Some (s, r)"
proof (induction s rule: quote_units.induct)
  case (2 c)
  then show ?case using lex_str_lone [of c "34 # r"] by simp
next
  case (3 c d s)
  show ?case
  proof (cases "is_high c \<and> is_low d")
    case True
    with 3 show ?thesis by (simp add: lex_str_plain del: lex_str.simps)
  next
    case False
    then have "quote_units (c # d # s) = lone_unit c @ quote_units (d # s)" by auto
    with 3 False show ?thesis by (simp add: lex_str_lone del: lex_str.simps quote_units.simps)
  qed
qed simp

definition delim :: "jstring \<Rightarrow> bool" where
  "delim r \<longleftrightarrow> r = [] \<or> \<not> is_num_char (hd r)"

lemma delim_punct [simp]: "delim (44 # r)" "delim (93 # r)" "delim (125 # r)" "delim []" "delim (10 # r)"
  by (simp_all add: delim_def is_num_char_def is_digit_def)

lemma lex_Nil [simp]: "json_lex [] = Some []"
  by (simp add: json_lex.simps)

lemma lex_punct [simp]:
  "json_lex (123 # r) = map_option (Cons TLBrace) (json_lex r)"
  "json_lex (125 # r) = map_option (Cons TRBrace) (json_lex r)"
  "json_lex (91 # r) = map_option (Cons TLBrack) (json_lex r)"
  "json_lex (93 # r) = map_option (Cons TRBrack) (json_lex r)"
  "json_lex (58 # r) = map_option (Cons TColon) (json_lex r)"
  "json_lex (44 # r) = map_option (Cons TComma) (json_lex r)"
  "json_lex (10 # r) = json_lex r"
  "json_lex (32 # r) = json_lex r"
  by (simp_all add: json_lex.simps json_ws_def)

lemma lex_spaces [simp]: "json_lex (replicate n 32 @ r) = json_lex r"
  by (induction n) auto

lemma lex_indent [simp]: "json_lex (indent n @ r) = json_lex r"
  by (simp add: indent_def)

lemma lex_quote: "json_lex (quote s @ r) = map_option (Cons (TStr s)) (json_lex r)"
  using lex_str_quote [of s r] by (simp add: quote_def json_lex.simps json_ws_def)

lemma lex_keywords:
  "json_lex (js ''null'' @ r) = map_option (Cons TNull) (json_lex r)"
  "json_lex (js ''true'' @ r) = map_option (Cons TTrue) (json_lex r)"
  "json_lex (js ''false'' @ r) = map_option (Cons TFalse) (json_lex r)"
  by (simp_all add: js_def json_lex.simps json_ws_def is_digit_def numeral_eq_Suc)

lemma lex_num:
  assumes "is_double x" and "delim r"
  shows "json_lex (num_to_string (Num x) @ r) = map_option (Cons (TNum (Num x))) (json_lex r)"
proof -
  let ?s = "num_to_string (Num x)"
  have j: "json_number ?s = Some (Num x)" by (rule json_number_to_string [OF assms(1)])
  obtain c s where s: "?s = c # s" using json_number_not_Nil [OF j] by (cases ?s) auto
  have all: "\<forall>c \<in> set (c # s). is_num_char c" using num_to_string_chars [of _ x] unfolding s by blast
  have "is_digit c \<or> c = 45"
    using j unfolding s json_number_def by (auto dest!: json_unumber_str_udec split: if_splits)
  moreover have "takeWhile is_num_char (c # s @ r) = c # s"
    using all assms(2) by (auto simp: takeWhile_append takeWhile_eq_Nil_iff delim_def)
  moreover have "dropWhile is_num_char (s @ r) = r"
    using all assms(2) by (auto simp: dropWhile_append3 delim_def dropWhile_append2 dropWhile_eq_self_iff)
  moreover have "\<not> json_ws c" "c \<noteq> 123" "c \<noteq> 125" "c \<noteq> 91" "c \<noteq> 93" "c \<noteq> 58" "c \<noteq> 44" "c \<noteq> 34"
    using all by (auto simp: is_num_char_def is_digit_def json_ws_def)
  ultimately show ?thesis using j unfolding s by (simp add: json_lex.simps(2) del: takeWhile.simps)
qed

lemma lex_join:
  assumes el: "\<And>x r. x \<in> set xs \<Longrightarrow> delim r \<Longrightarrow> json_lex (f x @ r) = map_option ((@) (g x)) (json_lex r)"
    and sep: "\<And>t. json_lex (sep @ t) = map_option (Cons TComma) (json_lex t)" "\<And>t. delim (sep @ t)"
    and r: "delim r"
  shows "json_lex (join sep (map f xs) @ r) = map_option ((@) (join [TComma] (map g xs))) (json_lex r)"
  using el
proof (induction xs)
  case (Cons a as)
  show ?case
  proof (cases as)
    case Nil
    with Cons.prems [of a r] r show ?thesis by simp
  next
    case (Cons b bs)
    have "json_lex (join sep (map f as) @ r) = map_option ((@) (join [TComma] (map g as))) (json_lex r)"
      using Cons.IH Cons.prems by simp
    then show ?thesis
      using Cons.prems [of a "sep @ join sep (map f as) @ r"] sep
      by (simp add: Cons option.map_comp o_def)
  qed
qed (cases "json_lex r", simp_all)

lemma map_option_single: "map_option ((@) [a]) z = map_option (Cons a) z"
  by (cases z) auto

lemma map_option_entry: "map_option (\<lambda>x. a # b # t @ x) z = map_option ((@) (a # b # t)) z"
  by (cases z) auto

theorem lex_json_str:
  "json_wf v \<Longrightarrow> delim r \<Longrightarrow> json_lex (json_str v @ r) = map_option ((@) (toks v)) (json_lex r)"
proof (induction v arbitrary: r rule: toks.induct)
  case (3 b r)
  then show ?case by (cases b) (auto simp: lex_keywords)
next
  case (4 n r)
  then show ?case using lex_num by (cases n) (auto simp: num_finite_def simp del: num_to_string.simps)
next
  case (5 s r)
  then show ?case by (simp add: lex_quote)
next
  case (6 vs r)
  have "json_lex (join [44] (map json_str vs) @ 93 # r) =
      map_option ((@) (join [TComma] (map toks vs))) (json_lex (93 # r))"
    by (rule lex_join) (use 6 in auto)
  then show ?case by (simp add: option.map_comp o_def)
next
  case (7 ob r)
  let ?f = "\<lambda>kv. quote (fst kv) @ [58] @ json_str (snd kv)"
  let ?g = "\<lambda>kv. [TStr (fst kv), TColon] @ toks (snd kv)"
  have p: "json_props ob = ob" using 7 by (simp add: json_props_wf)
  have "json_lex (join [44] (map ?f ob) @ 125 # r) = map_option ((@) (join [TComma] (map ?g ob))) (json_lex (125 # r))"
    by (rule lex_join) (use 7 in \<open>auto simp: lex_quote option.map_comp o_def map_option_entry\<close>)
  then show ?case by (simp add: p option.map_comp o_def)
qed (auto simp: lex_keywords map_option_single)

theorem lex_json_ind:
  "json_wf v \<Longrightarrow> delim r \<Longrightarrow> json_lex (json_ind n v @ r) = map_option ((@) (toks v)) (json_lex r)"
proof (induction v arbitrary: n r rule: toks.induct)
  case (3 b n r)
  then show ?case by (cases b) (auto simp: lex_keywords)
next
  case (4 x n r)
  then show ?case using lex_num by (cases x) (auto simp: num_finite_def simp del: num_to_string.simps)
next
  case (5 s n r)
  then show ?case by (simp add: lex_quote)
next
  case (6 vs n r)
  show ?case
  proof (cases "vs = []")
    case True
    then show ?thesis by (simp add: js_def option.map_comp o_def)
  next
    case False
    have "json_lex (join (44 # indent (n + 2)) (map (json_ind (n + 2)) vs) @ indent n @ 93 # r) =
        map_option ((@) (join [TComma] (map toks vs))) (json_lex (indent n @ 93 # r))"
      by (rule lex_join) (use 6 in \<open>auto simp: indent_def\<close>)
    with False show ?thesis by (simp add: option.map_comp o_def)
  qed
next
  case (7 ob n r)
  let ?f = "\<lambda>kv. quote (fst kv) @ [58, 32] @ json_ind (n + 2) (snd kv)"
  let ?g = "\<lambda>kv. [TStr (fst kv), TColon] @ toks (snd kv)"
  have p: "json_props ob = ob" using 7 by (simp add: json_props_wf)
  show ?case
  proof (cases "ob = []")
    case True
    then show ?thesis by (simp add: js_def json_props_def option.map_comp o_def)
  next
    case False
    have "json_lex (join (44 # indent (n + 2)) (map ?f ob) @ indent n @ 125 # r) =
        map_option ((@) (join [TComma] (map ?g ob))) (json_lex (indent n @ 125 # r))"
      by (rule lex_join) (use 7 in \<open>auto simp: lex_quote option.map_comp o_def indent_def map_option_entry\<close>)
    with False show ?thesis by (simp add: p option.map_comp o_def)
  qed
qed (auto simp: lex_keywords map_option_single)

subsection \<open>Parsing the tokens of a value\<close>

lemma prun_append: "prun st (a @ b) = (case prun st a of None \<Rightarrow> None | Some st' \<Rightarrow> prun st' b)"
  by (induction a arbitrary: st) (auto split: option.splits)

lemma toks_hd: "\<exists>t ts. toks v = t # ts \<and> t \<noteq> TRBrack"
  by (cases v) auto

lemma prun_PArr: "prun (PArr fs) (toks v @ ts) = prun (PVal (FArr [] # fs)) (toks v @ ts)"
  using toks_hd [of v] by auto

lemma prun_array:
  assumes "\<And>v fs ts. v \<in> set vs \<Longrightarrow> prun (PVal fs) (toks v @ ts) = prun (PAfter v fs) ts"
    and "vs \<noteq> []"
  shows "prun (PVal (FArr us # fs)) (join [TComma] (map toks vs) @ TRBrack # ts) = prun (PAfter (JArr (us @ vs)) fs) ts"
  using assms
proof (induction vs arbitrary: us)
  case (Cons v vs)
  show ?case
  proof (cases vs)
    case Nil
    then show ?thesis using Cons.prems(1) [of v "FArr us # fs" "TRBrack # ts"] by simp
  next
    case (Cons w ws)
    have "prun (PVal (FArr (us @ [v]) # fs)) (join [TComma] (map toks vs) @ TRBrack # ts)
        = prun (PAfter (JArr ((us @ [v]) @ vs)) fs) ts"
      by (rule Cons.IH) (use Cons.prems Cons in auto)
    then show ?thesis
      using Cons.prems(1) [of v "FArr us # fs" "TComma # join [TComma] (map toks vs) @ TRBrack # ts"]
      by (simp add: Cons)
  qed
qed simp

lemma prun_object:
  assumes "\<And>kv fs ts. kv \<in> set ps \<Longrightarrow> prun (PVal fs) (toks (snd kv) @ ts) = prun (PAfter (snd kv) fs) ts"
    and "ps \<noteq> []"
  shows "prun (PKey ob fs) (join [TComma] (map (\<lambda>kv. [TStr (fst kv), TColon] @ toks (snd kv)) ps) @ TRBrace # ts)
    = prun (PAfter (JObj (obj_merge ob ps)) fs) ts"
  using assms
proof (induction ps arbitrary: ob)
  case (Cons kv ps)
  let ?g = "\<lambda>kv. [TStr (fst kv), TColon] @ toks (snd kv)"
  let ?ob = "obj_set (fst kv) (snd kv) ob"
  show ?case
  proof (cases ps)
    case Nil
    then show ?thesis
      using Cons.prems(1) [of kv "FObj ob (fst kv) # fs" "TRBrace # ts"]
      by (simp add: obj_merge_def case_prod_beta)
  next
    case (Cons w ws)
    have "prun (PKey ?ob fs) (join [TComma] (map ?g ps) @ TRBrace # ts)
        = prun (PAfter (JObj (obj_merge ?ob ps)) fs) ts"
      by (rule Cons.IH) (use Cons.prems Cons in auto)
    then show ?thesis
      using Cons.prems(1) [of kv "FObj ob (fst kv) # fs" "TComma # join [TComma] (map ?g ps) @ TRBrace # ts"]
      by (simp add: Cons obj_merge_def case_prod_beta)
  qed
qed simp

theorem prun_toks: "json_wf v \<Longrightarrow> prun (PVal fs) (toks v @ ts) = prun (PAfter v fs) ts"
proof (induction v arbitrary: fs ts rule: toks.induct)
  case (6 vs fs ts)
  show ?case
  proof (cases vs)
    case (Cons v ws)
    have "prun (PVal (FArr [] # fs)) (join [TComma] (map toks vs) @ TRBrack # ts) = prun (PAfter (JArr ([] @ vs)) fs) ts"
      by (rule prun_array) (use 6 Cons in auto)
    moreover obtain rest where "join [TComma] (map toks vs) = toks v @ rest" using Cons by (cases ws) auto
    ultimately show ?thesis using prun_PArr [of fs v "rest @ TRBrack # ts"] by simp
  qed simp
next
  case (7 ob fs ts)
  show ?case
  proof (cases ob)
    case (Cons kv ws)
    let ?g = "\<lambda>kv. [TStr (fst kv), TColon] @ toks (snd kv)"
    have "prun (PKey [] fs) (join [TComma] (map ?g ob) @ TRBrace # ts) = prun (PAfter (JObj (obj_merge [] ob)) fs) ts"
    proof (rule prun_object)
      fix p fs' ts' assume p: "p \<in> set ob"
      with 7 show "prun (PVal fs') (toks (snd p) @ ts') = prun (PAfter (snd p) fs') ts'" by (cases p) fastforce
    qed (use Cons in simp)
    moreover have "obj_merge [] ob = ob" using obj_merge_canon [of "[]" ob] 7 by simp
    moreover obtain rest where "join [TComma] (map ?g ob) = TStr (fst kv) # rest" using Cons by (cases ws) auto
    ultimately show ?thesis by simp
  qed simp
qed auto

text \<open>The round trip, for both printed forms.\<close>

theorem json_parse_str: "json_wf v \<Longrightarrow> json_parse (json_str v) = Some v"
  using lex_json_str [of v "[]"] prun_toks [of v "[]" "[]"] by (simp add: json_parse_def)

theorem json_parse_ind: "json_wf v \<Longrightarrow> json_parse (json_ind n v) = Some v"
  using lex_json_ind [of v "[]" n] prun_toks [of v "[]" "[]"] by (simp add: json_parse_def)

subsection \<open>The values that parsing produces\<close>

text \<open>
  A literal such as \<open>1e999\<close> reads as an infinity, so \<open>JSON.parse\<close> gives slightly more than what
  \<open>JSON.stringify\<close> can express: printing turns a number that is not finite into null.
\<close>

fun json_readable :: "jsval \<Rightarrow> bool" where
  "json_readable JUndef = False"
| "json_readable JNull = True"
| "json_readable (JBool b) = True"
| "json_readable (JNum n) = num_wf n"
| "json_readable (JStr s) = True"
| "json_readable (JArr vs) = (\<forall>v \<in> set vs. json_readable v)"
| "json_readable (JObj ob) = (obj_canon ob \<and> (\<forall>kv \<in> set ob. json_readable (snd kv)))"

fun json_nf :: "jsval \<Rightarrow> jsval" where
  "json_nf (JNum n) = (if num_finite n then JNum n else JNull)"
| "json_nf (JArr vs) = JArr (map json_nf vs)"
| "json_nf (JObj ob) = JObj (map (\<lambda>kv. (fst kv, json_nf (snd kv))) ob)"
| "json_nf v = v"

lemma json_wf_readable: "json_wf v \<Longrightarrow> json_readable v"
  by (induction v rule: json_wf.induct) (auto split: jsnum.splits)

lemma json_wf_nf: "json_readable v \<Longrightarrow> json_wf (json_nf v)"
  by (induction v rule: json_nf.induct)
     (auto simp: num_finite_def obj_canon_def comp_def split: jsnum.splits)

lemma json_nf_wf: "json_wf v \<Longrightarrow> json_nf v = v"
  by (induction v rule: json_wf.induct)
     (auto simp: num_finite_def split: jsnum.splits intro!: map_idI)

lemma json_nf_undef [simp]: "json_nf v = JUndef \<longleftrightarrow> v = JUndef"
  by (cases v) auto

lemma json_props_nf:
  "json_props (map (\<lambda>kv. (fst kv, json_nf (snd kv))) ob) = map (\<lambda>kv. (fst kv, json_nf (snd kv))) (json_props ob)"
  by (simp add: json_props_def filter_map comp_def)

lemma json_str_nf: "json_str (json_nf v) = json_str v"
proof (induction v rule: json_str.induct)
  case (7 ob)
  then have "map ((\<lambda>kv. quote (fst kv) @ [58] @ json_str (snd kv)) \<circ> (\<lambda>kv. (fst kv, json_nf (snd kv)))) (json_props ob)
      = map (\<lambda>kv. quote (fst kv) @ [58] @ json_str (snd kv)) (json_props ob)" by auto
  then show ?case by (simp add: json_props_nf cong: map_cong)
qed (auto cong: map_cong)

lemma json_ind_nf: "json_ind n (json_nf v) = json_ind n v"
proof (induction n v rule: json_ind.induct)
  case (6 n vs)
  then have "map (json_ind (n + 2) \<circ> json_nf) vs = map (json_ind (n + 2)) vs" by (cases "vs = []") auto
  then show ?case by (simp cong: map_cong)
next
  case (7 n ob)
  then have "map ((\<lambda>kv. quote (fst kv) @ [58, 32] @ json_ind (n + 2) (snd kv)) \<circ> (\<lambda>kv. (fst kv, json_nf (snd kv)))) (json_props ob)
      = map (\<lambda>kv. quote (fst kv) @ [58, 32] @ json_ind (n + 2) (snd kv)) (json_props ob)"
    by (cases "json_props ob = []") auto
  then show ?case by (simp add: json_props_nf Let_def cong: map_cong)
qed auto

text \<open>The parser builds readable values only.\<close>

fun frame_ok :: "jframe \<Rightarrow> bool" where
  "frame_ok (FArr vs) = (\<forall>v \<in> set vs. json_readable v)"
| "frame_ok (FObj ob k) = json_readable (JObj ob)"

fun pstate_ok :: "pstate \<Rightarrow> bool" where
  "pstate_ok (PVal fs) = list_all frame_ok fs"
| "pstate_ok (PArr fs) = list_all frame_ok fs"
| "pstate_ok (PObj fs) = list_all frame_ok fs"
| "pstate_ok (PKey ob fs) = (json_readable (JObj ob) \<and> list_all frame_ok fs)"
| "pstate_ok (PColon ob k fs) = (json_readable (JObj ob) \<and> list_all frame_ok fs)"
| "pstate_ok (PAfter v fs) = (json_readable v \<and> list_all frame_ok fs)"

definition tok_ok :: "jtok \<Rightarrow> bool" where
  "tok_ok t = (case t of TNum n \<Rightarrow> num_wf n | _ \<Rightarrow> True)"

lemma set_obj_replace: "kv \<in> set (obj_replace k v ob) \<Longrightarrow> kv = (k, v) \<or> kv \<in> set ob"
  by (induction ob) (auto split: if_splits)

lemma set_obj_insert: "kv \<in> set (obj_insert k v ob) \<Longrightarrow> kv = (k, v) \<or> kv \<in> set ob"
  by (induction ob) (auto split: option.splits if_splits)

lemma set_obj_set: "kv \<in> set (obj_set k v ob) \<Longrightarrow> kv = (k, v) \<or> kv \<in> set ob"
  unfolding obj_set_def using set_obj_replace [of kv k v ob] set_obj_insert [of kv k v ob]
  by (auto split: if_splits)

lemma json_readable_set:
  assumes "json_readable (JObj ob)" and "json_readable v"
  shows "json_readable (JObj (obj_set k v ob))"
  using assms by (auto simp: obj_canon_set dest!: set_obj_set)

lemma json_wf_set:
  assumes "json_wf (JObj ob)" and "json_wf v"
  shows "json_wf (JObj (obj_set k v ob))"
  using assms by (auto simp: obj_canon_set dest!: set_obj_set)

lemma start_value_ok: "start_value fs t = Some st \<Longrightarrow> list_all frame_ok fs \<Longrightarrow> tok_ok t \<Longrightarrow> pstate_ok st"
  by (cases "(fs, t)" rule: start_value.cases) (auto simp: tok_ok_def)

lemma after_value_ok:
  "after_value v fs t = Some st \<Longrightarrow> list_all frame_ok fs \<Longrightarrow> json_readable v \<Longrightarrow> pstate_ok st"
  by (cases "(v, fs, t)" rule: after_value.cases) (auto simp del: json_readable.simps(7) simp: json_readable_set)

lemma pstep_ok: "pstep st t = Some st' \<Longrightarrow> pstate_ok st \<Longrightarrow> tok_ok t \<Longrightarrow> pstate_ok st'"
  by (cases st) (auto split: if_splits jtok.splits intro: after_value_ok start_value_ok)

lemma prun_ok: "prun st ts = Some st' \<Longrightarrow> pstate_ok st \<Longrightarrow> list_all tok_ok ts \<Longrightarrow> pstate_ok st'"
  by (induction ts arbitrary: st) (auto split: option.splits intro: pstep_ok)

lemma num_wf_neg: "num_wf n \<Longrightarrow> num_wf (num_neg n)"
  by (cases n) (auto simp: is_double_uminus)

lemma json_number_wf: "json_number s = Some n \<Longrightarrow> num_wf n"
  by (auto simp: json_number_def json_unumber_def num_wf_neg split: list.splits option.splits if_splits)

lemma if_SomeE:
  assumes "(if b then x else y) = Some ts" and "b \<Longrightarrow> x = Some ts \<Longrightarrow> Q" and "\<not> b \<Longrightarrow> y = Some ts \<Longrightarrow> Q"
  shows Q
  using assms by (cases b) simp_all

definition lex_next :: "jstring \<Rightarrow> jtok list \<Rightarrow> bool" where
  "lex_next r ts \<longleftrightarrow> (\<exists>r' ts'. length r' \<le> length r \<and> json_lex r' = Some ts' \<and> (ts = ts' \<or> (\<exists>t. tok_ok t \<and> ts = t # ts')))"

lemma lex_next_Cons:
  "map_option (Cons t) (json_lex r') = Some ts \<Longrightarrow> tok_ok t \<Longrightarrow> length r' \<le> length r \<Longrightarrow> lex_next r ts"
  by (auto simp: lex_next_def)

lemma tok_ok_simps [simp]:
  "tok_ok TLBrace" "tok_ok TRBrace" "tok_ok TLBrack" "tok_ok TRBrack" "tok_ok TColon" "tok_ok TComma"
  "tok_ok TTrue" "tok_ok TFalse" "tok_ok TNull" "tok_ok (TStr s)" "tok_ok (TNum n) = num_wf n"
  by (simp_all add: tok_ok_def)

lemma lex_next_str:
  "(case lex_str r of None \<Rightarrow> None | Some (s, r') \<Rightarrow> map_option (Cons (TStr s)) (json_lex r')) = Some ts \<Longrightarrow> lex_next r ts"
  by (auto split: option.splits intro!: lex_next_Cons dest: lex_str_length)

lemma lex_next_num:
  "(case json_number x of None \<Rightarrow> None | Some n \<Rightarrow> map_option (Cons (TNum n)) (json_lex (dropWhile is_num_char r))) = Some ts
   \<Longrightarrow> lex_next r ts"
  by (auto split: option.splits intro!: lex_next_Cons simp: json_number_wf length_dropWhile_le)

lemma json_lex_step: "json_lex (c # r) = Some ts \<Longrightarrow> lex_next r ts"
  unfolding json_lex.simps(2)
  by (elim if_SomeE; (rule lex_next_str lex_next_num, assumption | erule lex_next_Cons, simp, simp | force simp: lex_next_def))

lemma json_lex_ok: "json_lex s = Some ts \<Longrightarrow> list_all tok_ok ts"
proof (induction "length s" arbitrary: s ts rule: less_induct)
  case less
  show ?case
  proof (cases s)
    case (Cons c r)
    then show ?thesis using json_lex_step [of c r ts] less by (auto simp: lex_next_def less_Suc_eq_le)
  qed (use less.prems in simp)
qed

theorem json_parse_readable: "json_parse s = Some v \<Longrightarrow> json_readable v"
  by (auto simp: json_parse_def split: option.splits pstate.splits list.splits
      dest!: prun_ok json_lex_ok)

text \<open>Both printers are codecs for the values JSON can express.\<close>

interpretation compact: reformatting_codec json_str json_parse json_wf json_nf json_readable
  by unfold_locales (simp_all add: json_parse_str json_parse_readable json_wf_nf json_str_nf)

interpretation pretty: reformatting_codec "json_ind 0" json_parse json_wf json_nf json_readable
  by unfold_locales (simp_all add: json_parse_ind json_parse_readable json_wf_nf json_ind_nf)

end
