(* ===== verification/StatusCodeRiskGuard.thy ===== *)
theory StatusCodeRiskGuard
  imports JsJson "HOL-Library.List_Lexorder"
begin

text \<open>
  \<open>web/src/components/table/channels/modals/statusCodeRiskGuard.js\<close>: before a channel is saved,
  the status code mapping typed by the administrator (a JSON object from status code to status
  code) is checked for entries that are not status codes, and for entries that redirect a
  timeout code (504, 524) to another code, which the editor asks to confirm when they are new.
\<close>

definition NON_REDIRECTABLE_STATUS_CODES :: "jsnum list" where
  "NON_REDIRECTABLE_STATUS_CODES = [Num 504, Num 524]"

text \<open>The regular expression \<^verbatim>\<open>/^[1-5]\d{2}$/\<close>.\<close>

definition is_status_text :: "jstring \<Rightarrow> bool" where
  "is_status_text s \<longleftrightarrow> (case s of
       [a, b, c] \<Rightarrow> 49 \<le> a \<and> a \<le> 53 \<and> is_digit b \<and> is_digit c
     | _ \<Rightarrow> False)"

definition parseStatusCodeKey :: "jsval \<Rightarrow> jsnum option" where
  "parseStatusCodeKey rawKey = (case rawKey of
       JStr s \<Rightarrow>
         (let normalized = trim s in
          if \<not> is_status_text normalized then None else Some (parse_int10 normalized))
     | _ \<Rightarrow> None)"

definition in_code_range :: "jsnum \<Rightarrow> bool" where
  "in_code_range n \<longleftrightarrow> num_le (Num 100) n \<and> num_le n (Num 599)"

definition parseStatusCodeMappingTarget :: "jsval \<Rightarrow> jsnum option" where
  "parseStatusCodeMappingTarget rawValue = (case rawValue of
       JNum n \<Rightarrow> if num_is_integer n then (if in_code_range n then Some n else None) else None
     | JStr s \<Rightarrow>
         (let normalized = trim s in
          if \<not> is_status_text normalized then None
          else (let code = parse_int10 normalized in if in_code_range code then Some code else None))
     | _ \<Rightarrow> None)"

text \<open>The shared guards: a non-blank string that parses to a plain object; its entries.\<close>

definition mapping_entries :: "jsval \<Rightarrow> jsobj" where
  "mapping_entries input = (case input of
       JStr s \<Rightarrow>
         if trim s = [] then []
         else (case json_parse s of
                 None \<Rightarrow> []
               | Some parsed \<Rightarrow> (case as_plain_object parsed of None \<Rightarrow> [] | Some ob \<Rightarrow> ob))
     | _ \<Rightarrow> [])"

definition ARROW :: jstring where
  "ARROW = [32, 0x2192, 32]"

fun invalid_entries :: "jsobj \<Rightarrow> jstring list res" where
  "invalid_entries [] = Inr []"
| "invalid_entries ((rawKey, rawValue) # rest) =
     (if parseStatusCodeKey (JStr rawKey) = None \<or> parseStatusCodeMappingTarget rawValue = None
      then rbind (js_String rawValue) (\<lambda>s. rbind (invalid_entries rest) (\<lambda>r. Inr ((rawKey @ ARROW @ s) # r)))
      else invalid_entries rest)"

definition collectInvalidStatusCodeEntries :: "jsval \<Rightarrow> jstring list res" where
  "collectInvalidStatusCodeEntries statusCodeMappingStr = invalid_entries (mapping_entries statusCodeMappingStr)"

definition redirect_text :: "jsnum \<Rightarrow> jsnum \<Rightarrow> jstring" where
  "redirect_text f t = num_to_string f @ js '' -> '' @ num_to_string t"

fun risky_entries :: "jsobj \<Rightarrow> jstring list" where
  "risky_entries [] = []"
| "risky_entries ((rawFrom, rawTo) # rest) =
     (case parseStatusCodeKey (JStr rawFrom) of
        None \<Rightarrow> risky_entries rest
      | Some fromCode \<Rightarrow>
          (case parseStatusCodeMappingTarget rawTo of
             None \<Rightarrow> risky_entries rest
           | Some toCode \<Rightarrow>
               if fromCode \<notin> set NON_REDIRECTABLE_STATUS_CODES then risky_entries rest
               else if num_eq fromCode toCode then risky_entries rest
               else redirect_text fromCode toCode # risky_entries rest))"

definition collectDisallowedStatusCodeRedirects :: "jsval \<Rightarrow> jstring list" where
  "collectDisallowedStatusCodeRedirects statusCodeMappingStr =
     sort (js_set (risky_entries (mapping_entries statusCodeMappingStr)))"

definition collectNewDisallowedStatusCodeRedirects :: "jsval \<Rightarrow> jsval \<Rightarrow> jstring list" where
  "collectNewDisallowedStatusCodeRedirects original current =
     (let currentRisky = collectDisallowedStatusCodeRedirects current in
      if currentRisky = [] then []
      else (let originalRiskySet = js_set (collectDisallowedStatusCodeRedirects original) in
            filter (\<lambda>mapping. mapping \<notin> set originalRiskySet) currentRisky))"

subsection \<open>What the codes are\<close>

lemma status_text_code:
  assumes "is_status_text s"
  shows "\<exists>n. 100 \<le> n \<and> n \<le> 599 \<and> parse_int10 s = Num (of_nat n) \<and> dec n = s"
proof -
  from assms obtain a b c where s: "s = [a, b, c]" and d: "49 \<le> a" "a \<le> 53" "is_digit b" "is_digit c"
    by (auto simp: is_status_text_def split: list.splits)
  let ?n = "digits_val s"
  have n: "?n = 100 * (a - 48) + 10 * (b - 48) + (c - 48)" by (simp add: s digits_val_def)
  have b: "100 \<le> ?n" "?n \<le> 599" using d by (auto simp: n is_digit_def)
  have digs: "list_all is_digit s" using d by (simp add: s is_digit_def)
  have tw: "takeWhile is_digit s = s" "trim_start s = s"
    using d by (simp_all add: s is_digit_def trim_start_def is_ws_def)
  have "dec ?n = s" by (rule dec_digits_val [OF digs]) (use d in \<open>auto simp: s\<close>)
  moreover have "parse_int10 s = rnd (of_nat ?n)"
    using d tw by (simp add: parse_int10_def Let_def with_sign_def s)
  moreover have "rnd (of_nat ?n) = Num (of_nat ?n)" using b by (intro rnd_of_nat) simp
  ultimately show ?thesis using b by auto
qed

definition is_code :: "jsnum \<Rightarrow> bool" where
  "is_code x \<longleftrightarrow> (\<exists>n. 100 \<le> n \<and> n \<le> 599 \<and> x = Num (of_nat n))"

lemma parseStatusCodeKey_code: "parseStatusCodeKey v = Some n \<Longrightarrow> is_code n"
  by (auto simp: parseStatusCodeKey_def is_code_def Let_def dest!: status_text_code split: jsval.splits if_splits)

lemma in_code_range_integer: "num_is_integer n \<Longrightarrow> in_code_range n \<Longrightarrow> is_code n"
proof (cases n)
  case (Num r)
  assume "num_is_integer n" "in_code_range n"
  with Num have r: "r = of_int \<lfloor>r\<rfloor>" "100 \<le> r" "r \<le> 599" by (auto simp: num_is_integer_def in_code_range_def)
  define z where "z = \<lfloor>r\<rfloor>"
  have z: "100 \<le> z" "z \<le> 599" "r = of_int z" using r by (auto simp: z_def le_floor_iff floor_le_iff)
  then have "100 \<le> nat z \<and> nat z \<le> 599 \<and> n = Num (of_nat (nat z))" using Num by (simp add: nat_le_iff le_nat_iff)
  then show ?thesis unfolding is_code_def by blast
qed (auto simp: num_is_integer_def)

lemma parseStatusCodeMappingTarget_code: "parseStatusCodeMappingTarget v = Some n \<Longrightarrow> is_code n"
proof (cases v)
  case (JNum x)
  assume "parseStatusCodeMappingTarget v = Some n"
  with JNum show ?thesis
    by (auto simp: parseStatusCodeMappingTarget_def in_code_range_integer split: if_splits)
next
  case (JStr s)
  assume "parseStatusCodeMappingTarget v = Some n"
  with JStr have "is_status_text (trim s)" "n = parse_int10 (trim s)"
    by (auto simp: parseStatusCodeMappingTarget_def Let_def split: if_splits)
  then show ?thesis using status_text_code [of "trim s"] by (auto simp: is_code_def)
qed (auto simp: parseStatusCodeMappingTarget_def)

lemma is_code_text: "is_code x \<Longrightarrow> \<exists>n. 100 \<le> n \<and> n \<le> 599 \<and> x = Num (of_nat n) \<and> num_to_string x = dec n"
proof -
  assume "is_code x"
  then obtain n where n: "100 \<le> n" "n \<le> 599" "x = Num (of_nat n)" by (auto simp: is_code_def)
  have "n < 10 ^ 15" using n(2) by simp
  from num_to_string_of_nat [OF this] n show ?thesis by blast
qed

lemma redirect_text_inj:
  assumes "is_code f" "is_code t" "is_code f'" "is_code t'" and eq: "redirect_text f t = redirect_text f' t'"
  shows "f = f' \<and> t = t'"
proof -
  obtain a where a: "f = Num (of_nat a)" "num_to_string f = dec a" using is_code_text [OF assms(1)] by blast
  obtain b where b: "t = Num (of_nat b)" "num_to_string t = dec b" using is_code_text [OF assms(2)] by blast
  obtain c where c: "f' = Num (of_nat c)" "num_to_string f' = dec c" using is_code_text [OF assms(3)] by blast
  obtain d where d: "t' = Num (of_nat d)" "num_to_string t' = dec d" using is_code_text [OF assms(4)] by blast
  have e: "dec a @ 32 # 45 # 62 # 32 # dec b = dec c @ 32 # 45 # 62 # 32 # dec d"
    using eq unfolding redirect_text_def a(2) b(2) c(2) d(2) by (simp add: js_def)
  have sp: "32 \<notin> set (dec n)" for n by (auto dest: dec_digits simp: is_digit_def)
  from arg_cong [OF e, of "split_on 32"] sp have "dec a = dec c" by (simp add: split_on_append)
  with e show ?thesis by (simp add: a b c d)
qed

definition risky_of :: "jstring \<times> jsval \<Rightarrow> jstring option" where
  "risky_of kv = (case (parseStatusCodeKey (JStr (fst kv)), parseStatusCodeMappingTarget (snd kv)) of
       (Some f, Some t) \<Rightarrow>
         if f \<in> set NON_REDIRECTABLE_STATUS_CODES \<and> \<not> num_eq f t then Some (redirect_text f t) else None
     | _ \<Rightarrow> None)"

lemma risky_entries_map_filter: "risky_entries ob = List.map_filter risky_of ob"
proof (induction ob)
  case (Cons kv ob)
  obtain k v where kv: "kv = (k, v)" by fastforce
  show ?case
    by (cases "parseStatusCodeKey (JStr k)"; cases "parseStatusCodeMappingTarget v")
       (simp_all add: kv Cons risky_of_def map_filter_simps)
qed (simp add: map_filter_simps)

lemma risky_of_Some_iff:
  "risky_of (k, v) = Some m \<longleftrightarrow>
    (\<exists>f t. parseStatusCodeKey (JStr k) = Some f \<and> parseStatusCodeMappingTarget v = Some t \<and>
       f \<in> {Num 504, Num 524} \<and> f \<noteq> t \<and> m = redirect_text f t)"
proof (cases "parseStatusCodeKey (JStr k)")
  case None
  then show ?thesis by (simp add: risky_of_def)
next
  case (Some f)
  note f = this
  have ne: "f \<in> {Num 504, Num 524} \<Longrightarrow> num_eq f t \<longleftrightarrow> f = t" for t by (auto simp: num_eq_def)
  have st: "set NON_REDIRECTABLE_STATUS_CODES = {Num 504, Num 524}"
    by (simp add: NON_REDIRECTABLE_STATUS_CODES_def)
  show ?thesis
  proof (cases "parseStatusCodeMappingTarget v")
    case None
    then show ?thesis using f by (simp add: risky_of_def)
  next
    case (Some t)
    show ?thesis
      unfolding risky_of_def fst_conv snd_conv f Some st prod.case option.case option.inject
      using ne by (cases "f \<in> {Num 504, Num 524}") auto
  qed
qed

lemma in_risky_iff: "m \<in> set (risky_entries ob) \<longleftrightarrow> (\<exists>(k, v) \<in> set ob. risky_of (k, v) = Some m)"
  by (force simp: risky_entries_map_filter List.map_filter_def)

lemma set_collect: "set (collectDisallowedStatusCodeRedirects input) = set (risky_entries (mapping_entries input))"
  by (simp add: collectDisallowedStatusCodeRedirects_def)

lemma sorted_collect: "sorted (collectDisallowedStatusCodeRedirects input)"
    "distinct (collectDisallowedStatusCodeRedirects input)"
  by (simp_all add: collectDisallowedStatusCodeRedirects_def)

lemma mapping_entries_json_str:
  assumes "json_wf (JObj ob)"
  shows "mapping_entries (JStr (json_str (JObj ob))) = ob"
proof -
  have "trim (json_str (JObj ob)) \<noteq> []" by (simp add: trim_eq_Nil_iff is_ws_def)
  then show ?thesis using json_parse_str [OF assms] by (simp add: mapping_entries_def del: json_str.simps)
qed

subsection \<open>Properties\<close>

text \<open>
  C26. The risk list is exact: the redirect from code \<open>f\<close> to code \<open>t\<close> is reported exactly when
  \<open>f\<close> is one of the timeout codes, \<open>t\<close> differs from it, and the mapping has an entry whose key and
  value read as \<open>f\<close> and \<open>t\<close>. The list is in ascending order without repetitions.
\<close>

theorem disallowed_redirects_exact:
  assumes "is_code f" and "is_code t"
  shows "(redirect_text f t \<in> set (collectDisallowedStatusCodeRedirects input) \<longleftrightarrow>
      f \<in> {Num 504, Num 524} \<and> f \<noteq> t \<and>
      (\<exists>k v. (k, v) \<in> set (mapping_entries input) \<and>
         parseStatusCodeKey (JStr k) = Some f \<and> parseStatusCodeMappingTarget v = Some t))
    \<and> sorted (collectDisallowedStatusCodeRedirects input)
    \<and> distinct (collectDisallowedStatusCodeRedirects input)"
proof -
  have "risky_of (k, v) = Some (redirect_text f t) \<longleftrightarrow>
      f \<in> {Num 504, Num 524} \<and> f \<noteq> t \<and>
      parseStatusCodeKey (JStr k) = Some f \<and> parseStatusCodeMappingTarget v = Some t" for k v
    unfolding risky_of_Some_iff
    using redirect_text_inj assms parseStatusCodeKey_code parseStatusCodeMappingTarget_code by metis
  then have "redirect_text f t \<in> set (collectDisallowedStatusCodeRedirects input) \<longleftrightarrow>
      f \<in> {Num 504, Num 524} \<and> f \<noteq> t \<and>
      (\<exists>k v. (k, v) \<in> set (mapping_entries input) \<and>
         parseStatusCodeKey (JStr k) = Some f \<and> parseStatusCodeMappingTarget v = Some t)"
    by (auto simp: set_collect in_risky_iff)
  then show ?thesis by (simp add: sorted_collect)
qed

lemma sample_mapping:
  "mapping_entries (JStr (json_str (JObj [(js ''504'', JNum (Num 200))]))) = [(js ''504'', JNum (Num 200))]"
  using is_double_of_nat [of 200] by (intro mapping_entries_json_str) (simp add: obj_canon_def)

lemma sample_codes:
  "parseStatusCodeKey (JStr (js ''504'')) = Some (Num 504)"
  "parseStatusCodeMappingTarget (JNum (Num 200)) = Some (Num 200)"
proof -
  have st: "is_status_text (js ''504'')" by (simp add: is_status_text_def js_def is_digit_def)
  then obtain n where n: "parse_int10 (js ''504'') = Num (of_nat n)" "dec n = js ''504''"
    using status_text_code by blast
  have "digits_val (js ''504'') = 504" by (simp add: js_def digits_val_def)
  then have "n = 504" using n(2) digits_val_dec [of n] by simp
  moreover have "trim (js ''504'') = js ''504''" by (rule trim_no_ws) (simp add: js_def is_ws_def)
  ultimately show "parseStatusCodeKey (JStr (js ''504'')) = Some (Num 504)"
    using st n by (simp add: parseStatusCodeKey_def Let_def)
  show "parseStatusCodeMappingTarget (JNum (Num 200)) = Some (Num 200)"
    by (simp add: parseStatusCodeMappingTarget_def num_is_integer_def in_code_range_def)
qed

lemma is_code_numeral: "100 \<le> n \<Longrightarrow> n \<le> 599 \<Longrightarrow> is_code (Num (of_nat n))"
  by (auto simp: is_code_def)

theorem disallowed_redirects_exact_witness:
  "redirect_text (Num 504) (Num 200) \<in>
     set (collectDisallowedStatusCodeRedirects (JStr (json_str (JObj [(js ''504'', JNum (Num 200))]))))"
proof -
  have c: "is_code (Num 504)" "is_code (Num 200)"
    using is_code_numeral [of 504] is_code_numeral [of 200] by simp_all
  show ?thesis
    using disallowed_redirects_exact [OF c, of "JStr (json_str (JObj [(js ''504'', JNum (Num 200))]))"]
      sample_codes by (simp add: sample_mapping del: json_str.simps)
qed

text \<open>
  The confirmation dialog is asked for exactly the redirects that the edit adds: the new risky
  redirects are those of the current mapping that the original one did not have, still sorted;
  an unchanged mapping has none.
\<close>

theorem new_disallowed_redirects:
  "set (collectNewDisallowedStatusCodeRedirects original current) =
     set (collectDisallowedStatusCodeRedirects current) - set (collectDisallowedStatusCodeRedirects original)
   \<and> sorted (collectNewDisallowedStatusCodeRedirects original current)
   \<and> distinct (collectNewDisallowedStatusCodeRedirects original current)
   \<and> collectNewDisallowedStatusCodeRedirects current current = []"
  by (auto simp: collectNewDisallowedStatusCodeRedirects_def Let_def sorted_collect sorted_wrt_filter)

text \<open>
  The invalid-entry check accepts a mapping exactly when every entry maps a status code in
  100..599 to a status code in 100..599; so no accepted entry can escape the risk check unread.
\<close>

theorem invalid_entries_none_iff:
  "collectInvalidStatusCodeEntries input = Inr [] \<longleftrightarrow>
    list_all (\<lambda>kv. \<exists>f t. is_code f \<and> is_code t \<and>
       parseStatusCodeKey (JStr (fst kv)) = Some f \<and> parseStatusCodeMappingTarget (snd kv) = Some t)
      (mapping_entries input)"
proof -
  have "invalid_entries ob = Inr [] \<longleftrightarrow>
     (\<forall>kv \<in> set ob. parseStatusCodeKey (JStr (fst kv)) \<noteq> None \<and> parseStatusCodeMappingTarget (snd kv) \<noteq> None)" for ob
    by (induction ob rule: invalid_entries.induct) (auto simp: rbind_Inr_iff)
  then show ?thesis
    unfolding collectInvalidStatusCodeEntries_def
    using parseStatusCodeKey_code parseStatusCodeMappingTarget_code by (simp add: not_None_eq list_all_iff) metis
qed

end
