(* ===== verification/LocalIds.thy ===== *)
theory LocalIds
  imports JsValue
begin

text \<open>
  The module-level counter \<open>localIdSeed\<close> of \<open>ParamOverrideEditorModal.jsx\<close> and the computations that
  draw ids from it. Such a computation takes the counter and returns its result, or what it throws,
  together with the counter it leaves behind (a throw does not take the drawn ids back). The time
  stamp in an id is the clock's reading at the call; the calls are numbered by the counter, so the
  clock is a function of it. Ids never repeat, whatever the clock does.
\<close>

type_synonym clock = "nat \<Rightarrow> nat"

type_synonym 'a idm = "nat \<Rightarrow> 'a res \<times> nat"

definition ireturn :: "'a \<Rightarrow> 'a idm" where
  "ireturn a = (\<lambda>seed. (Inr a, seed))"

definition ilift :: "'a res \<Rightarrow> 'a idm" where
  "ilift r = (\<lambda>seed. (r, seed))"

definition ibind :: "'a idm \<Rightarrow> ('a \<Rightarrow> 'b idm) \<Rightarrow> 'b idm" where
  "ibind m f = (\<lambda>seed. case m seed of (Inl e, seed') \<Rightarrow> (Inl e, seed') | (Inr a, seed') \<Rightarrow> f a seed')"

text \<open>\<open>xs.map(f)\<close>, in order.\<close>

fun imap :: "('a \<Rightarrow> 'b idm) \<Rightarrow> 'a list \<Rightarrow> 'b list idm" where
  "imap f [] = ireturn []"
| "imap f (x # xs) = ibind (f x) (\<lambda>y. ibind (imap f xs) (\<lambda>ys. ireturn (y # ys)))"

definition local_id :: "clock \<Rightarrow> nat \<Rightarrow> jstring" where
  "local_id clk n = js ''param_override_'' @ dec (clk n) @ [95] @ dec n"

definition nextLocalId :: "clock \<Rightarrow> jstring idm" where
  "nextLocalId clk = (\<lambda>seed. (Inr (local_id clk seed), seed + 1))"

lemma ireturn_apply [simp]: "ireturn a s = (Inr a, s)"
  by (simp add: ireturn_def)

lemma ilift_apply [simp]: "ilift r s = (r, s)"
  by (simp add: ilift_def)

lemma ibind_Inr_iff:
  "ibind m f s = (Inr b, s') \<longleftrightarrow> (\<exists>a s1. m s = (Inr a, s1) \<and> f a s1 = (Inr b, s'))"
  by (auto simp: ibind_def split: prod.splits sum.splits)

lemma ibind_cong [fundef_cong]:
  "m = m' \<Longrightarrow> (\<And>s a s1. m' s = (Inr a, s1) \<Longrightarrow> f a s1 = g a s1) \<Longrightarrow> ibind m f = ibind m' g"
  by (auto simp: ibind_def fun_eq_iff split: prod.splits sum.splits)

lemma ibind_lift_Inr [simp]: "ibind (ilift (Inr a)) f = f a"
  by (simp add: ibind_def fun_eq_iff)

lemma ibind_return [simp]: "ibind (ireturn a) f = f a"
  by (simp add: ibind_def fun_eq_iff)

lemma nextLocalId_apply [simp]: "nextLocalId clk s = (Inr (local_id clk s), Suc s)"
  by (simp add: nextLocalId_def)

lemma ibind_nextLocalId [simp]: "ibind (nextLocalId clk) f s = f (local_id clk s) (Suc s)"
  by (simp add: ibind_def)

lemma ibind_lift_apply: "ibind (ilift r) f s = (case r of Inl e \<Rightarrow> (Inl e, s) | Inr a \<Rightarrow> f a s)"
  by (simp add: ibind_def split: sum.splits)

text \<open>A computation only ever moves the counter forward.\<close>

definition forward :: "'a idm \<Rightarrow> bool" where
  "forward m \<longleftrightarrow> (\<forall>s. s \<le> snd (m s))"

lemma forward_apply: "forward m \<Longrightarrow> m s = (r, s') \<Longrightarrow> s \<le> s'"
  by (metis forward_def snd_conv)

lemma forward_simps [simp, intro]:
  "forward (ireturn a)" "forward (ilift r)" "forward (nextLocalId clk)"
  by (simp_all add: forward_def)

lemma forward_bind [intro]: "forward m \<Longrightarrow> (\<And>a. forward (f a)) \<Longrightarrow> forward (ibind m f)"
  unfolding forward_def ibind_def
  by (auto split: prod.splits sum.splits) (metis le_trans snd_conv)+

lemma forward_imap [intro]: "(\<And>x. x \<in> set xs \<Longrightarrow> forward (f x)) \<Longrightarrow> forward (imap f xs)"
  by (induction xs) auto

subsection \<open>Sources of distinct ids\<close>

text \<open>The ids that a numbered source has handed out before its counter reached \<open>n\<close>.\<close>

definition issued :: "(nat \<Rightarrow> 'k) \<Rightarrow> nat \<Rightarrow> 'k set" where
  "issued mk n = mk ` {..<n}"

lemma issued_mono: "m \<le> n \<Longrightarrow> issued mk m \<subseteq> issued mk n"
  by (auto simp: issued_def)

locale id_source =
  fixes mk :: "nat \<Rightarrow> 'k"
  assumes mk_inj: "mk i = mk j \<Longrightarrow> i = j"
begin

lemma fresh: "n \<le> k \<Longrightarrow> mk k \<notin> issued mk n"
  using mk_inj by (force simp: issued_def)

lemma issued_Suc: "issued mk (Suc n) = insert (mk n) (issued mk n)"
  by (simp add: issued_def lessThan_Suc)

text \<open>Extending a list of ids issued before \<open>n\<close> by ids issued from \<open>n\<close> on keeps it free of repetitions.\<close>

lemma distinct_extend:
  assumes "distinct xs" "set xs \<subseteq> issued mk n" "distinct ys" "set ys \<inter> issued mk n = {}"
  shows "distinct (xs @ ys)"
  using assms by auto

end

lemma digits_no_underscore: "95 \<notin> set (dec n)"
  using dec_digits [of 95 n] by (auto simp: is_digit_def)

lemma append_sep_inj: "c \<notin> set a \<Longrightarrow> c \<notin> set a' \<Longrightarrow> a @ c # b = a' @ c # b' \<longleftrightarrow> a = a' \<and> b = b'"
proof (induction a arbitrary: a')
  case Nil
  then show ?case by (cases a') auto
next
  case (Cons x a)
  then show ?case by (cases a') auto
qed

lemma local_id_inj: "local_id clk i = local_id clk' j \<longleftrightarrow> i = j \<and> clk i = clk' j"
  by (auto simp: local_id_def append_sep_inj digits_no_underscore)

lemma local_id_not_Nil [simp]: "local_id clk n \<noteq> []"
  by (simp add: local_id_def)

interpretation ids: id_source "local_id clk" for clk
  by unfold_locales (simp add: local_id_inj)

end
