(* ===== verification/ParamOverrideTables.thy ===== *)
theory ParamOverrideTables
  imports JsValue
begin

text \<open>
  The constant tables of \<open>ParamOverrideEditorModal.jsx\<close> and of
  \<open>channel-affinity-template.constants.js\<close>: the operation and condition modes with their labels, what
  each mode needs (\<open>MODE_META\<close> and the three required-field sets), the labels and placeholders of the
  form, the template library and the field guide. The modes are enumerations; \<open>op_mode_value\<close> and
  \<open>cond_mode_value\<close> are the strings the program uses for them, and \<open>op_mode_of\<close> and \<open>cond_mode_of\<close> are
  membership in \<open>OPERATION_MODE_VALUES\<close> and \<open>CONDITION_MODE_VALUES\<close>. Text that is not ASCII is written
  as its UTF-16 code units.
\<close>

subsection \<open>Modes\<close>

datatype op_mode =
    M_set
  | M_delete
  | M_append
  | M_prepend
  | M_copy
  | M_move
  | M_replace
  | M_regex_replace
  | M_trim_prefix
  | M_trim_suffix
  | M_ensure_prefix
  | M_ensure_suffix
  | M_trim_space
  | M_to_lower
  | M_to_upper
  | M_return_error
  | M_prune_objects
  | M_pass_headers
  | M_sync_fields
  | M_set_header
  | M_delete_header
  | M_copy_header
  | M_move_header

datatype cond_mode =
    C_full
  | C_prefix
  | C_suffix
  | C_contains
  | C_gt
  | C_gte
  | C_lt
  | C_lte

fun op_mode_value :: "op_mode \<Rightarrow> jstring" where
  "op_mode_value M_set = js ''set''"
| "op_mode_value M_delete = js ''delete''"
| "op_mode_value M_append = js ''append''"
| "op_mode_value M_prepend = js ''prepend''"
| "op_mode_value M_copy = js ''copy''"
| "op_mode_value M_move = js ''move''"
| "op_mode_value M_replace = js ''replace''"
| "op_mode_value M_regex_replace = js ''regex_replace''"
| "op_mode_value M_trim_prefix = js ''trim_prefix''"
| "op_mode_value M_trim_suffix = js ''trim_suffix''"
| "op_mode_value M_ensure_prefix = js ''ensure_prefix''"
| "op_mode_value M_ensure_suffix = js ''ensure_suffix''"
| "op_mode_value M_trim_space = js ''trim_space''"
| "op_mode_value M_to_lower = js ''to_lower''"
| "op_mode_value M_to_upper = js ''to_upper''"
| "op_mode_value M_return_error = js ''return_error''"
| "op_mode_value M_prune_objects = js ''prune_objects''"
| "op_mode_value M_pass_headers = js ''pass_headers''"
| "op_mode_value M_sync_fields = js ''sync_fields''"
| "op_mode_value M_set_header = js ''set_header''"
| "op_mode_value M_delete_header = js ''delete_header''"
| "op_mode_value M_copy_header = js ''copy_header''"
| "op_mode_value M_move_header = js ''move_header''"

fun cond_mode_value :: "cond_mode \<Rightarrow> jstring" where
  "cond_mode_value C_full = js ''full''"
| "cond_mode_value C_prefix = js ''prefix''"
| "cond_mode_value C_suffix = js ''suffix''"
| "cond_mode_value C_contains = js ''contains''"
| "cond_mode_value C_gt = js ''gt''"
| "cond_mode_value C_gte = js ''gte''"
| "cond_mode_value C_lt = js ''lt''"
| "cond_mode_value C_lte = js ''lte''"

definition OPERATION_MODE_OPTIONS :: "(jstring \<times> op_mode) list" where
  "OPERATION_MODE_OPTIONS =
    [([0x8BBE, 0x7F6E, 0x5B57, 0x6BB5], M_set),
     ([0x5220, 0x9664, 0x5B57, 0x6BB5], M_delete),
     ([0x8FFD, 0x52A0, 0x5230, 0x672B, 0x5C3E], M_append),
     ([0x8FFD, 0x52A0, 0x5230, 0x5F00, 0x5934], M_prepend),
     ([0x590D, 0x5236, 0x5B57, 0x6BB5], M_copy),
     ([0x79FB, 0x52A8, 0x5B57, 0x6BB5], M_move),
     ([0x5B57, 0x7B26, 0x4E32, 0x66FF, 0x6362], M_replace),
     ([0x6B63, 0x5219, 0x66FF, 0x6362], M_regex_replace),
     ([0x88C1, 0x526A, 0x524D, 0x7F00], M_trim_prefix),
     ([0x88C1, 0x526A, 0x540E, 0x7F00], M_trim_suffix),
     ([0x786E, 0x4FDD, 0x524D, 0x7F00], M_ensure_prefix),
     ([0x786E, 0x4FDD, 0x540E, 0x7F00], M_ensure_suffix),
     ([0x53BB, 0x6389, 0x7A7A, 0x767D], M_trim_space),
     ([0x8F6C, 0x5C0F, 0x5199], M_to_lower),
     ([0x8F6C, 0x5927, 0x5199], M_to_upper),
     ([0x8FD4, 0x56DE, 0x81EA, 0x5B9A, 0x4E49, 0x9519, 0x8BEF], M_return_error),
     ([0x6E05, 0x7406, 0x5BF9, 0x8C61, 0x9879], M_prune_objects),
     ([0x8BF7, 0x6C42, 0x5934, 0x900F, 0x4F20], M_pass_headers),
     ([0x5B57, 0x6BB5, 0x540C, 0x6B65], M_sync_fields),
     ([0x8BBE, 0x7F6E, 0x8BF7, 0x6C42, 0x5934], M_set_header),
     ([0x5220, 0x9664, 0x8BF7, 0x6C42, 0x5934], M_delete_header),
     ([0x590D, 0x5236, 0x8BF7, 0x6C42, 0x5934], M_copy_header),
     ([0x79FB, 0x52A8, 0x8BF7, 0x6C42, 0x5934], M_move_header)]"

definition CONDITION_MODE_OPTIONS :: "(jstring \<times> cond_mode) list" where
  "CONDITION_MODE_OPTIONS =
    [([0x5B8C, 0x5168, 0x5339, 0x914D], C_full),
     ([0x524D, 0x7F00, 0x5339, 0x914D], C_prefix),
     ([0x540E, 0x7F00, 0x5339, 0x914D], C_suffix),
     ([0x5305, 0x542B], C_contains),
     ([0x5927, 0x4E8E], C_gt),
     ([0x5927, 0x4E8E, 0x7B49, 0x4E8E], C_gte),
     ([0x5C0F, 0x4E8E], C_lt),
     ([0x5C0F, 0x4E8E, 0x7B49, 0x4E8E], C_lte)]"

text \<open>The mode a string names, if it is a member of the set of mode values.\<close>

definition op_mode_of :: "jstring \<Rightarrow> op_mode option" where
  "op_mode_of s = List.find (\<lambda>m. op_mode_value m = s) (map snd OPERATION_MODE_OPTIONS)"

definition cond_mode_of :: "jstring \<Rightarrow> cond_mode option" where
  "cond_mode_of s = List.find (\<lambda>m. cond_mode_value m = s) (map snd CONDITION_MODE_OPTIONS)"

definition OPERATION_MODE_LABEL_MAP :: "op_mode \<Rightarrow> jstring option" where
  "OPERATION_MODE_LABEL_MAP m = map_option fst (List.find (\<lambda>item. snd item = m) OPERATION_MODE_OPTIONS)"

subsection \<open>What each mode needs\<close>

text \<open>\<open>mm_to\<close> keeps the difference between an absent flag and an explicit \<open>to: false\<close>.\<close>

record mode_meta =
  mm_path :: bool
  mm_pathOptional :: bool
  mm_pathAlias :: bool
  mm_value :: bool
  mm_keepOrigin :: bool
  mm_from :: bool
  mm_to :: "bool option"

definition no_meta :: mode_meta where
  "no_meta = \<lparr>mm_path = False, mm_pathOptional = False, mm_pathAlias = False, mm_value = False,
     mm_keepOrigin = False, mm_from = False, mm_to = None\<rparr>"

fun MODE_META :: "op_mode \<Rightarrow> mode_meta" where
  "MODE_META M_delete = no_meta\<lparr>mm_path := True\<rparr>"
| "MODE_META M_set = no_meta\<lparr>mm_path := True, mm_value := True, mm_keepOrigin := True\<rparr>"
| "MODE_META M_append = no_meta\<lparr>mm_path := True, mm_value := True, mm_keepOrigin := True\<rparr>"
| "MODE_META M_prepend = no_meta\<lparr>mm_path := True, mm_value := True, mm_keepOrigin := True\<rparr>"
| "MODE_META M_copy = no_meta\<lparr>mm_from := True, mm_to := Some True\<rparr>"
| "MODE_META M_move = no_meta\<lparr>mm_from := True, mm_to := Some True\<rparr>"
| "MODE_META M_replace = no_meta\<lparr>mm_path := True, mm_from := True, mm_to := Some False\<rparr>"
| "MODE_META M_regex_replace = no_meta\<lparr>mm_path := True, mm_from := True, mm_to := Some False\<rparr>"
| "MODE_META M_trim_prefix = no_meta\<lparr>mm_path := True, mm_value := True\<rparr>"
| "MODE_META M_trim_suffix = no_meta\<lparr>mm_path := True, mm_value := True\<rparr>"
| "MODE_META M_ensure_prefix = no_meta\<lparr>mm_path := True, mm_value := True\<rparr>"
| "MODE_META M_ensure_suffix = no_meta\<lparr>mm_path := True, mm_value := True\<rparr>"
| "MODE_META M_trim_space = no_meta\<lparr>mm_path := True\<rparr>"
| "MODE_META M_to_lower = no_meta\<lparr>mm_path := True\<rparr>"
| "MODE_META M_to_upper = no_meta\<lparr>mm_path := True\<rparr>"
| "MODE_META M_return_error = no_meta\<lparr>mm_value := True\<rparr>"
| "MODE_META M_prune_objects = no_meta\<lparr>mm_pathOptional := True, mm_value := True\<rparr>"
| "MODE_META M_pass_headers = no_meta\<lparr>mm_value := True, mm_keepOrigin := True\<rparr>"
| "MODE_META M_sync_fields = no_meta\<lparr>mm_from := True, mm_to := Some True\<rparr>"
| "MODE_META M_set_header = no_meta\<lparr>mm_path := True, mm_value := True, mm_keepOrigin := True\<rparr>"
| "MODE_META M_delete_header = no_meta\<lparr>mm_path := True\<rparr>"
| "MODE_META M_copy_header = no_meta\<lparr>mm_from := True, mm_to := Some True, mm_keepOrigin := True, mm_pathAlias := True\<rparr>"
| "MODE_META M_move_header = no_meta\<lparr>mm_from := True, mm_to := Some True, mm_keepOrigin := True, mm_pathAlias := True\<rparr>"

definition VALUE_REQUIRED_MODES :: "op_mode list" where
  "VALUE_REQUIRED_MODES =
    [M_trim_prefix, M_trim_suffix, M_ensure_prefix, M_ensure_suffix, M_set_header, M_return_error, M_prune_objects, M_pass_headers]"

definition FROM_REQUIRED_MODES :: "op_mode list" where
  "FROM_REQUIRED_MODES =
    [M_copy, M_move, M_replace, M_regex_replace, M_copy_header, M_move_header, M_sync_fields]"

definition TO_REQUIRED_MODES :: "op_mode list" where
  "TO_REQUIRED_MODES =
    [M_copy, M_move, M_copy_header, M_move_header, M_sync_fields]"

subsection \<open>Labels and placeholders\<close>

fun MODE_DESCRIPTIONS :: "op_mode \<Rightarrow> jstring" where
  "MODE_DESCRIPTIONS M_set = [0x628A, 0x503C, 0x5199, 0x5165, 0x76EE, 0x6807, 0x5B57, 0x6BB5]"
| "MODE_DESCRIPTIONS M_delete = [0x5220, 0x9664, 0x76EE, 0x6807, 0x5B57, 0x6BB5]"
| "MODE_DESCRIPTIONS M_append = [0x628A, 0x503C, 0x8FFD, 0x52A0, 0x5230, 0x6570, 0x7EC4] @ js '' / '' @ [0x5B57, 0x7B26, 0x4E32] @ js '' / '' @ [0x5BF9, 0x8C61, 0x672B, 0x5C3E]"
| "MODE_DESCRIPTIONS M_prepend = [0x628A, 0x503C, 0x8FFD, 0x52A0, 0x5230, 0x6570, 0x7EC4] @ js '' / '' @ [0x5B57, 0x7B26, 0x4E32] @ js '' / '' @ [0x5BF9, 0x8C61, 0x5F00, 0x5934]"
| "MODE_DESCRIPTIONS M_copy = [0x628A, 0x6765, 0x6E90, 0x5B57, 0x6BB5, 0x590D, 0x5236, 0x5230, 0x76EE, 0x6807, 0x5B57, 0x6BB5]"
| "MODE_DESCRIPTIONS M_move = [0x628A, 0x6765, 0x6E90, 0x5B57, 0x6BB5, 0x79FB, 0x52A8, 0x5230, 0x76EE, 0x6807, 0x5B57, 0x6BB5]"
| "MODE_DESCRIPTIONS M_replace = [0x5728, 0x76EE, 0x6807, 0x5B57, 0x6BB5, 0x91CC, 0x505A, 0x5B57, 0x7B26, 0x4E32, 0x66FF, 0x6362]"
| "MODE_DESCRIPTIONS M_regex_replace = [0x5728, 0x76EE, 0x6807, 0x5B57, 0x6BB5, 0x91CC, 0x505A, 0x6B63, 0x5219, 0x66FF, 0x6362]"
| "MODE_DESCRIPTIONS M_trim_prefix = [0x53BB, 0x6389, 0x5B57, 0x7B26, 0x4E32, 0x524D, 0x7F00]"
| "MODE_DESCRIPTIONS M_trim_suffix = [0x53BB, 0x6389, 0x5B57, 0x7B26, 0x4E32, 0x540E, 0x7F00]"
| "MODE_DESCRIPTIONS M_ensure_prefix = [0x786E, 0x4FDD, 0x5B57, 0x7B26, 0x4E32, 0x6709, 0x6307, 0x5B9A, 0x524D, 0x7F00]"
| "MODE_DESCRIPTIONS M_ensure_suffix = [0x786E, 0x4FDD, 0x5B57, 0x7B26, 0x4E32, 0x6709, 0x6307, 0x5B9A, 0x540E, 0x7F00]"
| "MODE_DESCRIPTIONS M_trim_space = [0x53BB, 0x6389, 0x5B57, 0x7B26, 0x4E32, 0x5934, 0x5C3E, 0x7A7A, 0x767D]"
| "MODE_DESCRIPTIONS M_to_lower = [0x628A, 0x5B57, 0x7B26, 0x4E32, 0x8F6C, 0x6210, 0x5C0F, 0x5199]"
| "MODE_DESCRIPTIONS M_to_upper = [0x628A, 0x5B57, 0x7B26, 0x4E32, 0x8F6C, 0x6210, 0x5927, 0x5199]"
| "MODE_DESCRIPTIONS M_return_error = [0x7ACB, 0x5373, 0x8FD4, 0x56DE, 0x81EA, 0x5B9A, 0x4E49, 0x9519, 0x8BEF]"
| "MODE_DESCRIPTIONS M_prune_objects = [0x6309, 0x6761, 0x4EF6, 0x6E05, 0x7406, 0x5BF9, 0x8C61, 0x4E2D, 0x7684, 0x5B50, 0x9879]"
| "MODE_DESCRIPTIONS M_pass_headers = [0x628A, 0x6307, 0x5B9A, 0x8BF7, 0x6C42, 0x5934, 0x900F, 0x4F20, 0x5230, 0x4E0A, 0x6E38, 0x8BF7, 0x6C42]"
| "MODE_DESCRIPTIONS M_sync_fields = [0x5728, 0x4E00, 0x4E2A, 0x5B57, 0x6BB5, 0x6709, 0x503C, 0x3001, 0x53E6, 0x4E00, 0x4E2A, 0x7F3A, 0x5931, 0x65F6, 0x81EA, 0x52A8, 0x8865, 0x9F50]"
| "MODE_DESCRIPTIONS M_set_header = [0x8BBE, 0x7F6E, 0x8FD0, 0x884C, 0x671F, 0x8BF7, 0x6C42, 0x5934, 0xFF1A, 0x53EF, 0x76F4, 0x63A5, 0x8986, 0x76D6, 0x6574, 0x6761, 0x503C, 0xFF0C, 0x4E5F, 0x53EF, 0x5BF9, 0x9017, 0x53F7, 0x5206, 0x9694, 0x7684] @ js '' token '' @ [0x505A, 0x5220, 0x9664, 0x3001, 0x66FF, 0x6362, 0x3001, 0x8FFD, 0x52A0, 0x6216, 0x767D, 0x540D, 0x5355, 0x4FDD, 0x7559]"
| "MODE_DESCRIPTIONS M_delete_header = [0x5220, 0x9664, 0x8FD0, 0x884C, 0x671F, 0x8BF7, 0x6C42, 0x5934]"
| "MODE_DESCRIPTIONS M_copy_header = [0x590D, 0x5236, 0x8BF7, 0x6C42, 0x5934]"
| "MODE_DESCRIPTIONS M_move_header = [0x79FB, 0x52A8, 0x8BF7, 0x6C42, 0x5934]"

definition getModePathLabel :: "op_mode \<Rightarrow> jstring" where
  "getModePathLabel mode =
     (if mode = M_set_header \<or> mode = M_delete_header then [0x8BF7, 0x6C42, 0x5934, 0x540D, 0x79F0]
      else if mode = M_prune_objects then [0x76EE, 0x6807, 0x8DEF, 0x5F84, 0xFF08, 0x53EF, 0x9009, 0xFF09]
      else [0x76EE, 0x6807, 0x5B57, 0x6BB5, 0x8DEF, 0x5F84])"

definition getModePathPlaceholder :: "op_mode \<Rightarrow> jstring" where
  "getModePathPlaceholder mode =
     (if mode = M_set_header then js ''Authorization''
      else if mode = M_delete_header then js ''X-Debug-Mode''
      else if mode = M_prune_objects then js ''messages''
      else js ''temperature'')"

definition getModeFromLabel :: "op_mode \<Rightarrow> jstring" where
  "getModeFromLabel mode =
     (if mode = M_replace then [0x5339, 0x914D, 0x6587, 0x672C]
      else if mode = M_regex_replace then [0x6B63, 0x5219, 0x8868, 0x8FBE, 0x5F0F]
      else if mode = M_copy_header \<or> mode = M_move_header then [0x6765, 0x6E90, 0x8BF7, 0x6C42, 0x5934]
      else [0x6765, 0x6E90, 0x5B57, 0x6BB5])"

definition getModeFromPlaceholder :: "op_mode \<Rightarrow> jstring" where
  "getModeFromPlaceholder mode =
     (if mode = M_replace then js ''openai/''
      else if mode = M_regex_replace then js ''^gpt-''
      else if mode = M_copy_header \<or> mode = M_move_header then js ''Authorization''
      else js ''model'')"

definition getModeToLabel :: "op_mode \<Rightarrow> jstring" where
  "getModeToLabel mode =
     (if mode = M_replace \<or> mode = M_regex_replace then [0x66FF, 0x6362, 0x4E3A]
      else if mode = M_copy_header \<or> mode = M_move_header then [0x76EE, 0x6807, 0x8BF7, 0x6C42, 0x5934]
      else [0x76EE, 0x6807, 0x5B57, 0x6BB5])"

definition getModeToPlaceholder :: "op_mode \<Rightarrow> jstring" where
  "getModeToPlaceholder mode =
     (if mode = M_replace then [0xFF08, 0x53EF, 0x7559, 0x7A7A, 0xFF09]
      else if mode = M_regex_replace then js ''openai/gpt-''
      else if mode = M_copy_header \<or> mode = M_move_header then js ''X-Upstream-Auth''
      else js ''original_model'')"

definition getModeValueLabel :: "op_mode \<Rightarrow> jstring" where
  "getModeValueLabel mode =
     (if mode = M_set_header then [0x8BF7, 0x6C42, 0x5934, 0x503C, 0xFF08, 0x652F, 0x6301, 0x5B57, 0x7B26, 0x4E32, 0x6216] @ js '' JSON '' @ [0x6620, 0x5C04, 0xFF09]
      else if mode = M_pass_headers then [0x900F, 0x4F20, 0x8BF7, 0x6C42, 0x5934, 0xFF08, 0x652F, 0x6301, 0x9017, 0x53F7, 0x5206, 0x9694, 0x6216] @ js '' JSON '' @ [0x6570, 0x7EC4, 0xFF09]
      else if mode = M_trim_prefix \<or> mode = M_trim_suffix \<or> mode = M_ensure_prefix \<or> mode = M_ensure_suffix then [0x524D, 0x540E, 0x7F00, 0x6587, 0x672C]
      else if mode = M_prune_objects then [0x6E05, 0x7406, 0x89C4, 0x5219, 0xFF08, 0x5B57, 0x7B26, 0x4E32, 0x6216] @ js '' JSON '' @ [0x5BF9, 0x8C61, 0xFF09]
      else [0x503C, 0xFF08, 0x652F, 0x6301] @ js '' JSON '' @ [0x6216, 0x666E, 0x901A, 0x6587, 0x672C, 0xFF09])"

definition getModeValuePlaceholder :: "op_mode \<Rightarrow> jstring" where
  "getModeValuePlaceholder mode =
     (if mode = M_set_header then join [10]
       [[0x7EAF, 0x5B57, 0x7B26, 0x4E32, 0xFF08, 0x6574, 0x6761, 0x8986, 0x76D6, 0xFF09, 0xFF1A],
        js ''Bearer sk-xxx'',
        [],
        [0x6216, 0x4F7F, 0x7528] @ js '' JSON '' @ [0x89C4, 0x5219, 0xFF1A],
        js ''{'',
        js ''  '' @ [34] @ js ''files-api-2025-04-14'' @ [34] @ js '': null,'',
        js ''  '' @ [34] @ js ''advanced-tool-use-2025-11-20'' @ [34] @ js '': '' @ [34] @ js ''tool-search-tool-2025-10-19'' @ [34] @ js '','',
        js ''  '' @ [34] @ js ''$append'' @ [34] @ js '': ['' @ [34] @ js ''context-1m-2025-08-07'' @ [34] @ js '']'',
        js ''}'']
      else if mode = M_pass_headers then js ''Authorization, X-Request-Id''
      else if mode = M_trim_prefix \<or> mode = M_trim_suffix \<or> mode = M_ensure_prefix \<or> mode = M_ensure_suffix then js ''openai/''
      else if mode = M_prune_objects then js ''{'' @ [34] @ js ''type'' @ [34] @ js '':'' @ [34] @ js ''redacted_thinking'' @ [34] @ js ''}''
      else js ''0.7'')"

datatype sync_type = S_json | S_header

fun sync_type_value :: "sync_type \<Rightarrow> jstring" where
  "sync_type_value S_json = js ''json''"
| "sync_type_value S_header = js ''header''"

definition SYNC_TARGET_TYPE_OPTIONS :: "(jstring \<times> sync_type) list" where
  "SYNC_TARGET_TYPE_OPTIONS =
    [([0x8BF7, 0x6C42, 0x4F53, 0x5B57, 0x6BB5], S_json),
     ([0x8BF7, 0x6C42, 0x5934, 0x5B57, 0x6BB5], S_header)]"

subsection \<open>Templates\<close>

definition LEGACY_TEMPLATE :: jsobj where
  "LEGACY_TEMPLATE = [(js ''temperature'', JNum (Num 0)), (js ''max_tokens'', JNum (Num 1000))]"

definition OPERATION_TEMPLATE :: "jsval list" where
  "OPERATION_TEMPLATE =
    [JObj [(js ''description'', JStr (js ''Set default temperature for openai/* models.'')),
     (js ''path'', JStr (js ''temperature'')),
     (js ''mode'', JStr (js ''set'')),
     (js ''value'', JNum (rnd (7 / 10))),
     (js ''conditions'', JArr [JObj [(js ''path'', JStr (js ''model'')),
     (js ''mode'', JStr (js ''prefix'')),
     (js ''value'', JStr (js ''openai/''))]]),
     (js ''logic'', JStr (js ''AND''))]]"

definition HEADER_PASSTHROUGH_TEMPLATE :: "jsval list" where
  "HEADER_PASSTHROUGH_TEMPLATE =
    [JObj [(js ''description'', JStr (js ''Pass through X-Request-Id header to upstream.'')),
     (js ''mode'', JStr (js ''pass_headers'')),
     (js ''value'', JArr [JStr (js ''X-Request-Id'')]),
     (js ''keep_origin'', JBool True)]]"

definition GEMINI_IMAGE_4K_TEMPLATE :: "jsval list" where
  "GEMINI_IMAGE_4K_TEMPLATE =
    [JObj [(js ''description'', JStr (js ''Set imageSize to 4K when model contains gemini/image and ends with 4k.'')),
     (js ''mode'', JStr (js ''set'')),
     (js ''path'', JStr (js ''generationConfig.imageConfig.imageSize'')),
     (js ''value'', JStr (js ''4K'')),
     (js ''conditions'', JArr [JObj [(js ''path'', JStr (js ''original_model'')),
     (js ''mode'', JStr (js ''contains'')),
     (js ''value'', JStr (js ''gemini''))], JObj [(js ''path'', JStr (js ''original_model'')),
     (js ''mode'', JStr (js ''contains'')),
     (js ''value'', JStr (js ''image''))], JObj [(js ''path'', JStr (js ''original_model'')),
     (js ''mode'', JStr (js ''suffix'')),
     (js ''value'', JStr (js ''4k''))]]),
     (js ''logic'', JStr (js ''AND''))]]"

definition AWS_BETA_TOKENS :: jsobj where
  "AWS_BETA_TOKENS =
    [(js ''advanced-tool-use-2025-11-20'', JStr (js ''tool-search-tool-2025-10-19'')),
     (js ''bash_20241022'', JNull),
     (js ''bash_20250124'', JNull),
     (js ''code-execution-2025-08-25'', JNull),
     (js ''compact-2026-01-12'', JStr (js ''compact-2026-01-12'')),
     (js ''computer-use-2025-01-24'', JStr (js ''computer-use-2025-01-24'')),
     (js ''computer-use-2025-11-24'', JStr (js ''computer-use-2025-11-24'')),
     (js ''context-1m-2025-08-07'', JStr (js ''context-1m-2025-08-07'')),
     (js ''context-management-2025-06-27'', JStr (js ''context-management-2025-06-27'')),
     (js ''effort-2025-11-24'', JNull),
     (js ''fast-mode-2026-02-01'', JNull),
     (js ''files-api-2025-04-14'', JNull),
     (js ''fine-grained-tool-streaming-2025-05-14'', JNull),
     (js ''interleaved-thinking-2025-05-14'', JStr (js ''interleaved-thinking-2025-05-14'')),
     (js ''mcp-client-2025-11-20'', JNull),
     (js ''mcp-client-2025-04-04'', JNull),
     (js ''mcp-servers-2025-12-04'', JNull),
     (js ''output-128k-2025-02-19'', JNull),
     (js ''structured-output-2024-03-01'', JNull),
     (js ''prompt-caching-scope-2026-01-05'', JNull),
     (js ''skills-2025-10-02'', JNull),
     (js ''structured-outputs-2025-11-13'', JNull),
     (js ''text_editor_20241022'', JNull),
     (js ''text_editor_20250124'', JNull),
     (js ''token-efficient-tools-2025-02-19'', JNull),
     (js ''tool-search-tool-2025-10-19'', JStr (js ''tool-search-tool-2025-10-19'')),
     (js ''web-fetch-2025-09-10'', JNull),
     (js ''web-search-2025-03-05'', JNull),
     (js ''oauth-2025-04-20'', JNull)]"

definition AWS_BEDROCK_ANTHROPIC_COMPAT_TEMPLATE :: "jsval list" where
  "AWS_BEDROCK_ANTHROPIC_COMPAT_TEMPLATE =
    [JObj [(js ''description'', JStr (js ''Normalize anthropic-beta header tokens for Bedrock compatibility.'')),
     (js ''mode'', JStr (js ''set_header'')),
     (js ''path'', JStr (js ''anthropic-beta'')),
     (js ''value'', JObj AWS_BETA_TOKENS)],
     JObj [(js ''description'', JStr (js ''Remove all tools[*].custom.input_examples before upstream relay.'')),
     (js ''mode'', JStr (js ''delete'')),
     (js ''path'', JStr (js ''tools.*.custom.input_examples''))]]"

text \<open>\<open>constants/channel-affinity-template.constants.js\<close>\<close>

definition buildPassHeadersTemplate :: "jstring list \<Rightarrow> jsval list" where
  "buildPassHeadersTemplate headers =
    [JObj [(js ''mode'', JStr (js ''pass_headers'')), (js ''value'', JArr (map JStr headers)),
     (js ''keep_origin'', JBool True)]]"

definition CODEX_CLI_HEADER_PASSTHROUGH_HEADERS :: "jstring list" where
  "CODEX_CLI_HEADER_PASSTHROUGH_HEADERS =
    [js ''Originator'',
     js ''Session_id'',
     js ''User-Agent'',
     js ''X-Codex-Beta-Features'',
     js ''X-Codex-Turn-Metadata'']"

definition CLAUDE_CLI_HEADER_PASSTHROUGH_HEADERS :: "jstring list" where
  "CLAUDE_CLI_HEADER_PASSTHROUGH_HEADERS =
    [js ''X-Stainless-Arch'',
     js ''X-Stainless-Lang'',
     js ''X-Stainless-Os'',
     js ''X-Stainless-Package-Version'',
     js ''X-Stainless-Retry-Count'',
     js ''X-Stainless-Runtime'',
     js ''X-Stainless-Runtime-Version'',
     js ''X-Stainless-Timeout'',
     js ''User-Agent'',
     js ''X-App'',
     js ''Anthropic-Beta'',
     js ''Anthropic-Dangerous-Direct-Browser-Access'',
     js ''Anthropic-Version'']"

definition CODEX_CLI_HEADER_PASSTHROUGH_TEMPLATE :: "jsval list" where
  "CODEX_CLI_HEADER_PASSTHROUGH_TEMPLATE = buildPassHeadersTemplate CODEX_CLI_HEADER_PASSTHROUGH_HEADERS"

definition CLAUDE_CLI_HEADER_PASSTHROUGH_TEMPLATE :: "jsval list" where
  "CLAUDE_CLI_HEADER_PASSTHROUGH_TEMPLATE = buildPassHeadersTemplate CLAUDE_CLI_HEADER_PASSTHROUGH_HEADERS"

text \<open>
  The template library: group, label and payload of each preset; \<open>Operations\<close> presets hold the list
  \<open>payload.operations\<close>, \<open>Legacy\<close> presets the payload object itself.
\<close>

datatype template_payload = Operations "jsval list" | Legacy jsobj

record template_preset =
  tp_group :: jstring
  tp_label :: jstring
  tp_payload :: template_payload

definition TEMPLATE_GROUP_OPTIONS :: "(jstring \<times> jstring) list" where
  "TEMPLATE_GROUP_OPTIONS =
    [([0x57FA, 0x7840, 0x6A21, 0x677F], js ''basic''),
     ([0x573A, 0x666F, 0x6A21, 0x677F], js ''scenario'')]"

definition TEMPLATE_PRESET_CONFIG :: "(jstring \<times> template_preset) list" where
  "TEMPLATE_PRESET_CONFIG =
    [(js ''operations_default'', \<lparr>tp_group = js ''basic'', tp_label = [0x65B0, 0x683C, 0x5F0F, 0x6A21, 0x677F, 0xFF08, 0x89C4, 0x5219, 0x96C6, 0xFF09],
       tp_payload = Operations OPERATION_TEMPLATE\<rparr>),
     (js ''legacy_default'', \<lparr>tp_group = js ''basic'', tp_label = [0x65E7, 0x683C, 0x5F0F, 0x6A21, 0x677F, 0xFF08] @ js ''JSON '' @ [0x5BF9, 0x8C61, 0xFF09],
       tp_payload = Legacy LEGACY_TEMPLATE\<rparr>),
     (js ''pass_headers_auth'', \<lparr>tp_group = js ''scenario'', tp_label = [0x8BF7, 0x6C42, 0x5934, 0x900F, 0x4F20, 0xFF08] @ js ''X-Request-Id'' @ [0xFF09],
       tp_payload = Operations HEADER_PASSTHROUGH_TEMPLATE\<rparr>),
     (js ''gemini_image_4k'', \<lparr>tp_group = js ''scenario'', tp_label = js ''Gemini '' @ [0x56FE, 0x7247] @ js '' 4K'',
       tp_payload = Operations GEMINI_IMAGE_4K_TEMPLATE\<rparr>),
     (js ''claude_cli_headers_passthrough'', \<lparr>tp_group = js ''scenario'', tp_label = js ''Claude CLI '' @ [0x8BF7, 0x6C42, 0x5934, 0x900F, 0x4F20],
       tp_payload = Operations CLAUDE_CLI_HEADER_PASSTHROUGH_TEMPLATE\<rparr>),
     (js ''codex_cli_headers_passthrough'', \<lparr>tp_group = js ''scenario'', tp_label = js ''Codex CLI '' @ [0x8BF7, 0x6C42, 0x5934, 0x900F, 0x4F20],
       tp_payload = Operations CODEX_CLI_HEADER_PASSTHROUGH_TEMPLATE\<rparr>),
     (js ''aws_bedrock_anthropic_beta_override'', \<lparr>tp_group = js ''scenario'', tp_label = js ''AWS Bedrock Claude '' @ [0x517C, 0x5BB9, 0x6A21, 0x677F],
       tp_payload = Operations AWS_BEDROCK_ANTHROPIC_COMPAT_TEMPLATE\<rparr>)]"

subsection \<open>Field guide\<close>

datatype guide_target = G_path | G_from | G_to

definition FIELD_GUIDE_TARGET_OPTIONS :: "(jstring \<times> guide_target) list" where
  "FIELD_GUIDE_TARGET_OPTIONS =
    [([0x586B, 0x5165, 0x76EE, 0x6807, 0x8DEF, 0x5F84], G_path),
     ([0x586B, 0x5165, 0x6765, 0x6E90, 0x5B57, 0x6BB5], G_from),
     ([0x586B, 0x5165, 0x76EE, 0x6807, 0x5B57, 0x6BB5], G_to)]"

record builtin_field =
  bf_key :: jstring
  bf_label :: jstring
  bf_tip :: jstring

record field_section =
  fs_title :: jstring
  fs_fields :: "builtin_field list"

definition BUILTIN_FIELD_SECTIONS :: "field_section list" where
  "BUILTIN_FIELD_SECTIONS =
    [\<lparr>fs_title = [0x5E38, 0x7528, 0x8BF7, 0x6C42, 0x5B57, 0x6BB5], fs_fields =
       [\<lparr>bf_key = js ''model'', bf_label = [0x6A21, 0x578B, 0x540D, 0x79F0],
          bf_tip = [0x652F, 0x6301, 0x591A, 0x7EA7, 0x6A21, 0x578B, 0x540D, 0xFF0C, 0x4F8B, 0x5982] @ js '' openai/gpt-4o-mini''\<rparr>,
        \<lparr>bf_key = js ''temperature'', bf_label = [0x91C7, 0x6837, 0x6E29, 0x5EA6],
          bf_tip = [0x63A7, 0x5236, 0x8F93, 0x51FA, 0x968F, 0x673A, 0x6027]\<rparr>,
        \<lparr>bf_key = js ''max_tokens'', bf_label = [0x6700, 0x5927, 0x8F93, 0x51FA] @ js '' Token'',
          bf_tip = [0x63A7, 0x5236, 0x8F93, 0x51FA, 0x957F, 0x5EA6, 0x4E0A, 0x9650]\<rparr>,
        \<lparr>bf_key = js ''messages.-1.content'', bf_label = [0x6700, 0x540E, 0x4E00, 0x6761, 0x6D88, 0x606F, 0x5185, 0x5BB9],
          bf_tip = [0x5E38, 0x7528, 0x4E8E, 0x91CD, 0x5199, 0x7528, 0x6237, 0x8F93, 0x5165]\<rparr>]\<rparr>,
     \<lparr>fs_title = [0x4E0A, 0x4E0B, 0x6587, 0x5B57, 0x6BB5], fs_fields =
       [\<lparr>bf_key = js ''retry.is_retry'', bf_label = [0x662F, 0x5426, 0x91CD, 0x8BD5],
          bf_tip = js ''true '' @ [0x8868, 0x793A, 0x91CD, 0x8BD5, 0x8BF7, 0x6C42]\<rparr>,
        \<lparr>bf_key = js ''last_error.code'', bf_label = [0x4E0A, 0x6B21, 0x9519, 0x8BEF, 0x7801],
          bf_tip = [0x914D, 0x5408, 0x91CD, 0x8BD5, 0x7B56, 0x7565, 0x4F7F, 0x7528]\<rparr>,
        \<lparr>bf_key = js ''metadata.conversation_id'', bf_label = [0x4F1A, 0x8BDD] @ js '' ID'',
          bf_tip = [0x53EF, 0x7528, 0x4E8E, 0x8DEF, 0x7531, 0x6216, 0x7F13, 0x5B58, 0x547D, 0x4E2D]\<rparr>]\<rparr>,
     \<lparr>fs_title = [0x8BF7, 0x6C42, 0x5934, 0x6620, 0x5C04, 0x5B57, 0x6BB5], fs_fields =
       [\<lparr>bf_key = js ''header_override_normalized.authorization'', bf_label = [0x6807, 0x51C6, 0x5316] @ js '' Authorization'',
          bf_tip = [0x7EDF, 0x4E00, 0x5C0F, 0x5199, 0x540E, 0x53EF, 0x7A33, 0x5B9A, 0x5339, 0x914D]\<rparr>,
        \<lparr>bf_key = js ''header_override_normalized.x_debug_mode'', bf_label = [0x6807, 0x51C6, 0x5316] @ js '' X-Debug-Mode'',
          bf_tip = [0x9002, 0x5408, 0x7070, 0x5EA6] @ js '' / '' @ [0x8C03, 0x8BD5, 0x5F00, 0x5173, 0x5224, 0x65AD]\<rparr>]\<rparr>]"

subsection \<open>Mode names\<close>

lemma op_mode_of_value [simp]: "op_mode_of (op_mode_value m) = Some m"
  by (cases m) (simp_all add: op_mode_of_def OPERATION_MODE_OPTIONS_def)

lemma cond_mode_of_value [simp]: "cond_mode_of (cond_mode_value m) = Some m"
  by (cases m) (simp_all add: cond_mode_of_def CONDITION_MODE_OPTIONS_def)

lemma op_mode_value_inj [simp]: "op_mode_value m = op_mode_value m' \<longleftrightarrow> m = m'"
  by (metis op_mode_of_value option.inject)

lemma cond_mode_value_inj [simp]: "cond_mode_value m = cond_mode_value m' \<longleftrightarrow> m = m'"
  by (metis cond_mode_of_value option.inject)

lemma find_SomeD: "List.find P xs = Some x \<Longrightarrow> x \<in> set xs \<and> P x"
  by (induction xs) (auto split: if_splits)

lemma op_mode_of_SomeD: "op_mode_of s = Some m \<Longrightarrow> op_mode_value m = s"
  by (auto simp: op_mode_of_def dest: find_SomeD)

lemma cond_mode_of_SomeD: "cond_mode_of s = Some m \<Longrightarrow> cond_mode_value m = s"
  by (auto simp: cond_mode_of_def dest: find_SomeD)

end
