(* ===== verification/ParamOverrideDrafts.thy ===== *)
theory ParamOverrideDrafts
  imports JsJson LocalIds ParamOverrideTables
begin

text \<open>
  The value helpers of \<open>ParamOverrideEditorModal.jsx\<close> and the drafts that the editor shows in place of
  a raw value text: the custom error of \<open>return_error\<close>, the rules of \<open>prune_objects\<close> and the end
  points of \<open>sync_fields\<close>. Each draft is parsed from the value text whenever it is shown and printed
  back after every edit, so the two directions must fit together.
\<close>

subsection \<open>Value texts\<close>

text \<open>\<open>JSON.stringify\<close> does not throw on parsed data, so the catch branch of \<open>toValueText\<close> is dead.\<close>

definition toValueText :: "jsval \<Rightarrow> jstring" where
  "toValueText v = (case v of JUndef \<Rightarrow> [] | JStr s \<Rightarrow> s | _ \<Rightarrow> json_str v)"

definition parseLooseValue :: "jstring \<Rightarrow> jsval" where
  "parseLooseValue raw =
     (if trim raw = [] then JStr []
      else (case json_parse raw of Some v \<Rightarrow> v | None \<Rightarrow> JStr raw))"

text \<open>\<open>items.map((item) => String(item ?? '').trim()).filter(Boolean)\<close>\<close>

definition header_names :: "jsval list \<Rightarrow> jstring list res" where
  "header_names items = rbind (res_list (map trim_string items)) (\<lambda>names. Inr (filter (\<lambda>s. s \<noteq> []) names))"

definition parsePassHeaderNames :: "jsval \<Rightarrow> jstring list res" where
  "parsePassHeaderNames rawValue = (case rawValue of
       JArr items \<Rightarrow> header_names items
     | JObj ob \<Rightarrow>
         (case get_own ob (js ''headers'') of
            JArr items \<Rightarrow> header_names items
          | _ \<Rightarrow>
              if get_own ob (js ''header'') \<noteq> JUndef
              then rbind (trim_string (get_own ob (js ''header''))) (\<lambda>single. Inr (if single \<noteq> [] then [single] else []))
              else Inr [])
     | JStr s \<Rightarrow> Inr (filter (\<lambda>x. x \<noteq> []) (map trim (split_on 44 s)))
     | _ \<Rightarrow> Inr [])"

subsection \<open>The return\_error draft\<close>

record return_error_draft =
  re_message :: jstring
  re_statusCode :: jsnum
  re_code :: jstring
  re_type :: jstring
  re_skipRetry :: bool
  re_simpleMode :: bool

definition re_defaults :: return_error_draft where
  "re_defaults = \<lparr>re_message = [], re_statusCode = Num 400, re_code = [], re_type = [],
     re_skipRetry = True, re_simpleMode = True\<rparr>"

text \<open>\<open>String(v || '').trim()\<close>\<close>

definition trim_truthy :: "jsval \<Rightarrow> jstring res" where
  "trim_truthy v = rbind (js_String (js_or v (JStr []))) (\<lambda>s. Inr (trim s))"

definition valid_status :: "jsnum \<Rightarrow> bool" where
  "valid_status n \<longleftrightarrow> num_is_integer n \<and> num_le (Num 100) n \<and> num_le n (Num 599)"

text \<open>What the try block returns for a parsed object, or the TypeError it raises.\<close>

definition return_error_of :: "jsobj \<Rightarrow> return_error_draft res" where
  "return_error_of parsed =
     (let statusRaw = (if get_own parsed (js ''status_code'') \<noteq> JUndef
                       then get_own parsed (js ''status_code'') else get_own parsed (js ''status'')) in
      rbind (js_Number statusRaw) (\<lambda>statusValue.
      rbind (trim_truthy (js_or (get_own parsed (js ''message'')) (get_own parsed (js ''msg'')))) (\<lambda>message.
      rbind (trim_truthy (get_own parsed (js ''code''))) (\<lambda>code.
      rbind (trim_truthy (get_own parsed (js ''type''))) (\<lambda>type.
      Inr \<lparr>re_message = message,
           re_statusCode = (if valid_status statusValue then statusValue else Num 400),
           re_code = code, re_type = type,
           re_skipRetry = (get_own parsed (js ''skip_retry'') \<noteq> JBool False),
           re_simpleMode = False\<rparr>)))))"

definition parseReturnErrorDraft :: "jstring \<Rightarrow> return_error_draft" where
  "parseReturnErrorDraft valueText =
     (let raw = trim valueText; plain = re_defaults\<lparr>re_message := raw, re_simpleMode := True\<rparr> in
      if raw = [] then re_defaults
      else (case json_parse raw of
              Some (JObj parsed) \<Rightarrow> (case return_error_of parsed of Inr d \<Rightarrow> d | Inl _ \<Rightarrow> plain)
            | _ \<Rightarrow> plain))"

definition return_error_payload :: "return_error_draft \<Rightarrow> jsobj" where
  "return_error_payload draft =
     (let message = trim (re_message draft);
          statusCode = re_statusCode draft;
          code = trim (re_code draft);
          type = trim (re_type draft);
          p0 = [(js ''message'', JStr message),
                (js ''status_code'', JNum (if valid_status statusCode then statusCode else Num 400))];
          p1 = (if code \<noteq> [] then obj_set (js ''code'') (JStr code) p0 else p0);
          p2 = (if type \<noteq> [] then obj_set (js ''type'') (JStr type) p1 else p1)
      in if re_skipRetry draft = False then obj_set (js ''skip_retry'') (JBool False) p2 else p2)"

definition buildReturnErrorValueText :: "return_error_draft \<Rightarrow> jstring" where
  "buildReturnErrorValueText draft =
     (if re_simpleMode draft then trim (re_message draft)
      else json_str (JObj (return_error_payload draft)))"

subsection \<open>The prune\_objects draft\<close>

datatype logic = L_AND | L_OR

fun logic_value :: "logic \<Rightarrow> jstring" where
  "logic_value L_AND = js ''AND''"
| "logic_value L_OR = js ''OR''"

text \<open>A prune rule and a condition of an operation have the same fields.\<close>

record condition =
  c_id :: jstring
  c_path :: jstring
  c_mode :: cond_mode
  c_value_text :: jstring
  c_invert :: bool
  c_pass_missing_key :: bool

record prune_draft =
  pd_simpleMode :: bool
  pd_typeText :: jstring
  pd_logic :: logic
  pd_recursive :: bool
  pd_rules :: "condition list"

definition pd_defaults :: prune_draft where
  "pd_defaults = \<lparr>pd_simpleMode = True, pd_typeText = [], pd_logic = L_AND, pd_recursive = True, pd_rules = []\<rparr>"

definition string_or_empty :: "jsval \<Rightarrow> jstring" where
  "string_or_empty v = (case v of JStr s \<Rightarrow> s | _ \<Rightarrow> [])"

definition cond_mode_or_full :: "jsval \<Rightarrow> cond_mode" where
  "cond_mode_or_full v = (case v of JStr s \<Rightarrow> (case cond_mode_of s of Some m \<Rightarrow> m | None \<Rightarrow> C_full) | _ \<Rightarrow> C_full)"

text \<open>
  The object literal of \<open>normalizePruneRule\<close>; the id is drawn before the fields are read, and reading
  a field of null or undefined throws.
\<close>

definition normalizePruneRule :: "clock \<Rightarrow> jsval \<Rightarrow> condition idm" where
  "normalizePruneRule clk rule =
     ibind (nextLocalId clk) (\<lambda>id.
     ibind (ilift (get_prop rule (js ''path''))) (\<lambda>path.
     ibind (ilift (get_prop rule (js ''mode''))) (\<lambda>mode.
     ibind (ilift (get_prop rule (js ''value''))) (\<lambda>value.
     ibind (ilift (get_prop rule (js ''invert''))) (\<lambda>invert.
     ibind (ilift (get_prop rule (js ''pass_missing_key''))) (\<lambda>pmk.
     ireturn \<lparr>c_id = id, c_path = string_or_empty path, c_mode = cond_mode_or_full mode,
              c_value_text = toValueText value, c_invert = (invert = JBool True),
              c_pass_missing_key = (pmk = JBool True)\<rparr>))))))"

text \<open>The rule object that an entry of \<open>where\<close> (or of a \<open>conditions\<close> object) stands for.\<close>

definition entry_rule :: "jstring \<times> jsval \<Rightarrow> jsval" where
  "entry_rule kv = JObj [(js ''path'', JStr (fst kv)), (js ''mode'', JStr (js ''full'')), (js ''value'', snd kv)]"

definition is_object :: "jsval \<Rightarrow> bool" where
  "is_object v = (case v of JObj _ \<Rightarrow> True | JArr _ \<Rightarrow> True | _ \<Rightarrow> False)"

text \<open>The rule objects of a parsed draft: \<open>where\<close> first, then \<open>conditions\<close>.\<close>

definition where_rules :: "jsval \<Rightarrow> jsval list" where
  "where_rules v = (case v of JObj ob \<Rightarrow> map entry_rule ob | _ \<Rightarrow> [])"

definition condition_rules :: "jsval \<Rightarrow> jsval list" where
  "condition_rules v = (case v of
       JArr items \<Rightarrow> filter is_object items
     | JObj ob \<Rightarrow> map entry_rule ob
     | _ \<Rightarrow> [])"

definition prune_of :: "clock \<Rightarrow> jsobj \<Rightarrow> prune_draft idm" where
  "prune_of clk parsed =
     ibind (imap (normalizePruneRule clk) (where_rules (get_own parsed (js ''where'')))) (\<lambda>rules1.
     ibind (imap (normalizePruneRule clk) (condition_rules (get_own parsed (js ''conditions'')))) (\<lambda>rules2.
     ibind (ilift (if get_own parsed (js ''type'') = JUndef then Inr []
                   else rbind (js_String (get_own parsed (js ''type''))) (\<lambda>s. Inr (trim s)))) (\<lambda>typeText.
     ibind (ilift (js_String (js_or (get_own parsed (js ''logic'')) (JStr (js ''AND''))))) (\<lambda>logicText.
     ireturn \<lparr>pd_simpleMode =
                \<not> (get_own parsed (js ''logic'') \<noteq> JUndef \<or> get_own parsed (js ''recursive'') \<noteq> JUndef \<or>
                   get_own parsed (js ''where'') \<noteq> JUndef \<or> get_own parsed (js ''conditions'') \<noteq> JUndef),
              pd_typeText = typeText,
              pd_logic = (if to_upper logicText = js ''OR'' then L_OR else L_AND),
              pd_recursive = (get_own parsed (js ''recursive'') \<noteq> JBool False),
              pd_rules = rules1 @ rules2\<rparr>))))"

definition icatch :: "'a idm \<Rightarrow> 'a \<Rightarrow> 'a idm" where
  "icatch m a = (\<lambda>seed. case m seed of (Inl e, seed') \<Rightarrow> (Inr a, seed') | r \<Rightarrow> r)"

definition parsePruneObjectsDraft :: "clock \<Rightarrow> jstring \<Rightarrow> prune_draft idm" where
  "parsePruneObjectsDraft clk valueText =
     (let raw = trim valueText; plain = pd_defaults\<lparr>pd_simpleMode := True, pd_typeText := raw\<rparr> in
      if raw = [] then ireturn pd_defaults
      else icatch
        (case json_parse raw of
           None \<Rightarrow> ireturn plain
         | Some (JStr s) \<Rightarrow> ireturn (pd_defaults\<lparr>pd_simpleMode := True, pd_typeText := trim s\<rparr>)
         | Some (JObj parsed) \<Rightarrow> prune_of clk parsed
         | Some v \<Rightarrow> ibind (ilift (trim_string v)) (\<lambda>s.
                      ireturn (pd_defaults\<lparr>pd_simpleMode := True, pd_typeText := s\<rparr>)))
        plain)"

definition prune_condition_payload :: "condition \<Rightarrow> jsval" where
  "prune_condition_payload rule =
     (let p0 = [(js ''path'', JStr (trim (c_path rule))), (js ''mode'', JStr (cond_mode_value (c_mode rule)))];
          valueRaw = trim (c_value_text rule);
          p1 = (if valueRaw \<noteq> [] then obj_set (js ''value'') (parseLooseValue valueRaw) p0 else p0);
          p2 = (if c_invert rule then obj_set (js ''invert'') (JBool True) p1 else p1)
      in JObj (if c_pass_missing_key rule then obj_set (js ''pass_missing_key'') (JBool True) p2 else p2))"

definition buildPruneObjectsValueText :: "prune_draft \<Rightarrow> jstring" where
  "buildPruneObjectsValueText draft =
     (let typeText = trim (pd_typeText draft) in
      if pd_simpleMode draft then typeText
      else
        (let p0 = (if typeText \<noteq> [] then obj_set (js ''type'') (JStr typeText) [] else []);
             p1 = (if pd_logic draft = L_OR then obj_set (js ''logic'') (JStr (js ''OR'')) p0 else p0);
             p2 = (if pd_recursive draft = False then obj_set (js ''recursive'') (JBool False) p1 else p1);
             conditions = map prune_condition_payload (filter (\<lambda>rule. trim (c_path rule) \<noteq> []) (pd_rules draft));
             payload = (if conditions \<noteq> [] then obj_set (js ''conditions'') (JArr conditions) p2 else p2)
         in if \<not> truthy (get_own payload (js ''type'')) \<and> \<not> truthy (get_own payload (js ''conditions''))
            then json_str (JObj [(js ''logic'', JStr (js ''AND''))])
            else json_str (JObj payload)))"

subsection \<open>Sync targets\<close>

definition parseSyncTargetSpec :: "jstring \<Rightarrow> sync_type \<times> jstring" where
  "parseSyncTargetSpec spec =
     (let raw = trim spec in
      if raw = [] then (S_json, [])
      else (case find_index (\<lambda>c. c = 58) raw of
              None \<Rightarrow> (S_json, raw)
            | Some idx \<Rightarrow>
                let prefix = to_lower (trim (take idx raw)); key = trim (drop (idx + 1) raw) in
                if prefix = js ''header'' then (S_header, key) else (S_json, key)))"

definition buildSyncTargetSpec :: "sync_type \<Rightarrow> jstring \<Rightarrow> jstring" where
  "buildSyncTargetSpec type key =
     (let normalizedType = (if type = S_header then js ''header'' else js ''json'');
          normalizedKey = trim key in
      if normalizedKey = [] then [] else normalizedType @ [58] @ normalizedKey)"

subsection \<open>Value texts read back\<close>

lemma parseLooseValue_readable: "json_readable (parseLooseValue raw)"
  by (auto simp: parseLooseValue_def json_parse_readable split: option.splits)

text \<open>The strings that stay strings when they are shown as a value text and read again.\<close>

definition loose_stable :: "jsval \<Rightarrow> bool" where
  "loose_stable v = (case v of JStr s \<Rightarrow> parseLooseValue s = JStr s | _ \<Rightarrow> True)"

lemma json_str_not_blank: "json_readable v \<Longrightarrow> trim (json_str v) \<noteq> []"
proof (cases v)
  case (JNum n)
  assume r: "json_readable v"
  show ?thesis
  proof (cases n)
    case (Num x)
    obtain c where "c \<in> set (num_to_string (Num x))"
      using num_to_string_not_Nil [of x] r JNum Num by (cases "num_to_string (Num x)") auto
    then show ?thesis
      using JNum Num num_to_string_chars num_char_not_ws by (auto simp: num_finite_def trim_eq_Nil_iff)
  qed (simp_all add: JNum num_finite_def trim_eq_Nil_iff js_def is_ws_def)
qed (auto simp: trim_eq_Nil_iff js_def is_ws_def quote_def)

theorem loose_value_roundtrip:
  assumes "json_readable v" and "loose_stable v"
  shows "parseLooseValue (toValueText v) = json_nf v"
proof (cases v)
  case (JStr s)
  then show ?thesis using assms(2) by (simp add: toValueText_def loose_stable_def)
qed (use assms json_str_not_blank [of v] compact.dec_enc_norm [OF assms(1)]
      in \<open>auto simp: toValueText_def parseLooseValue_def\<close>)

text \<open>A value text other than a quoted string reads as a stable value.\<close>

lemma parseLooseValue_stable:
  assumes "\<And>s. json_parse raw \<noteq> Some (JStr s)"
  shows "loose_stable (parseLooseValue raw)"
  using assms by (auto simp: loose_stable_def parseLooseValue_def split: option.splits jsval.splits)

lemma loose_stable_nf: "loose_stable v \<Longrightarrow> loose_stable (json_nf v)"
  by (cases v) (auto simp: loose_stable_def)

subsection \<open>Trimmed object texts\<close>

lemma trim_json_obj [simp]: "trim (json_str (JObj ob)) = json_str (JObj ob)"
  by (rule trim_trimmed) (simp add: trimmed_def is_ws_def)

lemma json_str_obj_not_Nil [simp]: "json_str (JObj ob) \<noteq> []"
  by simp

lemma json_parse_obj: "json_wf (JObj ob) \<Longrightarrow> json_parse (json_str (JObj ob)) = Some (JObj ob)"
  by (rule compact.dec_enc)

declare json_str.simps(7) [simp del]

subsection \<open>The return\_error draft read back\<close>

definition re_wf :: "return_error_draft \<Rightarrow> bool" where
  "re_wf d \<longleftrightarrow> trimmed (re_message d) \<and> trimmed (re_code d) \<and> trimmed (re_type d) \<and> valid_status (re_statusCode d)
     \<and> \<not> re_simpleMode d"

lemma valid_status_wf: "valid_status n \<Longrightarrow> json_wf (JNum n)"
proof (cases n)
  case (Num r)
  assume v: "valid_status n"
  then obtain i where i: "r = of_int i" and b: "100 \<le> r" "r \<le> 599"
    by (auto simp: valid_status_def num_is_integer_def Num)
  then have "100 \<le> i" "i \<le> 599" by simp_all
  then have "r = of_nat (nat i)" "nat i \<le> 2 ^ 53" using i by simp_all
  then show ?thesis using is_double_of_nat [of "nat i"] by (simp add: Num)
qed (simp_all add: valid_status_def num_is_integer_def)

lemma valid_status_400 [simp]: "valid_status (Num 400)"
  by (simp add: valid_status_def num_is_integer_def)

lemma trim_truthy_simps [simp]: "trim_truthy (JStr s) = Inr (trim s)" "trim_truthy JUndef = Inr []"
  by (simp_all add: trim_truthy_def js_or_def)

lemma get_own_Cons [simp]: "get_own ((k', v) # ob) k = (if k' = k then v else get_own ob k)"
  by (simp add: get_own_def)

lemma get_own_Nil [simp]: "get_own [] k = JUndef"
  by (simp add: get_own_def)

lemma json_wf_Nil [simp]: "json_wf (JObj [])"
  by simp

lemma json_wf_obj_set [simp]:
  "json_wf (JObj ob) \<Longrightarrow> json_wf v \<Longrightarrow> json_wf (JObj (obj_set k v ob))"
  by (rule json_wf_set)

lemma json_wf_if_set:
  "json_wf (JObj ob) \<Longrightarrow> json_wf v \<Longrightarrow> json_wf (JObj (if b then obj_set k v ob else ob))"
  by (simp del: json_wf.simps)

lemma return_error_payload_wf: "json_wf (JObj (return_error_payload d))"
proof -
  let ?s = "JNum (if valid_status (re_statusCode d) then re_statusCode d else Num 400)"
  have "json_wf ?s" using valid_status_wf valid_status_400 by simp
  then have "json_wf (JObj [(js ''message'', JStr m), (js ''status_code'', ?s)])" for m
    by (simp add: obj_canon_names is_digit_def del: json_wf.simps(4))
  then show ?thesis
    unfolding return_error_payload_def Let_def by (intro json_wf_if_set) simp_all
qed

lemma return_error_of_payload:
  "return_error_of (return_error_payload d) = Inr
     \<lparr>re_message = trim (re_message d),
      re_statusCode = (if valid_status (re_statusCode d) then re_statusCode d else Num 400),
      re_code = trim (re_code d), re_type = trim (re_type d),
      re_skipRetry = re_skipRetry d, re_simpleMode = False\<rparr>"
  by (cases "trim (re_message d) = []")
     (simp_all add: return_error_of_def return_error_payload_def Let_def js_or_def)

text \<open>What an edit of an advanced draft leaves: the texts trimmed, an invalid status replaced by 400.\<close>

lemma parse_build_return_error:
  assumes "\<not> re_simpleMode d"
  shows "parseReturnErrorDraft (buildReturnErrorValueText d) =
    d\<lparr>re_message := trim (re_message d), re_code := trim (re_code d), re_type := trim (re_type d),
      re_statusCode := (if valid_status (re_statusCode d) then re_statusCode d else Num 400)\<rparr>"
  using assms
  by (simp add: parseReturnErrorDraft_def buildReturnErrorValueText_def Let_def
      json_parse_obj [OF return_error_payload_wf] return_error_of_payload)

interpretation return_error: codec buildReturnErrorValueText "\<lambda>t. Some (parseReturnErrorDraft t)" re_wf
  by unfold_locales (simp add: re_wf_def parse_build_return_error trim_trimmed)

lemma return_error_of_wf: "return_error_of ob = Inr d \<Longrightarrow> re_wf d"
  by (auto simp: return_error_of_def Let_def rbind_Inr_iff trim_truthy_def re_wf_def)

lemma parseReturnErrorDraft_cases:
  "re_wf (parseReturnErrorDraft t) \<or> buildReturnErrorValueText (parseReturnErrorDraft t) = trim t"
  by (auto simp: parseReturnErrorDraft_def Let_def buildReturnErrorValueText_def re_defaults_def
      dest: return_error_of_wf split: option.splits jsval.splits sum.splits)

lemma parseReturnErrorDraft_trim: "parseReturnErrorDraft (trim t) = parseReturnErrorDraft t"
  by (simp add: parseReturnErrorDraft_def)

text \<open>
  Showing the custom-error form of a value text and writing it back is stable: the text that
  the form prints is shown as the very same form again, for every value text.
\<close>

theorem return_error_draft_stable:
  "parseReturnErrorDraft (buildReturnErrorValueText (parseReturnErrorDraft t)) = parseReturnErrorDraft t"
  using parseReturnErrorDraft_cases [of t] return_error.dec_enc parseReturnErrorDraft_trim by auto

text \<open>
  Every edit of the error message loses the white space at its ends: in either mode the form
  shows a typed message \<open>m\<close> exactly as it shows the trimmed \<open>m\<close>, so a message that is typed key by
  key never keeps a blank between two words.
\<close>

theorem return_error_message_trimmed:
  "parseReturnErrorDraft (buildReturnErrorValueText (d\<lparr>re_message := m\<rparr>)) =
   parseReturnErrorDraft (buildReturnErrorValueText (d\<lparr>re_message := trim m\<rparr>))"
  by (simp add: buildReturnErrorValueText_def return_error_payload_def)

subsection \<open>Sync targets read back\<close>

lemma find_index_append_sep: "c \<notin> set a \<Longrightarrow> find_index (\<lambda>x. x = c) (a @ c # b) = Some (length a)"
  by (induction a) auto

lemma parse_prefixed_spec:
  assumes "w \<noteq> []" "58 \<notin> set w" "trimmed w" "trimmed k" "k \<noteq> []"
  shows "parseSyncTargetSpec (w @ 58 # k) = (if to_lower w = js ''header'' then S_header else S_json, k)"
proof -
  have t: "trim (w @ 58 # k) = w @ 58 # k"
    using assms by (intro trim_trimmed) (auto simp: trimmed_def)
  have i: "find_index (\<lambda>c. c = 58) (w @ 58 # k) = Some (length w)"
    using assms(2) by (rule find_index_append_sep)
  show ?thesis
    using assms(3,4) by (simp add: parseSyncTargetSpec_def t i trim_trimmed)
qed

text \<open>
  A sync end point survives the form: printing a type and a key and parsing the text gives the
  type and the trimmed key; a blank key is no end point.
\<close>

theorem sync_target_roundtrip:
  "parseSyncTargetSpec (buildSyncTargetSpec type key) = (if trim key = [] then (S_json, []) else (type, trim key))"
proof (cases "trim key = []")
  case True
  then show ?thesis by (simp add: buildSyncTargetSpec_def parseSyncTargetSpec_def)
next
  case False
  note p = parse_prefixed_spec [OF _ _ _ trimmed_trim False]
  have "parseSyncTargetSpec (js ''header'' @ 58 # trim key) = (S_header, trim key)"
    "parseSyncTargetSpec (js ''json'' @ 58 # trim key) = (S_json, trim key)"
    using p [of "js ''header''"] p [of "js ''json''"]
    by (simp_all add: js_def trimmed_def is_ws_def to_lower_def lower_unit_def)
  then show ?thesis using False by (cases type) (simp_all add: buildSyncTargetSpec_def)
qed

subsection \<open>The prune\_objects draft read back\<close>

text \<open>The fields that \<open>normalizePruneRule\<close> reads from an object; \<open>None\<close> for null and undefined.\<close>

definition rule_fields :: "jsval \<Rightarrow> jstring \<Rightarrow> condition" where
  "rule_fields v i =
     (let f = (\<lambda>k. case get_prop v k of Inr x \<Rightarrow> x | Inl _ \<Rightarrow> JUndef) in
      \<lparr>c_id = i, c_path = string_or_empty (f (js ''path'')), c_mode = cond_mode_or_full (f (js ''mode'')),
       c_value_text = toValueText (f (js ''value'')), c_invert = (f (js ''invert'') = JBool True),
       c_pass_missing_key = (f (js ''pass_missing_key'') = JBool True)\<rparr>)"

lemma get_prop_Inr: "\<not> nullish v \<Longrightarrow> \<exists>x. get_prop v k = Inr x"
  by (cases v) (auto simp: get_prop_def nullish_def split: option.splits)

lemma normalizePruneRule_object:
  assumes "\<not> nullish v"
  shows "normalizePruneRule clk v s = (Inr (rule_fields v (local_id clk s)), Suc s)"
proof -
  obtain f where "\<And>k. get_prop v k = Inr (f k)" using get_prop_Inr [OF assms] by metis
  then show ?thesis by (simp add: normalizePruneRule_def rule_fields_def)
qed

lemma normalizePruneRule_null: "nullish v \<Longrightarrow> normalizePruneRule clk v s = (Inl TypeError, Suc s)"
  by (auto simp: normalizePruneRule_def nullish_def get_prop_def ibind_def)

text \<open>Consecutive ids for the elements of a list.\<close>

definition with_ids :: "clock \<Rightarrow> nat \<Rightarrow> (jsval \<Rightarrow> jstring \<Rightarrow> 'a) \<Rightarrow> jsval list \<Rightarrow> 'a list" where
  "with_ids clk s f vs = map2 f vs (map (local_id clk) [s..<s + length vs])"

lemma with_ids_Nil [simp]: "with_ids clk s f [] = []"
  by (simp add: with_ids_def)

lemma with_ids_Cons: "with_ids clk s f (v # vs) = f v (local_id clk s) # with_ids clk (Suc s) f vs"
  by (simp add: with_ids_def upt_rec)

lemma imap_normalizePruneRule:
  "list_all (\<lambda>v. \<not> nullish v) vs \<Longrightarrow>
   imap (normalizePruneRule clk) vs s = (Inr (with_ids clk s rule_fields vs), s + length vs)"
proof (induction vs arbitrary: s)
  case (Cons v vs)
  then show ?case by (simp add: ibind_def normalizePruneRule_object with_ids_Cons)
qed simp

lemma get_own_nf: "get_own (map (\<lambda>kv. (fst kv, json_nf (snd kv))) ob) k = json_nf (get_own ob k)"
  by (induction ob) (auto simp: get_own_def)

text \<open>A rule as it is shown again after it was printed: normalised, under a new id.\<close>

definition reread_rule :: "condition \<Rightarrow> jstring \<Rightarrow> condition" where
  "reread_rule rule i = rule\<lparr>c_id := i, c_path := trim (c_path rule),
     c_value_text := (if trim (c_value_text rule) = [] then []
                      else toValueText (json_nf (parseLooseValue (trim (c_value_text rule)))))\<rparr>"

lemma cond_mode_or_full_value [simp]: "cond_mode_or_full (JStr (cond_mode_value m)) = m"
  by (simp add: cond_mode_or_full_def)

lemma toValueText_simps [simp]: "toValueText JUndef = []" "toValueText (JStr s) = s"
  by (simp_all add: toValueText_def)

lemma rule_fields_payload: "rule_fields (json_nf (prune_condition_payload r)) i = reread_rule r i"
  by (simp add: rule_fields_def prune_condition_payload_def Let_def get_prop_def get_own_nf string_or_empty_def
      reread_rule_def del: json_nf.simps(1))

definition kept_rules :: "prune_draft \<Rightarrow> condition list" where
  "kept_rules d = filter (\<lambda>rule. trim (c_path rule) \<noteq> []) (pd_rules d)"

definition prune_payload :: "prune_draft \<Rightarrow> jsobj" where
  "prune_payload d =
     (let typeText = trim (pd_typeText d);
          p0 = (if typeText \<noteq> [] then obj_set (js ''type'') (JStr typeText) [] else []);
          p1 = (if pd_logic d = L_OR then obj_set (js ''logic'') (JStr (js ''OR'')) p0 else p0);
          p2 = (if pd_recursive d = False then obj_set (js ''recursive'') (JBool False) p1 else p1);
          conditions = map prune_condition_payload (kept_rules d)
      in if conditions \<noteq> [] then obj_set (js ''conditions'') (JArr conditions) p2 else p2)"

lemma get_prune_payload:
  "get_own (prune_payload d) (js ''type'') = (if trim (pd_typeText d) = [] then JUndef else JStr (trim (pd_typeText d)))"
  "get_own (prune_payload d) (js ''logic'') = (if pd_logic d = L_OR then JStr (js ''OR'') else JUndef)"
  "get_own (prune_payload d) (js ''recursive'') = (if pd_recursive d then JUndef else JBool False)"
  "get_own (prune_payload d) (js ''conditions'') =
     (if kept_rules d = [] then JUndef else JArr (map prune_condition_payload (kept_rules d)))"
  "get_own (prune_payload d) (js ''where'') = JUndef"
  by (simp_all add: prune_payload_def Let_def)

lemma build_prune:
  "buildPruneObjectsValueText d =
     (if pd_simpleMode d then trim (pd_typeText d)
      else if trim (pd_typeText d) = [] \<and> kept_rules d = [] then json_str (JObj [(js ''logic'', JStr (js ''AND''))])
      else json_str (JObj (prune_payload d)))"
proof -
  have "buildPruneObjectsValueText d =
     (if pd_simpleMode d then trim (pd_typeText d)
      else if \<not> truthy (get_own (prune_payload d) (js ''type'')) \<and> \<not> truthy (get_own (prune_payload d) (js ''conditions''))
      then json_str (JObj [(js ''logic'', JStr (js ''AND''))])
      else json_str (JObj (prune_payload d)))"
    by (simp add: buildPruneObjectsValueText_def Let_def prune_payload_def kept_rules_def)
  then show ?thesis by (simp add: get_prune_payload)
qed

lemma json_readable_if_set:
  "json_readable (JObj ob) \<Longrightarrow> json_readable v \<Longrightarrow> json_readable (JObj (if b then obj_set k v ob else ob))"
  using json_readable_set by simp

lemma prune_condition_readable: "json_readable (prune_condition_payload r)"
  unfolding prune_condition_payload_def Let_def
  by (intro json_readable_if_set parseLooseValue_readable)
     (simp_all add: obj_canon_names is_digit_def)

lemma prune_payload_readable: "json_readable (JObj (prune_payload d))"
  unfolding prune_payload_def Let_def
  by (intro json_readable_if_set) (auto simp: prune_condition_readable)

lemma json_parse_readable_obj:
  "json_readable (JObj ob) \<Longrightarrow>
   json_parse (json_str (JObj ob)) = Some (JObj (map (\<lambda>kv. (fst kv, json_nf (snd kv))) ob))"
  using compact.dec_enc_norm [of "JObj ob"] by simp

lemma to_upper_logic [simp]: "to_upper (js ''OR'') = js ''OR''" "to_upper (js ''AND'') = js ''AND''"
  by (simp_all add: to_upper_def upper_unit_def js_def)

lemma is_object_nf [simp]: "is_object (json_nf (prune_condition_payload r))"
  by (simp add: prune_condition_payload_def Let_def is_object_def)

lemma with_ids_map: "with_ids clk s f (map g xs) = map2 (\<lambda>x. f (g x)) xs (map (local_id clk) [s..<s + length xs])"
  by (simp add: with_ids_def map_zip_map map2_map_map)

lemma prune_of_payload:
  "prune_of clk (map (\<lambda>kv. (fst kv, json_nf (snd kv))) (prune_payload d)) s =
     (Inr \<lparr>pd_simpleMode = (pd_logic d = L_AND \<and> pd_recursive d \<and> kept_rules d = []),
           pd_typeText = trim (pd_typeText d), pd_logic = pd_logic d, pd_recursive = pd_recursive d,
           pd_rules = map2 reread_rule (kept_rules d) (map (local_id clk) [s..<s + length (kept_rules d)])\<rparr>,
      s + length (kept_rules d))"
proof -
  let ?cs = "map (json_nf \<circ> prune_condition_payload) (kept_rules d)"
  have o: "is_object v \<Longrightarrow> \<not> nullish v" for v by (auto simp: is_object_def nullish_def)
  have c: "condition_rules (json_nf (get_own (prune_payload d) (js ''conditions''))) = ?cs"
    by (auto simp: get_prune_payload condition_rules_def intro!: filter_True)
  have "list_all (\<lambda>v. \<not> nullish v) ?cs" using o by (auto simp: list_all_iff)
  from imap_normalizePruneRule [OF this]
  have i: "imap (normalizePruneRule clk) ?cs s =
      (Inr (map2 reread_rule (kept_rules d) (map (local_id clk) [s..<s + length (kept_rules d)])), s + length (kept_rules d))"
    by (simp add: with_ids_map rule_fields_payload comp_def del: json_nf.simps)
  show ?thesis
    unfolding prune_of_def get_own_nf c
    by (cases "pd_logic d") (simp_all add: get_prune_payload where_rules_def ibind_def i js_or_def)
qed

text \<open>
  Printing an advanced pruning draft and parsing the text gives the draft back, with its texts
  trimmed, the rules without a path dropped, the values of the others normalised and new ids drawn
  for them, and the counter advanced by the number of rules kept. The draft stays in advanced mode
  exactly when it has something a plain type text cannot say (a rule, OR, or no recursion); a draft
  without a type and without rules is printed as the constant object with logic AND.
\<close>

theorem prune_draft_roundtrip:
  "parsePruneObjectsDraft clk (buildPruneObjectsValueText (d\<lparr>pd_simpleMode := False\<rparr>)) s =
    (if trim (pd_typeText d) = [] \<and> kept_rules d = []
     then (Inr (pd_defaults\<lparr>pd_simpleMode := False\<rparr>), s)
     else (Inr \<lparr>pd_simpleMode = (pd_logic d = L_AND \<and> pd_recursive d \<and> kept_rules d = []),
             pd_typeText = trim (pd_typeText d), pd_logic = pd_logic d, pd_recursive = pd_recursive d,
             pd_rules = map2 reread_rule (kept_rules d) (map (local_id clk) [s..<s + length (kept_rules d)])\<rparr>,
        s + length (kept_rules d)))"
proof (cases "trim (pd_typeText d) = [] \<and> kept_rules d = []")
  case True
  have w: "json_wf (JObj [(js ''logic'', JStr (js ''AND''))])" by (simp add: obj_canon_def)
  from True have "kept_rules (d\<lparr>pd_simpleMode := False\<rparr>) = []" by (simp add: kept_rules_def)
  with True show ?thesis
    by (simp add: build_prune parsePruneObjectsDraft_def json_parse_obj [OF w] icatch_def prune_of_def
        where_rules_def condition_rules_def js_or_def pd_defaults_def)
next
  case False
  let ?d = "d\<lparr>pd_simpleMode := False\<rparr>"
  have k: "kept_rules ?d = kept_rules d" by (simp add: kept_rules_def)
  from False show ?thesis
    using json_parse_readable_obj [OF prune_payload_readable, of ?d] prune_of_payload [of clk ?d s]
    by (auto simp: build_prune k parsePruneObjectsDraft_def icatch_def)
qed

end
