(* ===== verification/ParamOverrideOperations.thy ===== *)
theory ParamOverrideOperations
  imports ParamOverrideDrafts
begin

text \<open>
  The operations that \<open>ParamOverrideEditorModal.jsx\<close> edits: reading them from JSON
  (\<open>normalizeOperation\<close>, \<open>parseInitialState\<close>), reordering, validating and printing them
  (\<open>validateOperations\<close>, \<open>buildOperationsJson\<close>). The translation function \<open>t\<close> of react-i18next is a
  parameter.
\<close>

subsection \<open>Data\<close>

record operation =
  op_id :: jstring
  op_description :: jstring
  op_path :: jstring
  op_mode :: op_mode
  op_value_text :: jstring
  op_keep_origin :: bool
  op_from :: jstring
  op_to :: jstring
  op_logic :: logic
  op_conditions :: "condition list"

text \<open>The object literal of \<open>normalizeCondition\<close> is that of \<open>normalizePruneRule\<close>.\<close>

definition normalizeCondition :: "clock \<Rightarrow> jsval \<Rightarrow> condition idm" where
  "normalizeCondition clk cond = normalizePruneRule clk cond"

definition createDefaultCondition :: "clock \<Rightarrow> condition idm" where
  "createDefaultCondition clk = normalizeCondition clk (JObj [])"

definition op_mode_or_set :: "jsval \<Rightarrow> op_mode" where
  "op_mode_or_set v = (case v of JStr s \<Rightarrow> (case op_mode_of s of Some m \<Rightarrow> m | None \<Rightarrow> M_set) | _ \<Rightarrow> M_set)"

definition normalizeOperation :: "clock \<Rightarrow> jsval \<Rightarrow> operation idm" where
  "normalizeOperation clk oper =
     ibind (nextLocalId clk) (\<lambda>id.
     ibind (ilift (get_prop oper (js ''description''))) (\<lambda>description.
     ibind (ilift (get_prop oper (js ''path''))) (\<lambda>path.
     ibind (ilift (get_prop oper (js ''mode''))) (\<lambda>mode.
     ibind (ilift (get_prop oper (js ''value''))) (\<lambda>value.
     ibind (ilift (get_prop oper (js ''keep_origin''))) (\<lambda>keep_origin.
     ibind (ilift (get_prop oper (js ''from''))) (\<lambda>from.
     ibind (ilift (get_prop oper (js ''to''))) (\<lambda>to.
     ibind (ilift (rbind (get_prop oper (js ''logic'')) (\<lambda>l. js_String (js_or l (JStr (js ''OR'')))))) (\<lambda>logic.
     ibind (ilift (get_prop oper (js ''conditions''))) (\<lambda>conds.
     ibind (case conds of JArr items \<Rightarrow> imap (normalizeCondition clk) items | _ \<Rightarrow> ireturn []) (\<lambda>conditions.
     ireturn \<lparr>op_id = id, op_description = string_or_empty description, op_path = string_or_empty path,
              op_mode = op_mode_or_set mode, op_value_text = toValueText value,
              op_keep_origin = (keep_origin = JBool True), op_from = string_or_empty from, op_to = string_or_empty to,
              op_logic = (if to_upper logic = js ''AND'' then L_AND else L_OR),
              op_conditions = conditions\<rparr>)))))))))))"

definition createDefaultOperation :: "clock \<Rightarrow> operation idm" where
  "createDefaultOperation clk = normalizeOperation clk (JObj [(js ''mode'', JStr (js ''set''))])"

subsection \<open>Reordering\<close>

datatype position = Before | After

definition reorderOperations :: "operation list \<Rightarrow> jstring \<Rightarrow> jstring \<Rightarrow> position \<Rightarrow> operation list" where
  "reorderOperations sourceOperations sourceId targetId position =
     (if sourceId = [] \<or> targetId = [] \<or> sourceId = targetId then sourceOperations
      else (case find_index (\<lambda>item. op_id item = sourceId) sourceOperations of
              None \<Rightarrow> sourceOperations
            | Some sourceIndex \<Rightarrow>
                let moved = sourceOperations ! sourceIndex;
                    nextOperations = remove_at sourceIndex sourceOperations in
                (case find_index (\<lambda>item. op_id item = targetId) nextOperations of
                   None \<Rightarrow> sourceOperations
                 | Some insertIndex \<Rightarrow>
                     insert_at (if position = After then insertIndex + 1 else insertIndex) moved nextOperations)))"

subsection \<open>Display\<close>

definition first_of :: "jstring list \<Rightarrow> jstring" where
  "first_of xs = (case filter (\<lambda>s. s \<noteq> []) xs of [] \<Rightarrow> [45] | s # _ \<Rightarrow> s)"

definition getOperationSummary :: "operation \<Rightarrow> nat \<Rightarrow> jstring" where
  "getOperationSummary oper index =
     (let mode = op_mode oper;
          modeLabel = (case OPERATION_MODE_LABEL_MAP mode of Some l \<Rightarrow> l | None \<Rightarrow> op_mode_value mode);
          path = trim (op_path oper); from = trim (op_from oper); to = trim (op_to oper) in
      dec (index + 1) @ js ''. '' @ modeLabel @ [32, 183, 32] @
      (if mode = M_sync_fields then first_of [from, to] else first_of [path, from, to]))"

definition getOperationModeTagColor :: "op_mode \<Rightarrow> jstring" where
  "getOperationModeTagColor mode =
     (let m = op_mode_value mode in
      if str_includes m (js ''header'') then js ''cyan''
      else if str_includes m (js ''replace'') \<or> str_includes m (js ''trim'') then js ''violet''
      else if str_includes m (js ''copy'') \<or> str_includes m (js ''move'') then js ''blue''
      else if str_includes m (js ''error'') \<or> str_includes m (js ''prune'') then js ''red''
      else if str_includes m (js ''sync'') then js ''green''
      else js ''grey'')"

subsection \<open>Messages\<close>

definition MSG_missing_path :: jstring where
  "MSG_missing_path = [0x7B2C] @ js '' {{line}} '' @ [0x6761, 0x64CD, 0x4F5C, 0x7F3A, 0x5C11, 0x76EE, 0x6807, 0x8DEF, 0x5F84]"

definition MSG_missing_from :: jstring where
  "MSG_missing_from = [0x7B2C] @ js '' {{line}} '' @ [0x6761, 0x64CD, 0x4F5C, 0x7F3A, 0x5C11, 0x6765, 0x6E90, 0x5B57, 0x6BB5]"

definition MSG_missing_to :: jstring where
  "MSG_missing_to = [0x7B2C] @ js '' {{line}} '' @ [0x6761, 0x64CD, 0x4F5C, 0x7F3A, 0x5C11, 0x76EE, 0x6807, 0x5B57, 0x6BB5]"

definition MSG_missing_value :: jstring where
  "MSG_missing_value = [0x7B2C] @ js '' {{line}} '' @ [0x6761, 0x64CD, 0x4F5C, 0x7F3A, 0x5C11, 0x503C]"

definition MSG_error_message :: jstring where
  "MSG_error_message = [0x7B2C] @ js '' {{line}} '' @ [0x6761] @ js '' return_error '' @ [0x9700, 0x8981] @ js '' message '' @ [0x5B57, 0x6BB5]"

definition MSG_prune_empty :: jstring where
  "MSG_prune_empty = [0x7B2C] @ js '' {{line}} '' @ [0x6761] @ js '' prune_objects '' @ [0x7F3A, 0x5C11, 0x6761, 0x4EF6]"

definition MSG_prune_condition :: jstring where
  "MSG_prune_condition = [0x7B2C] @ js '' {{line}} '' @ [0x6761] @ js '' prune_objects '' @ [0x9700, 0x8981, 0x81F3, 0x5C11, 0x4E00, 0x4E2A, 0x5339, 0x914D, 0x6761, 0x4EF6]"

definition MSG_headers_missing :: jstring where
  "MSG_headers_missing = [0x7B2C] @ js '' {{line}} '' @ [0x6761, 0x8BF7, 0x6C42, 0x5934, 0x900F, 0x4F20, 0x7F3A, 0x5C11, 0x8BF7, 0x6C42, 0x5934, 0x540D, 0x79F0]"

definition MSG_headers_invalid :: jstring where
  "MSG_headers_invalid = [0x7B2C] @ js '' {{line}} '' @ [0x6761, 0x8BF7, 0x6C42, 0x5934, 0x900F, 0x4F20, 0x683C, 0x5F0F, 0x65E0, 0x6548]"

definition MSG_json_invalid :: jstring where
  "MSG_json_invalid = js ''JSON '' @ [0x683C, 0x5F0F, 0x4E0D, 0x6B63, 0x786E]"

subsection \<open>Reading the stored value\<close>

datatype edit_mode = E_visual | E_json
datatype visual_mode = V_operations | V_legacy

record initial_state =
  is_editMode :: edit_mode
  is_visualMode :: visual_mode
  is_legacyValue :: jstring
  is_operations :: "operation list"
  is_jsonText :: jstring
  is_jsonError :: jstring

definition verifyJSON :: "jstring \<Rightarrow> bool" where
  "verifyJSON s \<longleftrightarrow> json_parse s \<noteq> None"

text \<open>\<open>parsed.operations.length > 0 ? parsed.operations.map(normalizeOperation) : [createDefaultOperation()]\<close>\<close>

definition normalize_all :: "clock \<Rightarrow> jsval list \<Rightarrow> operation list idm" where
  "normalize_all clk items =
     (if items \<noteq> [] then imap (normalizeOperation clk) items
      else ibind (createDefaultOperation clk) (\<lambda>d. ireturn [d]))"

definition parseInitialState :: "clock \<Rightarrow> jsval \<Rightarrow> initial_state idm" where
  "parseInitialState clk rawValue =
     (let text = (case rawValue of JStr s \<Rightarrow> s | _ \<Rightarrow> []); trimmed = trim text;
          default = (\<lambda>st. ibind (createDefaultOperation clk) (\<lambda>d. ireturn (st [d]))) in
      if trimmed = [] then
        default (\<lambda>ops. \<lparr>is_editMode = E_visual, is_visualMode = V_operations, is_legacyValue = [],
          is_operations = ops, is_jsonText = [], is_jsonError = []\<rparr>)
      else (case json_parse trimmed of
        None \<Rightarrow>
          default (\<lambda>ops. \<lparr>is_editMode = E_json, is_visualMode = V_operations, is_legacyValue = [],
            is_operations = ops, is_jsonText = text, is_jsonError = MSG_json_invalid\<rparr>)
      | Some parsed \<Rightarrow>
          (let pretty = json_ind 0 parsed in
           case parsed of
             JObj ob \<Rightarrow>
               (case get_own ob (js ''operations'') of
                  JArr items \<Rightarrow>
                    ibind (normalize_all clk items) (\<lambda>ops.
                    ireturn \<lparr>is_editMode = E_visual, is_visualMode = V_operations, is_legacyValue = [],
                      is_operations = ops, is_jsonText = pretty, is_jsonError = []\<rparr>)
                | _ \<Rightarrow>
                    default (\<lambda>ops. \<lparr>is_editMode = E_visual, is_visualMode = V_legacy, is_legacyValue = pretty,
                      is_operations = ops, is_jsonText = pretty, is_jsonError = []\<rparr>))
           | _ \<Rightarrow>
               default (\<lambda>ops. \<lparr>is_editMode = E_json, is_visualMode = V_operations, is_legacyValue = [],
                 is_operations = ops, is_jsonText = pretty, is_jsonError = []\<rparr>))))"

subsection \<open>Blank operations, conditions\<close>

definition isOperationBlank :: "operation \<Rightarrow> bool" where
  "isOperationBlank oper =
     (let hasCondition = list_ex (\<lambda>cond. trim (c_path cond) \<noteq> [] \<or> trim (c_value_text cond) \<noteq> [] \<or>
            c_mode cond \<noteq> C_full \<or> c_invert cond \<or> c_pass_missing_key cond) (op_conditions oper) in
      op_mode oper = M_set \<and> trim (op_path oper) = [] \<and> trim (op_from oper) = [] \<and> trim (op_to oper) = [] \<and>
      trim (op_value_text oper) = [] \<and> \<not> op_keep_origin oper \<and> \<not> hasCondition)"

definition buildConditionPayload :: "condition \<Rightarrow> jsval option" where
  "buildConditionPayload cond =
     (let path = trim (c_path cond) in
      if path = [] then None
      else
        (let p0 = [(js ''path'', JStr path), (js ''mode'', JStr (cond_mode_value (c_mode cond))),
                   (js ''value'', parseLooseValue (c_value_text cond))];
             p1 = (if c_invert cond then obj_set (js ''invert'') (JBool True) p0 else p0)
         in Some (JObj (if c_pass_missing_key cond then obj_set (js ''pass_missing_key'') (JBool True) p1 else p1))))"

subsection \<open>Validation\<close>

text \<open>A message that ends the validation, or nothing; what the check throws.\<close>

type_synonym check = "jstring option res"

definition nonempty_object :: "jsval \<Rightarrow> bool" where
  "nonempty_object v = (case v of JObj ob \<Rightarrow> ob \<noteq> [] | _ \<Rightarrow> False)"

text \<open>The checks inside a \<open>try\<close> whose \<open>catch\<close> is empty: an exception passes the check.\<close>

definition check_return_error :: "jstring \<Rightarrow> jstring \<Rightarrow> jstring option" where
  "check_return_error msg raw =
     (case json_parse raw of
        Some (JObj parsed) \<Rightarrow>
          (case trim_truthy (get_own parsed (js ''message'')) of
             Inr m \<Rightarrow> if m = [] then Some msg else None
           | Inl _ \<Rightarrow> None)
      | _ \<Rightarrow> None)"

definition check_prune_objects :: "jstring \<Rightarrow> jstring \<Rightarrow> jstring option" where
  "check_prune_objects msg raw =
     (case json_parse raw of
        Some (JObj parsed) \<Rightarrow>
          (case (if get_own parsed (js ''type'') = JUndef then Inr False
                 else rbind (js_String (get_own parsed (js ''type''))) (\<lambda>s. Inr (trim s \<noteq> []))) of
             Inl _ \<Rightarrow> None
           | Inr hasType \<Rightarrow>
               (let hasWhere = nonempty_object (get_own parsed (js ''where''));
                    conds = get_own parsed (js ''conditions'');
                    hasConditionsArray = (case conds of JArr xs \<Rightarrow> xs \<noteq> [] | _ \<Rightarrow> False);
                    hasConditionsObject = nonempty_object conds in
                if \<not> hasType \<and> \<not> hasWhere \<and> \<not> hasConditionsArray \<and> \<not> hasConditionsObject
                then Some msg else None))
      | _ \<Rightarrow> None)"

text \<open>The body of the loop of \<open>validateOperations\<close>, for the operation on line \<open>line\<close>.\<close>

definition validate_operation :: "i18n \<Rightarrow> nat \<Rightarrow> operation \<Rightarrow> check" where
  "validate_operation t line oper =
     (let mode = op_mode oper; meta = MODE_META mode;
          msg = (\<lambda>key. t key [(js ''line'', JNum (Num (of_nat line)))]);
          pathValue = trim (op_path oper); fromValue = trim (op_from oper); toValue = trim (op_to oper);
          raw = trim (op_value_text oper) in
      if mm_path meta \<and> pathValue = [] then Inr (Some (msg MSG_missing_path))
      else if mode \<in> set FROM_REQUIRED_MODES \<and> fromValue = [] \<and> \<not> (mm_pathAlias meta \<and> pathValue \<noteq> [])
        then Inr (Some (msg MSG_missing_from))
      else if mode \<in> set TO_REQUIRED_MODES \<and> toValue = [] \<and> \<not> (mm_pathAlias meta \<and> pathValue \<noteq> [])
        then Inr (Some (msg MSG_missing_to))
      else if mm_from meta \<and> fromValue = [] then Inr (Some (msg MSG_missing_from))
      else if mm_to meta = Some True \<and> toValue = [] then Inr (Some (msg MSG_missing_to))
      else if mode \<in> set VALUE_REQUIRED_MODES \<and> raw = [] then Inr (Some (msg MSG_missing_value))
      else if mode = M_return_error then
        (if raw = [] then Inr (Some (msg MSG_missing_value))
         else Inr (check_return_error (msg MSG_error_message) raw))
      else if mode = M_prune_objects then
        (if raw = [] then Inr (Some (msg MSG_prune_empty))
         else Inr (check_prune_objects (msg MSG_prune_condition) raw))
      else if mode = M_pass_headers then
        (if raw = [] then Inr (Some (msg MSG_headers_missing))
         else rbind (parsePassHeaderNames (parseLooseValue raw)) (\<lambda>headers.
                Inr (if headers = [] then Some (msg MSG_headers_invalid) else None)))
      else Inr None)"

fun validate_from :: "i18n \<Rightarrow> nat \<Rightarrow> operation list \<Rightarrow> jstring res" where
  "validate_from t i [] = Inr []"
| "validate_from t i (oper # rest) =
     rbind (validate_operation t (i + 1) oper) (\<lambda>r. case r of Some m \<Rightarrow> Inr m | None \<Rightarrow> validate_from t (i + 1) rest)"

definition validateOperations :: "i18n \<Rightarrow> operation list \<Rightarrow> jstring res" where
  "validateOperations t operations = validate_from t 0 operations"

subsection \<open>Printing\<close>

text \<open>The payload object of one operation.\<close>

definition operation_payload :: "operation \<Rightarrow> jsobj" where
  "operation_payload oper =
     (let mode = op_mode oper; meta = MODE_META mode;
          descriptionValue = trim (op_description oper); pathValue = trim (op_path oper);
          fromValue = trim (op_from oper); toValue = trim (op_to oper);
          p0 = [(js ''mode'', JStr (op_mode_value mode))];
          p1 = set_if (descriptionValue \<noteq> []) (js ''description'') (JStr descriptionValue) p0;
          p2 = set_if (mm_path meta) (js ''path'') (JStr pathValue) p1;
          p3 = set_if (mm_pathOptional meta \<and> pathValue \<noteq> []) (js ''path'') (JStr pathValue) p2;
          p4 = set_if (mm_value meta) (js ''value'') (parseLooseValue (op_value_text oper)) p3;
          p5 = set_if (mm_keepOrigin meta \<and> op_keep_origin oper) (js ''keep_origin'') (JBool True) p4;
          p6 = set_if (mm_from meta) (js ''from'') (JStr fromValue) p5;
          p7 = set_if (mm_to meta \<noteq> Some True \<and> toValue \<noteq> []) (js ''to'') (JStr toValue) p6;
          p8 = set_if (mm_to meta = Some True) (js ''to'') (JStr toValue) p7;
          p9 = set_if (mm_pathAlias meta \<and> \<not> truthy (get_own p8 (js ''from'')) \<and> pathValue \<noteq> [])
                 (js ''from'') (JStr pathValue) p8;
          p10 = set_if (mm_pathAlias meta \<and> \<not> truthy (get_own p9 (js ''to'')) \<and> pathValue \<noteq> [])
                 (js ''to'') (JStr pathValue) p9;
          conditions = List.map_filter buildConditionPayload (op_conditions oper);
          p11 = set_if (conditions \<noteq> []) (js ''conditions'') (JArr conditions) p10
      in set_if (conditions \<noteq> []) (js ''logic'') (JStr (if op_logic oper = L_AND then js ''AND'' else js ''OR'')) p11)"

definition operations_json :: "jsval list \<Rightarrow> jsval" where
  "operations_json payloads = JObj [(js ''operations'', JArr payloads)]"

definition buildOperationsJson :: "i18n \<Rightarrow> bool \<Rightarrow> operation list \<Rightarrow> jstring res" where
  "buildOperationsJson t validate sourceOperations =
     (let filteredOps = filter (\<lambda>item. \<not> isOperationBlank item) sourceOperations in
      if filteredOps = [] then Inr []
      else
        rbind (if validate then validateOperations t filteredOps else Inr []) (\<lambda>message.
          if message \<noteq> [] then Inl (Error message)
          else Inr (json_ind 0 (operations_json (map (\<lambda>oper. JObj (operation_payload oper)) filteredOps)))))"


subsection \<open>Reordering is a move\<close>

lemma find_index_split:
  assumes "find_index P xs = Some i"
  shows "xs = take i xs @ xs ! i # drop (Suc i) xs" "P (xs ! i)" "i < length xs"
  using find_index_SomeD [OF assms] by (auto simp: id_take_nth_drop)

lemma find_index_exists: "x \<in> set xs \<Longrightarrow> P x \<Longrightarrow> \<exists>i. find_index P xs = Some i"
  using find_index_None_iff [of P xs] by (cases "find_index P xs") auto

lemma distinct_key_eq: "distinct (map key xs) \<Longrightarrow> x \<in> set xs \<Longrightarrow> y \<in> set xs \<Longrightarrow> key x = key y \<longleftrightarrow> x = y"
  by (auto simp: distinct_map inj_on_def)

text \<open>Reordering never loses, duplicates or changes a rule, whatever ids it is given.\<close>

lemma reorder_mset: "mset (reorderOperations ops sourceId targetId pos) = mset ops"
proof -
  have "add_mset (ops ! i) (mset (remove_at i ops)) = mset ops" if "find_index P ops = Some i" for P i
    using mset_remove_at [OF find_index_split(3) [OF that]] by simp
  then show ?thesis by (auto simp: reorderOperations_def Let_def split: option.split)
qed

text \<open>
  Dropping a rule on another one puts it directly before or directly after that rule and keeps
  the order of all the others.
\<close>

theorem reorder_places:
  assumes "distinct (map op_id ops)" and "src \<in> set ops" and "tgt \<in> set ops" and "src \<noteq> tgt"
    and "op_id src \<noteq> []" and "op_id tgt \<noteq> []"
  shows "\<exists>a b. filter (\<lambda>x. op_id x \<noteq> op_id src) ops = a @ tgt # b \<and>
    reorderOperations ops (op_id src) (op_id tgt) pos =
      (case pos of Before \<Rightarrow> a @ src # tgt # b | After \<Rightarrow> a @ tgt # src # b)"
proof -
  have ne: "op_id src \<noteq> op_id tgt" using distinct_key_eq [OF assms(1-3)] assms(4) by simp
  obtain i where i: "find_index (\<lambda>x. op_id x = op_id src) ops = Some i" 
    using find_index_exists [of src ops "\<lambda>x. op_id x = op_id src"] assms(2) by auto
  have il: "i < length ops" "op_id (ops ! i) = op_id src" using find_index_split [OF i] by auto
  then have m: "ops ! i = src" using distinct_key_eq [OF assms(1) _ assms(2)] by auto
  let ?r = "filter (\<lambda>x. op_id x \<noteq> op_id src) ops"
  have r: "remove_at i ops = ?r" using remove_at_filter [OF assms(1) il(1)] m by simp
  have "tgt \<in> set ?r" using assms(3) ne by simp
  then obtain j where j: "find_index (\<lambda>x. op_id x = op_id tgt) ?r = Some j"
    using find_index_exists [of tgt ?r "\<lambda>x. op_id x = op_id tgt"] by auto
  note js = find_index_split [OF j]
  have "?r ! j = tgt"
    using js(2,3) assms(1,3) distinct_key_eq [OF assms(1)] by (metis filter_is_subset nth_mem subsetD)
  then have t: "?r = take j ?r @ tgt # drop (Suc j) ?r" using js(1) by simp
  have "drop j ?r = tgt # drop (Suc j) ?r" "take (Suc j) ?r = take j ?r @ [tgt]"
    using Cons_nth_drop_Suc [OF js(3)] take_Suc_conv_app_nth [OF js(3)] \<open>?r ! j = tgt\<close> by simp_all
  then have "reorderOperations ops (op_id src) (op_id tgt) pos =
      (case pos of Before \<Rightarrow> take j ?r @ src # tgt # drop (Suc j) ?r | After \<Rightarrow> take j ?r @ tgt # src # drop (Suc j) ?r)"
    using assms(5,6) ne by (cases pos) (simp_all add: reorderOperations_def i m r j Let_def insert_at_def)
  with t show ?thesis by blast
qed

subsection \<open>Ids of normalised operations\<close>

definition op_ids :: "operation \<Rightarrow> jstring list" where
  "op_ids oper = op_id oper # map c_id (op_conditions oper)"

lemma normalizeCondition_ids:
  "normalizeCondition clk v s = (Inr c, s') \<Longrightarrow> c_id c = local_id clk s \<and> s' = Suc s"
  unfolding normalizeCondition_def
  by (cases "nullish v") (auto simp: normalizePruneRule_null normalizePruneRule_object rule_fields_def Let_def)

lemma imap_normalizeCondition_ids:
  "imap (normalizeCondition clk) vs s = (Inr cs, s') \<Longrightarrow>
   map c_id cs = map (local_id clk) [s..<s'] \<and> s' = s + length vs"
proof (induction vs arbitrary: s cs)
  case (Cons v vs)
  then obtain c s1 ds where c1: "normalizeCondition clk v s = (Inr c, s1)" "cs = c # ds"
    and d1: "imap (normalizeCondition clk) vs s1 = (Inr ds, s')"
    by (auto simp: ibind_Inr_iff)
  then have c: "normalizeCondition clk v s = (Inr c, Suc s)" "cs = c # ds"
    and d: "imap (normalizeCondition clk) vs (Suc s) = (Inr ds, s')"
    using normalizeCondition_ids [OF c1(1)] by auto
  have "s' = s + length (v # vs)" using Cons.IH [OF d] by simp
  then show ?case using Cons.IH [OF d] normalizeCondition_ids [OF c(1)] c(2) by (auto simp: upt_rec [of s] Suc_le_eq)
qed simp

lemma normalizeOperation_ids:
  assumes "normalizeOperation clk v s = (Inr oper, s')"
  shows "op_ids oper = map (local_id clk) [s..<s']" "s < s'"
proof -
  obtain conds where "(case conds of JArr items \<Rightarrow> imap (normalizeCondition clk) items | _ \<Rightarrow> ireturn []) (Suc s) =
      (Inr (op_conditions oper), s')" and i: "op_id oper = local_id clk s"
    using assms by (auto simp: normalizeOperation_def ibind_Inr_iff)
  then have "map c_id (op_conditions oper) = map (local_id clk) [Suc s..<s'] \<and> Suc s \<le> s'"
    by (auto split: jsval.splits dest!: imap_normalizeCondition_ids)
  then show "op_ids oper = map (local_id clk) [s..<s']" "s < s'" using i by (simp_all add: op_ids_def upt_rec [of s])
qed

lemma imap_normalizeOperation_ids:
  "imap (normalizeOperation clk) vs s = (Inr ops, s') \<Longrightarrow>
   concat (map op_ids ops) = map (local_id clk) [s..<s'] \<and> s \<le> s'"
proof (induction vs arbitrary: s ops)
  case (Cons v vs)
  then obtain a s1 as where a: "normalizeOperation clk v s = (Inr a, s1)" "ops = a # as"
    and d: "imap (normalizeOperation clk) vs s1 = (Inr as, s')"
    by (auto simp: ibind_Inr_iff)
  have "[s..<s'] = [s..<s1] @ [s1..<s']"
    using Cons.IH [OF d] normalizeOperation_ids(2) [OF a(1)] by (metis le_add_diff_inverse less_imp_le upt_add_eq_append)
  then show ?case using Cons.IH [OF d] normalizeOperation_ids [OF a(1)] a(2) by simp
qed simp

lemma createDefaultOperation_ok:
  "createDefaultOperation clk s =
     (Inr \<lparr>op_id = local_id clk s, op_description = [], op_path = [], op_mode = M_set, op_value_text = [],
        op_keep_origin = False, op_from = [], op_to = [], op_logic = L_OR, op_conditions = []\<rparr>, Suc s)"
proof -
  have "op_mode_of (js ''set'') = Some M_set" using op_mode_of_value [of M_set] by simp
  then show ?thesis
    by (simp add: createDefaultOperation_def normalizeOperation_def get_prop_def string_or_empty_def
        op_mode_or_set_def js_or_def)
qed

lemma normalize_all_ids:
  assumes "normalize_all clk vs s = (Inr ops, s')"
  shows "concat (map op_ids ops) = map (local_id clk) [s..<s'] \<and> s < s' \<and> ops \<noteq> []"
proof (cases "vs = []")
  case True
  then show ?thesis using assms
    by (auto simp: normalize_all_def ibind_Inr_iff createDefaultOperation_ok op_ids_def)
next
  case False
  then obtain v ws where vs: "vs = v # ws" by (cases vs) auto
  from False assms have i: "imap (normalizeOperation clk) vs s = (Inr ops, s')" by (simp add: normalize_all_def)
  then obtain a s1 as where "ops = a # as" "normalizeOperation clk v s = (Inr a, s1)"
      "imap (normalizeOperation clk) ws s1 = (Inr as, s')"
    unfolding vs by (auto simp: ibind_Inr_iff)
  then show ?thesis
    using imap_normalizeOperation_ids [OF i] normalizeOperation_ids(2) imap_normalizeOperation_ids by fastforce
qed

subsection \<open>What validation accepts\<close>

text \<open>
  The requirement on one operation, by its mode: the fields that the mode declares are not blank;
  a custom error given as an object has a message; a pruning object has something to match; a header
  pass-through names at least one header. The alias flag of the header modes plays no part.
\<close>

definition op_complete :: "operation \<Rightarrow> bool" where
  "op_complete oper =
     (let mode = op_mode oper; meta = MODE_META mode; raw = trim (op_value_text oper) in
      (mm_path meta \<longrightarrow> trim (op_path oper) \<noteq> []) \<and>
      (mm_from meta \<longrightarrow> trim (op_from oper) \<noteq> []) \<and>
      (mm_to meta = Some True \<longrightarrow> trim (op_to oper) \<noteq> []) \<and>
      (mode \<in> set VALUE_REQUIRED_MODES \<longrightarrow> raw \<noteq> []) \<and>
      (mode = M_return_error \<longrightarrow> check_return_error [] raw = None) \<and>
      (mode = M_prune_objects \<longrightarrow> check_prune_objects [] raw = None) \<and>
      (mode = M_pass_headers \<longrightarrow> (\<exists>h hs. parsePassHeaderNames (parseLooseValue raw) = Inr (h # hs))))"

text \<open>Every required-field set is contained in what the mode declares.\<close>

lemma required_modes_declared:
  "mode \<in> set FROM_REQUIRED_MODES \<Longrightarrow> mm_from (MODE_META mode)"
  "mode \<in> set TO_REQUIRED_MODES \<Longrightarrow> mm_to (MODE_META mode) = Some True"
  by (auto simp: FROM_REQUIRED_MODES_def TO_REQUIRED_MODES_def)

lemma value_required: "mode \<in> {M_return_error, M_prune_objects, M_pass_headers} \<Longrightarrow> mode \<in> set VALUE_REQUIRED_MODES"
  by (auto simp: VALUE_REQUIRED_MODES_def)

lemma check_return_error_msg: "check_return_error msg raw = map_option (\<lambda>_. msg) (check_return_error [] raw)"
  by (auto simp: check_return_error_def split: option.split jsval.split sum.split)

lemma check_prune_objects_msg: "check_prune_objects msg raw = map_option (\<lambda>_. msg) (check_prune_objects [] raw)"
  by (auto simp: check_prune_objects_def Let_def split: option.split jsval.split sum.split)

lemma validate_operation_None: "validate_operation t line oper = Inr None \<longleftrightarrow> op_complete oper"
  using required_modes_declared [of "op_mode oper"] value_required [of "op_mode oper"]
    check_return_error_msg [of "t MSG_error_message [(js ''line'', JNum (Num (of_nat line)))]"]
    check_prune_objects_msg [of "t MSG_prune_condition [(js ''line'', JNum (Num (of_nat line)))]"]
  by (auto simp: validate_operation_def op_complete_def Let_def rbind_Inr_iff neq_Nil_conv split: if_splits)

lemma validate_operation_Some:
  assumes "validate_operation t line oper = Inr (Some m)"
  shows "\<exists>key. m = t key [(js ''line'', JNum (Num (of_nat line)))]"
  using assms
    check_return_error_msg [of "t MSG_error_message [(js ''line'', JNum (Num (of_nat line)))]"]
    check_prune_objects_msg [of "t MSG_prune_condition [(js ''line'', JNum (Num (of_nat line)))]"]
  by (auto simp: validate_operation_def Let_def rbind_Inr_iff split: if_splits)

lemma validate_from_result:
  assumes "\<And>key opts. t key opts \<noteq> []" and "validate_from t k ops = Inr m"
  shows "(m = [] \<and> list_all op_complete ops) \<or>
    (\<exists>i key. i < length ops \<and> list_all op_complete (take i ops) \<and> \<not> op_complete (ops ! i) \<and>
       m = t key [(js ''line'', JNum (Num (of_nat (k + i + 1))))])"
  using assms(2)
proof (induction ops arbitrary: k)
  case (Cons oper ops)
  then obtain r where r: "validate_operation t (k + 1) oper = Inr r"
    and m: "(case r of Some m' \<Rightarrow> Inr m' | None \<Rightarrow> validate_from t (k + 1) ops) = Inr m"
    unfolding validate_from.simps rbind_Inr_iff by blast
  show ?case
  proof (cases r)
    case None
    then have c: "op_complete oper" using r validate_operation_None by simp
    from None m have "validate_from t (k + 1) ops = Inr m" by simp
    from Cons.IH [OF this] show ?thesis
    proof
      assume "\<exists>i key. i < length ops \<and> list_all op_complete (take i ops) \<and> \<not> op_complete (ops ! i) \<and>
        m = t key [(js ''line'', JNum (Num (of_nat (k + 1 + i + 1))))]"
      then obtain i key where "i < length ops" "list_all op_complete (take i ops)" "\<not> op_complete (ops ! i)"
        "m = t key [(js ''line'', JNum (Num (of_nat (k + 1 + i + 1))))]" by blast
      then show ?thesis using c
        by (intro disjI2 exI [of _ "Suc i"] exI [of _ key]) (simp add: ac_simps)
    qed (use c in simp)
  next
    case (Some m')
    then have "\<not> op_complete oper" using r validate_operation_None [of t "k + 1" oper] by simp
    moreover obtain key where "m' = t key [(js ''line'', JNum (Num (of_nat (k + 1))))]"
      using validate_operation_Some r Some by metis
    ultimately show ?thesis using m Some by (intro disjI2 exI [of _ 0] exI [of _ key]) simp
  qed
qed simp

lemma validateOperations_ok:
  assumes "\<And>key opts. t key opts \<noteq> []" and "validateOperations t ops = Inr []"
  shows "list_all op_complete ops"
proof -
  have "validate_from t 0 ops = Inr []" using assms(2) by (simp add: validateOperations_def)
  from validate_from_result [where t = t, OF assms(1) this] show ?thesis using assms(1) by metis
qed

lemma validateOperations_complete:
  "list_all op_complete ops \<Longrightarrow> validateOperations t ops = Inr []"
proof -
  have "list_all op_complete ops \<Longrightarrow> validate_from t k ops = Inr []" for k
    by (induction ops arbitrary: k) (simp_all add: validate_operation_None [THEN iffD2])
  then show "list_all op_complete ops \<Longrightarrow> validateOperations t ops = Inr []" by (simp add: validateOperations_def)
qed

text \<open>
  C18. Validation is exact and points at the first offender. Provided that the translation function
  never returns an empty text (a missing translation falls back to its key), the empty message is
  returned exactly for lists in which every rule is complete for its mode; any other message is the
  translation of some key at the line number of the first incomplete rule.
\<close>

theorem validate_operations_exact:
  assumes "\<And>key opts. t key opts \<noteq> []" and "validateOperations t ops = Inr m"
  shows "(m = [] \<longleftrightarrow> list_all op_complete ops) \<and>
    (m = [] \<or> (\<exists>i key. i < length ops \<and> list_all op_complete (take i ops) \<and> \<not> op_complete (ops ! i) \<and>
       m = t key [(js ''line'', JNum (Num (of_nat (i + 1))))]))"
proof -
  have r: "(m = [] \<and> list_all op_complete ops) \<or>
    (\<exists>i key. i < length ops \<and> list_all op_complete (take i ops) \<and> \<not> op_complete (ops ! i) \<and>
       m = t key [(js ''line'', JNum (Num (of_nat (i + 1))))])"
    using validate_from_result [where t = t and k = 0, OF assms(1)] assms(2) by (simp add: validateOperations_def)
  moreover have "\<not> list_all op_complete ops" if "i < length ops" "\<not> op_complete (ops ! i)" for i
    using that by (auto simp: list_all_length)
  ultimately show ?thesis using assms(1) by metis
qed

definition sample_op :: operation where
  "sample_op = \<lparr>op_id = js ''a'', op_description = [], op_path = js ''model'', op_mode = M_copy, op_value_text = [],
     op_keep_origin = False, op_from = js ''x'', op_to = [], op_logic = L_OR, op_conditions = []\<rparr>"

lemma trim_ascii_letter [simp]: "trim (js ''x'') = js ''x''" "trim (js ''model'') = js ''model''"
  by (rule trim_no_ws; simp add: js_def is_ws_def)+

theorem validate_operations_exact_witness:
  "validateOperations (\<lambda>key opts. key) [sample_op] = Inr MSG_missing_to \<and> \<not> list_all op_complete [sample_op]"
proof -
  have v: "validateOperations (\<lambda>key opts. key @ [33]) [sample_op] = Inr (MSG_missing_to @ [33])"
    and w: "validateOperations (\<lambda>key opts. key) [sample_op] = Inr MSG_missing_to"
    by (simp_all add: validateOperations_def validate_operation_def sample_op_def FROM_REQUIRED_MODES_def
        TO_REQUIRED_MODES_def no_meta_def Let_def)
  show ?thesis using validate_operations_exact [OF _ v] w by simp
qed

subsection \<open>Saving and reopening\<close>

text \<open>An operation without its ids: what the payload depends on.\<close>

definition strip_op :: "operation \<Rightarrow> operation" where
  "strip_op oper = oper\<lparr>op_id := [], op_conditions := map (\<lambda>c. c\<lparr>c_id := []\<rparr>) (op_conditions oper)\<rparr>"

lemma buildConditionPayload_id [simp]: "buildConditionPayload (c\<lparr>c_id := i\<rparr>) = buildConditionPayload c"
  by (simp add: buildConditionPayload_def Let_def)

lemma map_filter_map: "List.map_filter f (map g xs) = List.map_filter (f \<circ> g) xs"
  by (induction xs) (auto simp: map_filter_simps split: option.split)

lemma operation_payload_strip [simp]: "operation_payload (strip_op oper) = operation_payload oper"
  by (simp add: operation_payload_def strip_op_def map_filter_map comp_def Let_def)

lemma isOperationBlank_strip [simp]: "isOperationBlank (strip_op oper) = isOperationBlank oper"
  by (simp add: isOperationBlank_def strip_op_def list_ex_iff)

text \<open>The operation that a JSON object is read as, without ids.\<close>

definition op_data :: "jsobj \<Rightarrow> operation" where
  "op_data ob = \<lparr>op_id = [], op_description = string_or_empty (get_own ob (js ''description'')),
     op_path = string_or_empty (get_own ob (js ''path'')), op_mode = op_mode_or_set (get_own ob (js ''mode'')),
     op_value_text = toValueText (get_own ob (js ''value'')), op_keep_origin = (get_own ob (js ''keep_origin'') = JBool True),
     op_from = string_or_empty (get_own ob (js ''from'')), op_to = string_or_empty (get_own ob (js ''to'')),
     op_logic = (if get_own ob (js ''logic'') = JStr (js ''AND'') then L_AND else L_OR),
     op_conditions = (case get_own ob (js ''conditions'') of JArr items \<Rightarrow> map (\<lambda>v. rule_fields v []) items | _ \<Rightarrow> [])\<rparr>"

lemma rule_fields_strip: "(rule_fields v i)\<lparr>c_id := []\<rparr> = rule_fields v []"
  by (simp add: rule_fields_def Let_def)

lemma imap_normalizeCondition_data:
  "list_all (\<lambda>v. \<not> nullish v) vs \<Longrightarrow>
   \<exists>cs s'. imap (normalizeCondition clk) vs s = (Inr cs, s') \<and>
     map (\<lambda>c. c\<lparr>c_id := []\<rparr>) cs = map (\<lambda>v. rule_fields v []) vs"
proof (induction vs arbitrary: s)
  case (Cons v vs)
  then obtain cs s' where "imap (normalizeCondition clk) vs (Suc s) = (Inr cs, s')"
    "map (\<lambda>c. c\<lparr>c_id := []\<rparr>) cs = map (\<lambda>v. rule_fields v []) vs" by fastforce
  moreover from this(1) have "imap (normalizeCondition clk) (v # vs) s = (Inr (rule_fields v (local_id clk s) # cs), s')"
    using Cons.prems by (simp add: ibind_def normalizeCondition_def normalizePruneRule_object)
  ultimately show ?case
    using rule_fields_strip [of v "local_id clk s"] by (metis (no_types, lifting) list.simps(9))
qed simp

text \<open>An object as the editor writes it: its logic is one of the two words, its conditions are objects.\<close>

definition op_readable :: "jsobj \<Rightarrow> bool" where
  "op_readable ob \<longleftrightarrow> get_own ob (js ''logic'') \<in> {JUndef, JStr (js ''AND''), JStr (js ''OR'')} \<and>
     (case get_own ob (js ''conditions'') of JArr items \<Rightarrow> list_all (\<lambda>v. \<not> nullish v) items | _ \<Rightarrow> True)"

lemma normalizeOperation_data:
  assumes "op_readable ob"
  shows "\<exists>oper s'. normalizeOperation clk (JObj ob) s = (Inr oper, s') \<and> strip_op oper = op_data ob"
proof -
  let ?m = "case get_own ob (js ''conditions'') of JArr items \<Rightarrow> imap (normalizeCondition clk) items | _ \<Rightarrow> ireturn []"
  obtain cs s' where cs: "?m (Suc s) = (Inr cs, s')"
    "map (\<lambda>c. c\<lparr>c_id := []\<rparr>) cs =
      (case get_own ob (js ''conditions'') of JArr items \<Rightarrow> map (\<lambda>v. rule_fields v []) items | _ \<Rightarrow> [])"
  proof (cases "get_own ob (js ''conditions'')")
    case (JArr items)
    then have "list_all (\<lambda>v. \<not> nullish v) items" using assms by (simp add: op_readable_def)
    from imap_normalizeCondition_data [OF this, of clk "Suc s"] JArr that show ?thesis by auto
  qed (use that in auto)
  obtain l where l: "js_String (js_or (get_own ob (js ''logic'')) (JStr (js ''OR''))) = Inr l"
    "to_upper l = js ''AND'' \<longleftrightarrow> get_own ob (js ''logic'') = JStr (js ''AND'')"
    using assms by (auto simp: op_readable_def js_or_def)
  show ?thesis
    using cs l by (auto simp: normalizeOperation_def get_prop_def ibind_lift_apply ibind_def strip_op_def op_data_def)
qed

lemma imap_normalizeOperation_data:
  "list_all op_readable obs \<Longrightarrow>
   \<exists>ops s'. imap (normalizeOperation clk) (map JObj obs) s = (Inr ops, s') \<and> map strip_op ops = map op_data obs"
proof (induction obs arbitrary: s)
  case (Cons ob obs)
  obtain oper s1 where o: "normalizeOperation clk (JObj ob) s = (Inr oper, s1)" "strip_op oper = op_data ob"
    using normalizeOperation_data [of ob clk s] Cons.prems by auto
  obtain ops s' where "imap (normalizeOperation clk) (map JObj obs) s1 = (Inr ops, s')" "map strip_op ops = map op_data obs"
    using Cons.IH [of s1] Cons.prems by auto
  with o show ?case by (auto simp: ibind_def)
qed simp

text \<open>The payload of a saved operation, field by field.\<close>

abbreviation cond_payloads :: "operation \<Rightarrow> jsval list" where
  "cond_payloads oper \<equiv> List.map_filter buildConditionPayload (op_conditions oper)"

lemma get_operation_payload:
  assumes "op_complete oper"
  shows "get_own (operation_payload oper) (js ''mode'') = JStr (op_mode_value (op_mode oper))"
    and "get_own (operation_payload oper) (js ''description'') =
      (if trim (op_description oper) = [] then JUndef else JStr (trim (op_description oper)))"
    and "get_own (operation_payload oper) (js ''path'') =
      (if mm_path (MODE_META (op_mode oper)) \<or> mm_pathOptional (MODE_META (op_mode oper)) \<and> trim (op_path oper) \<noteq> []
       then JStr (trim (op_path oper)) else JUndef)"
    and "get_own (operation_payload oper) (js ''value'') =
      (if mm_value (MODE_META (op_mode oper)) then parseLooseValue (op_value_text oper) else JUndef)"
    and "get_own (operation_payload oper) (js ''keep_origin'') =
      (if mm_keepOrigin (MODE_META (op_mode oper)) \<and> op_keep_origin oper then JBool True else JUndef)"
    and "get_own (operation_payload oper) (js ''from'') =
      (if mm_from (MODE_META (op_mode oper)) then JStr (trim (op_from oper)) else JUndef)"
    and "get_own (operation_payload oper) (js ''to'') = (if trim (op_to oper) = [] then JUndef else JStr (trim (op_to oper)))"
    and "get_own (operation_payload oper) (js ''conditions'') =
      (if cond_payloads oper = [] then JUndef else JArr (cond_payloads oper))"
    and "get_own (operation_payload oper) (js ''logic'') =
      (if cond_payloads oper = [] then JUndef else JStr (logic_value (op_logic oper)))"
proof -
  have al: "mm_pathAlias (MODE_META m) \<Longrightarrow> mm_from (MODE_META m) \<and> mm_to (MODE_META m) = Some True" for m
    by (cases m) (simp_all add: no_meta_def)
  have c: "mm_from (MODE_META (op_mode oper)) \<Longrightarrow> trim (op_from oper) \<noteq> []"
    "mm_to (MODE_META (op_mode oper)) = Some True \<Longrightarrow> trim (op_to oper) \<noteq> []"
    using assms by (auto simp: op_complete_def Let_def)
  note s = operation_payload_def Let_def
  show "get_own (operation_payload oper) (js ''mode'') = JStr (op_mode_value (op_mode oper))" by (simp add: s)
  show "get_own (operation_payload oper) (js ''description'') =
      (if trim (op_description oper) = [] then JUndef else JStr (trim (op_description oper)))" by (simp add: s)
  show "get_own (operation_payload oper) (js ''path'') =
      (if mm_path (MODE_META (op_mode oper)) \<or> mm_pathOptional (MODE_META (op_mode oper)) \<and> trim (op_path oper) \<noteq> []
       then JStr (trim (op_path oper)) else JUndef)" by (simp add: s)
  show "get_own (operation_payload oper) (js ''value'') =
      (if mm_value (MODE_META (op_mode oper)) then parseLooseValue (op_value_text oper) else JUndef)" by (simp add: s)
  show "get_own (operation_payload oper) (js ''keep_origin'') =
      (if mm_keepOrigin (MODE_META (op_mode oper)) \<and> op_keep_origin oper then JBool True else JUndef)" by (simp add: s)
  show "get_own (operation_payload oper) (js ''from'') =
      (if mm_from (MODE_META (op_mode oper)) then JStr (trim (op_from oper)) else JUndef)"
    using al c by (auto simp: s)
  show "get_own (operation_payload oper) (js ''to'') = (if trim (op_to oper) = [] then JUndef else JStr (trim (op_to oper)))"
    using al c by (auto simp: s)
  show "get_own (operation_payload oper) (js ''conditions'') =
      (if cond_payloads oper = [] then JUndef else JArr (cond_payloads oper))" by (simp add: s)
  show "get_own (operation_payload oper) (js ''logic'') =
      (if cond_payloads oper = [] then JUndef else JStr (logic_value (op_logic oper)))"
    by (cases "op_logic oper") (simp_all add: s)
qed

abbreviation nf_obj :: "jsobj \<Rightarrow> jsobj" where
  "nf_obj ob \<equiv> map (\<lambda>kv. (fst kv, json_nf (snd kv))) ob"

lemma nf_obj_replace: "nf_obj (obj_replace k v ob) = obj_replace k (json_nf v) (nf_obj ob)"
  by (induction ob) auto

lemma nf_obj_insert: "nf_obj (obj_insert k v ob) = obj_insert k (json_nf v) (nf_obj ob)"
  by (induction ob) (auto split: option.split)

lemma nf_obj_set: "nf_obj (obj_set k v ob) = obj_set k (json_nf v) (nf_obj ob)"
  by (simp add: obj_set_def nf_obj_replace nf_obj_insert image_image)

lemma nf_set_if: "nf_obj (set_if b k v ob) = set_if b k (json_nf v) (nf_obj ob)"
  by (simp add: set_if_def nf_obj_set)

lemma set_if_cong:
  "b = b' \<Longrightarrow> (b' \<Longrightarrow> v = v') \<Longrightarrow> ob = ob' \<Longrightarrow> set_if b k v ob = set_if b' k v' ob'"
  by (simp add: set_if_def)

lemma set_if_False [simp]: "set_if False k v ob = ob"
  by (simp add: set_if_def)

lemma json_nf_nf [simp]: "json_nf (json_nf v) = json_nf v"
  by (induction v rule: json_nf.induct) auto

text \<open>With both ends present the alias of the header modes adds nothing.\<close>

lemma operation_payload_ends:
  assumes "mm_from (MODE_META (op_mode oper)) \<longrightarrow> trim (op_from oper) \<noteq> []"
    and "mm_to (MODE_META (op_mode oper)) = Some True \<longrightarrow> trim (op_to oper) \<noteq> []"
  shows "operation_payload oper =
    (let meta = MODE_META (op_mode oper); cs = cond_payloads oper in
     set_if (cs \<noteq> []) (js ''logic'') (JStr (logic_value (op_logic oper)))
     (set_if (cs \<noteq> []) (js ''conditions'') (JArr cs)
     (set_if (mm_to meta = Some True) (js ''to'') (JStr (trim (op_to oper)))
     (set_if (mm_to meta \<noteq> Some True \<and> trim (op_to oper) \<noteq> []) (js ''to'') (JStr (trim (op_to oper)))
     (set_if (mm_from meta) (js ''from'') (JStr (trim (op_from oper)))
     (set_if (mm_keepOrigin meta \<and> op_keep_origin oper) (js ''keep_origin'') (JBool True)
     (set_if (mm_value meta) (js ''value'') (parseLooseValue (op_value_text oper))
     (set_if (mm_pathOptional meta \<and> trim (op_path oper) \<noteq> []) (js ''path'') (JStr (trim (op_path oper)))
     (set_if (mm_path meta) (js ''path'') (JStr (trim (op_path oper)))
     (set_if (trim (op_description oper) \<noteq> []) (js ''description'') (JStr (trim (op_description oper)))
       [(js ''mode'', JStr (op_mode_value (op_mode oper)))]))))))))))"
proof -
  have al: "mm_pathAlias (MODE_META m) \<Longrightarrow> mm_from (MODE_META m) \<and> mm_to (MODE_META m) = Some True" for m
    by (cases m) (simp_all add: no_meta_def)
  have f: "(mm_pathAlias (MODE_META (op_mode oper)) \<and>
      \<not> truthy (if mm_from (MODE_META (op_mode oper)) then JStr (trim (op_from oper)) else JUndef) \<and> p) = False" for p
    using al assms(1) by auto
  have g: "(mm_pathAlias (MODE_META (op_mode oper)) \<and>
      \<not> truthy (if mm_to (MODE_META (op_mode oper)) = Some True then JStr (trim (op_to oper)) else x) \<and> p) = False" for p x
    using al assms(2) by auto
  have l: "(if op_logic oper = L_AND then js ''AND'' else js ''OR'') = logic_value (op_logic oper)"
    by (cases "op_logic oper") simp_all
  show ?thesis
    unfolding operation_payload_def Let_def l by (simp add: f g cong: if_cong)
qed

text \<open>
  The values that survive a display as text: everything but a string that would itself be read as
  another value.
\<close>

definition cond_stable :: "condition \<Rightarrow> bool" where
  "cond_stable c \<longleftrightarrow> trim (c_path c) \<noteq> [] \<longrightarrow> loose_stable (parseLooseValue (c_value_text c))"

definition op_stable :: "operation \<Rightarrow> bool" where
  "op_stable oper \<longleftrightarrow>
     (mm_value (MODE_META (op_mode oper)) \<longrightarrow> loose_stable (parseLooseValue (op_value_text oper))) \<and>
     list_all cond_stable (op_conditions oper)"

lemma json_readable_nf: "json_readable v \<Longrightarrow> json_readable (json_nf v)"
  using json_wf_nf json_wf_readable by blast

lemma parse_shown_value:
  "loose_stable (parseLooseValue raw) \<Longrightarrow>
   parseLooseValue (toValueText (json_nf (parseLooseValue raw))) = json_nf (parseLooseValue raw)"
  using loose_value_roundtrip [OF json_readable_nf [OF parseLooseValue_readable] loose_stable_nf] by simp

lemma rule_fields_condition:
  assumes "buildConditionPayload c = Some p"
  shows "rule_fields (json_nf p) [] = c\<lparr>c_id := [], c_path := trim (c_path c),
    c_value_text := toValueText (json_nf (parseLooseValue (c_value_text c)))\<rparr>"
proof -
  have p: "p = JObj (set_if (c_pass_missing_key c) (js ''pass_missing_key'') (JBool True)
      (set_if (c_invert c) (js ''invert'') (JBool True)
        [(js ''path'', JStr (trim (c_path c))), (js ''mode'', JStr (cond_mode_value (c_mode c))),
         (js ''value'', parseLooseValue (c_value_text c))]))"
    using assms by (auto simp: buildConditionPayload_def Let_def set_if_def split: if_splits)
  show ?thesis
    by (simp add: p rule_fields_def Let_def get_prop_def get_own_nf string_or_empty_def del: json_nf.simps(1))
qed

lemma buildConditionPayload_shown:
  assumes "buildConditionPayload c = Some p" and "cond_stable c"
  shows "buildConditionPayload (rule_fields (json_nf p) []) = Some (json_nf p)"
proof -
  have ne: "trim (c_path c) \<noteq> []" using assms(1) by (auto simp: buildConditionPayload_def Let_def)
  then have s: "loose_stable (parseLooseValue (c_value_text c))" using assms(2) by (simp add: cond_stable_def)
  have p: "p = JObj (set_if (c_pass_missing_key c) (js ''pass_missing_key'') (JBool True)
      (set_if (c_invert c) (js ''invert'') (JBool True)
        [(js ''path'', JStr (trim (c_path c))), (js ''mode'', JStr (cond_mode_value (c_mode c))),
         (js ''value'', parseLooseValue (c_value_text c))]))"
    using assms(1) by (auto simp: buildConditionPayload_def Let_def set_if_def split: if_splits)
  show ?thesis
    unfolding rule_fields_condition [OF assms(1)]
    using ne by (simp add: p buildConditionPayload_def Let_def nf_obj_set nf_set_if set_if_def parse_shown_value [OF s])
qed

lemma cond_payloads_shown:
  "list_all cond_stable cs \<Longrightarrow>
   List.map_filter buildConditionPayload (map (\<lambda>v. rule_fields v []) (map json_nf (List.map_filter buildConditionPayload cs)))
     = map json_nf (List.map_filter buildConditionPayload cs)"
  by (induction cs) (auto simp: map_filter_simps buildConditionPayload_shown split: option.split)

lemma payload_nf:
  assumes "mm_from (MODE_META (op_mode oper)) \<Longrightarrow> trim (op_from oper) \<noteq> []"
    and "mm_to (MODE_META (op_mode oper)) = Some True \<Longrightarrow> trim (op_to oper) \<noteq> []"
    and m: "op_mode o' = op_mode oper" and d: "trim (op_description o') = trim (op_description oper)"
    and p: "mm_path (MODE_META (op_mode oper)) \<or> mm_pathOptional (MODE_META (op_mode oper)) \<Longrightarrow>
      trim (op_path o') = trim (op_path oper)"
    and v: "mm_value (MODE_META (op_mode oper)) \<Longrightarrow>
      parseLooseValue (op_value_text o') = json_nf (parseLooseValue (op_value_text oper))"
    and k: "mm_keepOrigin (MODE_META (op_mode oper)) \<Longrightarrow> op_keep_origin o' = op_keep_origin oper"
    and f: "mm_from (MODE_META (op_mode oper)) \<Longrightarrow> trim (op_from o') = trim (op_from oper)"
    and t: "trim (op_to o') = trim (op_to oper)"
    and c: "cond_payloads o' = map json_nf (cond_payloads oper)"
    and l: "cond_payloads oper \<noteq> [] \<Longrightarrow> op_logic o' = op_logic oper"
  shows "operation_payload o' = nf_obj (operation_payload oper)"
proof -
  have e: "mm_from (MODE_META (op_mode o')) \<longrightarrow> trim (op_from o') \<noteq> []"
    "mm_to (MODE_META (op_mode o')) = Some True \<longrightarrow> trim (op_to o') \<noteq> []"
    "mm_from (MODE_META (op_mode oper)) \<longrightarrow> trim (op_from oper) \<noteq> []"
    "mm_to (MODE_META (op_mode oper)) = Some True \<longrightarrow> trim (op_to oper) \<noteq> []"
    using assms by simp_all
  show ?thesis
    unfolding operation_payload_ends [OF e(1,2)] operation_payload_ends [OF e(3,4)] Let_def nf_set_if m
    by (intro set_if_cong) (use assms in auto)
qed

text \<open>Reading the saved object of a complete, stable operation and printing it again.\<close>

lemma payload_of_shown:
  assumes "op_complete oper" and "op_stable oper"
  shows "operation_payload (op_data (nf_obj (operation_payload oper))) = nf_obj (operation_payload oper)"
    and "\<not> isOperationBlank (op_data (nf_obj (operation_payload oper)))"
    and "op_readable (nf_obj (operation_payload oper))"
proof -
  let ?o = "op_data (nf_obj (operation_payload oper))" and ?meta = "MODE_META (op_mode oper)"
  note g = get_operation_payload [OF assms(1)]
  have c: "mm_path ?meta \<Longrightarrow> trim (op_path oper) \<noteq> []" "mm_from ?meta \<Longrightarrow> trim (op_from oper) \<noteq> []"
    "mm_to ?meta = Some True \<Longrightarrow> trim (op_to oper) \<noteq> []"
    using assms(1) by (auto simp: op_complete_def Let_def)
  have st: "mm_value ?meta \<Longrightarrow> loose_stable (parseLooseValue (op_value_text oper))" "list_all cond_stable (op_conditions oper)"
    using assms(2) by (auto simp: op_stable_def)
  have f: "op_mode ?o = op_mode oper" "op_description ?o = trim (op_description oper)"
    "op_path ?o = (if mm_path ?meta \<or> mm_pathOptional ?meta \<and> trim (op_path oper) \<noteq> [] then trim (op_path oper) else [])"
    "op_keep_origin ?o = (mm_keepOrigin ?meta \<and> op_keep_origin oper)"
    "op_from ?o = (if mm_from ?meta then trim (op_from oper) else [])" "op_to ?o = trim (op_to oper)"
    by (simp_all add: op_data_def get_own_nf g string_or_empty_def op_mode_or_set_def)
  have v: "mm_value ?meta \<Longrightarrow> op_value_text ?o = toValueText (json_nf (parseLooseValue (op_value_text oper)))"
    by (simp add: op_data_def get_own_nf g)
  have cs: "cond_payloads ?o = map json_nf (cond_payloads oper)"
    using cond_payloads_shown [OF st(2)] by (simp add: op_data_def get_own_nf g map_filter_simps)
  have l: "cond_payloads oper \<noteq> [] \<Longrightarrow> op_logic ?o = op_logic oper"
    by (cases "op_logic oper") (simp_all add: op_data_def get_own_nf g)
  show "operation_payload ?o = nf_obj (operation_payload oper)"
    by (rule payload_nf [OF c(2,3)]) (auto simp: f cs l v st(1) parse_shown_value)
  have "op_mode oper = M_set \<Longrightarrow> mm_path ?meta" by (simp add: no_meta_def)
  then show "\<not> isOperationBlank ?o" using c(1) by (auto simp: isOperationBlank_def Let_def f)
  have "list_all (\<lambda>v. \<not> nullish v) (map json_nf (cond_payloads oper))"
    by (auto simp: list_all_iff nullish_def buildConditionPayload_def Let_def map_filter_def split: if_splits)
  then show "op_readable (nf_obj (operation_payload oper))"
    by (cases "op_logic oper") (simp_all add: op_readable_def get_own_nf g)
qed

lemma json_readable_set_if:
  "json_readable (JObj ob) \<Longrightarrow> json_readable v \<Longrightarrow> json_readable (JObj (set_if b k v ob))"
  using json_readable_set by (simp add: set_if_def)

lemma cond_payloads_readable: "buildConditionPayload c = Some p \<Longrightarrow> json_readable p"
proof -
  assume "buildConditionPayload c = Some p"
  then have p: "p = JObj (set_if (c_pass_missing_key c) (js ''pass_missing_key'') (JBool True)
      (set_if (c_invert c) (js ''invert'') (JBool True)
        [(js ''path'', JStr (trim (c_path c))), (js ''mode'', JStr (cond_mode_value (c_mode c))),
         (js ''value'', parseLooseValue (c_value_text c))]))"
    by (auto simp: buildConditionPayload_def Let_def set_if_def split: if_splits)
  show ?thesis
    unfolding p by (intro json_readable_set_if) (simp_all add: obj_canon_names is_digit_def parseLooseValue_readable)
qed

lemma operation_payload_readable: "json_readable (JObj (operation_payload oper))"
proof -
  have "json_readable (JArr (cond_payloads oper))"
    using cond_payloads_readable by (auto simp: map_filter_def)
  then show ?thesis
    unfolding operation_payload_def Let_def
    by (intro json_readable_set_if) (simp_all add: obj_canon_def parseLooseValue_readable)
qed

lemma trim_json_ind_obj [simp]: "trim (json_ind n (JObj ob)) = json_ind n (JObj ob)"
  by (rule trim_trimmed) (auto simp: trimmed_def is_ws_def js_def Let_def)

lemma json_ind_obj_not_Nil [simp]: "json_ind n (JObj ob) \<noteq> []"
  by (simp add: Let_def js_def)

lemma operations_json_readable:
  "json_readable (operations_json (map (\<lambda>oper. JObj (operation_payload oper)) ops))"
  using operation_payload_readable by (auto simp: operations_json_def obj_canon_def simp del: json_readable.simps(7))
     (auto simp: obj_canon_def)

lemma buildOperationsJson_Inr:
  assumes "buildOperationsJson t v ops = Inr text" and "text \<noteq> []"
  shows "text = json_ind 0 (operations_json (map (\<lambda>oper. JObj (operation_payload oper)) (filter (\<lambda>x. \<not> isOperationBlank x) ops)))"
    and "filter (\<lambda>x. \<not> isOperationBlank x) ops \<noteq> []"
    and "v \<Longrightarrow> validateOperations t (filter (\<lambda>x. \<not> isOperationBlank x) ops) = Inr []"
  using assms by (auto simp: buildOperationsJson_def Let_def rbind_Inr_iff split: if_splits)

text \<open>
  C3. Saving, reopening and saving again gives the same text. When the editor prints its rules
  (validation on), parsing that text as the stored value succeeds, shows the visual rule editor with
  the text itself in the JSON view, and printing the rules read back reproduces the text exactly,
  provided that no value is a string which the editor would display as some other JSON value.
\<close>

theorem save_reopen_save:
  assumes t: "\<And>key opts. t key opts \<noteq> []"
    and b: "buildOperationsJson t True ops = Inr text" "text \<noteq> []"
    and st: "list_all op_stable (filter (\<lambda>x. \<not> isOperationBlank x) ops)"
  shows "\<exists>st s'. parseInitialState clk (JStr text) s = (Inr st, s') \<and>
    is_editMode st = E_visual \<and> is_visualMode st = V_operations \<and> is_jsonText st = text \<and>
    buildOperationsJson t False (is_operations st) = Inr text"
proof -
  let ?os = "filter (\<lambda>x. \<not> isOperationBlank x) ops"
  let ?obs = "map (\<lambda>x. nf_obj (operation_payload x)) ?os"
  let ?j = "operations_json (map (\<lambda>oper. JObj (operation_payload oper)) ?os)"
  note r = buildOperationsJson_Inr [OF b]
  have c: "list_all op_complete ?os"
    by (rule validateOperations_ok [where t = t]) (use t r(3) in auto)
  have nf: "json_nf ?j = JObj [(js ''operations'', JArr (map JObj ?obs))]"
    by (simp add: operations_json_def comp_def)
  have parse: "json_parse text = Some (JObj [(js ''operations'', JArr (map JObj ?obs))])"
    using pretty.dec_enc_norm [OF operations_json_readable [of ?os]] r(1) nf by simp
  have print: "json_ind 0 (JObj [(js ''operations'', JArr (map JObj ?obs))]) = text"
    using json_ind_nf [of 0 ?j] r(1) nf by simp
  have shown: "op_readable (nf_obj (operation_payload x)) \<and> \<not> isOperationBlank (op_data (nf_obj (operation_payload x))) \<and>
      operation_payload (op_data (nf_obj (operation_payload x))) = nf_obj (operation_payload x)" if "x \<in> set ?os" for x
    using payload_of_shown [of x] c st that by (auto simp: list_all_iff)
  then have "list_all op_readable ?obs" by (auto simp: list_all_iff)
  from imap_normalizeOperation_data [OF this, of clk s] obtain os' s' where
    i: "imap (normalizeOperation clk) (map JObj ?obs) s = (Inr os', s')" and d: "map strip_op os' = map op_data ?obs" by blast
  have "\<not> isOperationBlank x" if "x \<in> set os'" for x
  proof -
    have "strip_op x \<in> set (map op_data ?obs)" using d that by (metis image_eqI set_map)
    then obtain y where "y \<in> set ?os" "strip_op x = op_data (nf_obj (operation_payload y))" by auto
    then show ?thesis using shown [of y] isOperationBlank_strip [of x] by auto
  qed
  then have nb: "filter (\<lambda>x. \<not> isOperationBlank x) os' = os'" by (auto intro: filter_True)
  have "map operation_payload os' = map operation_payload (map strip_op os')" by simp
  also have "\<dots> = map (\<lambda>x. operation_payload (op_data (nf_obj (operation_payload x)))) ?os" using d by simp
  also have "\<dots> = ?obs" using shown by simp
  finally have pl: "map operation_payload os' = ?obs" .
  have ne: "os' \<noteq> []" using pl r(2) by (metis Nil_is_map_conv)
  have "map (\<lambda>oper. JObj (operation_payload oper)) os' = map JObj (map operation_payload os')" by simp
  then have "map (\<lambda>oper. JObj (operation_payload oper)) os' = map JObj ?obs" unfolding pl .
  then have bld: "buildOperationsJson t False os' = Inr text"
    using print ne by (simp add: buildOperationsJson_def nb operations_json_def del: json_ind.simps)
  have tt: "trim text = text" unfolding print [symmetric] by (rule trim_json_ind_obj)
  have "parseInitialState clk (JStr text) s = (Inr \<lparr>is_editMode = E_visual, is_visualMode = V_operations,
      is_legacyValue = [], is_operations = os', is_jsonText = text, is_jsonError = []\<rparr>, s')"
    using b(2) r(2) i print by (simp add: parseInitialState_def tt parse Let_def normalize_all_def ibind_def del: json_ind.simps)
  with bld show ?thesis by auto
qed

definition sample_delete :: operation where
  "sample_delete = \<lparr>op_id = js ''a'', op_description = [], op_path = js ''x'', op_mode = M_delete, op_value_text = [],
     op_keep_origin = False, op_from = [], op_to = [], op_logic = L_OR, op_conditions = []\<rparr>"

lemma sample_delete_complete: "op_complete sample_delete" "op_stable sample_delete" "\<not> isOperationBlank sample_delete"
  by (simp_all add: op_complete_def op_stable_def isOperationBlank_def sample_delete_def no_meta_def VALUE_REQUIRED_MODES_def)

theorem save_reopen_save_witness:
  "\<exists>text st s'. buildOperationsJson (\<lambda>key opts. [33]) True [sample_delete] = Inr text \<and>
    parseInitialState (\<lambda>_. 7) (JStr text) 0 = (Inr st, s') \<and>
    buildOperationsJson (\<lambda>key opts. [33]) False (is_operations st) = Inr text"
proof -
  let ?text = "json_ind 0 (operations_json [JObj (operation_payload sample_delete)])"
  have b: "buildOperationsJson (\<lambda>key opts. [33]) True [sample_delete] = Inr ?text"
    using sample_delete_complete validateOperations_complete [of "[sample_delete]"] by (simp add: buildOperationsJson_def)
  have "?text \<noteq> []" unfolding operations_json_def by (rule json_ind_obj_not_Nil)
  from save_reopen_save [OF _ b this, of "\<lambda>_. 7" 0] show ?thesis using b sample_delete_complete by auto
qed

definition sample_set5 :: operation where
  "sample_set5 = \<lparr>op_id = js ''a'', op_description = [], op_path = js ''x'', op_mode = M_set,
     op_value_text = quote (js ''5''), op_keep_origin = False, op_from = [], op_to = [], op_logic = L_OR,
     op_conditions = []\<rparr>"

lemma json_parse_quoted: "json_parse (quote s) = Some (JStr s)"
  using compact.dec_enc [of "JStr s"] by simp

lemma json_parse_five: "json_parse (js ''5'') = Some (JNum (Num 5))"
proof -
  have "json_str (JNum (Num 5)) = js ''5''"
    using num_to_string_of_nat [of 5] by (simp add: num_finite_def js_def dec.simps del: num_to_string.simps)
  moreover have "json_wf (JNum (Num 5))" using is_double_of_nat [of 5] by simp
  ultimately show ?thesis using compact.dec_enc by metis
qed

lemma parseLooseValue_five:
  "parseLooseValue (quote (js ''5'')) = JStr (js ''5'')" "parseLooseValue (js ''5'') = JNum (Num 5)"
proof -
  have "trim (quote (js ''5'')) \<noteq> []" by (simp add: trim_eq_Nil_iff quote_def is_ws_def)
  then show "parseLooseValue (quote (js ''5'')) = JStr (js ''5'')" by (simp add: parseLooseValue_def json_parse_quoted)
  have "trim (js ''5'') \<noteq> []" by (simp add: trim_eq_Nil_iff js_def is_ws_def)
  then show "parseLooseValue (js ''5'') = JNum (Num 5)" by (simp add: parseLooseValue_def json_parse_five)
qed

text \<open>
  A string value that looks like another JSON value does not survive: a rule that sets a field
  to the string 5 (typed with its quotes) is saved with the string, is shown without the quotes when
  the value is reopened, and the next save writes the number 5.
\<close>

theorem string_value_drift:
  "\<exists>text st s' text'.
     buildOperationsJson t True [sample_set5] = Inr text \<and>
     json_parse text = Some (operations_json [JObj [(js ''mode'', JStr (js ''set'')), (js ''path'', JStr (js ''x'')),
       (js ''value'', JStr (js ''5''))]]) \<and>
     parseInitialState clk (JStr text) s = (Inr st, s') \<and>
     buildOperationsJson t True (is_operations st) = Inr text' \<and>
     json_parse text' = Some (operations_json [JObj [(js ''mode'', JStr (js ''set'')), (js ''path'', JStr (js ''x'')),
       (js ''value'', JNum (Num 5))]])"
proof -
  let ?ob = "\<lambda>v. [(js ''mode'', JStr (js ''set'')), (js ''path'', JStr (js ''x'')), (js ''value'', v)]"
  let ?text = "\<lambda>v. json_ind 0 (operations_json [JObj (?ob v)])"
  let ?o = "\<lambda>i. \<lparr>op_id = i, op_description = [], op_path = js ''x'', op_mode = M_set, op_value_text = js ''5'',
     op_keep_origin = False, op_from = [], op_to = [], op_logic = L_OR, op_conditions = []\<rparr>"
  have ap: "obj_canon (?ob v)" for v by (simp add: obj_canon_names is_digit_def)
  have wf: "json_wf v \<Longrightarrow> json_wf (operations_json [JObj (?ob v)])" for v
    using ap by (simp add: operations_json_def obj_canon_def [of "[_]"])
  have five: "json_wf (JNum (Num 5))" using is_double_of_nat [of 5] by simp
  have app: "obj_set (js ''value'') v (obj_set (js ''path'') p [(js ''mode'', m)]) =
      [(js ''mode'', m), (js ''path'', p), (js ''value'', v)]" for m p v
    by (simp add: obj_set_def is_digit_def)
  have pl: "operation_payload sample_set5 = ?ob (JStr (js ''5''))" "operation_payload (?o i) = ?ob (JNum (Num 5))" for i
    by (simp_all add: operation_payload_def sample_set5_def no_meta_def Let_def set_if_def map_filter_simps
        parseLooseValue_five app)
  have cmp: "op_complete sample_set5" "op_complete (?o i)" "\<not> isOperationBlank sample_set5" "\<not> isOperationBlank (?o i)" for i
    by (simp_all add: op_complete_def sample_set5_def no_meta_def VALUE_REQUIRED_MODES_def isOperationBlank_def)
  have b: "buildOperationsJson t True [sample_set5] = Inr (?text (JStr (js ''5'')))"
    "buildOperationsJson t True [?o i] = Inr (?text (JNum (Num 5)))" for i
    using cmp validateOperations_complete [of "[sample_set5]"] validateOperations_complete [of "[?o i]"]
    by (simp_all add: buildOperationsJson_def pl)
  have ps: "json_parse (?text (JStr (js ''5''))) = Some (operations_json [JObj (?ob (JStr (js ''5'')))])"
    "json_parse (?text (JNum (Num 5))) = Some (operations_json [JObj (?ob (JNum (Num 5)))])"
    using pretty.dec_enc wf five by simp_all
  have "op_mode_of (js ''set'') = Some M_set" using op_mode_of_value [of M_set] by simp
  then have n: "normalizeOperation clk (JObj (?ob (JStr (js ''5'')))) s = (Inr (?o (local_id clk s)), Suc s)"
    by (simp add: normalizeOperation_def get_prop_def string_or_empty_def op_mode_or_set_def js_or_def)
  have "parseInitialState clk (JStr (?text (JStr (js ''5'')))) s =
     (Inr \<lparr>is_editMode = E_visual, is_visualMode = V_operations, is_legacyValue = [],
        is_operations = [?o (local_id clk s)], is_jsonText = ?text (JStr (js ''5'')), is_jsonError = []\<rparr>, Suc s)"
    using ps(1) n by (simp add: parseInitialState_def operations_json_def normalize_all_def ibind_def Let_def del: json_ind.simps)
  then show ?thesis using b ps by (metis initial_state.select_convs(4))
qed

theorem reorder_places_witness:
  "\<exists>a b. filter (\<lambda>x. op_id x \<noteq> op_id sample_delete) [sample_op\<lparr>op_id := js ''b''\<rparr>, sample_delete] = a @ (sample_op\<lparr>op_id := js ''b''\<rparr>) # b \<and>
    reorderOperations [sample_op\<lparr>op_id := js ''b''\<rparr>, sample_delete] (op_id sample_delete) (js ''b'') Before =
      a @ sample_delete # (sample_op\<lparr>op_id := js ''b''\<rparr>) # b"
  using reorder_places [of "[sample_op\<lparr>op_id := js ''b''\<rparr>, sample_delete]" sample_delete "sample_op\<lparr>op_id := js ''b''\<rparr>" Before]
  by (simp add: sample_op_def sample_delete_def)

end
