(* ===== verification/ParamOverrideEditor.thy ===== *)
theory ParamOverrideEditor
  imports ParamOverrideOperations
begin

text \<open>
  The component \<open>ParamOverrideEditorModal\<close> as a state machine. The record \<open>editor\<close> has one field per
  \<open>useState\<close>; every handler is a function from the state to the new state and the toasts and
  callbacks it issues, drawing ids from the module counter; an exception that a handler does not
  catch leaves the state as it was. \<open>settle\<close> runs the two effects that repair the selection and the
  template key, and a render may draw any number of ids (the initialiser of the operations state and
  the pruning form do). The values computed with \<open>useMemo\<close> are functions of the state.
\<close>

subsection \<open>Environment, state, outputs\<close>

text \<open>The translation function, the clock, and the engine's text of a TypeError.\<close>

record env =
  env_t :: i18n
  env_clock :: clock
  env_typeErrorMessage :: jstring

record editor =
  ed_editMode :: edit_mode
  ed_visualMode :: visual_mode
  ed_legacyValue :: jstring
  ed_operations :: "operation list"
  ed_jsonText :: jstring
  ed_jsonError :: jstring
  ed_operationSearch :: jstring
  ed_selectedOperationId :: jstring
  ed_expandedConditionMap :: "(jstring \<times> jstring list) list"
  ed_draggedOperationId :: jstring
  ed_dragOverOperationId :: jstring
  ed_dragOverPosition :: position
  ed_templateGroupKey :: jstring
  ed_templatePresetKey :: jstring
  ed_headerValueExampleVisible :: bool
  ed_fieldGuideVisible :: bool
  ed_fieldGuideTarget :: guide_target
  ed_fieldGuideKeyword :: jstring

datatype effect = ShowError jstring | ShowSuccess jstring | OnSave jstring

type_synonym handler = "editor \<Rightarrow> (editor \<times> effect list) idm"

definition exn_message :: "env \<Rightarrow> exn \<Rightarrow> jstring" where
  "exn_message env e = (case e of TypeError \<Rightarrow> env_typeErrorMessage env | Error m \<Rightarrow> m)"

definition MSG_not_json :: jstring where
  "MSG_not_json = [0x53C2, 0x6570, 0x8986, 0x76D6, 0x5FC5, 0x987B, 0x662F, 0x5408, 0x6CD5, 0x7684] @ js '' JSON '' @ [0x683C, 0x5F0F, 0xFF01]"

definition MSG_legacy_object :: jstring where
  "MSG_legacy_object = [0x65E7, 0x683C, 0x5F0F, 0x5FC5, 0x987B, 0x662F] @ js '' JSON '' @ [0x5BF9, 0x8C61]"

definition MSG_config_error :: jstring where
  "MSG_config_error = [0x53C2, 0x6570, 0x914D, 0x7F6E, 0x6709, 0x8BEF]"

definition MSG_not_object :: jstring where
  "MSG_not_object = [0x53C2, 0x6570, 0x8986, 0x76D6, 0x5FC5, 0x987B, 0x662F, 0x5408, 0x6CD5, 0x7684] @ js '' JSON '' @ [0x5BF9, 0x8C61]"

definition MSG_append_invalid :: jstring where
  "MSG_append_invalid = [0x5F53, 0x524D, 0x65E7, 0x683C, 0x5F0F] @ js '' JSON '' @ [0x4E0D, 0x5408, 0x6CD5, 0xFF0C, 0x65E0, 0x6CD5, 0x8FFD, 0x52A0, 0x6A21, 0x677F]"

definition MSG_append_not_object :: jstring where
  "MSG_append_not_object = [0x5F53, 0x524D, 0x65E7, 0x683C, 0x5F0F, 0x4E0D, 0x662F] @ js '' JSON '' @ [0x5BF9, 0x8C61, 0xFF0C, 0x65E0, 0x6CD5, 0x8FFD, 0x52A0, 0x6A21, 0x677F]"

definition MSG_select_first :: jstring where
  "MSG_select_first = [0x8BF7, 0x5148, 0x9009, 0x62E9, 0x4E00, 0x6761, 0x89C4, 0x5219]"

definition MSG_position_unsupported :: jstring where
  "MSG_position_unsupported = [0x5F53, 0x524D, 0x89C4, 0x5219, 0x4E0D, 0x652F, 0x6301, 0x5199, 0x5165, 0x5230, 0x8BE5, 0x4F4D, 0x7F6E]"

definition MSG_copied :: jstring where
  "MSG_copied = [0x5DF2, 0x590D, 0x5236, 0x5B57, 0x6BB5, 0xFF1A] @ js ''{{name}}''"

definition MSG_copy_failed :: jstring where
  "MSG_copy_failed = [0x590D, 0x5236, 0x5931, 0x8D25]"

definition MSG_guide_from :: jstring where
  "MSG_guide_from = [0x586B, 0x5165, 0x6765, 0x6E90]"

definition MSG_guide_to :: jstring where
  "MSG_guide_to = [0x586B, 0x5165, 0x76EE, 0x6807]"

definition MSG_guide_path :: jstring where
  "MSG_guide_path = [0x586B, 0x5165, 0x8DEF, 0x5F84]"

definition MSG_value_not_json :: jstring where
  "MSG_value_not_json = [0x5F53, 0x524D, 0x503C, 0x4E0D, 0x662F, 0x5408, 0x6CD5] @ js '' JSON'' @ [0xFF0C, 0x65E0, 0x6CD5, 0x683C, 0x5F0F, 0x5316]"

definition MSG_formatted :: jstring where
  "MSG_formatted = js ''JSON '' @ [0x5DF2, 0x683C, 0x5F0F, 0x5316]"

definition MSG_json_error :: jstring where
  "MSG_json_error = js ''JSON'' @ [0x683C, 0x5F0F, 0x9519, 0x8BEF]"

subsection \<open>Opening\<close>

definition first_id :: "operation list \<Rightarrow> jstring" where
  "first_id ops = (case ops of [] \<Rightarrow> [] | oper # _ \<Rightarrow> op_id oper)"

text \<open>The effect on \<open>[visible, value]\<close>.\<close>

definition open_editor :: "env \<Rightarrow> jsval \<Rightarrow> editor idm" where
  "open_editor env value =
     ibind (parseInitialState (env_clock env) value) (\<lambda>nextState.
     ireturn \<lparr>ed_editMode = is_editMode nextState, ed_visualMode = is_visualMode nextState,
       ed_legacyValue = is_legacyValue nextState, ed_operations = is_operations nextState,
       ed_jsonText = is_jsonText nextState, ed_jsonError = is_jsonError nextState,
       ed_operationSearch = [], ed_selectedOperationId = first_id (is_operations nextState),
       ed_expandedConditionMap = [], ed_draggedOperationId = [], ed_dragOverOperationId = [],
       ed_dragOverPosition = Before, ed_templateGroupKey = js ''basic'',
       ed_templatePresetKey =
         (if is_visualMode nextState = V_legacy then js ''legacy_default'' else js ''operations_default''),
       ed_headerValueExampleVisible = False, ed_fieldGuideVisible = False,
       ed_fieldGuideTarget = G_path, ed_fieldGuideKeyword = []\<rparr>)"

subsection \<open>Effects\<close>

definition fix_selection :: "editor \<Rightarrow> editor" where
  "fix_selection ed =
     (if ed_operations ed = [] then ed\<lparr>ed_selectedOperationId := []\<rparr>
      else if \<not> list_ex (\<lambda>item. op_id item = ed_selectedOperationId ed) (ed_operations ed)
      then ed\<lparr>ed_selectedOperationId := first_id (ed_operations ed)\<rparr>
      else ed)"

definition templatePresetOptions :: "editor \<Rightarrow> (jstring \<times> jstring) list" where
  "templatePresetOptions ed =
     map (\<lambda>(value, config). (value, tp_label config))
       (filter (\<lambda>(_, config). tp_group config = ed_templateGroupKey ed) TEMPLATE_PRESET_CONFIG)"

definition fix_preset :: "editor \<Rightarrow> editor" where
  "fix_preset ed =
     (case templatePresetOptions ed of
        [] \<Rightarrow> ed
      | (value, _) # _ \<Rightarrow>
          if ed_templatePresetKey ed \<in> set (map fst (templatePresetOptions ed)) then ed
          else ed\<lparr>ed_templatePresetKey := value\<rparr>)"

definition settle :: "editor \<Rightarrow> editor" where
  "settle ed = fix_preset (fix_selection ed)"

subsection \<open>Derived values\<close>

definition operationCount :: "editor \<Rightarrow> nat" where
  "operationCount ed = length (filter (\<lambda>item. \<not> isOperationBlank item) (ed_operations ed))"

definition filteredOperations :: "editor \<Rightarrow> operation list" where
  "filteredOperations ed =
     (let keyword = to_lower (trim (ed_operationSearch ed)) in
      if keyword = [] then ed_operations ed
      else filter (\<lambda>oper.
        str_includes
          (to_lower (join [32] (filter (\<lambda>s. s \<noteq> [])
            [op_description oper, op_mode_value (op_mode oper), op_path oper, op_from oper, op_to oper, op_value_text oper])))
          keyword) (ed_operations ed))"

definition find_operation :: "jstring \<Rightarrow> operation list \<Rightarrow> operation option" where
  "find_operation i ops = List.find (\<lambda>oper. op_id oper = i) ops"

definition selectedOperation :: "editor \<Rightarrow> operation option" where
  "selectedOperation ed = find_operation (ed_selectedOperationId ed) (ed_operations ed)"

definition selectedOperationIndex :: "editor \<Rightarrow> nat option" where
  "selectedOperationIndex ed = find_index (\<lambda>oper. op_id oper = ed_selectedOperationId ed) (ed_operations ed)"

definition returnErrorDraft :: "editor \<Rightarrow> return_error_draft option" where
  "returnErrorDraft ed = (case selectedOperation ed of
       Some oper \<Rightarrow> if op_mode oper \<noteq> M_return_error then None else Some (parseReturnErrorDraft (op_value_text oper))
     | None \<Rightarrow> None)"

definition pruneObjectsDraft :: "env \<Rightarrow> editor \<Rightarrow> prune_draft option idm" where
  "pruneObjectsDraft env ed = (case selectedOperation ed of
       Some oper \<Rightarrow>
         if op_mode oper \<noteq> M_prune_objects then ireturn None
         else ibind (parsePruneObjectsDraft (env_clock env) (op_value_text oper)) (\<lambda>d. ireturn (Some d))
     | None \<Rightarrow> ireturn None)"

text \<open>\<open>acc[mode] = (acc[mode] || 0) + 1\<close>, in insertion order; the sort is stable.\<close>

fun bump_mode :: "op_mode \<Rightarrow> (op_mode \<times> nat) list \<Rightarrow> (op_mode \<times> nat) list" where
  "bump_mode m [] = [(m, 1)]"
| "bump_mode m ((m', n) # acc) = (if m' = m then (m', n + 1) # acc else (m', n) # bump_mode m acc)"

definition mode_counts :: "operation list \<Rightarrow> (op_mode \<times> nat) list" where
  "mode_counts ops = foldl (\<lambda>acc oper. bump_mode (op_mode oper) acc) [] ops"

definition topOperationModes :: "editor \<Rightarrow> (op_mode \<times> nat) list" where
  "topOperationModes ed = take 4 (sort_key (\<lambda>mc. - int (snd mc)) (mode_counts (ed_operations ed)))"

definition field_matches :: "jstring \<Rightarrow> builtin_field \<Rightarrow> bool" where
  "field_matches keyword field =
     str_includes (to_lower (join [32] (filter (\<lambda>s. s \<noteq> []) [bf_key field, bf_label field, bf_tip field]))) keyword"

definition filteredFieldGuideSections :: "editor \<Rightarrow> field_section list" where
  "filteredFieldGuideSections ed =
     (let keyword = to_lower (trim (ed_fieldGuideKeyword ed)) in
      if keyword = [] then BUILTIN_FIELD_SECTIONS
      else filter (\<lambda>section. fs_fields section \<noteq> [])
             (map (\<lambda>section. section\<lparr>fs_fields := filter (field_matches keyword) (fs_fields section)\<rparr>)
               BUILTIN_FIELD_SECTIONS))"

definition fieldGuideActionLabel :: "env \<Rightarrow> editor \<Rightarrow> jstring" where
  "fieldGuideActionLabel env ed = (case ed_fieldGuideTarget ed of
       G_from \<Rightarrow> env_t env MSG_guide_from []
     | G_to \<Rightarrow> env_t env MSG_guide_to []
     | G_path \<Rightarrow> env_t env MSG_guide_path [])"

definition fieldGuideFieldCount :: "editor \<Rightarrow> nat" where
  "fieldGuideFieldCount ed = foldl (\<lambda>total section. total + length (fs_fields section)) 0 (filteredFieldGuideSections ed)"

subsection \<open>Printing the visual state\<close>

definition buildVisualJson :: "env \<Rightarrow> editor \<Rightarrow> jstring res" where
  "buildVisualJson env ed =
     (if ed_visualMode ed = V_legacy then
        (let trimmed = trim (ed_legacyValue ed) in
         if trimmed = [] then Inr []
         else (case json_parse trimmed of
                 None \<Rightarrow> Inl (Error (env_t env MSG_not_json []))
               | Some (JObj ob) \<Rightarrow> Inr (json_ind 0 (JObj ob))
               | Some _ \<Rightarrow> Inl (Error (env_t env MSG_legacy_object []))))
      else buildOperationsJson (env_t env) True (ed_operations ed))"

definition visualValidationError :: "env \<Rightarrow> editor \<Rightarrow> jstring" where
  "visualValidationError env ed =
     (if ed_editMode ed \<noteq> E_visual then []
      else (case buildVisualJson env ed of
              Inr _ \<Rightarrow> []
            | Inl e \<Rightarrow> if exn_message env e \<noteq> [] then exn_message env e else env_t env MSG_config_error []))"

subsection \<open>Switching views\<close>

definition switchToJsonMode :: "env \<Rightarrow> handler" where
  "switchToJsonMode env ed =
     (if ed_editMode ed = E_json then ireturn (ed, [])
      else (case buildVisualJson env ed of
        Inr text \<Rightarrow> ireturn (ed\<lparr>ed_jsonText := text, ed_jsonError := [], ed_editMode := E_json\<rparr>, [])
      | Inl e \<Rightarrow>
          ibind (if ed_visualMode ed = V_legacy then ireturn (ed_legacyValue ed)
                 else ilift (buildOperationsJson (env_t env) False (ed_operations ed))) (\<lambda>text.
          ireturn
            (ed\<lparr>ed_jsonText := text,
                ed_jsonError := (if exn_message env e \<noteq> [] then exn_message env e else env_t env MSG_config_error []),
                ed_editMode := E_json\<rparr>,
             [ShowError (exn_message env e)]))))"

definition switchToVisualMode :: "env \<Rightarrow> handler" where
  "switchToVisualMode env ed =
     (if ed_editMode ed = E_visual then ireturn (ed, [])
      else
        (let trimmed = trim (ed_jsonText ed) in
         if trimmed = [] then
           ibind (createDefaultOperation (env_clock env)) (\<lambda>fallback.
           ireturn (ed\<lparr>ed_visualMode := V_operations, ed_operations := [fallback],
             ed_selectedOperationId := op_id fallback, ed_legacyValue := [], ed_jsonError := [],
             ed_editMode := E_visual\<rparr>, []))
         else (case json_parse trimmed of
           None \<Rightarrow> ireturn (ed, [ShowError (env_t env MSG_not_json [])])
         | Some (JObj ob) \<Rightarrow>
             (case get_own ob (js ''operations'') of
                JArr items \<Rightarrow>
                  ibind (normalize_all (env_clock env) items) (\<lambda>nextOperations.
                  ireturn (ed\<lparr>ed_visualMode := V_operations, ed_operations := nextOperations,
                    ed_selectedOperationId := first_id nextOperations, ed_legacyValue := [], ed_jsonError := [],
                    ed_editMode := E_visual, ed_templateGroupKey := js ''basic'',
                    ed_templatePresetKey := js ''operations_default''\<rparr>, []))
              | _ \<Rightarrow>
                  ibind (createDefaultOperation (env_clock env)) (\<lambda>fallback.
                  ireturn (ed\<lparr>ed_visualMode := V_legacy, ed_legacyValue := json_ind 0 (JObj ob),
                    ed_operations := [fallback], ed_selectedOperationId := op_id fallback, ed_jsonError := [],
                    ed_editMode := E_visual, ed_templateGroupKey := js ''basic'',
                    ed_templatePresetKey := js ''legacy_default''\<rparr>, [])))
         | Some _ \<Rightarrow> ireturn (ed, [ShowError (env_t env MSG_not_object [])]))))"

subsection \<open>Templates\<close>

text \<open>The state after a legacy object was put into the editor, by filling or appending.\<close>

definition put_legacy :: "env \<Rightarrow> jsobj \<Rightarrow> handler" where
  "put_legacy env ob ed =
     (let text = json_ind 0 (JObj ob) in
      ibind (createDefaultOperation (env_clock env)) (\<lambda>fallback.
      ireturn (ed\<lparr>ed_visualMode := V_legacy, ed_legacyValue := text, ed_operations := [fallback],
        ed_selectedOperationId := op_id fallback, ed_expandedConditionMap := [], ed_jsonText := text,
        ed_jsonError := [], ed_editMode := E_visual\<rparr>, [])))"

definition fillLegacyTemplate :: "env \<Rightarrow> jsobj \<Rightarrow> handler" where
  "fillLegacyTemplate env legacyPayload = put_legacy env legacyPayload"

definition fillOperationsTemplate :: "env \<Rightarrow> jsval list \<Rightarrow> handler" where
  "fillOperationsTemplate env operationsPayload ed =
     ibind (imap (normalizeOperation (env_clock env)) operationsPayload) (\<lambda>nextOperations.
     ibind (if nextOperations \<noteq> [] then ireturn nextOperations
            else ibind (createDefaultOperation (env_clock env)) (\<lambda>d. ireturn [d])) (\<lambda>finalOperations.
     ireturn (ed\<lparr>ed_visualMode := V_operations, ed_operations := finalOperations,
       ed_selectedOperationId := first_id finalOperations, ed_expandedConditionMap := [],
       ed_jsonText := json_ind 0 (operations_json operationsPayload), ed_jsonError := [],
       ed_editMode := E_visual\<rparr>, [])))"

definition appendLegacyTemplate :: "env \<Rightarrow> jsobj \<Rightarrow> handler" where
  "appendLegacyTemplate env legacyPayload ed =
     (let trimmed = trim (ed_legacyValue ed) in
      if ed_visualMode ed = V_legacy \<and> trimmed \<noteq> [] then
        (case json_parse trimmed of
           None \<Rightarrow> ireturn (ed, [ShowError (env_t env MSG_append_invalid [])])
         | Some (JObj parsed) \<Rightarrow> put_legacy env (obj_merge (obj_merge [] legacyPayload) parsed) ed
         | Some _ \<Rightarrow> ireturn (ed, [ShowError (env_t env MSG_append_not_object [])]))
      else put_legacy env (obj_merge (obj_merge [] legacyPayload) []) ed)"

definition appendOperationsTemplate :: "env \<Rightarrow> jsval list \<Rightarrow> handler" where
  "appendOperationsTemplate env operationsPayload ed =
     ibind (imap (normalizeOperation (env_clock env)) operationsPayload) (\<lambda>appended.
       let existing = (if ed_visualMode ed = V_operations
                       then filter (\<lambda>item. \<not> isOperationBlank item) (ed_operations ed) else []);
           nextOperations = existing @ appended
       in ireturn (ed\<lparr>ed_visualMode := V_operations,
            ed_operations := (if nextOperations \<noteq> [] then nextOperations else appended),
            ed_selectedOperationId := (if first_id nextOperations \<noteq> [] then first_id nextOperations else first_id appended),
            ed_expandedConditionMap := [], ed_legacyValue := [], ed_jsonError := [],
            ed_editMode := E_visual, ed_jsonText := []\<rparr>, []))"

definition clearValue :: "env \<Rightarrow> handler" where
  "clearValue env ed =
     ibind (createDefaultOperation (env_clock env)) (\<lambda>fallback.
     ireturn (ed\<lparr>ed_visualMode := V_operations, ed_legacyValue := [], ed_operations := [fallback],
       ed_selectedOperationId := op_id fallback, ed_expandedConditionMap := [], ed_jsonText := [],
       ed_jsonError := [], ed_templateGroupKey := js ''basic'',
       ed_templatePresetKey := js ''operations_default''\<rparr>, []))"

definition resetEditorState :: "env \<Rightarrow> handler" where
  "resetEditorState env ed =
     ibind (clearValue env ed) (\<lambda>(ed', outs). ireturn (ed'\<lparr>ed_editMode := E_visual\<rparr>, outs))"

definition getSelectedTemplatePreset :: "editor \<Rightarrow> template_payload" where
  "getSelectedTemplatePreset ed = (case map_of TEMPLATE_PRESET_CONFIG (ed_templatePresetKey ed) of
       Some preset \<Rightarrow> tp_payload preset
     | None \<Rightarrow> Operations OPERATION_TEMPLATE)"

definition fillTemplateFromLibrary :: "env \<Rightarrow> handler" where
  "fillTemplateFromLibrary env ed = (case getSelectedTemplatePreset ed of
       Legacy ob \<Rightarrow> fillLegacyTemplate env ob ed
     | Operations ops \<Rightarrow> fillOperationsTemplate env ops ed)"

definition appendTemplateFromLibrary :: "env \<Rightarrow> handler" where
  "appendTemplateFromLibrary env ed = (case getSelectedTemplatePreset ed of
       Legacy ob \<Rightarrow> appendLegacyTemplate env ob ed
     | Operations ops \<Rightarrow> appendOperationsTemplate env ops ed)"

subsection \<open>Editing one operation\<close>

text \<open>The properties of a patch object, in order: \<open>{ ...item, ...patch }\<close>.\<close>

datatype op_patch =
    Op_description jstring
  | Op_path jstring
  | Op_mode op_mode
  | Op_value_text jstring
  | Op_keep_origin bool
  | Op_from jstring
  | Op_to jstring
  | Op_logic logic

fun apply_op_patch :: "operation \<Rightarrow> op_patch \<Rightarrow> operation" where
  "apply_op_patch item (Op_description s) = item\<lparr>op_description := s\<rparr>"
| "apply_op_patch item (Op_path s) = item\<lparr>op_path := s\<rparr>"
| "apply_op_patch item (Op_mode m) = item\<lparr>op_mode := m\<rparr>"
| "apply_op_patch item (Op_value_text s) = item\<lparr>op_value_text := s\<rparr>"
| "apply_op_patch item (Op_keep_origin b) = item\<lparr>op_keep_origin := b\<rparr>"
| "apply_op_patch item (Op_from s) = item\<lparr>op_from := s\<rparr>"
| "apply_op_patch item (Op_to s) = item\<lparr>op_to := s\<rparr>"
| "apply_op_patch item (Op_logic l) = item\<lparr>op_logic := l\<rparr>"

definition updateOperation :: "jstring \<Rightarrow> op_patch list \<Rightarrow> editor \<Rightarrow> editor" where
  "updateOperation operationId patch ed =
     ed\<lparr>ed_operations := map_matching op_id operationId (\<lambda>item. foldl apply_op_patch item patch) (ed_operations ed)\<rparr>"

definition applyBuiltinField :: "env \<Rightarrow> jstring \<Rightarrow> guide_target \<Rightarrow> handler" where
  "applyBuiltinField env fieldKey target ed = (case selectedOperation ed of
       None \<Rightarrow> ireturn (ed, [ShowError (env_t env MSG_select_first [])])
     | Some oper \<Rightarrow>
         (let mode = op_mode oper; meta = MODE_META mode;
              spec = (if mode = M_sync_fields then buildSyncTargetSpec S_json fieldKey else fieldKey) in
          if target = G_path \<and> (mm_path meta \<or> mm_pathOptional meta \<or> mm_pathAlias meta)
          then ireturn (updateOperation (op_id oper) [Op_path fieldKey] ed, [])
          else if target = G_from \<and> (mm_from meta \<or> mm_pathAlias meta \<or> mode = M_sync_fields)
          then ireturn (updateOperation (op_id oper) [Op_from spec] ed, [])
          else if target = G_to \<and> (mm_to meta = Some True \<or> mode = M_sync_fields)
          then ireturn (updateOperation (op_id oper) [Op_to spec] ed, [])
          else ireturn (ed, [ShowError (env_t env MSG_position_unsupported [])])))"

definition openFieldGuide :: "guide_target \<Rightarrow> editor \<Rightarrow> editor" where
  "openFieldGuide target ed = ed\<lparr>ed_fieldGuideTarget := target, ed_fieldGuideVisible := True\<rparr>"

text \<open>\<open>ok\<close> is the outcome of the clipboard.\<close>

definition copyBuiltinField :: "env \<Rightarrow> bool \<Rightarrow> jstring \<Rightarrow> handler" where
  "copyBuiltinField env ok fieldKey ed =
     ireturn (ed, [if ok then ShowSuccess (env_t env MSG_copied [(js ''name'', JStr fieldKey)])
                   else ShowError (env_t env MSG_copy_failed [])])"

definition formatSelectedOperationValueAsJson :: "env \<Rightarrow> handler" where
  "formatSelectedOperationValueAsJson env ed = (case selectedOperation ed of
       None \<Rightarrow> ireturn (ed, [])
     | Some oper \<Rightarrow>
         (let raw = trim (op_value_text oper) in
          if raw = [] then ireturn (ed, [])
          else (case json_parse raw of
                  None \<Rightarrow> ireturn (ed, [ShowError (env_t env MSG_value_not_json [])])
                | Some v \<Rightarrow> ireturn (updateOperation (op_id oper) [Op_value_text (json_ind 0 v)] ed,
                               [ShowSuccess (env_t env MSG_formatted [])]))))"

text \<open>The return\_error form.\<close>

datatype re_patch =
    Re_message jstring
  | Re_statusCode jsnum
  | Re_code jstring
  | Re_type jstring
  | Re_skipRetry bool
  | Re_simpleMode bool

fun apply_re_patch :: "return_error_draft \<Rightarrow> re_patch \<Rightarrow> return_error_draft" where
  "apply_re_patch d (Re_message s) = d\<lparr>re_message := s\<rparr>"
| "apply_re_patch d (Re_statusCode n) = d\<lparr>re_statusCode := n\<rparr>"
| "apply_re_patch d (Re_code s) = d\<lparr>re_code := s\<rparr>"
| "apply_re_patch d (Re_type s) = d\<lparr>re_type := s\<rparr>"
| "apply_re_patch d (Re_skipRetry b) = d\<lparr>re_skipRetry := b\<rparr>"
| "apply_re_patch d (Re_simpleMode b) = d\<lparr>re_simpleMode := b\<rparr>"

definition updateReturnErrorDraft :: "jstring \<Rightarrow> re_patch list \<Rightarrow> editor \<Rightarrow> editor" where
  "updateReturnErrorDraft operationId draftPatch ed = (case find_operation operationId (ed_operations ed) of
       None \<Rightarrow> ed
     | Some current \<Rightarrow>
         (let draft = parseReturnErrorDraft (op_value_text current);
              nextDraft = foldl apply_re_patch draft draftPatch in
          updateOperation operationId [Op_value_text (buildReturnErrorValueText nextDraft)] ed))"

text \<open>The status code input: \<open>parseInt(nextValue, 10) || 400\<close>.\<close>

definition status_code_patch :: "jstring \<Rightarrow> re_patch" where
  "status_code_patch nextValue =
     (let n = parse_int10 nextValue in Re_statusCode (if n = NaN \<or> n = Num 0 then Num 400 else n))"

text \<open>The prune\_objects form.\<close>

datatype pd_patch =
    Pd_simpleMode bool
  | Pd_typeText jstring
  | Pd_logic logic
  | Pd_recursive bool

fun apply_pd_patch :: "prune_draft \<Rightarrow> pd_patch \<Rightarrow> prune_draft" where
  "apply_pd_patch d (Pd_simpleMode b) = d\<lparr>pd_simpleMode := b\<rparr>"
| "apply_pd_patch d (Pd_typeText s) = d\<lparr>pd_typeText := s\<rparr>"
| "apply_pd_patch d (Pd_logic l) = d\<lparr>pd_logic := l\<rparr>"
| "apply_pd_patch d (Pd_recursive b) = d\<lparr>pd_recursive := b\<rparr>"

datatype cond_patch =
    Cp_path jstring
  | Cp_mode cond_mode
  | Cp_value_text jstring
  | Cp_invert bool
  | Cp_pass_missing_key bool

fun apply_cond_patch :: "condition \<Rightarrow> cond_patch \<Rightarrow> condition" where
  "apply_cond_patch c (Cp_path s) = c\<lparr>c_path := s\<rparr>"
| "apply_cond_patch c (Cp_mode m) = c\<lparr>c_mode := m\<rparr>"
| "apply_cond_patch c (Cp_value_text s) = c\<lparr>c_value_text := s\<rparr>"
| "apply_cond_patch c (Cp_invert b) = c\<lparr>c_invert := b\<rparr>"
| "apply_cond_patch c (Cp_pass_missing_key b) = c\<lparr>c_pass_missing_key := b\<rparr>"

definition updatePruneObjectsDraft :: "env \<Rightarrow> jstring \<Rightarrow> (prune_draft \<Rightarrow> prune_draft idm) \<Rightarrow> editor \<Rightarrow> editor idm" where
  "updatePruneObjectsDraft env operationId updater ed = (case find_operation operationId (ed_operations ed) of
       None \<Rightarrow> ireturn ed
     | Some current \<Rightarrow>
         ibind (parsePruneObjectsDraft (env_clock env) (op_value_text current)) (\<lambda>draft.
         ibind (updater draft) (\<lambda>nextDraft.
         ireturn (updateOperation operationId [Op_value_text (buildPruneObjectsValueText nextDraft)] ed))))"

definition patchPruneObjectsDraft :: "env \<Rightarrow> jstring \<Rightarrow> pd_patch list \<Rightarrow> editor \<Rightarrow> editor idm" where
  "patchPruneObjectsDraft env operationId patch =
     updatePruneObjectsDraft env operationId (\<lambda>draft. ireturn (foldl apply_pd_patch draft patch))"

definition addPruneRule :: "env \<Rightarrow> jstring \<Rightarrow> editor \<Rightarrow> editor idm" where
  "addPruneRule env operationId =
     updatePruneObjectsDraft env operationId (\<lambda>draft.
       ibind (normalizePruneRule (env_clock env) (JObj [])) (\<lambda>rule.
       ireturn (draft\<lparr>pd_simpleMode := False, pd_rules := pd_rules draft @ [rule]\<rparr>)))"

definition updatePruneRule :: "env \<Rightarrow> jstring \<Rightarrow> jstring \<Rightarrow> cond_patch list \<Rightarrow> editor \<Rightarrow> editor idm" where
  "updatePruneRule env operationId ruleId patch =
     updatePruneObjectsDraft env operationId (\<lambda>draft.
       ireturn (draft\<lparr>pd_rules := map (\<lambda>rule. if c_id rule = ruleId then foldl apply_cond_patch rule patch else rule)
                                  (pd_rules draft)\<rparr>))"

definition removePruneRule :: "env \<Rightarrow> jstring \<Rightarrow> jstring \<Rightarrow> editor \<Rightarrow> editor idm" where
  "removePruneRule env operationId ruleId =
     updatePruneObjectsDraft env operationId (\<lambda>draft.
       ireturn (draft\<lparr>pd_rules := filter (\<lambda>rule. c_id rule \<noteq> ruleId) (pd_rules draft)\<rparr>))"

text \<open>The end points of the sync form: a new type or key for one side, the rest kept.\<close>

definition sync_type_patch :: "guide_target \<Rightarrow> sync_type \<Rightarrow> operation \<Rightarrow> op_patch list" where
  "sync_type_patch side nextType oper =
     (if side = G_to then [Op_to (buildSyncTargetSpec nextType (snd (parseSyncTargetSpec (op_to oper))))]
      else [Op_from (buildSyncTargetSpec nextType (snd (parseSyncTargetSpec (op_from oper))))])"

definition sync_key_patch :: "guide_target \<Rightarrow> jstring \<Rightarrow> operation \<Rightarrow> op_patch list" where
  "sync_key_patch side nextKey oper =
     (if side = G_to then [Op_to (buildSyncTargetSpec (fst (parseSyncTargetSpec (op_to oper))) nextKey)]
      else [Op_from (buildSyncTargetSpec (fst (parseSyncTargetSpec (op_from oper))) nextKey)])"

subsection \<open>The list of operations\<close>

definition addOperation :: "env \<Rightarrow> editor \<Rightarrow> editor idm" where
  "addOperation env ed =
     ibind (createDefaultOperation (env_clock env)) (\<lambda>created.
     ireturn (ed\<lparr>ed_operations := ed_operations ed @ [created], ed_selectedOperationId := op_id created\<rparr>))"

definition resetOperationDragState :: "editor \<Rightarrow> editor" where
  "resetOperationDragState ed =
     ed\<lparr>ed_draggedOperationId := [], ed_dragOverOperationId := [], ed_dragOverPosition := Before\<rparr>"

definition moveOperation :: "jstring \<Rightarrow> jstring \<Rightarrow> position \<Rightarrow> editor \<Rightarrow> editor" where
  "moveOperation sourceId targetId position ed =
     (if sourceId = [] \<or> targetId = [] \<or> sourceId = targetId then ed
      else ed\<lparr>ed_operations := reorderOperations (ed_operations ed) sourceId targetId position,
              ed_selectedOperationId := sourceId\<rparr>)"

definition handleOperationDragStart :: "jstring \<Rightarrow> editor \<Rightarrow> editor" where
  "handleOperationDragStart operationId ed =
     ed\<lparr>ed_draggedOperationId := operationId, ed_selectedOperationId := operationId\<rparr>"

text \<open>\<open>lower_half\<close>: the pointer is below the middle of the row.\<close>

definition handleOperationDragOver :: "bool \<Rightarrow> jstring \<Rightarrow> editor \<Rightarrow> editor" where
  "handleOperationDragOver lower_half operationId ed =
     (if ed_draggedOperationId ed = [] \<or> ed_draggedOperationId ed = operationId then ed
      else ed\<lparr>ed_dragOverOperationId := operationId,
              ed_dragOverPosition := (if lower_half then After else Before)\<rparr>)"

text \<open>\<open>transferred\<close> is the text of the drag event's data transfer.\<close>

definition handleOperationDrop :: "jstring \<Rightarrow> jstring \<Rightarrow> editor \<Rightarrow> editor" where
  "handleOperationDrop transferred operationId ed =
     (let sourceId = (if ed_draggedOperationId ed \<noteq> [] then ed_draggedOperationId ed else transferred);
          position = (if ed_dragOverOperationId ed = operationId then ed_dragOverPosition ed else Before) in
      resetOperationDragState (moveOperation sourceId operationId position ed))"

text \<open>The object that \<open>duplicateOperation\<close> passes to \<open>normalizeOperation\<close>.\<close>

definition clone_source :: "operation \<Rightarrow> jsval" where
  "clone_source oper = JObj
     [(js ''description'', JStr (op_description oper)), (js ''path'', JStr (op_path oper)),
      (js ''mode'', JStr (op_mode_value (op_mode oper))), (js ''value'', parseLooseValue (op_value_text oper)),
      (js ''keep_origin'', JBool (op_keep_origin oper)), (js ''from'', JStr (op_from oper)), (js ''to'', JStr (op_to oper)),
      (js ''logic'', JStr (logic_value (op_logic oper))),
      (js ''conditions'', JArr (map (\<lambda>c. JObj
         [(js ''path'', JStr (c_path c)), (js ''mode'', JStr (cond_mode_value (c_mode c))),
          (js ''value'', parseLooseValue (c_value_text c)), (js ''invert'', JBool (c_invert c)),
          (js ''pass_missing_key'', JBool (c_pass_missing_key c))]) (op_conditions oper)))]"

text \<open>
  The id of the clone is read right after \<open>setOperations\<close> returns; it is there only if React ran the
  updater at once, which it does when no update is pending (\<open>eager\<close>).
\<close>

definition duplicateOperation :: "env \<Rightarrow> bool \<Rightarrow> jstring \<Rightarrow> editor \<Rightarrow> editor idm" where
  "duplicateOperation env eager operationId ed =
     (case find_index (\<lambda>item. op_id item = operationId) (ed_operations ed) of
        None \<Rightarrow> ireturn ed
      | Some index \<Rightarrow>
          ibind (normalizeOperation (env_clock env) (clone_source (ed_operations ed ! index))) (\<lambda>cloned.
          ireturn (ed\<lparr>ed_operations := insert_at (index + 1) cloned (ed_operations ed),
                      ed_selectedOperationId := (if eager then op_id cloned else ed_selectedOperationId ed)\<rparr>)))"

definition removeOperation :: "env \<Rightarrow> jstring \<Rightarrow> editor \<Rightarrow> editor idm" where
  "removeOperation env operationId ed =
     ibind (if length (ed_operations ed) \<le> 1
            then ibind (createDefaultOperation (env_clock env)) (\<lambda>d. ireturn [d])
            else ireturn (filter (\<lambda>item. op_id item \<noteq> operationId) (ed_operations ed))) (\<lambda>ops.
     ireturn (ed\<lparr>ed_operations := ops, ed_expandedConditionMap := obj_delete operationId (ed_expandedConditionMap ed)\<rparr>))"

subsection \<open>Conditions\<close>

definition expanded :: "editor \<Rightarrow> jstring \<Rightarrow> jstring list" where
  "expanded ed operationId = (case map_of (ed_expandedConditionMap ed) operationId of Some ks \<Rightarrow> ks | None \<Rightarrow> [])"

definition set_expanded :: "jstring \<Rightarrow> jstring list \<Rightarrow> editor \<Rightarrow> editor" where
  "set_expanded operationId keys ed =
     ed\<lparr>ed_expandedConditionMap := obj_set operationId keys (ed_expandedConditionMap ed)\<rparr>"

definition update_conditions :: "jstring \<Rightarrow> (condition list \<Rightarrow> condition list) \<Rightarrow> editor \<Rightarrow> editor" where
  "update_conditions operationId f ed =
     ed\<lparr>ed_operations := map_matching op_id operationId (\<lambda>oper. oper\<lparr>op_conditions := f (op_conditions oper)\<rparr>)
        (ed_operations ed)\<rparr>"

definition addCondition :: "env \<Rightarrow> jstring \<Rightarrow> editor \<Rightarrow> editor idm" where
  "addCondition env operationId ed =
     ibind (createDefaultCondition (env_clock env)) (\<lambda>createdCondition.
     ireturn (set_expanded operationId (expanded ed operationId @ [c_id createdCondition])
       (update_conditions operationId (\<lambda>cs. cs @ [createdCondition]) ed)))"

definition updateCondition :: "jstring \<Rightarrow> jstring \<Rightarrow> cond_patch list \<Rightarrow> editor \<Rightarrow> editor" where
  "updateCondition operationId conditionId patch ed =
     update_conditions operationId (map_matching c_id conditionId (\<lambda>c. foldl apply_cond_patch c patch)) ed"

definition removeCondition :: "jstring \<Rightarrow> jstring \<Rightarrow> editor \<Rightarrow> editor" where
  "removeCondition operationId conditionId ed =
     set_expanded operationId (filter (\<lambda>i. i \<noteq> conditionId) (expanded ed operationId))
       (update_conditions operationId (filter (\<lambda>c. c_id c \<noteq> conditionId)) ed)"

text \<open>The active keys are an array of keys or a single key.\<close>

definition handleConditionCollapseChange :: "jstring \<Rightarrow> jstring list + jstring \<Rightarrow> editor \<Rightarrow> editor" where
  "handleConditionCollapseChange operationId activeKeys ed =
     set_expanded operationId (filter (\<lambda>k. k \<noteq> []) (case activeKeys of Inl ks \<Rightarrow> ks | Inr k \<Rightarrow> [k])) ed"

definition expandAllSelectedConditions :: "editor \<Rightarrow> editor" where
  "expandAllSelectedConditions ed = (case selectedOperation ed of
       None \<Rightarrow> ed
     | Some oper \<Rightarrow>
         if ed_selectedOperationId ed = [] then ed
         else set_expanded (ed_selectedOperationId ed) (map c_id (op_conditions oper)) ed)"

definition collapseAllSelectedConditions :: "editor \<Rightarrow> editor" where
  "collapseAllSelectedConditions ed =
     (if ed_selectedOperationId ed = [] then ed else set_expanded (ed_selectedOperationId ed) [] ed)"

subsection \<open>The JSON view, saving\<close>

definition handleJsonChange :: "env \<Rightarrow> jstring \<Rightarrow> editor \<Rightarrow> editor" where
  "handleJsonChange env nextValue ed =
     (let trimmed = trim nextValue in
      ed\<lparr>ed_jsonText := nextValue,
         ed_jsonError := (if trimmed = [] then [] else if \<not> verifyJSON trimmed then env_t env MSG_json_error [] else [])\<rparr>)"

definition formatJson :: "env \<Rightarrow> handler" where
  "formatJson env ed =
     (let trimmed = trim (ed_jsonText ed) in
      if trimmed = [] then ireturn (ed, [])
      else (case json_parse trimmed of
              None \<Rightarrow> ireturn (ed, [ShowError (env_t env MSG_not_json [])])
            | Some v \<Rightarrow> ireturn (ed\<lparr>ed_jsonText := json_ind 0 v, ed_jsonError := []\<rparr>, [])))"

definition save_text :: "env \<Rightarrow> editor \<Rightarrow> jstring res" where
  "save_text env ed =
     (if ed_editMode ed = E_json then
        (let trimmed = trim (ed_jsonText ed) in
         if trimmed = [] then Inr []
         else (case json_parse trimmed of
                 None \<Rightarrow> Inl (Error (env_t env MSG_not_json []))
               | Some v \<Rightarrow> Inr (json_ind 0 v)))
      else buildVisualJson env ed)"

definition handleSave :: "env \<Rightarrow> handler" where
  "handleSave env ed = (case save_text env ed of
       Inr result \<Rightarrow> ireturn (ed, [OnSave result])
     | Inl e \<Rightarrow> ireturn (ed, [ShowError (exn_message env e)]))"

subsection \<open>Events\<close>

datatype event =
    Ev_switchToJsonMode
  | Ev_switchToVisualMode
  | Ev_setTemplateGroupKey jstring
  | Ev_setTemplatePresetKey jstring
  | Ev_fillTemplateFromLibrary
  | Ev_appendTemplateFromLibrary
  | Ev_resetEditorState
  | Ev_setLegacyValue jstring
  | Ev_setOperationSearch jstring
  | Ev_select jstring
  | Ev_updateOperation jstring "op_patch list"
  | Ev_syncType guide_target sync_type
  | Ev_syncKey guide_target jstring
  | Ev_applyBuiltinField jstring guide_target
  | Ev_openFieldGuide guide_target
  | Ev_closeFieldGuide
  | Ev_setFieldGuideTarget guide_target
  | Ev_setFieldGuideKeyword jstring
  | Ev_copyBuiltinField bool jstring
  | Ev_setHeaderValueExample bool
  | Ev_formatSelectedOperationValueAsJson
  | Ev_updateReturnErrorDraft jstring "re_patch list"
  | Ev_statusCode jstring jstring
  | Ev_patchPruneObjectsDraft jstring "pd_patch list"
  | Ev_addPruneRule jstring
  | Ev_updatePruneRule jstring jstring "cond_patch list"
  | Ev_removePruneRule jstring jstring
  | Ev_addOperation
  | Ev_dragStart jstring
  | Ev_dragOver bool jstring
  | Ev_drop jstring jstring
  | Ev_dragEnd
  | Ev_duplicateOperation bool jstring
  | Ev_removeOperation jstring
  | Ev_addCondition jstring
  | Ev_updateCondition jstring jstring "cond_patch list"
  | Ev_removeCondition jstring jstring
  | Ev_conditionCollapse jstring "jstring list + jstring"
  | Ev_expandAll
  | Ev_collapseAll
  | Ev_handleJsonChange jstring
  | Ev_formatJson
  | Ev_handleSave

definition upd :: "(editor \<Rightarrow> editor) \<Rightarrow> handler" where
  "upd f ed = ireturn (f ed, [])"

definition updm :: "(editor \<Rightarrow> editor idm) \<Rightarrow> handler" where
  "updm f ed = ibind (f ed) (\<lambda>ed'. ireturn (ed', []))"

definition patch_selected :: "(operation \<Rightarrow> op_patch list) \<Rightarrow> editor \<Rightarrow> editor" where
  "patch_selected f ed = (case selectedOperation ed of
       None \<Rightarrow> ed | Some oper \<Rightarrow> updateOperation (op_id oper) (f oper) ed)"

fun handle :: "env \<Rightarrow> event \<Rightarrow> handler" where
  "handle env Ev_switchToJsonMode = switchToJsonMode env"
| "handle env Ev_switchToVisualMode = switchToVisualMode env"
| "handle env (Ev_setTemplateGroupKey k) = upd (\<lambda>ed. ed\<lparr>ed_templateGroupKey := (if k = [] then js ''basic'' else k)\<rparr>)"
| "handle env (Ev_setTemplatePresetKey k) =
     upd (\<lambda>ed. ed\<lparr>ed_templatePresetKey := (if k = [] then js ''operations_default'' else k)\<rparr>)"
| "handle env Ev_fillTemplateFromLibrary = fillTemplateFromLibrary env"
| "handle env Ev_appendTemplateFromLibrary = appendTemplateFromLibrary env"
| "handle env Ev_resetEditorState = resetEditorState env"
| "handle env (Ev_setLegacyValue s) = upd (\<lambda>ed. ed\<lparr>ed_legacyValue := s\<rparr>)"
| "handle env (Ev_setOperationSearch s) = upd (\<lambda>ed. ed\<lparr>ed_operationSearch := s\<rparr>)"
| "handle env (Ev_select i) = upd (\<lambda>ed. ed\<lparr>ed_selectedOperationId := i\<rparr>)"
| "handle env (Ev_updateOperation i patch) = upd (updateOperation i patch)"
| "handle env (Ev_syncType side ty) = upd (patch_selected (sync_type_patch side ty))"
| "handle env (Ev_syncKey side k) = upd (patch_selected (sync_key_patch side k))"
| "handle env (Ev_applyBuiltinField k target) = applyBuiltinField env k target"
| "handle env (Ev_openFieldGuide target) = upd (openFieldGuide target)"
| "handle env Ev_closeFieldGuide = upd (\<lambda>ed. ed\<lparr>ed_fieldGuideVisible := False\<rparr>)"
| "handle env (Ev_setFieldGuideTarget target) = upd (\<lambda>ed. ed\<lparr>ed_fieldGuideTarget := target\<rparr>)"
| "handle env (Ev_setFieldGuideKeyword s) = upd (\<lambda>ed. ed\<lparr>ed_fieldGuideKeyword := s\<rparr>)"
| "handle env (Ev_copyBuiltinField ok k) = copyBuiltinField env ok k"
| "handle env (Ev_setHeaderValueExample b) = upd (\<lambda>ed. ed\<lparr>ed_headerValueExampleVisible := b\<rparr>)"
| "handle env Ev_formatSelectedOperationValueAsJson = formatSelectedOperationValueAsJson env"
| "handle env (Ev_updateReturnErrorDraft i patch) = upd (updateReturnErrorDraft i patch)"
| "handle env (Ev_statusCode i text) = upd (updateReturnErrorDraft i [status_code_patch text])"
| "handle env (Ev_patchPruneObjectsDraft i patch) = updm (patchPruneObjectsDraft env i patch)"
| "handle env (Ev_addPruneRule i) = updm (addPruneRule env i)"
| "handle env (Ev_updatePruneRule i r patch) = updm (updatePruneRule env i r patch)"
| "handle env (Ev_removePruneRule i r) = updm (removePruneRule env i r)"
| "handle env Ev_addOperation = updm (addOperation env)"
| "handle env (Ev_dragStart i) = upd (handleOperationDragStart i)"
| "handle env (Ev_dragOver low i) = upd (handleOperationDragOver low i)"
| "handle env (Ev_drop transferred i) = upd (handleOperationDrop transferred i)"
| "handle env Ev_dragEnd = upd resetOperationDragState"
| "handle env (Ev_duplicateOperation eager i) = updm (duplicateOperation env eager i)"
| "handle env (Ev_removeOperation i) = updm (removeOperation env i)"
| "handle env (Ev_addCondition i) = updm (addCondition env i)"
| "handle env (Ev_updateCondition i c patch) = upd (updateCondition i c patch)"
| "handle env (Ev_removeCondition i c) = upd (removeCondition i c)"
| "handle env (Ev_conditionCollapse i ks) = upd (handleConditionCollapseChange i ks)"
| "handle env Ev_expandAll = upd expandAllSelectedConditions"
| "handle env Ev_collapseAll = upd collapseAllSelectedConditions"
| "handle env (Ev_handleJsonChange s) = upd (handleJsonChange env s)"
| "handle env Ev_formatJson = formatJson env"
| "handle env Ev_handleSave = handleSave env"

text \<open>
  One step: an event whose handler returns, followed by the effects; an event whose handler throws;
  a render, which may draw ids; the modal opened on another value.
\<close>

inductive editor_step :: "env \<Rightarrow> ('e \<Rightarrow> handler) \<Rightarrow> editor \<times> nat \<Rightarrow> editor \<times> nat \<Rightarrow> bool" for env h where
  handled: "h ev ed seed = (Inr (ed', outs), seed') \<Longrightarrow> editor_step env h (ed, seed) (settle ed', seed')"
| thrown: "h ev ed seed = (Inl e, seed') \<Longrightarrow> editor_step env h (ed, seed) (ed, seed')"
| render: "seed \<le> seed' \<Longrightarrow> editor_step env h (ed, seed) (ed, seed')"
| reopened: "open_editor env value seed = (Inr ed', seed') \<Longrightarrow> editor_step env h (ed, seed) (settle ed', seed')"

inductive editor_reachable :: "env \<Rightarrow> ('e \<Rightarrow> handler) \<Rightarrow> editor \<times> nat \<Rightarrow> bool" for env h where
  opened: "open_editor env value seed = (Inr ed, seed') \<Longrightarrow> editor_reachable env h (settle ed, seed')"
| stepped: "editor_reachable env h w \<Longrightarrow> editor_step env h w w' \<Longrightarrow> editor_reachable env h w'"

end
