(* ===== verification/ParamOverrideInvariants.thy ===== *)
theory ParamOverrideInvariants
  imports ParamOverrideEditor
begin

text \<open>
  What holds of the editor of \<open>ParamOverrideEditor\<close>: the invariants of its reachable states (distinct
  ids, a valid selection), the effect of the pruning form's handlers, what saving hands out, copies
  of rules and the template library. The contract of the event handlers is the locale
  \<open>editor_contract\<close>; its lemmas hold for any set of handlers that keep it, and the interpretation
  discharges it for the handlers of the component.
\<close>

subsection \<open>Ids of the operations\<close>

text \<open>All ids of rules and conditions differ and were issued before the counter's value.\<close>

definition all_ids :: "operation list \<Rightarrow> jstring list" where
  "all_ids ops = concat (map op_ids ops)"

definition ids_ok :: "clock \<Rightarrow> nat \<Rightarrow> operation list \<Rightarrow> bool" where
  "ids_ok clk seed ops \<longleftrightarrow> distinct (all_ids ops) \<and> set (all_ids ops) \<subseteq> issued (local_id clk) seed"

definition good :: "env \<Rightarrow> editor \<Rightarrow> nat \<Rightarrow> bool" where
  "good env ed seed \<longleftrightarrow> ids_ok (env_clock env) seed (ed_operations ed) \<and> ed_operations ed \<noteq> []"

lemma all_ids_simps [simp]: "all_ids [] = []" "all_ids (oper # ops) = op_ids oper @ all_ids ops"
  "all_ids (ops @ ops') = all_ids ops @ all_ids ops'"
  by (simp_all add: all_ids_def)

lemma ids_ok_mono: "ids_ok clk s ops \<Longrightarrow> s \<le> s' \<Longrightarrow> ids_ok clk s' ops"
  using issued_mono by (fastforce simp: ids_ok_def)

lemma good_mono: "good env ed s \<Longrightarrow> s \<le> s' \<Longrightarrow> good env ed s'"
  using ids_ok_mono by (auto simp: good_def)

lemma good_operations: "ed_operations ed' = ed_operations ed \<Longrightarrow> good env ed' s = good env ed s"
  by (simp add: good_def)

lemma op_id_in_all_ids: "oper \<in> set ops \<Longrightarrow> op_id oper \<in> set (all_ids ops)"
  by (force simp: all_ids_def op_ids_def)

lemma distinct_op_ids: "distinct (all_ids ops) \<Longrightarrow> distinct (map op_id ops)"
proof (induction ops)
  case (Cons oper ops)
  then show ?case using op_id_in_all_ids [of _ ops] by (force simp: op_ids_def)
qed simp

lemma mset_all_ids: "mset ops = mset ops' \<Longrightarrow> mset (all_ids ops) = mset (all_ids ops')"
proof -
  have "mset (all_ids xs) = sum_mset (image_mset (\<lambda>x. mset (op_ids x)) (mset xs))" for xs
    by (induction xs) simp_all
  then show "mset ops = mset ops' \<Longrightarrow> mset (all_ids ops) = mset (all_ids ops')" by simp
qed

lemma ids_ok_mset: "mset ops = mset ops' \<Longrightarrow> ids_ok clk s ops = ids_ok clk s ops'"
  using mset_all_ids mset_eq_imp_distinct_iff mset_eq_setD unfolding ids_ok_def by metis

lemma ids_ok_sub: "ids_ok clk s ops \<Longrightarrow> mset ops' \<subseteq># mset ops \<Longrightarrow> ids_ok clk s ops'"
proof -
  assume a: "ids_ok clk s ops" "mset ops' \<subseteq># mset ops"
  then obtain r where "mset ops = mset ops' + mset r" by (metis ex_mset mset_subset_eq_exists_conv)
  then have "mset ops = mset (ops' @ r)" by simp
  from ids_ok_mset [OF this] a(1) show ?thesis by (auto simp: ids_ok_def)
qed

lemma ids_ok_filter: "ids_ok clk s ops \<Longrightarrow> ids_ok clk s (filter P ops)"
  by (erule ids_ok_sub) (metis mset_filter multiset_filter_subset)

lemma all_ids_map_matching:
  "(\<And>x. op_ids (f x) = op_ids x) \<Longrightarrow> all_ids (map_matching op_id k f ops) = all_ids ops"
  by (induction ops) (auto simp: map_matching_def)

lemma ids_fresh_range: "set (map (local_id clk) [s..<s']) \<inter> issued (local_id clk) s = {}"
  using ids.fresh by (auto simp: disjoint_iff)

lemma distinct_ids_range: "distinct (map (local_id clk) [a..<b])"
  by (auto simp: distinct_map inj_on_def local_id_inj)

text \<open>New operations whose ids were just drawn can join the list anywhere.\<close>

lemma ids_ok_append:
  assumes "ids_ok clk s ops" and "all_ids new = map (local_id clk) [s..<s']" and "s \<le> s'"
  shows "ids_ok clk s' (ops @ new)"
proof -
  have "distinct (all_ids ops @ map (local_id clk) [s..<s'])"
    using assms(1) ids_fresh_range [of clk s s'] distinct_ids_range [of clk s s']
    by (intro ids.distinct_extend [of _ clk s]) (simp_all add: ids_ok_def)
  moreover have "set (map (local_id clk) [s..<s']) \<subseteq> issued (local_id clk) s'" by (auto simp: issued_def)
  moreover have "set (all_ids ops) \<subseteq> issued (local_id clk) s'"
    using assms(1) issued_mono [OF assms(3), of "local_id clk"] unfolding ids_ok_def by blast
  ultimately show ?thesis unfolding ids_ok_def all_ids_simps assms(2) by simp
qed

lemma ids_ok_new: "all_ids new = map (local_id clk) [s..<s'] \<Longrightarrow> ids_ok clk s' new"
  using distinct_ids_range by (auto simp: ids_ok_def issued_def)

lemma ids_ok_insert:
  assumes "ids_ok clk s ops" and "op_ids new = map (local_id clk) [s..<s']" and "s \<le> s'"
  shows "ids_ok clk s' (insert_at i new ops)"
proof -
  have "ids_ok clk s' (ops @ [new])" using assms by (intro ids_ok_append) simp_all
  moreover have "mset (insert_at i new ops) = mset (ops @ [new])" by simp
  ultimately show ?thesis using ids_ok_mset by metis
qed

lemma all_ids_add_condition:
  "distinct (map op_id ops) \<Longrightarrow>
   mset (all_ids (map_matching op_id k (\<lambda>x. x\<lparr>op_conditions := op_conditions x @ [c]\<rparr>) ops)) =
     mset (all_ids ops) + (if k \<in> op_id ` set ops then {#c_id c#} else {#})"
  by (induction ops) (auto simp: map_matching_def op_ids_def)

lemma ids_ok_add_condition:
  assumes "ids_ok clk s ops" and "c_id c = local_id clk s"
  shows "ids_ok clk (Suc s) (map_matching op_id k (\<lambda>x. x\<lparr>op_conditions := op_conditions x @ [c]\<rparr>) ops)"
proof -
  let ?n = "map_matching op_id k (\<lambda>x. x\<lparr>op_conditions := op_conditions x @ [c]\<rparr>) ops"
  have d: "distinct (all_ids ops)" "set (all_ids ops) \<subseteq> issued (local_id clk) s" using assms(1) by (auto simp: ids_ok_def)
  have e: "mset (all_ids ?n) = mset (all_ids ops @ (if k \<in> op_id ` set ops then [c_id c] else []))"
    using all_ids_add_condition [OF distinct_op_ids [OF d(1)]] by simp
  have "c_id c \<notin> set (all_ids ops)" using d(2) assms(2) ids.fresh by auto
  then have "distinct (all_ids ops @ (if k \<in> op_id ` set ops then [c_id c] else []))" using d(1) by simp
  then have "distinct (all_ids ?n)" using e mset_eq_imp_distinct_iff by blast
  moreover have "set (all_ids ?n) \<subseteq> issued (local_id clk) (Suc s)"
    using mset_eq_setD [OF e] d(2) assms(2) by (auto simp: ids.issued_Suc split: if_splits)
  ultimately show ?thesis by (simp add: ids_ok_def)
qed

lemma distinct_submset:
  assumes "mset xs \<subseteq># mset ys" and "distinct ys"
  shows "distinct xs \<and> set xs \<subseteq> set ys"
proof -
  obtain r where "mset ys = mset (xs @ r)" using assms(1) by (metis ex_mset mset_append mset_subset_eq_exists_conv)
  then show ?thesis using assms(2) mset_eq_imp_distinct_iff mset_eq_setD by fastforce
qed

lemma all_ids_filter_conditions:
  "mset (all_ids (map_matching op_id k (\<lambda>x. x\<lparr>op_conditions := filter P (op_conditions x)\<rparr>) ops)) \<subseteq># mset (all_ids ops)"
proof (induction ops)
  case (Cons oper ops)
  have "mset (op_ids (oper\<lparr>op_conditions := filter P (op_conditions oper)\<rparr>)) \<subseteq># mset (op_ids oper)"
    by (simp add: op_ids_def image_mset_subseteq_mono multiset_filter_subset)
  with Cons show ?case by (simp add: map_matching_def subset_mset.add_mono)
qed (simp add: map_matching_def)

lemma ids_ok_filter_conditions:
  assumes "ids_ok clk s ops"
  shows "ids_ok clk s (map_matching op_id k (\<lambda>x. x\<lparr>op_conditions := filter P (op_conditions x)\<rparr>) ops)"
  using distinct_submset [OF all_ids_filter_conditions [of k P ops]] assms by (auto simp: ids_ok_def)

subsection \<open>The counter only moves forward\<close>

named_theorems fwd

lemma forward_icatch [fwd]: "forward m \<Longrightarrow> forward (icatch m a)"
  unfolding forward_def icatch_def by (auto split: prod.splits sum.splits) (metis snd_conv)+

lemma forward_Pair [fwd]: "forward (Pair r)"
  by (simp add: forward_def)

lemmas [fwd] = forward_simps forward_bind forward_imap

lemma forward_normalizePruneRule [fwd]: "forward (normalizePruneRule clk v)"
  unfolding normalizePruneRule_def by (intro fwd)

lemma forward_normalizeCondition [fwd]: "forward (normalizeCondition clk v)"
  unfolding normalizeCondition_def by (rule fwd)

lemma forward_normalizeOperation [fwd]: "forward (normalizeOperation clk v)"
  unfolding normalizeOperation_def by (intro fwd) (auto intro: fwd split: jsval.splits)

lemma forward_createDefaultOperation [fwd]: "forward (createDefaultOperation clk)"
  unfolding createDefaultOperation_def by (rule fwd)

lemma forward_createDefaultCondition [fwd]: "forward (createDefaultCondition clk)"
  unfolding createDefaultCondition_def by (rule fwd)

lemma forward_normalize_all [fwd]: "forward (normalize_all clk vs)"
  unfolding normalize_all_def by (auto intro!: fwd)

lemma forward_prune_of [fwd]: "forward (prune_of clk ob)"
  unfolding prune_of_def by (intro fwd)

lemma forward_parsePruneObjectsDraft [fwd]: "forward (parsePruneObjectsDraft clk s)"
  unfolding parsePruneObjectsDraft_def Let_def by (auto intro!: fwd split: option.split jsval.split)

lemma forward_updatePruneObjectsDraft [fwd]:
  "(\<And>d. forward (u d)) \<Longrightarrow> forward (updatePruneObjectsDraft env i u ed)"
  unfolding updatePruneObjectsDraft_def by (auto intro!: fwd split: option.split)

lemma forward_put_legacy [fwd]: "forward (put_legacy env ob ed)"
  unfolding put_legacy_def Let_def by (intro fwd)

lemma forward_clearValue [fwd]: "forward (clearValue env ed)"
  unfolding clearValue_def by (intro fwd)

lemma forward_upd [fwd]: "forward (upd f ed)"
  unfolding upd_def by (intro fwd)

lemma forward_updm [fwd]: "forward (f ed) \<Longrightarrow> forward (updm f ed)"
  unfolding updm_def by (intro fwd)

lemma forward_switchToJsonMode [fwd]: "forward (switchToJsonMode env ed)"
  unfolding switchToJsonMode_def by (auto intro!: fwd split: sum.split)

lemma forward_switchToVisualMode [fwd]: "forward (switchToVisualMode env ed)"
  unfolding switchToVisualMode_def Let_def by (auto intro!: fwd split: option.split jsval.split)

lemma forward_fillOperationsTemplate [fwd]: "forward (fillOperationsTemplate env vs ed)"
  unfolding fillOperationsTemplate_def by (auto intro!: fwd)

lemma forward_appendOperationsTemplate [fwd]: "forward (appendOperationsTemplate env vs ed)"
  unfolding appendOperationsTemplate_def Let_def by (intro fwd)

lemma forward_appendLegacyTemplate [fwd]: "forward (appendLegacyTemplate env ob ed)"
  unfolding appendLegacyTemplate_def Let_def by (auto intro!: fwd split: option.split jsval.split)

lemma forward_templates [fwd]:
  "forward (fillTemplateFromLibrary env ed)" "forward (appendTemplateFromLibrary env ed)"
  unfolding fillTemplateFromLibrary_def appendTemplateFromLibrary_def fillLegacyTemplate_def
  by (auto intro!: fwd split: template_payload.split)

lemma forward_resetEditorState [fwd]: "forward (resetEditorState env ed)"
  unfolding resetEditorState_def by (auto intro!: fwd)

lemma forward_applyBuiltinField [fwd]: "forward (applyBuiltinField env k g ed)"
  unfolding applyBuiltinField_def Let_def by (auto intro!: fwd split: option.split)

lemma forward_formatValue [fwd]: "forward (formatSelectedOperationValueAsJson env ed)"
  unfolding formatSelectedOperationValueAsJson_def Let_def by (auto intro!: fwd split: option.split)

lemma forward_prune_rules [fwd]:
  "forward (patchPruneObjectsDraft env i ps ed)" "forward (addPruneRule env i ed)"
  "forward (updatePruneRule env i r cs ed)" "forward (removePruneRule env i r ed)"
  unfolding patchPruneObjectsDraft_def addPruneRule_def updatePruneRule_def removePruneRule_def
  by (auto intro!: fwd)

lemma forward_list [fwd]:
  "forward (addOperation env ed)" "forward (duplicateOperation env e i ed)" "forward (removeOperation env i ed)"
  "forward (addCondition env i ed)"
  unfolding addOperation_def duplicateOperation_def removeOperation_def addCondition_def
  by (auto intro!: fwd split: option.split)

lemma forward_json [fwd]: "forward (formatJson env ed)" "forward (handleSave env ed)" "forward (copyBuiltinField env b k ed)"
  unfolding formatJson_def handleSave_def copyBuiltinField_def Let_def by (auto intro!: fwd split: option.split sum.split)

lemma forward_handle: "forward (handle env ev ed)"
  by (cases ev) (auto intro!: fwd)

lemma forward_open_editor: "forward (open_editor env value)"
  unfolding open_editor_def parseInitialState_def Let_def
  by (auto intro!: fwd split: option.split jsval.split)

subsection \<open>Every handler keeps the ids distinct\<close>

lemma op_ids_patch [simp]: "op_ids (apply_op_patch oper p) = op_ids oper"
  by (cases p) (simp_all add: op_ids_def)

lemma op_ids_patches [simp]: "op_ids (foldl apply_op_patch oper ps) = op_ids oper"
  by (induction ps arbitrary: oper) simp_all

lemma c_id_patch [simp]: "c_id (foldl apply_cond_patch c ps) = c_id c"
proof -
  have "c_id (apply_cond_patch c p) = c_id c" for c p by (cases p) simp_all
  then show ?thesis by (induction ps arbitrary: c) simp_all
qed

lemma good_updateOperation [simp]: "good env (updateOperation i ps ed) s = good env ed s"
  by (simp add: good_def updateOperation_def ids_ok_def all_ids_map_matching)

text \<open>Handlers that replace the list by operations they have just created.\<close>

lemma good_default:
  "ed_operations ed = [oper] \<Longrightarrow> createDefaultOperation (env_clock env) s = (Inr oper, s') \<Longrightarrow> good env ed s'"
  unfolding good_def by (auto simp: createDefaultOperation_ok op_ids_def intro!: ids_ok_new [of _ _ s])

lemma good_normalize_all:
  "ed_operations ed = ops \<Longrightarrow> normalize_all (env_clock env) vs s = (Inr ops, s') \<Longrightarrow> good env ed s'"
  using normalize_all_ids [of "env_clock env" vs s ops s'] ids_ok_new [of ops "env_clock env" s s']
  by (simp add: good_def all_ids_def)

lemma good_put_legacy: "put_legacy env ob ed s = (Inr (ed', outs), s') \<Longrightarrow> good env ed' s'"
  by (auto simp: put_legacy_def Let_def ibind_Inr_iff intro!: good_default)

lemma good_open_editor: "open_editor env value s = (Inr ed, s') \<Longrightarrow> good env ed s'"
  unfolding open_editor_def parseInitialState_def Let_def
  by (auto simp: ibind_Inr_iff intro: good_default good_normalize_all split: if_splits option.splits jsval.splits)

lemma good_switchToVisualMode:
  "good env ed s \<Longrightarrow> switchToVisualMode env ed s = (Inr (ed', outs), s') \<Longrightarrow> good env ed' s'"
  unfolding switchToVisualMode_def Let_def
  by (auto simp: ibind_Inr_iff intro: good_default good_normalize_all split: if_splits option.splits jsval.splits)

lemma imap_not_Nil: "imap f xs s = (Inr ys, s') \<Longrightarrow> xs \<noteq> [] \<Longrightarrow> ys \<noteq> []"
  by (cases xs) (auto simp: ibind_Inr_iff)

lemma good_fillOperationsTemplate:
  assumes "fillOperationsTemplate env vs ed s = (Inr (ed', outs), s')"
  shows "good env ed' s'"
proof -
  obtain ops s1 where i: "imap (normalizeOperation (env_clock env)) vs s = (Inr ops, s1)"
    and r: "(if ops \<noteq> [] then ireturn ops else ibind (createDefaultOperation (env_clock env)) (\<lambda>d. ireturn [d])) s1 = (Inr (ed_operations ed'), s')"
    using assms by (auto simp: fillOperationsTemplate_def ibind_Inr_iff)
  show ?thesis
  proof (cases "ops = []")
    case True
    then obtain d where "ed_operations ed' = [d]" "createDefaultOperation (env_clock env) s1 = (Inr d, s')"
      using r by (auto simp: ibind_Inr_iff) metis
    then show ?thesis by (rule good_default)
  next
    case False
    then have "ed_operations ed' = ops" "s1 = s'" using r by auto
    then show ?thesis using imap_normalizeOperation_ids [OF i] False ids_ok_new by (simp add: good_def all_ids_def)
  qed
qed

lemma preset_operations_not_Nil: "getSelectedTemplatePreset ed = Operations ops \<Longrightarrow> ops \<noteq> []"
proof -
  have "\<forall>(k, p) \<in> set TEMPLATE_PRESET_CONFIG. tp_payload p \<noteq> Operations []"
    by (simp add: TEMPLATE_PRESET_CONFIG_def OPERATION_TEMPLATE_def HEADER_PASSTHROUGH_TEMPLATE_def GEMINI_IMAGE_4K_TEMPLATE_def
        CLAUDE_CLI_HEADER_PASSTHROUGH_TEMPLATE_def CODEX_CLI_HEADER_PASSTHROUGH_TEMPLATE_def
        AWS_BEDROCK_ANTHROPIC_COMPAT_TEMPLATE_def buildPassHeadersTemplate_def)
  then show "getSelectedTemplatePreset ed = Operations ops \<Longrightarrow> ?thesis"
    by (auto simp: getSelectedTemplatePreset_def OPERATION_TEMPLATE_def split: option.splits dest!: map_of_SomeD)
qed

lemma good_appendOperationsTemplate:
  assumes "good env ed s" and "vs \<noteq> []" and "appendOperationsTemplate env vs ed s = (Inr (ed', outs), s')"
  shows "good env ed' s'"
proof -
  let ?e = "if ed_visualMode ed = V_operations then filter (\<lambda>item. \<not> isOperationBlank item) (ed_operations ed) else []"
  obtain a where i: "imap (normalizeOperation (env_clock env)) vs s = (Inr a, s')"
    and r: "ed_operations ed' = ?e @ a \<or> ed_operations ed' = a"
    using assms(3) by (auto simp: appendOperationsTemplate_def ibind_Inr_iff Let_def split: if_splits)
  have "a \<noteq> []" using imap_not_Nil [OF i assms(2)] .
  moreover have "ids_ok (env_clock env) s ?e" using assms(1) ids_ok_filter by (auto simp: good_def ids_ok_def)
  ultimately show ?thesis
    using r ids_ok_append ids_ok_new imap_normalizeOperation_ids [OF i] unfolding good_def all_ids_def [symmetric] by fastforce
qed

lemma good_templates:
  "good env ed s \<Longrightarrow> fillTemplateFromLibrary env ed s = (Inr (ed', outs), s') \<Longrightarrow> good env ed' s'"
  "good env ed s \<Longrightarrow> appendTemplateFromLibrary env ed s = (Inr (ed', outs), s') \<Longrightarrow> good env ed' s'"
  unfolding fillTemplateFromLibrary_def appendTemplateFromLibrary_def fillLegacyTemplate_def appendLegacyTemplate_def Let_def
  by (auto split: template_payload.splits if_splits option.splits jsval.splits
      intro: good_put_legacy good_fillOperationsTemplate good_appendOperationsTemplate dest: preset_operations_not_Nil)

lemma good_prune_draft:
  assumes "good env ed s" "updatePruneObjectsDraft env i u ed s = (Inr ed', s')" "\<And>d. forward (u d)"
  shows "good env ed' s'"
proof -
  have "s \<le> s'" using forward_apply [OF forward_updatePruneObjectsDraft assms(2)] assms(3) by blast
  moreover have "good env ed' s = good env ed s"
    using assms(2) by (auto simp: updatePruneObjectsDraft_def ibind_Inr_iff split: option.splits)
  ultimately show ?thesis using assms(1) good_mono by blast
qed

lemma good_prune_rules:
  assumes "good env ed s"
  shows "patchPruneObjectsDraft env i ps ed s = (Inr ed', s') \<Longrightarrow> good env ed' s'"
    and "addPruneRule env i ed s = (Inr ed', s') \<Longrightarrow> good env ed' s'"
    and "updatePruneRule env i r cs ed s = (Inr ed', s') \<Longrightarrow> good env ed' s'"
    and "removePruneRule env i r ed s = (Inr ed', s') \<Longrightarrow> good env ed' s'"
  unfolding patchPruneObjectsDraft_def addPruneRule_def updatePruneRule_def removePruneRule_def
  by (erule good_prune_draft [OF assms]; auto intro!: fwd)+

lemma good_addOperation: "good env ed s \<Longrightarrow> addOperation env ed s = (Inr ed', s') \<Longrightarrow> good env ed' s'"
  by (auto simp: addOperation_def ibind_def createDefaultOperation_ok good_def op_ids_def intro!: ids_ok_append)

lemma good_duplicateOperation:
  assumes "good env ed s" "duplicateOperation env e i ed s = (Inr ed', s')"
  shows "good env ed' s'"
proof (cases "find_index (\<lambda>item. op_id item = i) (ed_operations ed)")
  case None
  then show ?thesis using assms by (simp add: duplicateOperation_def)
next
  case (Some k)
  then obtain c where c: "normalizeOperation (env_clock env) (clone_source (ed_operations ed ! k)) s = (Inr c, s')"
    and o: "ed_operations ed' = insert_at (k + 1) c (ed_operations ed)"
    using assms(2) by (auto simp: duplicateOperation_def ibind_Inr_iff)
  have "ids_ok (env_clock env) s' (insert_at (k + 1) c (ed_operations ed))"
    using assms(1) normalizeOperation_ids [OF c] by (intro ids_ok_insert) (auto simp: good_def)
  then show ?thesis by (simp add: good_def o insert_at_def)
qed

lemma good_removeOperation:
  assumes "good env ed s" "removeOperation env i ed s = (Inr ed', s')"
  shows "good env ed' s'"
proof (cases "length (ed_operations ed) \<le> 1")
  case True
  then obtain d where "ed_operations ed' = [d]" "createDefaultOperation (env_clock env) s = (Inr d, s')"
    using assms(2) by (auto simp: removeOperation_def ibind_Inr_iff)
  then show ?thesis by (rule good_default)
next
  case False
  then have o: "ed_operations ed' = filter (\<lambda>item. op_id item \<noteq> i) (ed_operations ed)" "s' = s"
    using assms(2) by (auto simp: removeOperation_def ibind_Inr_iff)
  have d: "distinct (map op_id (ed_operations ed))" using assms(1) distinct_op_ids by (auto simp: good_def ids_ok_def)
  obtain a b r where ab: "ed_operations ed = a # b # r"
    using False by (cases "ed_operations ed"; cases "tl (ed_operations ed)") auto
  have "op_id a \<noteq> op_id b" using d by (simp add: ab)
  then have "ed_operations ed' \<noteq> []" by (auto simp: o ab)
  then show ?thesis using assms(1) ids_ok_filter by (simp add: good_def o)
qed

lemma good_addCondition: "good env ed s \<Longrightarrow> addCondition env i ed s = (Inr ed', s') \<Longrightarrow> good env ed' s'"
  using ids_ok_add_condition normalizeCondition_ids
  by (fastforce simp: addCondition_def createDefaultCondition_def ibind_Inr_iff good_def update_conditions_def set_expanded_def)

lemma good_conditions [simp]:
  "good env ed s \<Longrightarrow> good env (removeCondition i c ed) s"
  "good env (updateCondition i c ps ed) s = good env ed s"
  "good env (set_expanded i ks ed) s = good env ed s"
proof -
  have "map c_id (map_matching c_id c (\<lambda>x. foldl apply_cond_patch x ps) cs) = map c_id cs" for cs
    by (auto simp: map_matching_def)
  then show "good env (updateCondition i c ps ed) s = good env ed s"
    by (simp add: updateCondition_def update_conditions_def good_def ids_ok_def all_ids_map_matching op_ids_def)
  show "good env ed s \<Longrightarrow> good env (removeCondition i c ed) s"
    by (simp add: removeCondition_def update_conditions_def set_expanded_def good_def ids_ok_filter_conditions)
qed (simp add: set_expanded_def good_def)

lemma good_moveOperation [simp]: "good env (moveOperation a b p ed) s = good env ed s"
proof -
  have "ids_ok clk s (reorderOperations ops a b p) = ids_ok clk s ops" "(reorderOperations ops a b p = []) = (ops = [])" for clk ops
    using ids_ok_mset reorder_mset by (metis, metis mset_zero_iff)
  then show ?thesis by (simp add: moveOperation_def good_def)
qed

lemma good_fields [simp]:
  "good env (ed\<lparr>ed_selectedOperationId := a\<rparr>) s = good env ed s"
  "good env (ed\<lparr>ed_templateGroupKey := b\<rparr>) s = good env ed s"
  "good env (ed\<lparr>ed_templatePresetKey := b\<rparr>) s = good env ed s"
  "good env (ed\<lparr>ed_legacyValue := b\<rparr>) s = good env ed s"
  "good env (ed\<lparr>ed_operationSearch := b\<rparr>) s = good env ed s"
  "good env (ed\<lparr>ed_fieldGuideVisible := c\<rparr>) s = good env ed s"
  "good env (ed\<lparr>ed_fieldGuideTarget := d\<rparr>) s = good env ed s"
  "good env (ed\<lparr>ed_fieldGuideKeyword := b\<rparr>) s = good env ed s"
  "good env (ed\<lparr>ed_headerValueExampleVisible := c\<rparr>) s = good env ed s"
  "good env (ed\<lparr>ed_jsonText := b\<rparr>) s = good env ed s"
  "good env (ed\<lparr>ed_jsonError := b\<rparr>) s = good env ed s"
  "good env (ed\<lparr>ed_editMode := e\<rparr>) s = good env ed s"
  "good env (ed\<lparr>ed_draggedOperationId := b\<rparr>) s = good env ed s"
  "good env (ed\<lparr>ed_dragOverOperationId := b\<rparr>) s = good env ed s"
  "good env (ed\<lparr>ed_dragOverPosition := p\<rparr>) s = good env ed s"
  by (simp_all add: good_def)

lemma good_settle [simp]: "good env (settle ed) s = good env ed s"
  by (simp add: settle_def fix_preset_def fix_selection_def split: list.split)

lemma good_resets:
  "clearValue env ed s = (Inr (ed', outs), s') \<Longrightarrow> good env ed' s'"
  "resetEditorState env ed s = (Inr (ed', outs), s') \<Longrightarrow> good env ed' s'"
  by (auto simp: resetEditorState_def clearValue_def ibind_Inr_iff intro!: good_default)

text \<open>Handlers that leave the ids alone.\<close>

lemma good_pure [simp]:
  "good env (patch_selected f ed) s = good env ed s"
  "good env (handleJsonChange env text ed) s = good env ed s"
  "good env (handleOperationDragStart i ed) s = good env ed s"
  "good env (handleOperationDragOver low i ed) s = good env ed s"
  "good env (resetOperationDragState ed) s = good env ed s"
  "good env (openFieldGuide g ed) s = good env ed s"
  "good env (updateReturnErrorDraft i ps ed) s = good env ed s"
  "good env (expandAllSelectedConditions ed) s = good env ed s"
  "good env (collapseAllSelectedConditions ed) s = good env ed s"
  "good env (handleConditionCollapseChange i ks ed) s = good env ed s"
  by (simp_all add: patch_selected_def handleJsonChange_def handleOperationDragStart_def handleOperationDragOver_def
      resetOperationDragState_def openFieldGuide_def updateReturnErrorDraft_def Let_def expandAllSelectedConditions_def
      collapseAllSelectedConditions_def handleConditionCollapseChange_def split: option.split)

lemma good_drop [simp]: "good env (handleOperationDrop tr i ed) s = good env ed s"
  by (simp add: handleOperationDrop_def Let_def)

lemma good_silent:
  assumes "good env ed s"
  shows "switchToJsonMode env ed s = (Inr (ed', outs), s') \<Longrightarrow> good env ed' s'"
    and "applyBuiltinField env k g ed s = (Inr (ed', outs), s') \<Longrightarrow> good env ed' s'"
    and "formatSelectedOperationValueAsJson env ed s = (Inr (ed', outs), s') \<Longrightarrow> good env ed' s'"
    and "formatJson env ed s = (Inr (ed', outs), s') \<Longrightarrow> good env ed' s'"
    and "handleSave env ed s = (Inr (ed', outs), s') \<Longrightarrow> good env ed' s'"
    and "copyBuiltinField env b k ed s = (Inr (ed', outs), s') \<Longrightarrow> good env ed' s'"
  using assms
  by (auto simp: switchToJsonMode_def applyBuiltinField_def formatSelectedOperationValueAsJson_def formatJson_def
      handleSave_def copyBuiltinField_def ibind_lift_apply Let_def split: option.splits sum.splits if_splits)

lemma good_upd: "good env (f ed) s \<Longrightarrow> upd f ed s = (Inr (ed', outs), s') \<Longrightarrow> good env ed' s'"
  by (simp add: upd_def)

lemma good_updm: "(\<And>ed'. f ed s = (Inr ed', s') \<Longrightarrow> good env ed' s') \<Longrightarrow> updm f ed s = (Inr (ed', outs), s') \<Longrightarrow> good env ed' s'"
  by (auto simp: updm_def ibind_Inr_iff)

lemmas good_intros = good_switchToVisualMode good_templates good_silent

lemmas good_updm_intros = good_prune_rules good_addOperation good_duplicateOperation good_removeOperation good_addCondition

lemma good_handle:
  assumes g: "good env ed s" and h: "handle env ev ed s = (Inr (ed', outs), s')"
  shows "good env ed' s'"
  using h
  by (cases ev)
     (simp_all only: handle.simps,
      (erule good_upd [rotated], simp add: g
       | erule good_updm [rotated], erule good_updm_intros [OF g]
       | erule good_resets
       | erule good_intros [OF g])+)

subsection \<open>Reachable states\<close>

text \<open>The selection names a rule of the list, and the chosen template belongs to the chosen group.\<close>

definition settled :: "editor \<Rightarrow> bool" where
  "settled ed \<longleftrightarrow> ed_selectedOperationId ed \<in> op_id ` set (ed_operations ed) \<and>
     (templatePresetOptions ed = [] \<or> ed_templatePresetKey ed \<in> fst ` set (templatePresetOptions ed))"

lemma settled_settle: "ed_operations ed \<noteq> [] \<Longrightarrow> settled (settle ed)"
proof -
  assume ne: "ed_operations ed \<noteq> []"
  have sel: "ed_selectedOperationId (fix_selection ed) \<in> op_id ` set (ed_operations (fix_selection ed))"
    using ne by (cases "ed_operations ed") (auto simp: fix_selection_def first_id_def list_ex_iff intro: rev_image_eqI)
  have opts: "templatePresetOptions (x\<lparr>ed_templatePresetKey := k\<rparr>) = templatePresetOptions x" for x k
    by (simp add: templatePresetOptions_def)
  show ?thesis
    unfolding settled_def settle_def fix_preset_def
    using sel by (cases "templatePresetOptions (fix_selection ed)") (auto simp: opts split: prod.splits)
qed

text \<open>
  What the editor relies on in its event handlers: they never turn the id counter back, and they
  keep the rule list non-empty with distinct, already issued ids.
\<close>

locale editor_contract =
  fixes env :: env and h :: "'e \<Rightarrow> handler"
  assumes counter_forward: "forward (h ev ed)"
    and ids_kept: "good env ed s \<Longrightarrow> h ev ed s = (Inr (ed', outs), s') \<Longrightarrow> good env ed' s'"
begin

lemma step_good: "editor_step env h w w' \<Longrightarrow> good env (fst w) (snd w) \<Longrightarrow> good env (fst w') (snd w') \<and> snd w \<le> snd w'"
proof (induction rule: editor_step.induct)
  case (handled ev ed seed ed' outs seed')
  then show ?case using ids_kept forward_apply [OF counter_forward] by auto
next
  case (thrown ev ed seed e seed')
  then show ?case using good_mono forward_apply [OF counter_forward] by fastforce
next
  case (render seed seed' ed)
  then show ?case using good_mono by auto
next
  case (reopened v seed ed' seed' ed)
  then show ?case using good_open_editor forward_apply [OF forward_open_editor] by fastforce
qed

lemma reachable_good: "editor_reachable env h w \<Longrightarrow> good env (fst w) (snd w)"
proof (induction rule: editor_reachable.induct)
  case (opened v seed ed seed')
  then show ?case using good_open_editor by simp
next
  case (stepped w w')
  then show ?case using step_good by blast
qed

lemma step_settled:
  "editor_step env h w w' \<Longrightarrow> good env (fst w) (snd w) \<Longrightarrow> settled (fst w) \<Longrightarrow> settled (fst w')"
proof (induction rule: editor_step.induct)
  case (handled ev ed seed ed' outs seed')
  then have "good env ed' seed'" using ids_kept by auto
  then show ?case by (simp add: good_def settled_settle)
next
  case (reopened v seed ed' seed' ed)
  then have "good env ed' seed'" using good_open_editor by auto
  then show ?case by (simp add: good_def settled_settle)
qed simp_all

lemma reachable_settled: "editor_reachable env h w \<Longrightarrow> settled (fst w)"
proof (induction rule: editor_reachable.induct)
  case (opened v seed ed seed')
  then show ?case using good_open_editor [OF opened] by (simp add: good_def settled_settle)
next
  case (stepped w w')
  then show ?case using step_settled reachable_good by blast
qed

end

interpretation param_override: editor_contract env "handle env" for env
  by unfold_locales (rule forward_handle, erule (1) good_handle)

lemma find_operation_Some:
  "distinct (map op_id ops) \<Longrightarrow> find_operation i ops = Some oper \<longleftrightarrow> oper \<in> set ops \<and> op_id oper = i"
  by (induction ops) (auto simp: find_operation_def)

lemma sample_reachable:
  "\<exists>ed s. editor_reachable env (handle env) (ed, s) \<and> length (ed_operations ed) = 2 \<and> s = 2"
proof -
  let ?d = "\<lambda>s. \<lparr>op_id = local_id (env_clock env) s, op_description = [], op_path = [], op_mode = M_set, op_value_text = [],
        op_keep_origin = False, op_from = [], op_to = [], op_logic = L_OR, op_conditions = []\<rparr>"
  obtain ed where o: "open_editor env (JStr []) 0 = (Inr ed, 1)" "ed_operations ed = [?d 0]"
    by (auto simp: open_editor_def parseInitialState_def ibind_def createDefaultOperation_ok)
  from o(1) have r: "editor_reachable env (handle env) (settle ed, 1)" by (rule editor_reachable.opened)
  have ops: "ed_operations (settle x) = ed_operations x" for x
    by (simp add: settle_def fix_preset_def fix_selection_def split: list.split)
  have "handle env Ev_addOperation (settle ed) 1 =
      (Inr ((settle ed)\<lparr>ed_operations := [?d 0, ?d 1], ed_selectedOperationId := op_id (?d 1)\<rparr>, []), 2)"
    by (simp add: updm_def addOperation_def ibind_def createDefaultOperation_ok ops o(2))
  from editor_reachable.stepped [OF r editor_step.handled [where h = "handle env" and ev = Ev_addOperation, OF this]]
  show ?thesis by (intro exI conjI) (assumption, simp_all add: ops)
qed

text \<open>
  C1. In every reachable state of the editor, whatever the events and their order, the ids of all
  rules and conditions are pairwise different, each was issued before the current counter value
  (so the next id is new), and the rule list is not empty.
\<close>

theorem editor_ids_invariant:
  assumes "editor_reachable env (handle env) (ed, s)"
  shows "distinct (all_ids (ed_operations ed)) \<and>
    set (all_ids (ed_operations ed)) \<subseteq> issued (local_id (env_clock env)) s \<and>
    local_id (env_clock env) s \<notin> set (all_ids (ed_operations ed)) \<and> ed_operations ed \<noteq> []"
proof -
  have g: "good env ed s" using param_override.reachable_good [OF assms] by simp
  have "local_id (env_clock env) s \<notin> issued (local_id (env_clock env)) s" by (rule ids.fresh) simp
  with g show ?thesis by (auto simp: good_def ids_ok_def)
qed

theorem editor_ids_invariant_witness:
  "\<exists>ed. editor_reachable \<lparr>env_t = (\<lambda>k o'. k), env_clock = (\<lambda>_. 9), env_typeErrorMessage = []\<rparr>
      (handle \<lparr>env_t = (\<lambda>k o'. k), env_clock = (\<lambda>_. 9), env_typeErrorMessage = []\<rparr>) (ed, 2) \<and>
    distinct (all_ids (ed_operations ed)) \<and> length (ed_operations ed) = 2"
  using editor_ids_invariant sample_reachable by blast

text \<open>
  In every reachable state exactly one rule is selected: the detail pane always has a rule to
  show, and the chosen template is one that the chosen group offers.
\<close>

theorem editor_selection_invariant:
  assumes "editor_reachable env (handle env) (ed, s)"
  shows "(\<exists>oper. selectedOperation ed = Some oper \<and> oper \<in> set (ed_operations ed) \<and>
      op_id oper = ed_selectedOperationId ed) \<and>
    (templatePresetOptions ed = [] \<or> ed_templatePresetKey ed \<in> fst ` set (templatePresetOptions ed))"
proof -
  have g: "good env ed s" and st: "settled ed"
    using param_override.reachable_good [OF assms] param_override.reachable_settled [OF assms] by simp_all
  have d: "distinct (map op_id (ed_operations ed))" using g distinct_op_ids by (auto simp: good_def ids_ok_def)
  show ?thesis using st unfolding settled_def selectedOperation_def by (auto simp: find_operation_Some [OF d])
qed

theorem editor_selection_invariant_witness:
  "\<exists>ed oper. editor_reachable \<lparr>env_t = (\<lambda>k o'. k), env_clock = (\<lambda>_. 9), env_typeErrorMessage = []\<rparr>
      (handle \<lparr>env_t = (\<lambda>k o'. k), env_clock = (\<lambda>_. 9), env_typeErrorMessage = []\<rparr>) (ed, 2) \<and>
    selectedOperation ed = Some oper"
  using editor_selection_invariant sample_reachable by blast

subsection \<open>Editing pruning rules\<close>

lemma imap_normalizePruneRule_ids:
  assumes "imap (normalizePruneRule clk) vs s = (Inr rs, s')" and "r \<in> set rs"
  shows "\<exists>k. s \<le> k \<and> c_id r = local_id clk k"
proof -
  have "imap (normalizeCondition clk) vs s = (Inr rs, s')" using assms(1) by (simp add: normalizeCondition_def [abs_def])
  from imap_normalizeCondition_ids [OF this] have "c_id r \<in> set (map (local_id clk) [s..<s'])"
    using assms(2) by (metis image_eqI set_map)
  then show ?thesis by auto
qed

text \<open>The rules of a draft carry ids that were drawn while the draft was parsed.\<close>

lemma parsed_rule_ids:
  assumes "parsePruneObjectsDraft clk text s = (Inr d, s')" and "r \<in> set (pd_rules d)"
  shows "\<exists>k. s \<le> k \<and> c_id r = local_id clk k"
proof -
  have plain: "pd_rules (pd_defaults\<lparr>pd_simpleMode := b, pd_typeText := x\<rparr>) = []" for b x by (simp add: pd_defaults_def)
  have "pd_rules d = [] \<or> (\<exists>ob. prune_of clk ob s = (Inr d, s'))"
    using assms(1) plain
    by (auto simp: parsePruneObjectsDraft_def Let_def icatch_def ibind_lift_apply pd_defaults_def
        split: if_splits option.splits jsval.splits prod.splits sum.splits)
  then obtain ob where p: "prune_of clk ob s = (Inr d, s')" using assms(2) by auto
  have fw: "forward (imap (normalizePruneRule clk) vs)" for vs by (rule forward_imap) (rule forward_normalizePruneRule)
  from p obtain r1 s1 r2 s2 where r: "pd_rules d = r1 @ r2"
    and i1: "imap (normalizePruneRule clk) (where_rules (get_own ob (js ''where''))) s = (Inr r1, s1)"
    and i2: "imap (normalizePruneRule clk) (condition_rules (get_own ob (js ''conditions''))) s1 = (Inr r2, s2)"
    unfolding prune_of_def ibind_Inr_iff by auto
  have "s \<le> s1" using forward_apply [OF fw i1] .
  moreover have "r \<in> set r1 \<or> r \<in> set r2" using assms(2) by (simp add: r)
  ultimately show ?thesis
    using imap_normalizePruneRule_ids [OF i1] imap_normalizePruneRule_ids [OF i2] le_trans by blast
qed

lemma updatePruneObjectsDraft_same:
  assumes "\<And>t d s2. parsePruneObjectsDraft (env_clock env) t s = (Inr d, s2) \<Longrightarrow> u d = v d"
  shows "updatePruneObjectsDraft env i u ed s = updatePruneObjectsDraft env i v ed s"
  using assms by (auto simp: updatePruneObjectsDraft_def ibind_def split: option.split prod.split sum.split)

text \<open>
  Editing or removing a rule of the pruning form has no effect of its own. The form draws new
  ids whenever it parses the value text, so an id that is on the screen (issued before the handler
  runs) never matches a rule of the draft that the handler has just parsed: whatever the patch, both
  handlers do exactly what re-printing the unchanged draft does.
\<close>

theorem prune_rule_edits_ignored:
  assumes "ruleId \<in> issued (local_id (env_clock env)) s"
  shows "updatePruneRule env i ruleId patch ed s = patchPruneObjectsDraft env i [] ed s \<and>
    removePruneRule env i ruleId ed s = patchPruneObjectsDraft env i [] ed s"
proof -
  have new: "c_id r \<noteq> ruleId"
    if "parsePruneObjectsDraft (env_clock env) t s = (Inr d, s2)" "r \<in> set (pd_rules d)" for t d s2 r
    using parsed_rule_ids [OF that] assms ids.fresh by metis
  have m: "map (\<lambda>rule. if c_id rule = ruleId then foldl apply_cond_patch rule patch else rule) (pd_rules d) = pd_rules d"
    "filter (\<lambda>rule. c_id rule \<noteq> ruleId) (pd_rules d) = pd_rules d"
    if "parsePruneObjectsDraft (env_clock env) t s = (Inr d, s2)" for t d s2
    using new [OF that] by (auto intro!: map_idI)
  show ?thesis
    unfolding updatePruneRule_def removePruneRule_def patchPruneObjectsDraft_def
    by (auto intro!: updatePruneObjectsDraft_same simp: m)
qed

lemma build_prune_blank_rule:
  "trim (c_path r) = [] \<Longrightarrow>
   buildPruneObjectsValueText (d\<lparr>pd_simpleMode := False, pd_rules := pd_rules d @ [r]\<rparr>) =
   buildPruneObjectsValueText (d\<lparr>pd_simpleMode := False\<rparr>)"
  by (simp add: buildPruneObjectsValueText_def Let_def)

lemma normalizePruneRule_empty:
  "normalizePruneRule clk (JObj []) s =
     (Inr \<lparr>c_id = local_id clk s, c_path = [], c_mode = C_full, c_value_text = [], c_invert = False, c_pass_missing_key = False\<rparr>, Suc s)"
  by (simp add: normalizePruneRule_def get_prop_def string_or_empty_def cond_mode_or_full_def)

text \<open>
  The button that adds a condition to the pruning form never adds one: the new rule has no path,
  rules without a path are not printed, so the state after it is the state after merely switching
  the form to its advanced mode (only the id counter differs).
\<close>

theorem add_prune_rule_dropped:
  "fst (addPruneRule env i ed s) = fst (patchPruneObjectsDraft env i [Pd_simpleMode False] ed s)"
  by (auto simp: addPruneRule_def patchPruneObjectsDraft_def updatePruneObjectsDraft_def ibind_def
      normalizePruneRule_empty build_prune_blank_rule split: option.split prod.split sum.split)

subsection \<open>Saving\<close>

lemma buildOperationsJson_json: "buildOperationsJson t v ops = Inr text \<Longrightarrow> text = [] \<or> (\<exists>ob. json_parse text = Some (JObj ob))"
proof -
  assume b: "buildOperationsJson t v ops = Inr text"
  show ?thesis
  proof (cases "text = []")
    case False
    from buildOperationsJson_Inr(1) [OF b False] show ?thesis
      using pretty.dec_enc_norm [OF operations_json_readable] by (simp add: operations_json_def)
  qed simp
qed

lemma buildVisualJson_json: "buildVisualJson env ed = Inr text \<Longrightarrow> text = [] \<or> (\<exists>ob. json_parse text = Some (JObj ob))"
  using pretty.dec_enc_norm [OF json_parse_readable]
  by (fastforce simp: buildVisualJson_def Let_def simp del: json_ind.simps
      dest: buildOperationsJson_json split: if_splits option.splits jsval.splits)

text \<open>
  Pressing save changes nothing in the editor and has exactly one outcome: one error toast, or
  one call of the callback with a text that is empty or valid JSON - an object if the visual editor
  was used.
\<close>

theorem save_outcome:
  "\<exists>e. handleSave env ed s = (Inr (ed, [e]), s) \<and>
     ((\<exists>m. e = ShowError m) \<or>
      (\<exists>text. e = OnSave text \<and> (text = [] \<or> (\<exists>v. json_parse text = Some v \<and> (ed_editMode ed = E_json \<or> (\<exists>ob. v = JObj ob))))))"
proof (cases "save_text env ed")
  case (Inl e)
  then show ?thesis by (simp add: handleSave_def)
next
  case (Inr saved)
  have "saved = [] \<or> (\<exists>v. json_parse saved = Some v \<and> (ed_editMode ed = E_json \<or> (\<exists>ob. v = JObj ob)))"
  proof (cases "ed_editMode ed = E_json")
    case True
    then show ?thesis using Inr pretty.dec_enc_norm [OF json_parse_readable]
      by (fastforce simp: save_text_def Let_def split: if_splits option.splits)
  next
    case False
    then have "buildVisualJson env ed = Inr saved" using Inr by (simp add: save_text_def)
    from buildVisualJson_json [OF this] show ?thesis by auto
  qed
  with Inr show ?thesis by (simp add: handleSave_def)
qed

subsection \<open>Duplicating a rule\<close>

lemma clone_readable:
  "\<exists>ob. clone_source oper = JObj ob \<and> op_readable ob"
  by (cases "op_logic oper") (auto simp: clone_source_def op_readable_def nullish_def list_all_iff)

lemma op_data_clone:
  assumes "clone_source oper = JObj ob"
  shows "op_data ob = oper\<lparr>op_id := [], op_value_text := toValueText (parseLooseValue (op_value_text oper)),
    op_conditions := map (\<lambda>c. c\<lparr>c_id := [], c_value_text := toValueText (parseLooseValue (c_value_text c))\<rparr>) (op_conditions oper)\<rparr>"
proof -
  have "rule_fields (JObj [(js ''path'', JStr (c_path c)), (js ''mode'', JStr (cond_mode_value (c_mode c))),
          (js ''value'', parseLooseValue (c_value_text c)), (js ''invert'', JBool (c_invert c)),
          (js ''pass_missing_key'', JBool (c_pass_missing_key c))]) [] =
      c\<lparr>c_id := [], c_value_text := toValueText (parseLooseValue (c_value_text c))\<rparr>" for c
    by (simp add: rule_fields_def Let_def get_prop_def string_or_empty_def)
  then show ?thesis
    using assms by (cases "op_logic oper") (auto simp: clone_source_def op_data_def string_or_empty_def op_mode_or_set_def)
qed

lemma cond_payloads_clone:
  assumes "list_all cond_stable cs"
  shows "List.map_filter buildConditionPayload
      (map (\<lambda>c. c\<lparr>c_id := [], c_value_text := toValueText (parseLooseValue (c_value_text c))\<rparr>) cs) =
    map json_nf (List.map_filter buildConditionPayload cs)"
  using assms
proof (induction cs)
  case (Cons c cs)
  have "buildConditionPayload (c\<lparr>c_id := [], c_value_text := toValueText (parseLooseValue (c_value_text c))\<rparr>) =
      map_option json_nf (buildConditionPayload c)"
    using Cons.prems loose_value_roundtrip [OF parseLooseValue_readable, of "c_value_text c"]
    by (auto simp: buildConditionPayload_def Let_def cond_stable_def nf_obj_set)
  with Cons show ?case by (auto simp: map_filter_simps split: option.split)
qed (simp add: map_filter_simps)

text \<open>
  Duplicating a rule puts the copy directly behind it, under new ids, and the copy saves to the
  same JSON object as the original (numbers that JSON cannot express become null in both), provided
  the rule is complete and its values are stable.
\<close>

theorem duplicate_same_payload:
  assumes g: "ids_ok (env_clock env) s (ed_operations ed)" and split: "ed_operations ed = a @ oper # b"
    and c: "op_complete oper" "op_stable oper"
  shows "\<exists>copy s'. duplicateOperation env eager (op_id oper) ed s =
      (Inr (ed\<lparr>ed_operations := a @ oper # copy # b,
              ed_selectedOperationId := (if eager then op_id copy else ed_selectedOperationId ed)\<rparr>), s') \<and>
    op_id copy = local_id (env_clock env) s \<and>
    operation_payload copy = nf_obj (operation_payload oper)"
proof -
  obtain ob where ob: "clone_source oper = JObj ob" "op_readable ob" using clone_readable by blast
  obtain copy s' where n: "normalizeOperation (env_clock env) (JObj ob) s = (Inr copy, s')" "strip_op copy = op_data ob"
    using normalizeOperation_data [OF ob(2)] by blast
  have "distinct (map op_id (ed_operations ed))" using g distinct_op_ids by (auto simp: ids_ok_def)
  then have "op_id oper \<notin> op_id ` set a" by (simp add: split)
  then have "op_id x \<noteq> op_id oper" if "x \<in> set a" for x using that by (metis imageI)
  then have i: "find_index (\<lambda>item. op_id item = op_id oper) (ed_operations ed) = Some (length a)"
    unfolding split by (induction a) auto
  have d: "duplicateOperation env eager (op_id oper) ed s =
      (Inr (ed\<lparr>ed_operations := a @ oper # copy # b,
              ed_selectedOperationId := (if eager then op_id copy else ed_selectedOperationId ed)\<rparr>), s')"
    by (simp add: duplicateOperation_def i) (simp add: split ibind_def ob(1) n(1) insert_at_def)
  have ends: "mm_from (MODE_META (op_mode oper)) \<Longrightarrow> trim (op_from oper) \<noteq> []"
    "mm_to (MODE_META (op_mode oper)) = Some True \<Longrightarrow> trim (op_to oper) \<noteq> []"
    using c(1) by (auto simp: op_complete_def Let_def)
  have "operation_payload (op_data ob) = nf_obj (operation_payload oper)"
    unfolding op_data_clone [OF ob(1)]
    by (rule payload_nf)
       (use ends c(2) in \<open>auto simp: op_stable_def cond_payloads_clone loose_value_roundtrip parseLooseValue_readable\<close>)
  then have "operation_payload copy = nf_obj (operation_payload oper)" using n(2) operation_payload_strip by metis
  moreover have "op_id copy = local_id (env_clock env) s"
    using normalizeOperation_ids [OF n(1)] by (simp add: op_ids_def upt_rec [of s])
  ultimately show ?thesis using d by blast
qed

definition sample_env :: env where
  "sample_env = \<lparr>env_t = (\<lambda>key opts. key), env_clock = (\<lambda>_. 9), env_typeErrorMessage = js ''TypeError''\<rparr>"

definition sample_editor :: editor where
  "sample_editor = \<lparr>ed_editMode = E_visual, ed_visualMode = V_operations, ed_legacyValue = [],
     ed_operations = [sample_delete\<lparr>op_id := local_id (\<lambda>_. 9) 0\<rparr>, sample_op\<lparr>op_id := local_id (\<lambda>_. 9) 1, op_mode := M_prune_objects,
       op_value_text := js ''thinking''\<rparr>],
     ed_jsonText = [], ed_jsonError = [], ed_operationSearch = [], ed_selectedOperationId = local_id (\<lambda>_. 9) 0,
     ed_expandedConditionMap = [], ed_draggedOperationId = [], ed_dragOverOperationId = [], ed_dragOverPosition = Before,
     ed_templateGroupKey = js ''basic'', ed_templatePresetKey = js ''operations_default'',
     ed_headerValueExampleVisible = False, ed_fieldGuideVisible = False, ed_fieldGuideTarget = G_path, ed_fieldGuideKeyword = []\<rparr>"

theorem prune_rule_edits_ignored_witness:
  "removePruneRule sample_env (local_id (\<lambda>_. 9) 1) (local_id (\<lambda>_. 9) 2) sample_editor 3 =
   patchPruneObjectsDraft sample_env (local_id (\<lambda>_. 9) 1) [] sample_editor 3"
proof -
  have "local_id (\<lambda>_. 9) 2 \<in> issued (local_id (env_clock sample_env)) 3" by (simp add: issued_def sample_env_def)
  from prune_rule_edits_ignored [OF this, of _ "[]"] show ?thesis by blast
qed

theorem duplicate_same_payload_witness:
  "\<exists>copy s'. duplicateOperation sample_env True (local_id (\<lambda>_. 9) 0) sample_editor 2 =
      (Inr (sample_editor\<lparr>ed_operations := [] @ (ed_operations sample_editor ! 0) # copy # [ed_operations sample_editor ! 1],
              ed_selectedOperationId := op_id copy\<rparr>), s') \<and>
    op_id copy = local_id (\<lambda>_. 9) 2 \<and>
    operation_payload copy = nf_obj (operation_payload (ed_operations sample_editor ! 0))"
proof -
  have ids: "ids_ok (env_clock sample_env) 2 (ed_operations sample_editor)"
    by (simp add: ids_ok_def sample_editor_def sample_env_def op_ids_def sample_delete_def sample_op_def local_id_inj issued_def)
  have sp: "ed_operations sample_editor = [] @ (ed_operations sample_editor ! 0) # [ed_operations sample_editor ! 1]"
    and i: "op_id (ed_operations sample_editor ! 0) = local_id (\<lambda>_. 9) 0"
    by (simp_all add: sample_editor_def)
  have c: "op_complete (ed_operations sample_editor ! 0)" "op_stable (ed_operations sample_editor ! 0)"
    using sample_delete_complete by (simp_all add: sample_editor_def op_complete_def op_stable_def)
  from duplicate_same_payload [OF ids sp c, of True] show ?thesis unfolding i by (simp add: sample_env_def)
qed

subsection \<open>The template library\<close>

lemma op_complete_strip [simp]: "op_complete (strip_op oper) = op_complete oper"
  by (simp add: op_complete_def strip_op_def)

lemma header_names_strings: "header_names (map JStr hs) = Inr (filter (\<lambda>s. s \<noteq> []) (map trim hs))"
proof -
  have "map trim_string (map JStr hs) = map Inr (map trim hs)"
    by (simp add: trim_string_def js_nullish_or_def nullish_def)
  then show ?thesis unfolding header_names_def by (simp add: res_list_Inr del: map_map)
qed

lemma trim_json_arr: "trim (json_str (JArr vs)) = json_str (JArr vs)"
  by (rule trim_trimmed) (simp add: trimmed_def is_ws_def)

definition pass_headers_object :: "jsobj \<Rightarrow> jstring list \<Rightarrow> jsobj" where
  "pass_headers_object pre hs = pre @ [(js ''mode'', JStr (js ''pass_headers'')), (js ''value'', JArr (map JStr hs)),
     (js ''keep_origin'', JBool True)]"

lemma pass_headers_complete:
  assumes "\<exists>h \<in> set hs. trim h \<noteq> []" and "\<forall>kv \<in> set pre. fst kv = js ''description''"
  shows "op_complete (op_data (pass_headers_object pre hs))" "op_readable (pass_headers_object pre hs)"
proof -
  have g: "get_own (pass_headers_object pre hs) k = get_own (pass_headers_object [] hs) k" if "k \<noteq> js ''description''" for k
    using assms(2) that by (induction pre) (auto simp: pass_headers_object_def)
  have m: "op_mode_of (js ''pass_headers'') = Some M_pass_headers" using op_mode_of_value [of M_pass_headers] by simp
  let ?v = "JArr (map JStr hs)"
  have t: "toValueText ?v = json_str ?v" by (simp add: toValueText_def)
  have r: "parseLooseValue (json_str ?v) = ?v"
    using loose_value_roundtrip [of ?v] unfolding t by (simp add: loose_stable_def comp_def del: json_str.simps)
  have f: "filter (\<lambda>s. s \<noteq> []) (map trim hs) \<noteq> []" using assms(1) by (auto simp: filter_empty_conv)
  have d: "op_mode (op_data (pass_headers_object pre hs)) = M_pass_headers"
    "op_value_text (op_data (pass_headers_object pre hs)) = json_str ?v"
    using g by (simp_all add: op_data_def op_mode_or_set_def m pass_headers_object_def t del: json_str.simps)
  show "op_complete (op_data (pass_headers_object pre hs))"
    unfolding op_complete_def d Let_def trim_json_arr r parsePassHeaderNames_def
    using f by (auto simp: no_meta_def header_names_strings neq_Nil_conv)
  show "op_readable (pass_headers_object pre hs)" using g by (simp add: op_readable_def) (simp add: pass_headers_object_def)
qed

lemma op_mode_of_words:
  "op_mode_of (js ''set'') = Some M_set" "op_mode_of (js ''set_header'') = Some M_set_header"
  "op_mode_of (js ''delete'') = Some M_delete"
  using op_mode_of_value [of M_set] op_mode_of_value [of M_set_header] op_mode_of_value [of M_delete] by simp_all

lemma trim_js_not_blank: "list_ex (\<lambda>c. \<not> is_ws (of_char c)) s \<Longrightarrow> trim (js s) \<noteq> []"
  by (auto simp: trim_eq_Nil_iff js_def list_ex_iff)

definition objects_complete :: "jsval list \<Rightarrow> bool" where
  "objects_complete vs \<longleftrightarrow> (\<exists>obs. vs = map JObj obs \<and> list_all op_readable obs \<and> list_all (\<lambda>ob. op_complete (op_data ob)) obs)"

lemma objects_completeI:
  "list_all (\<lambda>v. case v of JObj ob \<Rightarrow> op_readable ob \<and> op_complete (op_data ob) | _ \<Rightarrow> False) vs \<Longrightarrow> objects_complete vs"
proof (induction vs)
  case Nil
  show ?case unfolding objects_complete_def by (intro exI [of _ "[]"]) simp
next
  case (Cons v vs)
  then obtain ob obs where "v = JObj ob" "op_readable ob" "op_complete (op_data ob)" "vs = map JObj obs"
    "list_all op_readable obs" "list_all (\<lambda>ob. op_complete (op_data ob)) obs"
    by (auto simp: objects_complete_def split: jsval.splits)
  then show ?case unfolding objects_complete_def by (intro exI [of _ "ob # obs"]) simp
qed

lemma template_objects:
  "objects_complete OPERATION_TEMPLATE" "objects_complete GEMINI_IMAGE_4K_TEMPLATE"
  "objects_complete AWS_BEDROCK_ANTHROPIC_COMPAT_TEMPLATE"
  by (intro objects_completeI,
      simp add: OPERATION_TEMPLATE_def GEMINI_IMAGE_4K_TEMPLATE_def AWS_BEDROCK_ANTHROPIC_COMPAT_TEMPLATE_def
        op_readable_def nullish_def op_complete_def op_data_def op_mode_or_set_def op_mode_of_words string_or_empty_def
        no_meta_def VALUE_REQUIRED_MODES_def toValueText_def trim_js_not_blank is_ws_def)+

lemma header_template_objects:
  "objects_complete HEADER_PASSTHROUGH_TEMPLATE" "objects_complete CLAUDE_CLI_HEADER_PASSTHROUGH_TEMPLATE"
  "objects_complete CODEX_CLI_HEADER_PASSTHROUGH_TEMPLATE"
proof -
  have x: "trim (js ''X-Request-Id'') \<noteq> []" "trim (js ''X-App'') \<noteq> []" "trim (js ''Originator'') \<noteq> []"
    by (simp_all add: trim_js_not_blank is_ws_def)
  have e: "objects_complete [JObj (pass_headers_object pre hs)]"
    if "\<exists>h \<in> set hs. trim h \<noteq> []" "\<forall>kv \<in> set pre. fst kv = js ''description''" for pre hs
    using pass_headers_complete [OF that] by (intro objects_completeI) simp
  let ?d = "[(js ''description'', JStr (js ''Pass through X-Request-Id header to upstream.''))]"
  have eq: "HEADER_PASSTHROUGH_TEMPLATE = [JObj (pass_headers_object ?d [js ''X-Request-Id''])]"
    "CLAUDE_CLI_HEADER_PASSTHROUGH_TEMPLATE = [JObj (pass_headers_object [] CLAUDE_CLI_HEADER_PASSTHROUGH_HEADERS)]"
    "CODEX_CLI_HEADER_PASSTHROUGH_TEMPLATE = [JObj (pass_headers_object [] CODEX_CLI_HEADER_PASSTHROUGH_HEADERS)]"
    by (simp_all add: HEADER_PASSTHROUGH_TEMPLATE_def pass_headers_object_def CLAUDE_CLI_HEADER_PASSTHROUGH_TEMPLATE_def
        CODEX_CLI_HEADER_PASSTHROUGH_TEMPLATE_def buildPassHeadersTemplate_def)
  show "objects_complete HEADER_PASSTHROUGH_TEMPLATE" unfolding eq by (rule e) (simp_all add: x)
  show "objects_complete CLAUDE_CLI_HEADER_PASSTHROUGH_TEMPLATE"
    unfolding eq by (rule e) (simp_all add: x CLAUDE_CLI_HEADER_PASSTHROUGH_HEADERS_def)
  show "objects_complete CODEX_CLI_HEADER_PASSTHROUGH_TEMPLATE"
    unfolding eq by (rule e) (simp_all add: x CODEX_CLI_HEADER_PASSTHROUGH_HEADERS_def)
qed

lemma preset_objects: "getSelectedTemplatePreset ed = Operations vs \<Longrightarrow> objects_complete vs"
proof -
  have "\<forall>(k, p) \<in> set TEMPLATE_PRESET_CONFIG. \<forall>vs. tp_payload p = Operations vs \<longrightarrow> objects_complete vs"
    by (simp add: TEMPLATE_PRESET_CONFIG_def template_objects header_template_objects)
  then show "getSelectedTemplatePreset ed = Operations vs \<Longrightarrow> ?thesis"
    by (auto simp: getSelectedTemplatePreset_def template_objects split: option.splits dest!: map_of_SomeD)
qed

text \<open>
  Every template of the library can be used as it stands: filling the editor from it never
  throws, puts the visual editor in front, and the rules it installs all pass the editor's own
  validation, so that printing them succeeds (a legacy template prints as an object).
\<close>

theorem template_fill_valid:
  "\<exists>ed' s'. fillTemplateFromLibrary env ed s = (Inr (ed', []), s') \<and> ed_editMode ed' = E_visual \<and>
     (\<exists>text. buildVisualJson env ed' = Inr text)"
proof (cases "getSelectedTemplatePreset ed")
  case (Operations vs)
  obtain obs where obs: "vs = map JObj obs" "list_all op_readable obs" "list_all (\<lambda>ob. op_complete (op_data ob)) obs"
    using preset_objects [OF Operations] by (auto simp: objects_complete_def)
  obtain ops s' where i: "imap (normalizeOperation (env_clock env)) vs s = (Inr ops, s')" "map strip_op ops = map op_data obs"
    using imap_normalizeOperation_data [OF obs(2)] obs(1) by blast
  have "list_all op_complete (map strip_op ops)" unfolding i(2) using obs(3) by (simp add: list_all_iff)
  then have "list_all op_complete ops" by (simp add: list_all_iff)
  then have "list_all op_complete (filter (\<lambda>item. \<not> isOperationBlank item) ops)" by (simp add: list_all_iff)
  from validateOperations_complete [OF this] have b: "\<exists>text. buildOperationsJson (env_t env) True ops = Inr text"
    by (simp add: buildOperationsJson_def Let_def)
  have "ops \<noteq> []" using imap_not_Nil [OF i(1)] preset_operations_not_Nil [OF Operations] .
  then show ?thesis
    using Operations i(1) b by (simp add: fillTemplateFromLibrary_def fillOperationsTemplate_def ibind_def buildVisualJson_def)
next
  case (Legacy ob)
  then have ob: "ob = LEGACY_TEMPLATE"
    by (auto simp: getSelectedTemplatePreset_def TEMPLATE_PRESET_CONFIG_def split: if_splits)
  have w: "json_wf (JObj LEGACY_TEMPLATE)"
    using is_double_of_nat [of 0] is_double_of_nat [of 1000]
    by (simp add: LEGACY_TEMPLATE_def obj_canon_names is_digit_def)
  then show ?thesis
    using Legacy pretty.dec_enc [OF w]
    by (simp add: ob fillTemplateFromLibrary_def fillLegacyTemplate_def put_legacy_def ibind_def createDefaultOperation_ok
        buildVisualJson_def Let_def del: json_ind.simps)
qed

end
