(* ===== verification/JsFixed.thy ===== *)
theory JsFixed
  imports JsNumber
begin

text \<open>
  Rounding to a fixed number of decimals: what \<open>parseFloat(x.toFixed(f))\<close> computes. The result is
  the double nearest to a decimal with \<open>f\<close> digits after the point; applying the function again, or
  to twice the result, changes nothing. These facts carry the components that print prices.
\<close>

subsection \<open>More on rounding\<close>

lemma rhe_eq_iff: "rhe u = m \<longleftrightarrow> \<bar>u - of_int m\<bar> < 1 / 2 \<or> (\<bar>u - of_int m\<bar> = 1 / 2 \<and> even m)"
proof -
  define f d where "f = \<lfloor>u\<rfloor>" and "d = u - of_int \<lfloor>u\<rfloor>"
  have u: "u = of_int f + d" "0 \<le> d" "d < 1" by (simp_all add: f_def d_def) linarith+
  have r: "rhe u = (if d < 1 / 2 then f else if d > 1 / 2 then f + 1 else if even f then f else f + 1)"
    by (simp add: rhe_def Let_def f_def d_def)
  consider "m = f" | "m = f + 1" | "m \<le> f - 1" | "f + 2 \<le> m" by linarith
  then show ?thesis
  proof cases
    case 3
    then have "(of_int m :: rat) \<le> of_int (f - 1)" by (simp only: of_int_le_iff)
    with u 3 r show ?thesis by (auto split: if_splits)
  next
    case 4
    then have "(of_int (f + 2) :: rat) \<le> of_int m" by (simp only: of_int_le_iff)
    with u 4 r show ?thesis by (auto split: if_splits)
  qed (use u r in \<open>auto simp: abs_if\<close>)
qed

lemma rhe_closer: "rhe u = m \<Longrightarrow> \<bar>v - of_int m\<bar> \<le> \<bar>u - of_int m\<bar> \<Longrightarrow> rhe v = m"
  unfolding rhe_eq_iff by auto

lemma rhe_err: "\<bar>of_int (rhe u) - u\<bar> \<le> 1 / 2"
  using rhe_bounds [of u] by linarith

lemma rnd_err:
  assumes "rnd x = Num y" and "0 \<le> x"
  shows "\<bar>y - x\<bar> \<le> 2 powi qexp x / 2 \<and> 0 \<le> y"
proof (cases "x = 0")
  case False
  with assms(2) have x: "0 < x" by simp
  let ?u = "x / 2 powi qexp x"
  have y: "y = of_int (rhe ?u) * 2 powi qexp x" using rnd_NumD(1,3) [OF assms(1) False] x by simp
  have "y - x = (of_int (rhe ?u) - ?u) * 2 powi qexp x" by (simp add: y left_diff_distrib)
  then have "\<bar>y - x\<bar> = \<bar>of_int (rhe ?u) - ?u\<bar> * 2 powi qexp x" by (simp add: abs_mult)
  also have "\<dots> \<le> 1 / 2 * 2 powi qexp x" by (intro mult_right_mono rhe_err) auto
  finally have e: "\<bar>y - x\<bar> \<le> 2 powi qexp x / 2" by simp
  have "0 \<le> rhe ?u" using x by (intro rhe_ge_int) auto
  with e y show ?thesis by simp
qed (use assms in auto)

lemma qexp_less: "0 < x \<Longrightarrow> x < 2 powi e \<Longrightarrow> - 1021 \<le> e \<Longrightarrow> qexp x \<le> e - 53"
proof -
  assume x: "0 < x" "x < 2 powi e" "- 1021 \<le> e"
  have "2 powi ilog2 x \<le> x" using ilog2_bounds [OF x(1)] by simp
  then have "(2 :: rat) powi ilog2 x < 2 powi e" using x(2) by (rule order_le_less_trans)
  with x show ?thesis by (simp add: qexp_def)
qed

lemma rnd_finite:
  assumes "0 \<le> x" and "x < 2 ^ 1000"
  shows "\<exists>y. rnd x = Num y"
proof (cases "x = 0")
  case False
  with assms have x: "0 < x" "x < 2 powi 1000" by (simp_all)
  let ?q = "qexp x"
  have q: "?q \<le> 947" using qexp_less [OF x] by simp
  have "of_int (rhe (x / 2 powi ?q)) \<le> x / 2 powi ?q + 1 / 2" by (rule rhe_bounds)
  then have "of_int (rhe (x / 2 powi ?q)) * 2 powi ?q \<le> (x / 2 powi ?q + 1 / 2) * 2 powi ?q"
    by (intro mult_right_mono) auto
  also have "\<dots> = x + 2 powi ?q / 2" by (simp add: distrib_right)
  also have "\<dots> < 2 powi 1000 + 2 powi 1000"
  proof -
    have "(2 :: rat) powi ?q \<le> 2 powi 1000" using q by (simp only: powi2_le_iff)
    moreover have "0 < (2 :: rat) powi ?q" by simp
    ultimately show ?thesis using x(2) by linarith
  qed
  also have "\<dots> = (2 :: rat) powi 1001" using power_int_add [of "2 :: rat" 1000 1] by simp
  also have "\<dots> < dbl_limit"
  proof -
    have "(2 :: rat) powi 1001 < 2 powi 1024" by simp
    then show ?thesis by (simp add: dbl_limit_def)
  qed
  finally show ?thesis using x by (simp add: rnd_def Let_def)
qed simp

text \<open>Doubling is exact as long as nothing underflows or overflows.\<close>

lemma rnd_double:
  assumes "rnd z = Num y" and "2 powi - 1022 \<le> z" and "2 * y < dbl_limit"
  shows "rnd (2 * z) = Num (2 * y)"
proof -
  have z: "0 < z" using assms(2) by (rule order_less_le_trans [rotated]) simp
  let ?l = "ilog2 z"
  have b: "2 powi ?l \<le> z" "z < 2 powi (?l + 1)" using ilog2_bounds [OF z] by auto
  have "(2 :: rat) powi - 1022 < 2 powi (?l + 1)" using assms(2) b(2) by (rule order_le_less_trans)
  then have l: "- 1022 \<le> ?l" by (simp only: powi2_less_iff)
  have "ilog2 (2 * z) = ?l + 1"
    using b by (intro ilog2_unique) (simp_all add: power_int_add)
  then have q: "qexp (2 * z) = qexp z + 1" using z l by (simp add: qexp_def)
  have u: "\<bar>2 * z\<bar> / 2 powi qexp (2 * z) = z / 2 powi qexp z" using z by (simp add: q power_int_add)
  have y: "y = of_int (rhe (z / 2 powi qexp z)) * 2 powi qexp z"
    using rnd_NumD(1,3) [OF assms(1)] z by simp
  then have "of_int (rhe (z / 2 powi qexp z)) * 2 powi qexp (2 * z) = 2 * y"
    by (simp add: q power_int_add)
  with assms(3) z show ?thesis unfolding rnd_def Let_def u by simp
qed

lemma is_double_times_2:
  assumes "is_double y" and "\<bar>2 * y\<bar> < dbl_limit"
  shows "is_double (2 * y)"
proof (cases "y = 0")
  case False
  have r: "rnd y = Num y" using assms(1) by (simp add: is_double_def)
  let ?m = "rhe (\<bar>y\<bar> / 2 powi qexp y)"
  have "\<bar>y\<bar> = of_int ?m * 2 powi qexp y" by (rule rnd_NumD(1) [OF r False])
  then have m: "\<bar>2 * y\<bar> = of_int ?m * 2 powi (qexp y + 1)" by (simp add: abs_mult power_int_add)
  have y: "0 < \<bar>y\<bar>" using False by simp
  have b: "2 powi ilog2 \<bar>y\<bar> \<le> \<bar>y\<bar>" "\<bar>y\<bar> < 2 powi (ilog2 \<bar>y\<bar> + 1)" using ilog2_bounds [OF y] by auto
  have "ilog2 (2 * \<bar>y\<bar>) = ilog2 \<bar>y\<bar> + 1"
    using b by (intro ilog2_unique) (simp_all add: power_int_add)
  then have "qexp (2 * y) \<le> qexp y + 1" unfolding qexp_def abs_mult by simp linarith
  from rnd_dyadic [OF m this assms(2)] show ?thesis by (simp add: is_double_def)
qed simp

lemma is_double_powi2: "- 1074 \<le> e \<Longrightarrow> e < 1024 \<Longrightarrow> is_double (2 powi e)"
proof -
  assume e: "- 1074 \<le> e" "e < 1024"
  have "ilog2 \<bar>2 powi e\<bar> = e" by (intro ilog2_unique) auto
  then have "qexp (2 powi e) \<le> e" using e by (simp add: qexp_def)
  moreover have "\<bar>2 powi e\<bar> < dbl_limit"
  proof -
    have "(2 :: rat) powi e < 2 powi 1024" using e(2) by (simp only: powi2_less_iff)
    then show ?thesis by (simp add: dbl_limit_def)
  qed
  ultimately show ?thesis unfolding is_double_def by (intro rnd_dyadic [of _ 1 e]) auto
qed

subsection \<open>The decimal grid\<close>

lemma abs_scaled: "0 < c \<Longrightarrow> \<bar>a / c - b\<bar> = \<bar>a - b * c\<bar> / (c :: rat)"
proof -
  assume c: "0 < c"
  then have "a / c - b = (a - b * c) / c" by (simp add: field_simps)
  with c show ?thesis by (simp add: abs_divide)
qed

lemma floor_half_nearest:
  fixes x :: rat
  shows "\<bar>of_int \<lfloor>x + 1 / 2\<rfloor> - x\<bar> \<le> 1 / 2" and "\<bar>of_int \<lfloor>x + 1 / 2\<rfloor> - x\<bar> \<le> \<bar>of_int k - x\<bar>"
proof -
  let ?n = "\<lfloor>x + 1 / 2\<rfloor>"
  have n: "of_int ?n \<le> x + 1 / 2" "x + 1 / 2 < of_int ?n + 1" by linarith+
  then show "\<bar>of_int ?n - x\<bar> \<le> 1 / 2" by linarith
  consider "k = ?n" | "k \<le> ?n - 1" | "?n + 1 \<le> k" by linarith
  then show "\<bar>of_int ?n - x\<bar> \<le> \<bar>of_int k - x\<bar>"
  proof cases
    case 2
    then have "(of_int k :: rat) \<le> of_int (?n - 1)" by (simp only: of_int_le_iff)
    then have "(of_int k :: rat) \<le> of_int ?n - 1" by (simp only: of_int_diff of_int_1)
    with n show ?thesis by linarith
  next
    case 3
    then have "(of_int (?n + 1) :: rat) \<le> of_int k" by (simp only: of_int_le_iff)
    then have "(of_int ?n + 1 :: rat) \<le> of_int k" by (simp only: of_int_add of_int_1)
    with n show ?thesis by linarith
  qed simp
qed

lemma floor_half_unique: "\<bar>of_int k - x\<bar> < 1 / 2 \<Longrightarrow> \<lfloor>x + 1 / 2 :: rat\<rfloor> = k"
  by (rule floor_unique) linarith+

text \<open>
  A double that is nearest to some decimal with \<open>f\<close> digits is also nearest to the decimal with
  \<open>f\<close> digits that is nearest to it. Below 1 the grid is so much coarser than the doubles that it
  is the same decimal; above, the new decimal is at least as close, and the only doubles whose
  rounding interval is not symmetric are powers of two, which lie on the grid.
\<close>

lemma rnd_nearest_grid_small:
  assumes "rnd (of_nat k / 10 ^ f) = Num y" and "y < 1" and "f \<le> 15"
  shows "\<lfloor>y * 10 ^ f + 1 / 2\<rfloor> = int k"
proof (cases "k = 0")
  case False
  let ?z = "of_nat k / 10 ^ f :: rat"
  have z: "0 < ?z" using False by simp
  have "\<not> 2 powi 0 \<le> \<bar>?z\<bar>"
    using rnd_ge_leading [OF assms(1), of 0] rnd_err [OF assms(1)] assms(2) by auto
  then have "?z < 2 powi 0" using z by simp
  then have "qexp ?z \<le> - 53" using qexp_less [OF z, of 0] by simp
  then have "(2 :: rat) powi qexp ?z \<le> 2 powi - 53" by (simp only: powi2_le_iff)
  then have "\<bar>y - ?z\<bar> \<le> 2 powi - 53 / 2" using rnd_err [OF assms(1)] z by auto
  then have "\<bar>y - ?z\<bar> * 10 ^ f \<le> 2 powi - 53 / 2 * 10 ^ f" by (intro mult_right_mono) auto
  also have "\<dots> \<le> 2 powi - 53 / 2 * 10 ^ 15"
    using assms(3) by (intro mult_left_mono power_increasing) auto
  also have "\<dots> < 1 / 2" by (simp add: power_int_def field_simps)
  finally have "\<bar>y - ?z\<bar> * 10 ^ f < 1 / 2" .
  moreover have "\<bar>y - ?z\<bar> * 10 ^ f = \<bar>y * 10 ^ f - of_nat k\<bar>"
  proof -
    have "y * 10 ^ f - of_nat k = (y - ?z) * 10 ^ f" by (simp add: left_diff_distrib)
    then show ?thesis by (simp add: abs_mult)
  qed
  ultimately have "\<bar>of_int (int k) - y * 10 ^ f\<bar> < 1 / 2" by (simp add: abs_minus_commute)
  then show ?thesis by (rule floor_half_unique)
qed (use assms in \<open>simp add: floor_eq_iff\<close>)

lemma rnd_nearest_grid_large:
  assumes rz: "rnd z = Num y" and z: "0 \<le> z" and y: "1 \<le> y"
    and closer: "\<bar>z' - y\<bar> \<le> \<bar>z - y\<bar>" and grid: "(\<exists>j. y = 2 ^ j) \<Longrightarrow> z' = y"
  shows "rnd z' = Num y"
proof (cases "\<exists>j. y = 2 ^ j")
  case True
  then show ?thesis using grid rnd_idem [OF rz] by simp
next
  case False
  let ?q = "qexp z" and ?m = "rhe (z / 2 powi qexp z)"
  have zpos: "0 < z" using z rz y by (cases "z = 0") auto
  have ym: "y = of_int ?m * 2 powi ?q" and lim: "y < dbl_limit"
    using rnd_NumD [OF rz] zpos y by auto
  have zb: "2 powi ilog2 z \<le> z" "z < 2 powi (ilog2 z + 1)" using ilog2_bounds [OF zpos] by auto
  have "z < 2 powi (?q + 53)"
    using zb(2) order_less_le_trans [of z "2 powi (ilog2 z + 1)" "2 powi (?q + 53)"] zpos by (simp add: qexp_def)
  then have "z / 2 powi ?q \<le> of_int (2 ^ 53)" by (simp add: field_simps power_int_add)
  then have m53: "?m \<le> 2 ^ 53" by (rule rhe_le_int)
  then have "(of_int ?m :: rat) \<le> of_int (2 ^ 53)" by (simp only: of_int_le_iff)
  then have "y \<le> of_int (2 ^ 53) * 2 powi ?q" unfolding ym by (intro mult_right_mono) auto
  with y have "1 \<le> of_int (2 ^ 53) * (2 :: rat) powi ?q" by (rule order_trans)
  also have "of_int (2 ^ 53) * (2 :: rat) powi ?q = 2 powi (?q + 53)" by (simp add: power_int_add)
  finally have "(2 :: rat) powi 0 \<le> 2 powi (?q + 53)" by simp
  then have q: "- 53 \<le> ?q" by (simp only: powi2_le_iff)
  then have ql: "?q = ilog2 z - 52" using zpos by (simp add: qexp_def)
  have "of_int (2 ^ 52) \<le> z / 2 powi ?q" using zb(1) unfolding ql by (simp add: field_simps power_int_diff)
  then have m52: "2 ^ 52 \<le> ?m" by (rule rhe_ge_int)
  have pow: "?m \<noteq> 2 ^ j" if "j = 52 \<or> j = 53" for j :: nat
  proof
    assume m: "?m = 2 ^ j"
    have "y = 2 powi (int j + ?q)" unfolding ym m by (simp add: power_int_add)
    moreover have "0 \<le> int j + ?q" using y q that calculation
      by (metis linorder_not_less order_le_less_trans powi2_less_iff power_int_0_right)
    ultimately have "y = 2 ^ nat (int j + ?q)" by (simp add: power_int_def)
    with False show False by blast
  qed
  have m: "2 ^ 52 + 1 \<le> ?m" "?m \<le> 2 ^ 53 - 1" using m52 m53 pow [of 52] pow [of 53] by auto
  have mr: "of_int (2 ^ 52 + 1) \<le> (of_int ?m :: rat)" "(of_int ?m :: rat) \<le> of_int (2 ^ 53 - 1)"
    using m by (simp_all only: of_int_le_iff)
  let ?v = "z' / 2 powi ?q"
  have scale: "\<bar>w / 2 powi ?q - of_int ?m\<bar> = \<bar>w - y\<bar> / 2 powi ?q" for w
    unfolding ym by (rule abs_scaled) simp
  have vd: "\<bar>?v - of_int ?m\<bar> \<le> \<bar>z / 2 powi ?q - of_int ?m\<bar>"
    unfolding scale using closer by (intro divide_right_mono) auto
  then have rv: "rhe ?v = ?m" by (intro rhe_closer [OF refl])
  have "\<bar>?v - of_int ?m\<bar> \<le> 1 / 2" using rhe_err [of "z / 2 powi ?q"] vd by linarith
  moreover have "2 ^ 52 + 1 \<le> (of_int ?m :: rat)" "(of_int ?m :: rat) \<le> 2 ^ 53 - 1"
    using mr by (simp_all only: of_int_add of_int_diff of_int_power of_int_numeral of_int_1)
  ultimately have v: "2 ^ 52 \<le> ?v" "?v < 2 ^ 53" by linarith+
  have il: "ilog2 z' = ilog2 z"
    using v by (intro ilog2_unique) (simp_all add: ql field_simps power_int_diff power_int_add)
  have "0 < ?v" using v(1) by (rule order_less_le_trans [rotated]) simp
  then have zp: "0 < z'" by (meson divide_nonpos_pos linorder_not_less zero_less_numeral zero_less_power_int)
  then have "qexp z' = ?q" using zpos by (simp add: qexp_def il)
  with zp lim rv ym show ?thesis by (simp add: rnd_def Let_def)
qed

lemma rnd_nearest_grid:
  assumes "rnd (of_nat k / 10 ^ f) = Num y" and "f \<le> 15"
  shows "rnd (of_nat (nat \<lfloor>y * 10 ^ f + 1 / 2\<rfloor>) / 10 ^ f) = Num y"
proof (cases "y < 1")
  case True
  then show ?thesis using rnd_nearest_grid_small [OF assms(1) True assms(2)] assms(1) by simp
next
  case False
  let ?n = "\<lfloor>y * 10 ^ f + 1 / 2\<rfloor>"
  have n0: "0 \<le> ?n" using False by simp
  have s: "\<bar>of_int i / 10 ^ f - y\<bar> = \<bar>of_int i - y * 10 ^ f\<bar> / 10 ^ f" for i
    by (rule abs_scaled) simp
  have "\<bar>of_int ?n / 10 ^ f - y\<bar> \<le> \<bar>of_int (int k) / 10 ^ f - y\<bar>"
    unfolding s using floor_half_nearest(2) [of "y * 10 ^ f" "int k"] by (rule divide_right_mono) simp
  moreover have "of_int ?n / 10 ^ f = y" if "\<exists>j. y = 2 ^ j"
  proof -
    from that obtain j where j: "y = 2 ^ j" by (elim exE)
    have "?n = 2 ^ j * 10 ^ f" unfolding j by (rule floor_half_unique) simp
    then show ?thesis using j by simp
  qed
  ultimately have "rnd (of_int ?n / 10 ^ f) = Num y"
    using False by (intro rnd_nearest_grid_large [OF assms(1)]) auto
  then show ?thesis using n0 by simp
qed

subsection \<open>What \<open>parseFloat(x.toFixed(f))\<close> computes\<close>

definition fixed_value :: "nat \<Rightarrow> rat \<Rightarrow> jsnum" where
  "fixed_value f r = (if \<bar>r\<bar> \<ge> 10 ^ 21 then Num r
     else with_sign (r < 0) (rnd (of_nat (nat \<lfloor>\<bar>r\<bar> * 10 ^ f + 1 / 2\<rfloor>) / 10 ^ f)))"

lemma fixed_digits_parts:
  assumes "0 < f"
  obtains ip fp where "fixed_digits f n = ip @ [46] @ fp" and "\<forall>c \<in> set (ip @ fp). is_digit c"
    and "ip \<noteq> []" and "length fp = f" and "digits_val (ip @ fp) = n"
proof -
  define padded where "padded = (if length (dec n) \<le> f then zeros (Suc f - length (dec n)) @ dec n else dec n)"
  define k where "k = length padded"
  have len: "f < k" by (auto simp: padded_def k_def)
  have fd: "fixed_digits f n = take (k - f) padded @ [46] @ drop (k - f) padded"
    using assms by (simp add: fixed_digits_def Let_def padded_def k_def)
  have v: "digits_val padded = n" by (simp add: padded_def digits_val_append)
  have ds: "\<forall>c \<in> set padded. is_digit c" by (auto simp: padded_def dest: dec_digits zeros_digits)
  show thesis
  proof (rule that [OF fd])
    show "\<forall>c \<in> set (take (k - f) padded @ drop (k - f) padded). is_digit c" using ds by simp
    show "take (k - f) padded \<noteq> []" using len by (auto simp: k_def)
    show "length (drop (k - f) padded) = f" using len by (simp add: k_def)
  qed (simp add: v)
qed

lemma str_udec_fixed_digits:
  assumes "0 < f"
  shows "str_udec (fixed_digits f n) = Some (rnd (of_nat n / 10 ^ f)) \<and>
    fixed_digits f n \<noteq> [] \<and> is_digit (hd (fixed_digits f n))"
proof -
  obtain ip fp where p: "fixed_digits f n = ip @ [46] @ fp" "\<forall>c \<in> set (ip @ fp). is_digit c"
    "ip \<noteq> []" "length fp = f" "digits_val (ip @ fp) = n"
    using fixed_digits_parts [OF assms] by metis
  have h: "is_digit (hd (fixed_digits f n))" using p(1,2,3) by (cases ip) auto
  then have ni: "fixed_digits f n \<noteq> js ''Infinity''" by (auto simp: js_def is_digit_def)
  have d: "dec_parts (fixed_digits f n) = Some (ip, Some fp, 0)"
    using dec_parts_point [of ip fp "[]"] p(1,2) by simp
  have "dec_value ip (Some fp) 0 = of_nat n / 10 ^ f"
    using p(4,5) by (simp add: dec_value_def frac_digits_def power_int_minus divide_inverse)
  with d ni p(3) have "str_udec (fixed_digits f n) = Some (rnd (of_nat n / 10 ^ f))"
    by (simp add: str_udec_def)
  with h p(1) show ?thesis by simp
qed

lemma parse_float_whole: "str_dec s = Some n \<Longrightarrow> \<not> is_ws (hd s) \<Longrightarrow> parse_float s = n"
  by (cases s) (auto simp: parse_float_def trim_start_def str_dec_def)

theorem parse_float_to_fixed:
  assumes "is_double r" and "0 < f"
  shows "parse_float (to_fixed f (Num r)) = fixed_value f r"
proof (cases "\<bar>r\<bar> \<ge> 10 ^ 21")
  case True
  then show ?thesis using parse_float_to_string [OF assms(1)]
    by (simp add: fixed_value_def del: num_to_string.simps)
next
  case False
  define n where "n = nat \<lfloor>\<bar>r\<bar> * 10 ^ f + 1 / 2\<rfloor>"
  define ds where "ds = fixed_digits f n"
  have d: "str_udec ds = Some (rnd (of_nat n / 10 ^ f))" "ds \<noteq> []" "is_digit (hd ds)"
    using str_udec_fixed_digits [OF assms(2), of n] by (simp_all add: ds_def)
  have t: "to_fixed f (Num r) = (if r < 0 then [45] else []) @ ds"
    using False by (simp add: n_def ds_def Let_def)
  have "str_dec ((if r < 0 then [45] else []) @ ds) = Some (with_sign (r < 0) (rnd (of_nat n / 10 ^ f)))"
    using d by (cases ds) (auto simp: str_dec_def with_sign_def is_digit_def)
  moreover have "\<not> is_ws (hd ((if r < 0 then [45] else []) @ ds))"
    using d digit_not_ws by (cases ds) (auto simp: is_ws_def)
  ultimately have "parse_float (to_fixed f (Num r)) = with_sign (r < 0) (rnd (of_nat n / 10 ^ f))"
    unfolding t by (rule parse_float_whole)
  then show ?thesis using False by (simp add: fixed_value_def n_def)
qed

text \<open>The result is finite, and the double nearest to a decimal within half a unit of the last digit.\<close>

lemma fixed_value_grid:
  assumes "\<bar>r\<bar> < 10 ^ 21" and "f \<le> 15"
  obtains k y where "rnd (of_nat k / 10 ^ f) = Num y" and "0 \<le> y"
    and "\<bar>of_nat k / 10 ^ f - \<bar>r\<bar>\<bar> \<le> 1 / (2 * 10 ^ f)" and "fixed_value f r = Num (if r < 0 then - y else y)"
proof -
  define n where "n = \<lfloor>\<bar>r\<bar> * 10 ^ f + 1 / 2\<rfloor>"
  have n0: "0 \<le> n" by (simp add: n_def)
  have e: "\<bar>of_nat (nat n) / 10 ^ f - \<bar>r\<bar>\<bar> \<le> 1 / (2 * 10 ^ f)"
  proof -
    have "\<bar>of_nat (nat n) / 10 ^ f - \<bar>r\<bar>\<bar> = \<bar>of_int n - \<bar>r\<bar> * 10 ^ f\<bar> / 10 ^ f"
      using n0 abs_scaled [of "10 ^ f" "of_int n" "\<bar>r\<bar>"] by simp
    also have "\<dots> \<le> 1 / 2 / 10 ^ f"
      unfolding n_def by (intro divide_right_mono floor_half_nearest) simp
    finally show ?thesis by simp
  qed
  have "(1 :: rat) / (2 * 10 ^ f) \<le> 1 / 2" by (simp add: field_simps)
  then have "of_nat (nat n) / 10 ^ f < (10 ^ 21 + 1 :: rat)" using e assms(1) by linarith
  also have "\<dots> < 2 ^ 1000" by simp
  finally obtain y where y: "rnd (of_nat (nat n) / 10 ^ f) = Num y" using rnd_finite by fastforce
  have "0 \<le> y" using rnd_err [OF y] by simp
  from that [OF y this e] y assms(1) show thesis
    by (simp add: fixed_value_def n_def with_sign_def)
qed

theorem fixed_value_finite: "f \<le> 15 \<Longrightarrow> num_finite (fixed_value f r)"
proof (cases "\<bar>r\<bar> < 10 ^ 21")
  case True
  assume "f \<le> 15"
  then obtain y where "fixed_value f r = Num y" using fixed_value_grid [OF True] by metis
  then show ?thesis by (simp add: num_finite_def)
qed (simp add: fixed_value_def num_finite_def)

lemma fixed_value_on_grid:
  assumes "rnd (of_nat k / 10 ^ f) = Num y" and "f \<le> 15"
  shows "fixed_value f y = Num y" and "fixed_value f (- y) = Num (- y)"
proof -
  have y0: "0 \<le> y" using rnd_err [OF assms(1)] by simp
  have n: "rnd (of_nat (nat \<lfloor>\<bar>y\<bar> * 10 ^ f + 1 / 2\<rfloor>) / 10 ^ f) = Num y"
    using rnd_nearest_grid [OF assms] y0 by (simp only: abs_of_nonneg)
  show "fixed_value f y = Num y" using y0 unfolding fixed_value_def n by (simp add: with_sign_def)
  show "fixed_value f (- y) = Num (- y)"
    using y0 unfolding fixed_value_def abs_minus_cancel n by (auto simp: with_sign_def)
qed

theorem fixed_value_idem:
  assumes "fixed_value f r = Num y" and "f \<le> 15"
  shows "fixed_value f y = Num y"
proof (cases "\<bar>r\<bar> < 10 ^ 21")
  case True
  obtain k z where z: "rnd (of_nat k / 10 ^ f) = Num z" "fixed_value f r = Num (if r < 0 then - z else z)"
    by (rule fixed_value_grid [OF True assms(2)])
  then have "y = (if r < 0 then - z else z)" using assms(1) by simp
  with fixed_value_on_grid [OF z(1) assms(2)] show ?thesis by simp
qed (use assms in \<open>simp add: fixed_value_def\<close>)

theorem fixed_value_double:
  assumes "fixed_value f r = Num y" and "f \<le> 15" and "\<bar>2 * y\<bar> < dbl_limit"
  shows "fixed_value f (2 * y) = Num (2 * y)"
proof (cases "\<bar>r\<bar> < 10 ^ 21")
  case True
  obtain k z where z: "rnd (of_nat k / 10 ^ f) = Num z" "0 \<le> z"
    and fz: "fixed_value f r = Num (if r < 0 then - z else z)"
    by (rule fixed_value_grid [OF True assms(2)])
  then have y: "y = (if r < 0 then - z else z)" using assms(1) by simp
  have "rnd (of_nat (2 * k) / 10 ^ f) = Num (2 * z)"
  proof (cases "k = 0")
    case False
    have "(2 :: rat) powi - 1022 \<le> 2 powi - 50" by (simp only: powi2_le_iff)
    also have "\<dots> \<le> 1 / 10 ^ 15" by (simp add: power_int_def field_simps)
    also have "\<dots> \<le> of_nat k / 10 ^ f"
      using False assms(2) by (intro frac_le power_increasing) (auto simp: Suc_le_eq)
    finally have "rnd (2 * (of_nat k / 10 ^ f)) = Num (2 * z)"
      using rnd_double [OF z(1)] z(2) assms(3) y by (auto split: if_splits)
    then show ?thesis by simp
  qed (use z in simp)
  from fixed_value_on_grid [OF this assms(2)] y show ?thesis by (auto split: if_splits)
qed (use assms in \<open>auto simp: fixed_value_def\<close>)

lemma fixed_value_wf:
  assumes "is_double r" and "f \<le> 15"
  shows "num_wf (fixed_value f r)"
proof (cases "\<bar>r\<bar> < 10 ^ 21")
  case True
  obtain k z where z: "rnd (of_nat k / 10 ^ f) = Num z" "fixed_value f r = Num (if r < 0 then - z else z)"
    by (rule fixed_value_grid [OF True assms(2)])
  then have "is_double z" using rnd_idem by (simp add: is_double_def)
  with z(2) show ?thesis by (simp add: is_double_uminus)
qed (use assms in \<open>simp add: fixed_value_def\<close>)

text \<open>Explicit error bounds below 2.\<close>

lemma rnd_err_below_2:
  assumes "rnd x = Num y" and "0 \<le> x" and "x < 2"
  shows "\<bar>y - x\<bar> \<le> 1 / 2 ^ 53"
proof (cases "x = 0")
  case False
  with assms have "0 < x" "x < 2 powi 1" by simp_all
  then have "qexp x \<le> - 52" using qexp_less [of x 1] by simp
  then have "(2 :: rat) powi qexp x \<le> 2 powi - 52" by (simp only: powi2_le_iff)
  moreover have "(2 :: rat) powi - 52 / 2 = 1 / 2 ^ 53" by (simp add: power_int_def field_simps)
  ultimately show ?thesis using rnd_err [OF assms(1,2)] by linarith
qed (use assms in simp)

lemma fixed_value_err:
  assumes "fixed_value 12 r = Num y" and "0 \<le> r" and "r < 1"
  shows "\<bar>y - r\<bar> \<le> 1 / 10 ^ 12"
proof -
  have small: "\<bar>r\<bar> < 10 ^ 21" using assms(2,3) by simp
  obtain k z where k: "rnd (of_nat k / 10 ^ 12) = Num z" "\<bar>of_nat k / 10 ^ 12 - \<bar>r\<bar>\<bar> \<le> 1 / (2 * 10 ^ 12)"
    and f: "fixed_value 12 r = Num (if r < 0 then - z else z)"
    by (rule fixed_value_grid [OF small, of 12]) simp
  have kr: "\<bar>of_nat k / 10 ^ 12 - r\<bar> \<le> 1 / (2 * 10 ^ 12)" using k(2) assms(2) by simp
  moreover have "(1 :: rat) / (2 * 10 ^ 12) < 1" by simp
  ultimately have "of_nat k / 10 ^ 12 < (2 :: rat)" using assms(3) by linarith
  then have "\<bar>z - of_nat k / 10 ^ 12\<bar> \<le> 1 / 2 ^ 53" using rnd_err_below_2 [OF k(1)] by simp
  moreover have "z = y" using f assms(1,2) by simp
  moreover have "(1 :: rat) / (2 * 10 ^ 12) + 1 / 2 ^ 53 \<le> 1 / 10 ^ 12" by simp
  ultimately show ?thesis using kr by linarith
qed

end
