(* ===== verification/PricingModel.thy ===== *)
theory PricingModel
  imports JsJson JsFixed
begin

text \<open>
  The model price editor (\<open>useModelPricingEditorState.js\<close>), first part: the pure functions. A model's
  prices are texts as the form shows them; the server stores eight options, each a JSON object from
  model names to numbers: the price per request, or the input ratio (half the input price) and the
  other prices as ratios of the input price. \<open>buildModelState\<close> reads the options into the form,
  \<open>serializeModel\<close> computes the numbers that are saved, \<open>buildPreviewRows\<close> shows them beforehand.
\<close>

subsection \<open>Options and models\<close>

datatype option_key = K_ModelPrice | K_ModelRatio | K_CompletionRatio | K_CacheRatio
  | K_CreateCacheRatio | K_ImageRatio | K_AudioRatio | K_AudioCompletionRatio

definition OPTION_KEYS :: "option_key list" where
  "OPTION_KEYS = [K_ModelPrice, K_ModelRatio, K_CompletionRatio, K_CacheRatio, K_CreateCacheRatio,
     K_ImageRatio, K_AudioRatio, K_AudioCompletionRatio]"

fun option_key_name :: "option_key \<Rightarrow> jstring" where
  "option_key_name K_ModelPrice = js ''ModelPrice''"
| "option_key_name K_ModelRatio = js ''ModelRatio''"
| "option_key_name K_CompletionRatio = js ''CompletionRatio''"
| "option_key_name K_CacheRatio = js ''CacheRatio''"
| "option_key_name K_CreateCacheRatio = js ''CreateCacheRatio''"
| "option_key_name K_ImageRatio = js ''ImageRatio''"
| "option_key_name K_AudioRatio = js ''AudioRatio''"
| "option_key_name K_AudioCompletionRatio = js ''AudioCompletionRatio''"

lemma set_OPTION_KEYS [simp]: "k \<in> set OPTION_KEYS"
  by (cases k) (auto simp: OPTION_KEYS_def)

lemma distinct_OPTION_KEYS [simp]: "distinct OPTION_KEYS"
  by (simp add: OPTION_KEYS_def)

lemma option_key_name_inj [simp]: "option_key_name a = option_key_name b \<longleftrightarrow> a = b"
  by (cases a; cases b) simp_all

datatype billing_mode = Per_token | Per_request

record raw_ratios =
  rr_modelRatio :: jstring
  rr_completionRatio :: jstring
  rr_cacheRatio :: jstring
  rr_createCacheRatio :: jstring
  rr_imageRatio :: jstring
  rr_audioRatio :: jstring
  rr_audioCompletionRatio :: jstring

record pricing_model =
  pm_name :: jstring
  pm_billingMode :: billing_mode
  pm_fixedPrice :: jstring
  pm_inputPrice :: jstring
  pm_completionPrice :: jstring
  pm_lockedCompletionRatio :: jstring
  pm_completionRatioLocked :: bool
  pm_cachePrice :: jstring
  pm_createCachePrice :: jstring
  pm_imagePrice :: jstring
  pm_audioInputPrice :: jstring
  pm_audioOutputPrice :: jstring
  pm_rawRatios :: raw_ratios
  pm_hasConflict :: bool

definition EMPTY_RATIOS :: raw_ratios where
  "EMPTY_RATIOS = \<lparr>rr_modelRatio = [], rr_completionRatio = [], rr_cacheRatio = [],
     rr_createCacheRatio = [], rr_imageRatio = [], rr_audioRatio = [], rr_audioCompletionRatio = []\<rparr>"

definition EMPTY_MODEL :: pricing_model where
  "EMPTY_MODEL = \<lparr>pm_name = [], pm_billingMode = Per_token, pm_fixedPrice = [], pm_inputPrice = [],
     pm_completionPrice = [], pm_lockedCompletionRatio = [], pm_completionRatioLocked = False,
     pm_cachePrice = [], pm_createCachePrice = [], pm_imagePrice = [], pm_audioInputPrice = [],
     pm_audioOutputPrice = [], pm_rawRatios = EMPTY_RATIOS, pm_hasConflict = False\<rparr>"

definition raw_ratio_list :: "raw_ratios \<Rightarrow> jstring list" where
  "raw_ratio_list r = [rr_modelRatio r, rr_completionRatio r, rr_cacheRatio r, rr_createCacheRatio r,
     rr_imageRatio r, rr_audioRatio r, rr_audioCompletionRatio r]"

subsection \<open>Numbers and texts\<close>

text \<open>\<open>NUMERIC_INPUT_REGEX.test(value)\<close> for \<open>/^(\d+(\.\d*)?|\.\d*)?$/\<close>\<close>

definition NUMERIC_INPUT_REGEX :: "jstring \<Rightarrow> bool" where
  "NUMERIC_INPUT_REGEX s =
     (let r = dropWhile is_digit s in r = [] \<or> (hd r = 46 \<and> list_all is_digit (tl r)))"

definition hasValue :: "jsval \<Rightarrow> bool" where
  "hasValue value' \<longleftrightarrow> value' \<noteq> JStr [] \<and> value' \<noteq> JNull \<and> value' \<noteq> JUndef \<and> value' \<noteq> JBool False"

abbreviation has_text :: "jstring \<Rightarrow> bool" where
  "has_text s \<equiv> hasValue (JStr s)"

lemma hasValue_simps [simp]: "hasValue (JStr s) \<longleftrightarrow> s \<noteq> []" "hasValue (JNum n)" "\<not> hasValue JUndef"
  "\<not> hasValue JNull" "hasValue (JBool b) = b" "hasValue (JObj ob)" "hasValue (JArr vs)"
  by (simp_all add: hasValue_def)

definition toNumericString :: "jsval \<Rightarrow> jstring res" where
  "toNumericString value' =
     (if \<not> hasValue value' \<and> value' \<noteq> JNum (Num 0) then Inr []
      else rbind (js_Number value') (\<lambda>num. Inr (if num_finite num then num_to_string num else [])))"

text \<open>The callers of the next functions pass a text of the form or a computed number.\<close>

datatype numeric = Text jstring | Number jsnum

fun numeric_val :: "numeric \<Rightarrow> jsval" where
  "numeric_val (Text s) = JStr s"
| "numeric_val (Number n) = JNum n"

fun numeric_num :: "numeric \<Rightarrow> jsnum" where
  "numeric_num (Text s) = string_to_number s"
| "numeric_num (Number n) = n"

definition toNumberOrNull :: "numeric \<Rightarrow> jsnum option" where
  "toNumberOrNull value' =
     (if \<not> hasValue (numeric_val value') \<and> numeric_val value' \<noteq> JNum (Num 0) then None
      else (let num = numeric_num value' in if num_finite num then Some num else None))"

definition formatNumber :: "numeric \<Rightarrow> jstring" where
  "formatNumber value' = (case toNumberOrNull value' of
       None \<Rightarrow> []
     | Some num \<Rightarrow> num_to_string (parse_float (to_fixed 12 num)))"

definition toNormalizedNumber :: "numeric \<Rightarrow> jsnum option" where
  "toNormalizedNumber value' =
     (let formatted = formatNumber value' in
      if formatted = [] then None else Some (string_to_number formatted))"

text \<open>An option is a text, or missing from the options object.\<close>

definition parseOptionJSON :: "jstring option \<Rightarrow> jsval" where
  "parseOptionJSON rawValue = (case rawValue of
       None \<Rightarrow> JObj []
     | Some raw \<Rightarrow>
         if raw = [] \<or> trim raw = [] then JObj []
         else (case json_parse raw of
                 None \<Rightarrow> JObj []
               | Some parsed \<Rightarrow>
                   (case parsed of JObj _ \<Rightarrow> parsed | JArr _ \<Rightarrow> parsed | _ \<Rightarrow> JObj [])))"

definition ratioToBasePrice :: "jstring \<Rightarrow> jstring" where
  "ratioToBasePrice ratio = (case toNumberOrNull (Text ratio) of
       None \<Rightarrow> []
     | Some num \<Rightarrow> formatNumber (Number (num_mul num (Num 2))))"

record ratio_meta =
  meta_locked :: bool
  meta_ratio :: jstring

definition normalizeCompletionRatioMeta :: "jsval \<Rightarrow> ratio_meta res" where
  "normalizeCompletionRatioMeta rawMeta = (case rawMeta of
       JObj ob \<Rightarrow> rbind (toNumericString (get_own ob (js ''ratio''))) (\<lambda>ratio.
         Inr \<lparr>meta_locked = truthy (get_own ob (js ''locked'')), meta_ratio = ratio\<rparr>)
     | _ \<Rightarrow> Inr \<lparr>meta_locked = False, meta_ratio = []\<rparr>)"

subsection \<open>From the options to the form\<close>

record source_maps =
  sm_option :: "option_key \<Rightarrow> jsval"
  sm_completionMeta :: jsval

text \<open>\<open>toNumericString(sourceMaps.<key>[name])\<close>\<close>

definition source_text :: "source_maps \<Rightarrow> jstring \<Rightarrow> option_key \<Rightarrow> jstring res" where
  "source_text sourceMaps name key = rbind (get_prop (sm_option sourceMaps key) name) toNumericString"

text \<open>\<open>base !== null && hasValue(ratio) ? formatNumber(base * Number(ratio)) : ''\<close>\<close>

definition derived_price :: "jsnum option \<Rightarrow> jstring \<Rightarrow> jstring" where
  "derived_price base ratio = (case base of
       None \<Rightarrow> []
     | Some b \<Rightarrow> if has_text ratio then formatNumber (Number (num_mul b (string_to_number ratio))) else [])"

text \<open>The object that \<open>buildModelState\<close> returns, from the texts it has read.\<close>

definition model_of_texts :: "jstring \<Rightarrow> raw_ratios \<Rightarrow> ratio_meta \<Rightarrow> jstring \<Rightarrow> pricing_model" where
  "model_of_texts name raw meta fixedPrice =
     (let inputPrice = ratioToBasePrice (rr_modelRatio raw);
          inputPriceNumber = toNumberOrNull (Text inputPrice);
          audioInputPrice = derived_price inputPriceNumber (rr_audioRatio raw)
      in EMPTY_MODEL\<lparr>
        pm_name := name,
        pm_billingMode := (if has_text fixedPrice then Per_request else Per_token),
        pm_fixedPrice := fixedPrice,
        pm_inputPrice := inputPrice,
        pm_completionRatioLocked := meta_locked meta,
        pm_lockedCompletionRatio := meta_ratio meta,
        pm_completionPrice :=
          derived_price inputPriceNumber (if meta_locked meta then meta_ratio meta else rr_completionRatio raw),
        pm_cachePrice := derived_price inputPriceNumber (rr_cacheRatio raw),
        pm_createCachePrice := derived_price inputPriceNumber (rr_createCacheRatio raw),
        pm_imagePrice := derived_price inputPriceNumber (rr_imageRatio raw),
        pm_audioInputPrice := audioInputPrice,
        pm_audioOutputPrice := derived_price
          (map_option (\<lambda>_. string_to_number audioInputPrice) (toNumberOrNull (Text audioInputPrice)))
          (rr_audioCompletionRatio raw),
        pm_rawRatios := raw,
        pm_hasConflict := has_text fixedPrice \<and> list_ex has_text (raw_ratio_list raw)\<rparr>)"

definition buildModelState :: "jstring \<Rightarrow> source_maps \<Rightarrow> pricing_model res" where
  "buildModelState name sourceMaps =
     rbind (source_text sourceMaps name K_ModelRatio) (\<lambda>modelRatio.
     rbind (source_text sourceMaps name K_CompletionRatio) (\<lambda>completionRatio.
     rbind (normalizeCompletionRatioMeta (opt_prop (sm_completionMeta sourceMaps) name)) (\<lambda>completionRatioMeta.
     rbind (source_text sourceMaps name K_CacheRatio) (\<lambda>cacheRatio.
     rbind (source_text sourceMaps name K_CreateCacheRatio) (\<lambda>createCacheRatio.
     rbind (source_text sourceMaps name K_ImageRatio) (\<lambda>imageRatio.
     rbind (source_text sourceMaps name K_AudioRatio) (\<lambda>audioRatio.
     rbind (source_text sourceMaps name K_AudioCompletionRatio) (\<lambda>audioCompletionRatio.
     rbind (source_text sourceMaps name K_ModelPrice) (\<lambda>fixedPrice.
       Inr (model_of_texts name
         \<lparr>rr_modelRatio = modelRatio, rr_completionRatio = completionRatio, rr_cacheRatio = cacheRatio,
          rr_createCacheRatio = createCacheRatio, rr_imageRatio = imageRatio, rr_audioRatio = audioRatio,
          rr_audioCompletionRatio = audioCompletionRatio\<rparr>
         completionRatioMeta fixedPrice))))))))))"

subsection \<open>What the form says about a model\<close>

definition isBasePricingUnset :: "pricing_model \<Rightarrow> bool" where
  "isBasePricingUnset model \<longleftrightarrow> \<not> has_text (pm_fixedPrice model) \<and> \<not> has_text (pm_inputPrice model)"

definition MSG_conflict :: jstring where
  "MSG_conflict = [0x5F53, 0x524D, 0x6A21, 0x578B, 0x540C, 0x65F6, 0x5B58, 0x5728, 0x6309, 0x6B21, 0x4EF7, 0x683C, 0x548C, 0x500D, 0x7387, 0x914D, 0x7F6E, 0xFF0C, 0x4FDD, 0x5B58, 0x65F6, 0x4F1A, 0x6309, 0x5F53, 0x524D, 0x8BA1, 0x8D39, 0x65B9, 0x5F0F, 0x8986, 0x76D6, 0x3002]"

definition MSG_ratios_without_input :: jstring where
  "MSG_ratios_without_input = [0x5F53, 0x524D, 0x6A21, 0x578B, 0x5B58, 0x5728, 0x672A, 0x663E, 0x5F0F, 0x8BBE, 0x7F6E, 0x8F93, 0x5165, 0x500D, 0x7387, 0x7684, 0x6269, 0x5C55, 0x500D, 0x7387, 0xFF1B, 0x586B, 0x5199, 0x8F93, 0x5165, 0x4EF7, 0x683C, 0x540E, 0x4F1A, 0x81EA, 0x52A8, 0x6362, 0x7B97, 0x4E3A, 0x4EF7, 0x683C, 0x5B57, 0x6BB5, 0x3002]"

definition MSG_input_first :: jstring where
  "MSG_input_first = [0x6309, 0x91CF, 0x8BA1, 0x8D39, 0x4E0B, 0x9700, 0x8981, 0x5148, 0x586B, 0x5199, 0x8F93, 0x5165, 0x4EF7, 0x683C, 0xFF0C, 0x624D, 0x80FD, 0x4FDD, 0x5B58, 0x5176, 0x5B83, 0x4EF7, 0x683C, 0x9879, 0x3002]"

definition MSG_audio_first :: jstring where
  "MSG_audio_first = [0x586B, 0x5199, 0x97F3, 0x9891, 0x8865, 0x5168, 0x4EF7, 0x683C, 0x524D, 0xFF0C, 0x9700, 0x8981, 0x5148, 0x586B, 0x5199, 0x97F3, 0x9891, 0x8F93, 0x5165, 0x4EF7, 0x683C, 0x3002]"

definition extra_prices :: "pricing_model \<Rightarrow> jstring list" where
  "extra_prices model = [pm_completionPrice model, pm_cachePrice model, pm_createCachePrice model,
     pm_imagePrice model, pm_audioInputPrice model, pm_audioOutputPrice model]"

definition getModelWarnings :: "pricing_model option \<Rightarrow> i18n \<Rightarrow> jstring list" where
  "getModelWarnings model t = (case model of
       None \<Rightarrow> []
     | Some model \<Rightarrow>
         let hasDerivedPricing = list_ex has_text (pm_inputPrice model # extra_prices model) in
         (if pm_hasConflict model then [t MSG_conflict []] else []) @
         (if \<not> has_text (pm_inputPrice model) \<and> list_ex has_text (tl (raw_ratio_list (pm_rawRatios model)))
          then [t MSG_ratios_without_input []] else []) @
         (if pm_billingMode model = Per_token \<and> hasDerivedPricing \<and> \<not> has_text (pm_inputPrice model)
          then [t MSG_input_first []] else []) @
         (if pm_billingMode model = Per_token \<and> has_text (pm_audioOutputPrice model) \<and>
             \<not> has_text (pm_audioInputPrice model)
          then [t MSG_audio_first []] else []))"

definition buildSummaryText :: "pricing_model \<Rightarrow> i18n \<Rightarrow> jstring \<Rightarrow> jstring" where
  "buildSummaryText model t currencySymbol =
     (if pm_billingMode model = Per_request \<and> has_text (pm_fixedPrice model) then
        t ([0x6309, 0x6B21]) [] @ js '' '' @ currencySymbol @ pm_fixedPrice model @ js '' / '' @ t ([0x6B21]) []
      else if has_text (pm_inputPrice model) then
        (let extraCount = length (filter has_text (extra_prices model));
             extraLabel = (if extraCount > 0 then [0xFF0C] @ t ([0x989D, 0x5916, 0x4EF7, 0x683C, 0x9879]) [] @ js '' '' @ dec extraCount else [])
         in t ([0x8F93, 0x5165]) [] @ js '' '' @ currencySymbol @ pm_inputPrice model @ extraLabel)
      else t ([0x672A, 0x8BBE, 0x7F6E, 0x4EF7, 0x683C]) [])"

text \<open>The price fields of the form. The last six can be switched on and off.\<close>

datatype price_field = F_fixedPrice | F_inputPrice | F_completionPrice | F_cachePrice
  | F_createCachePrice | F_imagePrice | F_audioInputPrice | F_audioOutputPrice

fun price_of :: "pricing_model \<Rightarrow> price_field \<Rightarrow> jstring" where
  "price_of model F_fixedPrice = pm_fixedPrice model"
| "price_of model F_inputPrice = pm_inputPrice model"
| "price_of model F_completionPrice = pm_completionPrice model"
| "price_of model F_cachePrice = pm_cachePrice model"
| "price_of model F_createCachePrice = pm_createCachePrice model"
| "price_of model F_imagePrice = pm_imagePrice model"
| "price_of model F_audioInputPrice = pm_audioInputPrice model"
| "price_of model F_audioOutputPrice = pm_audioOutputPrice model"

text \<open>\<open>{ ...model, [field]: value }\<close>\<close>

fun set_price :: "price_field \<Rightarrow> jstring \<Rightarrow> pricing_model \<Rightarrow> pricing_model" where
  "set_price F_fixedPrice v model = model\<lparr>pm_fixedPrice := v\<rparr>"
| "set_price F_inputPrice v model = model\<lparr>pm_inputPrice := v\<rparr>"
| "set_price F_completionPrice v model = model\<lparr>pm_completionPrice := v\<rparr>"
| "set_price F_cachePrice v model = model\<lparr>pm_cachePrice := v\<rparr>"
| "set_price F_createCachePrice v model = model\<lparr>pm_createCachePrice := v\<rparr>"
| "set_price F_imagePrice v model = model\<lparr>pm_imagePrice := v\<rparr>"
| "set_price F_audioInputPrice v model = model\<lparr>pm_audioInputPrice := v\<rparr>"
| "set_price F_audioOutputPrice v model = model\<lparr>pm_audioOutputPrice := v\<rparr>"

type_synonym toggles = "price_field \<rightharpoonup> bool"

definition buildOptionalFieldToggles :: "pricing_model \<Rightarrow> toggles" where
  "buildOptionalFieldToggles model =
     [F_completionPrice \<mapsto> pm_completionRatioLocked model \<or> has_text (pm_completionPrice model),
      F_cachePrice \<mapsto> has_text (pm_cachePrice model),
      F_createCachePrice \<mapsto> has_text (pm_createCachePrice model),
      F_imagePrice \<mapsto> has_text (pm_imagePrice model),
      F_audioInputPrice \<mapsto> has_text (pm_audioInputPrice model),
      F_audioOutputPrice \<mapsto> has_text (pm_audioOutputPrice model)]"

subsection \<open>The numbers that are saved\<close>

type_synonym saved = "option_key \<Rightarrow> jsnum option"

text \<open>\<open>if (b) result[key] = value\<close>\<close>

definition put_if :: "bool \<Rightarrow> option_key \<Rightarrow> jsnum option \<Rightarrow> saved \<Rightarrow> saved" where
  "put_if b key v result = (if b then result(key := v) else result)"

lemma put_if_apply: "put_if b k v r k' = (if b \<and> k' = k then v else r k')"
  by (simp add: put_if_def)

definition MSG_no_input_price :: jstring where
  "MSG_no_input_price = [0x6A21, 0x578B] @ js '' {{name}} '' @ [0x7F3A, 0x5C11, 0x8F93, 0x5165, 0x4EF7, 0x683C, 0xFF0C, 0x65E0, 0x6CD5, 0x8BA1, 0x7B97, 0x8865, 0x5168] @ js ''/'' @ [0x7F13, 0x5B58] @ js ''/'' @ [0x56FE, 0x7247] @ js ''/'' @ [0x97F3, 0x9891, 0x4EF7, 0x683C, 0x5BF9, 0x5E94, 0x7684, 0x500D, 0x7387]"

definition MSG_no_audio_price :: jstring where
  "MSG_no_audio_price = [0x6A21, 0x578B] @ js '' {{name}} '' @ [0x7F3A, 0x5C11, 0x97F3, 0x9891, 0x8F93, 0x5165, 0x4EF7, 0x683C, 0xFF0C, 0x65E0, 0x6CD5, 0x8BA1, 0x7B97, 0x97F3, 0x9891, 0x8865, 0x5168, 0x500D, 0x7387]"

text \<open>Without an input price the ratios that were loaded are kept.\<close>

definition serialize_raw :: "raw_ratios \<Rightarrow> saved" where
  "serialize_raw raw =
     (let put = (\<lambda>key ratio. put_if (has_text ratio) key (toNormalizedNumber (Text ratio))) in
      put K_AudioCompletionRatio (rr_audioCompletionRatio raw)
     (put K_AudioRatio (rr_audioRatio raw)
     (put K_ImageRatio (rr_imageRatio raw)
     (put K_CreateCacheRatio (rr_createCacheRatio raw)
     (put K_CacheRatio (rr_cacheRatio raw)
     (put K_CompletionRatio (rr_completionRatio raw)
     (put K_ModelRatio (rr_modelRatio raw) (\<lambda>_. None))))))))"

text \<open>\<open>if (price !== null) result[key] = toNormalizedNumber(price / base)\<close>\<close>

definition put_ratio :: "option_key \<Rightarrow> jsnum option \<Rightarrow> jsnum \<Rightarrow> saved \<Rightarrow> saved" where
  "put_ratio key price base result = (case price of
       None \<Rightarrow> result
     | Some p \<Rightarrow> result(key := toNormalizedNumber (Number (num_div p base))))"

lemma put_ratio_apply: "put_ratio k price base r k' =
    (if k' = k then (case price of None \<Rightarrow> r k | Some p \<Rightarrow> toNormalizedNumber (Number (num_div p base))) else r k')"
  by (simp add: put_ratio_def split: option.splits)

definition serialize_priced :: "pricing_model \<Rightarrow> i18n \<Rightarrow> jsnum \<Rightarrow> saved res" where
  "serialize_priced model t inputPrice =
     (let price = (\<lambda>f. toNumberOrNull (Text (price_of model f)));
          locked = pm_completionRatioLocked model;
          raw = rr_completionRatio (pm_rawRatios model);
          result = (\<lambda>_. None)(K_ModelRatio := toNormalizedNumber (Number (num_div inputPrice (Num 2))));
          result = (if \<not> locked then put_ratio K_CompletionRatio (price F_completionPrice) inputPrice result
                    else put_if (has_text raw) K_CompletionRatio (toNormalizedNumber (Text raw)) result);
          result = put_ratio K_CacheRatio (price F_cachePrice) inputPrice result;
          result = put_ratio K_CreateCacheRatio (price F_createCachePrice) inputPrice result;
          result = put_ratio K_ImageRatio (price F_imagePrice) inputPrice result;
          result = put_ratio K_AudioRatio (price F_audioInputPrice) inputPrice result
      in (case price F_audioOutputPrice of
            None \<Rightarrow> Inr result
          | Some audioOutputPrice \<Rightarrow>
              (case price F_audioInputPrice of
                 None \<Rightarrow> Inl (Error (t MSG_no_audio_price [(js ''name'', JStr (pm_name model))]))
               | Some audioInputPrice \<Rightarrow>
                   if audioInputPrice = Num 0
                   then Inl (Error (t MSG_no_audio_price [(js ''name'', JStr (pm_name model))]))
                   else Inr (put_ratio K_AudioCompletionRatio (Some audioOutputPrice) audioInputPrice result))))"

definition serializeModel :: "pricing_model \<Rightarrow> i18n \<Rightarrow> saved res" where
  "serializeModel model t =
     (if pm_billingMode model = Per_request then
        Inr (put_if (has_text (pm_fixedPrice model)) K_ModelPrice (toNormalizedNumber (Text (pm_fixedPrice model)))
               (\<lambda>_. None))
      else (let hasDependentPrice =
                  list_ex (\<lambda>s. toNumberOrNull (Text s) \<noteq> None) (extra_prices model) in
            case toNumberOrNull (Text (pm_inputPrice model)) of
              None \<Rightarrow>
                if hasDependentPrice
                then Inl (Error (t MSG_no_input_price [(js ''name'', JStr (pm_name model))]))
                else Inr (serialize_raw (pm_rawRatios model))
            | Some inputPrice \<Rightarrow> serialize_priced model t inputPrice))"

subsection \<open>The preview\<close>

record preview_row =
  row_key :: jstring
  row_label :: jstring
  row_value :: jstring

definition preview_row :: "option_key \<Rightarrow> jstring \<Rightarrow> preview_row" where
  "preview_row key v = \<lparr>row_key = option_key_name key, row_label = option_key_name key, row_value = v\<rparr>"

definition EMPTY_LABEL :: jstring where
  "EMPTY_LABEL = [0x7A7A]"

definition FIXED_LABEL :: jstring where
  "FIXED_LABEL = [0x540E, 0x7AEF, 0x56FA, 0x5B9A]"

definition buildPreviewRows :: "pricing_model option \<Rightarrow> i18n \<Rightarrow> preview_row list" where
  "buildPreviewRows model t = (case model of
       None \<Rightarrow> []
     | Some model \<Rightarrow>
         let empty = t EMPTY_LABEL [];
             text_or = (\<lambda>s. if has_text s then s else empty) in
         if pm_billingMode model = Per_request then
           [preview_row K_ModelPrice (text_or (pm_fixedPrice model))]
         else (case toNumberOrNull (Text (pm_inputPrice model)) of
             None \<Rightarrow>
               (let raw = pm_rawRatios model in
                [preview_row K_ModelRatio (text_or (rr_modelRatio raw)),
                 preview_row K_CompletionRatio (text_or (rr_completionRatio raw)),
                 preview_row K_CacheRatio (text_or (rr_cacheRatio raw)),
                 preview_row K_CreateCacheRatio (text_or (rr_createCacheRatio raw)),
                 preview_row K_ImageRatio (text_or (rr_imageRatio raw)),
                 preview_row K_AudioRatio (text_or (rr_audioRatio raw)),
                 preview_row K_AudioCompletionRatio (text_or (rr_audioCompletionRatio raw))])
           | Some inputPrice \<Rightarrow>
               (let price = (\<lambda>f. toNumberOrNull (Text (price_of model f)));
                    ratio = (\<lambda>p. case p of None \<Rightarrow> empty
                                 | Some v \<Rightarrow> formatNumber (Number (num_div v inputPrice))) in
                [preview_row K_ModelRatio (formatNumber (Number (num_div inputPrice (Num 2)))),
                 preview_row K_CompletionRatio
                   (if pm_completionRatioLocked model
                    then (if pm_lockedCompletionRatio model \<noteq> [] then pm_lockedCompletionRatio model else empty) @
                         js '' ('' @ t FIXED_LABEL [] @ js '')''
                    else ratio (price F_completionPrice)),
                 preview_row K_CacheRatio (ratio (price F_cachePrice)),
                 preview_row K_CreateCacheRatio (ratio (price F_createCachePrice)),
                 preview_row K_ImageRatio (ratio (price F_imagePrice)),
                 preview_row K_AudioRatio (ratio (price F_audioInputPrice)),
                 preview_row K_AudioCompletionRatio
                   (case price F_audioOutputPrice of
                      None \<Rightarrow> empty
                    | Some audioOutputPrice \<Rightarrow>
                        (case price F_audioInputPrice of
                           None \<Rightarrow> empty
                         | Some audioInputPrice \<Rightarrow>
                             if audioInputPrice = Num 0 then empty
                             else formatNumber (Number (num_div audioOutputPrice audioInputPrice))))])))"

subsection \<open>Numbers and texts: lemmas\<close>

lemma num_finite_iff: "num_finite n \<longleftrightarrow> (\<exists>r. n = Num r)"
  by (cases n) (auto simp: num_finite_def)

lemma toNumberOrNull_Number: "toNumberOrNull (Number n) = (if num_finite n then Some n else None)"
  by (simp add: toNumberOrNull_def)

lemma toNumberOrNull_Text:
  "toNumberOrNull (Text s) = (if s \<noteq> [] \<and> num_finite (string_to_number s) then Some (string_to_number s) else None)"
  by (simp add: toNumberOrNull_def)

lemma toNumberOrNull_SomeD:
  assumes "toNumberOrNull v = Some n" and "num_wf (numeric_num v)"
  obtains r where "n = Num r" and "is_double r" and "numeric_num v = Num r"
proof -
  have "n = numeric_num v" "num_finite n" using assms(1) by (auto simp: toNumberOrNull_def Let_def split: if_splits)
  with assms(2) that show thesis by (auto simp: num_finite_iff)
qed

lemma toNumberOrNull_text_wf: "toNumberOrNull (Text s) = Some n \<Longrightarrow> num_wf n \<and> num_finite n"
  by (auto simp: toNumberOrNull_Text split: if_splits)

lemma toNumberOrNull_printed [simp]:
  "is_double r \<Longrightarrow> toNumberOrNull (Text (num_to_string (Num r))) = Some (Num r)"
  using string_to_number_to_string [of r] num_to_string_not_Nil [of r]
  by (simp add: toNumberOrNull_Text num_finite_def del: num_to_string.simps)

lemma toNumberOrNull_literal:
  assumes "list_all is_num_char s" and "str_dec s = Some (Num r)"
  shows "toNumberOrNull (Text s) = Some (Num r)"
proof -
  have c: "\<forall>c \<in> set s. is_num_char c" using assms(1) by (simp add: list_all_iff)
  have t: "trim s = s" by (rule trim_no_ws) (use c num_char_not_ws in blast)
  have "s \<noteq> []" using assms(2) by (auto simp: str_dec_def)
  then show ?thesis
    using assms(2) str_radix_num_chars [OF c]
    by (simp add: toNumberOrNull_Text string_to_number_def t Let_def num_finite_def)
qed

lemma formatNumber_finite:
  "toNumberOrNull v = Some (Num r) \<Longrightarrow> is_double r \<Longrightarrow> formatNumber v = num_to_string (fixed_value 12 r)"
  by (simp add: formatNumber_def parse_float_to_fixed del: to_fixed.simps num_to_string.simps)

lemma formatNumber_None: "toNumberOrNull v = None \<Longrightarrow> formatNumber v = []"
  by (simp add: formatNumber_def)

lemma fixed_value_12_cases:
  assumes "is_double r"
  obtains y where "fixed_value 12 r = Num y" and "is_double y"
  using fixed_value_finite [of 12 r] fixed_value_wf [OF assms, of 12] by (auto simp: num_finite_iff)

lemma toNormalizedNumber_finite:
  assumes "toNumberOrNull v = Some (Num r)" and "is_double r"
  shows "toNormalizedNumber v = Some (fixed_value 12 r)"
proof -
  obtain y where y: "fixed_value 12 r = Num y" "is_double y" by (rule fixed_value_12_cases [OF assms(2)])
  then show ?thesis
    using formatNumber_finite [OF assms] num_to_string_not_Nil [OF y(2)] string_to_number_to_string [OF y(2)]
    by (simp add: toNormalizedNumber_def Let_def del: num_to_string.simps)
qed

lemma toNormalizedNumber_None: "toNumberOrNull v = None \<Longrightarrow> toNormalizedNumber v = None"
  by (simp add: toNormalizedNumber_def formatNumber_None)

lemma toNormalizedNumber_SomeD:
  assumes "toNormalizedNumber v = Some n" and "num_wf (numeric_num v)"
  obtains r y where "toNumberOrNull v = Some (Num r)" and "is_double r" and "fixed_value 12 r = Num y"
    and "n = Num y" and "is_double y"
proof -
  obtain m where m: "toNumberOrNull v = Some m"
    using assms(1) toNormalizedNumber_None [of v] by (cases "toNumberOrNull v") auto
  obtain r where r: "m = Num r" "is_double r" by (rule toNumberOrNull_SomeD [OF m assms(2)])
  obtain y where y: "fixed_value 12 r = Num y" "is_double y" by (rule fixed_value_12_cases [OF r(2)])
  have "n = Num y" using toNormalizedNumber_finite [of v r] m r y assms(1) by simp
  with that m r y show thesis by simp
qed

text \<open>The preview text of a number and the number that is saved are computed alike.\<close>

lemma formatNumber_normalized:
  assumes "num_wf (numeric_num v)"
  shows "formatNumber v = (case toNormalizedNumber v of None \<Rightarrow> [] | Some n \<Rightarrow> num_to_string n)"
proof (cases "toNumberOrNull v")
  case None
  then show ?thesis by (simp add: formatNumber_None toNormalizedNumber_None)
next
  case (Some m)
  obtain r where "m = Num r" "is_double r" by (rule toNumberOrNull_SomeD [OF Some assms])
  with Some show ?thesis by (simp add: formatNumber_finite toNormalizedNumber_finite)
qed

text \<open>
  C24. The precision of saved numbers: a finite price or ratio is saved as the double nearest to a
  decimal with twelve digits after the point that is at most half a unit of the twelfth digit away
  (numbers of 1e21 and more are saved as they are), and saving the saved number again changes
  nothing.
\<close>

theorem saved_number_precision:
  assumes "toNumberOrNull v = Some (Num r)" and "num_wf (numeric_num v)"
  shows "\<exists>y. toNormalizedNumber v = Some (Num y) \<and> toNormalizedNumber (Number (Num y)) = Some (Num y) \<and>
    (if \<bar>r\<bar> < 10 ^ 21
     then \<exists>k. rnd (of_int k / 10 ^ 12) = Num y \<and> \<bar>of_int k / 10 ^ 12 - r\<bar> \<le> 1 / (2 * 10 ^ 12)
     else y = r)"
proof -
  have r: "is_double r" using toNumberOrNull_SomeD [OF assms] by auto
  obtain y where y: "fixed_value 12 r = Num y" "is_double y" by (rule fixed_value_12_cases [OF r])
  have idem: "fixed_value 12 y = Num y" using fixed_value_idem [OF y(1)] by simp
  have saved: "toNormalizedNumber v = Some (Num y)" "toNormalizedNumber (Number (Num y)) = Some (Num y)"
    using toNormalizedNumber_finite [OF assms(1) r] toNormalizedNumber_finite [of "Number (Num y)" y] y idem
    by (simp_all add: toNumberOrNull_Number num_finite_def)
  have "\<exists>k. rnd (of_int k / 10 ^ 12) = Num y \<and> \<bar>of_int k / 10 ^ 12 - r\<bar> \<le> 1 / (2 * 10 ^ 12)"
    if small: "\<bar>r\<bar> < 10 ^ 21"
  proof -
    obtain k z where k: "rnd (of_nat k / 10 ^ 12) = Num z" "\<bar>of_nat k / 10 ^ 12 - \<bar>r\<bar>\<bar> \<le> 1 / (2 * 10 ^ 12)"
      and f: "fixed_value 12 r = Num (if r < 0 then - z else z)"
      by (rule fixed_value_grid [OF small, of 12]) simp
    show ?thesis
    proof (cases "r < 0")
      case True
      have "rnd (- (of_nat k / 10 ^ 12)) = num_neg (rnd (of_nat k / 10 ^ 12))"
        by (simp add: rnd_def Let_def qexp_def sgn_minus)
      then have "rnd (of_int (- int k) / 10 ^ 12) = Num y" using k(1) f y(1) True by simp
      moreover have "\<bar>of_int (- int k) / 10 ^ 12 - r\<bar> = \<bar>of_nat k / 10 ^ 12 - \<bar>r\<bar>\<bar>"
        using True by (simp add: abs_if)
      ultimately show ?thesis using k(2) by metis
    next
      case False
      with k f y(1) show ?thesis by (intro exI [of _ "int k"]) simp
    qed
  qed
  moreover have "y = r" if "\<not> \<bar>r\<bar> < 10 ^ 21" using y(1) that by (simp add: fixed_value_def)
  ultimately show ?thesis using saved by auto
qed


theorem saved_number_precision_witness:
  "\<exists>y. toNormalizedNumber (Text (js ''2.5'')) = Some (Num y) \<and> toNormalizedNumber (Number (Num y)) = Some (Num y) \<and>
    (\<exists>k. rnd (of_int k / 10 ^ 12) = Num y \<and> \<bar>of_int k / 10 ^ 12 - (5 / 2 :: rat)\<bar> \<le> 1 / (2 * 10 ^ 12))"
proof -
  have v: "toNumberOrNull (Text (js ''2.5'')) = Some (Num (5 / 2))"
    by (rule toNumberOrNull_literal) code_simp+
  show ?thesis using saved_number_precision [OF v] by auto
qed

subsection \<open>Reading the options\<close>

lemma source_text_num:
  "get_prop (sm_option maps k) name = Inr (JNum (Num r)) \<Longrightarrow> source_text maps name k = Inr (num_to_string (Num r))"
  by (simp add: source_text_def toNumericString_def num_finite_def del: num_to_string.simps)

lemma source_text_undef: "get_prop (sm_option maps k) name = Inr JUndef \<Longrightarrow> source_text maps name k = Inr []"
  by (simp add: source_text_def toNumericString_def)

lemma buildModelState_InrD:
  assumes "buildModelState name maps = Inr m"
  obtains raw meta fixed where "m = model_of_texts name raw meta fixed"
    and "source_text maps name K_ModelPrice = Inr fixed"
    and "source_text maps name K_ModelRatio = Inr (rr_modelRatio raw)"
    and "source_text maps name K_CompletionRatio = Inr (rr_completionRatio raw)"
    and "source_text maps name K_CacheRatio = Inr (rr_cacheRatio raw)"
    and "source_text maps name K_CreateCacheRatio = Inr (rr_createCacheRatio raw)"
    and "source_text maps name K_ImageRatio = Inr (rr_imageRatio raw)"
    and "source_text maps name K_AudioRatio = Inr (rr_audioRatio raw)"
    and "source_text maps name K_AudioCompletionRatio = Inr (rr_audioCompletionRatio raw)"
proof -
  from assms obtain mr cr meta car ccr ir ar acr fixed where
    t: "source_text maps name K_ModelRatio = Inr mr" "source_text maps name K_CompletionRatio = Inr cr"
      "source_text maps name K_CacheRatio = Inr car" "source_text maps name K_CreateCacheRatio = Inr ccr"
      "source_text maps name K_ImageRatio = Inr ir" "source_text maps name K_AudioRatio = Inr ar"
      "source_text maps name K_AudioCompletionRatio = Inr acr" "source_text maps name K_ModelPrice = Inr fixed"
    and m: "m = model_of_texts name \<lparr>rr_modelRatio = mr, rr_completionRatio = cr, rr_cacheRatio = car,
      rr_createCacheRatio = ccr, rr_imageRatio = ir, rr_audioRatio = ar, rr_audioCompletionRatio = acr\<rparr> meta fixed"
    unfolding buildModelState_def rbind_Inr_iff by auto
  show thesis by (rule that [OF m]) (simp_all add: t)
qed

lemma model_of_texts_sel [simp]:
  "pm_name (model_of_texts name raw meta fixed) = name"
  "pm_billingMode (model_of_texts name raw meta fixed) = (if fixed \<noteq> [] then Per_request else Per_token)"
  "pm_fixedPrice (model_of_texts name raw meta fixed) = fixed"
  "pm_inputPrice (model_of_texts name raw meta fixed) = ratioToBasePrice (rr_modelRatio raw)"
  "pm_rawRatios (model_of_texts name raw meta fixed) = raw"
  "pm_hasConflict (model_of_texts name raw meta fixed) \<longleftrightarrow> fixed \<noteq> [] \<and> list_ex has_text (raw_ratio_list raw)"
  "pm_completionRatioLocked (model_of_texts name raw meta fixed) = meta_locked meta"
  "pm_cachePrice (model_of_texts name raw meta fixed) =
     derived_price (toNumberOrNull (Text (ratioToBasePrice (rr_modelRatio raw)))) (rr_cacheRatio raw)"
  by (simp_all add: model_of_texts_def Let_def)

subsection \<open>Saving a model\<close>

lemma serialize_priced_ModelRatio:
  "serialize_priced model t p = Inr r \<Longrightarrow> r K_ModelRatio = toNormalizedNumber (Number (num_div p (Num 2)))"
  by (auto simp: serialize_priced_def Let_def put_if_apply put_ratio_apply split: option.splits if_splits)

lemma ratioToBasePrice_saved:
  assumes "fixed_value 12 r = Num y" and "is_double y" and "\<bar>2 * y\<bar> < dbl_limit"
  shows "ratioToBasePrice (num_to_string (Num y)) = num_to_string (Num (2 * y))" and "is_double (2 * y)"
proof -
  show d: "is_double (2 * y)" using is_double_times_2 assms(2,3) .
  then have "num_mul (Num y) (Num 2) = Num (2 * y)" by (simp add: is_double_def mult.commute)
  moreover have "fixed_value 12 (2 * y) = Num (2 * y)" using fixed_value_double [OF assms(1)] assms(3) by simp
  ultimately show "ratioToBasePrice (num_to_string (Num y)) = num_to_string (Num (2 * y))"
    using assms(2) d formatNumber_finite [of "Number (Num (2 * y))" "2 * y"]
    by (simp add: ratioToBasePrice_def toNumberOrNull_Number num_finite_def del: num_to_string.simps num_mul.simps)
qed

text \<open>A witness: a model with an input price of 2 and a cache price of 1.\<close>

definition sample_model :: pricing_model where
  "sample_model = EMPTY_MODEL\<lparr>pm_name := js ''m'', pm_inputPrice := js ''2'', pm_cachePrice := js ''1''\<rparr>"

lemma sample_prices:
  "toNumberOrNull (Text (js ''0'')) = Some (Num 0)" "toNumberOrNull (Text (js ''1'')) = Some (Num 1)"
  "toNumberOrNull (Text (js ''2'')) = Some (Num 2)" "toNumberOrNull (Text []) = None"
  by (rule toNumberOrNull_literal, code_simp, code_simp)+ (simp add: toNumberOrNull_Text)

lemma sample_serialize: "\<exists>result. serializeModel sample_model t = Inr result"
  by (simp add: serializeModel_def serialize_priced_def sample_model_def EMPTY_MODEL_def sample_prices Let_def)

text \<open>
  Input prices survive saving and reopening: when the option \<open>ModelRatio\<close> holds a number that
  the editor has saved before (and twice that number does not overflow), opening the editor and
  saving the model billed per token writes exactly the same number again.
\<close>

theorem input_price_roundtrip:
  assumes saved: "toNormalizedNumber v = Some (Num y)" "num_wf (numeric_num v)" and small: "\<bar>2 * y\<bar> < dbl_limit"
    and stored: "get_prop (sm_option maps K_ModelRatio) name = Inr (JNum (Num y))"
    and opened: "buildModelState name maps = Inr model" and mode: "pm_billingMode model = Per_token"
    and ser: "serializeModel model t = Inr result"
  shows "result K_ModelRatio = Some (Num y)"
proof -
  obtain r where f: "fixed_value 12 r = Num y" and y: "is_double y"
    using toNormalizedNumber_SomeD [OF saved] by (metis jsnum.inject)
  obtain raw meta fixed where m: "model = model_of_texts name raw meta fixed"
    and raw: "source_text maps name K_ModelRatio = Inr (rr_modelRatio raw)"
    by (rule buildModelState_InrD [OF opened])
  have "rr_modelRatio raw = num_to_string (Num y)"
    using raw source_text_num [OF stored] by (simp del: num_to_string.simps)
  then have ip: "toNumberOrNull (Text (pm_inputPrice model)) = Some (Num (2 * y))"
    using ratioToBasePrice_saved [OF f y small] by (simp add: m del: num_to_string.simps)
  have "toNormalizedNumber (Number (num_div (Num (2 * y)) (Num 2))) = Some (Num y)"
    using y fixed_value_idem [OF f] toNormalizedNumber_finite [of "Number (Num y)" y]
    by (simp add: is_double_def toNumberOrNull_Number num_finite_def)
  with ser mode ip serialize_priced_ModelRatio [of model t "Num (2 * y)" result] show ?thesis
    by (simp add: serializeModel_def del: num_div.simps)
qed

theorem input_price_roundtrip_witness:
  "let maps = \<lparr>sm_option = (\<lambda>k. if k = K_ModelRatio then JObj [(js ''m'', JNum (Num 1))] else JObj []),
       sm_completionMeta = JObj []\<rparr>
   in \<exists>model result. buildModelState (js ''m'') maps = Inr model \<and>
     serializeModel model (\<lambda>key opts. key) = Inr result \<and> result K_ModelRatio = Some (Num 1)"
proof -
  define maps where "maps = \<lparr>sm_option = (\<lambda>k. if k = K_ModelRatio then JObj [(js ''m'', JNum (Num 1))] else JObj []),
       sm_completionMeta = JObj []\<rparr>"
  have d1: "is_double 1" using is_double_of_nat [of 1] by simp
  have stored: "get_prop (sm_option maps K_ModelRatio) (js ''m'') = Inr (JNum (Num 1))"
    by (simp add: maps_def get_prop_def get_own_def)
  have none: "source_text maps (js ''m'') k = Inr []" if "k \<noteq> K_ModelRatio" for k
    using that by (intro source_text_undef) (simp add: maps_def get_prop_def get_own_def)
  have meta: "opt_prop (sm_completionMeta maps) (js ''m'') = JUndef"
    by (simp add: maps_def opt_prop_def get_prop_def get_own_def)
  have opened: "buildModelState (js ''m'') maps = Inr (model_of_texts (js ''m'')
      (EMPTY_RATIOS\<lparr>rr_modelRatio := num_to_string (Num 1)\<rparr>) \<lparr>meta_locked = False, meta_ratio = []\<rparr> [])"
    using none source_text_num [OF stored]
    by (simp add: buildModelState_def normalizeCompletionRatioMeta_def meta EMPTY_RATIOS_def del: num_to_string.simps)
  let ?m = "model_of_texts (js ''m'') (EMPTY_RATIOS\<lparr>rr_modelRatio := num_to_string (Num 1)\<rparr>)
    \<lparr>meta_locked = False, meta_ratio = []\<rparr> []"
  have f: "fixed_value 12 1 = Num 1"
    using d1 fixed_value_on_grid(1) [of "10 ^ 12" 12 1] by (simp add: is_double_def)
  have v: "toNormalizedNumber (Number (Num 1)) = Some (Num 1)"
    using toNormalizedNumber_finite [of "Number (Num 1)" 1] d1 f by (simp add: toNumberOrNull_Number num_finite_def)
  have lim: "\<bar>2 * 1\<bar> < dbl_limit" by (simp add: dbl_limit_def)
  obtain result where r: "serializeModel ?m (\<lambda>key opts. key) = Inr result"
    using ratioToBasePrice_saved [OF f d1 lim]
    by (simp add: serializeModel_def serialize_priced_def model_of_texts_def EMPTY_MODEL_def EMPTY_RATIOS_def
        sample_prices derived_price_def Let_def del: num_to_string.simps split: option.splits)
  from input_price_roundtrip [OF v _ lim stored opened _ r] r opened d1 show ?thesis
    unfolding maps_def [symmetric] by (auto simp: Let_def)
qed

text \<open>When saving a model fails: the error names the model, and no other price text fails.\<close>

definition missing_input :: "pricing_model \<Rightarrow> bool" where
  "missing_input model \<longleftrightarrow> toNumberOrNull (Text (pm_inputPrice model)) = None \<and>
     (\<exists>f \<in> {F_completionPrice, F_cachePrice, F_createCachePrice, F_imagePrice, F_audioInputPrice, F_audioOutputPrice}.
        toNumberOrNull (Text (price_of model f)) \<noteq> None)"

definition missing_audio :: "pricing_model \<Rightarrow> bool" where
  "missing_audio model \<longleftrightarrow> toNumberOrNull (Text (pm_inputPrice model)) \<noteq> None \<and>
     toNumberOrNull (Text (pm_audioOutputPrice model)) \<noteq> None \<and>
     toNumberOrNull (Text (pm_audioInputPrice model)) \<in> {None, Some (Num 0)}"

text \<open>
  Serialising a model fails exactly for models billed per token that have a dependent price but
  no input price, or an audio output price but no audio input price other than zero, with the
  message of the case; in every other case numbers are produced.
\<close>

theorem serialize_errors_exact:
  "serializeModel model t = Inl e \<longleftrightarrow> pm_billingMode model = Per_token \<and>
     (missing_input model \<and> e = Error (t MSG_no_input_price [(js ''name'', JStr (pm_name model))]) \<or>
      missing_audio model \<and> e = Error (t MSG_no_audio_price [(js ''name'', JStr (pm_name model))]))"
proof (cases "pm_billingMode model")
  case Per_token
  show ?thesis
  proof (cases "toNumberOrNull (Text (pm_inputPrice model))")
    case None
    then show ?thesis using Per_token
      by (auto simp: serializeModel_def missing_input_def missing_audio_def extra_prices_def Let_def)
  next
    case (Some p)
    then show ?thesis using Per_token
      by (auto simp: serializeModel_def missing_input_def missing_audio_def serialize_priced_def Let_def
          split: option.splits)
  qed
qed (simp add: serializeModel_def)

text \<open>The price that a ratio is computed from.\<close>

fun field_of_key :: "option_key \<Rightarrow> price_field" where
  "field_of_key K_ModelPrice = F_fixedPrice"
| "field_of_key K_ModelRatio = F_inputPrice"
| "field_of_key K_CompletionRatio = F_completionPrice"
| "field_of_key K_CacheRatio = F_cachePrice"
| "field_of_key K_CreateCacheRatio = F_createCachePrice"
| "field_of_key K_ImageRatio = F_imagePrice"
| "field_of_key K_AudioRatio = F_audioInputPrice"
| "field_of_key K_AudioCompletionRatio = F_audioOutputPrice"

lemma formatNumber_div:
  "formatNumber (Number (num_div a b)) =
     (case toNormalizedNumber (Number (num_div a b)) of None \<Rightarrow> [] | Some n \<Rightarrow> num_to_string n)"
  by (rule formatNumber_normalized) (simp add: num_wf_div)

lemma serialize_priced_ratio:
  assumes "serialize_priced model t p = Inr r" and "\<not> pm_completionRatioLocked model"
    and "k \<in> {K_CompletionRatio, K_CacheRatio, K_CreateCacheRatio, K_ImageRatio, K_AudioRatio}"
  shows "r k = (case toNumberOrNull (Text (price_of model (field_of_key k))) of
      None \<Rightarrow> None | Some v \<Rightarrow> toNormalizedNumber (Number (num_div v p)))"
  using assms
  by (auto simp: serialize_priced_def Let_def put_ratio_apply simp del: num_div.simps
      split: option.splits if_splits)

lemma serialize_priced_audio:
  assumes "serialize_priced model t p = Inr r"
  shows "r K_AudioCompletionRatio = (case toNumberOrNull (Text (pm_audioOutputPrice model)) of
      None \<Rightarrow> None
    | Some v \<Rightarrow> (case toNumberOrNull (Text (pm_audioInputPrice model)) of
          None \<Rightarrow> None | Some a \<Rightarrow> toNormalizedNumber (Number (num_div v a))))"
    and "toNumberOrNull (Text (pm_audioOutputPrice model)) \<noteq> None \<longrightarrow>
      toNumberOrNull (Text (pm_audioInputPrice model)) \<notin> {None, Some (Num 0)}"
  using assms
  by (auto simp: serialize_priced_def Let_def put_ratio_apply put_if_apply simp del: num_div.simps
      split: option.splits if_splits)

text \<open>The cell of the preview under a key.\<close>

definition preview_cell :: "pricing_model \<Rightarrow> i18n \<Rightarrow> saved \<Rightarrow> option_key \<Rightarrow> jstring" where
  "preview_cell model t result key = (case toNumberOrNull (Text (price_of model (field_of_key key))) of
      None \<Rightarrow> t EMPTY_LABEL []
    | Some _ \<Rightarrow> (case result key of None \<Rightarrow> [] | Some n \<Rightarrow> num_to_string n))"

lemma preview_cell_ratio:
  assumes "serialize_priced model t p = Inr r" and "\<not> pm_completionRatioLocked model"
    and "k \<in> {K_CompletionRatio, K_CacheRatio, K_CreateCacheRatio, K_ImageRatio, K_AudioRatio}"
  shows "(case toNumberOrNull (Text (price_of model (field_of_key k))) of
      None \<Rightarrow> t EMPTY_LABEL [] | Some v \<Rightarrow> formatNumber (Number (num_div v p))) = preview_cell model t r k"
  unfolding preview_cell_def serialize_priced_ratio [OF assms] formatNumber_div
  by (simp split: option.split)

lemma preview_cell_audio:
  assumes "serialize_priced model t p = Inr r"
  shows "(case toNumberOrNull (Text (pm_audioOutputPrice model)) of
      None \<Rightarrow> t EMPTY_LABEL []
    | Some v \<Rightarrow> (case toNumberOrNull (Text (pm_audioInputPrice model)) of
          None \<Rightarrow> t EMPTY_LABEL []
        | Some a \<Rightarrow> if a = Num 0 then t EMPTY_LABEL [] else formatNumber (Number (num_div v a)))) =
    preview_cell model t r K_AudioCompletionRatio"
  using serialize_priced_audio [OF assms] unfolding preview_cell_def formatNumber_div
  by (auto split: option.split simp del: num_div.simps)

text \<open>
  The preview shows what is saved: for a model billed per token with an input price and no
  locked completion ratio that can be saved, the rows are the seven ratios in order, and each holds
  the text of the number that is saved under its key, the word for empty when the price is not
  given, and nothing when the ratio is not finite and therefore not saved.
\<close>

theorem preview_shows_saved:
  assumes mode: "pm_billingMode model = Per_token" and unlocked: "\<not> pm_completionRatioLocked model"
    and price: "toNumberOrNull (Text (pm_inputPrice model)) = Some inputPrice"
    and ser: "serializeModel model t = Inr result"
  shows "buildPreviewRows (Some model) t =
    map (\<lambda>key. preview_row key (preview_cell model t result key)) (tl OPTION_KEYS)"
proof -
  have s: "serialize_priced model t inputPrice = Inr result"
    using ser mode price by (simp add: serializeModel_def)
  have input: "formatNumber (Number (num_div inputPrice (Num 2))) = preview_cell model t result K_ModelRatio"
    using price serialize_priced_ModelRatio [OF s] by (simp add: preview_cell_def formatNumber_div)
  note ratio = preview_cell_ratio [OF s unlocked]
  show ?thesis
    using mode unlocked price ratio [of K_CompletionRatio] ratio [of K_CacheRatio] ratio [of K_CreateCacheRatio]
      ratio [of K_ImageRatio] ratio [of K_AudioRatio]
    by (simp add: buildPreviewRows_def Let_def OPTION_KEYS_def input preview_cell_audio [OF s] del: num_div.simps cong: option.case_cong)
qed

theorem preview_shows_saved_witness:
  "\<exists>result. serializeModel sample_model (\<lambda>key opts. key) = Inr result \<and>
     buildPreviewRows (Some sample_model) (\<lambda>key opts. key) =
       map (\<lambda>key. preview_row key (preview_cell sample_model (\<lambda>key opts. key) result key)) (tl OPTION_KEYS)"
proof -
  obtain result where r: "serializeModel sample_model (\<lambda>key opts. key) = Inr result" using sample_serialize by blast
  show ?thesis using preview_shows_saved [OF _ _ _ r, of "Num 2"] r
    by (simp add: sample_model_def EMPTY_MODEL_def sample_prices)
qed

text \<open>
  A free model loses its ratios: when the input price is zero, saving keeps the zero input ratio
  and drops every ratio that is a price divided by the input price, whatever the price fields hold.
\<close>

theorem zero_price_drops_ratios:
  assumes mode: "pm_billingMode model = Per_token" and unlocked: "\<not> pm_completionRatioLocked model"
    and zero: "toNumberOrNull (Text (pm_inputPrice model)) = Some (Num 0)"
    and ser: "serializeModel model t = Inr result"
  shows "result K_ModelRatio = Some (Num 0) \<and>
    (\<forall>key \<in> {K_CompletionRatio, K_CacheRatio, K_CreateCacheRatio, K_ImageRatio, K_AudioRatio}. result key = None)"
proof -
  have s: "serialize_priced model t (Num 0) = Inr result"
    using ser mode zero by (simp add: serializeModel_def)
  have "fixed_value 12 0 = Num 0" by (simp add: fixed_value_def with_sign_def floor_eq_iff)
  then have z: "toNormalizedNumber (Number (num_div (Num 0) (Num 2))) = Some (Num 0)"
    using toNormalizedNumber_finite [of "Number (Num 0)" 0] by (simp add: toNumberOrNull_Number num_finite_def)
  have "\<not> num_finite (num_div n (Num 0))" for n
    by (cases n) (auto simp: inf_of_sign_def num_finite_def)
  then have "toNormalizedNumber (Number (num_div n (Num 0))) = None" for n
    by (intro toNormalizedNumber_None) (simp add: toNumberOrNull_Number)
  with serialize_priced_ratio [OF s unlocked] serialize_priced_ModelRatio [OF s] z show ?thesis
    by (simp del: num_div.simps split: option.split)
qed

theorem zero_price_drops_ratios_witness:
  "\<exists>result. serializeModel (sample_model\<lparr>pm_inputPrice := js ''0''\<rparr>) (\<lambda>key opts. key) = Inr result \<and>
     result K_ModelRatio = Some (Num 0) \<and> result K_CacheRatio = None"
proof -
  let ?m = "sample_model\<lparr>pm_inputPrice := js ''0''\<rparr>"
  obtain result where r: "serializeModel ?m (\<lambda>key opts. key) = Inr result"
    by (simp add: serializeModel_def serialize_priced_def sample_model_def EMPTY_MODEL_def sample_prices Let_def)
  show ?thesis using zero_price_drops_ratios [OF _ _ _ r] r
    by (simp add: sample_model_def EMPTY_MODEL_def sample_prices)
qed

subsection \<open>An untouched ratio that changes\<close>

definition drift_maps :: source_maps where
  "drift_maps = \<lparr>sm_option = (\<lambda>k. if k = K_ModelRatio then JObj [(js ''m'', JNum (Num (1 / 2048)))]
      else if k = K_CacheRatio then JObj [(js ''m'', JNum (Num (1 / 16)))] else JObj []),
    sm_completionMeta = JObj []\<rparr>"

lemma drift_doubles: "is_double (1 / 2048)" "is_double (1 / 1024)" "is_double (1 / 16)" "is_double (1 / 16384)"
  using is_double_powi2 [of "- 11"] is_double_powi2 [of "- 10"] is_double_powi2 [of "- 4"] is_double_powi2 [of "- 14"]
  by (simp_all add: power_int_def power_one_over)

lemma drift_model:
  "buildModelState (js ''m'') drift_maps = Inr (model_of_texts (js ''m'')
     (EMPTY_RATIOS\<lparr>rr_modelRatio := num_to_string (Num (1 / 2048)), rr_cacheRatio := num_to_string (Num (1 / 16))\<rparr>)
     \<lparr>meta_locked = False, meta_ratio = []\<rparr> [])"
proof -
  have none: "source_text drift_maps (js ''m'') k = Inr []" if "k \<notin> {K_ModelRatio, K_CacheRatio}" for k
    using that by (intro source_text_undef) (simp add: drift_maps_def get_prop_def get_own_def)
  have stored: "source_text drift_maps (js ''m'') K_ModelRatio = Inr (num_to_string (Num (1 / 2048)))"
    "source_text drift_maps (js ''m'') K_CacheRatio = Inr (num_to_string (Num (1 / 16)))"
    by (rule source_text_num, simp add: drift_maps_def get_prop_def get_own_def)+
  have "opt_prop (sm_completionMeta drift_maps) (js ''m'') = JUndef"
    by (simp add: drift_maps_def opt_prop_def get_prop_def get_own_def)
  with none stored show ?thesis
    by (simp add: buildModelState_def normalizeCompletionRatioMeta_def EMPTY_RATIOS_def del: num_to_string.simps)
qed

lemma drift_price: "ratioToBasePrice (num_to_string (Num (1 / 2048))) = num_to_string (Num (1 / 1024))"
proof -
  have "fixed_value 12 (1 / 1024) = Num (1 / 1024)"
    using fixed_value_on_grid(1) [of 976562500 12 "1 / 1024"] drift_doubles(2) by (simp add: is_double_def)
  then show ?thesis
    using drift_doubles formatNumber_finite [of "Number (Num (1 / 1024))" "1 / 1024"]
    by (simp add: ratioToBasePrice_def toNumberOrNull_Number num_finite_def is_double_def del: num_to_string.simps)
qed

text \<open>The cache price in the form is a little below the exact one.\<close>

lemma drift_cache_price:
  obtains q where "derived_price (Some (Num (1 / 1024))) (num_to_string (Num (1 / 16))) = num_to_string (Num q)"
    and "is_double q" and "0 \<le> q" and "q * 1024 < 1 / 16 - 1 / 10 ^ 10"
proof -
  obtain q where q: "fixed_value 12 (1 / 16384) = Num q" "is_double q"
    by (rule fixed_value_12_cases [OF drift_doubles(4)])
  have fl: "\<lfloor>1 / 16384 * 10 ^ 12 + 1 / 2 :: rat\<rfloor> = 61035156" by (rule floor_half_unique) simp
  have rq: "rnd (61035156 / 10 ^ 12) = Num q"
    using q(1) fl by (simp add: fixed_value_def with_sign_def)
  have q0: "0 \<le> q" using rnd_err [OF rq] by simp
  have "(61035156 / 10 ^ 12 :: rat) < 2 powi - 13" by (simp add: power_int_def power_one_over)
  then have "qexp (61035156 / 10 ^ 12) \<le> - 66" using qexp_less [of "61035156 / 10 ^ 12" "- 13"] by simp
  then have "(2 :: rat) powi qexp (61035156 / 10 ^ 12) \<le> 2 powi - 66" by (simp only: powi2_le_iff)
  moreover have "(2 :: rat) powi - 66 / 2 \<le> 1 / 10 ^ 15" by (simp add: power_int_def power_one_over)
  moreover have "\<bar>q - 61035156 / 10 ^ 12\<bar> \<le> 2 powi qexp (61035156 / 10 ^ 12) / 2" using rnd_err [OF rq] by simp
  ultimately have "q \<le> 61035156 / 10 ^ 12 + 1 / 10 ^ 15" by linarith
  then have "q * 1024 \<le> (61035156 / 10 ^ 12 + 1 / 10 ^ 15) * 1024" by (rule mult_right_mono) simp
  also have "\<dots> < 1 / 16 - 1 / 10 ^ 10" by simp
  finally have lt: "q * 1024 < 1 / 16 - 1 / 10 ^ 10" .
  have "derived_price (Some (Num (1 / 1024))) (num_to_string (Num (1 / 16))) = num_to_string (Num q)"
    using string_to_number_to_string [OF drift_doubles(3)] num_to_string_not_Nil [OF drift_doubles(3)] drift_doubles(4) q(1)
      formatNumber_finite [of "Number (Num (1 / 16384))" "1 / 16384"]
    by (simp add: derived_price_def toNumberOrNull_Number num_finite_def is_double_def del: num_to_string.simps)
  with q(2) q0 lt that show thesis by blast
qed

text \<open>
  Opening and saving can change a ratio nobody has touched: with an input ratio of 1/2048 (an
  input price of 0.0009765625) the cache price of the stored cache ratio 0.0625 needs fourteen
  decimals, the form keeps twelve, and saving computes a smaller ratio from it.
\<close>

theorem untouched_ratio_drifts:
  "\<exists>model result y. buildModelState (js ''m'') drift_maps = Inr model \<and> serializeModel model t = Inr result \<and>
     get_prop (sm_option drift_maps K_CacheRatio) (js ''m'') = Inr (JNum (Num (1 / 16))) \<and>
     result K_CacheRatio = Some (Num y) \<and> y < 1 / 16"
proof -
  obtain q where q: "derived_price (Some (Num (1 / 1024))) (num_to_string (Num (1 / 16))) = num_to_string (Num q)"
    "is_double q" "0 \<le> q" "q * 1024 < 1 / 16 - 1 / 10 ^ 10" by (rule drift_cache_price)
  let ?raw = "EMPTY_RATIOS\<lparr>rr_modelRatio := num_to_string (Num (1 / 2048)), rr_cacheRatio := num_to_string (Num (1 / 16))\<rparr>"
  let ?m = "model_of_texts (js ''m'') ?raw \<lparr>meta_locked = False, meta_ratio = []\<rparr> []"
  have ip: "toNumberOrNull (Text (pm_inputPrice ?m)) = Some (Num (1 / 1024))"
    using drift_price toNumberOrNull_printed [OF drift_doubles(2)] by (simp del: num_to_string.simps)
  have cp: "toNumberOrNull (Text (pm_cachePrice ?m)) = Some (Num q)"
    using q(1,2) drift_price toNumberOrNull_printed [OF drift_doubles(2)] by (simp del: num_to_string.simps)
  have audio: "pm_audioOutputPrice ?m = []"
    by (simp add: model_of_texts_def EMPTY_RATIOS_def derived_price_def Let_def split: option.split)
  obtain result where r: "serialize_priced ?m t (Num (1 / 1024)) = Inr result"
    using audio by (simp add: serialize_priced_def sample_prices Let_def)
  then have ser: "serializeModel ?m t = Inr result" using ip by (simp add: serializeModel_def)
  have "q * 1024 < 2 ^ 1000" using q(4) by (rule order_less_trans) simp
  then obtain w where w: "rnd (q * 1024) = Num w" using rnd_finite [of "q * 1024"] q(3) by auto
  then have wd: "is_double w" using rnd_idem by (simp add: is_double_def)
  have we: "\<bar>w - q * 1024\<bar> \<le> 1 / 2 ^ 53" and w0: "0 \<le> w"
    using rnd_err_below_2 [OF w] rnd_err [OF w] q(3,4) by simp_all
  obtain y where y: "fixed_value 12 w = Num y" by (rule fixed_value_12_cases [OF wd])
  have w1: "w < 1 / 16 - 1 / 10 ^ 10 + 1 / 2 ^ 53" using we q(4) by linarith
  then have "w < 1" by simp
  then have "\<bar>y - w\<bar> \<le> 1 / 10 ^ 12" using fixed_value_err [OF y w0] by simp
  then have "y \<le> w + 1 / 10 ^ 12" by linarith
  with w1 have "y < 1 / 16 - 1 / 10 ^ 10 + 1 / 2 ^ 53 + 1 / 10 ^ 12" by linarith
  then have lt: "y < 1 / 16" by simp
  have "result K_CacheRatio = toNormalizedNumber (Number (num_div (Num q) (Num (1 / 1024))))"
    using serialize_priced_ratio [OF r, of K_CacheRatio] cp by (simp del: num_div.simps)
  also have "\<dots> = Some (Num y)"
    using toNormalizedNumber_finite [of "Number (Num w)" w] w wd y by (simp add: toNumberOrNull_Number num_finite_def)
  finally show ?thesis
    using drift_model ser lt by (auto simp: drift_maps_def get_prop_def get_own_def)
qed

end
