(* ===== verification/PricingEditor.thy ===== *)
theory PricingEditor
  imports PricingModel
begin

text \<open>
  The model price editor, second part: the hook \<open>useModelPricingEditorState\<close> as a state machine. The
  record \<open>pricing_state\<close> has one field per \<open>useState\<close>; \<open>load\<close> is the effect that reads the options,
  \<open>pricing_settle\<close> the two effects that drop names from the selection which are no longer visible; every
  handler maps the state to the next state and the toasts and requests it issues. \<open>handleSubmit\<close> is
  split at its \<open>await\<close>: the requests go out in the first step, their results arrive in the second.
\<close>

subsection \<open>Properties of the component, state, effects\<close>

datatype filter_mode = Filter_all | Filter_unset

text \<open>
  The options by name, the names of the enabled models, the translation function; the collation
  order of the browser and the engine's text of a TypeError are parameters.
\<close>

record pricing_props =
  pp_options :: "jstring \<Rightarrow> jstring option"
  pp_candidateModelNames :: "jstring list"
  pp_filterMode :: filter_mode
  pp_t :: i18n
  pp_localeCompare :: "jstring \<Rightarrow> jstring \<Rightarrow> int"
  pp_typeErrorMessage :: jstring

definition PAGE_SIZE :: int where
  "PAGE_SIZE = 10"

record pricing_state =
  ps_models :: "pricing_model list"
  ps_initialVisibleModelNames :: "jstring list"
  ps_selectedModelName :: jstring
  ps_selectedModelNames :: "jstring list"
  ps_searchText :: jstring
  ps_currentPage :: int
  ps_loading :: bool
  ps_conflictOnly :: bool
  ps_optionalFieldToggles :: "jstring \<rightharpoonup> toggles"

definition initial_pricing_state :: pricing_state where
  "initial_pricing_state = \<lparr>ps_models = [], ps_initialVisibleModelNames = [], ps_selectedModelName = [],
     ps_selectedModelNames = [], ps_searchText = [], ps_currentPage = 1, ps_loading = False,
     ps_conflictOnly = False, ps_optionalFieldToggles = Map.empty\<rparr>"

datatype pricing_effect = Toast_error jstring | Toast_success jstring | Api_put jstring jstring | Call_refresh

subsection \<open>Reading the options\<close>

definition source_maps_of :: "(jstring \<Rightarrow> jstring option) \<Rightarrow> source_maps" where
  "source_maps_of options = \<lparr>sm_option = (\<lambda>key. parseOptionJSON (options (option_key_name key))),
     sm_completionMeta = parseOptionJSON (options (js ''CompletionRatioMeta''))\<rparr>"

definition model_names :: "jstring list \<Rightarrow> source_maps \<Rightarrow> jstring list" where
  "model_names candidateModelNames maps = js_set (candidateModelNames @
     object_keys (sm_option maps K_ModelPrice) @ object_keys (sm_option maps K_ModelRatio) @
     object_keys (sm_option maps K_CompletionRatio) @ object_keys (sm_completionMeta maps) @
     object_keys (sm_option maps K_CacheRatio) @ object_keys (sm_option maps K_CreateCacheRatio) @
     object_keys (sm_option maps K_ImageRatio) @ object_keys (sm_option maps K_AudioRatio) @
     object_keys (sm_option maps K_AudioCompletionRatio))"

definition load_models :: "pricing_props \<Rightarrow> pricing_model list res" where
  "load_models props =
     (let sourceMaps = source_maps_of (pp_options props);
          names = model_names (pp_candidateModelNames props) sourceMaps in
      rbind (res_list (map (\<lambda>name. buildModelState name sourceMaps) names)) (\<lambda>built.
        Inr (js_sort (\<lambda>a b. pp_localeCompare props (pm_name a) (pm_name b)) built)))"

definition load :: "pricing_props \<Rightarrow> pricing_state \<Rightarrow> pricing_state res" where
  "load props st = rbind (load_models props) (\<lambda>nextModels.
     let nextVisibleModels = (if pp_filterMode props = Filter_unset then filter isBasePricingUnset nextModels else nextModels);
         previous = ps_selectedModelName st in
     Inr (st\<lparr>ps_models := nextModels,
       ps_initialVisibleModelNames := map pm_name nextVisibleModels,
       ps_optionalFieldToggles := foldl (\<lambda>acc model. acc(pm_name model \<mapsto> buildOptionalFieldToggles model)) Map.empty nextModels,
       ps_selectedModelName :=
         (if previous \<noteq> [] \<and> list_ex (\<lambda>model. pm_name model = previous) nextModels then previous
          else (case nextVisibleModels of [] \<Rightarrow> [] | model # _ \<Rightarrow> pm_name model))\<rparr>))"

subsection \<open>Derived values\<close>

definition visibleModels :: "pricing_props \<Rightarrow> pricing_state \<Rightarrow> pricing_model list" where
  "visibleModels props st = (if pp_filterMode props = Filter_unset
     then filter (\<lambda>model. pm_name model \<in> set (ps_initialVisibleModelNames st)) (ps_models st)
     else ps_models st)"

definition filteredModels :: "pricing_props \<Rightarrow> pricing_state \<Rightarrow> pricing_model list" where
  "filteredModels props st = filter (\<lambda>model.
     let keyword = to_lower (trim (ps_searchText st));
         keywordMatch = (keyword \<noteq> [] \<longrightarrow> str_includes (to_lower (pm_name model)) keyword);
         conflictMatch = (ps_conflictOnly st \<longrightarrow> pm_hasConflict model)
     in keywordMatch \<and> conflictMatch) (visibleModels props st)"

definition pagedData :: "pricing_props \<Rightarrow> pricing_state \<Rightarrow> pricing_model list" where
  "pagedData props st =
     (let start = (ps_currentPage st - 1) * PAGE_SIZE in js_slice start (start + PAGE_SIZE) (filteredModels props st))"

definition selectedModel :: "pricing_props \<Rightarrow> pricing_state \<Rightarrow> pricing_model option" where
  "selectedModel props st = find (\<lambda>model. pm_name model = ps_selectedModelName st) (visibleModels props st)"

definition selectedWarnings :: "pricing_props \<Rightarrow> pricing_state \<Rightarrow> jstring list" where
  "selectedWarnings props st = getModelWarnings (selectedModel props st) (pp_t props)"

definition previewRows :: "pricing_props \<Rightarrow> pricing_state \<Rightarrow> preview_row list" where
  "previewRows props st = buildPreviewRows (selectedModel props st) (pp_t props)"

definition isOptionalFieldEnabled :: "pricing_state \<Rightarrow> pricing_model option \<Rightarrow> price_field \<Rightarrow> bool" where
  "isOptionalFieldEnabled st model field = (case model of
       None \<Rightarrow> False
     | Some model \<Rightarrow>
         (case ps_optionalFieldToggles st (pm_name model) of
            None \<Rightarrow> buildOptionalFieldToggles model field = Some True
          | Some modelToggles \<Rightarrow>
              (case modelToggles field of
                 Some b \<Rightarrow> b
               | None \<Rightarrow> buildOptionalFieldToggles model field = Some True)))"

subsection \<open>Effects that repair the selection\<close>

definition keep_visible_selection :: "pricing_props \<Rightarrow> pricing_state \<Rightarrow> pricing_state" where
  "keep_visible_selection props st = st\<lparr>ps_selectedModelNames :=
     filter (\<lambda>name. list_ex (\<lambda>model. pm_name model = name) (visibleModels props st)) (ps_selectedModelNames st)\<rparr>"

definition fix_selected_model :: "pricing_props \<Rightarrow> pricing_state \<Rightarrow> pricing_state" where
  "fix_selected_model props st = (case visibleModels props st of
       [] \<Rightarrow> st\<lparr>ps_selectedModelName := []\<rparr>
     | first # _ \<Rightarrow>
         if list_ex (\<lambda>model. pm_name model = ps_selectedModelName st) (visibleModels props st) then st
         else st\<lparr>ps_selectedModelName := pm_name first\<rparr>)"

definition pricing_settle :: "pricing_props \<Rightarrow> pricing_state \<Rightarrow> pricing_state" where
  "pricing_settle props st = fix_selected_model props (keep_visible_selection props st)"

subsection \<open>Editing a model\<close>

definition upsertModel :: "jstring \<Rightarrow> (pricing_model \<Rightarrow> pricing_model) \<Rightarrow> pricing_state \<Rightarrow> pricing_state" where
  "upsertModel name updater st = st\<lparr>ps_models := map_matching pm_name name updater (ps_models st)\<rparr>"

text \<open>\<open>{...prev, [modelName]: {...(prev[modelName] || {}), ...changes}}\<close>\<close>

definition merge_toggles :: "jstring \<Rightarrow> toggles \<Rightarrow> pricing_state \<Rightarrow> pricing_state" where
  "merge_toggles modelName changes st = st\<lparr>ps_optionalFieldToggles :=
     (ps_optionalFieldToggles st)(modelName \<mapsto>
        (case ps_optionalFieldToggles st modelName of None \<Rightarrow> Map.empty | Some m \<Rightarrow> m) ++ changes)\<rparr>"

definition updateOptionalFieldToggle :: "jstring \<Rightarrow> price_field \<Rightarrow> bool \<Rightarrow> pricing_state \<Rightarrow> pricing_state" where
  "updateOptionalFieldToggle modelName field checked st = merge_toggles modelName [field \<mapsto> checked] st"

text \<open>The updater of a switched off field; it also clears the audio output price with the audio input price.\<close>

definition clear_field :: "price_field \<Rightarrow> pricing_model \<Rightarrow> pricing_model" where
  "clear_field field model =
     (let nextModel = set_price field [] model in
      if field = F_audioInputPrice then nextModel\<lparr>pm_audioOutputPrice := []\<rparr> else nextModel)"

definition handleOptionalFieldToggle :: "pricing_props \<Rightarrow> price_field \<Rightarrow> bool \<Rightarrow> pricing_state \<Rightarrow> pricing_state" where
  "handleOptionalFieldToggle props field checked st = (case selectedModel props st of
       None \<Rightarrow> st
     | Some selected \<Rightarrow>
         let name = pm_name selected; st' = updateOptionalFieldToggle name field checked st in
         if checked then st'
         else (let st'' = upsertModel name (clear_field field) st' in
               if field = F_audioInputPrice \<and> list_ex (\<lambda>model. pm_name model = name) (ps_models st')
               then merge_toggles name [F_audioInputPrice \<mapsto> False, F_audioOutputPrice \<mapsto> False] st''
               else st''))"

text \<open>\<open>!hasValue(price) && hasValue(ratio) ? formatNumber(base * Number(ratio)) : price\<close>\<close>

definition fill_price :: "jsnum \<Rightarrow> jstring \<Rightarrow> jstring \<Rightarrow> jstring" where
  "fill_price base price ratio =
     (if \<not> has_text price \<and> has_text ratio then formatNumber (Number (num_mul base (string_to_number ratio))) else price)"

definition fillDerivedPricesFromBase :: "pricing_model \<Rightarrow> jstring \<Rightarrow> pricing_model" where
  "fillDerivedPricesFromBase model nextInputPrice = (case toNumberOrNull (Text nextInputPrice) of
       None \<Rightarrow> model
     | Some baseNumber \<Rightarrow>
         let raw = pm_rawRatios model in
         model\<lparr>
           pm_completionPrice :=
             (if pm_completionRatioLocked model \<and> has_text (pm_lockedCompletionRatio model)
              then formatNumber (Number (num_mul baseNumber (string_to_number (pm_lockedCompletionRatio model))))
              else fill_price baseNumber (pm_completionPrice model) (rr_completionRatio raw)),
           pm_cachePrice := fill_price baseNumber (pm_cachePrice model) (rr_cacheRatio raw),
           pm_createCachePrice := fill_price baseNumber (pm_createCachePrice model) (rr_createCacheRatio raw),
           pm_imagePrice := fill_price baseNumber (pm_imagePrice model) (rr_imageRatio raw),
           pm_audioInputPrice := fill_price baseNumber (pm_audioInputPrice model) (rr_audioRatio raw),
           pm_audioOutputPrice :=
             (if \<not> has_text (pm_audioOutputPrice model) \<and> has_text (rr_audioRatio raw) \<and>
                 has_text (rr_audioCompletionRatio raw)
              then formatNumber (Number (num_mul (num_mul baseNumber (string_to_number (rr_audioRatio raw)))
                     (string_to_number (rr_audioCompletionRatio raw))))
              else pm_audioOutputPrice model)\<rparr>)"

definition edit_price :: "price_field \<Rightarrow> jstring \<Rightarrow> pricing_model \<Rightarrow> pricing_model" where
  "edit_price field v model =
     (let updatedModel = set_price field v model in
      if field = F_inputPrice then fillDerivedPricesFromBase updatedModel v else updatedModel)"

definition handleNumericFieldChange :: "pricing_props \<Rightarrow> price_field \<Rightarrow> jstring \<Rightarrow> pricing_state \<Rightarrow> pricing_state" where
  "handleNumericFieldChange props field v st = (case selectedModel props st of
       None \<Rightarrow> st
     | Some selected \<Rightarrow>
         if NUMERIC_INPUT_REGEX v then upsertModel (pm_name selected) (edit_price field v) st else st)"

definition handleBillingModeChange :: "pricing_props \<Rightarrow> billing_mode \<Rightarrow> pricing_state \<Rightarrow> pricing_state" where
  "handleBillingModeChange props mode st = (case selectedModel props st of
       None \<Rightarrow> st
     | Some selected \<Rightarrow> upsertModel (pm_name selected) (\<lambda>model. model\<lparr>pm_billingMode := mode\<rparr>) st)"

subsection \<open>Adding, deleting, copying prices\<close>

definition MSG_enter_name :: jstring where
  "MSG_enter_name = [0x8BF7, 0x8F93, 0x5165, 0x6A21, 0x578B, 0x540D, 0x79F0]"

definition MSG_name_exists :: jstring where
  "MSG_name_exists = [0x6A21, 0x578B, 0x540D, 0x79F0, 0x5DF2, 0x5B58, 0x5728]"

definition MSG_choose_template :: jstring where
  "MSG_choose_template = [0x8BF7, 0x5148, 0x9009, 0x62E9, 0x4E00, 0x4E2A, 0x4F5C, 0x4E3A, 0x6A21, 0x677F, 0x7684, 0x6A21, 0x578B]"

definition MSG_choose_targets :: jstring where
  "MSG_choose_targets = [0x8BF7, 0x5148, 0x52FE, 0x9009, 0x9700, 0x8981, 0x6279, 0x91CF, 0x8BBE, 0x7F6E, 0x7684, 0x6A21, 0x578B]"

definition MSG_applied :: jstring where
  "MSG_applied = [0x5DF2, 0x5C06, 0x6A21, 0x578B] @ js '' {{name}} '' @ [0x7684, 0x4EF7, 0x683C, 0x914D, 0x7F6E, 0x6279, 0x91CF, 0x5E94, 0x7528, 0x5230] @ js '' {{count}} '' @ [0x4E2A, 0x6A21, 0x578B]"

definition MSG_saved :: jstring where
  "MSG_saved = [0x4FDD, 0x5B58, 0x6210, 0x529F]"

definition MSG_save_failed :: jstring where
  "MSG_save_failed = [0x4FDD, 0x5B58, 0x5931, 0x8D25, 0xFF0C, 0x8BF7, 0x91CD, 0x8BD5]"

definition addModel :: "pricing_props \<Rightarrow> jstring \<Rightarrow> pricing_state \<Rightarrow> (pricing_state \<times> pricing_effect list) \<times> bool" where
  "addModel props modelName st =
     (let trimmedName = trim modelName in
      if trimmedName = [] then ((st, [Toast_error (pp_t props MSG_enter_name [])]), False)
      else if list_ex (\<lambda>model. pm_name model = trimmedName) (ps_models st)
      then ((st, [Toast_error (pp_t props MSG_name_exists [])]), False)
      else (let nextModel = EMPTY_MODEL\<lparr>pm_name := trimmedName\<rparr> in
            ((st\<lparr>ps_models := nextModel # ps_models st,
                 ps_optionalFieldToggles := (ps_optionalFieldToggles st)(trimmedName \<mapsto> buildOptionalFieldToggles nextModel),
                 ps_selectedModelName := trimmedName,
                 ps_currentPage := 1\<rparr>, []), True)))"

definition deleteModel :: "jstring \<Rightarrow> pricing_state \<Rightarrow> pricing_state" where
  "deleteModel name st =
     (let nextModels = filter (\<lambda>model. pm_name model \<noteq> name) (ps_models st) in
      st\<lparr>ps_models := nextModels,
         ps_optionalFieldToggles := (ps_optionalFieldToggles st)(name := None),
         ps_selectedModelNames := filter (\<lambda>item. item \<noteq> name) (ps_selectedModelNames st),
         ps_selectedModelName :=
           (if ps_selectedModelName st = name
            then (case nextModels of [] \<Rightarrow> [] | model # _ \<Rightarrow> pm_name model)
            else ps_selectedModelName st)\<rparr>)"

text \<open>The prices of the template on a checked model; a locked completion ratio keeps determining its price.\<close>

definition apply_prices :: "pricing_model \<Rightarrow> pricing_model \<Rightarrow> pricing_model" where
  "apply_prices selected model =
     (let nextModel = model\<lparr>pm_billingMode := pm_billingMode selected, pm_fixedPrice := pm_fixedPrice selected,
            pm_inputPrice := pm_inputPrice selected, pm_completionPrice := pm_completionPrice selected,
            pm_cachePrice := pm_cachePrice selected, pm_createCachePrice := pm_createCachePrice selected,
            pm_imagePrice := pm_imagePrice selected, pm_audioInputPrice := pm_audioInputPrice selected,
            pm_audioOutputPrice := pm_audioOutputPrice selected\<rparr> in
      if pm_billingMode nextModel = Per_token \<and> pm_completionRatioLocked nextModel \<and>
         has_text (pm_inputPrice nextModel) \<and> has_text (pm_lockedCompletionRatio nextModel)
      then nextModel\<lparr>pm_completionPrice := formatNumber (Number (num_mul (string_to_number (pm_inputPrice nextModel))
             (string_to_number (pm_lockedCompletionRatio nextModel))))\<rparr>
      else nextModel)"

definition apply_toggles :: "pricing_model list \<Rightarrow> toggles \<Rightarrow> jstring \<Rightarrow> toggles" where
  "apply_toggles models sourceToggles modelName =
     (let on = (\<lambda>field. sourceToggles field = Some True);
          locked = (case find (\<lambda>item. pm_name item = modelName) models of
                      None \<Rightarrow> False | Some targetModel \<Rightarrow> pm_completionRatioLocked targetModel) in
      [F_completionPrice \<mapsto> locked \<or> on F_completionPrice, F_cachePrice \<mapsto> on F_cachePrice,
       F_createCachePrice \<mapsto> on F_createCachePrice, F_imagePrice \<mapsto> on F_imagePrice,
       F_audioInputPrice \<mapsto> on F_audioInputPrice,
       F_audioOutputPrice \<mapsto> on F_audioInputPrice \<and> on F_audioOutputPrice])"

definition applySelectedModelPricing :: "pricing_props \<Rightarrow> pricing_state \<Rightarrow> (pricing_state \<times> pricing_effect list) \<times> bool" where
  "applySelectedModelPricing props st = (case selectedModel props st of
       None \<Rightarrow> ((st, [Toast_error (pp_t props MSG_choose_template [])]), False)
     | Some selected \<Rightarrow>
         let names = ps_selectedModelNames st in
         if names = [] then ((st, [Toast_error (pp_t props MSG_choose_targets [])]), False)
         else (let sourceToggles = (case ps_optionalFieldToggles st (pm_name selected) of None \<Rightarrow> Map.empty | Some m \<Rightarrow> m) in
               ((st\<lparr>ps_models := map (\<lambda>model. if pm_name model \<in> set names then apply_prices selected model else model) (ps_models st),
                    ps_optionalFieldToggles := foldl (\<lambda>acc modelName. acc(modelName \<mapsto> apply_toggles (ps_models st) sourceToggles modelName))
                      (ps_optionalFieldToggles st) names\<rparr>,
                 [Toast_success (pp_t props MSG_applied [(js ''name'', JStr (pm_name selected)),
                    (js ''count'', JNum (Num (of_nat (length names))))])]), True)))"

subsection \<open>Saving\<close>

text \<open>
  The eight objects that \<open>handleSubmit\<close> collects, from the first model to the last. The assignment \<open>output[key][name] = value\<close>
  makes an own property of every name but \<open>__proto__\<close>; no model of that name is considered here.
\<close>

definition collect :: "saved \<Rightarrow> jstring \<Rightarrow> (option_key \<Rightarrow> jsobj) \<Rightarrow> option_key \<Rightarrow> jsobj" where
  "collect serialized name result key =
     (case serialized key of None \<Rightarrow> result key | Some n \<Rightarrow> obj_set name (JNum n) (result key))"

fun submit_loop :: "i18n \<Rightarrow> (option_key \<Rightarrow> jsobj) \<Rightarrow> pricing_model list \<Rightarrow> (option_key \<Rightarrow> jsobj) res" where
  "submit_loop t result [] = Inr result"
| "submit_loop t result (model # models) =
     rbind (serializeModel model t) (\<lambda>serialized. submit_loop t (collect serialized (pm_name model) result) models)"

definition submit_requests :: "i18n \<Rightarrow> pricing_model list \<Rightarrow> (jstring \<times> jstring) list res" where
  "submit_requests t models = rbind (submit_loop t (\<lambda>_. []) models) (\<lambda>result.
     Inr (map (\<lambda>key. (option_key_name key, json_ind 0 (JObj (result key)))) OPTION_KEYS))"

text \<open>\<open>showError(error.message || t('...'))\<close>\<close>

definition save_error :: "pricing_props \<Rightarrow> jstring \<Rightarrow> pricing_effect" where
  "save_error props message = Toast_error (if message \<noteq> [] then message else pp_t props MSG_save_failed [])"

definition pricing_exn_message :: "pricing_props \<Rightarrow> exn \<Rightarrow> jstring" where
  "pricing_exn_message props e = (case e of TypeError \<Rightarrow> pp_typeErrorMessage props | Error m \<Rightarrow> m)"

definition handleSubmit_start :: "pricing_props \<Rightarrow> pricing_state \<Rightarrow> pricing_state \<times> pricing_effect list" where
  "handleSubmit_start props st = (case submit_requests (pp_t props) (ps_models st) of
       Inl e \<Rightarrow> (st\<lparr>ps_loading := False\<rparr>, [save_error props (pricing_exn_message props e)])
     | Inr requests \<Rightarrow> (st\<lparr>ps_loading := True\<rparr>, map (\<lambda>(key, v). Api_put key v) requests))"

text \<open>The loop over the responses: the error that the first unsuccessful one throws.\<close>

fun first_failure :: "pricing_props \<Rightarrow> jsval list \<Rightarrow> exn option" where
  "first_failure props [] = None"
| "first_failure props (res # results) =
     (let data = opt_prop res (js ''data'') in
      if truthy (opt_prop data (js ''success'')) then first_failure props results
      else (case js_String (js_or (opt_prop data (js ''message'')) (JStr (pp_t props MSG_save_failed []))) of
              Inl e \<Rightarrow> Some e
            | Inr m \<Rightarrow> Some (Error m)))"

text \<open>
  After the \<open>await\<close>: \<open>results\<close> is the message of the error that \<open>Promise.all\<close> rejects with, or the
  responses; \<open>refresh\<close> is the message of the error \<open>refresh()\<close> rejects with, if it does.
\<close>

definition handleSubmit_finish ::
  "pricing_props \<Rightarrow> jstring + jsval list \<Rightarrow> jstring option \<Rightarrow> pricing_state \<Rightarrow> pricing_state \<times> pricing_effect list" where
  "handleSubmit_finish props results refresh st =
     (st\<lparr>ps_loading := False\<rparr>,
      (case results of
         Inl message \<Rightarrow> [save_error props message]
       | Inr responses \<Rightarrow>
           (case first_failure props responses of
              Some e \<Rightarrow> [save_error props (pricing_exn_message props e)]
            | None \<Rightarrow> [Toast_success (pp_t props MSG_saved []), Call_refresh] @
                (case refresh of None \<Rightarrow> [] | Some message \<Rightarrow> [save_error props message]))))"

subsection \<open>Events and reachable states\<close>

text \<open>
  \<open>Pe_check\<close> carries the keys that the table reports; the table offers only visible models, which is
  why the effects may be run after this event as after any other.
\<close>

datatype pricing_event =
    Pe_numeric price_field jstring
  | Pe_toggle price_field bool
  | Pe_billing billing_mode
  | Pe_add jstring
  | Pe_delete jstring
  | Pe_apply
  | Pe_select jstring
  | Pe_check "jstring list"
  | Pe_search jstring
  | Pe_conflictOnly bool
  | Pe_page int
  | Pe_submit
  | Pe_submitted "jstring + jsval list" "jstring option"

text \<open>A change of the search text or of the filter goes back to the first page.\<close>

fun pricing_handle :: "pricing_props \<Rightarrow> pricing_event \<Rightarrow> pricing_state \<Rightarrow> pricing_state \<times> pricing_effect list" where
  "pricing_handle props (Pe_numeric field v) st = (handleNumericFieldChange props field v st, [])"
| "pricing_handle props (Pe_toggle field checked) st = (handleOptionalFieldToggle props field checked st, [])"
| "pricing_handle props (Pe_billing mode) st = (handleBillingModeChange props mode st, [])"
| "pricing_handle props (Pe_add name) st = fst (addModel props name st)"
| "pricing_handle props (Pe_delete name) st = (deleteModel name st, [])"
| "pricing_handle props Pe_apply st = fst (applySelectedModelPricing props st)"
| "pricing_handle props (Pe_select name) st = (st\<lparr>ps_selectedModelName := name\<rparr>, [])"
| "pricing_handle props (Pe_check names) st = (st\<lparr>ps_selectedModelNames := names\<rparr>, [])"
| "pricing_handle props (Pe_search s) st =
     (st\<lparr>ps_searchText := s, ps_currentPage := (if s = ps_searchText st then ps_currentPage st else 1)\<rparr>, [])"
| "pricing_handle props (Pe_conflictOnly b) st =
     (st\<lparr>ps_conflictOnly := b, ps_currentPage := (if b = ps_conflictOnly st then ps_currentPage st else 1)\<rparr>, [])"
| "pricing_handle props (Pe_page p) st = (st\<lparr>ps_currentPage := p\<rparr>, [])"
| "pricing_handle props Pe_submit st = handleSubmit_start props st"
| "pricing_handle props (Pe_submitted results refresh) st = handleSubmit_finish props results refresh st"

text \<open>The parent may pass other options or candidates; the effect then reads them again.\<close>

inductive pricing_step :: "pricing_props \<times> pricing_state \<Rightarrow> pricing_props \<times> pricing_state \<Rightarrow> bool" where
  event: "pricing_step (props, st) (props, pricing_settle props (fst (pricing_handle props ev st)))"
| reload: "props' = props\<lparr>pp_options := opts, pp_candidateModelNames := names\<rparr> \<Longrightarrow> load props' st = Inr st' \<Longrightarrow>
    pricing_step (props, st)
      (props', pricing_settle props' (if names = pp_candidateModelNames props then st' else st'\<lparr>ps_currentPage := 1\<rparr>))"

inductive pricing_reachable :: "pricing_props \<times> pricing_state \<Rightarrow> bool" where
  mounted: "load props initial_pricing_state = Inr st \<Longrightarrow> pricing_reachable (props, pricing_settle props st)"
| stepped: "pricing_reachable w \<Longrightarrow> pricing_step w w' \<Longrightarrow> pricing_reachable w'"

end
