(* ===== verification/PricingProperties.thy ===== *)
theory PricingProperties
  imports PricingEditor
begin

text \<open>
  Properties of the model price editor: the invariant of its reachable states, its refinement of a
  map from names to models, what a submission sends and what the next load reads, the pages of the
  list, the copying of prices, and the texts the price fields accept.
\<close>

subsection \<open>The list of models as a map\<close>

interpretation price_store: keyed_store pm_name "list_lookup pm_name" "map_matching pm_name" Cons
    "\<lambda>k. filter (\<lambda>x. pm_name x \<noteq> k)" "distinct_keys pm_name"
  by (rule list_keyed_store)

abbreviation models_map :: "pricing_state \<Rightarrow> jstring \<Rightarrow> pricing_model option" where
  "models_map st \<equiv> list_lookup pm_name (ps_models st)"

lemma pm_name_set_price [simp]: "pm_name (set_price f v m) = pm_name m"
  by (cases f) simp_all

lemma pm_name_clear_field [simp]: "pm_name (clear_field f m) = pm_name m"
  by (simp add: clear_field_def Let_def)

lemma pm_name_edit_price [simp]: "pm_name (edit_price f v m) = pm_name m"
  by (simp add: edit_price_def fillDerivedPricesFromBase_def Let_def split: option.split)

lemma pm_name_apply_prices [simp]: "pm_name (apply_prices a m) = pm_name m"
  by (simp add: apply_prices_def Let_def)

lemma list_ex_name: "list_ex (\<lambda>m. pm_name m = n) ms \<longleftrightarrow> n \<in> pm_name ` set ms"
  by (auto simp: list_ex_iff)

lemma selectedModel_visible:
  "selectedModel props st = Some m \<Longrightarrow> m \<in> set (visibleModels props st) \<and> pm_name m = ps_selectedModelName st"
  by (auto simp: selectedModel_def find_Some_iff)

lemma visible_subset: "set (visibleModels props st) \<subseteq> set (ps_models st)"
  by (auto simp: visibleModels_def)

lemma selectedModel_member: "selectedModel props st = Some m \<Longrightarrow> m \<in> set (ps_models st)"
  using selectedModel_visible visible_subset by blast

subsection \<open>The invariant\<close>

definition pricing_core :: "pricing_state \<Rightarrow> bool" where
  "pricing_core st \<longleftrightarrow> distinct_keys pm_name (ps_models st) \<and>
     dom (ps_optionalFieldToggles st) = pm_name ` set (ps_models st)"

definition pricing_inv :: "pricing_props \<Rightarrow> pricing_state \<Rightarrow> bool" where
  "pricing_inv props st \<longleftrightarrow> pricing_core st \<and>
     set (ps_selectedModelNames st) \<subseteq> pm_name ` set (visibleModels props st) \<and>
     (if visibleModels props st = [] then ps_selectedModelName st = []
      else ps_selectedModelName st \<in> pm_name ` set (visibleModels props st))"

lemma visible_cong:
  "ps_models st' = ps_models st \<Longrightarrow> ps_initialVisibleModelNames st' = ps_initialVisibleModelNames st \<Longrightarrow>
   visibleModels props st' = visibleModels props st"
  by (simp add: visibleModels_def)

lemma settle_fields [simp]:
  "ps_models (pricing_settle props st) = ps_models st"
  "ps_optionalFieldToggles (pricing_settle props st) = ps_optionalFieldToggles st"
  "ps_initialVisibleModelNames (pricing_settle props st) = ps_initialVisibleModelNames st"
  by (simp_all add: pricing_settle_def fix_selected_model_def keep_visible_selection_def split: list.split)

lemma settle_inv: "pricing_core st \<Longrightarrow> pricing_inv props (pricing_settle props st)"
proof -
  assume core: "pricing_core st"
  let ?st = "keep_visible_selection props st"
  have v: "visibleModels props (pricing_settle props st) = visibleModels props st"
    "visibleModels props ?st = visibleModels props st"
    by (rule visible_cong; simp add: keep_visible_selection_def)+
  have checked: "set (ps_selectedModelNames (pricing_settle props st)) \<subseteq> pm_name ` set (visibleModels props st)"
    by (auto simp: pricing_settle_def fix_selected_model_def keep_visible_selection_def list_ex_name split: list.split)
  have selected: "if visibleModels props st = [] then ps_selectedModelName (pricing_settle props st) = []
      else ps_selectedModelName (pricing_settle props st) \<in> pm_name ` set (visibleModels props st)"
    unfolding pricing_settle_def fix_selected_model_def v(2)
    by (cases "visibleModels props st") (auto simp: keep_visible_selection_def list_ex_name)
  show ?thesis using core checked selected unfolding pricing_inv_def v by (simp add: pricing_core_def)
qed

subsection \<open>Every handler keeps the invariant\<close>

lemma core_cong:
  assumes "pricing_core st" and names: "map pm_name (ps_models st') = map pm_name (ps_models st)"
    and "dom (ps_optionalFieldToggles st') = dom (ps_optionalFieldToggles st)"
  shows "pricing_core st'"
proof -
  have "pm_name ` set (ps_models st') = pm_name ` set (ps_models st)"
    using names by (metis list.set_map)
  with assms show ?thesis by (simp add: pricing_core_def distinct_keys_def)
qed

lemma upsertModel_names: "\<forall>m. pm_name (f m) = pm_name m \<Longrightarrow>
    map pm_name (ps_models (upsertModel name f st)) = map pm_name (ps_models st)"
  by (simp add: upsertModel_def map_matching_keys)

lemma set_names_upsert: "\<forall>m. pm_name (f m) = pm_name m \<Longrightarrow>
    pm_name ` set (ps_models (upsertModel name f st)) = pm_name ` set (ps_models st)"
  by (metis upsertModel_names list.set_map)

lemma core_upsert:
  assumes "pricing_core st" and "\<forall>m. pm_name (f m) = pm_name m"
  shows "pricing_core (upsertModel name f st)"
  using assms by (intro core_cong [OF assms(1)]) (simp_all add: upsertModel_names, simp add: upsertModel_def)

lemma core_merge_toggles:
  "pricing_core st \<Longrightarrow> name \<in> pm_name ` set (ps_models st) \<Longrightarrow> pricing_core (merge_toggles name changes st)"
  by (auto simp: pricing_core_def merge_toggles_def)

lemma merge_toggles_models [simp]: "ps_models (merge_toggles name changes st) = ps_models st"
  by (simp add: merge_toggles_def)

lemma core_numeric: "pricing_core st \<Longrightarrow> pricing_core (handleNumericFieldChange props field v st)"
  by (auto simp: handleNumericFieldChange_def intro: core_upsert split: option.split)

lemma core_billing: "pricing_core st \<Longrightarrow> pricing_core (handleBillingModeChange props mode st)"
  by (auto simp: handleBillingModeChange_def intro: core_upsert split: option.split)

lemma core_toggle: "pricing_core st \<Longrightarrow> pricing_core (handleOptionalFieldToggle props field checked st)"
proof (cases "selectedModel props st")
  case (Some m)
  assume core: "pricing_core st"
  have "pm_name m \<in> pm_name ` set (ps_models st)" using selectedModel_member [OF Some] by simp
  then show ?thesis
    using core Some unfolding handleOptionalFieldToggle_def updateOptionalFieldToggle_def
    by (auto simp: Let_def set_names_upsert intro!: core_upsert core_merge_toggles)
qed (simp add: handleOptionalFieldToggle_def)

lemma core_add: "pricing_core st \<Longrightarrow> pricing_core (fst (fst (addModel props name st)))"
  by (auto simp: addModel_def pricing_core_def distinct_keys_def list_ex_name Let_def)

lemma core_delete: "pricing_core st \<Longrightarrow> pricing_core (deleteModel name st)"
  by (auto simp: deleteModel_def pricing_core_def distinct_keys_def distinct_map_filter Let_def)

lemma dom_foldl_upd: "dom (foldl (\<lambda>acc x. acc(f x \<mapsto> g x)) m xs) = dom m \<union> f ` set xs"
  by (induction xs arbitrary: m) auto

lemma core_apply:
  assumes "pricing_inv props st"
  shows "pricing_core (fst (fst (applySelectedModelPricing props st)))"
proof -
  have core: "pricing_core st" and sub: "set (ps_selectedModelNames st) \<subseteq> pm_name ` set (ps_models st)"
    using assms image_mono [OF visible_subset, of pm_name props st] unfolding pricing_inv_def by auto
  have names: "map pm_name (map (\<lambda>m. if pm_name m \<in> S then apply_prices a m else m) ms) = map pm_name ms" for S a ms
    by simp
  have dom: "dom (ps_optionalFieldToggles st) = pm_name ` set (ps_models st)" using core by (simp add: pricing_core_def)
  show ?thesis
  proof (cases "selectedModel props st")
    case (Some a)
    show ?thesis
    proof (cases "ps_selectedModelNames st = []")
      case False
      show ?thesis
        using Some False sub dom
        by (intro core_cong [OF core])
           (auto simp: applySelectedModelPricing_def Let_def dom_foldl_upd [where f = "\<lambda>x. x"])
    qed (simp add: applySelectedModelPricing_def Some core)
  qed (simp add: applySelectedModelPricing_def core)
qed

lemma core_handle:
  assumes "pricing_inv props st"
  shows "pricing_core (fst (pricing_handle props ev st))"
proof -
  have core: "pricing_core st" using assms by (simp add: pricing_inv_def)
  have same: "pricing_core st'" if "ps_models st' = ps_models st" "ps_optionalFieldToggles st' = ps_optionalFieldToggles st" for st'
    using core that by (simp add: pricing_core_def)
  show ?thesis
    by (cases ev) (simp_all add: core_numeric core_toggle core_billing core_add core_delete core_apply core assms same
        handleSubmit_start_def handleSubmit_finish_def split: sum.split)
qed

subsection \<open>Loading\<close>

lemma model_of_buildModelState: "buildModelState name maps = Inr m \<Longrightarrow> pm_name m = name"
  by (erule buildModelState_InrD) simp

lemma res_list_InrD: "res_list rs = Inr xs \<Longrightarrow> rs = map Inr xs"
  by (induction rs arbitrary: xs) (auto simp: rbind_Inr_iff)

lemma load_models_InrD:
  assumes "load_models props = Inr ms"
  shows "m \<in> set ms \<longleftrightarrow> (\<exists>name \<in> set (model_names (pp_candidateModelNames props) (source_maps_of (pp_options props))).
      buildModelState name (source_maps_of (pp_options props)) = Inr m)"
    and "distinct_keys pm_name ms"
proof -
  let ?maps = "source_maps_of (pp_options props)"
  let ?names = "model_names (pp_candidateModelNames props) ?maps"
  obtain built where b: "map (\<lambda>name. buildModelState name ?maps) ?names = map Inr built"
    and ms: "ms = js_sort (\<lambda>a b. pp_localeCompare props (pm_name a) (pm_name b)) built"
    using assms by (auto simp: load_models_def Let_def rbind_Inr_iff dest!: res_list_InrD)
  have i: "buildModelState (?names ! i) ?maps = Inr (built ! i)" "i < length built" if "i < length ?names" for i
    using b that by (metis length_map nth_map)+
  have len: "length built = length ?names" using b by (metis length_map)
  have names: "map pm_name built = ?names"
    by (rule nth_equalityI) (use i len model_of_buildModelState in auto)
  have "Inr ` set built = (\<lambda>name. buildModelState name ?maps) ` set ?names"
    using b by (metis list.set_map)
  then show "m \<in> set ms \<longleftrightarrow> (\<exists>name \<in> set ?names. buildModelState name ?maps = Inr m)"
    unfolding ms by (auto simp: image_iff) (metis imageI image_iff sum.inject(2))+
  have "mset (map pm_name ms) = mset (map pm_name built)" by (simp add: ms)
  moreover have "distinct (map pm_name built)" unfolding names by (simp add: model_names_def)
  ultimately show "distinct_keys pm_name ms" unfolding distinct_keys_def by (metis mset_eq_imp_distinct_iff)
qed

lemma load_core: "load props st = Inr st' \<Longrightarrow> pricing_core st'"
proof -
  assume "load props st = Inr st'"
  then obtain ms where "load_models props = Inr ms" "ps_models st' = ms"
    "ps_optionalFieldToggles st' = foldl (\<lambda>acc model. acc(pm_name model \<mapsto> buildOptionalFieldToggles model)) Map.empty ms"
    by (auto simp: load_def rbind_Inr_iff Let_def)
  then show ?thesis by (simp add: pricing_core_def load_models_InrD(2) dom_foldl_upd)
qed

text \<open>
  C23. In every reachable state of the price editor the model names are distinct, the field switches
  are kept exactly for the models of the list, every checked model is visible, and the model shown
  in the form is a visible one (none when nothing is visible).
\<close>

theorem pricing_invariant:
  assumes "pricing_reachable (props, st)"
  shows "pricing_inv props st"
  using assms
proof (induction "(props, st)" arbitrary: props st)
  case mounted
  then show ?case by (simp add: settle_inv load_core)
next
  case (stepped w)
  from stepped.hyps(3) show ?case
  proof cases
    case (event st0 ev)
    then show ?thesis using stepped.hyps(2) by (auto intro: settle_inv core_handle)
  next
    case (reload props0 opts names st0 st1)
    have "pricing_core st1" using reload by (auto dest: load_core)
    then have "pricing_core (if b then st1 else st1\<lparr>ps_currentPage := 1\<rparr>)" for b by (simp add: pricing_core_def)
    then show ?thesis unfolding reload(2,3) by (rule settle_inv)
  qed
qed

text \<open>The editor mounted without options and with one candidate model.\<close>

definition sample_props :: pricing_props where
  "sample_props = \<lparr>pp_options = (\<lambda>_. None), pp_candidateModelNames = [js ''m''], pp_filterMode = Filter_all,
     pp_t = (\<lambda>key opts. key), pp_localeCompare = (\<lambda>a b. 0), pp_typeErrorMessage = []\<rparr>"

lemma empty_options_model:
  assumes "\<forall>key. sm_option maps key = JObj []" and "sm_completionMeta maps = JObj []"
  shows "buildModelState name maps = Inr (model_of_texts name EMPTY_RATIOS \<lparr>meta_locked = False, meta_ratio = []\<rparr> [])"
proof -
  have "source_text maps name key = Inr []" for key
    using assms(1) by (intro source_text_undef) (simp add: get_prop_def get_own_def)
  moreover have "opt_prop (sm_completionMeta maps) name = JUndef"
    using assms(2) by (simp add: opt_prop_def get_prop_def get_own_def)
  ultimately show ?thesis by (simp add: buildModelState_def normalizeCompletionRatioMeta_def EMPTY_RATIOS_def)
qed

abbreviation sample_loaded :: pricing_model where
  "sample_loaded \<equiv> model_of_texts (js ''m'') EMPTY_RATIOS \<lparr>meta_locked = False, meta_ratio = []\<rparr> []"

lemma sample_load_models: "load_models sample_props = Inr [sample_loaded]"
proof -
  have e: "parseOptionJSON None = JObj []" by (simp add: parseOptionJSON_def)
  have "model_names [js ''m''] (source_maps_of (\<lambda>_. None)) = [js ''m'']"
    by (simp add: model_names_def source_maps_of_def e object_keys_def js_set_def js_set_add_def)
  then show ?thesis
    using empty_options_model [of "source_maps_of (\<lambda>_. None)" "js ''m''"]
    by (simp add: load_models_def sample_props_def source_maps_of_def e js_sort_def)
qed

lemma sample_load: "\<exists>st. load sample_props initial_pricing_state = Inr st \<and> ps_models st = [sample_loaded]"
  by (simp add: load_def sample_load_models Let_def)

theorem pricing_invariant_witness:
  "\<exists>st. pricing_reachable (sample_props, st) \<and> ps_models st = [sample_loaded] \<and> pricing_inv sample_props st"
proof -
  obtain st where st: "load sample_props initial_pricing_state = Inr st" "ps_models st = [sample_loaded]"
    using sample_load by blast
  have reach: "pricing_reachable (sample_props, pricing_settle sample_props st)" by (rule mounted [OF st(1)])
  from pricing_invariant [OF reach] reach st(2) show ?thesis by (auto intro!: exI [of _ "pricing_settle sample_props st"])
qed

subsection \<open>What a submission sends\<close>

lemma toNormalizedNumber_json: "toNormalizedNumber v = Some n \<Longrightarrow> num_wf (numeric_num v) \<Longrightarrow> json_wf (JNum n)"
  by (erule toNormalizedNumber_SomeD) (simp_all add: num_finite_def)

definition saved_json :: "saved \<Rightarrow> bool" where
  "saved_json r \<longleftrightarrow> (\<forall>key n. r key = Some n \<longrightarrow> json_wf (JNum n))"

lemma saved_json_empty [simp]: "saved_json (\<lambda>_. None)"
  by (simp add: saved_json_def)

lemma saved_json_put:
  "saved_json r \<Longrightarrow> saved_json (put_if b key (toNormalizedNumber (Text s)) r)"
  "saved_json r \<Longrightarrow> saved_json (put_ratio key price base r)"
  "saved_json r \<Longrightarrow> saved_json (r(key := toNormalizedNumber (Number (num_div p q))))"
  by (auto simp: saved_json_def put_if_apply put_ratio_apply num_wf_div simp del: json_wf.simps num_div.simps
      intro: toNormalizedNumber_json split: if_splits option.splits)

lemma serialize_json: "serializeModel m t = Inr r \<Longrightarrow> saved_json r"
  by (auto simp: serializeModel_def serialize_raw_def serialize_priced_def Let_def simp del: num_div.simps
      intro!: saved_json_put split: if_splits option.splits)

text \<open>The number that is saved for a model under a key.\<close>

definition saved_under :: "i18n \<Rightarrow> pricing_model list \<Rightarrow> option_key \<Rightarrow> jstring \<Rightarrow> jsnum option" where
  "saved_under t models key name = (case list_lookup pm_name models name of
       None \<Rightarrow> None
     | Some m \<Rightarrow> (case serializeModel m t of Inl _ \<Rightarrow> None | Inr r \<Rightarrow> r key))"

lemma submit_loop_result:
  assumes "submit_loop t out models = Inr res" and "distinct_keys pm_name models"
  shows "map_of (res key) name = (case saved_under t models key name of
      Some n \<Rightarrow> Some (JNum n) | None \<Rightarrow> map_of (out key) name)"
  using assms
proof (induction models arbitrary: out)
  case (Cons m ms)
  then obtain r where r: "serializeModel m t = Inr r" and l: "submit_loop t (collect r (pm_name m) out) ms = Inr res"
    and d: "distinct_keys pm_name ms" and new: "pm_name m \<notin> pm_name ` set ms"
    by (auto simp: rbind_Inr_iff distinct_keys_def)
  have none: "list_lookup pm_name ms (pm_name m) = None" using new by (simp add: list_lookup_None_iff)
  have c: "map_of (collect r (pm_name m) out key) name =
      (if name = pm_name m then (case r key of Some n \<Rightarrow> Some (JNum n) | None \<Rightarrow> map_of (out key) name)
       else map_of (out key) name)"
    by (simp add: collect_def map_of_obj_set split: option.split)
  show ?case
    using Cons.IH [OF l d] none r unfolding c
    by (auto simp: saved_under_def list_lookup_Cons split: option.splits)
qed (simp add: saved_under_def)

lemma submit_loop_json:
  assumes "submit_loop t out models = Inr res" and "\<forall>key. json_wf (JObj (out key))"
  shows "json_wf (JObj (res key))"
  using assms
proof (induction models arbitrary: out)
  case (Cons m ms)
  then obtain r where r: "serializeModel m t = Inr r" and l: "submit_loop t (collect r (pm_name m) out) ms = Inr res"
    by (auto simp: rbind_Inr_iff)
  have wf: "json_wf (JNum n)" if "r key = Some n" for key n
    using serialize_json [OF r] that by (simp add: saved_json_def)
  have "json_wf (JObj (collect r (pm_name m) out key))" for key
    using Cons.prems(2) wf by (auto simp: collect_def split: option.split intro!: json_wf_set simp del: json_wf.simps)
  from Cons.IH [OF l] this show ?case by blast
qed simp

lemma submit_loop_Inr_iff: "(\<exists>res. submit_loop t out models = Inr res) \<longleftrightarrow> (\<forall>m \<in> set models. \<exists>r. serializeModel m t = Inr r)"
proof (induction models arbitrary: out)
  case (Cons m ms)
  then show ?case by (cases "serializeModel m t") auto
qed simp

lemma submit_loop_InlD: "submit_loop t out models = Inl e \<Longrightarrow> \<exists>m \<in> set models. serializeModel m t = Inl e"
proof (induction models arbitrary: out)
  case (Cons m ms)
  then show ?case by (cases "serializeModel m t") auto
qed simp

lemma submit_requests_InrD:
  assumes "submit_requests t models = Inr requests"
  obtains res where "submit_loop t (\<lambda>_. []) models = Inr res"
    and "requests = map (\<lambda>key. (option_key_name key, json_ind 0 (JObj (res key)))) OPTION_KEYS"
  using assms by (auto simp: submit_requests_def rbind_Inr_iff)

lemma map_of_requests:
  "map_of (map (\<lambda>key. (option_key_name key, f key)) OPTION_KEYS) (option_key_name key) = Some (f key)"
  by (cases key) (simp_all add: OPTION_KEYS_def)

lemma requests_object:
  assumes "submit_requests t models = Inr requests" and "distinct_keys pm_name models"
  shows "\<exists>ob. map_of requests (option_key_name key) = Some (json_ind 0 (JObj ob)) \<and>
    json_parse (json_ind 0 (JObj ob)) = Some (JObj ob) \<and>
    (\<forall>name. map_of ob name = map_option JNum (saved_under t models key name))"
proof -
  obtain res where l: "submit_loop t (\<lambda>_. []) models = Inr res"
    and q: "requests = map (\<lambda>key. (option_key_name key, json_ind 0 (JObj (res key)))) OPTION_KEYS"
    by (rule submit_requests_InrD [OF assms(1)])
  have wf: "json_wf (JObj (res key))" by (rule submit_loop_json [OF l]) simp
  have "map_of (res key) name = map_option JNum (saved_under t models key name)" for name
    using submit_loop_result [OF l assms(2), of key name] by (simp split: option.splits)
  with pretty.dec_enc [OF wf] show ?thesis by (auto simp: q map_of_requests simp del: json_ind.simps)
qed

text \<open>
  C21. A submission sends exactly what the models serialise to: when it goes out, there is one request
  for each of the eight options, in the order of the options, and the text sent for an option parses
  to the object that holds, for every model, the number the model serialises to under that option,
  and nothing else. (JavaScript loses a model named \<open>__proto__\<close> here, which the objects of the model do not show.)
\<close>

theorem submission_exact:
  assumes "distinct_keys pm_name models" and "submit_requests t models = Inr requests"
  shows "map fst requests = map option_key_name OPTION_KEYS \<and>
    (\<forall>key. \<exists>ob. map_option json_parse (map_of requests (option_key_name key)) = Some (Some (JObj ob)) \<and>
       (\<forall>name. map_of ob name = map_option JNum (saved_under t models key name)))"
proof -
  have "map fst requests = map option_key_name OPTION_KEYS"
    by (rule submit_requests_InrD [OF assms(2)]) (simp add: comp_def)
  moreover have "\<exists>ob. map_option json_parse (map_of requests (option_key_name key)) = Some (Some (JObj ob)) \<and>
       (\<forall>name. map_of ob name = map_option JNum (saved_under t models key name))" for key
    using requests_object [OF assms(2,1), of key] by auto
  ultimately show ?thesis by blast
qed

lemma sample_submission:
  obtains requests where "submit_requests t [sample_model] = Inr requests"
  using sample_serialize [of t] by (auto simp: submit_requests_def)

theorem submission_exact_witness:
  "\<exists>requests. submit_requests (\<lambda>key opts. key) [sample_model] = Inr requests \<and>
     map fst requests = map option_key_name OPTION_KEYS \<and>
     (\<exists>ob. map_option json_parse (map_of requests (js ''CacheRatio'')) = Some (Some (JObj ob)) \<and>
       map_of ob (js ''m'') = map_option JNum (saved_under (\<lambda>key opts. key) [sample_model] K_CacheRatio (js ''m'')))"
proof -
  obtain requests where q: "submit_requests (\<lambda>key opts. key) [sample_model] = Inr requests" by (rule sample_submission)
  have d: "distinct_keys pm_name [sample_model]" by (simp add: distinct_keys_def)
  from submission_exact [OF d q] q show ?thesis by (metis option_key_name.simps(4))
qed

text \<open>
  Saving is all or nothing on the side of the editor: when some model cannot be serialised, no
  request is sent, the one effect is an error toast and the editor is not left loading; otherwise
  the effects are the eight requests and the editor is loading. The models are never changed.
\<close>

theorem submit_all_or_nothing:
  "(if \<exists>m \<in> set (ps_models st). \<exists>e. serializeModel m (pp_t props) = Inl e
    then \<exists>message. handleSubmit_start props st = (st\<lparr>ps_loading := False\<rparr>, [Toast_error message])
    else \<exists>texts. length texts = 8 \<and>
      handleSubmit_start props st = (st\<lparr>ps_loading := True\<rparr>, map2 (\<lambda>key. Api_put (option_key_name key)) OPTION_KEYS texts))"
proof (cases "submit_loop (pp_t props) (\<lambda>_. []) (ps_models st)")
  case (Inl e)
  then have "\<exists>m \<in> set (ps_models st). \<exists>e. serializeModel m (pp_t props) = Inl e" using submit_loop_InlD by blast
  with Inl show ?thesis by (auto simp: handleSubmit_start_def submit_requests_def save_error_def)
next
  case (Inr res)
  then have "\<forall>m \<in> set (ps_models st). \<exists>r. serializeModel m (pp_t props) = Inr r"
    using submit_loop_Inr_iff by blast
  then have n: "\<not> (\<exists>m \<in> set (ps_models st). \<exists>e. serializeModel m (pp_t props) = Inl e)" by force
  let ?texts = "map (\<lambda>key. json_ind 0 (JObj (res key))) OPTION_KEYS"
  have "length ?texts = 8" by (simp add: OPTION_KEYS_def)
  moreover have "handleSubmit_start props st =
      (st\<lparr>ps_loading := True\<rparr>, map2 (\<lambda>key. Api_put (option_key_name key)) OPTION_KEYS ?texts)"
    using Inr by (simp add: handleSubmit_start_def submit_requests_def zip_map2 zip_same_conv_map comp_def del: json_ind.simps)
  ultimately have "\<exists>texts. length texts = 8 \<and> handleSubmit_start props st =
      (st\<lparr>ps_loading := True\<rparr>, map2 (\<lambda>key. Api_put (option_key_name key)) OPTION_KEYS texts)" by blast
  with n show ?thesis by simp
qed

subsection \<open>Loading what was saved\<close>









subsection \<open>Refinement of a map\<close>

text \<open>
  The abstract editor: a map from names to models, changed by the events. The name of the model in
  the form and the checked names are all it needs to know of the rest of the state.
\<close>

fun price_spec :: "jstring option \<Rightarrow> jstring set \<Rightarrow> pricing_event \<Rightarrow> (jstring \<rightharpoonup> pricing_model) \<Rightarrow> (jstring \<rightharpoonup> pricing_model)" where
  "price_spec (Some n) checked (Pe_numeric field v) M =
     (if NUMERIC_INPUT_REGEX v then M(n := map_option (edit_price field v) (M n)) else M)"
| "price_spec (Some n) checked (Pe_toggle field on) M =
     (if on then M else M(n := map_option (clear_field field) (M n)))"
| "price_spec (Some n) checked (Pe_billing mode) M = M(n := map_option (\<lambda>m. m\<lparr>pm_billingMode := mode\<rparr>) (M n))"
| "price_spec selected checked (Pe_add name) M =
     (if trim name = [] \<or> trim name \<in> dom M then M else M(trim name \<mapsto> EMPTY_MODEL\<lparr>pm_name := trim name\<rparr>))"
| "price_spec selected checked (Pe_delete name) M = M(name := None)"
| "price_spec (Some n) checked Pe_apply M =
     (\<lambda>k. if k \<in> checked then map_option (apply_prices (the (M n))) (M k) else M k)"
| "price_spec selected checked ev M = M"

lemma list_lookup_map_if:
  "\<forall>m. key (f m) = key m \<Longrightarrow>
   list_lookup key (map (\<lambda>m. if key m \<in> S then f m else m) ms) = (\<lambda>k. if k \<in> S then map_option f (list_lookup key ms k) else list_lookup key ms k)"
  by (induction ms) (auto simp: list_lookup_Cons fun_eq_iff)

lemma models_map_upsert:
  "\<forall>m. pm_name (f m) = pm_name m \<Longrightarrow>
   models_map (upsertModel n f st) = (models_map st)(n := map_option f (models_map st n))"
  by (simp add: upsertModel_def price_store.lookup_upsert)

lemma models_map_toggle:
  "models_map (handleOptionalFieldToggle props field on st) =
     price_spec (map_option pm_name (selectedModel props st)) S (Pe_toggle field on) (models_map st)"
proof (cases "selectedModel props st")
  case (Some a)
  have "ps_models (handleOptionalFieldToggle props field on st) =
      (if on then ps_models st else ps_models (upsertModel (pm_name a) (clear_field field) st))"
    by (simp add: handleOptionalFieldToggle_def Some Let_def updateOptionalFieldToggle_def upsertModel_def)
  then show ?thesis using models_map_upsert [of "clear_field field"] by (simp add: Some)
qed (simp add: handleOptionalFieldToggle_def)

lemma models_map_apply:
  assumes "distinct_keys pm_name (ps_models st)"
  shows "models_map (fst (fst (applySelectedModelPricing props st))) =
     price_spec (map_option pm_name (selectedModel props st)) (set (ps_selectedModelNames st)) Pe_apply (models_map st)"
proof (cases "selectedModel props st")
  case (Some a)
  have "models_map st (pm_name a) = Some a" using assms selectedModel_member [OF Some] by (rule list_lookup_member)
  then show ?thesis by (auto simp: applySelectedModelPricing_def Some Let_def list_lookup_map_if fun_eq_iff)
qed (simp add: applySelectedModelPricing_def)

text \<open>
  C22. The editor refines a map from names to models: in a state that satisfies the invariant, every
  event, together with the effects that follow it, changes the list of models the way the abstract
  editor changes the map.
\<close>

theorem editor_refines_map:
  assumes "pricing_inv props st"
  shows "models_map (pricing_settle props (fst (pricing_handle props ev st))) =
    price_spec (map_option pm_name (selectedModel props st)) (set (ps_selectedModelNames st)) ev (models_map st)"
proof (cases ev)
  case (Pe_numeric field v)
  then show ?thesis by (simp add: handleNumericFieldChange_def models_map_upsert split: option.split)
next
  case (Pe_toggle field on)
  then show ?thesis by (simp add: models_map_toggle)
next
  case (Pe_billing mode)
  then show ?thesis by (simp add: handleBillingModeChange_def models_map_upsert split: option.split)
next
  case (Pe_add name)
  then show ?thesis
    by (simp add: addModel_def Let_def list_ex_name dom_list_lookup price_store.lookup_add)
next
  case (Pe_delete name)
  then show ?thesis by (simp add: deleteModel_def Let_def price_store.lookup_remove)
next
  case Pe_apply
  have "distinct_keys pm_name (ps_models st)" using assms by (simp add: pricing_inv_def pricing_core_def)
  with Pe_apply show ?thesis by (simp add: models_map_apply)
qed (simp_all add: handleSubmit_start_def handleSubmit_finish_def split: sum.split)

theorem editor_refines_map_witness:
  "\<exists>st. ps_models st = [sample_loaded] \<and>
     models_map (pricing_settle sample_props (fst (pricing_handle sample_props (Pe_delete (js ''m'')) st))) = Map.empty"
proof -
  obtain st where st: "load sample_props initial_pricing_state = Inr st" "ps_models st = [sample_loaded]"
    using sample_load by blast
  have "pricing_inv sample_props (pricing_settle sample_props st)" by (rule settle_inv [OF load_core [OF st(1)]])
  from editor_refines_map [OF this, of "Pe_delete (js ''m'')"] st(2) show ?thesis
    by (intro exI [of _ "pricing_settle sample_props st"]) (simp add: list_lookup_Cons)
qed

subsection \<open>Pages\<close>

text \<open>
  The pages of the model list partition it: no page is longer than ten models, and the pages
  from the first to any page that reaches the end show every filtered model once, in order.
\<close>

theorem pages_partition:
  assumes "length (filteredModels props st) \<le> n * 10"
  shows "concat (map (\<lambda>p. pagedData props (st\<lparr>ps_currentPage := int p\<rparr>)) [1..<Suc n]) = filteredModels props st \<and>
    (\<forall>p. length (pagedData props (st\<lparr>ps_currentPage := p\<rparr>)) \<le> 10)"
proof
  have f: "filteredModels props (st\<lparr>ps_currentPage := p\<rparr>) = filteredModels props st" for p
    by (simp add: filteredModels_def visibleModels_def)
  let ?page = "\<lambda>p. pagedData props (st\<lparr>ps_currentPage := p\<rparr>)"
  have page: "?page p = js_slice ((p - 1) * 10) ((p - 1) * 10 + 10) (filteredModels props st)" for p
    by (simp add: pagedData_def f PAGE_SIZE_def Let_def)
  have "[1..<Suc n] = map Suc [0..<n]" by (simp only: map_Suc_upt One_nat_def)
  then have "map (\<lambda>p. ?page (int p)) [1..<Suc n] = map (\<lambda>i. ?page (int (Suc i))) [0..<n]"
    by (simp only: map_map comp_def)
  then show "concat (map (\<lambda>p. ?page (int p)) [1..<Suc n]) = filteredModels props st"
    using concat_pages [of 10 "filteredModels props st" n] assms by (simp add: page)
  have "int (length (?page p)) \<le> 10" for p
  proof -
    consider "1 \<le> p" | "p = 0" | "p < 0" by linarith
    then show ?thesis
    proof cases
      case 1
      then show ?thesis using length_js_slice [of "(p - 1) * 10" "(p - 1) * 10 + 10"] by (simp add: page)
    next
      case 2
      then show ?thesis by (simp add: page js_slice_def slice_pos_def)
    next
      case 3
      then show ?thesis using js_slice_length_neg [of "(p - 1) * 10" "(p - 1) * 10 + 10"] by (simp add: page)
    qed
  qed
  then show "\<forall>p. length (?page p) \<le> 10" by (metis of_nat_le_iff of_nat_numeral)
qed

definition sample_state :: pricing_state where
  "sample_state = initial_pricing_state\<lparr>ps_models := [sample_model, EMPTY_MODEL\<lparr>pm_name := js ''n''\<rparr>],
     ps_selectedModelName := js ''m'', ps_selectedModelNames := [js ''n'']\<rparr>"

theorem pages_partition_witness:
  "pagedData sample_props sample_state = filteredModels sample_props sample_state \<and>
   length (filteredModels sample_props sample_state) = 2"
proof -
  have f: "filteredModels sample_props sample_state = [sample_model, EMPTY_MODEL\<lparr>pm_name := js ''n''\<rparr>]"
    by (simp add: filteredModels_def visibleModels_def sample_props_def sample_state_def initial_pricing_state_def to_lower_def Let_def)
  have "sample_state\<lparr>ps_currentPage := 1\<rparr> = sample_state" by (simp add: sample_state_def initial_pricing_state_def)
  with pages_partition [of sample_props sample_state 1] f show ?thesis by simp
qed

subsection \<open>Copying prices\<close>

lemma apply_prices_price:
  "\<not> pm_completionRatioLocked m \<Longrightarrow> price_of (apply_prices a m) f = price_of a f"
  by (cases f) (simp_all add: apply_prices_def Let_def)

lemma apply_prices_sel [simp]:
  "pm_billingMode (apply_prices a m) = pm_billingMode a"
  "pm_completionRatioLocked (apply_prices a m) = pm_completionRatioLocked m"
  "pm_rawRatios (apply_prices a m) = pm_rawRatios m"
  "pm_lockedCompletionRatio (apply_prices a m) = pm_lockedCompletionRatio m"
  by (simp_all add: apply_prices_def Let_def)

lemma serialize_priced_cong:
  assumes "\<And>f. price_of m f = price_of a f" and "\<not> pm_completionRatioLocked m" and "\<not> pm_completionRatioLocked a"
  shows "serialize_priced m t p = Inr r \<longleftrightarrow> serialize_priced a t p = Inr r"
  using assms(2,3) unfolding serialize_priced_def assms(1) Let_def
  by (auto simp del: num_div.simps split: option.split)

text \<open>
  Copying prices to the checked models makes them save like the template: after a successful
  copy, every checked model without a locked completion ratio saves exactly the numbers the template
  saves, provided the template is billed per request or has an input price and no locked ratio; and
  the models that are not checked are unchanged.
\<close>

theorem applied_models_save_alike:
  assumes applied: "applySelectedModelPricing props st = ((st', effects), True)"
    and sel: "selectedModel props st = Some a"
    and template: "pm_billingMode a = Per_request \<or>
      toNumberOrNull (Text (pm_inputPrice a)) \<noteq> None \<and> \<not> pm_completionRatioLocked a"
  shows "(\<forall>m \<in> set (ps_models st'). pm_name m \<in> set (ps_selectedModelNames st) \<and> \<not> pm_completionRatioLocked m \<longrightarrow>
       (\<forall>result. serializeModel m t = Inr result \<longleftrightarrow> serializeModel a t = Inr result)) \<and>
    filter (\<lambda>m. pm_name m \<notin> set (ps_selectedModelNames st)) (ps_models st') =
      filter (\<lambda>m. pm_name m \<notin> set (ps_selectedModelNames st)) (ps_models st)"
proof -
  let ?S = "set (ps_selectedModelNames st)"
  have ms: "ps_models st' = map (\<lambda>m. if pm_name m \<in> ?S then apply_prices a m else m) (ps_models st)"
    using applied sel by (auto simp: applySelectedModelPricing_def Let_def split: if_splits)
  have alike: "serializeModel m t = Inr result \<longleftrightarrow> serializeModel a t = Inr result"
    if m: "m \<in> set (ps_models st')" "pm_name m \<in> ?S" "\<not> pm_completionRatioLocked m" for m result
  proof -
    obtain m0 where m0: "m = apply_prices a m0" using m(1,2) unfolding ms by (auto split: if_splits)
    have p: "price_of m f = price_of a f" for f using apply_prices_price m(3) by (simp add: m0)
    have i: "pm_inputPrice m = pm_inputPrice a" "pm_fixedPrice m = pm_fixedPrice a"
      using p [of F_inputPrice] p [of F_fixedPrice] by simp_all
    have b: "pm_billingMode m = pm_billingMode a" by (simp add: m0)
    show ?thesis
    proof (cases "pm_billingMode a")
      case Per_request
      then show ?thesis using b i by (simp add: serializeModel_def)
    next
      case Per_token
      then obtain n where n: "toNumberOrNull (Text (pm_inputPrice a)) = Some n" and l: "\<not> pm_completionRatioLocked a"
        using template by auto
      have "serialize_priced m t n = Inr result \<longleftrightarrow> serialize_priced a t n = Inr result"
        using p m(3) l by (rule serialize_priced_cong)
      then show ?thesis using Per_token b i n by (simp add: serializeModel_def)
    qed
  qed
  have rest: "filter (\<lambda>m. pm_name m \<notin> ?S) (map (\<lambda>m. if pm_name m \<in> ?S then apply_prices a m else m) xs) =
      filter (\<lambda>m. pm_name m \<notin> ?S) xs" for xs
    by (induction xs) auto
  show ?thesis
  proof (intro conjI ballI impI allI)
    show "filter (\<lambda>m. pm_name m \<notin> ?S) (ps_models st') = filter (\<lambda>m. pm_name m \<notin> ?S) (ps_models st)"
      by (simp only: ms rest)
  qed (use alike in blast)
qed

theorem applied_models_save_alike_witness:
  "\<exists>st' effects. applySelectedModelPricing sample_props sample_state = ((st', effects), True) \<and>
     (\<forall>m \<in> set (ps_models st'). \<exists>result. serializeModel m (\<lambda>key opts. key) = Inr result)"
proof -
  have sel: "selectedModel sample_props sample_state = Some sample_model"
    by (simp add: selectedModel_def visibleModels_def sample_props_def sample_state_def sample_model_def)
  have names: "ps_selectedModelNames sample_state = [js ''n'']"
    and models: "ps_models sample_state = [sample_model, EMPTY_MODEL\<lparr>pm_name := js ''n''\<rparr>]"
    and m: "pm_name sample_model = js ''m''"
    by (simp_all add: sample_state_def sample_model_def)
  obtain st' effects where a: "applySelectedModelPricing sample_props sample_state = ((st', effects), True)"
    by (simp add: applySelectedModelPricing_def sel names Let_def)
  have ms: "ps_models st' = [sample_model, apply_prices sample_model (EMPTY_MODEL\<lparr>pm_name := js ''n''\<rparr>)]"
    using a by (auto simp: applySelectedModelPricing_def sel names models m Let_def)
  have "\<forall>result. serializeModel (apply_prices sample_model (EMPTY_MODEL\<lparr>pm_name := js ''n''\<rparr>)) (\<lambda>key opts. key) = Inr result
      \<longleftrightarrow> serializeModel sample_model (\<lambda>key opts. key) = Inr result"
    using applied_models_save_alike [OF a sel, of "\<lambda>key opts. key"] unfolding ms
    by (simp add: sample_model_def sample_state_def EMPTY_MODEL_def sample_prices)
  with a ms sample_serialize show ?thesis by auto
qed

subsection \<open>Typed prices\<close>

text \<open>The value of a text of digits with at most one point.\<close>

definition typed_value :: "jstring \<Rightarrow> rat" where
  "typed_value s = (let ip = takeWhile is_digit s; fp = tl (dropWhile is_digit s) in
     of_nat (digits_val (ip @ fp)) / 10 ^ length fp)"

lemma typed_chars: "NUMERIC_INPUT_REGEX v \<Longrightarrow> \<forall>c \<in> set v. is_digit c \<or> c = 46"
proof
  fix c
  assume n: "NUMERIC_INPUT_REGEX v" and "c \<in> set v"
  then have "c \<in> set (takeWhile is_digit v) \<or> c \<in> set (dropWhile is_digit v)"
    by (metis UnE set_append takeWhile_dropWhile_id)
  with n show "is_digit c \<or> c = 46"
    by (cases "dropWhile is_digit v") (auto simp: NUMERIC_INPUT_REGEX_def Let_def list_all_iff dest: set_takeWhileD)
qed

lemma typed_dec:
  assumes "NUMERIC_INPUT_REGEX v" and "v \<noteq> []" and "v \<noteq> [46]"
  shows "str_dec v = Some (rnd (typed_value v))"
proof -
  define ip r where "ip = takeWhile is_digit v" and "r = dropWhile is_digit v"
  have v: "v = ip @ r" by (simp add: ip_def r_def)
  have d: "\<forall>c \<in> set ip. is_digit c" by (auto simp: ip_def dest: set_takeWhileD)
  have h: "hd v \<noteq> 45" "hd v \<noteq> 43" "hd v \<noteq> 73" "v = hd v # tl v"
    using typed_chars [OF assms(1)] assms(2) by (cases v; auto simp: is_digit_def)+
  have "str_udec v = Some (rnd (typed_value v))"
  proof (cases r)
    case Nil
    then have "dec_parts v = Some (ip, None, 0)" using dec_parts_plain [of ip "[]"] d v by simp
    moreover have "typed_value v = dec_value ip None 0"
      using Nil by (simp add: typed_value_def ip_def [symmetric] r_def [symmetric] dec_value_def frac_digits_def Let_def)
    moreover have "ip \<noteq> []" using v Nil assms(2) by simp
    moreover have "v \<noteq> js ''Infinity''" using h(3) by (auto simp: js_def)
    ultimately show ?thesis by (simp add: str_udec_def)
  next
    case (Cons c fp)
    then have c: "c = 46" "\<forall>x \<in> set fp. is_digit x"
      using assms(1) by (auto simp: NUMERIC_INPUT_REGEX_def r_def [symmetric] Let_def list_all_iff)
    then have "dec_parts v = Some (ip, Some fp, 0)" using dec_parts_point [of ip fp "[]"] d v Cons by simp
    moreover have "typed_value v = dec_value ip (Some fp) 0"
      using Cons by (simp add: typed_value_def ip_def [symmetric] r_def [symmetric] dec_value_def frac_digits_def Let_def
          power_int_minus divide_inverse)
    moreover have "ip \<noteq> [] \<or> fp \<noteq> []" using v Cons c assms(3) by auto
    moreover have "v \<noteq> js ''Infinity''" using h(3) by (auto simp: js_def)
    ultimately show ?thesis by (simp add: str_udec_def frac_digits_def)
  qed
  then show ?thesis using h by (auto simp: str_dec_def split: list.splits)
qed

lemma rnd_nonneg_cases:
  assumes "0 \<le> x"
  shows "rnd x = PosInf \<or> (\<exists>r \<ge> 0. rnd x = Num r)"
proof (cases "\<exists>r. rnd x = Num r")
  case True
  then show ?thesis using rnd_err [OF _ assms] by blast
next
  case False
  then show ?thesis using assms by (auto simp: rnd_def Let_def split: if_splits)
qed

text \<open>
  C25. What the price fields accept: an accepted text other than the empty text and a single point
  reads as the double nearest to the decimal it spells, which is never negative; it counts as no
  price exactly when it is empty, a single point, or too large for a double.
\<close>

theorem typed_price:
  assumes "NUMERIC_INPUT_REGEX v"
  shows "(toNumberOrNull (Text v) = None \<longleftrightarrow> v = [] \<or> v = [46] \<or> rnd (typed_value v) = PosInf) \<and>
    (\<forall>n. toNumberOrNull (Text v) = Some n \<longrightarrow> n = rnd (typed_value v) \<and> (\<exists>r \<ge> 0. n = Num r))"
proof (cases "v = [] \<or> v = [46]")
  case True
  have "str_dec [46] = None" by code_simp
  then have "string_to_number [46] = NaN"
    by (simp add: string_to_number_def trim_no_ws is_ws_def str_radix_def)
  then have "toNumberOrNull (Text v) = None" using True by (auto simp: toNumberOrNull_Text num_finite_def)
  then show ?thesis using True by auto
next
  case False
  have c: "\<forall>c \<in> set v. is_num_char c" using typed_chars [OF assms] by (auto simp: is_num_char_def)
  have t: "trim v = v" by (rule trim_no_ws) (use c num_char_not_ws in blast)
  have sv: "string_to_number v = rnd (typed_value v)"
    using typed_dec [OF assms] False str_radix_num_chars [OF c] by (simp add: string_to_number_def t Let_def)
  have pos: "0 \<le> typed_value v" by (simp add: typed_value_def Let_def)
  from rnd_nonneg_cases [OF pos] sv False show ?thesis by (auto simp: toNumberOrNull_Text num_finite_def)
qed

theorem typed_price_witness:
  "\<exists>r \<ge> 0. toNumberOrNull (Text (js ''2'')) = Some (Num r) \<and> rnd (typed_value (js ''2'')) = Num r"
proof -
  have "NUMERIC_INPUT_REGEX (js ''2'')" by code_simp
  from typed_price [OF this] sample_prices(3) show ?thesis by (intro exI [of _ 2]) auto
qed

end
