(* ===== verification/ChannelHelpers.thy ===== *)
theory ChannelHelpers
  imports JsJson
begin

text \<open>
  Small helpers around channels and tokens: fetching keys and the connection string that one
  installation copies and another pastes (\<open>helpers/token.js\<close>), the model lists of the upstream update
  check (\<open>upstreamUpdateUtils.js\<close>), and the readers of loosely typed settings (\<open>helpers/boolean.js\<close>,
  \<open>helpers/log.js\<close>). A call of the API is a parameter: it answers with a response, or rejects with
  an error.
\<close>

subsection \<open>Token keys\<close>

text \<open>\<open>const { success, data, message } = response.data || {}\<close>, then the property of \<open>data\<close> that is asked for.\<close>

definition key_of_response :: "jstring \<Rightarrow> jstring \<Rightarrow> jsval \<Rightarrow> jsval res" where
  "key_of_response field fallback response =
     rbind (get_prop response (js ''data'')) (\<lambda>body.
     let body = js_or body (JObj []); data = opt_prop body (js ''data'') in
     if \<not> truthy (opt_prop body (js ''success'')) \<or> \<not> truthy (opt_prop data field)
     then rbind (js_String (js_or (opt_prop body (js ''message'')) (JStr fallback))) (\<lambda>m. Inl (Error m))
     else Inr (opt_prop data field))"

definition fetchTokenKey :: "(jstring \<Rightarrow> jsval res) \<Rightarrow> jsval \<Rightarrow> jsval res" where
  "fetchTokenKey post tokenId =
     rbind (rbind (js_String tokenId) (\<lambda>i. post (js ''/api/token/'' @ i @ js ''/key''))) (key_of_response (js ''key'') (js ''Failed to fetch token key''))"

definition fetchTokenKeysBatch :: "(jstring \<Rightarrow> jsval \<Rightarrow> jsval res) \<Rightarrow> jsval list \<Rightarrow> jsval res" where
  "fetchTokenKeysBatch post tokenIds =
     rbind (post (js ''/api/token/batch/keys'') (JObj [(js ''ids'', JArr tokenIds)]))
       (key_of_response (js ''keys'') (js ''Failed to fetch token keys''))"

text \<open>\<open>Array.isArray(data) ? data : data.items || []\<close>; the items are tokens with a status and an id.\<close>

definition token_items :: "jsval \<Rightarrow> jsval list res" where
  "token_items data = (case data of
       JArr vs \<Rightarrow> Inr vs
     | _ \<Rightarrow> rbind (get_prop data (js ''items'')) (\<lambda>items.
         case js_or items (JArr []) of JArr vs \<Rightarrow> Inr vs | _ \<Rightarrow> Inl TypeError))"

fun active_ids :: "jsval list \<Rightarrow> jsval list res" where
  "active_ids [] = Inr []"
| "active_ids (token # tokens) =
     rbind (get_prop token (js ''status'')) (\<lambda>status.
     rbind (active_ids tokens) (\<lambda>ids.
       Inr (if status = JNum (Num 1) then opt_prop token (js ''id'') # ids else ids)))"

text \<open>\<open>Promise.allSettled\<close>: the keys of the calls that were fulfilled with a key; any error gives the empty list.\<close>

definition fetchTokenKeys :: "jsval res \<Rightarrow> (jstring \<Rightarrow> jsval res) \<Rightarrow> jsval list" where
  "fetchTokenKeys listed post =
     (case rbind listed (\<lambda>response.
            rbind (get_prop response (js ''data'')) (\<lambda>body.
            rbind (get_prop body (js ''success'')) (\<lambda>success.
              if \<not> truthy success then Inl (Error (js ''Failed to fetch token keys''))
              else rbind (token_items (opt_prop body (js ''data''))) active_ids))) of
        Inl _ \<Rightarrow> []
      | Inr ids \<Rightarrow>
          concat (map (\<lambda>tokenId. case fetchTokenKey post tokenId of
                          Inl _ \<Rightarrow> [] | Inr key \<Rightarrow> if truthy key then [key] else []) ids))"

text \<open>The stored status, if any, and the origin of the page.\<close>

definition getServerAddress :: "jstring option \<Rightarrow> jstring \<Rightarrow> jsval" where
  "getServerAddress status origin =
     (let serverAddress = (case status of
            None \<Rightarrow> JStr []
          | Some s \<Rightarrow>
              if s = [] then JStr []
              else (case json_parse s of
                      None \<Rightarrow> JStr []
                    | Some v \<Rightarrow> (case get_prop v (js ''server_address'') of Inl _ \<Rightarrow> JStr [] | Inr a \<Rightarrow> js_or a (JStr []))))
      in if truthy serverAddress then serverAddress else JStr origin)"

subsection \<open>Connection strings\<close>

definition CHANNEL_CONN_CLIPBOARD_TYPE :: jstring where
  "CHANNEL_CONN_CLIPBOARD_TYPE = js ''newapi_channel_conn''"

definition encodeChannelConnectionString :: "jstring \<Rightarrow> jstring \<Rightarrow> jstring" where
  "encodeChannelConnectionString key url =
     json_str (JObj [(js ''_type'', JStr CHANNEL_CONN_CLIPBOARD_TYPE), (js ''key'', JStr key), (js ''url'', JStr url)])"

definition parseChannelConnectionString :: "jstring \<Rightarrow> (jstring \<times> jstring) option" where
  "parseChannelConnectionString s =
     (if s = [] then None
      else (case json_parse (trim s) of
              None \<Rightarrow> None
            | Some parsed \<Rightarrow>
                if opt_prop parsed (js ''_type'') = JStr CHANNEL_CONN_CLIPBOARD_TYPE
                then (case (opt_prop parsed (js ''key''), opt_prop parsed (js ''url'')) of
                        (JStr key, JStr url) \<Rightarrow> Some (key, url)
                      | _ \<Rightarrow> None)
                else None))"

subsection \<open>Model lists and loosely typed values\<close>

definition normalizeModelList :: "jsval list \<Rightarrow> jstring list res" where
  "normalizeModelList models =
     rbind (res_list (map (\<lambda>model. js_String (js_or model (JStr []))) models)) (\<lambda>ss.
       Inr (js_set (filter (\<lambda>s. s \<noteq> []) (map trim ss))))"

record update_meta =
  um_enabled :: bool
  um_pendingAddModels :: "jstring list"
  um_pendingRemoveModels :: "jstring list"

text \<open>\<open>models || []\<close> with the default \<open>[]\<close> for \<open>undefined\<close>; anything but an array has no \<open>map\<close>.\<close>

definition model_list_arg :: "jsval \<Rightarrow> jsval list res" where
  "model_list_arg v = (case js_or v (JArr []) of JArr vs \<Rightarrow> Inr vs | _ \<Rightarrow> Inl TypeError)"

definition parseUpstreamUpdateMeta :: "jsval \<Rightarrow> update_meta res" where
  "parseUpstreamUpdateMeta settings =
     (let parsed = (case settings of
            JObj _ \<Rightarrow> settings
          | JArr _ \<Rightarrow> settings
          | JStr s \<Rightarrow> (case json_parse s of None \<Rightarrow> JNull | Some v \<Rightarrow> v)
          | _ \<Rightarrow> JNull);
          isObject = (case parsed of JObj _ \<Rightarrow> True | JArr _ \<Rightarrow> True | _ \<Rightarrow> False)
      in if \<not> isObject then Inr \<lparr>um_enabled = False, um_pendingAddModels = [], um_pendingRemoveModels = []\<rparr>
         else rbind (rbind (model_list_arg (opt_prop parsed (js ''upstream_model_update_last_detected_models''))) normalizeModelList) (\<lambda>added.
              rbind (rbind (model_list_arg (opt_prop parsed (js ''upstream_model_update_last_removed_models''))) normalizeModelList) (\<lambda>removed.
                Inr \<lparr>um_enabled = (opt_prop parsed (js ''upstream_model_update_check_enabled'') = JBool True),
                     um_pendingAddModels = added, um_pendingRemoveModels = removed\<rparr>)))"

definition toBoolean :: "jsval \<Rightarrow> bool" where
  "toBoolean v = (case v of
       JBool b \<Rightarrow> b
     | JNum n \<Rightarrow> n = Num 1
     | JStr s \<Rightarrow> to_lower s = js ''true'' \<or> to_lower s = js ''1''
     | _ \<Rightarrow> False)"

definition getLogOther :: "jsval \<Rightarrow> jsval res" where
  "getLogOther otherStr =
     (if otherStr = JUndef \<or> otherStr = JNull \<or> otherStr = JStr [] then Inr (JObj [])
      else (case otherStr of
              JObj _ \<Rightarrow> Inr otherStr
            | JArr _ \<Rightarrow> Inr otherStr
            | _ \<Rightarrow> rbind (js_String otherStr) (\<lambda>s. Inr (case json_parse s of Some v \<Rightarrow> v | None \<Rightarrow> JNull))))"

subsection \<open>Properties\<close>

lemma connection_wf: "json_wf (JObj [(js ''_type'', JStr CHANNEL_CONN_CLIPBOARD_TYPE), (js ''key'', JStr key), (js ''url'', JStr url)])"
  by (auto simp: array_index_def js_def is_digit_def intro!: obj_canon_names)

lemma trim_padded:
  assumes "\<forall>c \<in> set a. is_ws c" and "\<forall>c \<in> set b. is_ws c" and "trimmed s" and "s \<noteq> []"
  shows "trim (a @ s @ b) = s"
proof -
  have h: "\<not> is_ws (hd s)" "\<not> is_ws (last s)" using assms(3,4) by (auto simp: trimmed_def)
  have start: "dropWhile is_ws (a @ s @ b) = s @ b"
    using assms(1,4) h(1) by (simp add: dropWhile_append2) (cases s; simp)
  have "dropWhile is_ws (rev b @ rev s) = dropWhile is_ws (rev s)"
    using assms(2) by (intro dropWhile_append2) simp
  also have "\<dots> = rev s" using assms(4) h(2) by (cases s rule: rev_cases) simp_all
  finally have "dropWhile is_ws (rev b @ rev s) = rev s" .
  then show ?thesis by (simp add: trim_def trim_start_def trim_end_def start)
qed

lemma connection_trimmed:
  "trimmed (encodeChannelConnectionString key url) \<and> encodeChannelConnectionString key url \<noteq> []"
proof -
  obtain t where "encodeChannelConnectionString key url = 123 # t @ [125]"
    by (simp add: encodeChannelConnectionString_def json_props_def CHANNEL_CONN_CLIPBOARD_TYPE_def)
  then show ?thesis by (simp add: trimmed_def is_ws_def)
qed

text \<open>
  A copied connection string is recognised when it is pasted, also with white space around it:
  key and address come back as they were.
\<close>

theorem connection_roundtrip:
  assumes "\<forall>c \<in> set a. is_ws c" and "\<forall>c \<in> set b. is_ws c"
  shows "parseChannelConnectionString (a @ encodeChannelConnectionString key url @ b) = Some (key, url)"
proof -
  have t: "trim (a @ encodeChannelConnectionString key url @ b) = encodeChannelConnectionString key url"
    using trim_padded [OF assms] connection_trimmed by simp
  have "json_parse (encodeChannelConnectionString key url) =
      Some (JObj [(js ''_type'', JStr CHANNEL_CONN_CLIPBOARD_TYPE), (js ''key'', JStr key), (js ''url'', JStr url)])"
    unfolding encodeChannelConnectionString_def by (rule compact.dec_enc [OF connection_wf])
  then show ?thesis
    using connection_trimmed [of key url] by (simp add: parseChannelConnectionString_def t opt_prop_def get_prop_def get_own_def)
qed

theorem connection_roundtrip_witness:
  "parseChannelConnectionString ([32, 10] @ encodeChannelConnectionString (js ''sk-1'') (js ''https://a'') @ [10]) =
     Some (js ''sk-1'', js ''https://a'')"
  using connection_roundtrip [of "[32, 10]" "[10]" "js ''sk-1''" "js ''https://a''"] by (simp add: is_ws_def)

text \<open>The model lists hold trimmed names, none of them empty, each once.\<close>

lemma normalizeModelList_ok:
  assumes "normalizeModelList models = Inr names"
  shows "distinct names \<and> (\<forall>s \<in> set names. s \<noteq> [] \<and> trim s = s)"
  using assms by (auto simp: normalizeModelList_def rbind_Inr_iff)

text \<open>Normalising a normalised list changes nothing.\<close>

lemma normalizeModelList_idem:
  assumes "normalizeModelList models = Inr names"
  shows "normalizeModelList (map JStr names) = Inr names"
proof -
  have n: "distinct names" "\<forall>s \<in> set names. s \<noteq> [] \<and> trim s = s" using normalizeModelList_ok [OF assms] by auto
  have "map (\<lambda>model. js_String (js_or model (JStr []))) (map JStr names) = map Inr names"
    using n(2) by (simp add: js_or_def)
  moreover have "filter (\<lambda>s. s \<noteq> []) (map trim names) = names"
    using n(2) by (simp add: map_idI filter_id_conv)
  ultimately show ?thesis using n(1) unfolding normalizeModelList_def by (simp only: res_list_Inr rbind_simps js_set_distinct)
qed

end
