(* ===== verification/Playground.thy ===== *)
theory Playground
  imports JsJson
begin

text \<open>
  The chat playground: messages and the thoughts that models put into think tags
  (\<open>helpers/utils.jsx\<close>), and the request, model list and group list of the playground
  (\<open>helpers/api.js\<close>). Messages are JavaScript values as the server and the local storage deliver
  them; reading a property of \<open>null\<close> or \<open>undefined\<close> throws.
\<close>

subsection \<open>Searching and replacing substrings\<close>

text \<open>The text before and after the first occurrence of \<open>p\<close> (\<open>indexOf\<close> and \<open>substring\<close>).\<close>

fun split_first :: "jstring \<Rightarrow> jstring \<Rightarrow> (jstring \<times> jstring) option" where
  "split_first p s =
     (if starts_with s p then Some ([], drop (length p) s)
      else (case s of [] \<Rightarrow> None | c # r \<Rightarrow> map_option (\<lambda>(a, b). (c # a, b)) (split_first p r)))"

declare split_first.simps [simp del]

lemma split_first_SomeD: "split_first p s = Some (a, b) \<Longrightarrow> s = a @ p @ b"
  by (induction p s arbitrary: a b rule: split_first.induct)
     (subst (asm) (2) split_first.simps, auto simp: starts_with_iff split: if_splits list.splits)

lemma split_first_None_iff: "split_first p s = None \<longleftrightarrow> \<not> str_includes s p"
proof (induction p s rule: split_first.induct)
  case (1 p s)
  then show ?case by (subst split_first.simps) (auto simp: str_includes_iff starts_with_iff Cons_eq_append_conv split: list.splits)
qed

text \<open>The text before and after the last occurrence (\<open>lastIndexOf\<close>).\<close>

fun split_last :: "jstring \<Rightarrow> jstring \<Rightarrow> (jstring \<times> jstring) option" where
  "split_last p s = (case s of
       [] \<Rightarrow> if starts_with s p then Some ([], drop (length p) s) else None
     | c # r \<Rightarrow>
         (case split_last p r of
            Some (a, b) \<Rightarrow> Some (c # a, b)
          | None \<Rightarrow> if starts_with s p then Some ([], drop (length p) s) else None))"

declare split_last.simps [simp del]

subsection \<open>Think tags\<close>

definition THINK_OPEN :: jstring where
  "THINK_OPEN = js ''<think>''"

definition THINK_CLOSE :: jstring where
  "THINK_CLOSE = js ''</think>''"

definition THOUGHT_SEPARATOR :: jstring where
  "THOUGHT_SEPARATOR = [10, 10] @ js ''---'' @ [10, 10]"

text \<open>One match of \<open>THINK_TAG_REGEX = /<think>([\s\S]*?)<\/think>/g\<close>: text before, thought, rest.\<close>

definition THINK_TAG_REGEX :: "jstring \<Rightarrow> (jstring \<times> jstring \<times> jstring) option" where
  "THINK_TAG_REGEX s = (case split_first THINK_OPEN s of
       None \<Rightarrow> None
     | Some (before, r) \<Rightarrow>
         (case split_first THINK_CLOSE r of
            None \<Rightarrow> None
          | Some (thought, rest) \<Rightarrow> Some (before, thought, rest)))"

lemma THINK_TAG_REGEX_shorter: "THINK_TAG_REGEX s = Some (b, th, r) \<Longrightarrow> length r < length s"
  by (auto simp: THINK_TAG_REGEX_def THINK_OPEN_def dest!: split_first_SomeD split: option.splits)

text \<open>The loop over the matches: the reply parts and the thoughts.\<close>

function think_parts :: "jstring \<Rightarrow> jstring list \<times> jstring list" where
  "think_parts s = (case THINK_TAG_REGEX s of
       None \<Rightarrow> ([s], [])
     | Some (before, thought, rest) \<Rightarrow>
         (case think_parts rest of (replyParts, thoughts) \<Rightarrow> (before # replyParts, thought # thoughts)))"
  by pat_completeness auto
termination
  by (relation "measure length") (auto dest: THINK_TAG_REGEX_shorter)

declare think_parts.simps [simp del]

text \<open>\<open>s.replace(/<\/?think>/g, '')\<close>\<close>

function strip_tags :: "jstring \<Rightarrow> jstring" where
  "strip_tags s = (case s of
       [] \<Rightarrow> []
     | c # r \<Rightarrow>
         if starts_with s THINK_OPEN then strip_tags (drop (length THINK_OPEN) s)
         else if starts_with s THINK_CLOSE then strip_tags (drop (length THINK_CLOSE) s)
         else c # strip_tags r)"
  by pat_completeness auto
termination
  by (relation "measure length") (auto simp: THINK_OPEN_def THINK_CLOSE_def)

declare strip_tags.simps [simp del]

record processed =
  pr_content :: jstring
  pr_reasoningContent :: jstring

definition processThinkTags :: "jstring \<Rightarrow> jstring \<Rightarrow> processed" where
  "processThinkTags content reasoningContent =
     (if content = [] \<or> \<not> str_includes content THINK_OPEN
      then \<lparr>pr_content = content, pr_reasoningContent = reasoningContent\<rparr>
      else (let (replyParts, thoughts) = think_parts content;
                processedContent = trim (strip_tags (concat replyParts));
                thoughtsStr = join THOUGHT_SEPARATOR thoughts;
                processedReasoningContent =
                  (if reasoningContent \<noteq> [] \<and> thoughtsStr \<noteq> []
                   then reasoningContent @ THOUGHT_SEPARATOR @ thoughtsStr
                   else if reasoningContent \<noteq> [] then reasoningContent else thoughtsStr)
            in \<lparr>pr_content = processedContent, pr_reasoningContent = processedReasoningContent\<rparr>))"

definition processIncompleteThinkTags :: "jstring \<Rightarrow> jstring \<Rightarrow> processed" where
  "processIncompleteThinkTags content reasoningContent =
     (if content = [] then \<lparr>pr_content = [], pr_reasoningContent = reasoningContent\<rparr>
      else (case split_last THINK_OPEN content of
              None \<Rightarrow> processThinkTags content reasoningContent
            | Some (cleanContent, fragment) \<Rightarrow>
                if \<not> str_includes (THINK_OPEN @ fragment) THINK_CLOSE then
                  (let unclosedThought = trim fragment;
                       processedReasoningContent =
                         (if unclosedThought \<noteq> [] then
                            (if reasoningContent \<noteq> [] then reasoningContent @ THOUGHT_SEPARATOR @ unclosedThought
                             else unclosedThought)
                          else reasoningContent)
                   in processThinkTags cleanContent processedReasoningContent)
                else processThinkTags content reasoningContent))"

subsection \<open>Messages\<close>

definition generateMessageId :: "nat \<Rightarrow> jstring \<times> nat" where
  "generateMessageId messageId = (dec messageId, messageId + 1)"

text \<open>\<open>xs.find((item) => item.type === ty)\<close>\<close>

fun find_type :: "jstring \<Rightarrow> jsval list \<Rightarrow> jsval option res" where
  "find_type ty [] = Inr None"
| "find_type ty (item # items) =
     rbind (get_prop item (js ''type'')) (\<lambda>v. if v = JStr ty then Inr (Some item) else find_type ty items)"

definition getTextContent :: "jsval \<Rightarrow> jsval res" where
  "getTextContent message =
     (let content = opt_prop message (js ''content'') in
      if \<not> truthy message \<or> \<not> truthy content then Inr (JStr [])
      else (case content of
              JArr items \<Rightarrow> rbind (find_type (js ''text'') items) (\<lambda>textContent.
                Inr (js_or (case textContent of None \<Rightarrow> JUndef | Some item \<Rightarrow> opt_prop item (js ''text'')) (JStr [])))
            | JStr s \<Rightarrow> Inr (JStr s)
            | _ \<Rightarrow> Inr (JStr [])))"

text \<open>The pictures are texts; a missing entry is the empty text here.\<close>

definition buildMessageContent :: "jsval \<Rightarrow> jstring list \<Rightarrow> bool \<Rightarrow> jsval" where
  "buildMessageContent textContent imageUrls imageEnabled =
     (if \<not> truthy textContent \<and> imageUrls = [] then JStr []
      else (let validImageUrls = filter (\<lambda>url. url \<noteq> [] \<and> trim url \<noteq> []) imageUrls in
            if imageEnabled \<and> validImageUrls \<noteq> []
            then JArr (JObj [(js ''type'', JStr (js ''text'')), (js ''text'', js_or textContent (JStr []))] #
                   map (\<lambda>url. JObj [(js ''type'', JStr (js ''image_url'')),
                     (js ''image_url'', JObj [(js ''url'', JStr (trim url))])]) validImageUrls)
            else js_or textContent (JStr [])))"

definition createMessage :: "jsnum \<Rightarrow> jstring \<Rightarrow> jsval \<Rightarrow> jsobj \<Rightarrow> nat \<Rightarrow> jsval \<times> nat" where
  "createMessage now role content options messageId =
     (let (mid, messageId') = generateMessageId messageId in
      (JObj (obj_merge [(js ''role'', JStr role), (js ''content'', content), (js ''createAt'', JNum now), (js ''id'', JStr mid)] options),
       messageId'))"

definition createLoadingAssistantMessage :: "jsnum \<Rightarrow> nat \<Rightarrow> jsval \<times> nat" where
  "createLoadingAssistantMessage now messageId = createMessage now (js ''assistant'') (JStr [])
     [(js ''reasoningContent'', JStr []), (js ''isReasoningExpanded'', JBool True), (js ''isThinkingComplete'', JBool False),
      (js ''hasAutoCollapsed'', JBool False), (js ''status'', JStr (js ''loading''))] messageId"

text \<open>The callers use the result as a condition.\<close>

definition hasImageContent :: "jsval \<Rightarrow> bool res" where
  "hasImageContent message =
     (if \<not> truthy message then Inr False
      else (case opt_prop message (js ''content'') of
              JArr items \<Rightarrow> rbind (find_type (js ''image_url'') items) (\<lambda>r. Inr (r \<noteq> None))
            | _ \<Rightarrow> Inr False))"

definition formatMessageForAPI :: "jsval \<Rightarrow> jsval" where
  "formatMessageForAPI message =
     (if \<not> truthy message then JNull
      else JObj [(js ''role'', opt_prop message (js ''role'')), (js ''content'', opt_prop message (js ''content''))])"

definition isValidMessage :: "jsval \<Rightarrow> bool" where
  "isValidMessage message \<longleftrightarrow> truthy message \<and> truthy (opt_prop message (js ''role'')) \<and>
     (truthy (opt_prop message (js ''content'')) \<or> opt_prop message (js ''content'') = JStr [])"

text \<open>The loops from the last message to the first.\<close>

fun first_with_role :: "jstring \<Rightarrow> jsval list \<Rightarrow> jsval res" where
  "first_with_role role [] = Inr JNull"
| "first_with_role role (message # messages) =
     rbind (get_prop message (js ''role'')) (\<lambda>v. if v = JStr role then Inr message else first_with_role role messages)"

definition getLastUserMessage :: "jsval \<Rightarrow> jsval res" where
  "getLastUserMessage messages = (case messages of JArr ms \<Rightarrow> first_with_role (js ''user'') (rev ms) | _ \<Rightarrow> Inr JNull)"

definition getLastAssistantMessage :: "jsval \<Rightarrow> jsval res" where
  "getLastAssistantMessage messages = (case messages of JArr ms \<Rightarrow> first_with_role (js ''assistant'') (rev ms) | _ \<Rightarrow> Inr JNull)"

subsection \<open>The request\<close>

definition parameterMappings :: "(jstring \<times> jstring) list" where
  "parameterMappings = [(js ''temperature'', js ''temperature''), (js ''top_p'', js ''top_p''), (js ''max_tokens'', js ''max_tokens''),
     (js ''frequency_penalty'', js ''frequency_penalty''), (js ''presence_penalty'', js ''presence_penalty''), (js ''seed'', js ''seed''),
     (js ''videoDuration'', js ''video_duration''), (js ''videoAspectRatio'', js ''video_aspect_ratio''),
     (js ''videoResolution'', js ''video_resolution''), (js ''videoSeed'', js ''seed'')]"

definition parameter_set :: "jsobj \<Rightarrow> jsobj \<Rightarrow> jstring \<times> jstring \<Rightarrow> bool" where
  "parameter_set inputs parameterEnabled kp =
     (let v = get_own inputs (snd kp) in
      truthy (get_own parameterEnabled (fst kp)) \<and>
      (if snd kp = js ''max_tokens'' then (case v of JNum _ \<Rightarrow> True | _ \<Rightarrow> False) else \<not> nullish v))"

definition add_parameter :: "jsobj \<Rightarrow> jsobj \<Rightarrow> jsobj \<Rightarrow> jstring \<times> jstring \<Rightarrow> jsobj" where
  "add_parameter inputs parameterEnabled payload kp =
     set_if (parameter_set inputs parameterEnabled kp) (snd kp) (get_own inputs (snd kp)) payload"

definition request_messages :: "jsval list \<Rightarrow> jstring \<Rightarrow> jsval list" where
  "request_messages messages systemPrompt =
     (let processedMessages = filter truthy (map formatMessageForAPI (filter isValidMessage messages)) in
      if systemPrompt \<noteq> [] \<and> trim systemPrompt \<noteq> []
      then JObj [(js ''role'', JStr (js ''system'')), (js ''content'', JStr (trim systemPrompt))] # processedMessages
      else processedMessages)"

definition buildApiPayload :: "jsval list \<Rightarrow> jstring \<Rightarrow> jsobj \<Rightarrow> jsobj \<Rightarrow> jsobj" where
  "buildApiPayload messages systemPrompt inputs parameterEnabled =
     foldl (add_parameter inputs parameterEnabled)
       [(js ''model'', get_own inputs (js ''model'')), (js ''group'', get_own inputs (js ''group'')),
        (js ''messages'', JArr (request_messages messages systemPrompt)), (js ''stream'', get_own inputs (js ''stream''))]
       parameterMappings"

subsection \<open>Models and groups\<close>

definition js_chain :: "jsval list \<Rightarrow> jsval" where
  "js_chain vs = foldr js_nullish_or vs (JStr [])"

record model_option =
  mo_value :: jsval
  mo_label :: jsval
  mo_type :: jsnum

text \<open>An array is an object without these properties, whose other properties do not matter here.\<close>

definition normalizeModelItem :: "jsval \<Rightarrow> model_option res" where
  "normalizeModelItem model = (case model of
       JStr s \<Rightarrow> Inr \<lparr>mo_value = JStr s, mo_label = JStr s, mo_type = Num 1\<rparr>
     | JObj ob \<Rightarrow>
         rbind (js_Number (js_nullish_or (get_own ob (js ''model_type'')) (JNum (Num 1)))) (\<lambda>model_type.
         Inr \<lparr>mo_value = js_chain (map (get_own ob) [js ''value'', js ''model_name'', js ''name'', js ''model'']),
              mo_label = js_chain (map (get_own ob) [js ''label'', js ''model_name'', js ''name'', js ''model'']),
              mo_type = model_type\<rparr>)
     | JArr _ \<Rightarrow> Inr \<lparr>mo_value = JStr [], mo_label = JStr [], mo_type = Num 1\<rparr>
     | _ \<Rightarrow> Inr \<lparr>mo_value = JStr [], mo_label = JStr [], mo_type = Num 1\<rparr>)"

datatype model_kind = Kind_text | Kind_image | Kind_video

definition isMatchModelKind :: "jsnum \<Rightarrow> model_kind \<Rightarrow> bool" where
  "isMatchModelKind modelType modelKind =
     (case modelKind of Kind_image \<Rightarrow> modelType = Num 2 | Kind_video \<Rightarrow> modelType = Num 3 | Kind_text \<Rightarrow> modelType = Num 1)"

text \<open>\<open>Array.isArray(data) ? data : data?.items || data?.data || []\<close>, when that is an array.\<close>

definition model_source :: "jsval \<Rightarrow> jsval list res" where
  "model_source data = (case (case data of JArr _ \<Rightarrow> data
       | _ \<Rightarrow> js_or (opt_prop data (js ''items'')) (js_or (opt_prop data (js ''data'')) (JArr []))) of
       JArr vs \<Rightarrow> Inr vs
     | _ \<Rightarrow> Inl TypeError)"

text \<open>The options are pairs of label and value.\<close>

definition processModelsData :: "jsval \<Rightarrow> jstring \<Rightarrow> model_kind \<Rightarrow> ((jsval \<times> jsval) list \<times> jsval) res" where
  "processModelsData data currentModel modelKind =
     rbind (model_source data) (\<lambda>source.
     rbind (res_list (map normalizeModelItem source)) (\<lambda>models.
       let modelOptions = map (\<lambda>model. (mo_label model, mo_value model))
             (filter (\<lambda>model. isMatchModelKind (mo_type model) modelKind) (filter (\<lambda>model. truthy (mo_value model)) models));
           hasCurrentModel = list_ex (\<lambda>option. snd option = JStr currentModel) modelOptions
       in Inr (modelOptions,
            if hasCurrentModel \<and> modelOptions \<noteq> [] then JStr currentModel
            else (case modelOptions of [] \<Rightarrow> JUndef | option # _ \<Rightarrow> snd option))))"

text \<open>The description and the ratio of a group, as the server sends them.\<close>

record group_info =
  gi_desc :: jstring
  gi_ratio :: jsval

record group_option =
  go_label :: jstring
  go_value :: jstring
  go_ratio :: jsval
  go_fullLabel :: jstring

definition default_group :: group_option where
  "default_group = \<lparr>go_label = js ''default'', go_value = js ''default'', go_ratio = JNum (Num 1), go_fullLabel = js ''default''\<rparr>"

definition group_option_of :: "jstring \<times> group_info \<Rightarrow> group_option" where
  "group_option_of gi =
     (let group = fst gi; info = snd gi;
          normalizedGroup = (if group = [] then js ''default'' else group);
          normalizedLabel = (if normalizedGroup = js ''default'' then js ''default''
                             else if gi_desc info \<noteq> [] then gi_desc info else normalizedGroup)
      in \<lparr>go_label = (if length normalizedLabel > 20 then take 20 normalizedLabel @ js ''...'' else normalizedLabel),
          go_value = normalizedGroup, go_ratio = gi_ratio info, go_fullLabel = normalizedLabel\<rparr>)"

text \<open>The options of the groups, with the default group added in front when it is not among them.\<close>

definition base_groups :: "(jstring \<times> group_info) list \<Rightarrow> group_option list" where
  "base_groups data =
     (let groupOptions = map group_option_of data in
      if \<not> list_ex (\<lambda>g. go_value g = js ''default'') groupOptions then default_group # groupOptions else groupOptions)"

definition processGroupsData :: "(jstring \<times> group_info) list \<Rightarrow> jstring \<Rightarrow> group_option list" where
  "processGroupsData data userGroup =
     (let groupOptions = base_groups data in
      if groupOptions = [] then [default_group]
      else if userGroup \<noteq> [] then
        (case find_index (\<lambda>g. go_value g = userGroup) groupOptions of
           None \<Rightarrow> groupOptions
         | Some i \<Rightarrow> (groupOptions ! i) # remove_at i groupOptions)
      else groupOptions)"

subsection \<open>Tags do not overlap\<close>

definition is_tag :: "jstring \<Rightarrow> bool" where
  "is_tag p \<longleftrightarrow> (\<exists>q. p = 60 # q \<and> 60 \<notin> set q)"

lemma is_tag_think [simp]: "is_tag THINK_OPEN" "is_tag THINK_CLOSE"
  by (simp_all add: is_tag_def THINK_OPEN_def THINK_CLOSE_def js_def)

lemma think_not_Nil [simp]: "THINK_OPEN \<noteq> []" "THINK_CLOSE \<noteq> []"
  by (simp_all add: THINK_OPEN_def THINK_CLOSE_def)

text \<open>A tag that starts inside a text ends inside it when another tag follows.\<close>

lemma tag_no_overlap:
  assumes "is_tag p" and "is_tag p'" and "a \<noteq> []" and "starts_with (a @ p' @ b) p"
  shows "starts_with a p"
proof -
  obtain q q' where q: "p = 60 # q" "60 \<notin> set q" "p' = 60 # q'" using assms(1,2) by (auto simp: is_tag_def)
  obtain t where t: "a @ p' @ b = p @ t" using assms(4) by (auto simp: starts_with_iff)
  have "length p \<le> length a"
  proof (rule ccontr)
    assume "\<not> length p \<le> length a"
    then have l: "length a < length p" by simp
    have "(a @ p' @ b) ! length a = 60" using q(3) by (simp add: nth_append)
    then have "p ! length a = 60" using t l by (simp add: nth_append)
    moreover have "p ! length a \<in> set q" using l assms(3) q(1) by (cases a) auto
    ultimately show False using q(2) by simp
  qed
  then show ?thesis using t by (auto simp: starts_with_iff append_eq_append_conv2)
qed

lemma includes_suffix: "\<not> str_includes (c # s) p \<Longrightarrow> \<not> str_includes s p \<and> \<not> starts_with (c # s) p"
  by simp

lemma includes_skip:
  assumes "is_tag p" and "60 \<notin> set q"
  shows "str_includes (q @ b) p \<longleftrightarrow> str_includes b p"
  using assms(2)
proof (induction q)
  case (Cons c q)
  then have "\<not> starts_with (c # q @ b) p" using assms(1) by (auto simp: is_tag_def)
  with Cons show ?case by simp
qed simp

lemma split_first_append:
  assumes "is_tag p" and "\<not> str_includes a p"
  shows "split_first p (a @ p @ b) = Some (a, b)"
  using assms(2)
proof (induction a)
  case Nil
  then show ?case by (subst split_first.simps) (simp add: starts_with_iff)
next
  case (Cons c a)
  have n: "\<not> starts_with (c # a @ p @ b) p"
    using tag_no_overlap [OF assms(1) assms(1), of "c # a" b] includes_suffix [OF Cons.prems] by auto
  have "\<not> str_includes a p" using includes_suffix [OF Cons.prems] by simp
  with Cons.IH n show ?case by (subst split_first.simps) simp
qed

lemma split_last_None_iff: "split_last p s = None \<longleftrightarrow> \<not> str_includes s p"
proof (induction s)
  case (Cons c s)
  then show ?case
    by (subst split_last.simps) (auto simp: str_includes_iff starts_with_iff Cons_eq_append_conv split: option.splits)
qed (subst split_last.simps, auto simp: str_includes_iff starts_with_iff)

lemma split_last_append:
  assumes "is_tag p" and "\<not> str_includes b p"
  shows "split_last p (a @ p @ b) = Some (a, b)"
proof (induction a)
  case Nil
  obtain q where q: "p = 60 # q" "60 \<notin> set q" using assms(1) by (auto simp: is_tag_def)
  have "\<not> str_includes (q @ b) p" using includes_skip [OF assms(1) q(2)] assms(2) by simp
  then have "split_last p (q @ b) = None" by (simp add: split_last_None_iff)
  then show ?case by (subst split_last.simps) (simp add: q starts_with_iff)
next
  case (Cons c a)
  then show ?case by (subst split_last.simps) simp
qed

subsection \<open>Processing tagged texts\<close>

text \<open>A reply that is interrupted by thoughts in tags.\<close>

definition tagged :: "jstring \<Rightarrow> (jstring \<times> jstring) list \<Rightarrow> jstring" where
  "tagged reply xs = reply @ concat (map (\<lambda>(thought, more). THINK_OPEN @ thought @ THINK_CLOSE @ more) xs)"

definition replies :: "jstring \<Rightarrow> (jstring \<times> jstring) list \<Rightarrow> jstring" where
  "replies reply xs = reply @ concat (map snd xs)"

text \<open>No part of the reply holds a tag, also not across a thought, and no thought holds a closing tag.\<close>

definition well_tagged :: "jstring \<Rightarrow> (jstring \<times> jstring) list \<Rightarrow> bool" where
  "well_tagged reply xs \<longleftrightarrow> \<not> str_includes (replies reply xs) THINK_OPEN \<and> \<not> str_includes (replies reply xs) THINK_CLOSE \<and>
     (\<forall>(thought, more) \<in> set xs. \<not> str_includes thought THINK_CLOSE)"

lemma str_includes_append: "str_includes a p \<or> str_includes b p \<Longrightarrow> str_includes (a @ b) p"
  by (auto simp: str_includes_iff) (metis append.assoc)+

lemma think_parts_tagged:
  assumes "well_tagged reply xs"
  shows "think_parts (tagged reply xs) = (reply # map snd xs, map fst xs)"
  using assms
proof (induction xs arbitrary: reply)
  case Nil
  then have "split_first THINK_OPEN reply = None" by (simp add: well_tagged_def replies_def split_first_None_iff)
  then show ?case by (subst think_parts.simps) (simp add: tagged_def THINK_TAG_REGEX_def)
next
  case (Cons x xs)
  obtain thought more where x: "x = (thought, more)" by fastforce
  have r: "\<not> str_includes reply THINK_OPEN" "\<not> str_includes thought THINK_CLOSE"
    using Cons.prems str_includes_append [of reply THINK_OPEN] by (auto simp: well_tagged_def replies_def x)
  have "replies reply (x # xs) = reply @ replies more xs" by (simp add: replies_def x)
  then have w: "well_tagged more xs"
    using Cons.prems str_includes_append by (auto simp: well_tagged_def)
  have t: "tagged reply (x # xs) = reply @ THINK_OPEN @ thought @ THINK_CLOSE @ tagged more xs"
    by (simp add: tagged_def x)
  have "THINK_TAG_REGEX (tagged reply (x # xs)) = Some (reply, thought, tagged more xs)"
    using split_first_append [OF is_tag_think(1) r(1)] split_first_append [OF is_tag_think(2) r(2)]
    by (simp add: THINK_TAG_REGEX_def t)
  with Cons.IH [OF w] show ?case by (subst think_parts.simps) (simp add: x)
qed

lemma strip_tags_clean: "\<not> str_includes s THINK_OPEN \<Longrightarrow> \<not> str_includes s THINK_CLOSE \<Longrightarrow> strip_tags s = s"
proof (induction s)
  case (Cons c s)
  then have "strip_tags s = s" "\<not> starts_with (c # s) THINK_OPEN" "\<not> starts_with (c # s) THINK_CLOSE" by auto
  then show ?case by (subst strip_tags.simps) simp
qed (subst strip_tags.simps, simp)

lemma tagged_includes: "xs \<noteq> [] \<Longrightarrow> str_includes (tagged reply xs) THINK_OPEN"
proof (cases xs)
  case (Cons x ys)
  then have "tagged reply xs = reply @ THINK_OPEN @ fst x @ THINK_CLOSE @ tagged (snd x) ys"
    by (simp add: tagged_def split: prod.split)
  then show ?thesis unfolding str_includes_iff by blast
qed simp

text \<open>Two reasoning texts with the separator between them, when both are there.\<close>

definition add_reasoning :: "jstring \<Rightarrow> jstring \<Rightarrow> jstring" where
  "add_reasoning a b = (if a \<noteq> [] \<and> b \<noteq> [] then a @ THOUGHT_SEPARATOR @ b else if a \<noteq> [] then a else b)"

lemma think_tags_exact_raw:
  assumes "well_tagged reply xs" and "xs \<noteq> []"
  shows "processThinkTags (tagged reply xs) prior =
    \<lparr>pr_content = trim (replies reply xs),
     pr_reasoningContent = add_reasoning prior (join THOUGHT_SEPARATOR (map fst xs))\<rparr>"
proof -
  have "strip_tags (replies reply xs) = replies reply xs"
    using assms(1) by (intro strip_tags_clean) (simp_all add: well_tagged_def)
  then have "strip_tags (concat (reply # map snd xs)) = replies reply xs" by (simp add: replies_def)
  then show ?thesis
    using think_parts_tagged [OF assms(1)] tagged_includes [OF assms(2), of reply]
    by (auto simp: processThinkTags_def add_reasoning_def Let_def str_includes_iff)
qed

text \<open>
  Thoughts are separated from the reply: from a reply that is interrupted by closed think tags
  the playground shows exactly the reply, without the tags and trimmed, and exactly the thoughts, in
  order and behind the reasoning it already had.
\<close>

theorem think_tags_exact:
  assumes "well_tagged reply xs" and "xs \<noteq> []"
  shows "processThinkTags (tagged reply xs) prior =
    \<lparr>pr_content = trim (replies reply xs),
     pr_reasoningContent = add_reasoning prior (join THOUGHT_SEPARATOR (map fst xs))\<rparr>"
  using assms by (rule think_tags_exact_raw)

theorem think_tags_exact_witness:
  "processThinkTags (js ''<think>a</think>b<think>c</think>d'') [] =
    \<lparr>pr_content = js ''bd'', pr_reasoningContent = js ''a'' @ THOUGHT_SEPARATOR @ js ''c''\<rparr>"
proof -
  have "well_tagged [] [(js ''a'', js ''b''), (js ''c'', js ''d'')]" by code_simp
  from think_tags_exact [OF this, of "[]"] show ?thesis
    by (simp add: tagged_def replies_def add_reasoning_def js_def THINK_OPEN_def THINK_CLOSE_def THOUGHT_SEPARATOR_def
        trim_no_ws is_ws_def)
qed

text \<open>The part of a stream that has arrived: a text, an opening tag and the beginning of a thought.\<close>

lemma processIncomplete_unclosed:
  assumes "\<not> str_includes partial THINK_OPEN" and "\<not> str_includes partial THINK_CLOSE"
  shows "processIncompleteThinkTags (clean @ THINK_OPEN @ partial) prior =
    processThinkTags clean (add_reasoning prior (trim partial))"
proof -
  have "60 \<notin> set (tl THINK_OPEN)" "THINK_OPEN = 60 # tl THINK_OPEN" by (simp_all add: THINK_OPEN_def js_def)
  then have "str_includes (THINK_OPEN @ partial) THINK_CLOSE \<longleftrightarrow> starts_with (THINK_OPEN @ partial) THINK_CLOSE \<or>
      str_includes partial THINK_CLOSE"
    using includes_skip [of THINK_CLOSE "tl THINK_OPEN" partial] by (metis append_Cons is_tag_think(2) str_includes.simps(2))
  moreover have "\<not> starts_with (THINK_OPEN @ partial) THINK_CLOSE"
    by (simp add: THINK_OPEN_def THINK_CLOSE_def js_def)
  ultimately have "\<not> str_includes (THINK_OPEN @ partial) THINK_CLOSE" using assms(2) by simp
  then show ?thesis
    using split_last_append [OF is_tag_think(1) assms(1), of clean]
    by (simp add: processIncompleteThinkTags_def add_reasoning_def Let_def)
qed

lemma processThinkTags_content: "pr_content (processThinkTags content a) = pr_content (processThinkTags content b)"
  by (simp add: processThinkTags_def Let_def split: prod.split)

lemma join_snoc: "xs \<noteq> [] \<Longrightarrow> join sep (xs @ [x]) = join sep xs @ sep @ x"
  by (induction sep xs rule: join.induct) simp_all

lemma includes_before_close: "\<not> str_includes p THINK_OPEN \<Longrightarrow> \<not> str_includes (p @ THINK_CLOSE) THINK_OPEN"
proof (induction p)
  case (Cons c p)
  have "\<not> starts_with (c # p @ THINK_CLOSE) THINK_OPEN"
    using tag_no_overlap [OF is_tag_think, of "c # p" "[]"] Cons.prems by auto
  with Cons show ?case by simp
qed code_simp

text \<open>
  While a further thought is still streaming, its text never shows in the reply, which stays that
  of the closed part; but the unfinished thought is listed before the thoughts that were finished
  earlier, and moves behind them when its closing tag arrives.
\<close>

theorem streaming_thought_order:
  assumes closed: "well_tagged reply xs" "join THOUGHT_SEPARATOR (map fst xs) \<noteq> []"
    and partial: "\<not> str_includes partial THINK_OPEN" "\<not> str_includes partial THINK_CLOSE" "trim partial \<noteq> []"
  shows "pr_content (processIncompleteThinkTags (tagged reply xs @ THINK_OPEN @ partial) []) = trim (replies reply xs) \<and>
    pr_reasoningContent (processIncompleteThinkTags (tagged reply xs @ THINK_OPEN @ partial) []) =
      trim partial @ THOUGHT_SEPARATOR @ join THOUGHT_SEPARATOR (map fst xs) \<and>
    pr_reasoningContent (processIncompleteThinkTags (tagged reply xs @ THINK_OPEN @ partial @ THINK_CLOSE) []) =
      join THOUGHT_SEPARATOR (map fst xs) @ THOUGHT_SEPARATOR @ partial"
proof -
  have xs: "xs \<noteq> []" using closed(2) by (cases xs) auto
  have open': "processIncompleteThinkTags (tagged reply xs @ THINK_OPEN @ partial) [] = processThinkTags (tagged reply xs) (trim partial)"
    using processIncomplete_unclosed [OF partial(1,2)] by (simp add: add_reasoning_def)
  have w: "well_tagged reply (xs @ [(partial, [])])"
    using closed(1) partial(2) by (auto simp: well_tagged_def replies_def)
  have t: "tagged reply (xs @ [(partial, [])]) = tagged reply xs @ THINK_OPEN @ partial @ THINK_CLOSE" by (simp add: tagged_def)
  have "\<not> str_includes (partial @ THINK_CLOSE) THINK_OPEN" by (rule includes_before_close [OF partial(1)])
  then have last: "split_last THINK_OPEN (tagged reply xs @ THINK_OPEN @ partial @ THINK_CLOSE) = Some (tagged reply xs, partial @ THINK_CLOSE)"
    by (rule split_last_append [OF is_tag_think(1)])
  have "str_includes (THINK_OPEN @ partial @ THINK_CLOSE) THINK_CLOSE"
    unfolding str_includes_iff by (metis append.assoc append_Nil2)
  then have "processIncompleteThinkTags (tagged reply xs @ THINK_OPEN @ partial @ THINK_CLOSE) [] =
      processThinkTags (tagged reply (xs @ [(partial, [])])) []"
    using last by (simp add: processIncompleteThinkTags_def t)
  then show ?thesis
    using open' think_tags_exact_raw [OF closed(1) xs] think_tags_exact_raw [OF w] closed(2) partial(3) xs
    by (simp add: add_reasoning_def join_snoc)
qed

theorem streaming_thought_order_witness:
  "pr_reasoningContent (processIncompleteThinkTags (js ''<think>a</think>b<think>c'') []) = js ''c'' @ THOUGHT_SEPARATOR @ js ''a''"
proof -
  have w: "well_tagged [] [(js ''a'', js ''b'')]" by code_simp
  have p: "\<not> str_includes (js ''c'') THINK_OPEN" "\<not> str_includes (js ''c'') THINK_CLOSE" by code_simp+
  have t: "trim (js ''c'') = js ''c''" by (rule trim_no_ws) (simp add: js_def is_ws_def)
  have "tagged [] [(js ''a'', js ''b'')] @ THINK_OPEN @ js ''c'' = js ''<think>a</think>b<think>c''"
    by (simp add: tagged_def THINK_OPEN_def THINK_CLOSE_def js_def)
  with streaming_thought_order [OF w _ p] t show ?thesis by simp
qed

subsection \<open>Messages and requests\<close>

lemma find_type_texts:
  "find_type ty (map (\<lambda>url. JObj [(js ''type'', JStr ty'), f url]) urls) =
     Inr (if ty = ty' \<and> urls \<noteq> [] then Some (JObj [(js ''type'', JStr ty'), f (hd urls)]) else None)"
  by (induction urls) (auto simp: get_prop_def get_own_def)

lemma created_content:
  assumes "createMessage now role content [] messageId = (message, messageId')"
  shows "truthy message" and "opt_prop message (js ''content'') = content"
  using assms by (auto simp: createMessage_def generateMessageId_def obj_merge_def opt_prop_def get_prop_def get_own_def)

lemma created_text:
  assumes "createMessage now role (buildMessageContent (JStr textContent) imageUrls imageEnabled) [] messageId = (message, messageId')"
  shows "getTextContent message = Inr (JStr textContent) \<and>
    hasImageContent message = Inr (imageEnabled \<and> (\<exists>url \<in> set imageUrls. trim url \<noteq> []))"
proof -
  let ?urls = "filter (\<lambda>url. url \<noteq> [] \<and> trim url \<noteq> []) imageUrls"
  have u: "?urls \<noteq> [] \<longleftrightarrow> (\<exists>url \<in> set imageUrls. trim url \<noteq> [])"
    by (simp add: filter_empty_conv) (metis trim_Nil)
  note c = created_content [OF assms]
  show ?thesis
  proof (cases "imageEnabled \<and> ?urls \<noteq> []")
    case True
    then have b: "buildMessageContent (JStr textContent) imageUrls imageEnabled =
        JArr (JObj [(js ''type'', JStr (js ''text'')), (js ''text'', JStr textContent)] #
          map (\<lambda>url. JObj [(js ''type'', JStr (js ''image_url'')), (js ''image_url'', JObj [(js ''url'', JStr (trim url))])]) ?urls)"
      by (auto simp: buildMessageContent_def js_or_def Let_def)
    note cb = c(2) [unfolded b]
    have i: "hasImageContent message = Inr True"
      using True c(1) find_type_texts [of "js ''image_url''" "js ''image_url''" "\<lambda>url. (js ''image_url'', JObj [(js ''url'', JStr (trim url))])" ?urls]
      by (simp add: hasImageContent_def cb get_prop_def get_own_def)
    have "getTextContent message = Inr (JStr textContent)"
      using c(1) by (simp add: getTextContent_def cb get_prop_def get_own_def opt_prop_def [of "JObj _"] js_or_def Let_def)
    with i True show ?thesis unfolding u [symmetric] by simp
  next
    case False
    then have b: "buildMessageContent (JStr textContent) imageUrls imageEnabled = JStr textContent"
      by (auto simp: buildMessageContent_def js_or_def Let_def)
    with c False u show ?thesis by (auto simp: getTextContent_def hasImageContent_def Let_def)
  qed
qed

text \<open>
  A message shows the text it was built from: for a message created from a text and pictures the
  playground reads back the text, and the message counts as one with pictures exactly when pictures
  are enabled and one of the addresses is not blank.
\<close>

theorem message_text_roundtrip:
  assumes "createMessage now role (buildMessageContent (JStr textContent) imageUrls imageEnabled) [] messageId = (message, messageId')"
  shows "getTextContent message = Inr (JStr textContent) \<and>
    hasImageContent message = Inr (imageEnabled \<and> (\<exists>url \<in> set imageUrls. trim url \<noteq> []))"
  using assms by (rule created_text)

theorem message_text_roundtrip_witness:
  "\<exists>message. createMessage (Num 0) (js ''user'') (buildMessageContent (JStr (js ''hi'')) [js ''u''] True) [] 4 = (message, 5) \<and>
     getTextContent message = Inr (JStr (js ''hi'')) \<and> hasImageContent message = Inr True"
proof -
  obtain message where m: "createMessage (Num 0) (js ''user'') (buildMessageContent (JStr (js ''hi'')) [js ''u''] True) [] 4 = (message, 5)"
    by (simp add: createMessage_def generateMessageId_def)
  have "trim (js ''u'') \<noteq> []" by (simp add: trim_eq_Nil_iff js_def is_ws_def)
  with message_text_roundtrip [OF m] m show ?thesis by simp
qed

lemma add_parameters_get:
  "get_own (foldl (add_parameter inputs enabled) payload kps) p =
     (if \<exists>key. (key, p) \<in> set kps \<and> parameter_set inputs enabled (key, p) then get_own inputs p else get_own payload p)"
  by (induction kps arbitrary: payload) (auto simp: add_parameter_def)

text \<open>
  The request holds exactly what was asked for: the messages are the trimmed system prompt, when
  there is one, and the role and content of the valid messages in order; model, group and stream are
  those of the form; a parameter is sent with the value of the form exactly when a switch that maps
  to it is on and the value is there (a number, for the token limit); nothing else is sent.
\<close>

theorem payload_exact:
  "get_own (buildApiPayload messages systemPrompt inputs enabled) p =
     (if p = js ''messages'' then JArr ((if trim systemPrompt \<noteq> []
          then [JObj [(js ''role'', JStr (js ''system'')), (js ''content'', JStr (trim systemPrompt))]] else []) @
          map formatMessageForAPI (filter isValidMessage messages))
      else if p \<in> {js ''model'', js ''group'', js ''stream''} then get_own inputs p
      else if \<exists>key. (key, p) \<in> set parameterMappings \<and> truthy (get_own enabled key) \<and>
          (if p = js ''max_tokens'' then \<exists>n. get_own inputs p = JNum n else \<not> nullish (get_own inputs p))
        then get_own inputs p
      else JUndef)"
proof -
  have f: "filter truthy (map formatMessageForAPI (filter isValidMessage ms)) = map formatMessageForAPI (filter isValidMessage ms)" for ms
    by (induction ms) (auto simp: formatMessageForAPI_def isValidMessage_def)
  have fixed: "p \<in> {js ''messages'', js ''model'', js ''group'', js ''stream''} \<Longrightarrow> (key, p) \<notin> set parameterMappings" for key
    by (auto simp: parameterMappings_def)
  have set: "parameter_set inputs enabled (key, p) \<longleftrightarrow> truthy (get_own enabled key) \<and>
      (if p = js ''max_tokens'' then \<exists>n. get_own inputs p = JNum n else \<not> nullish (get_own inputs p))" for key
    by (auto simp: parameter_set_def Let_def split: jsval.splits)
  show ?thesis
    unfolding buildApiPayload_def add_parameters_get set
    using fixed by (auto simp: get_own_def request_messages_def f Let_def)
qed

subsection \<open>Groups\<close>

text \<open>The group list always offers the default group, and the group of the user comes first when it is offered.\<close>

lemma base_groups_default: "\<exists>g \<in> set (base_groups data). go_value g = js ''default''"
  by (auto simp: base_groups_def default_group_def list_ex_iff Let_def)

lemma base_groups_not_Nil: "base_groups data \<noteq> []"
  using base_groups_default [of data] by auto

lemma groups_permutation: "mset (processGroupsData data userGroup) = mset (base_groups data)"
proof (cases "find_index (\<lambda>g. go_value g = userGroup) (base_groups data)")
  case (Some i)
  then have "i < length (base_groups data)" using find_index_SomeD by blast
  from mset_remove_at [OF this] Some show ?thesis by (simp add: processGroupsData_def base_groups_not_Nil Let_def)
qed (simp add: processGroupsData_def base_groups_not_Nil Let_def)

lemma groups_default: "\<exists>g \<in> set (processGroupsData data userGroup). go_value g = js ''default''"
  using base_groups_default mset_eq_setD [OF groups_permutation] by simp

lemma groups_user_first:
  assumes "userGroup \<noteq> []" and "userGroup \<in> fst ` set data"
  shows "go_value (hd (processGroupsData data userGroup)) = userGroup"
proof -
  obtain info where d: "(userGroup, info) \<in> set data" using assms(2) by auto
  have "go_value (group_option_of (userGroup, info)) = userGroup"
    using assms(1) by (simp add: group_option_of_def Let_def)
  moreover have "group_option_of (userGroup, info) \<in> set (base_groups data)"
    using imageI [OF d, of group_option_of] by (auto simp: base_groups_def Let_def)
  ultimately have "find_index (\<lambda>g. go_value g = userGroup) (base_groups data) \<noteq> None"
    unfolding find_index_None_iff by blast
  then obtain i where i: "find_index (\<lambda>g. go_value g = userGroup) (base_groups data) = Some i" by auto
  with find_index_SomeD [OF i] assms(1) show ?thesis by (simp add: processGroupsData_def base_groups_not_Nil Let_def)
qed

end
