(* ===== verification/PlaygroundStream.thy ===== *)
theory PlaygroundStream
  imports Playground
begin

text \<open>
  The requests of the chat playground (\<open>hooks/playground/useApiRequest.jsx\<close> and \<open>handleApiError\<close> of
  \<open>helpers/api.js\<close>): a reply that streams in, a reply in one piece, the errors of both, and the stop
  button. The messages are objects. The functions passed to \<open>setMessage\<close> run in the order in which the
  code queues them; an exception that escapes a handler or such a function is the result \<open>Inl\<close>.
  The server, the SSE library and the user are the events of \<open>api_step\<close>, and nothing is assumed about their
  order: an event may also arrive after its connection was closed.
\<close>

subsection \<open>Operators on loosely typed values\<close>

definition js_and :: "jsval \<Rightarrow> jsval \<Rightarrow> jsval" where
  "js_and a b = (if truthy a then b else a)"

text \<open>\<open>a + b\<close>: numbers add when neither operand is a string or an object, otherwise texts are joined.\<close>

fun adds_as_number :: "jsval \<Rightarrow> bool" where
  "adds_as_number (JStr _) = False"
| "adds_as_number (JArr _) = False"
| "adds_as_number (JObj _) = False"
| "adds_as_number _ = True"

definition js_add :: "jsval \<Rightarrow> jsval \<Rightarrow> jsval res" where
  "js_add a b =
     (if adds_as_number a \<and> adds_as_number b
      then rbind (js_Number a) (\<lambda>x. rbind (js_Number b) (\<lambda>y. Inr (JNum (num_add x y))))
      else rbind (js_String a) (\<lambda>x. rbind (js_String b) (\<lambda>y. Inr (JStr (x @ y)))))"

text \<open>The number of matches of \<open>s.match(/p/g)\<close> for a text \<open>p\<close> that is not empty.\<close>

function count_matches :: "jstring \<Rightarrow> jstring \<Rightarrow> nat" where
  "count_matches p s = (case s of
       [] \<Rightarrow> 0
     | c # r \<Rightarrow> if p \<noteq> [] \<and> starts_with s p then Suc (count_matches p (drop (length p) s)) else count_matches p r)"
  by pat_completeness auto
termination
  by (relation "measure (\<lambda>(p, s). length s)") auto

declare count_matches.simps [simp del]

subsection \<open>Messages\<close>

type_synonym message = jsobj

datatype message_status = LOADING | INCOMPLETE | COMPLETE | ERROR

fun MESSAGE_STATUS :: "message_status \<Rightarrow> jstring" where
  "MESSAGE_STATUS LOADING = js ''loading''"
| "MESSAGE_STATUS INCOMPLETE = js ''incomplete''"
| "MESSAGE_STATUS COMPLETE = js ''complete''"
| "MESSAGE_STATUS ERROR = js ''error''"

definition has_status :: "message \<Rightarrow> message_status \<Rightarrow> bool" where
  "has_status m st \<longleftrightarrow> get_own m (js ''status'') = JStr (MESSAGE_STATUS st)"

text \<open>\<open>{...message, status, ...}\<close>\<close>

definition put_status :: "message_status \<Rightarrow> message \<Rightarrow> message" where
  "put_status st m = obj_set (js ''status'') (JStr (MESSAGE_STATUS st)) m"

definition generating :: "message \<Rightarrow> bool" where
  "generating m \<longleftrightarrow> has_status m LOADING \<or> has_status m INCOMPLETE"

definition finished :: "message \<Rightarrow> bool" where
  "finished m \<longleftrightarrow> has_status m COMPLETE \<or> has_status m ERROR"

text \<open>
  The fields that close the reasoning panel once, when thinking is complete. The argument
  \<open>isThinkingComplete\<close> has the default \<open>true\<close>, which \<open>undefined\<close> selects.
\<close>

definition applyAutoCollapseLogic :: "message \<Rightarrow> jsval \<Rightarrow> jsobj" where
  "applyAutoCollapseLogic m arg =
     (let isThinkingComplete = (if arg = JUndef then JBool True else arg);
          hasAutoCollapsed = get_own m (js ''hasAutoCollapsed'');
          shouldAutoCollapse = js_and isThinkingComplete (JBool (\<not> truthy hasAutoCollapsed))
      in [(js ''isThinkingComplete'', isThinkingComplete),
          (js ''hasAutoCollapsed'', js_or shouldAutoCollapse hasAutoCollapsed),
          (js ''isReasoningExpanded'',
             if truthy shouldAutoCollapse then JBool False else get_own m (js ''isReasoningExpanded''))])"

subsection \<open>Streaming into the last message\<close>

datatype chunk_type = Chunk_reasoning | Chunk_content

definition reasoning_chunk :: "jsval \<Rightarrow> message \<Rightarrow> message res" where
  "reasoning_chunk textChunk lastMessage =
     rbind (js_add (js_or (get_own lastMessage (js ''reasoningContent'')) (JStr [])) textChunk) (\<lambda>reasoningContent.
       Inr (obj_set (js ''isThinkingComplete'') (JBool False)
         (put_status INCOMPLETE (obj_set (js ''reasoningContent'') reasoningContent lastMessage))))"

text \<open>Whether the text has as many closing as opening think tags, and at least one of each.\<close>

definition think_closed :: "jsval \<Rightarrow> bool res" where
  "think_closed newContent = (case newContent of
       JStr s \<Rightarrow> Inr (str_includes s THINK_CLOSE \<and> count_matches THINK_OPEN s > 0 \<and> count_matches THINK_CLOSE s > 0 \<and>
                       count_matches THINK_CLOSE s \<ge> count_matches THINK_OPEN s)
     | _ \<Rightarrow> Inl TypeError)"

definition content_chunk :: "jsval \<Rightarrow> message \<Rightarrow> message res" where
  "content_chunk textChunk lastMessage =
     (let reasoningContent = get_own lastMessage (js ''reasoningContent'');
          wasComplete = get_own lastMessage (js ''isThinkingComplete'') in
      rbind (js_add (js_or (get_own lastMessage (js ''content'')) (JStr [])) textChunk) (\<lambda>newContent.
      rbind (if truthy (get_own lastMessage (js ''isReasoningExpanded'')) then think_closed newContent else Inr False) (\<lambda>closed.
        let thinkingCompleteFromTags = (if closed then JBool True else wasComplete);
            isThinkingComplete = js_or (js_and reasoningContent (JBool (\<not> truthy wasComplete))) thinkingCompleteFromTags
        in Inr (obj_merge (put_status INCOMPLETE (obj_set (js ''content'') newContent lastMessage))
                  (applyAutoCollapseLogic lastMessage isThinkingComplete)))))"

definition streamMessageUpdate :: "jsval \<Rightarrow> chunk_type \<Rightarrow> message list \<Rightarrow> message list res" where
  "streamMessageUpdate textChunk type prevMessage =
     (if prevMessage = [] then Inr prevMessage
      else (let lastMessage = last prevMessage in
            if get_own lastMessage (js ''role'') \<noteq> JStr (js ''assistant'') then Inr prevMessage
            else if has_status lastMessage ERROR then Inr prevMessage
            else if has_status lastMessage LOADING \<or> has_status lastMessage INCOMPLETE then
              rbind (case type of Chunk_reasoning \<Rightarrow> reasoning_chunk textChunk lastMessage
                                | Chunk_content \<Rightarrow> content_chunk textChunk lastMessage) (\<lambda>newMessage.
                Inr (butlast prevMessage @ [newMessage]))
            else Inr prevMessage))"

subsection \<open>The state of the hook\<close>

datatype debug_tab = TAB_PREVIEW | TAB_REQUEST | TAB_RESPONSE

text \<open>\<open>None\<close> is \<open>null\<close> (or, for \<open>isStreaming\<close> and \<open>sseMessages\<close> before the first request, \<open>undefined\<close>).\<close>

record debug_data =
  dd_request :: jsval
  dd_response :: "jstring option"
  dd_timestamp :: "jstring option"
  dd_sseMessages :: "jstring list option"
  dd_isStreaming :: "bool option"

text \<open>The local variables of one call of \<open>handleSSE\<close>, and whether its source was closed by the page.\<close>

record sse_stream =
  st_responseData :: jstring
  st_hasReceivedFirstResponse :: bool
  st_isStreamComplete :: bool
  st_closed :: bool

text \<open>
  The messages, the debug panel, \<open>sseSourceRef.current\<close> as the number of a stream, the streams opened so
  far, the bodies posted so far and whether they ask for a stream, and the lists handed to \<open>saveMessages\<close> by \<open>setTimeout\<close>.
\<close>

record chat =
  ch_message :: "message list"
  ch_debug :: debug_data
  ch_tab :: debug_tab
  ch_sse :: "nat option"
  ch_streams :: "sse_stream list"
  ch_posts :: "(jstring \<times> bool) list"
  ch_saves :: "message list list"

text \<open>The translation function, the clock, the stack of an error, and the engine's error texts.\<close>

record api_env =
  ae_t :: i18n
  ae_now :: jstring
  ae_stack :: jstring
  ae_typeErrorMessage :: jstring
  ae_syntaxErrorMessage :: "jstring \<Rightarrow> jstring"

definition api_exn_message :: "api_env \<Rightarrow> exn \<Rightarrow> jstring" where
  "api_exn_message env e = (case e of TypeError \<Rightarrow> ae_typeErrorMessage env | Error m \<Rightarrow> m)"

definition set_message :: "(message list \<Rightarrow> message list res) \<Rightarrow> chat \<Rightarrow> chat res" where
  "set_message f s = rbind (f (ch_message s)) (\<lambda>ms. Inr (s\<lparr>ch_message := ms\<rparr>))"

definition set_response :: "jstring \<Rightarrow> chat \<Rightarrow> chat" where
  "set_response r s = s\<lparr>ch_debug := (ch_debug s)\<lparr>dd_response := Some r\<rparr>, ch_tab := TAB_RESPONSE\<rparr>"

definition add_sse_message :: "jstring \<Rightarrow> chat \<Rightarrow> chat" where
  "add_sse_message data s = s\<lparr>ch_debug := (ch_debug s)\<lparr>dd_sseMessages :=
     Some ((case dd_sseMessages (ch_debug s) of None \<Rightarrow> [] | Some ds \<Rightarrow> ds) @ [data])\<rparr>\<rparr>"

definition set_streaming :: "bool \<Rightarrow> chat \<Rightarrow> chat" where
  "set_streaming v s = s\<lparr>ch_debug := (ch_debug s)\<lparr>dd_isStreaming := Some v\<rparr>\<rparr>"

definition update_stream :: "nat \<Rightarrow> (sse_stream \<Rightarrow> sse_stream) \<Rightarrow> chat \<Rightarrow> chat" where
  "update_stream i f s = s\<lparr>ch_streams := (ch_streams s)[i := f (ch_streams s ! i)]\<rparr>"

definition close_source :: "nat \<Rightarrow> chat \<Rightarrow> chat" where
  "close_source i s = update_stream i (\<lambda>st. st\<lparr>st_closed := True\<rparr>) s"

definition completeMessage :: "message_status \<Rightarrow> chat \<Rightarrow> chat res" where
  "completeMessage status s =
     (let prevMessage = ch_message s in
      if prevMessage = [] then Inl TypeError
      else (let lastMessage = last prevMessage in
            if has_status lastMessage COMPLETE \<or> has_status lastMessage ERROR then Inr s
            else (let updatedMessages = butlast prevMessage @
                        [obj_merge (put_status status lastMessage) (applyAutoCollapseLogic lastMessage (JBool True))];
                      s' = s\<lparr>ch_message := updatedMessages\<rparr>
                  in Inr (if status = COMPLETE \<or> status = ERROR
                          then s'\<lparr>ch_saves := ch_saves s @ [updatedMessages]\<rparr> else s'))))"

subsection \<open>Errors\<close>

definition MSG_unknown_error :: jstring where "MSG_unknown_error = [0x672A, 0x77E5, 0x9519, 0x8BEF]"
definition MSG_bad_status :: jstring where "MSG_bad_status = [0x670D, 0x52A1, 0x5668, 0x8FD4, 0x56DE, 0x4E86, 0x9519, 0x8BEF, 0x72B6, 0x6001, 0x7801]"
definition MSG_no_network :: jstring where "MSG_no_network = [0x7F51, 0x7EDC, 0x8FDE, 0x63A5, 0x5931, 0x8D25, 0x6216, 0x670D, 0x52A1, 0x5668, 0x65E0, 0x54CD, 0x5E94]"
definition MSG_no_body :: jstring where "MSG_no_body = [0x65E0, 0x6CD5, 0x8BFB, 0x53D6, 0x9519, 0x8BEF, 0x54CD, 0x5E94, 0x4F53]"
definition MSG_request_error :: jstring where "MSG_request_error = [0x8BF7, 0x6C42, 0x53D1, 0x751F, 0x9519, 0x8BEF]"
definition MSG_request_error_colon :: jstring where "MSG_request_error_colon = [0x8BF7, 0x6C42, 0x53D1, 0x751F, 0x9519, 0x8BEF] @ js '': ''"
definition MSG_parse_error :: jstring where "MSG_parse_error = [0x89E3, 0x6790, 0x9519, 0x8BEF] @ js '': ''"
definition MSG_parse_failed :: jstring where "MSG_parse_failed = [0x89E3, 0x6790, 0x54CD, 0x5E94, 0x6570, 0x636E, 0x65F6, 0x53D1, 0x751F, 0x9519, 0x8BEF]"
definition MSG_http_state :: jstring where "MSG_http_state = js ''HTTP'' @ [0x72B6, 0x6001, 0x9519, 0x8BEF]"
definition MSG_disconnected :: jstring where "MSG_disconnected = [0x8FDE, 0x63A5, 0x5DF2, 0x65AD, 0x5F00]"
definition MSG_start_failed :: jstring where "MSG_start_failed = js ''Stream'' @ [0x542F, 0x52A8, 0x5931, 0x8D25] @ js '':''"
definition MSG_connect_failed :: jstring where "MSG_connect_failed = [0x5EFA, 0x7ACB, 0x8FDE, 0x63A5, 0x65F6, 0x53D1, 0x751F, 0x9519, 0x8BEF]"

text \<open>The message of the error, and the status and status text of the response, if there is one.\<close>

definition handleApiError :: "api_env \<Rightarrow> jstring \<Rightarrow> (int \<times> jstring) option \<Rightarrow> jsobj" where
  "handleApiError env message response =
     (let errorInfo = [(js ''error'', JStr (if message \<noteq> [] then message else MSG_unknown_error)),
            (js ''timestamp'', JStr (ae_now env)), (js ''stack'', JStr (ae_stack env))];
          errorInfo = (case response of
              None \<Rightarrow> errorInfo
            | Some (status, statusText) \<Rightarrow>
                obj_set (js ''statusText'') (JStr statusText) (obj_set (js ''status'') (JNum (Num (of_int status))) errorInfo))
      in if str_includes message (js ''HTTP error'') then obj_set (js ''details'') (JStr MSG_bad_status) errorInfo
         else if str_includes message (js ''Failed to fetch'') then obj_set (js ''details'') (JStr MSG_no_network) errorInfo
         else errorInfo)"

subsection \<open>A reply in one piece\<close>

text \<open>\<open>processThinkTags\<close> on the values of a response: only a text can hold tags, and an array only as an element.\<close>

definition processThinkTags_val :: "jsval \<Rightarrow> jsval \<Rightarrow> (jsval \<times> jsval) res" where
  "processThinkTags_val content reasoningContent =
     (if \<not> truthy content then Inr (content, reasoningContent)
      else (case content of
              JStr s \<Rightarrow>
                if \<not> str_includes s THINK_OPEN then Inr (content, reasoningContent)
                else (let processed = processThinkTags s []; thoughtsStr = pr_reasoningContent processed in
                      rbind (if truthy reasoningContent \<and> thoughtsStr \<noteq> []
                             then rbind (js_String reasoningContent) (\<lambda>r. Inr (JStr (r @ THOUGHT_SEPARATOR @ thoughtsStr)))
                             else Inr (js_or reasoningContent (JStr thoughtsStr))) (\<lambda>processedReasoningContent.
                        Inr (JStr (pr_content processed), processedReasoningContent)))
            | JArr vs \<Rightarrow> if JStr THINK_OPEN \<in> set vs then Inl TypeError else Inr (content, reasoningContent)
            | _ \<Rightarrow> Inl TypeError))"

text \<open>What the server answers: no answer, an error status with a body that may be unreadable, or a body that is JSON or not.\<close>

datatype fetch_result =
    Fetch_failed jstring
  | Http_error int jstring "jstring option"
  | Http_ok "jstring"

definition handleNonStreamRequest :: "api_env \<Rightarrow> jsval \<Rightarrow> chat \<Rightarrow> chat" where
  "handleNonStreamRequest env payload s = s\<lparr>
     ch_debug := (ch_debug s)\<lparr>dd_request := payload, dd_timestamp := Some (ae_now env), dd_response := None,
       dd_sseMessages := None, dd_isStreaming := Some False\<rparr>,
     ch_tab := TAB_REQUEST,
     ch_posts := ch_posts s @ [(json_str payload, False)]\<rparr>"

text \<open>The text of the error response, and its \<open>error\<close> field if that is truthy.\<close>

definition error_body :: "jstring option \<Rightarrow> jstring \<times> jsval" where
  "error_body body = (case body of
       None \<Rightarrow> (MSG_no_body, JNull)
     | Some b \<Rightarrow>
         (case json_parse b of
            None \<Rightarrow> (if b = [] then MSG_no_body else b, JNull)
          | Some errorJson \<Rightarrow> (b, if truthy (opt_prop errorJson (js ''error'')) then opt_prop errorJson (js ''error'') else JNull)))"

definition http_error_text :: "int \<Rightarrow> jstring \<Rightarrow> jstring" where
  "http_error_text status errorBody = js ''HTTP error! status: '' @ num_to_string (Num (of_int status)) @ js '', body: '' @ errorBody"

text \<open>The message and the \<open>errorCode\<close> of the error that the catch block handles.\<close>

definition http_error_thrown :: "api_env \<Rightarrow> int \<Rightarrow> jstring \<Rightarrow> jsval \<Rightarrow> jstring \<times> jsval" where
  "http_error_thrown env status errorBody parsedError =
     (case js_String (js_or (opt_prop parsedError (js ''message'')) (JStr (http_error_text status errorBody))) of
        Inl e \<Rightarrow> (api_exn_message env e, JUndef)
      | Inr m \<Rightarrow> (m, js_or (opt_prop parsedError (js ''code'')) JNull))"

text \<open>The updates of the last message, when it is still loading.\<close>

definition update_loading :: "(message \<Rightarrow> message) \<Rightarrow> message list \<Rightarrow> message list" where
  "update_loading f prevMessage =
     (if prevMessage \<noteq> [] \<and> has_status (last prevMessage) LOADING
      then butlast prevMessage @ [f (last prevMessage)] else prevMessage)"

definition fail_message :: "api_env \<Rightarrow> jstring \<Rightarrow> jsval \<Rightarrow> message \<Rightarrow> message" where
  "fail_message env message errorCode lastMessage =
     obj_merge (put_status ERROR (obj_set (js ''errorCode'') (js_or errorCode JNull)
       (obj_set (js ''content'') (JStr (ae_t env MSG_request_error_colon [] @ message)) lastMessage)))
       (applyAutoCollapseLogic lastMessage (JBool True))"

definition reply_message :: "jsval \<Rightarrow> jsval \<Rightarrow> message \<Rightarrow> message" where
  "reply_message content reasoningContent lastMessage =
     obj_merge (put_status COMPLETE (obj_set (js ''reasoningContent'') reasoningContent
       (obj_set (js ''content'') content lastMessage)))
       (applyAutoCollapseLogic lastMessage (JBool True))"

text \<open>The catch block.\<close>

definition nonstream_failed :: "api_env \<Rightarrow> jstring \<Rightarrow> jsval \<Rightarrow> chat \<Rightarrow> chat" where
  "nonstream_failed env message errorCode s =
     (let s' = set_response (json_ind 0 (JObj (handleApiError env message None))) s
      in s'\<lparr>ch_message := update_loading (fail_message env message errorCode) (ch_message s')\<rparr>)"

text \<open>The content and the reasoning of the first choice, \<open>None\<close> when there is none.\<close>

definition first_choice :: "jsval \<Rightarrow> (jsval \<times> jsval) option res" where
  "first_choice data =
     rbind (get_prop data (js ''choices'')) (\<lambda>choices.
       let choice = opt_prop choices (js ''0''); message = opt_prop choice (js ''message'') in
       if \<not> truthy choice then Inr None
       else rbind (processThinkTags_val (js_or (opt_prop message (js ''content'')) (JStr []))
              (js_or (opt_prop message (js ''reasoning_content''))
                (js_or (opt_prop message (js ''reasoning'')) (JStr [])))) (\<lambda>processed. Inr (Some processed)))"

fun nonstream_response :: "api_env \<Rightarrow> fetch_result \<Rightarrow> chat \<Rightarrow> chat" where
  "nonstream_response env (Fetch_failed message) s = nonstream_failed env message JUndef s"
| "nonstream_response env (Http_error status statusText body) s =
     (let (errorBody, parsedError) = error_body body;
          s' = set_response (json_ind 0 (JObj (handleApiError env (http_error_text status errorBody) (Some (status, statusText))))) s;
          (message, errorCode) = http_error_thrown env status errorBody parsedError
      in nonstream_failed env message errorCode s')"
| "nonstream_response env (Http_ok body) s =
     (case json_parse body of
        None \<Rightarrow> nonstream_failed env (ae_syntaxErrorMessage env body) JUndef s
      | Some data \<Rightarrow>
          (let s' = set_response (json_ind 0 data) s in
           case first_choice data of
             Inl e \<Rightarrow> nonstream_failed env (api_exn_message env e) JUndef s'
           | Inr None \<Rightarrow> s'
           | Inr (Some (content, reasoningContent)) \<Rightarrow>
               s'\<lparr>ch_message := update_loading (reply_message content reasoningContent) (ch_message s')\<rparr>))"

subsection \<open>A reply that streams in\<close>

definition chunk_if :: "jsval \<Rightarrow> chunk_type \<Rightarrow> chat \<Rightarrow> chat res" where
  "chunk_if textChunk type s = (if truthy textChunk then set_message (streamMessageUpdate textChunk type) s else Inr s)"

definition sse_delta :: "jsval \<Rightarrow> chat \<Rightarrow> chat res" where
  "sse_delta delta s =
     (if \<not> truthy delta then Inr s
      else rbind (chunk_if (opt_prop delta (js ''reasoning_content'')) Chunk_reasoning s) (\<lambda>s.
           rbind (chunk_if (opt_prop delta (js ''reasoning'')) Chunk_reasoning s) (\<lambda>s.
             chunk_if (opt_prop delta (js ''content'')) Chunk_content s)))"

text \<open>An error text is streamed into the last message, which then fails.\<close>

definition stream_failed :: "jstring \<Rightarrow> chat \<Rightarrow> chat res" where
  "stream_failed message s =
     rbind (set_message (streamMessageUpdate (JStr message) Chunk_content) s) (completeMessage ERROR)"

definition sse_parse_failed :: "api_env \<Rightarrow> nat \<Rightarrow> jstring \<Rightarrow> jstring \<Rightarrow> chat \<Rightarrow> chat res" where
  "sse_parse_failed env i message data s =
     stream_failed (ae_t env MSG_parse_failed [])
       (set_response (st_responseData (ch_streams s ! i) @ [10, 10] @ js ''Error: '' @ MSG_parse_error @ message)
         (set_streaming False (add_sse_message data s)))"

definition sse_message :: "api_env \<Rightarrow> nat \<Rightarrow> jstring \<Rightarrow> chat \<Rightarrow> chat res" where
  "sse_message env i data s =
     (if data = js ''[DONE]'' then
        (let s = close_source i (update_stream i (\<lambda>st. st\<lparr>st_isStreamComplete := True\<rparr>) s);
             s = set_streaming False (add_sse_message (js ''[DONE]'') (s\<lparr>ch_sse := None\<rparr>))
         in completeMessage COMPLETE
              (s\<lparr>ch_debug := (ch_debug s)\<lparr>dd_response := Some (st_responseData (ch_streams s ! i))\<rparr>\<rparr>))
      else (case json_parse data of
              None \<Rightarrow> sse_parse_failed env i (ae_syntaxErrorMessage env data) data s
            | Some payload \<Rightarrow>
                (let first = \<not> st_hasReceivedFirstResponse (ch_streams s ! i);
                     s = update_stream i (\<lambda>st. st\<lparr>st_responseData := st_responseData st @ data @ [10],
                           st_hasReceivedFirstResponse := True\<rparr>) s;
                     s = add_sse_message data (if first then s\<lparr>ch_tab := TAB_RESPONSE\<rparr> else s)
                 in case get_prop payload (js ''choices'') of
                      Inl e \<Rightarrow> sse_parse_failed env i (api_exn_message env e) data s
                    | Inr choices \<Rightarrow> sse_delta (opt_prop (opt_prop choices (js ''0'')) (js ''delta'')) s)))"

text \<open>The error message and the error code of an error event with the given data.\<close>

definition sse_error_info :: "api_env \<Rightarrow> jstring \<Rightarrow> jsval \<times> jsval" where
  "sse_error_info env data =
     (if data = [] then (JStr (ae_t env MSG_request_error []), JNull)
      else (case json_parse data of
              None \<Rightarrow> (JStr data, JNull)
            | Some errorJson \<Rightarrow>
                (let err = opt_prop errorJson (js ''error'') in
                 if truthy err then (js_or (opt_prop err (js ''message'')) (JStr data), js_or (opt_prop err (js ''code'')) JNull)
                 else (JStr data, JNull))))"

definition sse_fail_last :: "jsval \<Rightarrow> jsval \<Rightarrow> message list \<Rightarrow> message list res" where
  "sse_fail_last errorMessage errorCode prevMessage =
     (if prevMessage \<noteq> [] \<and> \<not> has_status (last prevMessage) COMPLETE \<and> \<not> has_status (last prevMessage) ERROR
      then rbind (js_add (js_or (get_own (last prevMessage) (js ''content'')) (JStr [])) errorMessage) (\<lambda>content.
             Inr (butlast prevMessage @ [put_status ERROR (obj_set (js ''errorCode'') errorCode
               (obj_set (js ''content'') content (last prevMessage)))]))
      else Inr prevMessage)"

text \<open>The states of a connection: closed is 2. The data of the event is empty when there is none.\<close>

definition sse_error :: "api_env \<Rightarrow> nat \<Rightarrow> jstring \<Rightarrow> int \<Rightarrow> chat \<Rightarrow> chat res" where
  "sse_error env i data readyState s =
     (if \<not> st_isStreamComplete (ch_streams s ! i) \<and> readyState \<noteq> 2 then
        (let (errorMessage, errorCode) = sse_error_info env data in
         rbind (js_String errorMessage) (\<lambda>m.
           let errorInfo = obj_set (js ''readyState'') (JNum (Num (of_int readyState))) (handleApiError env m None);
               s = set_response (st_responseData (ch_streams s ! i) @ [10, 10] @ js ''SSE Error:'' @ [10] @ json_ind 0 (JObj errorInfo)) s
           in rbind (set_message (sse_fail_last errorMessage errorCode) s) (\<lambda>s.
                Inr (close_source i (s\<lparr>ch_sse := None\<rparr>)))))
      else Inr s)"

definition sse_readystatechange :: "api_env \<Rightarrow> nat \<Rightarrow> int \<Rightarrow> int \<Rightarrow> int option \<Rightarrow> chat \<Rightarrow> chat res" where
  "sse_readystatechange env i eventState readyState status s =
     (case status of
        None \<Rightarrow> Inr s
      | Some code \<Rightarrow>
          if eventState \<ge> 2 \<and> code \<noteq> 200 \<and> \<not> st_isStreamComplete (ch_streams s ! i) then
            (let errorInfo = obj_set (js ''readyState'') (JNum (Num (of_int readyState)))
                   (obj_set (js ''status'') (JNum (Num (of_int code))) (handleApiError env MSG_http_state None));
                 s = set_response (st_responseData (ch_streams s ! i) @ [10, 10] @ js ''HTTP Error:'' @ [10] @ json_ind 0 (JObj errorInfo)) s
             in stream_failed (ae_t env MSG_disconnected []) (close_source i s))
          else Inr s)"

text \<open>Opening a stream; \<open>source.stream()\<close> may throw an error with a message.\<close>

definition handleSSE :: "api_env \<Rightarrow> jsval \<Rightarrow> jstring option \<Rightarrow> chat \<Rightarrow> chat res" where
  "handleSSE env payload startError s =
     (let s = s\<lparr>
            ch_debug := (ch_debug s)\<lparr>dd_request := payload, dd_timestamp := Some (ae_now env), dd_response := None,
              dd_sseMessages := Some [], dd_isStreaming := Some True\<rparr>,
            ch_tab := TAB_REQUEST,
            ch_sse := Some (length (ch_streams s)),
            ch_streams := ch_streams s @ [\<lparr>st_responseData = [], st_hasReceivedFirstResponse = False,
              st_isStreamComplete = False, st_closed = False\<rparr>],
            ch_posts := ch_posts s @ [(json_str payload, True)]\<rparr>
      in case startError of
           None \<Rightarrow> Inr s
         | Some message \<Rightarrow>
             stream_failed (ae_t env MSG_connect_failed [])
               (set_response (MSG_start_failed @ [10] @ json_ind 0 (JObj (handleApiError env message None))) s))"

definition sendRequest :: "api_env \<Rightarrow> jsval \<Rightarrow> bool \<Rightarrow> jstring option \<Rightarrow> chat \<Rightarrow> chat res" where
  "sendRequest env payload isStream startError s =
     (if isStream then handleSSE env payload startError s else Inr (handleNonStreamRequest env payload s))"

subsection \<open>Stopping\<close>

definition processIncompleteThinkTags_val :: "jsval \<Rightarrow> jsval \<Rightarrow> (jsval \<times> jsval) res" where
  "processIncompleteThinkTags_val content reasoningContent =
     (if \<not> truthy content then Inr (JStr [], reasoningContent)
      else (case content of
              JStr s \<Rightarrow>
                (case split_last THINK_OPEN s of
                   None \<Rightarrow> processThinkTags_val content reasoningContent
                 | Some (cleanContent, fragment) \<Rightarrow>
                     if \<not> str_includes (THINK_OPEN @ fragment) THINK_CLOSE then
                       (let unclosedThought = trim fragment in
                        rbind (if unclosedThought \<noteq> [] then
                                 (if truthy reasoningContent
                                  then rbind (js_String reasoningContent) (\<lambda>r. Inr (JStr (r @ THOUGHT_SEPARATOR @ unclosedThought)))
                                  else Inr (JStr unclosedThought))
                               else Inr reasoningContent) (processThinkTags_val (JStr cleanContent)))
                     else processThinkTags_val content reasoningContent)
            | JArr vs \<Rightarrow> if JStr THINK_OPEN \<in> set vs then Inl TypeError else processThinkTags_val content reasoningContent
            | _ \<Rightarrow> Inl TypeError))"

definition stopped_message :: "message \<Rightarrow> message res" where
  "stopped_message lastMessage =
     rbind (processIncompleteThinkTags_val (js_or (get_own lastMessage (js ''content'')) (JStr []))
       (js_or (get_own lastMessage (js ''reasoningContent'')) (JStr []))) (\<lambda>(content, reasoningContent).
       Inr (obj_merge (obj_set (js ''content'') content
              (obj_set (js ''reasoningContent'') (js_or reasoningContent JNull) (put_status COMPLETE lastMessage)))
              (applyAutoCollapseLogic lastMessage (JBool True))))"

definition onStopGenerator :: "chat \<Rightarrow> chat res" where
  "onStopGenerator s =
     (let s = (case ch_sse s of None \<Rightarrow> s | Some i \<Rightarrow> (close_source i s)\<lparr>ch_sse := None\<rparr>);
          prevMessage = ch_message s
      in if prevMessage = [] then Inr s
         else if has_status (last prevMessage) LOADING \<or> has_status (last prevMessage) INCOMPLETE then
           rbind (stopped_message (last prevMessage)) (\<lambda>m.
             let updatedMessages = butlast prevMessage @ [m]
             in Inr (s\<lparr>ch_message := updatedMessages, ch_saves := ch_saves s @ [updatedMessages]\<rparr>))
         else Inr s)"

subsection \<open>Events\<close>

datatype api_event =
    Send jsval bool "jstring option"
  | Fetched fetch_result
  | Sse_message nat jstring
  | Sse_error nat jstring int
  | Sse_readystate nat int int "int option"
  | Stop

text \<open>Events of a stream that was never opened do not occur.\<close>

fun api_step :: "api_env \<Rightarrow> api_event \<Rightarrow> chat \<Rightarrow> chat res" where
  "api_step env (Send payload isStream startError) s = sendRequest env payload isStream startError s"
| "api_step env (Fetched r) s = Inr (nonstream_response env r s)"
| "api_step env (Sse_message i data) s = (if i < length (ch_streams s) then sse_message env i data s else Inr s)"
| "api_step env (Sse_error i data readyState) s = (if i < length (ch_streams s) then sse_error env i data readyState s else Inr s)"
| "api_step env (Sse_readystate i eventState readyState status) s =
     (if i < length (ch_streams s) then sse_readystatechange env i eventState readyState status s else Inr s)"
| "api_step env Stop s = onStopGenerator s"

end
