(* ===== verification/PlaygroundReplies.thy ===== *)
theory PlaygroundReplies
  imports PlaygroundStream
begin

text \<open>
  What the requests of the playground do to the conversation: events of the server only touch the last
  message and never a finished one, streamed chunks add up to the reply, every way a request
  can end finishes the message, and the panel with the reasoning collapses by itself at most once.
\<close>

subsection \<open>Reading fields after updates\<close>

lemma MESSAGE_STATUS_inj [simp]: "MESSAGE_STATUS a = MESSAGE_STATUS b \<longleftrightarrow> a = b"
  by (cases a; cases b) simp_all

lemma get_own_put_status [simp]: "get_own (put_status st m) k = (if k = js ''status'' then JStr (MESSAGE_STATUS st) else get_own m k)"
  by (simp add: put_status_def)

lemma has_status_obj_set [simp]: "k \<noteq> js ''status'' \<Longrightarrow> has_status (obj_set k v m) st = has_status m st"
  by (simp add: has_status_def)

lemma has_status_put [simp]: "has_status (put_status st m) st' \<longleftrightarrow> st' = st"
  by (auto simp: has_status_def)

lemma has_status_unique: "has_status m a \<Longrightarrow> has_status m b \<Longrightarrow> a = b"
  by (simp add: has_status_def)

lemma get_own_merge_Nil [simp]: "obj_merge m [] = m"
  by (simp add: obj_merge_def)

lemma get_own_merge_Cons [simp]: "obj_merge m ((k, v) # kvs) = obj_merge (obj_set k v m) kvs"
  by (simp add: obj_merge_def)

lemma collapse_get:
  "get_own (obj_merge m (applyAutoCollapseLogic m0 arg)) k =
     (if k = js ''isThinkingComplete'' then (if arg = JUndef then JBool True else arg)
      else if k = js ''hasAutoCollapsed'' then
        js_or (js_and (if arg = JUndef then JBool True else arg) (JBool (\<not> truthy (get_own m0 k)))) (get_own m0 k)
      else if k = js ''isReasoningExpanded'' then
        (if truthy (js_and (if arg = JUndef then JBool True else arg) (JBool (\<not> truthy (get_own m0 (js ''hasAutoCollapsed'')))))
         then JBool False else get_own m0 k)
      else get_own m k)"
  by (simp add: applyAutoCollapseLogic_def Let_def)

lemma has_status_collapse [simp]: "has_status (obj_merge m (applyAutoCollapseLogic m0 arg)) st = has_status m st"
  by (simp add: has_status_def collapse_get)

subsection \<open>How a message may change\<close>

definition same_identity :: "message \<Rightarrow> message \<Rightarrow> bool" where
  "same_identity m m' \<longleftrightarrow> (\<forall>k \<in> {js ''id'', js ''role'', js ''createAt''}. get_own m' k = get_own m k)"

definition collapsed_stays :: "message \<Rightarrow> message \<Rightarrow> bool" where
  "collapsed_stays m m' \<longleftrightarrow> (truthy (get_own m (js ''hasAutoCollapsed'')) \<longrightarrow>
     get_own m' (js ''hasAutoCollapsed'') = get_own m (js ''hasAutoCollapsed'') \<and>
     get_own m' (js ''isReasoningExpanded'') = get_own m (js ''isReasoningExpanded''))"

definition advances :: "message \<Rightarrow> message \<Rightarrow> bool" where
  "advances m m' \<longleftrightarrow> m' = m \<or> \<not> finished m \<and> same_identity m m' \<and> collapsed_stays m m' \<and> \<not> has_status m' LOADING"

definition evolves :: "message list \<Rightarrow> message list \<Rightarrow> bool" where
  "evolves ms ms' \<longleftrightarrow> ms' = ms \<or> ms \<noteq> [] \<and> (\<exists>m. ms' = butlast ms @ [m] \<and> advances (last ms) m)"

lemma advances_refl [simp]: "advances m m"
  by (simp add: advances_def)

lemma advances_trans: "advances a b \<Longrightarrow> advances b c \<Longrightarrow> advances a c"
  by (auto simp: advances_def same_identity_def collapsed_stays_def)

lemma evolves_refl [simp]: "evolves ms ms"
  by (simp add: evolves_def)

lemma evolves_trans: "evolves a b \<Longrightarrow> evolves b c \<Longrightarrow> evolves a c"
  by (auto simp: evolves_def dest: advances_trans)

lemma evolvesI: "ms \<noteq> [] \<Longrightarrow> advances (last ms) m \<Longrightarrow> evolves ms (butlast ms @ [m])"
  by (auto simp: evolves_def)

lemma evolves_length: "evolves ms ms' \<Longrightarrow> length ms' = length ms"
  by (auto simp: evolves_def)

lemma evolves_nth: "evolves ms ms' \<Longrightarrow> i < length ms \<Longrightarrow>
    advances (ms ! i) (ms' ! i) \<and> (i \<noteq> length ms - 1 \<longrightarrow> ms' ! i = ms ! i)"
  by (cases ms rule: rev_cases) (auto simp: evolves_def nth_append)

lemma evolves_last: "evolves ms ms' \<Longrightarrow> ms \<noteq> [] \<Longrightarrow> ms' \<noteq> [] \<and> butlast ms' = butlast ms \<and> advances (last ms) (last ms')"
  by (auto simp: evolves_def)

lemma advances_finished: "advances m m' \<Longrightarrow> finished m \<Longrightarrow> m' = m"
  by (auto simp: advances_def)

subsection \<open>The updates\<close>

lemma advances_collapse:
  "\<not> finished m \<Longrightarrow> same_identity m m' \<Longrightarrow> \<not> has_status m' LOADING \<Longrightarrow>
    advances m (obj_merge m' (applyAutoCollapseLogic m arg))"
  by (auto simp: advances_def same_identity_def collapsed_stays_def collapse_get js_and_def js_or_def has_status_def)

lemma same_identity_set [simp]:
  "k \<notin> {js ''id'', js ''role'', js ''createAt''} \<Longrightarrow> same_identity m (obj_set k v m') = same_identity m m'"
  by (auto simp: same_identity_def)

lemma same_identity_refl [simp]: "same_identity m m"
  by (simp add: same_identity_def)

lemma same_identity_put [simp]: "same_identity m (put_status st m') = same_identity m m'"
  by (simp add: put_status_def)

lemma advances_identity: "advances m m' \<Longrightarrow> same_identity m m'"
  by (auto simp: advances_def)

lemma reasoning_chunk_advances: "reasoning_chunk c m = Inr m' \<Longrightarrow> \<not> finished m \<Longrightarrow> advances m m'"
  by (auto simp: reasoning_chunk_def rbind_Inr_iff advances_def collapsed_stays_def)

lemma content_chunk_advances: "content_chunk c m = Inr m' \<Longrightarrow> \<not> finished m \<Longrightarrow> advances m m'"
  by (auto simp: content_chunk_def Let_def rbind_Inr_iff intro!: advances_collapse)

lemma generating_not_finished: "generating m \<Longrightarrow> \<not> finished m"
  by (auto simp: generating_def finished_def dest: has_status_unique)

lemma streamMessageUpdate_evolves: "streamMessageUpdate c ty ms = Inr ms' \<Longrightarrow> evolves ms ms'"
  by (auto simp: streamMessageUpdate_def Let_def rbind_Inr_iff generating_def generating_not_finished
      intro!: evolvesI split: if_splits chunk_type.splits dest: reasoning_chunk_advances content_chunk_advances)

lemma completeMessage_evolves: "completeMessage st s = Inr s' \<Longrightarrow> st \<noteq> LOADING \<Longrightarrow> evolves (ch_message s) (ch_message s')"
  by (auto simp: completeMessage_def Let_def finished_def split: if_splits intro!: evolvesI advances_collapse)

lemma update_loading_evolves:
  "(\<And>m. has_status m LOADING \<Longrightarrow> advances m (f m)) \<Longrightarrow> evolves ms (update_loading f ms)"
  by (auto simp: update_loading_def intro: evolvesI)

lemma loading_not_finished: "has_status m LOADING \<Longrightarrow> \<not> finished m"
  by (auto simp: finished_def dest: has_status_unique)

lemma fail_message_advances: "has_status m LOADING \<Longrightarrow> advances m (fail_message env e c m)"
  unfolding fail_message_def by (rule advances_collapse) (simp_all add: loading_not_finished)

lemma reply_message_advances: "has_status m LOADING \<Longrightarrow> advances m (reply_message c r m)"
  unfolding reply_message_def by (rule advances_collapse) (simp_all add: loading_not_finished)

lemma sse_fail_last_evolves: "sse_fail_last e c ms = Inr ms' \<Longrightarrow> evolves ms ms'"
  by (auto simp: sse_fail_last_def rbind_Inr_iff split: if_splits intro!: evolvesI)
     (auto simp: advances_def finished_def collapsed_stays_def)

lemma stopped_message_advances: "stopped_message m = Inr m' \<Longrightarrow> \<not> finished m \<Longrightarrow> advances m m'"
  by (auto simp: stopped_message_def rbind_Inr_iff intro!: advances_collapse)

lemma message_of_debug_updates [simp]:
  "ch_message (set_response r s) = ch_message s" "ch_message (add_sse_message d s) = ch_message s"
  "ch_message (set_streaming v s) = ch_message s" "ch_message (update_stream i f s) = ch_message s"
  "ch_message (close_source i s) = ch_message s"
  by (simp_all add: set_response_def add_sse_message_def set_streaming_def update_stream_def close_source_def)

lemma set_message_evolves:
  "set_message f s = Inr s' \<Longrightarrow> (\<And>ms ms'. f ms = Inr ms' \<Longrightarrow> evolves ms ms') \<Longrightarrow> evolves (ch_message s) (ch_message s')"
  by (auto simp: set_message_def rbind_Inr_iff)

lemma stream_failed_evolves: "stream_failed m s = Inr s' \<Longrightarrow> evolves (ch_message s) (ch_message s')"
  by (auto simp: stream_failed_def rbind_Inr_iff dest!: completeMessage_evolves
      set_message_evolves [OF _ streamMessageUpdate_evolves] intro: evolves_trans)

lemma chunk_if_evolves: "chunk_if c ty s = Inr s' \<Longrightarrow> evolves (ch_message s) (ch_message s')"
  by (auto simp: chunk_if_def split: if_splits intro: set_message_evolves streamMessageUpdate_evolves)

lemma sse_delta_evolves: "sse_delta d s = Inr s' \<Longrightarrow> evolves (ch_message s) (ch_message s')"
  by (auto simp: sse_delta_def rbind_Inr_iff split: if_splits dest!: chunk_if_evolves intro: evolves_trans)

lemma sse_parse_failed_evolves: "sse_parse_failed env i m d s = Inr s' \<Longrightarrow> evolves (ch_message s) (ch_message s')"
  unfolding sse_parse_failed_def by (drule stream_failed_evolves) simp

lemma sse_message_evolves: "sse_message env i d s = Inr s' \<Longrightarrow> evolves (ch_message s) (ch_message s')"
  by (auto simp: sse_message_def Let_def split: if_splits option.splits sum.splits
      dest!: sse_parse_failed_evolves sse_delta_evolves completeMessage_evolves)

lemma sse_error_evolves: "sse_error env i d r s = Inr s' \<Longrightarrow> evolves (ch_message s) (ch_message s')"
  by (auto simp: sse_error_def Let_def rbind_Inr_iff split: if_splits prod.splits
      dest!: set_message_evolves [OF _ sse_fail_last_evolves])

lemma sse_readystatechange_evolves: "sse_readystatechange env i e r c s = Inr s' \<Longrightarrow> evolves (ch_message s) (ch_message s')"
  by (auto simp: sse_readystatechange_def Let_def split: if_splits option.splits dest!: stream_failed_evolves)

lemma nonstream_failed_evolves: "evolves (ch_message s) (ch_message (nonstream_failed env m c s))"
  by (simp add: nonstream_failed_def Let_def update_loading_evolves fail_message_advances)

lemma nonstream_response_evolves: "evolves (ch_message s) (ch_message (nonstream_response env r s))"
proof (cases r)
  case (Http_ok body)
  then show ?thesis
    using nonstream_failed_evolves [of "set_response _ s"] nonstream_failed_evolves [of s]
    by (auto simp: Let_def update_loading_evolves reply_message_advances split: option.splits sum.splits)
next
  case (Http_error status statusText body)
  then show ?thesis
    using nonstream_failed_evolves [of "set_response _ s"] by (auto simp: Let_def split: prod.splits)
qed (simp add: nonstream_failed_evolves)

lemma sendRequest_evolves: "sendRequest env p b e s = Inr s' \<Longrightarrow> evolves (ch_message s) (ch_message s')"
  by (auto simp: sendRequest_def handleSSE_def handleNonStreamRequest_def Let_def split: if_splits option.splits
      dest!: stream_failed_evolves)

lemma onStopGenerator_evolves: "onStopGenerator s = Inr s' \<Longrightarrow> evolves (ch_message s) (ch_message s')"
  by (auto simp: onStopGenerator_def Let_def rbind_Inr_iff generating_def generating_not_finished split: if_splits option.splits
      intro!: evolvesI dest: stopped_message_advances)

lemma api_step_evolves: "api_step env ev s = Inr s' \<Longrightarrow> evolves (ch_message s) (ch_message s')"
  by (cases ev) (auto split: if_splits dest: sendRequest_evolves sse_message_evolves sse_error_evolves
      sse_readystatechange_evolves onStopGenerator_evolves simp: nonstream_response_evolves)

subsection \<open>Sequences of events\<close>

text \<open>A sequence of events, each with the environment it happens in; an uncaught exception ends it.\<close>

fun run_events :: "('e \<Rightarrow> 's \<Rightarrow> 's res) \<Rightarrow> 'e list \<Rightarrow> 's \<Rightarrow> 's res" where
  "run_events step [] s = Inr s"
| "run_events step (e # es) s = rbind (step e s) (run_events step es)"

lemma run_events_append: "run_events step (es @ es') s = rbind (run_events step es s) (run_events step es')"
proof (induction es arbitrary: s)
  case (Cons e es)
  then show ?case by (cases "step e s") auto
qed simp

text \<open>The contract of a component that only works on the last message while it is not finished.\<close>

locale reply_events =
  fixes step :: "'e \<Rightarrow> chat \<Rightarrow> chat res"
  assumes step_evolves: "step e s = Inr s' \<Longrightarrow> evolves (ch_message s) (ch_message s')"
begin

lemma run_evolves: "run_events step es s = Inr s' \<Longrightarrow> evolves (ch_message s) (ch_message s')"
  by (induction es arbitrary: s) (auto simp: rbind_Inr_iff dest!: step_evolves intro: evolves_trans)

lemma run_advances:
  assumes "run_events step es s = Inr s'" and "i < length (ch_message s)"
  shows "advances (ch_message s ! i) (ch_message s' ! i)"
    and "i \<noteq> length (ch_message s) - 1 \<Longrightarrow> ch_message s' ! i = ch_message s ! i"
  using evolves_nth [OF run_evolves [OF assms(1)] assms(2)] by auto

lemma finished_forever:
  assumes "run_events step es s = Inr s'" and "ch_message s = ms @ [m]" and "finished m"
  shows "ch_message s' = ms @ [m]"
  using run_evolves [OF assms(1)] assms(2,3) by (auto simp: evolves_def dest: advances_finished)

end

definition api_event_step :: "api_env \<times> api_event \<Rightarrow> chat \<Rightarrow> chat res" where
  "api_event_step ee = api_step (fst ee) (snd ee)"

interpretation api: reply_events api_event_step
  by unfold_locales (simp add: api_event_step_def api_step_evolves)

text \<open>A conversation with a question and a loading reply, and a request that is answered.\<close>

definition sample_env :: api_env where
  "sample_env = \<lparr>ae_t = (\<lambda>k _. k), ae_now = [], ae_stack = [], ae_typeErrorMessage = [], ae_syntaxErrorMessage = (\<lambda>_. [])\<rparr>"

definition sample_question :: message where
  "sample_question = [(js ''role'', JStr (js ''user'')), (js ''content'', JStr (js ''Hi'')), (js ''id'', JStr (js ''4''))]"

definition sample_reply :: message where
  "sample_reply = [(js ''role'', JStr (js ''assistant'')), (js ''content'', JStr []), (js ''id'', JStr (js ''5'')),
     (js ''reasoningContent'', JStr []), (js ''isReasoningExpanded'', JBool True), (js ''isThinkingComplete'', JBool False),
     (js ''hasAutoCollapsed'', JBool False), (js ''status'', JStr (js ''loading''))]"

definition sample_chat :: chat where
  "sample_chat = \<lparr>ch_message = [sample_question, sample_reply],
     ch_debug = \<lparr>dd_request = JNull, dd_response = None, dd_timestamp = None, dd_sseMessages = None, dd_isStreaming = None\<rparr>,
     ch_tab = TAB_PREVIEW, ch_sse = None, ch_streams = [], ch_posts = [], ch_saves = []\<rparr>"

definition sample_events :: "(api_env \<times> api_event) list" where
  "sample_events = [(sample_env, Send (JObj []) True None), (sample_env, Sse_message 0 (js ''[DONE]'')), (sample_env, Stop)]"

definition sample_collapsed :: chat where
  "sample_collapsed = sample_chat\<lparr>ch_message := [sample_question, obj_set (js ''hasAutoCollapsed'') (JBool True) sample_reply]\<rparr>"

lemma run_results:
  "\<not> isl (run_events api_event_step sample_events sample_chat)"
  "\<not> isl (run_events api_event_step sample_events sample_collapsed)"
  by code_simp+

lemma run_result: "\<not> isl r \<Longrightarrow> \<exists>s'. r = Inr s'" for r :: "'a res"
  by (cases r) auto

text \<open>
  C11. Whatever the server, the SSE connections and the stop button do, in any order and any number:
  no message is added or removed, every message but the last one and every message that is complete or
  failed stays exactly as it is, and the id, role and date of every message are kept.
\<close>

theorem replies_only_touch_open_message:
  assumes "run_events api_event_step evs s = Inr s'"
  shows "length (ch_message s') = length (ch_message s) \<and>
    (\<forall>i < length (ch_message s).
       (i \<noteq> length (ch_message s) - 1 \<or> finished (ch_message s ! i) \<longrightarrow> ch_message s' ! i = ch_message s ! i) \<and>
       same_identity (ch_message s ! i) (ch_message s' ! i))"
  using api.run_advances [OF assms] evolves_length [OF api.run_evolves [OF assms]]
  by (auto dest: advances_identity advances_finished)

theorem replies_only_touch_open_message_witness:
  "\<exists>s'. run_events api_event_step sample_events sample_chat = Inr s' \<and> length (ch_message s') = 2 \<and>
    ch_message s' ! 0 = ch_message sample_chat ! 0"
proof -
  obtain s' where s': "run_events api_event_step sample_events sample_chat = Inr s'" using run_results(1) run_result by blast
  then show ?thesis using replies_only_touch_open_message [OF s'] by (simp add: sample_chat_def)
qed

text \<open>
  The reasoning panel closes by itself at most once: after that, no event of a request opens
  or closes it again, so a panel that the user reopened stays open.
\<close>

theorem autocollapse_once:
  assumes "run_events api_event_step evs s = Inr s'" and "i < length (ch_message s)"
    and "truthy (get_own (ch_message s ! i) (js ''hasAutoCollapsed''))"
  shows "get_own (ch_message s' ! i) (js ''isReasoningExpanded'') = get_own (ch_message s ! i) (js ''isReasoningExpanded'') \<and>
    truthy (get_own (ch_message s' ! i) (js ''hasAutoCollapsed''))"
  using api.run_advances(1) [OF assms(1,2)] assms(3) by (auto simp: advances_def collapsed_stays_def)

theorem autocollapse_once_witness:
  "\<exists>s'. run_events api_event_step sample_events sample_collapsed = Inr s' \<and>
    get_own (ch_message s' ! 1) (js ''isReasoningExpanded'') = JBool True"
proof -
  obtain s' where s': "run_events api_event_step sample_events sample_collapsed = Inr s'" using run_results(2) run_result by blast
  have "get_own (ch_message sample_collapsed ! 1) (js ''isReasoningExpanded'') = JBool True"
    "truthy (get_own (ch_message sample_collapsed ! 1) (js ''hasAutoCollapsed''))" "1 < length (ch_message sample_collapsed)"
    by code_simp+
  then show ?thesis using s' autocollapse_once [OF s', of 1] by simp
qed

subsection \<open>Streaming a reply\<close>

text \<open>A reply of the assistant that is still being generated, with texts in its fields.\<close>

definition open_reply :: "message \<Rightarrow> jstring \<Rightarrow> jstring \<Rightarrow> bool" where
  "open_reply m c r \<longleftrightarrow> generating m \<and> get_own m (js ''role'') = JStr (js ''assistant'') \<and>
     get_own m (js ''content'') = JStr c \<and> get_own m (js ''reasoningContent'') = JStr r"

lemma open_reply_not_finished: "open_reply m c r \<Longrightarrow> \<not> finished m"
  by (simp add: open_reply_def generating_not_finished)

lemma js_or_text [simp]: "js_or (JStr s) (JStr []) = JStr s"
  by (simp add: js_or_def)

lemma js_add_texts [simp]: "js_add (JStr a) (JStr b) = Inr (JStr (a @ b))"
  by (simp add: js_add_def)

lemma generating_put [simp]: "generating (put_status st m) \<longleftrightarrow> st = LOADING \<or> st = INCOMPLETE"
  by (auto simp: generating_def)

lemma generating_obj_set [simp]: "k \<noteq> js ''status'' \<Longrightarrow> generating (obj_set k v m) = generating m"
  by (simp add: generating_def)

lemma generating_collapse [simp]: "generating (obj_merge m (applyAutoCollapseLogic m0 arg)) = generating m"
  by (simp add: generating_def)

lemma reasoning_chunk_open:
  "open_reply m c r \<Longrightarrow> \<exists>m'. reasoning_chunk (JStr x) m = Inr m' \<and> open_reply m' c (r @ x)"
  by (simp add: open_reply_def reasoning_chunk_def)

lemma think_closed_text: "\<exists>b. think_closed (JStr s) = Inr b"
  by (simp add: think_closed_def)

lemma content_chunk_open:
  assumes "open_reply m c r"
  shows "\<exists>m'. content_chunk (JStr x) m = Inr m' \<and> open_reply m' (c @ x) r"
proof -
  obtain b where b: "think_closed (JStr (c @ x)) = Inr b" using think_closed_text by blast
  show ?thesis using assms by (auto simp: open_reply_def content_chunk_def b collapse_get Let_def)
qed

lemma stream_update_open:
  assumes "open_reply m c r"
  shows "\<exists>m'. streamMessageUpdate (JStr x) ty (ms @ [m]) = Inr (ms @ [m']) \<and>
    open_reply m' (if ty = Chunk_content then c @ x else c) (if ty = Chunk_reasoning then r @ x else r)"
proof -
  have "\<not> has_status m ERROR" "has_status m LOADING \<or> has_status m INCOMPLETE"
    using assms open_reply_not_finished [OF assms] by (auto simp: open_reply_def generating_def finished_def)
  then show ?thesis
    using assms reasoning_chunk_open [OF assms, of x] content_chunk_open [OF assms, of x]
    by (cases ty) (auto simp: streamMessageUpdate_def open_reply_def)
qed

definition text_of :: "jsval \<Rightarrow> jstring" where
  "text_of v = (case v of JStr s \<Rightarrow> s | _ \<Rightarrow> [])"

definition text_or_missing :: "jsval \<Rightarrow> bool" where
  "text_or_missing v = (case v of JStr _ \<Rightarrow> True | _ \<Rightarrow> \<not> truthy v)"

lemma chunk_if_open:
  assumes "ch_message s = ms @ [m]" and "open_reply m c r" and "text_or_missing v"
  shows "\<exists>m'. chunk_if v ty s = Inr (s\<lparr>ch_message := ms @ [m']\<rparr>) \<and>
    open_reply m' (if ty = Chunk_content then c @ text_of v else c) (if ty = Chunk_reasoning then r @ text_of v else r)"
proof (cases "truthy v")
  case True
  with assms(3) obtain x where "v = JStr x" by (auto simp: text_or_missing_def split: jsval.splits)
  then show ?thesis using stream_update_open [OF assms(2), of x ty ms] assms(1) True
    by (auto simp: chunk_if_def set_message_def text_of_def)
next
  case False
  then have "text_of v = []" by (auto simp: text_of_def split: jsval.splits)
  then show ?thesis using assms(1,2) False by (intro exI [of _ m]) (simp add: chunk_if_def)
qed

text \<open>The reasoning and the content that a streamed datum carries.\<close>

definition delta_of :: "jsval \<Rightarrow> jsval" where
  "delta_of payload = opt_prop (opt_prop (opt_prop payload (js ''choices'')) (js ''0'')) (js ''delta'')"

definition chunk_reasoning :: "jsval \<Rightarrow> jstring" where
  "chunk_reasoning payload = text_of (opt_prop (delta_of payload) (js ''reasoning_content'')) @
     text_of (opt_prop (delta_of payload) (js ''reasoning''))"

definition chunk_content :: "jsval \<Rightarrow> jstring" where
  "chunk_content payload = text_of (opt_prop (delta_of payload) (js ''content''))"

definition chunk_ok :: "jsval \<Rightarrow> bool" where
  "chunk_ok payload \<longleftrightarrow> payload \<noteq> JNull \<and> payload \<noteq> JUndef \<and>
     (\<forall>k \<in> {js ''reasoning_content'', js ''reasoning'', js ''content''}. text_or_missing (opt_prop (delta_of payload) k))"

lemma get_prop_defined: "v \<noteq> JNull \<Longrightarrow> v \<noteq> JUndef \<Longrightarrow> \<exists>w. get_prop v k = Inr w"
  by (auto simp: get_prop_def split: jsval.split option.split)

lemma opt_prop_falsy: "\<not> truthy v \<Longrightarrow> text_of (opt_prop v (js (c # k))) = []" if "\<not> is_digit (of_char c)"
  using that by (cases v) (auto simp: opt_prop_def get_prop_def text_of_def)

lemma sse_delta_open:
  assumes "ch_message s = ms @ [m]" and "open_reply m c r"
    and "\<forall>k \<in> {js ''reasoning_content'', js ''reasoning'', js ''content''}. text_or_missing (opt_prop d k)"
  shows "\<exists>m'. sse_delta d s = Inr (s\<lparr>ch_message := ms @ [m']\<rparr>) \<and>
    open_reply m' (c @ text_of (opt_prop d (js ''content'')))
      (r @ text_of (opt_prop d (js ''reasoning_content'')) @ text_of (opt_prop d (js ''reasoning'')))"
proof (cases "truthy d")
  case True
  obtain m1 where m1: "chunk_if (opt_prop d (js ''reasoning_content'')) Chunk_reasoning s = Inr (s\<lparr>ch_message := ms @ [m1]\<rparr>)"
      "open_reply m1 c (r @ text_of (opt_prop d (js ''reasoning_content'')))"
    using chunk_if_open [OF assms(1,2), of _ Chunk_reasoning] assms(3) by force
  obtain m2 where m2: "chunk_if (opt_prop d (js ''reasoning'')) Chunk_reasoning (s\<lparr>ch_message := ms @ [m1]\<rparr>) = Inr (s\<lparr>ch_message := ms @ [m2]\<rparr>)"
      "open_reply m2 c (r @ text_of (opt_prop d (js ''reasoning_content'')) @ text_of (opt_prop d (js ''reasoning'')))"
    using chunk_if_open [OF _ m1(2), of "s\<lparr>ch_message := ms @ [m1]\<rparr>" ms _ Chunk_reasoning] assms(3) by force
  obtain m3 where "chunk_if (opt_prop d (js ''content'')) Chunk_content (s\<lparr>ch_message := ms @ [m2]\<rparr>) = Inr (s\<lparr>ch_message := ms @ [m3]\<rparr>)"
      "open_reply m3 (c @ text_of (opt_prop d (js ''content''))) (r @ text_of (opt_prop d (js ''reasoning_content'')) @ text_of (opt_prop d (js ''reasoning'')))"
    using chunk_if_open [OF _ m2(2), of "s\<lparr>ch_message := ms @ [m2]\<rparr>" ms _ Chunk_content] assms(3) by force
  with m1 m2 True show ?thesis by (auto simp: sse_delta_def)
next
  case False
  then show ?thesis using assms(1,2) by (intro exI [of _ m]) (simp add: sse_delta_def opt_prop_falsy is_digit_def)
qed

text \<open>One datum that is a well-formed chunk extends the open reply and the recorded response.\<close>

lemma sse_message_open:
  assumes "ch_message s = ms @ [m]" and "open_reply m c r" and "i < length (ch_streams s)"
    and "json_parse d = Some payload" and "chunk_ok payload" and "d \<noteq> js ''[DONE]''"
  shows "\<exists>s' m'. sse_message env i d s = Inr s' \<and> ch_message s' = ms @ [m'] \<and>
    open_reply m' (c @ chunk_content payload) (r @ chunk_reasoning payload) \<and> ch_saves s' = ch_saves s \<and>
    length (ch_streams s') = length (ch_streams s) \<and>
    st_responseData (ch_streams s' ! i) = st_responseData (ch_streams s ! i) @ d @ [10]"
proof -
  define s1 where "s1 = add_sse_message d
    (let s2 = update_stream i (\<lambda>st. st\<lparr>st_responseData := st_responseData st @ d @ [10], st_hasReceivedFirstResponse := True\<rparr>) s
     in if \<not> st_hasReceivedFirstResponse (ch_streams s ! i) then s2\<lparr>ch_tab := TAB_RESPONSE\<rparr> else s2)"
  have s1: "ch_message s1 = ms @ [m]" "ch_saves s1 = ch_saves s" "length (ch_streams s1) = length (ch_streams s)"
      "st_responseData (ch_streams s1 ! i) = st_responseData (ch_streams s ! i) @ d @ [10]"
    using assms(1,3) by (simp_all add: s1_def add_sse_message_def update_stream_def Let_def)
  obtain choices where ch: "get_prop payload (js ''choices'') = Inr choices"
    using assms(5) get_prop_defined [of payload] by (auto simp: chunk_ok_def)
  have run: "sse_message env i d s = sse_delta (delta_of payload) s1"
    using assms(4,6) ch by (simp add: sse_message_def s1_def Let_def delta_of_def opt_prop_def)
  obtain m' where "sse_delta (delta_of payload) s1 = Inr (s1\<lparr>ch_message := ms @ [m']\<rparr>)"
      "open_reply m' (c @ chunk_content payload) (r @ chunk_reasoning payload)"
    using sse_delta_open [OF s1(1) assms(2), of "delta_of payload"] assms(5)
    by (auto simp: chunk_ok_def chunk_content_def chunk_reasoning_def)
  with run s1 show ?thesis by (intro exI [of _ "s1\<lparr>ch_message := ms @ [m']\<rparr>"] exI [of _ m']) auto
qed

text \<open>A list of data, each with the environment it arrives in and the payload it holds.\<close>

type_synonym datum = "api_env \<times> jstring \<times> jsval"

definition datum_ok :: "datum \<Rightarrow> bool" where
  "datum_ok x = (case x of (env, d, payload) \<Rightarrow> d \<noteq> js ''[DONE]'' \<and> json_parse d = Some payload \<and> chunk_ok payload)"

definition datum_event :: "nat \<Rightarrow> datum \<Rightarrow> api_env \<times> api_event" where
  "datum_event i x = (case x of (env, d, payload) \<Rightarrow> (env, Sse_message i d))"

lemma stream_chunks:
  assumes "ch_message s = ms @ [m]" and "open_reply m c r" and "i < length (ch_streams s)" and "\<forall>x \<in> set xs. datum_ok x"
  shows "\<exists>s' m'. run_events api_event_step (map (datum_event i) xs) s = Inr s' \<and> ch_message s' = ms @ [m'] \<and>
    open_reply m' (c @ concat (map (chunk_content \<circ> snd \<circ> snd) xs)) (r @ concat (map (chunk_reasoning \<circ> snd \<circ> snd) xs)) \<and>
    ch_saves s' = ch_saves s \<and> i < length (ch_streams s') \<and>
    st_responseData (ch_streams s' ! i) = st_responseData (ch_streams s ! i) @ concat (map (\<lambda>x. fst (snd x) @ [10]) xs)"
  using assms
proof (induction xs arbitrary: s m c r)
  case (Cons x xs)
  obtain env d payload where x: "x = (env, d, payload)" by (cases x) auto
  have ok: "json_parse d = Some payload" "chunk_ok payload" "d \<noteq> js ''[DONE]''"
    using Cons.prems(4) by (auto simp: x datum_ok_def)
  obtain s1 m1 where 1: "sse_message env i d s = Inr s1" "ch_message s1 = ms @ [m1]"
      "open_reply m1 (c @ chunk_content payload) (r @ chunk_reasoning payload)" "ch_saves s1 = ch_saves s"
      "length (ch_streams s1) = length (ch_streams s)"
      "st_responseData (ch_streams s1 ! i) = st_responseData (ch_streams s ! i) @ d @ [10]"
    using sse_message_open [OF Cons.prems(1-3) ok] by blast
  then show ?case
    using Cons.IH [OF 1(2,3)] Cons.prems(3,4) by (auto simp: x datum_event_def api_event_step_def)
qed auto

lemma complete_open:
  assumes "ch_message s = ms @ [m]" and "open_reply m c r" and "st = COMPLETE \<or> st = ERROR"
  shows "\<exists>m'. completeMessage st s = Inr (s\<lparr>ch_message := ms @ [m'], ch_saves := ch_saves s @ [ms @ [m']]\<rparr>) \<and> has_status m' st \<and>
    get_own m' (js ''content'') = JStr c \<and> get_own m' (js ''reasoningContent'') = JStr r \<and>
    get_own m' (js ''isThinkingComplete'') = JBool True \<and> same_identity m m'"
  using assms open_reply_not_finished [OF assms(2)]
  by (auto simp: completeMessage_def Let_def finished_def open_reply_def collapse_get same_identity_def)

lemma streamed_chat:
  assumes "ch_message s = ms @ [m]" and "open_reply m c r" and "i < length (ch_streams s)" and "\<forall>x \<in> set xs. datum_ok x"
  shows "\<exists>s' m'. run_events api_event_step (map (datum_event i) xs @ [(env, Sse_message i (js ''[DONE]''))]) s = Inr s' \<and>
    ch_message s' = ms @ [m'] \<and> has_status m' COMPLETE \<and> same_identity m m' \<and>
    get_own m' (js ''content'') = JStr (c @ concat (map (chunk_content \<circ> snd \<circ> snd) xs)) \<and>
    get_own m' (js ''reasoningContent'') = JStr (r @ concat (map (chunk_reasoning \<circ> snd \<circ> snd) xs)) \<and>
    ch_saves s' = ch_saves s @ [ms @ [m']] \<and> ch_sse s' = None \<and>
    dd_response (ch_debug s') = Some (st_responseData (ch_streams s ! i) @ concat (map (\<lambda>x. fst (snd x) @ [10]) xs))"
proof -
  obtain s1 m1 where 1: "run_events api_event_step (map (datum_event i) xs) s = Inr s1" "ch_message s1 = ms @ [m1]"
    "open_reply m1 (c @ concat (map (chunk_content \<circ> snd \<circ> snd) xs)) (r @ concat (map (chunk_reasoning \<circ> snd \<circ> snd) xs))"
    "ch_saves s1 = ch_saves s" "i < length (ch_streams s1)"
    "st_responseData (ch_streams s1 ! i) = st_responseData (ch_streams s ! i) @ concat (map (\<lambda>x. fst (snd x) @ [10]) xs)"
    using stream_chunks [OF assms] by blast
  define s2 where "s2 = (let s = close_source i (update_stream i (\<lambda>st. st\<lparr>st_isStreamComplete := True\<rparr>) s1);
             s = set_streaming False (add_sse_message (js ''[DONE]'') (s\<lparr>ch_sse := None\<rparr>))
         in s\<lparr>ch_debug := (ch_debug s)\<lparr>dd_response := Some (st_responseData (ch_streams s ! i))\<rparr>\<rparr>)"
  have s2: "ch_message s2 = ms @ [m1]" "ch_saves s2 = ch_saves s" "ch_sse s2 = None"
      "dd_response (ch_debug s2) = Some (st_responseData (ch_streams s1 ! i))"
    using 1(2,4,5) by (simp_all add: s2_def Let_def close_source_def update_stream_def set_streaming_def add_sse_message_def)
  have "api_event_step (env, Sse_message i (js ''[DONE]'')) s1 = completeMessage COMPLETE s2"
    using 1(5) by (simp add: api_event_step_def sse_message_def s2_def Let_def)
  then show ?thesis
    using 1(1,6) s2 complete_open [OF s2(1) 1(3), of COMPLETE] advances_identity [OF api.run_advances(1) [OF 1(1), of "length ms"]] assms(1) 1(2)
    by (fastforce simp: run_events_append same_identity_def)
qed

text \<open>
  Streaming is faithful: chunks of a stream and its end mark leave the earlier messages alone and
  turn the open reply into a complete one whose content and reasoning are the old texts followed by the
  texts of all chunks in order; the finished conversation is handed to the storage once, and the debug panel holds the
  raw data of the stream line by line.
\<close>

theorem streamed_reply:
  assumes "ch_message s = ms @ [m]" and "open_reply m c r" and "i < length (ch_streams s)" and "\<forall>x \<in> set xs. datum_ok x"
  shows "\<exists>s' m'. run_events api_event_step (map (datum_event i) xs @ [(env, Sse_message i (js ''[DONE]''))]) s = Inr s' \<and>
    ch_message s' = ms @ [m'] \<and> has_status m' COMPLETE \<and> same_identity m m' \<and>
    get_own m' (js ''content'') = JStr (c @ concat (map (chunk_content \<circ> snd \<circ> snd) xs)) \<and>
    get_own m' (js ''reasoningContent'') = JStr (r @ concat (map (chunk_reasoning \<circ> snd \<circ> snd) xs)) \<and>
    ch_saves s' = ch_saves s @ [ms @ [m']] \<and> ch_sse s' = None \<and>
    dd_response (ch_debug s') = Some (st_responseData (ch_streams s ! i) @ concat (map (\<lambda>x. fst (snd x) @ [10]) xs))"
  using assms by (rule streamed_chat)

definition sample_stream :: chat where
  "sample_stream = sample_chat\<lparr>ch_sse := Some 0, ch_streams := [\<lparr>st_responseData = [], st_hasReceivedFirstResponse = False,
     st_isStreamComplete = False, st_closed = False\<rparr>]\<rparr>"

definition sample_payload :: jsval where
  "sample_payload = JObj [(js ''choices'', JArr [JObj [(js ''delta'', JObj [(js ''content'', JStr (js ''Hello''))])]])]"

lemma array_index_zero [simp]: "array_index (js ''0'') = Some 0"
  by (simp add: array_index_def js_def digits_val_def is_digit_def)

lemma sample_chunk: "chunk_content sample_payload = js ''Hello''" "chunk_ok sample_payload"
  by (simp_all add: chunk_content_def chunk_ok_def delta_of_def sample_payload_def opt_prop_def get_prop_def get_own_def
      text_of_def text_or_missing_def)

lemma sample_datum: "datum_ok (sample_env, json_str sample_payload, sample_payload)"
proof -
  have "json_wf sample_payload" by (simp add: sample_payload_def obj_canon_def)
  then have "json_parse (json_str sample_payload) = Some sample_payload" by (rule json_parse_str)
  moreover have "json_str sample_payload \<noteq> js ''[DONE]''" by (simp add: sample_payload_def js_def)
  ultimately show ?thesis by (simp add: datum_ok_def sample_chunk)
qed

lemma sample_open: "ch_message sample_stream = [sample_question] @ [sample_reply]" "open_reply sample_reply [] []"
    "0 < length (ch_streams sample_stream)"
  by (simp_all add: sample_stream_def sample_chat_def open_reply_def generating_def has_status_def sample_reply_def get_own_def)

theorem streamed_reply_witness:
  "\<exists>s' m'. run_events api_event_step
      (map (datum_event 0) [(sample_env, json_str sample_payload, sample_payload)] @ [(sample_env, Sse_message 0 (js ''[DONE]''))]) sample_stream = Inr s' \<and>
    ch_message s' = [sample_question] @ [m'] \<and> get_own m' (js ''content'') = JStr (js ''Hello'')"
  using streamed_reply [OF sample_open, of "[(sample_env, json_str sample_payload, sample_payload)]" sample_env] sample_datum
  by (auto simp: sample_chunk)

subsection \<open>The end of a request\<close>

text \<open>
  The events that end a reply: the end mark of the stream or a datum that cannot be read; a connection error of a stream that is
  not complete or closed; an HTTP status other than 200; the answer to a request without streaming, if it failed or holds a first
  choice; a stream that cannot be opened; the stop button. An answer with status 200 that holds no choice, and a stream that
  the server closes without the end mark, do not: see \<open>reply_left_open\<close>.
\<close>

fun ends_reply :: "api_env \<Rightarrow> chat \<Rightarrow> api_event \<Rightarrow> bool" where
  "ends_reply env s (Sse_message i d) \<longleftrightarrow> i < length (ch_streams s) \<and>
     (d = js ''[DONE]'' \<or> json_parse d = None \<or> json_parse d = Some JNull)"
| "ends_reply env s (Sse_error i d readyState) \<longleftrightarrow> i < length (ch_streams s) \<and> \<not> st_isStreamComplete (ch_streams s ! i) \<and>
     readyState \<noteq> 2 \<and> \<not> isl (js_String (fst (sse_error_info env d)))"
| "ends_reply env s (Sse_readystate i eventState readyState status) \<longleftrightarrow> i < length (ch_streams s) \<and>
     \<not> st_isStreamComplete (ch_streams s ! i) \<and> eventState \<ge> 2 \<and> status \<noteq> None \<and> status \<noteq> Some 200"
| "ends_reply env s (Fetched r) \<longleftrightarrow> has_status (last (ch_message s)) LOADING \<and>
     (case r of Http_ok body \<Rightarrow> (\<forall>data. json_parse body = Some data \<longrightarrow> first_choice data \<noteq> Inr None) | _ \<Rightarrow> True)"
| "ends_reply env s (Send payload isStream startError) \<longleftrightarrow> isStream \<and> startError \<noteq> None"
| "ends_reply env s Stop \<longleftrightarrow> True"

lemma stream_failed_open:
  assumes "ch_message s = ms @ [m]" and "open_reply m c r"
  shows "\<exists>s' m'. stream_failed x s = Inr s' \<and> ch_message s' = ms @ [m'] \<and> has_status m' ERROR \<and> ch_saves s' = ch_saves s @ [ms @ [m']]"
proof -
  obtain m1 where 1: "streamMessageUpdate (JStr x) Chunk_content (ms @ [m]) = Inr (ms @ [m1])" "open_reply m1 (c @ x) r"
    using stream_update_open [OF assms(2), of x Chunk_content ms] by auto
  then have "set_message (streamMessageUpdate (JStr x) Chunk_content) s = Inr (s\<lparr>ch_message := ms @ [m1]\<rparr>)"
    using assms(1) by (simp add: set_message_def)
  then show ?thesis using complete_open [OF _ 1(2), of "s\<lparr>ch_message := ms @ [m1]\<rparr>" ms ERROR] by (auto simp: stream_failed_def)
qed

lemma processThinkTags_texts:
  "processThinkTags_val (JStr c) (JStr r) =
     Inr (JStr (pr_content (processThinkTags c r)), JStr (pr_reasoningContent (processThinkTags c r)))"
  by (auto simp: processThinkTags_val_def processThinkTags_def Let_def js_or_def split: prod.splits)

lemma processIncompleteThinkTags_texts:
  "processIncompleteThinkTags_val (JStr c) (JStr r) =
     Inr (JStr (pr_content (processIncompleteThinkTags c r)), JStr (pr_reasoningContent (processIncompleteThinkTags c r)))"
  by (auto simp: processIncompleteThinkTags_val_def processIncompleteThinkTags_def processThinkTags_texts Let_def
      split: option.splits)

lemma stop_open:
  assumes "ch_message s = ms @ [m]" and "open_reply m c r"
  shows "\<exists>s' m'. onStopGenerator s = Inr s' \<and> ch_message s' = ms @ [m'] \<and> has_status m' COMPLETE \<and>
    get_own m' (js ''content'') = JStr (pr_content (processIncompleteThinkTags c r)) \<and>
    ch_saves s' = ch_saves s @ [ms @ [m']]"
proof -
  have st: "has_status m LOADING \<or> has_status m INCOMPLETE" using assms(2) by (simp add: open_reply_def generating_def)
  have "\<exists>m'. stopped_message m = Inr m' \<and> has_status m' COMPLETE \<and>
      get_own m' (js ''content'') = JStr (pr_content (processIncompleteThinkTags c r))"
    using assms(2) by (simp add: open_reply_def stopped_message_def processIncompleteThinkTags_texts collapse_get)
  then show ?thesis
    using st assms(1) by (auto simp: onStopGenerator_def Let_def close_source_def update_stream_def split: option.split)
qed

lemma fail_message_error: "has_status (fail_message env e c m) ERROR"
  by (simp add: fail_message_def)

lemma nonstream_failed_last:
  assumes "ch_message s = ms @ [m]" and "has_status m LOADING"
  shows "\<exists>m'. ch_message (nonstream_failed env e c s) = ms @ [m'] \<and> finished m'"
  using assms by (simp add: nonstream_failed_def Let_def update_loading_def finished_def fail_message_error)

lemma reply_message_finished: "finished (reply_message c r m)"
  by (simp add: reply_message_def finished_def)

lemma nonstream_ends:
  assumes "ch_message s = ms @ [m]" and "has_status m LOADING" and "ends_reply env s (Fetched r)"
  shows "\<exists>m'. ch_message (nonstream_response env r s) = ms @ [m'] \<and> finished m'"
proof (cases r)
  case (Fetch_failed e)
  then show ?thesis using nonstream_failed_last [OF assms(1,2), of env e JUndef] by auto
next
  case (Http_error status statusText body)
  obtain b p where "error_body body = (b, p)" by fastforce
  moreover obtain e c where "http_error_thrown env status b p = (e, c)" by fastforce
  ultimately show ?thesis
    using nonstream_failed_last [OF _ assms(2), of "set_response _ s" ms env e c] assms(1) Http_error
    by (auto simp: Let_def)
next
  case (Http_ok body)
  then show ?thesis
    using nonstream_failed_last [OF _ assms(2), of "set_response _ s" ms env _ JUndef]
      nonstream_failed_last [OF assms(1,2), of env _ JUndef] assms
    by (auto simp: Let_def update_loading_def reply_message_finished split: option.splits sum.splits)
qed

lemma sse_error_ends:
  assumes "ch_message s = ms @ [m]" and "open_reply m c r" and "ends_reply env s (Sse_error i d rs)"
  shows "\<exists>s' m'. sse_error env i d rs s = Inr s' \<and> ch_message s' = ms @ [m'] \<and> finished m'"
proof -
  obtain e code where e: "sse_error_info env d = (e, code)" by fastforce
  obtain x where x: "js_String e = Inr x" using assms(3) e by (auto simp: isl_def) (metis sum.collapse(2) sum.disc(2) sum.exhaust_sel)
  have "js_add (JStr c) e = Inr (JStr (c @ x))" using x by (simp add: js_add_def)
  then have "sse_fail_last e code (ms @ [m]) = Inr (ms @ [put_status ERROR (obj_set (js ''errorCode'') code
      (obj_set (js ''content'') (JStr (c @ x)) m))])"
    using assms(2) open_reply_not_finished [OF assms(2)] by (simp add: sse_fail_last_def finished_def open_reply_def)
  then show ?thesis
    using assms(1,3) e x by (auto simp: sse_error_def Let_def set_message_def finished_def)
qed

definition settles :: "message list \<Rightarrow> chat res \<Rightarrow> bool" where
  "settles ms r \<longleftrightarrow> (\<exists>s' m'. r = Inr s' \<and> ch_message s' = ms @ [m'] \<and> finished m')"

lemma stream_failed_settles: "ch_message s = ms @ [m] \<Longrightarrow> open_reply m c r \<Longrightarrow> settles ms (stream_failed x s)"
  using stream_failed_open by (fastforce simp: settles_def finished_def)

lemma complete_settles: "ch_message s = ms @ [m] \<Longrightarrow> open_reply m c r \<Longrightarrow> settles ms (completeMessage COMPLETE s)"
  using complete_open by (fastforce simp: settles_def finished_def)

lemma sse_message_settles:
  assumes "ch_message s = ms @ [m]" and "open_reply m c r" and "ends_reply env s (Sse_message i d)"
  shows "settles ms (sse_message env i d s)"
  using assms by (auto simp: sse_message_def Let_def sse_parse_failed_def get_prop_def
      intro!: stream_failed_settles [OF _ assms(2)] complete_settles [OF _ assms(2)])

lemma readystate_settles:
  assumes "ch_message s = ms @ [m]" and "open_reply m c r" and "ends_reply env s (Sse_readystate i es rs status)"
  shows "settles ms (sse_readystatechange env i es rs status s)"
proof -
  obtain y where "status = Some y" "y \<noteq> 200" using assms(3) by auto
  then show ?thesis using assms
    by (simp add: sse_readystatechange_def Let_def stream_failed_settles [OF _ assms(2)] del: json_ind.simps)
qed

lemma send_settles:
  assumes "ch_message s = ms @ [m]" and "open_reply m c r" and "ends_reply env s (Send payload isStream e)"
  shows "settles ms (sendRequest env payload isStream e s)"
  using assms by (auto simp: sendRequest_def handleSSE_def Let_def simp del: json_ind.simps intro!: stream_failed_settles [OF _ assms(2)])

lemma api_step_settles:
  assumes "ch_message s = ms @ [m]" and "open_reply m c r" and "ends_reply env s ev"
  shows "settles ms (api_step env ev s)"
proof (cases ev)
  case (Send payload isStream startError)
  then show ?thesis using send_settles assms by simp
next
  case (Fetched res)
  then show ?thesis using nonstream_ends [OF assms(1) _, of env res] assms(1,3) by (auto simp: settles_def)
next
  case (Sse_message i d)
  then show ?thesis using sse_message_settles assms by simp
next
  case (Sse_error i d rs)
  then show ?thesis using sse_error_ends [OF assms(1,2), of env i d rs] assms(3) by (auto simp: settles_def)
next
  case (Sse_readystate i es rs status)
  then show ?thesis using readystate_settles [OF assms(1,2)] assms(3) by simp
next
  case Stop
  then show ?thesis using stop_open [OF assms(1,2)] by (auto simp: settles_def finished_def)
qed

text \<open>
  C19. A reply ends where the user sees it: the end mark of the stream, a datum that cannot be read, a connection error, an
  HTTP status other than 200, a failed answer or one with a first choice to a request without streaming, a connection that cannot
  be opened and the stop button all turn the open reply into a complete or failed message, without an uncaught exception, and
  it stays that way whatever happens afterwards. Not among these events are an answer of status 200 without a choice and a
  stream closed by the server without the end mark.
\<close>

theorem reply_ends:
  assumes "ch_message s = ms @ [m]" and "open_reply m c r" and "ends_reply env s ev"
  shows "\<exists>s1 m'. api_event_step (env, ev) s = Inr s1 \<and> finished m' \<and> ch_message s1 = ms @ [m'] \<and>
    (\<forall>evs s'. run_events api_event_step evs s1 = Inr s' \<longrightarrow> ch_message s' = ms @ [m'])"
proof -
  obtain s1 m' where 1: "api_step env ev s = Inr s1" "ch_message s1 = ms @ [m']" "finished m'"
    using api_step_settles [OF assms] by (auto simp: settles_def)
  then show ?thesis using api.finished_forever [OF _ 1(2,3)] by (auto simp: api_event_step_def)
qed

theorem reply_ends_witness:
  "\<exists>s1 m'. api_event_step (sample_env, Stop) sample_stream = Inr s1 \<and> finished m' \<and> ch_message s1 = [sample_question] @ [m']"
  using reply_ends [OF sample_open(1,2), of sample_env Stop] by auto

text \<open>
  Two ways in which a request is over and its reply is left as it is, still loading: an answer of status 200 whose \<open>choices\<close>
  hold nothing, and a stream that ends with status 200 (or with a closed connection, \<open>readyState\<close> 2) without the end mark.
\<close>

theorem reply_left_open:
  "json_parse body = Some data \<Longrightarrow> first_choice data = Inr None \<Longrightarrow>
    \<exists>s'. api_event_step (env, Fetched (Http_ok body)) s = Inr s' \<and> ch_message s' = ch_message s \<and> ch_saves s' = ch_saves s"
  "api_event_step (env, Sse_readystate i eventState readyState (Some 200)) s = Inr s"
  "api_event_step (env, Sse_error i data' 2) s = Inr s"
  by (simp_all add: api_event_step_def sse_readystatechange_def sse_error_def set_response_def Let_def)

text \<open>
  The end mark of a stream that is still running when the conversation was cleared raises an uncaught
  exception: unlike the other updates, the completion of a message reads the status of a last message that does not exist.
\<close>

theorem cleared_while_streaming:
  assumes "ch_message s = []" and "i < length (ch_streams s)"
  shows "api_event_step (env, Sse_message i (js ''[DONE]'')) s = Inl TypeError"
  using assms by (simp add: api_event_step_def sse_message_def Let_def completeMessage_def set_streaming_def add_sse_message_def)

theorem cleared_while_streaming_witness:
  "api_event_step (sample_env, Sse_message 0 (js ''[DONE]'')) (sample_stream\<lparr>ch_message := []\<rparr>) = Inl TypeError"
  by (rule cleared_while_streaming) (simp_all add: sample_stream_def)

end
