(* ===== verification/PlaygroundStorage.thy ===== *)
theory PlaygroundStorage
  imports PlaygroundReplies
begin

text \<open>
  The settings and the conversation of the playground in the local storage of the browser
  (\<open>components/playground/configStorage.js\<close>), the defaults (\<open>constants/playground.constants.js\<close>), and
  the settings of the page (\<open>hooks/playground/usePlaygroundState.js\<close>). The storage is a map from keys to
  texts; a write may be refused (for example when the quota is exceeded), which the code logs and ignores.
\<close>

subsection \<open>Defaults\<close>

definition DEFAULT_INPUTS :: jsobj where
  "DEFAULT_INPUTS = [(js ''model'', JStr (js ''gpt-4o'')), (js ''group'', JStr []), (js ''temperature'', JNum (rnd (7 / 10))),
     (js ''top_p'', JNum (Num 1)), (js ''max_tokens'', JNum (Num 4096)), (js ''frequency_penalty'', JNum (Num 0)),
     (js ''presence_penalty'', JNum (Num 0)), (js ''seed'', JNull), (js ''stream'', JBool True), (js ''imageEnabled'', JBool False),
     (js ''imageUrls'', JArr [JStr []]), (js ''videoDuration'', JNum (Num 5)), (js ''videoAspectRatio'', JStr (js ''16:9'')),
     (js ''videoResolution'', JStr (js ''720p'')), (js ''videoSeed'', JNull)]"

definition DEFAULT_PARAMETERS :: jsobj where
  "DEFAULT_PARAMETERS = [(js ''temperature'', JBool True), (js ''top_p'', JBool True), (js ''max_tokens'', JBool False),
     (js ''frequency_penalty'', JBool True), (js ''presence_penalty'', JBool True), (js ''seed'', JBool False),
     (js ''videoDuration'', JBool False), (js ''videoAspectRatio'', JBool False), (js ''videoResolution'', JBool False),
     (js ''videoSeed'', JBool False)]"

definition DEFAULT_CONFIG :: jsobj where
  "DEFAULT_CONFIG = [(js ''inputs'', JObj DEFAULT_INPUTS), (js ''parameterEnabled'', JObj DEFAULT_PARAMETERS),
     (js ''systemPrompt'', JStr []), (js ''showDebugPanel'', JBool False), (js ''customRequestMode'', JBool False),
     (js ''customRequestBody'', JStr [])]"

definition MSG_default_user :: jstring where "MSG_default_user = [0x9ED8, 0x8BA4, 0x7528, 0x6237, 0x6D88, 0x606F]"
definition MSG_default_assistant :: jstring where "MSG_default_assistant = [0x9ED8, 0x8BA4, 0x52A9, 0x624B, 0x6D88, 0x606F]"

definition getDefaultMessages :: "i18n \<Rightarrow> message list" where
  "getDefaultMessages t =
     [[(js ''role'', JStr (js ''user'')), (js ''id'', JStr (js ''2'')), (js ''createAt'', JNum (Num 1715676751919)),
       (js ''content'', JStr (t MSG_default_user []))],
      [(js ''role'', JStr (js ''assistant'')), (js ''id'', JStr (js ''3'')), (js ''createAt'', JNum (Num 1715676751919)),
       (js ''content'', JStr (t MSG_default_assistant [])), (js ''reasoningContent'', JStr []), (js ''isReasoningExpanded'', JBool False)]]"

subsection \<open>The local storage\<close>

type_synonym storage = "jstring \<rightharpoonup> jstring"

definition STORAGE_CONFIG :: jstring where "STORAGE_CONFIG = js ''playground_config''"
definition STORAGE_MESSAGES :: jstring where "STORAGE_MESSAGES = js ''playground_messages''"

text \<open>\<open>localStorage.setItem\<close>; a refused write throws, which every caller catches.\<close>

definition set_item :: "bool \<Rightarrow> jstring \<Rightarrow> jstring \<Rightarrow> storage \<Rightarrow> storage" where
  "set_item accepted k v st = (if accepted then st(k \<mapsto> v) else st)"

definition saveConfig :: "bool \<Rightarrow> jstring \<Rightarrow> jsobj \<Rightarrow> storage \<Rightarrow> storage" where
  "saveConfig accepted now config st =
     set_item accepted STORAGE_CONFIG (json_str (JObj (obj_set (js ''timestamp'') (JStr now) config))) st"

definition messages_val :: "message list \<Rightarrow> jsval" where
  "messages_val ms = JArr (map JObj ms)"

definition saveMessages :: "bool \<Rightarrow> jstring \<Rightarrow> jsval \<Rightarrow> storage \<Rightarrow> storage" where
  "saveMessages accepted now messages st =
     set_item accepted STORAGE_MESSAGES (json_str (JObj [(js ''messages'', messages), (js ''timestamp'', JStr now)])) st"

text \<open>\<open>{...v}\<close>: the own enumerable properties of a value.\<close>

definition spread :: "jsval \<Rightarrow> jsobj" where
  "spread v = (case v of
       JObj ob \<Rightarrow> ob
     | JArr vs \<Rightarrow> map (\<lambda>i. (dec i, vs ! i)) [0..<length vs]
     | JStr s \<Rightarrow> map (\<lambda>i. (dec i, JStr [s ! i])) [0..<length s]
     | _ \<Rightarrow> [])"

text \<open>\<open>parseInt(v, 10)\<close>, or the value itself when that is not a number.\<close>

definition int_or_self :: "jsval \<Rightarrow> jsval res" where
  "int_or_self v = rbind (js_String v) (\<lambda>s. Inr (if parse_int10 s = NaN then v else JNum (parse_int10 s)))"

definition merge_config :: "jsval \<Rightarrow> jsobj res" where
  "merge_config parsedConfig =
     rbind (int_or_self (opt_prop (opt_prop parsedConfig (js ''inputs'')) (js ''max_tokens''))) (\<lambda>max_tokens.
     rbind (get_prop parsedConfig (js ''inputs'')) (\<lambda>inputs.
       Inr [(js ''inputs'', JObj (obj_set (js ''max_tokens'') max_tokens (obj_merge DEFAULT_INPUTS (spread inputs)))),
            (js ''parameterEnabled'', JObj (obj_merge DEFAULT_PARAMETERS (spread (opt_prop parsedConfig (js ''parameterEnabled''))))),
            (js ''showDebugPanel'', js_or (opt_prop parsedConfig (js ''showDebugPanel'')) (JBool False)),
            (js ''customRequestMode'', js_or (opt_prop parsedConfig (js ''customRequestMode'')) (JBool False)),
            (js ''customRequestBody'', js_or (opt_prop parsedConfig (js ''customRequestBody'')) (JStr []))]))"

definition loadConfig :: "storage \<Rightarrow> jsobj" where
  "loadConfig st = (case st STORAGE_CONFIG of
       None \<Rightarrow> DEFAULT_CONFIG
     | Some savedConfig \<Rightarrow>
         if savedConfig = [] then DEFAULT_CONFIG
         else (case json_parse savedConfig of
                 None \<Rightarrow> DEFAULT_CONFIG
               | Some parsedConfig \<Rightarrow> (case merge_config parsedConfig of Inl _ \<Rightarrow> DEFAULT_CONFIG | Inr c \<Rightarrow> c)))"

definition stored_field :: "storage \<Rightarrow> jstring \<Rightarrow> jstring \<Rightarrow> jsval" where
  "stored_field st k field = (case st k of
       None \<Rightarrow> JNull
     | Some saved \<Rightarrow>
         if saved = [] then JNull
         else (case json_parse saved of
                 None \<Rightarrow> JNull
               | Some parsed \<Rightarrow> (case get_prop parsed field of Inl _ \<Rightarrow> JNull | Inr v \<Rightarrow> js_or v JNull)))"

definition loadMessages :: "storage \<Rightarrow> jsval" where
  "loadMessages st = stored_field st STORAGE_MESSAGES (js ''messages'')"

definition clearConfig :: "storage \<Rightarrow> storage" where
  "clearConfig st = st(STORAGE_CONFIG := None, STORAGE_MESSAGES := None)"

definition clearMessages :: "storage \<Rightarrow> storage" where
  "clearMessages st = st(STORAGE_MESSAGES := None)"

definition hasStoredConfig :: "storage \<Rightarrow> bool" where
  "hasStoredConfig st \<longleftrightarrow> st STORAGE_CONFIG \<noteq> None"

definition getConfigTimestamp :: "storage \<Rightarrow> jsval" where
  "getConfigTimestamp st = stored_field st STORAGE_CONFIG (js ''timestamp'')"

text \<open>The text of the exported file; \<open>messages\<close> is \<open>null\<close> when the stored ones are to be exported.\<close>

definition exportConfig :: "jstring \<Rightarrow> jsobj \<Rightarrow> jsval \<Rightarrow> storage \<Rightarrow> jstring" where
  "exportConfig now config messages st =
     json_ind 0 (JObj (obj_merge config [(js ''messages'', js_or messages (loadMessages st)),
       (js ''exportTime'', JStr now), (js ''version'', JStr (js ''1.0''))]))"

definition MSG_bad_format :: jstring where "MSG_bad_format = [0x914D, 0x7F6E, 0x6587, 0x4EF6, 0x683C, 0x5F0F, 0x65E0, 0x6548]"
definition MSG_bad_file :: jstring where "MSG_bad_file = [0x89E3, 0x6790, 0x914D, 0x7F6E, 0x6587, 0x4EF6, 0x5931, 0x8D25] @ js '': ''"

text \<open>
  Reading an imported file: the promise resolves with the configuration or is rejected with an error
  message. The engine's texts of a TypeError and of a syntax error are parameters.
\<close>

definition importConfig :: "bool \<Rightarrow> api_env \<Rightarrow> jstring \<Rightarrow> storage \<Rightarrow> (jstring + jsval) \<times> storage" where
  "importConfig accepted env file st = (case json_parse file of
       None \<Rightarrow> (Inl (MSG_bad_file @ ae_syntaxErrorMessage env file), st)
     | Some importedConfig \<Rightarrow>
         (case get_prop importedConfig (js ''inputs'') of
            Inl e \<Rightarrow> (Inl (MSG_bad_file @ api_exn_message env e), st)
          | Inr inputs \<Rightarrow>
              if truthy inputs \<and> truthy (opt_prop importedConfig (js ''parameterEnabled'')) then
                (Inr importedConfig,
                 case opt_prop importedConfig (js ''messages'') of
                   JArr vs \<Rightarrow> saveMessages accepted (ae_now env) (JArr vs) st
                 | _ \<Rightarrow> st)
              else (Inl MSG_bad_format, st)))"

subsection \<open>What reloading keeps\<close>

lemma get_own_entry: "get_own ((k, v) # ob) k' = (if k' = k then v else get_own ob k')"
  by (simp add: get_own_def)

lemma get_own_obj_merge:
  "distinct (map fst b) \<Longrightarrow> get_own (obj_merge a b) k = (if k \<in> fst ` set b then get_own b k else get_own a k)"
proof (induction b arbitrary: a)
  case (Cons kv b)
  then show ?case by (cases kv; cases "k \<in> fst ` set b"; cases "k = fst kv") (simp_all add: get_own_entry)
qed simp

lemma get_own_defined: "get_own ob k \<noteq> JUndef \<Longrightarrow> k \<in> fst ` set ob"
  by (metis get_own_def map_of_eq_None_iff option.simps(4))

lemma load_saved_messages:
  assumes "json_readable (messages_val ms)"
  shows "loadMessages (saveMessages True now (messages_val ms) st) = json_nf (messages_val ms) \<and>
    (\<forall>k. k \<noteq> STORAGE_MESSAGES \<longrightarrow> saveMessages True now (messages_val ms) st k = st k)"
proof -
  let ?ob = "[(js ''messages'', messages_val ms), (js ''timestamp'', JStr now)]"
  have "json_readable (JObj ?ob)" using assms by (simp add: obj_canon_names is_digit_def)
  then have "json_parse (json_str (JObj ?ob)) = Some (json_nf (JObj ?ob))" by (rule compact.dec_enc_norm)
  moreover have "json_str (JObj ?ob) \<noteq> []" by simp
  ultimately show ?thesis
    by (simp add: loadMessages_def stored_field_def saveMessages_def set_item_def get_prop_def get_own_def js_or_def messages_val_def
        del: json_str.simps)
qed

text \<open>
  C27. The conversation survives a reload: what was saved is what is loaded, up to numbers that JSON cannot
  express, and neither the settings nor anything else in the storage changes.
\<close>

theorem messages_roundtrip:
  assumes "json_readable (messages_val ms)"
  shows "loadMessages (saveMessages True now (messages_val ms) st) = json_nf (messages_val ms) \<and>
    (\<forall>k. k \<noteq> STORAGE_MESSAGES \<longrightarrow> saveMessages True now (messages_val ms) st k = st k)"
  using assms by (rule load_saved_messages)

theorem messages_roundtrip_witness:
  "loadMessages (saveMessages True [] (messages_val [sample_question]) Map.empty) = messages_val [sample_question]"
proof -
  have "json_wf (messages_val [sample_question])" by (simp add: messages_val_def sample_question_def obj_canon_names is_digit_def)
  then show ?thesis using messages_roundtrip [of "[sample_question]" "[]" Map.empty] by (simp add: json_wf_readable json_nf_wf)
qed

text \<open>The inputs after a reload.\<close>

definition reloaded_inputs :: "jsobj \<Rightarrow> jsval \<Rightarrow> jstring \<Rightarrow> jsval" where
  "reloaded_inputs inputs max_tokens k =
     (if k = js ''max_tokens'' then max_tokens else if k \<in> fst ` set inputs then get_own inputs k else get_own DEFAULT_INPUTS k)"

lemma json_wf_obj: "json_wf (JObj ob) \<Longrightarrow> distinct (map fst ob) \<and> (k \<in> fst ` set ob \<longrightarrow> json_wf (get_own ob k))"
  by (force simp: obj_canon_def get_own_def split: option.split dest: map_of_SomeD)

lemma merge_config_objects:
  assumes "get_own config (js ''inputs'') = JObj inputs" and "get_own config (js ''parameterEnabled'') = JObj params"
    and "int_or_self (get_own inputs (js ''max_tokens'')) = Inr max_tokens"
    and "distinct (map fst inputs)" and "distinct (map fst params)"
  shows "\<exists>c inp par. merge_config (JObj config) = Inr c \<and> get_own c (js ''inputs'') = JObj inp \<and>
    get_own c (js ''parameterEnabled'') = JObj par \<and> get_own inp = reloaded_inputs inputs max_tokens \<and>
    (\<forall>k. get_own par k = (if k \<in> fst ` set params then get_own params k else get_own DEFAULT_PARAMETERS k)) \<and>
    (\<forall>k \<in> {js ''showDebugPanel'', js ''customRequestMode''}. get_own c k = js_or (get_own config k) (JBool False)) \<and>
    get_own c (js ''customRequestBody'') = js_or (get_own config (js ''customRequestBody'')) (JStr [])"
  using assms
  by (simp add: merge_config_def opt_prop_def get_prop_def spread_def)
     (simp add: get_own_def [of "_ # _"] get_own_obj_merge reloaded_inputs_def fun_eq_iff)

text \<open>
  Saving the settings and reloading the page keeps every input and every switch that was saved and
  adds the defaults of the missing ones, with one exception: the token limit is read as an integer, and a
  limit that is missing stays missing instead of getting its default.
\<close>

theorem settings_roundtrip:
  assumes "json_wf (JObj config)" and "get_own config (js ''inputs'') = JObj inputs"
    and "get_own config (js ''parameterEnabled'') = JObj params"
    and "int_or_self (get_own inputs (js ''max_tokens'')) = Inr max_tokens"
  shows "\<exists>inp par. get_own (loadConfig (saveConfig True now config st)) (js ''inputs'') = JObj inp \<and>
    get_own (loadConfig (saveConfig True now config st)) (js ''parameterEnabled'') = JObj par \<and>
    get_own inp = reloaded_inputs inputs max_tokens \<and>
    (\<forall>k. get_own par k = (if k \<in> fst ` set params then get_own params k else get_own DEFAULT_PARAMETERS k)) \<and>
    get_own (loadConfig (saveConfig True now config st)) (js ''customRequestBody'') =
      js_or (get_own config (js ''customRequestBody'')) (JStr [])"
proof -
  let ?c = "obj_set (js ''timestamp'') (JStr now) config"
  have wf: "json_wf (JObj ?c)" by (rule json_wf_set [OF assms(1)]) simp
  have "js ''inputs'' \<in> fst ` set config" "js ''parameterEnabled'' \<in> fst ` set config"
    using assms(2,3) get_own_defined [of config] by auto
  then have "distinct (map fst inputs)" "distinct (map fst params)"
    using json_wf_obj [OF assms(1)] assms(2,3) json_wf_obj by metis+
  then obtain c inp par where c: "merge_config (JObj ?c) = Inr c" "get_own c (js ''inputs'') = JObj inp"
    "get_own c (js ''parameterEnabled'') = JObj par" "get_own inp = reloaded_inputs inputs max_tokens"
    "\<forall>k. get_own par k = (if k \<in> fst ` set params then get_own params k else get_own DEFAULT_PARAMETERS k)"
    "get_own c (js ''customRequestBody'') = js_or (get_own config (js ''customRequestBody'')) (JStr [])"
    using merge_config_objects [of ?c inputs params max_tokens] assms(2,3,4) by auto
  moreover have "loadConfig (saveConfig True now config st) = c"
    using json_parse_str [OF wf] c(1) by (simp add: loadConfig_def saveConfig_def set_item_def)
  ultimately show ?thesis by simp
qed

definition sample_config :: jsobj where
  "sample_config = [(js ''inputs'', JObj [(js ''model'', JStr (js ''m''))]), (js ''parameterEnabled'', JObj [])]"

theorem settings_roundtrip_witness:
  "\<exists>inp. get_own (loadConfig (saveConfig True [] sample_config Map.empty)) (js ''inputs'') = JObj inp \<and>
    get_own inp (js ''model'') = JStr (js ''m'') \<and> get_own inp (js ''group'') = JStr [] \<and> get_own inp (js ''max_tokens'') = JUndef"
proof -
  have "json_wf (JObj sample_config)" by (simp add: sample_config_def obj_canon_names is_digit_def)
  moreover have "parse_int10 (js ''undefined'') = NaN" by code_simp
  then have "int_or_self JUndef = Inr JUndef" by (simp add: int_or_self_def)
  moreover have "get_own DEFAULT_INPUTS (js ''group'') = JStr []" by (simp add: DEFAULT_INPUTS_def get_own_entry)
  ultimately show ?thesis
    using settings_roundtrip [of sample_config "[(js ''model'', JStr (js ''m''))]" "[]" JUndef "[]" Map.empty]
    by (auto simp: sample_config_def get_own_def [of "[]"] get_own_entry reloaded_inputs_def)
qed

end
