(* ===== verification/PlaygroundPage.thy ===== *)
theory PlaygroundPage
  imports PlaygroundStorage
begin

text \<open>
  The playground page: sending messages, the preview of the request, and the settings
  (\<open>pages/Playground/index.jsx\<close>, \<open>usePlaygroundState.js\<close>), and what can be done with a message
  (\<open>useMessageActions.jsx\<close>, \<open>useMessageEdit.jsx\<close>). A callback given to \<open>setTimeout\<close> is a task
  that runs later and holds the values its closure captured; lists to be saved wait in the queue \<open>ch_saves\<close>. The code finds a message by reference first: the
  argument \<open>same\<close> is the position of the very object in the list, if it is still there.
\<close>

subsection \<open>State\<close>

text \<open>The settings that a rendered function captures.\<close>

record settings =
  se_inputs :: jsobj
  se_parameterEnabled :: jsobj
  se_showDebugPanel :: jsval
  se_customRequestMode :: jsval
  se_customRequestBody :: jsval

datatype page_task =
    Task_send jsval settings
  | Task_image_off
  | Task_regenerate "message list" settings
  | Task_default_messages

text \<open>
  \<open>pg_messageId\<close> is the counter of \<open>generateMessageId\<close>, \<open>pg_hadMessages\<close> whether messages were loaded at the start,
  \<open>pg_confirm\<close> the open question after an edit: the edited messages and the position of the edited one.
\<close>

record page =
  pg_chat :: chat
  pg_settings :: settings
  pg_messageId :: nat
  pg_hadMessages :: bool
  pg_editingMessageId :: jsval
  pg_editValue :: jsval
  pg_confirm :: "(message list \<times> nat) option"
  pg_tasks :: "page_task list"
  pg_toasts :: "jstring list"
  pg_storage :: storage

definition set_messages :: "message list \<Rightarrow> page \<Rightarrow> page" where
  "set_messages ms p = p\<lparr>pg_chat := (pg_chat p)\<lparr>ch_message := ms\<rparr>\<rparr>"

text \<open>\<open>setTimeout(() => saveMessages(messages), 0)\<close>\<close>

definition schedule_save :: "message list \<Rightarrow> page \<Rightarrow> page" where
  "schedule_save ms p = p\<lparr>pg_chat := (pg_chat p)\<lparr>ch_saves := ch_saves (pg_chat p) @ [ms]\<rparr>\<rparr>"

definition toast :: "jstring \<Rightarrow> page \<Rightarrow> page" where
  "toast m p = p\<lparr>pg_toasts := pg_toasts p @ [m]\<rparr>"

definition add_task :: "page_task \<Rightarrow> page \<Rightarrow> page" where
  "add_task task p = p\<lparr>pg_tasks := pg_tasks p @ [task]\<rparr>"

subsection \<open>Loading the page\<close>

text \<open>The objects of an array. \<open>null\<close> in it makes every function that reads the messages throw; other values have no properties.\<close>

definition as_message :: "jsval \<Rightarrow> message res" where
  "as_message v = (case v of JObj ob \<Rightarrow> Inr ob | JNull \<Rightarrow> Inl TypeError | JUndef \<Rightarrow> Inl TypeError | _ \<Rightarrow> Inr [])"

definition as_messages :: "jsval \<Rightarrow> message list res" where
  "as_messages v = (case v of JArr vs \<Rightarrow> res_list (map as_message vs) | _ \<Rightarrow> Inl TypeError)"

definition OLD_greeting :: jstring where "OLD_greeting = [0x4F60, 0x597D]"
definition OLD_reply :: jstring where "OLD_reply = [0x4F60, 0x597D, 0xFF0C, 0x8BF7, 0x95EE, 0x6709, 0x4EC0, 0x4E48, 0x53EF, 0x4EE5, 0x5E2E, 0x52A9, 0x60A8, 0x7684, 0x5417, 0xFF1F]"
definition OLD_reply2 :: jstring where "OLD_reply2 = [0x4F60, 0x597D, 0xFF01, 0x5F88, 0x9AD8, 0x5174, 0x89C1, 0x5230, 0x4F60, 0x3002, 0x6709, 0x4EC0, 0x4E48, 0x6211, 0x53EF, 0x4EE5, 0x5E2E, 0x52A9, 0x4F60, 0x7684, 0x5417, 0xFF1F]"

text \<open>The stored messages are the default ones of an old version.\<close>

definition old_defaults :: "message list \<Rightarrow> bool" where
  "old_defaults loaded \<longleftrightarrow> length loaded = 2 \<and>
     get_own (loaded ! 0) (js ''id'') = JStr (js ''2'') \<and> get_own (loaded ! 1) (js ''id'') = JStr (js ''3'') \<and>
     (get_own (loaded ! 0) (js ''content'') = JStr OLD_greeting \<or>
      get_own (loaded ! 1) (js ''content'') = JStr OLD_reply \<or> get_own (loaded ! 1) (js ''content'') = JStr OLD_reply2)"

definition initial_messages :: "storage \<Rightarrow> (message list option \<times> storage) res" where
  "initial_messages st =
     (let loaded = loadMessages st in
      if \<not> truthy loaded then Inr (None, st)
      else rbind (as_messages loaded) (\<lambda>ms.
             if old_defaults ms then Inr (None, st(STORAGE_MESSAGES := None)) else Inr (Some ms, st)))"

definition obj_of :: "jsval \<Rightarrow> jsobj" where
  "obj_of v = (case v of JObj ob \<Rightarrow> ob | _ \<Rightarrow> [])"

definition loaded_settings :: "storage \<Rightarrow> settings" where
  "loaded_settings st =
     (let c = loadConfig st in
      \<lparr>se_inputs = obj_of (js_or (get_own c (js ''inputs'')) (JObj DEFAULT_INPUTS)),
       se_parameterEnabled = obj_of (js_or (get_own c (js ''parameterEnabled'')) (JObj DEFAULT_PARAMETERS)),
       se_showDebugPanel = js_or (get_own c (js ''showDebugPanel'')) (JBool False),
       se_customRequestMode = js_or (get_own c (js ''customRequestMode'')) (JBool False),
       se_customRequestBody = js_or (get_own c (js ''customRequestBody'')) (JStr [])\<rparr>)"

definition initial_chat :: "message list \<Rightarrow> chat" where
  "initial_chat ms = \<lparr>ch_message = ms,
     ch_debug = \<lparr>dd_request = JNull, dd_response = None, dd_timestamp = None, dd_sseMessages = None, dd_isStreaming = None\<rparr>,
     ch_tab = TAB_PREVIEW, ch_sse = None, ch_streams = [], ch_posts = [], ch_saves = []\<rparr>"

text \<open>The first render and the effect that shows the default messages when none were loaded.\<close>

definition mount_page :: "i18n \<Rightarrow> storage \<Rightarrow> page res" where
  "mount_page t st =
     rbind (initial_messages st) (\<lambda>(loaded, st').
       Inr \<lparr>pg_chat = initial_chat (case loaded of None \<Rightarrow> getDefaultMessages t | Some ms \<Rightarrow> ms),
            pg_settings = loaded_settings st, pg_messageId = 4, pg_hadMessages = (loaded \<noteq> None),
            pg_editingMessageId = JNull, pg_editValue = JStr [], pg_confirm = None, pg_tasks = [], pg_toasts = [], pg_storage = st'\<rparr>)"

text \<open>The effect that repairs a message that was being generated when the page was left.\<close>

definition repaired_message :: "message \<Rightarrow> message res" where
  "repaired_message lastMsg =
     rbind (processIncompleteThinkTags_val (js_or (get_own lastMsg (js ''content'')) (JStr []))
       (js_or (get_own lastMsg (js ''reasoningContent'')) (JStr []))) (\<lambda>(content, reasoningContent).
       Inr (obj_set (js ''isThinkingComplete'') (JBool True)
         (obj_set (js ''reasoningContent'') (js_or reasoningContent JNull)
           (obj_set (js ''content'') content (put_status COMPLETE lastMsg)))))"

definition repair_last :: "page \<Rightarrow> page res" where
  "repair_last p =
     (let ms = ch_message (pg_chat p) in
      if ms = [] then Inr p
      else if has_status (last ms) LOADING \<or> has_status (last ms) INCOMPLETE then
        rbind (repaired_message (last ms)) (\<lambda>m.
          let updatedMessages = butlast ms @ [m] in Inr (schedule_save updatedMessages (set_messages updatedMessages p)))
      else Inr p)"

definition load_page :: "i18n \<Rightarrow> storage \<Rightarrow> page res" where
  "load_page t st = rbind (mount_page t st) repair_last"

text \<open>The effect with the default messages runs again when the translation function changes.\<close>

definition language_changed :: "i18n \<Rightarrow> page \<Rightarrow> page" where
  "language_changed t p = (if pg_hadMessages p then p else set_messages (getDefaultMessages t) p)"

subsection \<open>Settings\<close>

definition handleInputChange :: "jstring \<Rightarrow> jsval \<Rightarrow> page \<Rightarrow> page" where
  "handleInputChange name v p =
     p\<lparr>pg_settings := (pg_settings p)\<lparr>se_inputs := obj_set name v (se_inputs (pg_settings p))\<rparr>\<rparr>"

definition handleParameterToggle :: "jstring \<Rightarrow> page \<Rightarrow> page" where
  "handleParameterToggle paramName p =
     (let enabled = se_parameterEnabled (pg_settings p) in
      p\<lparr>pg_settings := (pg_settings p)\<lparr>se_parameterEnabled :=
        obj_set paramName (JBool (\<not> truthy (get_own enabled paramName))) enabled\<rparr>\<rparr>)"

text \<open>The first scheduled save runs: \<open>saveMessagesImmediately\<close> with the list it was given.\<close>

definition run_save :: "bool \<Rightarrow> jstring \<Rightarrow> page \<Rightarrow> page" where
  "run_save accepted now p = (case ch_saves (pg_chat p) of
       [] \<Rightarrow> p
     | ms # rest \<Rightarrow> p\<lparr>pg_chat := (pg_chat p)\<lparr>ch_saves := rest\<rparr>,
         pg_storage := saveMessages accepted now (messages_val ms) (pg_storage p)\<rparr>)"

definition config_of :: "settings \<Rightarrow> jsobj" where
  "config_of s = [(js ''inputs'', JObj (se_inputs s)), (js ''parameterEnabled'', JObj (se_parameterEnabled s)),
     (js ''showDebugPanel'', se_showDebugPanel s), (js ''customRequestMode'', se_customRequestMode s),
     (js ''customRequestBody'', se_customRequestBody s)]"

text \<open>The timer of \<open>debouncedSaveConfig\<close> fires with the settings of the last change.\<close>

definition save_settings :: "bool \<Rightarrow> jstring \<Rightarrow> page \<Rightarrow> page" where
  "save_settings accepted now p = p\<lparr>pg_storage := saveConfig accepted now (config_of (pg_settings p)) (pg_storage p)\<rparr>"

definition import_settings :: "jsval \<Rightarrow> settings \<Rightarrow> settings res" where
  "import_settings importedConfig s =
     rbind (get_prop importedConfig (js ''inputs'')) (\<lambda>inputs.
     rbind (if truthy inputs
            then rbind (int_or_self (opt_prop inputs (js ''max_tokens''))) (\<lambda>max_tokens.
              Inr (obj_set (js ''max_tokens'') max_tokens (obj_merge (se_inputs s) (spread inputs))))
            else Inr (se_inputs s)) (\<lambda>newInputs.
       let field = opt_prop importedConfig; params = field (js ''parameterEnabled'')
       in Inr \<lparr>se_inputs = newInputs,
            se_parameterEnabled = (if truthy params then obj_merge (se_parameterEnabled s) (spread params) else se_parameterEnabled s),
            se_showDebugPanel = (case field (js ''showDebugPanel'') of JBool v \<Rightarrow> JBool v | _ \<Rightarrow> se_showDebugPanel s),
            se_customRequestMode = js_or (field (js ''customRequestMode'')) (se_customRequestMode s),
            se_customRequestBody = js_or (field (js ''customRequestBody'')) (se_customRequestBody s)\<rparr>))"

definition handleConfigImport :: "jsval \<Rightarrow> page \<Rightarrow> page res" where
  "handleConfigImport importedConfig p =
     rbind (import_settings importedConfig (pg_settings p)) (\<lambda>s.
       let p' = p\<lparr>pg_settings := s\<rparr> in
       case opt_prop importedConfig (js ''messages'') of
         JArr vs \<Rightarrow> rbind (as_messages (JArr vs)) (\<lambda>ms. Inr (set_messages ms p'))
       | _ \<Rightarrow> Inr p')"

definition DEFAULT_SETTINGS :: settings where
  "DEFAULT_SETTINGS = \<lparr>se_inputs = DEFAULT_INPUTS, se_parameterEnabled = DEFAULT_PARAMETERS, se_showDebugPanel = JBool False,
     se_customRequestMode = JBool False, se_customRequestBody = JStr []\<rparr>"

definition handleConfigReset :: "bool \<Rightarrow> page \<Rightarrow> page" where
  "handleConfigReset resetMessages p =
     (let p' = p\<lparr>pg_settings := DEFAULT_SETTINGS\<rparr> in
      if resetMessages then add_task Task_default_messages (set_messages [] p') else p')"

subsection \<open>Sending\<close>

definition MSG_bad_custom_body :: jstring where "MSG_bad_custom_body = [0x81EA, 0x5B9A, 0x4E49, 0x8BF7, 0x6C42, 0x4F53, 0x683C, 0x5F0F, 0x9519, 0x8BEF, 0xFF0C, 0x8BF7, 0x68C0, 0x67E5] @ js ''JSON'' @ [0x683C, 0x5F0F]"

text \<open>\<open>imageUrls.filter((url) => url.trim() !== '')\<close>\<close>

definition text_item :: "jsval \<Rightarrow> jstring res" where
  "text_item v = (case v of JStr s \<Rightarrow> Inr s | _ \<Rightarrow> Inl TypeError)"

definition valid_image_urls :: "jsval \<Rightarrow> jstring list res" where
  "valid_image_urls imageUrls = (case imageUrls of
       JArr vs \<Rightarrow> rbind (res_list (map text_item vs)) (\<lambda>urls. Inr (filter (\<lambda>url. trim url \<noteq> []) urls))
     | _ \<Rightarrow> Inl TypeError)"

definition page_send_request :: "api_env \<Rightarrow> jsval \<Rightarrow> bool \<Rightarrow> jstring option \<Rightarrow> page \<Rightarrow> page res" where
  "page_send_request env payload isStream startError p =
     rbind (sendRequest env payload isStream startError (pg_chat p)) (\<lambda>ch. Inr (p\<lparr>pg_chat := ch\<rparr>))"

definition send_custom :: "api_env \<Rightarrow> jstring option \<Rightarrow> jsval \<Rightarrow> message \<Rightarrow> message \<Rightarrow> page \<Rightarrow> page res" where
  "send_custom env startError customPayload userMessage loadingMessage p =
     (let newMessages = ch_message (pg_chat p) @ [userMessage, loadingMessage] in
      rbind (get_prop customPayload (js ''stream'')) (\<lambda>stream.
        page_send_request env customPayload (stream \<noteq> JBool False) startError
          (schedule_save newMessages (set_messages newMessages p))))"

definition send_default :: "api_env \<Rightarrow> jstring option \<Rightarrow> settings \<Rightarrow> message \<Rightarrow> message \<Rightarrow> page \<Rightarrow> page res" where
  "send_default env startError s userMessage loadingMessage p =
     (let newMessages = ch_message (pg_chat p) @ [userMessage];
          payload = buildApiPayload (map JObj newMessages) [] (se_inputs s) (se_parameterEnabled s);
          p' = (if truthy (get_own (se_inputs s) (js ''imageEnabled'')) then add_task Task_image_off p else p);
          messagesWithLoading = newMessages @ [loadingMessage]
      in page_send_request env (JObj payload) (truthy (get_own (se_inputs s) (js ''stream''))) startError
           (schedule_save messagesWithLoading (set_messages messagesWithLoading p')))"

text \<open>\<open>now\<close> is \<open>Date.now()\<close>, \<open>s\<close> the settings the function captured.\<close>

definition onMessageSend :: "api_env \<Rightarrow> jsnum \<Rightarrow> jstring option \<Rightarrow> settings \<Rightarrow> jsval \<Rightarrow> page \<Rightarrow> page res" where
  "onMessageSend env now startError s content p =
     (let (userMessage, n1) = createMessage now (js ''user'') content [] (pg_messageId p);
          (loadingMessage, n2) = createLoadingAssistantMessage now n1;
          p = p\<lparr>pg_messageId := n2\<rparr>
      in if truthy (se_customRequestMode s) \<and> truthy (se_customRequestBody s) then
           (case js_String (se_customRequestBody s) of
              Inl _ \<Rightarrow> Inr (toast MSG_bad_custom_body p)
            | Inr body \<Rightarrow>
                (case json_parse body of
                   None \<Rightarrow> Inr (toast MSG_bad_custom_body p)
                 | Some customPayload \<Rightarrow> send_custom env startError customPayload (obj_of userMessage) (obj_of loadingMessage) p))
         else rbind (valid_image_urls (get_own (se_inputs s) (js ''imageUrls''))) (\<lambda>validImageUrls.
           let messageContent = buildMessageContent content validImageUrls (truthy (get_own (se_inputs s) (js ''imageEnabled'')));
               (userMessageWithImages, n3) = createMessage now (js ''user'') messageContent [] n2
           in send_default env startError s (obj_of userMessageWithImages) (obj_of loadingMessage) (p\<lparr>pg_messageId := n3\<rparr>)))"

subsection \<open>The preview of the request\<close>

definition MSG_sample :: jstring where "MSG_sample = [0x793A, 0x4F8B, 0x6D88, 0x606F]"

text \<open>The loop over the messages from the last one: the pictures go into the last message of the user.\<close>

fun last_user_index :: "message list \<Rightarrow> nat \<Rightarrow> nat option" where
  "last_user_index ms 0 = None"
| "last_user_index ms (Suc i) =
     (if get_own (ms ! i) (js ''role'') = JStr (js ''user'') then Some i else last_user_index ms i)"

definition preview_messages :: "jsobj \<Rightarrow> message list \<Rightarrow> message list res" where
  "preview_messages inputs ms = (case last_user_index ms (length ms) of
       None \<Rightarrow> Inr ms
     | Some i \<Rightarrow>
         if truthy (get_own inputs (js ''imageEnabled'')) \<and> truthy (get_own inputs (js ''imageUrls'')) then
           rbind (valid_image_urls (get_own inputs (js ''imageUrls''))) (\<lambda>validImageUrls.
             if validImageUrls \<noteq> [] then
               rbind (getTextContent (JObj (ms ! i))) (\<lambda>textContent.
                 Inr (ms[i := obj_set (js ''content'') (buildMessageContent (js_or textContent (JStr MSG_sample)) validImageUrls True) (ms ! i)]))
             else Inr ms)
         else Inr ms)"

definition constructPreviewPayload :: "settings \<Rightarrow> message list \<Rightarrow> jsval" where
  "constructPreviewPayload s message =
     (let custom = (if truthy (se_customRequestMode s) \<and> truthy (se_customRequestBody s) then
            (case se_customRequestBody s of JStr body \<Rightarrow> if trim body \<noteq> [] then Inr (json_parse body) else Inr None | _ \<Rightarrow> Inl TypeError)
          else Inr None)
      in case rbind custom (\<lambda>parsed. case parsed of
                Some v \<Rightarrow> Inr v
              | None \<Rightarrow> rbind (preview_messages (se_inputs s) message) (\<lambda>messages.
                  Inr (JObj (buildApiPayload (map JObj messages) [] (se_inputs s) (se_parameterEnabled s))))) of
           Inl _ \<Rightarrow> JNull
         | Inr v \<Rightarrow> v)"

subsection \<open>Actions on a message\<close>

definition toggleReasoningExpansion :: "jsval \<Rightarrow> page \<Rightarrow> page" where
  "toggleReasoningExpansion messageId p =
     set_messages (map (\<lambda>msg.
       if get_own msg (js ''id'') = messageId \<and> get_own msg (js ''role'') = JStr (js ''assistant'')
       then obj_set (js ''isReasoningExpanded'') (JBool (\<not> truthy (get_own msg (js ''isReasoningExpanded'')))) msg
       else msg) (ch_message (pg_chat p))) p"

definition handleClearMessages :: "page \<Rightarrow> page" where
  "handleClearMessages p = schedule_save [] (set_messages [] p)"

definition handlePasteImage :: "jstring \<Rightarrow> page \<Rightarrow> page res" where
  "handlePasteImage base64Data p =
     (let inputs = se_inputs (pg_settings p) in
      if \<not> truthy (get_own inputs (js ''imageEnabled'')) then Inr p
      else (case js_or (get_own inputs (js ''imageUrls'')) (JArr []) of
              JArr urls \<Rightarrow> Inr (handleInputChange (js ''imageUrls'') (JArr (urls @ [JStr base64Data])) p)
            | JStr s \<Rightarrow> Inr (handleInputChange (js ''imageUrls'') (JArr (map (\<lambda>c. JStr [c]) s @ [JStr base64Data])) p)
            | _ \<Rightarrow> Inl TypeError))"

text \<open>The position by reference, or else the first message with the id of the target.\<close>

definition message_index :: "nat option \<Rightarrow> message \<Rightarrow> message list \<Rightarrow> nat option" where
  "message_index same target prevMessages = (case same of
       Some i \<Rightarrow> Some i
     | None \<Rightarrow> find_index (\<lambda>msg. get_own msg (js ''id'') = get_own target (js ''id'')) prevMessages)"

definition resend_from :: "nat \<Rightarrow> message \<Rightarrow> page \<Rightarrow> page res" where
  "resend_from i userMessage p =
     rbind (getTextContent (JObj userMessage)) (\<lambda>contentToSend.
       Inr (add_task (Task_send contentToSend (pg_settings p)) (set_messages (take i (ch_message (pg_chat p))) p)))"

definition handleMessageReset :: "nat option \<Rightarrow> message \<Rightarrow> page \<Rightarrow> page res" where
  "handleMessageReset same target p =
     (let prevMessages = ch_message (pg_chat p); role = get_own target (js ''role'') in
      case message_index same target prevMessages of
        None \<Rightarrow> Inr p
      | Some messageIndex \<Rightarrow>
          if role = JStr (js ''user'') then resend_from messageIndex target p
          else if role = JStr (js ''assistant'') \<or> role = JStr (js ''system'') then
            (case last_user_index prevMessages messageIndex of
               None \<Rightarrow> Inr p
             | Some userMessageIndex \<Rightarrow> resend_from userMessageIndex (prevMessages ! userMessageIndex) p)
          else Inr p)"

definition MSG_deleted_with_reply :: jstring where "MSG_deleted_with_reply = [0x5DF2, 0x5220, 0x9664, 0x6D88, 0x606F, 0x53CA, 0x5176, 0x56DE, 0x590D]"
definition MSG_deleted :: jstring where "MSG_deleted = [0x6D88, 0x606F, 0x5DF2, 0x5220, 0x9664]"

text \<open>Deleting after the user has confirmed: with the message of a user goes the reply that follows it.\<close>

definition handleMessageDelete :: "i18n \<Rightarrow> nat option \<Rightarrow> message \<Rightarrow> page \<Rightarrow> page" where
  "handleMessageDelete t same target p =
     (let prevMessages = ch_message (pg_chat p) in
      case message_index same target prevMessages of
        None \<Rightarrow> p
      | Some i \<Rightarrow>
          (let withReply = (get_own target (js ''role'') = JStr (js ''user'') \<and> i < length prevMessages - 1 \<and>
                 get_own (prevMessages ! (i + 1)) (js ''role'') = JStr (js ''assistant''));
               updatedMessages = (if withReply then take i prevMessages @ drop (i + 2) prevMessages
                 else filter (\<lambda>msg. get_own msg (js ''id'') \<noteq> get_own target (js ''id'')) prevMessages)
           in toast (t (if withReply then MSG_deleted_with_reply else MSG_deleted) [])
                (schedule_save updatedMessages (set_messages updatedMessages p))))"

definition is_reply_role :: "jsval \<Rightarrow> bool" where
  "is_reply_role role \<longleftrightarrow> role = JStr (js ''assistant'') \<or> role = JStr (js ''system'')"

definition MSG_role_system :: jstring where "MSG_role_system = [0x5DF2, 0x5207, 0x6362, 0x4E3A] @ js ''System'' @ [0x89D2, 0x8272]"
definition MSG_role_assistant :: jstring where "MSG_role_assistant = [0x5DF2, 0x5207, 0x6362, 0x4E3A] @ js ''Assistant'' @ [0x89D2, 0x8272]"

definition handleRoleToggle :: "i18n \<Rightarrow> message \<Rightarrow> page \<Rightarrow> page" where
  "handleRoleToggle t target p =
     (let role = get_own target (js ''role'') in
      if \<not> is_reply_role role then p
      else (let newRole = (if role = JStr (js ''assistant'') then js ''system'' else js ''assistant'');
                updatedMessages = map (\<lambda>msg.
                  if get_own msg (js ''id'') = get_own target (js ''id'') \<and> is_reply_role (get_own msg (js ''role''))
                  then obj_set (js ''role'') (JStr newRole) msg else msg) (ch_message (pg_chat p))
            in toast (t (if newRole = js ''system'' then MSG_role_system else MSG_role_assistant) [])
                 (schedule_save updatedMessages (set_messages updatedMessages p))))"

subsection \<open>Editing a message\<close>

definition handleMessageEdit :: "message \<Rightarrow> page \<Rightarrow> page res" where
  "handleMessageEdit target p =
     rbind (getTextContent (JObj target)) (\<lambda>editableContent.
       Inr (p\<lparr>pg_editingMessageId := get_own target (js ''id''), pg_editValue := editableContent\<rparr>))"

definition handleEditCancel :: "page \<Rightarrow> page" where
  "handleEditCancel p = p\<lparr>pg_editingMessageId := JNull, pg_editValue := JStr []\<rparr>"

text \<open>\<open>item.type === 'text' ? { ...item, text } : item\<close>\<close>

definition edit_item :: "jstring \<Rightarrow> jsval \<Rightarrow> jsval res" where
  "edit_item text' item =
     rbind (get_prop item (js ''type'')) (\<lambda>ty.
       Inr (if ty = JStr (js ''text'') then JObj (obj_set (js ''text'') (JStr text') (spread item)) else item))"

definition edited_content :: "jstring \<Rightarrow> jsval \<Rightarrow> jsval res" where
  "edited_content text' content = (case content of
       JArr items \<Rightarrow> rbind (res_list (map (edit_item text') items)) (\<lambda>items'. Inr (JArr items'))
     | _ \<Rightarrow> Inr (JStr text'))"

definition MSG_edited :: jstring where "MSG_edited = [0x6D88, 0x606F, 0x5DF2, 0x66F4, 0x65B0]"

text \<open>Saving an edit; when a reply follows the edited message of the user, the page asks first.\<close>

definition apply_edit :: "i18n \<Rightarrow> nat option \<Rightarrow> jstring \<Rightarrow> page \<Rightarrow> page res" where
  "apply_edit t same text' p =
     (let prevMessages = ch_message (pg_chat p); editId = pg_editingMessageId p in
      case message_index same [(js ''id'', editId)] prevMessages of
        None \<Rightarrow> Inl TypeError
      | Some i \<Rightarrow>
          (let target = prevMessages ! i in
           rbind (edited_content text' (get_own target (js ''content''))) (\<lambda>newContent.
             let updatedMessages = map (\<lambda>msg. if get_own msg (js ''id'') = editId then obj_set (js ''content'') newContent msg else msg)
                   prevMessages;
                 asks = (get_own target (js ''role'') = JStr (js ''user'') \<and> i < length prevMessages - 1 \<and>
                   get_own (prevMessages ! (i + 1)) (js ''role'') = JStr (js ''assistant''));
                 p' = (if asks then p\<lparr>pg_confirm := Some (updatedMessages, i)\<rparr>
                       else schedule_save updatedMessages (set_messages updatedMessages p))
             in Inr (toast (t MSG_edited []) (handleEditCancel p')))))"

definition handleEditSave :: "i18n \<Rightarrow> nat option \<Rightarrow> page \<Rightarrow> page res" where
  "handleEditSave t same p =
     (if \<not> truthy (pg_editingMessageId p) then Inr p
      else rbind (text_item (pg_editValue p)) (\<lambda>editValue.
        if trim editValue = [] then Inr p else apply_edit t same (trim editValue) p))"

definition confirm_regenerate :: "page \<Rightarrow> page" where
  "confirm_regenerate p = (case pg_confirm p of
       None \<Rightarrow> p
     | Some (updatedMessages, messageIndex) \<Rightarrow>
         (let messagesUntilUser = take (messageIndex + 1) updatedMessages in
          add_task (Task_regenerate messagesUntilUser (pg_settings p))
            (schedule_save messagesUntilUser (set_messages messagesUntilUser (p\<lparr>pg_confirm := None\<rparr>)))))"

definition confirm_keep :: "page \<Rightarrow> page" where
  "confirm_keep p = (case pg_confirm p of
       None \<Rightarrow> p
     | Some (updatedMessages, messageIndex) \<Rightarrow> schedule_save updatedMessages (set_messages updatedMessages (p\<lparr>pg_confirm := None\<rparr>)))"

subsection \<open>Tasks and events\<close>

definition regenerate :: "api_env \<Rightarrow> jsnum \<Rightarrow> jstring option \<Rightarrow> message list \<Rightarrow> settings \<Rightarrow> page \<Rightarrow> page res" where
  "regenerate env now startError messagesUntilUser s p =
     (let payload = buildApiPayload (map JObj messagesUntilUser) [] (se_inputs s) (se_parameterEnabled s);
          (loadingMessage, n) = createLoadingAssistantMessage now (pg_messageId p)
      in page_send_request env (JObj payload) (truthy (get_own (se_inputs s) (js ''stream''))) startError
           (set_messages (ch_message (pg_chat p) @ [obj_of loadingMessage]) (p\<lparr>pg_messageId := n\<rparr>)))"

fun run_page_task :: "api_env \<Rightarrow> jsnum \<Rightarrow> jstring option \<Rightarrow> page_task \<Rightarrow> page \<Rightarrow> page res" where
  "run_page_task env now startError (Task_send content s) p = onMessageSend env now startError s content p"
| "run_page_task env now startError Task_image_off p = Inr (handleInputChange (js ''imageEnabled'') (JBool False) p)"
| "run_page_task env now startError (Task_regenerate ms s) p = regenerate env now startError ms s p"
| "run_page_task env now startError Task_default_messages p = Inr (set_messages (getDefaultMessages (ae_t env)) p)"

text \<open>The first task of the queue.\<close>

definition run_next_task :: "api_env \<Rightarrow> jsnum \<Rightarrow> jstring option \<Rightarrow> page \<Rightarrow> page res" where
  "run_next_task env now startError p = (case pg_tasks p of
       [] \<Rightarrow> Inr p
     | task # tasks \<Rightarrow> run_page_task env now startError task (p\<lparr>pg_tasks := tasks\<rparr>))"

end
