(* ===== verification/PlaygroundActions.thy ===== *)
theory PlaygroundActions
  imports PlaygroundPage
begin

text \<open>
  What the playground page does to the conversation: sending appends the question and an open reply and
  posts exactly the conversation, deleting and regenerating remove the right messages as long as ids
  differ, and what a reload brings back.
\<close>

subsection \<open>Sending\<close>

lemma page_updates [simp]:
  "pg_chat (set_messages ms p) = (pg_chat p)\<lparr>ch_message := ms\<rparr>"
  "pg_chat (schedule_save ms p) = (pg_chat p)\<lparr>ch_saves := ch_saves (pg_chat p) @ [ms]\<rparr>"
  "pg_chat (toast m p) = pg_chat p" "pg_chat (add_task task p) = pg_chat p"
  "pg_tasks (set_messages ms p) = pg_tasks p" "pg_tasks (schedule_save ms p) = pg_tasks p" "pg_tasks (toast m p) = pg_tasks p"
  "pg_tasks (add_task task p) = pg_tasks p @ [task]"
  "pg_settings (set_messages ms p) = pg_settings p" "pg_storage (set_messages ms p) = pg_storage p"
  "pg_storage (schedule_save ms p) = pg_storage p"
  by (simp_all add: set_messages_def schedule_save_def toast_def add_task_def)

lemma created_obj:
  "createMessage now role content options n =
     (JObj (obj_merge [(js ''role'', JStr role), (js ''content'', content), (js ''createAt'', JNum now), (js ''id'', JStr (dec n))] options), n + 1)"
  by (simp add: createMessage_def generateMessageId_def)

lemma loading_obj:
  "\<exists>l. createLoadingAssistantMessage now n = (JObj l, n + 1) \<and> open_reply l [] [] \<and> has_status l LOADING \<and>
    get_own l (js ''id'') = JStr (dec n)"
  by (simp add: createLoadingAssistantMessage_def created_obj open_reply_def generating_def has_status_def get_own_entry)

lemma sendRequest_ok:
  "\<exists>ch'. sendRequest env payload isStream None ch = Inr ch' \<and> ch_message ch' = ch_message ch \<and> ch_saves ch' = ch_saves ch \<and>
    ch_posts ch' = ch_posts ch @ [(json_str payload, isStream)] \<and>
    (isStream \<longrightarrow> ch_sse ch' = Some (length (ch_streams ch)) \<and> length (ch_streams ch') = Suc (length (ch_streams ch)) \<and>
       st_responseData (ch_streams ch' ! length (ch_streams ch)) = [])"
  by (simp add: sendRequest_def handleSSE_def handleNonStreamRequest_def)

text \<open>The settings with which the page sends what the user typed.\<close>

definition sends_default :: "settings \<Rightarrow> bool" where
  "sends_default s \<longleftrightarrow> \<not> (truthy (se_customRequestMode s) \<and> truthy (se_customRequestBody s)) \<and>
     \<not> isl (valid_image_urls (get_own (se_inputs s) (js ''imageUrls'')))"

text \<open>The messages of the page, and the body of a request for them.\<close>

abbreviation page_messages :: "page \<Rightarrow> message list" where
  "page_messages p \<equiv> ch_message (pg_chat p)"

definition request_body :: "settings \<Rightarrow> message list \<Rightarrow> jstring" where
  "request_body s ms = json_str (JObj (buildApiPayload (map JObj ms) [] (se_inputs s) (se_parameterEnabled s)))"

lemma onMessageSend_default:
  assumes "sends_default s"
  shows "\<exists>p' u l. onMessageSend env now None s (JStr question) p = Inr p' \<and> page_messages p' = page_messages p @ [u, l] \<and>
    get_own u (js ''role'') = JStr (js ''user'') \<and> getTextContent (JObj u) = Inr (JStr question) \<and>
    open_reply l [] [] \<and> has_status l LOADING \<and>
    get_own u (js ''id'') = JStr (dec (pg_messageId p + 2)) \<and> get_own l (js ''id'') = JStr (dec (pg_messageId p + 1)) \<and>
    ch_saves (pg_chat p') = ch_saves (pg_chat p) @ [page_messages p @ [u, l]] \<and> pg_storage p' = pg_storage p \<and>
    ch_posts (pg_chat p') = ch_posts (pg_chat p) @
      [(request_body s (page_messages p @ [u]), truthy (get_own (se_inputs s) (js ''stream'')))] \<and>
    (truthy (get_own (se_inputs s) (js ''stream'')) \<longrightarrow>
       ch_sse (pg_chat p') = Some (length (ch_streams (pg_chat p))) \<and>
       length (ch_streams (pg_chat p')) = Suc (length (ch_streams (pg_chat p))) \<and>
       st_responseData (ch_streams (pg_chat p') ! length (ch_streams (pg_chat p))) = [])"
proof -
  obtain urls where urls: "valid_image_urls (get_own (se_inputs s) (js ''imageUrls'')) = Inr urls"
    using assms run_result by (auto simp: sends_default_def)
  obtain l where l: "createLoadingAssistantMessage now (pg_messageId p + 1) = (JObj l, pg_messageId p + 2)"
      "open_reply l [] []" "has_status l LOADING" "get_own l (js ''id'') = JStr (dec (pg_messageId p + 1))"
    using loading_obj [of now "pg_messageId p + 1"] by auto
  let ?n = "pg_messageId p + 2"
  obtain u where u: "createMessage now (js ''user'') (buildMessageContent (JStr question) urls (truthy (get_own (se_inputs s) (js ''imageEnabled'')))) []
      ?n = (JObj u, ?n + 1)" "get_own u (js ''role'') = JStr (js ''user'')" "get_own u (js ''id'') = JStr (dec ?n)"
    by (simp add: created_obj get_own_entry)
  have t: "getTextContent (JObj u) = Inr (JStr question)" using created_text [OF u(1)] by simp
  let ?imageOn = "truthy (get_own (se_inputs s) (js ''imageEnabled''))"
  define p1 where "p1 = (if ?imageOn then add_task Task_image_off (p\<lparr>pg_messageId := ?n + 1\<rparr>) else p\<lparr>pg_messageId := ?n + 1\<rparr>)"
  have p1: "pg_chat p1 = pg_chat p" "pg_storage p1 = pg_storage p" by (simp_all add: p1_def add_task_def)
  have run: "onMessageSend env now None s (JStr question) p =
      page_send_request env (JObj (buildApiPayload (map JObj (page_messages p @ [u])) [] (se_inputs s) (se_parameterEnabled s)))
        (truthy (get_own (se_inputs s) (js ''stream''))) None
        (schedule_save (page_messages p @ [u, l]) (set_messages (page_messages p @ [u, l]) p1))"
    using assms u(1) l(1) urls
    by (auto simp: onMessageSend_def sends_default_def created_obj send_default_def p1_def obj_of_def Let_def)
  show ?thesis
    using sendRequest_ok [of env "JObj (buildApiPayload (map JObj (page_messages p @ [u])) [] (se_inputs s) (se_parameterEnabled s))"
        "truthy (get_own (se_inputs s) (js ''stream''))" "pg_chat (schedule_save (page_messages p @ [u, l]) (set_messages (page_messages p @ [u, l]) p1))"]
      u l t p1 unfolding run
    by (auto simp: page_send_request_def request_body_def)
qed

text \<open>
  Sending a text in the default mode appends exactly a message of the user that shows this text and an
  empty reply that is being generated, posts one request whose messages are the conversation up to and including the
  new message, and schedules the saving of the conversation; nothing else of the conversation changes.
\<close>

theorem sending_exact:
  assumes "sends_default s"
  shows "\<exists>p' u l. onMessageSend env now None s (JStr question) p = Inr p' \<and> page_messages p' = page_messages p @ [u, l] \<and>
    get_own u (js ''role'') = JStr (js ''user'') \<and> getTextContent (JObj u) = Inr (JStr question) \<and> open_reply l [] [] \<and>
    ch_saves (pg_chat p') = ch_saves (pg_chat p) @ [page_messages p @ [u, l]] \<and>
    ch_posts (pg_chat p') = ch_posts (pg_chat p) @
      [(request_body s (page_messages p @ [u]), truthy (get_own (se_inputs s) (js ''stream'')))]"
  using onMessageSend_default [OF assms, of env now question p] by metis

lemma sends_default_DEFAULT: "sends_default DEFAULT_SETTINGS"
  by (simp add: sends_default_def DEFAULT_SETTINGS_def DEFAULT_INPUTS_def get_own_entry valid_image_urls_def text_item_def)

definition empty_page :: page where
  "empty_page = \<lparr>pg_chat = initial_chat [], pg_settings = DEFAULT_SETTINGS, pg_messageId = 4, pg_hadMessages = False,
     pg_editingMessageId = JNull, pg_editValue = JStr [], pg_confirm = None, pg_tasks = [], pg_toasts = [], pg_storage = Map.empty\<rparr>"

theorem sending_exact_witness:
  "\<exists>p' u l. onMessageSend sample_env (Num 0) None DEFAULT_SETTINGS (JStr (js ''Hi'')) empty_page = Inr p' \<and> page_messages p' = [u, l] \<and>
    getTextContent (JObj u) = Inr (JStr (js ''Hi''))"
  using sending_exact [OF sends_default_DEFAULT, of sample_env "Num 0" "js ''Hi''" empty_page]
  by (auto simp: empty_page_def initial_chat_def)

text \<open>
  C2. Question and answer: a text that is sent in streaming mode, followed by the chunks of its stream and the end mark,
  leaves the conversation as it was, then the question, then one complete reply whose content and reasoning are
  the texts of the chunks in order, and the whole conversation is handed to the storage.
\<close>

theorem question_and_answer:
  assumes "sends_default s" and "truthy (get_own (se_inputs s) (js ''stream''))" and "\<forall>x \<in> set xs. datum_ok x"
  shows "\<exists>p' u. onMessageSend env now None s (JStr question) p = Inr p' \<and> getTextContent (JObj u) = Inr (JStr question) \<and>
    (\<exists>i ch' m'. ch_sse (pg_chat p') = Some i \<and>
       run_events api_event_step (map (datum_event i) xs @ [(env, Sse_message i (js ''[DONE]''))]) (pg_chat p') = Inr ch' \<and>
       ch_message ch' = page_messages p @ [u, m'] \<and> has_status m' COMPLETE \<and>
       get_own m' (js ''content'') = JStr (concat (map (chunk_content \<circ> snd \<circ> snd) xs)) \<and>
       get_own m' (js ''reasoningContent'') = JStr (concat (map (chunk_reasoning \<circ> snd \<circ> snd) xs)) \<and>
       last (ch_saves ch') = page_messages p @ [u, m'])"
proof -
  obtain p' u l where p': "onMessageSend env now None s (JStr question) p = Inr p'" "page_messages p' = (page_messages p @ [u]) @ [l]"
      "getTextContent (JObj u) = Inr (JStr question)" "open_reply l [] []"
      "ch_sse (pg_chat p') = Some (length (ch_streams (pg_chat p)))" "length (ch_streams (pg_chat p)) < length (ch_streams (pg_chat p'))"
    using onMessageSend_default [OF assms(1), of env now question p] assms(2) by auto
  show ?thesis
    using streamed_chat [OF p'(2,4,6) assms(3), of env] p'(1,3,5)
    by (intro exI [of _ p'] exI [of _ u] conjI exI [of _ "length (ch_streams (pg_chat p))"]) auto
qed

theorem question_and_answer_witness:
  "\<exists>p' ch' i. onMessageSend sample_env (Num 0) None DEFAULT_SETTINGS (JStr (js ''Hi'')) empty_page = Inr p' \<and>
    run_events api_event_step (map (datum_event i) [(sample_env, json_str sample_payload, sample_payload)] @
      [(sample_env, Sse_message i (js ''[DONE]''))]) (pg_chat p') = Inr ch' \<and>
    get_own (ch_message ch' ! 1) (js ''content'') = JStr (js ''Hello'')"
proof -
  let ?xs = "[(sample_env, json_str sample_payload, sample_payload)]"
  have "truthy (get_own (se_inputs DEFAULT_SETTINGS) (js ''stream''))"
    by (simp add: DEFAULT_SETTINGS_def DEFAULT_INPUTS_def get_own_entry)
  moreover have "\<forall>x \<in> set ?xs. datum_ok x" using sample_datum by simp
  ultimately obtain p' u i ch' m' where p': "onMessageSend sample_env (Num 0) None DEFAULT_SETTINGS (JStr (js ''Hi'')) empty_page = Inr p'"
      "run_events api_event_step (map (datum_event i) ?xs @ [(sample_env, Sse_message i (js ''[DONE]''))]) (pg_chat p') = Inr ch'"
      "ch_message ch' = page_messages empty_page @ [u, m']"
      "get_own m' (js ''content'') = JStr (concat (map (chunk_content \<circ> snd \<circ> snd) ?xs))"
    using question_and_answer [OF sends_default_DEFAULT, of ?xs sample_env "Num 0" "js ''Hi''" empty_page] by blast
  then show ?thesis by (intro exI [of _ p'] exI [of _ ch'] exI [of _ i]) (simp add: sample_chunk empty_page_def initial_chat_def)
qed

subsection \<open>Deleting\<close>

definition message_id :: "message \<Rightarrow> jsval" where
  "message_id m = get_own m (js ''id'')"

lemma filter_id_remove:
  assumes "distinct (map message_id ms)" and "i < length ms"
  shows "filter (\<lambda>m. message_id m \<noteq> message_id (ms ! i)) ms = take i ms @ drop (Suc i) ms"
proof -
  have "message_id m \<noteq> message_id (ms ! i)" if "m \<in> set (take i ms) \<union> set (drop (Suc i) ms)" for m
  proof -
    have "ms = take i ms @ ms ! i # drop (Suc i) ms" using assms(2) by (rule id_take_nth_drop)
    then have "distinct (map message_id (take i ms @ ms ! i # drop (Suc i) ms))" using assms(1) by simp
    then show ?thesis using that by (auto simp: image_iff)
  qed
  then have "filter (\<lambda>m. message_id m \<noteq> message_id (ms ! i)) (take i ms @ ms ! i # drop (Suc i) ms) = take i ms @ drop (Suc i) ms"
    by (simp add: filter_id_conv)
  then show ?thesis using id_take_nth_drop [OF assms(2)] by simp
qed

text \<open>The messages that go with the message at a position: itself, and for a question the reply behind it.\<close>

definition deleted_span :: "message list \<Rightarrow> nat \<Rightarrow> nat" where
  "deleted_span ms i =
     (if get_own (ms ! i) (js ''role'') = JStr (js ''user'') \<and> i + 1 < length ms \<and>
         get_own (ms ! (i + 1)) (js ''role'') = JStr (js ''assistant'') then 2 else 1)"

text \<open>
  C17. While ids differ, deleting a message removes exactly this message and, for a question that was
  answered, the answer right behind it; all other messages stay in order, and the result is what is saved.
\<close>

theorem delete_exact:
  assumes "i < length (page_messages p)" and "distinct (map message_id (page_messages p))"
  shows "page_messages (handleMessageDelete t (Some i) (page_messages p ! i) p) =
      take i (page_messages p) @ drop (i + deleted_span (page_messages p) i) (page_messages p) \<and>
    last (ch_saves (pg_chat (handleMessageDelete t (Some i) (page_messages p ! i) p))) =
      page_messages (handleMessageDelete t (Some i) (page_messages p ! i) p)"
  using filter_id_remove [OF assms(2,1)] assms(1)
  by (auto simp: handleMessageDelete_def message_index_def message_id_def deleted_span_def Let_def)

definition sample_page :: page where
  "sample_page = set_messages [sample_question, sample_reply] empty_page"

theorem delete_exact_witness: "page_messages (handleMessageDelete (\<lambda>k _. k) (Some 0) sample_question sample_page) = []"
  using delete_exact [of 0 sample_page "\<lambda>k _. k"]
  by (simp add: sample_page_def message_id_def deleted_span_def sample_question_def sample_reply_def get_own_entry)

text \<open>
  Ids do not stay different: the counter of ids starts again at four whenever the page is loaded. If
  a stored message has the id five, the reply to the first question gets the same id, and deleting this reply also
  deletes the stored message.
\<close>

theorem reload_reuses_ids:
  assumes "load_page t st = Inr p" and "m \<in> set (page_messages p)" and "message_id m = JStr (js ''5'')" and "sends_default s"
  shows "\<exists>p' l. onMessageSend env now None s (JStr question) p = Inr p' \<and> l = last (page_messages p') \<and> m \<in> set (page_messages p') \<and>
    message_id l = JStr (js ''5'') \<and>
    m \<notin> set (page_messages (handleMessageDelete t' (Some (length (page_messages p') - 1)) l p'))"
proof -
  have "pg_messageId p = 4"
    using assms(1) by (auto simp: load_page_def mount_page_def repair_last_def rbind_Inr_iff Let_def schedule_save_def set_messages_def
        split: if_splits)
  moreover have "dec 5 = js ''5''" by code_simp
  ultimately obtain p' u l where p': "onMessageSend env now None s (JStr question) p = Inr p'" "page_messages p' = page_messages p @ [u, l]"
      "open_reply l [] []" "get_own l (js ''id'') = JStr (js ''5'')"
    using onMessageSend_default [OF assms(4), of env now question p] by auto
  then have "m \<notin> set (page_messages (handleMessageDelete t' (Some (length (page_messages p') - 1)) l p'))"
    using assms(3) by (auto simp: handleMessageDelete_def message_index_def message_id_def open_reply_def Let_def)
  with p' assms(2) show ?thesis by (intro exI [of _ p'] exI [of _ l]) (auto simp: message_id_def)
qed

text \<open>A storage with one message.\<close>

definition stored_message :: message where
  "stored_message = [(js ''role'', JStr (js ''assistant'')), (js ''content'', JStr (js ''Hello'')), (js ''id'', JStr (js ''5''))]"

definition sample_storage :: storage where
  "sample_storage = saveMessages True [] (messages_val [stored_message]) Map.empty"

lemma sample_storage_load: "loadMessages sample_storage = messages_val [stored_message]"
proof -
  have "json_wf (messages_val [stored_message])" by (simp add: messages_val_def stored_message_def obj_canon_names is_digit_def)
  then show ?thesis using load_saved_messages [of "[stored_message]" "[]" Map.empty]
    by (simp add: sample_storage_def json_wf_readable json_nf_wf)
qed

lemma as_messages_val [simp]: "as_messages (messages_val ms) = Inr ms"
  by (simp add: as_messages_def messages_val_def res_list_Inr as_message_def comp_def)

theorem reload_reuses_ids_witness:
  "\<exists>p p'. load_page (\<lambda>k _. k) sample_storage = Inr p \<and> stored_message \<in> set (page_messages p) \<and>
    onMessageSend sample_env (Num 0) None DEFAULT_SETTINGS (JStr (js ''Hi'')) p = Inr p' \<and>
    stored_message \<notin> set (page_messages (handleMessageDelete (\<lambda>k _. k) (Some (length (page_messages p') - 1)) (last (page_messages p')) p'))"
proof -
  have "truthy (messages_val [stored_message])" by (simp add: messages_val_def)
  then have "\<exists>p. load_page (\<lambda>k _. k) sample_storage = Inr p \<and> page_messages p = [stored_message]"
    by (simp add: load_page_def mount_page_def initial_messages_def sample_storage_load old_defaults_def repair_last_def
        initial_chat_def has_status_def stored_message_def get_own_entry get_own_def [of "[]"])
  then obtain p where "load_page (\<lambda>k _. k) sample_storage = Inr p" "page_messages p = [stored_message]" by blast
  then show ?thesis
    using reload_reuses_ids [of "\<lambda>k _. k" sample_storage p stored_message DEFAULT_SETTINGS sample_env "Num 0" "js ''Hi''" "\<lambda>k _. k"]
      sends_default_DEFAULT by (auto simp: message_id_def stored_message_def get_own_entry)
qed

subsection \<open>Generating a reply again\<close>

lemma last_user_index_Some:
  "last_user_index ms n = Some j \<longleftrightarrow> j < n \<and> get_own (ms ! j) (js ''role'') = JStr (js ''user'') \<and>
     (\<forall>k. j < k \<and> k < n \<longrightarrow> get_own (ms ! k) (js ''role'') \<noteq> JStr (js ''user''))"
  by (induction n) (auto simp: less_Suc_eq)

lemma last_user_index_None: "last_user_index ms n = None \<longleftrightarrow> (\<forall>k < n. get_own (ms ! k) (js ''role'') \<noteq> JStr (js ''user''))"
  by (induction n) (auto simp: less_Suc_eq)

text \<open>
  Regenerating a reply goes back to the question before it: for a reply at some position the last message of the
  user before it and everything after that are removed, and running the scheduled task asks the same
  text again, so the conversation is the untouched beginning, the question, and a new open reply.
\<close>

theorem regenerate_asks_again:
  assumes "i < length (page_messages p)" and "get_own (page_messages p ! i) (js ''role'') = JStr (js ''assistant'')"
    and "j < i" and "get_own (page_messages p ! j) (js ''role'') = JStr (js ''user'')"
    and "\<forall>k. j < k \<and> k < i \<longrightarrow> get_own (page_messages p ! k) (js ''role'') \<noteq> JStr (js ''user'')"
    and "getTextContent (JObj (page_messages p ! j)) = Inr (JStr question)" and "pg_tasks p = []" and "sends_default (pg_settings p)"
  shows "\<exists>p1 p2 u l. handleMessageReset (Some i) (page_messages p ! i) p = Inr p1 \<and> page_messages p1 = take j (page_messages p) \<and>
    run_next_task env now None p1 = Inr p2 \<and> page_messages p2 = take j (page_messages p) @ [u, l] \<and>
    getTextContent (JObj u) = Inr (JStr question) \<and> open_reply l [] []"
proof -
  have "last_user_index (page_messages p) i = Some j" using assms(3,4,5) by (simp add: last_user_index_Some)
  then have 1: "handleMessageReset (Some i) (page_messages p ! i) p =
      Inr (add_task (Task_send (JStr question) (pg_settings p)) (set_messages (take j (page_messages p)) p))"
    using assms(2,6) by (simp add: handleMessageReset_def message_index_def resend_from_def)
  define p1 where "p1 = (set_messages (take j (page_messages p)) p)\<lparr>pg_tasks := []\<rparr>"
  obtain p2 u l where "onMessageSend env now None (pg_settings p) (JStr question) p1 = Inr p2" "page_messages p2 = page_messages p1 @ [u, l]"
      "getTextContent (JObj u) = Inr (JStr question)" "open_reply l [] []"
    using onMessageSend_default [OF assms(8), of env now question p1] by auto
  moreover have "run_next_task env now None (add_task (Task_send (JStr question) (pg_settings p)) (set_messages (take j (page_messages p)) p)) =
      onMessageSend env now None (pg_settings p) (JStr question) p1"
    using assms(7) by (simp add: run_next_task_def p1_def add_task_def set_messages_def)
  ultimately show ?thesis using 1 by (auto simp: p1_def)
qed

theorem regenerate_asks_again_witness:
  "\<exists>p1 p2 u l. handleMessageReset (Some 1) sample_reply sample_page = Inr p1 \<and> run_next_task sample_env (Num 0) None p1 = Inr p2 \<and>
    page_messages p2 = [u, l] \<and> getTextContent (JObj u) = Inr (JStr (js ''Hi''))"
proof -
  have m: "page_messages sample_page = [sample_question, sample_reply]" "pg_tasks sample_page = []" "sends_default (pg_settings sample_page)"
    using sends_default_DEFAULT by (simp_all add: sample_page_def empty_page_def)
  have r: "get_own sample_question (js ''role'') = JStr (js ''user'')" "get_own sample_reply (js ''role'') = JStr (js ''assistant'')"
    "getTextContent (JObj sample_question) = Inr (JStr (js ''Hi''))"
    by (simp_all add: sample_question_def sample_reply_def get_own_entry getTextContent_def opt_prop_def get_prop_def)
  show ?thesis using regenerate_asks_again [of 1 sample_page 0 "js ''Hi''" sample_env "Num 0"] m r by auto
qed

subsection \<open>Leaving and reloading the page\<close>

lemma repaired_message_complete: "repaired_message m = Inr m' \<Longrightarrow> has_status m' COMPLETE"
  by (auto simp: repaired_message_def rbind_Inr_iff)

text \<open>
  A page that was left while a reply was being generated never shows it as still running: whatever the
  storage holds, the last message is not in a generating state after loading.
\<close>

theorem loaded_page_settled:
  assumes "load_page t st = Inr p" and "page_messages p \<noteq> []"
  shows "\<not> generating (last (page_messages p))"
proof -
  obtain p0 where p0: "repair_last p0 = Inr p" using assms(1) by (auto simp: load_page_def rbind_Inr_iff)
  show ?thesis
  proof (cases "page_messages p0 \<noteq> [] \<and> generating (last (page_messages p0))")
    case True
    then obtain m where "page_messages p = butlast (page_messages p0) @ [m]" "has_status m COMPLETE"
      using p0 repaired_message_complete by (auto simp: repair_last_def rbind_Inr_iff Let_def generating_def)
    then show ?thesis by (auto simp: generating_def dest: has_status_unique)
  next
    case False
    then have "p = p0" using p0 by (auto simp: repair_last_def Let_def generating_def split: if_splits)
    then show ?thesis using False assms(2) by simp
  qed
qed

theorem loaded_page_settled_witness:
  "\<exists>p. load_page (\<lambda>k _. k) Map.empty = Inr p \<and> \<not> generating (last (page_messages p))"
proof -
  have "\<exists>p. load_page (\<lambda>k _. k) Map.empty = Inr p \<and> page_messages p \<noteq> []"
    by (simp add: load_page_def mount_page_def initial_messages_def loadMessages_def stored_field_def repair_last_def initial_chat_def
        getDefaultMessages_def has_status_def get_own_entry get_own_def [of "[]"])
  then show ?thesis using loaded_page_settled by blast
qed

lemma processIncomplete_Nil: "processIncompleteThinkTags [] [] = \<lparr>pr_content = [], pr_reasoningContent = []\<rparr>"
  by (simp add: processIncompleteThinkTags_def)

lemma load_loading:
  assumes "loadMessages st = messages_val (ms @ [l])" and "open_reply l [] []" and "message_id l \<noteq> JStr (js ''3'')"
  shows "\<exists>p m. load_page t st = Inr p \<and> page_messages p = ms @ [m] \<and> has_status m COMPLETE \<and> get_own m (js ''content'') = JStr []"
proof -
  have "\<not> old_defaults (ms @ [l])" using assms(3) by (cases ms) (auto simp: old_defaults_def message_id_def)
  moreover have "truthy (messages_val (ms @ [l]))" by (simp add: messages_val_def)
  moreover have "has_status l LOADING \<or> has_status l INCOMPLETE" using assms(2) by (simp add: open_reply_def generating_def)
  ultimately show ?thesis using assms(1,2)
    by (simp add: load_page_def mount_page_def initial_messages_def repair_last_def initial_chat_def repaired_message_def open_reply_def
        processIncompleteThinkTags_texts processIncomplete_Nil Let_def)
qed

text \<open>
  A reply that was not streamed is lost on a reload: the page saves the conversation when the question is sent,
  with the empty reply, but nothing is saved when the answer arrives. The page shows the answer, but
  after a reload the reply is complete and empty.
\<close>

theorem unstreamed_reply_lost:
  assumes "page_messages p = ms @ [l]" and "open_reply l [] []" and "has_status l LOADING" and "message_id l \<noteq> JStr (js ''3'')"
    and "ch_saves (pg_chat p) = []" and "loadMessages (pg_storage p) = messages_val (page_messages p)"
    and "json_parse body = Some data" and "first_choice data = Inr (Some (content, reasoning))"
  shows "\<exists>ch' m'. api_step env (Fetched (Http_ok body)) (pg_chat p) = Inr ch' \<and> ch_message ch' = ms @ [m'] \<and>
      has_status m' COMPLETE \<and> get_own m' (js ''content'') = content \<and> ch_saves ch' = [] \<and>
    (\<exists>p2 m2. load_page t (pg_storage p) = Inr p2 \<and> page_messages p2 = ms @ [m2] \<and> has_status m2 COMPLETE \<and>
       get_own m2 (js ''content'') = JStr [])"
proof -
  have "api_step env (Fetched (Http_ok body)) (pg_chat p) =
      Inr ((set_response (json_ind 0 data) (pg_chat p))\<lparr>ch_message := ms @ [reply_message content reasoning l]\<rparr>)"
    using assms(1,3,7,8) by (simp add: update_loading_def Let_def)
  moreover have "has_status (reply_message content reasoning l) COMPLETE" "get_own (reply_message content reasoning l) (js ''content'') = content"
    by (simp_all add: reply_message_def collapse_get)
  moreover have "ch_saves (set_response (json_ind 0 data) (pg_chat p)) = []" using assms(5) by (simp add: set_response_def)
  ultimately show ?thesis using load_loading [OF _ assms(2,4), of "pg_storage p" ms t] assms(1,6) by auto
qed

definition sample_answer :: jsval where
  "sample_answer = JObj [(js ''choices'', JArr [JObj [(js ''message'', JObj [(js ''content'', JStr (js ''Hello''))])]])]"

theorem unstreamed_reply_lost_witness:
  "\<exists>(p :: page) ch' m'. api_step sample_env (Fetched (Http_ok (json_str sample_answer))) (pg_chat p) = Inr ch' \<and>
    ch_message ch' = [sample_question] @ [m'] \<and> get_own m' (js ''content'') = JStr (js ''Hello'') \<and> ch_saves ch' = []"
proof -
  define p where "p = sample_page\<lparr>pg_storage := saveMessages True [] (messages_val [sample_question, sample_reply]) Map.empty\<rparr>"
  have p: "page_messages p = [sample_question] @ [sample_reply]" "ch_saves (pg_chat p) = []"
    by (simp_all add: p_def sample_page_def set_messages_def empty_page_def initial_chat_def)
  have "json_wf (messages_val [sample_question, sample_reply])"
    by (simp add: messages_val_def sample_question_def sample_reply_def obj_canon_names is_digit_def)
  then have l: "loadMessages (pg_storage p) = messages_val (page_messages p)"
    using load_saved_messages [of "[sample_question, sample_reply]" "[]" Map.empty] p(1) by (simp add: p_def json_wf_readable json_nf_wf)
  have "json_wf sample_answer" by (simp add: sample_answer_def obj_canon_def)
  then have j: "json_parse (json_str sample_answer) = Some sample_answer" by (rule json_parse_str)
  have "\<not> str_includes (js ''Hello'') THINK_OPEN" by code_simp
  then have f: "first_choice sample_answer = Inr (Some (JStr (js ''Hello''), JStr []))"
    by (simp add: first_choice_def sample_answer_def get_prop_def opt_prop_def get_own_entry get_own_def [of "[]"] js_or_def processThinkTags_val_def)
  have s: "has_status sample_reply LOADING" "message_id sample_reply \<noteq> JStr (js ''3'')"
    by (simp_all add: has_status_def message_id_def sample_reply_def get_own_entry)
  show ?thesis
    using unstreamed_reply_lost [OF p(1) sample_open(2) s p(2) l j f, of sample_env "\<lambda>k _. k"] by blast
qed

end
