(* ===== verification/PlaygroundSync.thy ===== *)
theory PlaygroundSync
  imports PlaygroundPage
begin

text \<open>
  The two effects that keep the conversation and the custom request body in step
  (\<open>hooks/playground/useSyncMessageAndCustomBody.js\<close>, lines 379-386 of \<open>pages/Playground/index.jsx\<close>). After a
  render, an effect runs when one of its dependencies has changed; it sees the values of that render, and the
  values it sets are seen by the next render. Each effect remembers a fingerprint of what it has
  last written, so that the two do not trigger each other for ever.
\<close>

subsection \<open>State\<close>

text \<open>What a render shows.\<close>

record rendered =
  re_mode :: bool
  re_body :: jstring
  re_message :: "message list"
  re_inputs :: jsobj

text \<open>
  The references \<open>lastMessageHash\<close> and \<open>lastCustomBodyHash\<close>. The flags
  \<open>isUpdatingFromMessage\<close> and \<open>isUpdatingFromCustomBody\<close> are set and reset within one call, so
  they are false whenever an effect starts.
\<close>

record sync_refs =
  sy_lastMessageHash :: jstring
  sy_lastCustomBodyHash :: jstring

definition getMessageHash :: "message list \<Rightarrow> jstring" where
  "getMessageHash messages = json_str (JArr (map (\<lambda>msg. JObj [(js ''id'', get_own msg (js ''id'')),
     (js ''role'', get_own msg (js ''role'')), (js ''content'', get_own msg (js ''content''))]) messages))"

text \<open>\<open>JSON.stringify(parsed.messages || [])\<close>, or the empty text when the body cannot be read.\<close>

definition getCustomBodyHash :: "jstring \<Rightarrow> jstring" where
  "getCustomBodyHash customBody = (case json_parse customBody of
       None \<Rightarrow> []
     | Some parsed \<Rightarrow> (case get_prop parsed (js ''messages'') of Inl _ \<Rightarrow> [] | Inr v \<Rightarrow> json_str (js_or v (JArr []))))"

text \<open>The payload for a body that is not JSON.\<close>

definition fallback_payload :: "jsobj \<Rightarrow> jsobj" where
  "fallback_payload inputs =
     [(js ''model'', js_or (get_own inputs (js ''model'')) (JStr (js ''gpt-4o''))), (js ''messages'', JArr []),
      (js ''temperature'', js_or (get_own inputs (js ''temperature'')) (JNum (rnd (7 / 10)))),
      (js ''stream'', JBool (get_own inputs (js ''stream'') \<noteq> JBool False))]"

text \<open>\<open>customPayload.messages = v\<close>: an exception for null, and in a module also for numbers, texts and booleans.
  On an array the property is set but not printed.\<close>

definition assign_messages :: "jsval \<Rightarrow> jsval \<Rightarrow> jsval res" where
  "assign_messages v customPayload = (case customPayload of
       JObj ob \<Rightarrow> Inr (JObj (obj_set (js ''messages'') v ob))
     | JArr vs \<Rightarrow> Inr (JArr vs)
     | _ \<Rightarrow> Inl TypeError)"

definition body_messages :: "message list \<Rightarrow> jsval" where
  "body_messages ms = JArr (map (\<lambda>msg. JObj [(js ''role'', get_own msg (js ''role'')), (js ''content'', get_own msg (js ''content''))]) ms)"

definition parse_body :: "jsobj \<Rightarrow> jstring \<Rightarrow> jsval" where
  "parse_body inputs body = (case json_parse (if body = [] then js ''{}'' else body) of
       None \<Rightarrow> JObj (fallback_payload inputs)
     | Some v \<Rightarrow> v)"

text \<open>The result is the new body, if one was set, and the references.\<close>

definition syncMessageToCustomBody :: "rendered \<Rightarrow> sync_refs \<Rightarrow> (jstring option \<times> sync_refs) res" where
  "syncMessageToCustomBody r refs =
     (if \<not> re_mode r then Inr (None, refs)
      else (let currentMessageHash = getMessageHash (re_message r) in
            if currentMessageHash = sy_lastMessageHash refs then Inr (None, refs)
            else rbind (assign_messages (body_messages (re_message r)) (parse_body (re_inputs r) (re_body r))) (\<lambda>customPayload.
                   let newCustomBody = json_ind 0 customPayload
                   in Inr (Some newCustomBody, \<lparr>sy_lastMessageHash = currentMessageHash,
                         sy_lastCustomBodyHash = getCustomBodyHash newCustomBody\<rparr>))))"

text \<open>The message for an entry of the custom body; \<open>index\<close> counts from zero.\<close>

definition body_message :: "jsnum \<Rightarrow> nat \<Rightarrow> jsval \<Rightarrow> message res" where
  "body_message now index msg =
     rbind (get_prop msg (js ''id'')) (\<lambda>mid.
       let role = opt_prop msg (js ''role'');
           base = [(js ''id'', js_or mid (JStr (dec (index + 1)))), (js ''role'', js_or role (JStr (js ''user''))),
             (js ''content'', js_or (opt_prop msg (js ''content'')) (JStr [])), (js ''createAt'', JNum now)]
       in Inr (if role = JStr (js ''assistant'')
               then obj_merge base [(js ''reasoningContent'', js_or (opt_prop msg (js ''reasoningContent'')) (JStr [])),
                      (js ''isReasoningExpanded'', JBool False)]
               else base))"

definition messages_of_body :: "jsnum \<Rightarrow> jsval list \<Rightarrow> message list res" where
  "messages_of_body now entries = res_list (map (\<lambda>(index, msg). body_message now index msg) (enumerate 0 entries))"

text \<open>Every exception is caught and logged; the references keep their values then.\<close>

definition syncCustomBodyToMessage :: "jsnum \<Rightarrow> rendered \<Rightarrow> sync_refs \<Rightarrow> message list option \<times> sync_refs" where
  "syncCustomBodyToMessage now r refs =
     (if \<not> re_mode r then (None, refs)
      else (let currentCustomBodyHash = getCustomBodyHash (re_body r) in
            if currentCustomBodyHash = sy_lastCustomBodyHash refs then (None, refs)
            else (case json_parse (if re_body r = [] then js ''{}'' else re_body r) of
                    None \<Rightarrow> (None, refs)
                  | Some customPayload \<Rightarrow>
                      (case opt_prop customPayload (js ''messages'') of
                         JArr entries \<Rightarrow>
                           (case messages_of_body now entries of
                              Inl _ \<Rightarrow> (None, refs)
                            | Inr newMessages \<Rightarrow> (Some newMessages, \<lparr>sy_lastMessageHash = getMessageHash newMessages,
                                sy_lastCustomBodyHash = currentCustomBodyHash\<rparr>))
                       | _ \<Rightarrow> (None, refs)))))"

subsection \<open>Renders and effects\<close>

text \<open>
  A render, the references, and what has changed since the last render: \<open>fst\<close> for the dependencies that only the first effect
  has (the messages and the inputs), \<open>snd\<close> for those of both effects (the mode and the body).
\<close>

type_synonym sync_state = "rendered \<times> sync_refs \<times> bool \<times> bool"

definition sync_commit :: "jsnum \<Rightarrow> sync_state \<Rightarrow> sync_state res" where
  "sync_commit now st = (case st of (r, refs, changed1, changed2) \<Rightarrow>
     rbind (if changed1 \<or> changed2 then syncMessageToCustomBody r refs else Inr (None, refs)) (\<lambda>(newBody, refs1).
       let (newMessages, refs2) = (if changed2 then syncCustomBodyToMessage now r refs1 else (None, refs1));
           r' = r\<lparr>re_body := (case newBody of None \<Rightarrow> re_body r | Some b \<Rightarrow> b),
                  re_message := (case newMessages of None \<Rightarrow> re_message r | Some ms \<Rightarrow> ms)\<rparr>
       in Inr (r', refs2, newMessages \<noteq> None, re_body r' \<noteq> re_body r)))"

text \<open>Nothing has changed: no effect runs and no further render follows.\<close>

definition settled :: "sync_state \<Rightarrow> bool" where
  "settled st \<longleftrightarrow> (case st of (r, refs, changed1, changed2) \<Rightarrow> \<not> changed1 \<and> \<not> changed2)"

fun sync_commits :: "jsnum list \<Rightarrow> sync_state \<Rightarrow> sync_state res" where
  "sync_commits [] st = Inr st"
| "sync_commits (now # nows) st = rbind (sync_commit now st) (sync_commits nows)"

subsection \<open>The effects come to rest\<close>

text \<open>The fingerprints belong to the values shown.\<close>

lemma message_effect_body:
  assumes "syncMessageToCustomBody r refs = Inr (newBody, refs')"
  shows "newBody = None \<and> refs' = refs \<or>
    (\<exists>b. newBody = Some b \<and> sy_lastMessageHash refs' = getMessageHash (re_message r) \<and> sy_lastCustomBodyHash refs' = getCustomBodyHash b)"
  using assms by (auto simp: syncMessageToCustomBody_def Let_def rbind_Inr_iff split: if_splits)

lemma message_effect_idle: "sy_lastMessageHash refs = getMessageHash (re_message r) \<Longrightarrow> syncMessageToCustomBody r refs = Inr (None, refs)"
  by (simp add: syncMessageToCustomBody_def)

lemma body_effect_message:
  assumes "syncCustomBodyToMessage now r refs = (newMessages, refs')"
  shows "newMessages = None \<and> refs' = refs \<or>
    (\<exists>ms. newMessages = Some ms \<and> sy_lastMessageHash refs' = getMessageHash ms \<and> sy_lastCustomBodyHash refs' = getCustomBodyHash (re_body r))"
  using assms by (auto simp: syncCustomBodyToMessage_def Let_def split: if_splits option.splits jsval.splits sum.splits)

lemma body_effect_idle: "sy_lastCustomBodyHash refs = getCustomBodyHash (re_body r) \<Longrightarrow> syncCustomBodyToMessage now r refs = (None, refs)"
  by (simp add: syncCustomBodyToMessage_def)

text \<open>The messages shown are the ones last written or read, unless nothing changes any more.\<close>

definition message_synced :: "sync_state \<Rightarrow> bool" where
  "message_synced st = (case st of (r, refs, changed1, changed2) \<Rightarrow>
     changed1 \<or> changed2 \<longrightarrow> sy_lastMessageHash refs = getMessageHash (re_message r))"

lemma commit_message_synced:
  assumes "sync_commit now st = Inr st'"
  shows "message_synced st'"
  using assms
  by (cases st) (auto simp: sync_commit_def message_synced_def rbind_Inr_iff Let_def split: if_splits prod.splits
      dest!: message_effect_body body_effect_message)

text \<open>Once the messages are in step, the first effect is idle, and the body stays as it is.\<close>

lemma synced_commit:
  assumes "message_synced (r, refs, c1, c2)"
  shows "\<exists>r' refs' c. sync_commit now (r, refs, c1, c2) = Inr (r', refs', c, False)"
  using assms message_effect_idle [of refs r] by (auto simp: sync_commit_def message_synced_def Let_def split: prod.split)

lemma synced_commit_last:
  assumes "message_synced (r, refs, c1, False)"
  shows "sync_commit now (r, refs, c1, False) = Inr (r, refs, False, False)"
  using assms message_effect_idle [of refs r] by (auto simp: sync_commit_def message_synced_def Let_def)

lemma settled_commits: "sync_commits nows (r, refs, False, False) = Inr (r, refs, False, False)"
  by (induction nows) (simp_all add: sync_commit_def Let_def)

lemma commit_error: "sync_commit now st = Inl e \<Longrightarrow> e = TypeError"
  by (cases st) (auto simp: sync_commit_def syncMessageToCustomBody_def assign_messages_def rbind_def Let_def
      split: if_splits sum.splits prod.splits jsval.splits)

text \<open>
  C20. The two effects come to rest: from any state and after any change, unless the first effect fails with an
  exception, at most three renders follow, and then neither effect runs again.
\<close>

theorem sync_settles:
  "sync_commit now1 st = Inl TypeError \<or>
   (\<exists>r refs. sync_commits [now1, now2, now3] st = Inr (r, refs, False, False) \<and>
      (\<forall>nows. sync_commits nows (r, refs, False, False) = Inr (r, refs, False, False)))"
proof (cases "sync_commit now1 st")
  case (Inl e)
  then show ?thesis using commit_error by blast
next
  case (Inr st1)
  obtain r1 refs1 a b where st1: "st1 = (r1, refs1, a, b)" by (cases st1) auto
  have "message_synced (r1, refs1, a, b)" using commit_message_synced [OF Inr] st1 by simp
  then obtain r2 refs2 c where 2: "sync_commit now2 (r1, refs1, a, b) = Inr (r2, refs2, c, False)" using synced_commit by blast
  then have "sync_commit now3 (r2, refs2, c, False) = Inr (r2, refs2, False, False)"
    using commit_message_synced synced_commit_last by blast
  with Inr 2 st1 show ?thesis by (auto simp: settled_commits)
qed

subsection \<open>When the first effect fails\<close>

definition object_like :: "jsval \<Rightarrow> bool" where
  "object_like v = (case v of JObj _ \<Rightarrow> True | JArr _ \<Rightarrow> True | _ \<Rightarrow> False)"

text \<open>
  The page fails with an uncaught exception exactly when, in custom mode, a message has changed and the
  custom body is JSON, but neither an object nor an array: a number, a text, true, false or null. The code handles only a
  body that is not JSON at all.
\<close>

theorem sync_fails_iff:
  "sync_commit now (r, refs, changed1, changed2) = Inl TypeError \<longleftrightarrow>
     (changed1 \<or> changed2) \<and> re_mode r \<and> getMessageHash (re_message r) \<noteq> sy_lastMessageHash refs \<and>
     (\<exists>v. json_parse (if re_body r = [] then js ''{}'' else re_body r) = Some v \<and> \<not> object_like v)"
proof -
  have "assign_messages v (parse_body (re_inputs r) (re_body r)) = Inl TypeError \<longleftrightarrow>
      (\<exists>v. json_parse (if re_body r = [] then js ''{}'' else re_body r) = Some v \<and> \<not> object_like v)" for v
    by (auto simp: assign_messages_def parse_body_def object_like_def split: jsval.splits option.splits)
  moreover have "sync_commit now (r, refs, changed1, changed2) = Inl TypeError \<longleftrightarrow>
      (changed1 \<or> changed2) \<and> syncMessageToCustomBody r refs = Inl TypeError"
    by (auto simp: sync_commit_def rbind_def Let_def split: sum.split prod.split)
  ultimately show ?thesis
    by (auto simp: syncMessageToCustomBody_def rbind_def Let_def split: sum.split)
qed

subsection \<open>Body and messages agree\<close>

lemma body_messages_parsed:
  assumes "json_wf (JObj ob)" and "json_wf (body_messages ms)"
  shows "json_parse (json_ind 0 (JObj (obj_set (js ''messages'') (body_messages ms) ob))) =
    Some (JObj (obj_set (js ''messages'') (body_messages ms) ob))"
  by (rule json_parse_ind, rule json_wf_set [OF assms])

text \<open>
  In custom mode the body follows the conversation: after a message has changed, the body is the old
  object with the roles and contents of the messages in order and every other field unchanged.
\<close>

theorem body_follows_messages:
  assumes "re_mode r" and "json_parse (re_body r) = Some (JObj ob)" and "re_body r \<noteq> []" and "json_wf (JObj ob)"
    and "json_wf (body_messages (re_message r))" and "getMessageHash (re_message r) \<noteq> sy_lastMessageHash refs"
  shows "\<exists>r' refs' changed ob'. sync_commit now (r, refs, True, False) = Inr (r', refs', False, changed) \<and> re_message r' = re_message r \<and>
    json_parse (re_body r') = Some (JObj ob') \<and> get_own ob' (js ''messages'') = body_messages (re_message r) \<and>
    (\<forall>k. k \<noteq> js ''messages'' \<longrightarrow> get_own ob' k = get_own ob k)"
  using assms body_messages_parsed [OF assms(4,5)]
  by (simp add: sync_commit_def syncMessageToCustomBody_def parse_body_def assign_messages_def Let_def del: json_ind.simps)

definition sample_rendered :: rendered where
  "sample_rendered = \<lparr>re_mode = True, re_body = json_str (JObj []), re_message = [sample_question], re_inputs = []\<rparr>"

definition sample_refs :: sync_refs where
  "sample_refs = \<lparr>sy_lastMessageHash = [], sy_lastCustomBodyHash = []\<rparr>"

theorem body_follows_messages_witness:
  "\<exists>r' refs' changed ob'. sync_commit (Num 0) (sample_rendered, sample_refs, True, False) = Inr (r', refs', False, changed) \<and>
    json_parse (re_body r') = Some (JObj ob') \<and> get_own ob' (js ''messages'') = body_messages [sample_question]"
proof -
  have "json_wf (JObj [])" by simp
  then have "json_parse (json_str (JObj [])) = Some (JObj [])" by (rule json_parse_str)
  moreover have "json_wf (body_messages [sample_question])"
    by (simp add: body_messages_def sample_question_def get_own_entry obj_canon_names is_digit_def)
  moreover have "getMessageHash [sample_question] \<noteq> []" "json_str (JObj []) \<noteq> []" by (simp_all add: getMessageHash_def)
  ultimately show ?thesis
    using body_follows_messages [of sample_rendered "[]" sample_refs "Num 0"]
    by (auto simp: sample_rendered_def sample_refs_def simp del: json_str.simps)
qed

text \<open>A message whose role and content survive the reading of a body.\<close>

definition plain_message :: "message \<Rightarrow> bool" where
  "plain_message m \<longleftrightarrow> truthy (get_own m (js ''role'')) \<and> (truthy (get_own m (js ''content'')) \<or> get_own m (js ''content'') = JStr [])"

definition body_entry :: "message \<Rightarrow> jsval" where
  "body_entry m = JObj [(js ''role'', get_own m (js ''role'')), (js ''content'', get_own m (js ''content''))]"

lemma body_messages_entries: "body_messages ms = JArr (map body_entry ms)"
  by (simp add: body_messages_def body_entry_def)

lemma body_message_entry:
  assumes "plain_message m"
  shows "\<exists>m'. body_message now i (body_entry m) = Inr m' \<and> body_entry m' = body_entry m"
  using assms
  by (auto simp: body_message_def body_entry_def plain_message_def get_prop_def opt_prop_def get_own_entry get_own_def [of "[]"] js_or_def Let_def)

lemma messages_of_entries:
  assumes "\<forall>m \<in> set ms. plain_message m"
  shows "\<exists>ms'. res_list (map (\<lambda>(index, msg). body_message now index msg) (enumerate n (map body_entry ms))) = Inr ms' \<and>
    map body_entry ms' = map body_entry ms"
  using assms
proof (induction ms arbitrary: n)
  case (Cons m ms)
  obtain m' where "body_message now n (body_entry m) = Inr m'" "body_entry m' = body_entry m"
    using body_message_entry Cons.prems by fastforce
  moreover obtain ms' where "res_list (map (\<lambda>(index, msg). body_message now index msg) (enumerate (Suc n) (map body_entry ms))) = Inr ms'"
      "map body_entry ms' = map body_entry ms"
    using Cons by fastforce
  ultimately show ?case by simp
qed simp

text \<open>
  Reading the body back gives a conversation with the same roles and contents in the same order, for
  messages that have a role and a content.
\<close>

theorem body_roundtrip:
  assumes "\<forall>m \<in> set ms. plain_message m"
  shows "\<exists>entries ms'. body_messages ms = JArr entries \<and> messages_of_body now entries = Inr ms' \<and> body_messages ms' = body_messages ms"
  using messages_of_entries [OF assms, of now 0] by (simp add: body_messages_entries messages_of_body_def)

theorem body_roundtrip_witness:
  "\<exists>entries ms'. body_messages [sample_question] = JArr entries \<and> messages_of_body (Num 0) entries = Inr ms' \<and>
    body_messages ms' = body_messages [sample_question]"
  using body_roundtrip [of "[sample_question]" "Num 0"] by (simp add: plain_message_def sample_question_def get_own_entry)

end
