(* ===== verification/ChannelTable.thy ===== *)
theory ChannelTable
  imports ChannelHelpers Playground
begin

text \<open>
  The table of channels (\<open>hooks/channels/useChannelsData.jsx\<close>): loading and searching pages, grouping
  the channels by tag, and the actions on channels and tags. The rows of the table are objects that
  several closures share and change in place, so they live in a store: a row is a reference. A handler that waits for the server is split at the
  \<open>await\<close>; what its closure has captured is an argument of the second part. The fields of a
  channel have the types of the server's \<open>model.Channel\<close>; fields the code only passes on are left out.
\<close>

subsection \<open>Channels and rows\<close>

record channel =
  ch_id :: int
  ch_type :: int
  ch_name :: jstring
  ch_status :: int
  ch_group :: jstring
  ch_tag :: "jstring option"
  ch_priority :: "int option"
  ch_weight :: "int option"
  ch_used_quota :: jsnum
  ch_response_time :: jsnum
  ch_test_time :: jsnum
  ch_balance :: jsnum
  ch_balance_updated_time :: jsnum
  ch_models :: jstring
  ch_settings :: jstring
  ch_key :: jstring
  ch_channel_info :: jsobj
  ch_upstreamUpdateMeta :: update_meta

text \<open>The decimal text of an integer, as \<open>'' + id\<close> gives it below \<open>2^53\<close>.\<close>

definition int_text :: "int \<Rightarrow> jstring" where
  "int_text i = (if i < 0 then 45 # dec (nat (- i)) else dec (nat i))"

text \<open>
  A field of a tag row that shows the common value of its channels: not yet set (\<open>-1\<close>), a value, or
  mixed (the empty text). The value \<open>-1\<close> of a channel is the same as not yet set.
\<close>

datatype common = Common "int option" | Mixed

definition UNSET :: common where
  "UNSET = Common (Some (- 1))"

definition join_common :: "common \<Rightarrow> int option \<Rightarrow> common" where
  "join_common c v = (if c = UNSET then Common v else if c \<noteq> Common v then Mixed else c)"

text \<open>\<open>status\<close> is \<open>None\<close> while it is undefined. The key and the id of the row are its tag.\<close>

record tag_row =
  tr_tag :: jstring
  tr_group :: jstring
  tr_used_quota :: jsnum
  tr_response_time :: jsnum
  tr_priority :: common
  tr_weight :: common
  tr_status :: "int option"
  tr_children :: "nat list"

datatype row = Row_channel nat | Row_tag nat

record row_store =
  rs_channel :: "nat \<Rightarrow> channel"
  rs_tag :: "nat \<Rightarrow> tag_row"
  rs_next :: nat

definition TAG_PREFIX :: jstring where "TAG_PREFIX = [0x6807, 0x7B7E, 0xFF1A]"

definition tag_row_name :: "tag_row \<Rightarrow> jstring" where
  "tag_row_name r = TAG_PREFIX @ tr_tag r"

subsection \<open>Grouping by tag\<close>

definition new_tag_row :: "jstring \<Rightarrow> tag_row" where
  "new_tag_row tag = \<lparr>tr_tag = tag, tr_group = [], tr_used_quota = Num 0, tr_response_time = Num 0,
     tr_priority = UNSET, tr_weight = UNSET, tr_status = None, tr_children = []\<rparr>"

text \<open>The groups of a further channel are appended unless their text already occurs in the list.\<close>

definition add_group :: "jstring \<Rightarrow> jstring \<Rightarrow> jstring" where
  "add_group groups item = (if str_includes groups item then groups else groups @ [44] @ item)"

definition join_groups :: "jstring \<Rightarrow> jstring \<Rightarrow> jstring" where
  "join_groups groups channelGroups =
     (if groups = [] then channelGroups else foldl add_group groups (split_on 44 channelGroups))"

definition halved_time :: "jsnum \<Rightarrow> jsnum \<Rightarrow> jsnum" where
  "halved_time time t = num_div (num_add time t) (Num 2)"

definition add_to_tag :: "nat \<Rightarrow> channel \<Rightarrow> tag_row \<Rightarrow> tag_row" where
  "add_to_tag ref c r = r\<lparr>
     tr_priority := join_common (tr_priority r) (ch_priority c),
     tr_weight := join_common (tr_weight r) (ch_weight c),
     tr_group := join_groups (tr_group r) (ch_group c),
     tr_children := tr_children r @ [ref],
     tr_status := (if ch_status c = 1 then Some 1 else tr_status r),
     tr_used_quota := num_add (tr_used_quota r) (ch_used_quota c),
     tr_response_time := halved_time (tr_response_time r) (ch_response_time c)\<rparr>"

definition row_tag :: "channel \<Rightarrow> jstring" where
  "row_tag c = (case ch_tag c of None \<Rightarrow> [] | Some t \<Rightarrow> t)"

text \<open>The loop over the channels with tags: the rows so far, each with its contents.\<close>

fun group_by_tag :: "(nat \<times> channel) list \<Rightarrow> tag_row list \<Rightarrow> tag_row list res" where
  "group_by_tag [] rows = Inr rows"
| "group_by_tag ((ref, c) # cs) rows =
     (let tag = row_tag c in
      case find_index (\<lambda>r. tr_tag r = tag) rows of
        Some i \<Rightarrow> group_by_tag cs (rows[i := add_to_tag ref c (rows ! i)])
      | None \<Rightarrow>
          if tag \<in> set PROTO_NAMES then Inl TypeError
          else group_by_tag cs (rows @ [add_to_tag ref c (new_tag_row tag)]))"

text \<open>The objects of the response: the metadata and the key are added to each channel.\<close>

definition prepare_channel :: "channel \<Rightarrow> channel res" where
  "prepare_channel c = rbind (parseUpstreamUpdateMeta (JStr (ch_settings c))) (\<lambda>meta.
     Inr (c\<lparr>ch_upstreamUpdateMeta := meta, ch_key := int_text (ch_id c)\<rparr>))"

definition alloc_channels :: "channel list \<Rightarrow> row_store \<Rightarrow> nat list \<times> row_store" where
  "alloc_channels cs st =
     (let refs = [rs_next st..<rs_next st + length cs] in
      (refs, st\<lparr>rs_channel := (\<lambda>r. if r \<in> set refs then cs ! (r - rs_next st) else rs_channel st r),
                rs_next := rs_next st + length cs\<rparr>))"

definition alloc_tags :: "tag_row list \<Rightarrow> row_store \<Rightarrow> nat list \<times> row_store" where
  "alloc_tags rs st =
     (let refs = [rs_next st..<rs_next st + length rs] in
      (refs, st\<lparr>rs_tag := (\<lambda>r. if r \<in> set refs then rs ! (r - rs_next st) else rs_tag st r),
                rs_next := rs_next st + length rs\<rparr>))"

definition setChannelFormat :: "channel list \<Rightarrow> bool \<Rightarrow> row_store \<Rightarrow> (row list \<times> row_store) res" where
  "setChannelFormat channels enableTagMode st =
     rbind (res_list (map prepare_channel channels)) (\<lambda>cs.
       let (refs, st') = alloc_channels cs st in
       if \<not> enableTagMode then Inr (map Row_channel refs, st')
       else rbind (group_by_tag (zip refs cs) []) (\<lambda>rows.
              let (tagRefs, st'') = alloc_tags rows st' in Inr (map Row_tag tagRefs, st'')))"

subsection \<open>Texts of messages and numbers\<close>

text \<open>The replacement text of \<open>String.replace\<close> with its \<open>$\<close> patterns.\<close>

fun expand_replacement :: "jstring \<Rightarrow> jstring \<Rightarrow> jstring \<Rightarrow> jstring \<Rightarrow> jstring" where
  "expand_replacement before match after [] = []"
| "expand_replacement before match after [c] = [c]"
| "expand_replacement before match after (c # d # r) =
     (if c \<noteq> 36 then c # expand_replacement before match after (d # r)
      else if d = 36 then 36 # expand_replacement before match after r
      else if d = 38 then match @ expand_replacement before match after r
      else if d = 96 then before @ expand_replacement before match after r
      else if d = 39 then after @ expand_replacement before match after r
      else c # expand_replacement before match after (d # r))"

definition js_replace :: "jstring \<Rightarrow> jstring \<Rightarrow> jstring \<Rightarrow> jstring" where
  "js_replace p replacement s = (case split_first p s of
       None \<Rightarrow> s
     | Some (before, after) \<Rightarrow> before @ expand_replacement before p after replacement @ after)"

text \<open>\<open>parseInt(s)\<close> without a radix: hexadecimal after \<open>0x\<close>, decimal otherwise.\<close>

definition parse_int :: "jstring \<Rightarrow> jsnum" where
  "parse_int s =
     (let u = trim_start s; neg = (u \<noteq> [] \<and> hd u = 45);
          v = (if u \<noteq> [] \<and> (hd u = 45 \<or> hd u = 43) then tl u else u)
      in if starts_with v (js ''0x'') \<or> starts_with v (js ''0X'') then
           (let ds = takeWhile (\<lambda>c. radix_digit 16 c \<noteq> None) (drop 2 v) in
            if ds = [] then NaN else with_sign neg (case radix_value 16 0 ds of None \<Rightarrow> NaN | Some n \<Rightarrow> rnd (of_nat n)))
         else parse_int10 s)"

subsection \<open>State\<close>

record search_form =
  sf_searchKeyword :: jstring
  sf_searchGroup :: jstring
  sf_searchModel :: jstring

definition form_empty :: "search_form \<Rightarrow> bool" where
  "form_empty f \<longleftrightarrow> sf_searchKeyword f = [] \<and> sf_searchGroup f = [] \<and> sf_searchModel f = []"

datatype toast_kind = Toast_success | Toast_error | Toast_info

datatype api_call =
    Api_get jstring
  | Api_put jstring jsval
  | Api_post jstring jsval
  | Api_delete jstring

text \<open>The calls sent so far and the messages shown so far are part of the state.\<close>

record channels_state =
  cs_store :: row_store
  cs_channels :: "row list"
  cs_channelCount :: int
  cs_loading :: bool
  cs_searching :: bool
  cs_activePage :: nat
  cs_pageSize :: nat
  cs_idSort :: bool
  cs_enableTagMode :: bool
  cs_statusFilter :: jstring
  cs_activeTypeKey :: jstring
  cs_typeCounts :: "(jstring \<times> jsnum) list"
  cs_form :: search_form
  cs_requestCounter :: nat
  cs_selectedChannels :: "jsval list"
  cs_batchSetTagValue :: jstring
  cs_showBatchSetTag :: bool
  cs_sent :: "api_call list"
  cs_toasts :: "(toast_kind \<times> jstring) list"

definition show_toast :: "toast_kind \<Rightarrow> jstring \<Rightarrow> channels_state \<Rightarrow> channels_state" where
  "show_toast kind m s = s\<lparr>cs_toasts := cs_toasts s @ [(kind, m)]\<rparr>"

definition send_call :: "api_call \<Rightarrow> channels_state \<Rightarrow> channels_state" where
  "send_call call s = s\<lparr>cs_sent := cs_sent s @ [call]\<rparr>"

definition bool_text :: "bool \<Rightarrow> jstring" where
  "bool_text b = (if b then js ''true'' else js ''false'')"

subsection \<open>Loading and searching\<close>

definition filter_params :: "jstring \<Rightarrow> jstring \<Rightarrow> jstring" where
  "filter_params typeKey statusF =
     (if typeKey \<noteq> js ''all'' then js ''&type='' @ typeKey else []) @
     (if statusF \<noteq> js ''all'' then js ''&status='' @ statusF else [])"

definition load_url :: "nat \<Rightarrow> nat \<Rightarrow> bool \<Rightarrow> bool \<Rightarrow> jstring \<Rightarrow> jstring \<Rightarrow> jstring" where
  "load_url page pageSize idSort tagMode typeKey statusF =
     js ''/api/channel/?p='' @ dec page @ js ''&page_size='' @ dec pageSize @ js ''&id_sort='' @ bool_text idSort @
     js ''&tag_mode='' @ bool_text tagMode @ filter_params typeKey statusF"

definition search_url :: "search_form \<Rightarrow> nat \<Rightarrow> nat \<Rightarrow> bool \<Rightarrow> bool \<Rightarrow> jstring \<Rightarrow> jstring \<Rightarrow> jstring" where
  "search_url f page pageSize idSort tagMode typeKey statusF =
     js ''/api/channel/search?keyword='' @ sf_searchKeyword f @ js ''&group='' @ sf_searchGroup f @ js ''&model='' @ sf_searchModel f @
     js ''&id_sort='' @ bool_text idSort @ js ''&tag_mode='' @ bool_text tagMode @ js ''&p='' @ dec page @
     js ''&page_size='' @ dec pageSize @ filter_params typeKey statusF"

text \<open>
  What a pending request remembers: a load its number and mode, a search its mode and page; the
  last flag tells whether \<open>searchChannels\<close> called \<open>loadChannels\<close>, or the other way round.
\<close>

datatype ticket = Load_ticket nat bool bool | Search_ticket bool nat bool

definition start_load :: "nat \<Rightarrow> nat \<Rightarrow> bool \<Rightarrow> bool \<Rightarrow> jstring \<Rightarrow> jstring \<Rightarrow> bool \<Rightarrow> channels_state \<Rightarrow> ticket \<times> channels_state" where
  "start_load page pageSize idSort tagMode typeKey statusF fromSearch s =
     (let reqId = cs_requestCounter s + 1
      in (Load_ticket reqId tagMode fromSearch,
          send_call (Api_get (load_url page pageSize idSort tagMode typeKey statusF))
            (s\<lparr>cs_requestCounter := reqId, cs_loading := True\<rparr>)))"

definition start_search :: "nat \<Rightarrow> nat \<Rightarrow> bool \<Rightarrow> bool \<Rightarrow> jstring \<Rightarrow> jstring \<Rightarrow> bool \<Rightarrow> channels_state \<Rightarrow> ticket \<times> channels_state" where
  "start_search page pageSize idSort tagMode typeKey statusF fromLoad s =
     (Search_ticket tagMode page fromLoad,
      send_call (Api_get (search_url (cs_form s) page pageSize idSort tagMode typeKey statusF)) (s\<lparr>cs_searching := True\<rparr>))"

definition loadChannels :: "nat \<Rightarrow> nat \<Rightarrow> bool \<Rightarrow> bool \<Rightarrow> jstring \<Rightarrow> jstring \<Rightarrow> channels_state \<Rightarrow> ticket \<times> channels_state" where
  "loadChannels page pageSize idSort tagMode typeKey statusF s =
     (if \<not> form_empty (cs_form s)
      then start_search page pageSize idSort tagMode typeKey statusF True (s\<lparr>cs_loading := True\<rparr>)
      else start_load page pageSize idSort tagMode typeKey statusF False s)"

definition searchChannels :: "bool \<Rightarrow> jstring \<Rightarrow> jstring \<Rightarrow> nat \<Rightarrow> nat \<Rightarrow> bool \<Rightarrow> channels_state \<Rightarrow> ticket \<times> channels_state" where
  "searchChannels tagMode typeKey statusF page pageSize idSort s =
     (if form_empty (cs_form s)
      then start_load page pageSize idSort tagMode typeKey statusF True (s\<lparr>cs_searching := True\<rparr>)
      else start_search page pageSize idSort tagMode typeKey statusF False s)"

record page_data =
  pd_items :: "channel list"
  pd_total :: int
  pd_type_counts :: "(jstring \<times> jsnum) list option"

text \<open>The answer to a list request: data, an error message, no response, or a rejected promise.\<close>

datatype list_response = List_ok page_data | List_error jstring | List_undefined | List_rejected

definition put_type_counts :: "(jstring \<times> jsnum) list \<Rightarrow> channels_state \<Rightarrow> channels_state" where
  "put_type_counts counts s = s\<lparr>cs_typeCounts := obj_set (js ''all'') (foldl num_add (Num 0) (map snd counts)) counts\<rparr>"

text \<open>The rows of the page; an exception leaves rows and count as they are. The flag tells that there was none.\<close>

definition put_page :: "page_data \<Rightarrow> bool \<Rightarrow> channels_state \<Rightarrow> bool \<times> channels_state" where
  "put_page data tagMode s =
     (case setChannelFormat (pd_items data) tagMode (cs_store s) of
        Inl _ \<Rightarrow> (False, s)
      | Inr (rows, store) \<Rightarrow> (True, s\<lparr>cs_channels := rows, cs_store := store, cs_channelCount := pd_total data\<rparr>))"

fun load_response :: "nat \<Rightarrow> bool \<Rightarrow> list_response \<Rightarrow> channels_state \<Rightarrow> channels_state" where
  "load_response reqId tagMode List_rejected s = s"
| "load_response reqId tagMode List_undefined s = s"
| "load_response reqId tagMode (List_error message) s =
     (if reqId \<noteq> cs_requestCounter s then s else (show_toast Toast_error message s)\<lparr>cs_loading := False\<rparr>)"
| "load_response reqId tagMode (List_ok data) s =
     (if reqId \<noteq> cs_requestCounter s then s
      else (let s1 = (case pd_type_counts data of None \<Rightarrow> s | Some counts \<Rightarrow> put_type_counts counts s);
                (ok, s2) = put_page data tagMode s1
            in if ok then s2\<lparr>cs_loading := False\<rparr> else s2))"

text \<open>A search that gets no response reads \<open>res.data\<close> of \<open>undefined\<close>, which throws. The flag tells whether there was no exception.\<close>

fun search_response :: "bool \<Rightarrow> nat \<Rightarrow> list_response \<Rightarrow> channels_state \<Rightarrow> bool \<times> channels_state" where
  "search_response tagMode page List_rejected s = (False, s)"
| "search_response tagMode page List_undefined s = (False, s)"
| "search_response tagMode page (List_error message) s = (True, show_toast Toast_error message s)"
| "search_response tagMode page (List_ok data) s =
     (let s1 = put_type_counts (case pd_type_counts data of None \<Rightarrow> [] | Some counts \<Rightarrow> counts) s;
          (ok, s2) = put_page data tagMode s1
      in if ok then (True, s2\<lparr>cs_activePage := page\<rparr>) else (False, s2))"

fun list_arrived :: "ticket \<Rightarrow> list_response \<Rightarrow> channels_state \<Rightarrow> channels_state" where
  "list_arrived (Load_ticket reqId tagMode fromSearch) r s =
     (let s1 = load_response reqId tagMode r s in if fromSearch then s1\<lparr>cs_searching := False\<rparr> else s1)"
| "list_arrived (Search_ticket tagMode page fromLoad) r s =
     (let (ok, s1) = search_response tagMode page r s; s2 = s1\<lparr>cs_searching := False\<rparr>
      in if fromLoad \<and> ok then s2\<lparr>cs_loading := False\<rparr> else s2)"

definition refresh :: "nat \<Rightarrow> channels_state \<Rightarrow> ticket \<times> channels_state" where
  "refresh page s =
     (if form_empty (cs_form s)
      then loadChannels page (cs_pageSize s) (cs_idSort s) (cs_enableTagMode s) (cs_activeTypeKey s) (cs_statusFilter s) s
      else searchChannels (cs_enableTagMode s) (cs_activeTypeKey s) (cs_statusFilter s) page (cs_pageSize s) (cs_idSort s) s)"

definition handlePageChange :: "nat \<Rightarrow> channels_state \<Rightarrow> ticket \<times> channels_state" where
  "handlePageChange page s = refresh page (s\<lparr>cs_activePage := page\<rparr>)"

text \<open>The new size is used at once, and also kept in the local storage under \<open>page-size\<close>.\<close>

definition handlePageSizeChange :: "nat \<Rightarrow> channels_state \<Rightarrow> ticket \<times> channels_state" where
  "handlePageSizeChange size' s = refresh 1 (s\<lparr>cs_pageSize := size', cs_activePage := 1\<rparr>)"

subsection \<open>Actions on a channel\<close>

datatype manage_action = M_delete | M_enable | M_disable | M_priority jstring | M_weight jstring | M_enable_all

definition update_channel :: "nat \<Rightarrow> (channel \<Rightarrow> channel) \<Rightarrow> channels_state \<Rightarrow> channels_state" where
  "update_channel ref f s = s\<lparr>cs_store := (cs_store s)\<lparr>rs_channel := (rs_channel (cs_store s))(ref := f (rs_channel (cs_store s) ref))\<rparr>\<rparr>"

definition update_tag :: "nat \<Rightarrow> (tag_row \<Rightarrow> tag_row) \<Rightarrow> channels_state \<Rightarrow> channels_state" where
  "update_tag ref f s = s\<lparr>cs_store := (cs_store s)\<lparr>rs_tag := (rs_tag (cs_store s))(ref := f (rs_tag (cs_store s) ref))\<rparr>\<rparr>"

definition id_val :: "int \<Rightarrow> jsval" where
  "id_val i = JNum (Num (of_int i))"

text \<open>The request of an action on the channel \<open>ref\<close>; an empty priority or weight sends nothing.\<close>

definition manageChannel :: "nat \<Rightarrow> manage_action \<Rightarrow> channels_state \<Rightarrow> bool \<times> channels_state" where
  "manageChannel ref action s =
     (let cid = ch_id (rs_channel (cs_store s) ref); url = js ''/api/channel/'';
          put = (\<lambda>fields s. (True, send_call (Api_put url (JObj ((js ''id'', id_val cid) # fields))) s))
      in case action of
           M_delete \<Rightarrow> (True, send_call (Api_delete (url @ int_text cid @ js ''/'')) s)
         | M_enable \<Rightarrow> put [(js ''status'', JNum (Num 1))] s
         | M_disable \<Rightarrow> put [(js ''status'', JNum (Num 2))] s
         | M_priority v \<Rightarrow> if v = [] then (False, s) else put [(js ''priority'', JNum (parse_int v))] s
         | M_weight v \<Rightarrow>
             if v = [] then (False, s)
             else put [(js ''weight'', JNum (if num_lt (parse_int v) (Num 0) then Num 0 else parse_int v))] s
         | M_enable_all \<Rightarrow>
             (let info = obj_set (js ''multi_key_status_list'') (JObj []) (ch_channel_info (rs_channel (cs_store s) ref))
              in put [(js ''channel_info'', JObj info)] (update_channel ref (\<lambda>c. c\<lparr>ch_channel_info := info\<rparr>) s)))"

datatype action_response = Action_ok int | Action_error jstring

definition MSG_action_done :: jstring where "MSG_action_done = [0x64CD, 0x4F5C, 0x6210, 0x529F, 0x5B8C, 0x6210, 0xFF01]"

text \<open>After the \<open>await\<close>: \<open>captured\<close> is the list of rows when the action was started; \<open>Action_ok\<close> carries the new status.\<close>

definition manageChannel_done :: "i18n \<Rightarrow> row list \<Rightarrow> nat \<Rightarrow> manage_action \<Rightarrow> action_response \<Rightarrow> channels_state \<Rightarrow> channels_state" where
  "manageChannel_done t captured ref action r s = (case r of
       Action_error message \<Rightarrow> show_toast Toast_error message s
     | Action_ok status \<Rightarrow>
         (let s1 = show_toast Toast_success (t MSG_action_done []) s;
              s2 = (if action \<noteq> M_delete then update_channel ref (\<lambda>c. c\<lparr>ch_status := status\<rparr>) s1 else s1)
          in s2\<lparr>cs_channels := captured\<rparr>))"

subsection \<open>Actions on a tag\<close>

definition set_row_status :: "jstring \<Rightarrow> int \<Rightarrow> row \<Rightarrow> channels_state \<Rightarrow> channels_state" where
  "set_row_status tag status r s = (case r of
       Row_channel ref \<Rightarrow>
         if ch_tag (rs_channel (cs_store s) ref) = Some tag then update_channel ref (\<lambda>c. c\<lparr>ch_status := status\<rparr>) s else s
     | Row_tag ref \<Rightarrow>
         if tr_tag (rs_tag (cs_store s) ref) = tag then
           update_tag ref (\<lambda>r. r\<lparr>tr_status := Some status\<rparr>)
             (foldl (\<lambda>s child. update_channel child (\<lambda>c. c\<lparr>ch_status := status\<rparr>) s) s (tr_children (rs_tag (cs_store s) ref)))
         else s)"

definition manageTag :: "jstring \<Rightarrow> bool \<Rightarrow> channels_state \<Rightarrow> channels_state" where
  "manageTag tag enable s =
     send_call (Api_post (if enable then js ''/api/channel/tag/enabled'' else js ''/api/channel/tag/disabled'') (JObj [(js ''tag'', JStr tag)])) s"

definition manageTag_done :: "i18n \<Rightarrow> row list \<Rightarrow> jstring \<Rightarrow> bool \<Rightarrow> jstring option \<Rightarrow> channels_state \<Rightarrow> channels_state" where
  "manageTag_done t captured tag enable error s = (case error of
       Some message \<Rightarrow> show_toast Toast_error message s
     | None \<Rightarrow>
         (foldl (\<lambda>s r. set_row_status tag (if enable then 1 else 2) r s)
            (show_toast Toast_success (t MSG_action_done []) s) captured)\<lparr>cs_channels := captured\<rparr>)"

subsection \<open>Updates from tests and balances\<close>

definition row_channels :: "row_store \<Rightarrow> row \<Rightarrow> nat list" where
  "row_channels st r = (case r of Row_channel ref \<Rightarrow> [ref] | Row_tag ref \<Rightarrow> tr_children (rs_tag st ref))"

text \<open>\<open>captured\<close> is the list of rows of the render in which the function was created.\<close>

definition updateChannelProperty :: "row list \<Rightarrow> int \<Rightarrow> (channel \<Rightarrow> channel) \<Rightarrow> channels_state \<Rightarrow> channels_state" where
  "updateChannelProperty captured channelId f s =
     (let refs = filter (\<lambda>ref. ch_id (rs_channel (cs_store s) ref) = channelId) (concat (map (row_channels (cs_store s)) captured));
          s' = foldl (\<lambda>s ref. update_channel ref f s) s refs
      in if refs \<noteq> [] then s'\<lparr>cs_channels := captured\<rparr> else s')"

subsection \<open>Counts by type\<close>

definition count_type :: "(jstring \<times> jsnum) list \<Rightarrow> int \<Rightarrow> (jstring \<times> jsnum) list" where
  "count_type counts type =
     (let k = int_text type; old = (case map_of counts k of None \<Rightarrow> Num 0 | Some n \<Rightarrow> if n = NaN then Num 0 else n)
      in obj_set k (num_add old (Num 1)) counts)"

definition channelTypeCounts :: "channels_state \<Rightarrow> (jstring \<times> jsnum) list" where
  "channelTypeCounts s =
     (if cs_typeCounts s \<noteq> [] then cs_typeCounts s
      else foldl count_type [(js ''all'', Num (of_nat (length (cs_channels s))))]
        (map (\<lambda>ref. ch_type (rs_channel (cs_store s) ref)) (concat (map (row_channels (cs_store s)) (cs_channels s)))))"

definition availableTypeKeys :: "channels_state \<Rightarrow> jstring list" where
  "availableTypeKeys s =
     js ''all'' # map fst (filter (\<lambda>kv. fst kv \<noteq> js ''all'' \<and> num_lt (Num 0) (snd kv)) (channelTypeCounts s))"


subsection \<open>Properties: the rows of the tags\<close>

text \<open>The reference: the channels of one tag, added one after the other.\<close>

definition tag_fold :: "tag_row \<Rightarrow> (nat \<times> channel) list \<Rightarrow> tag_row" where
  "tag_fold r cs = foldl (\<lambda>r (ref, c). add_to_tag ref c r) r (filter (\<lambda>(ref, c). row_tag c = tr_tag r) cs)"

lemma add_to_tag_tag [simp]: "tr_tag (add_to_tag ref c r) = tr_tag r"
  by (simp add: add_to_tag_def)

lemma tag_fold_Nil [simp]: "tag_fold r [] = r"
  by (simp add: tag_fold_def)

lemma tag_fold_Cons: "tag_fold r ((ref, c) # cs) = tag_fold (if row_tag c = tr_tag r then add_to_tag ref c r else r) cs"
  by (simp add: tag_fold_def)

lemma new_tag_row_tag [simp]: "tr_tag (new_tag_row tag) = tag"
  by (simp add: new_tag_row_def)

lemma fold_new_row:
  fixes tag xs defines "r \<equiv> foldl (\<lambda>r (ref, c). add_to_tag ref c r) (new_tag_row tag) xs"
  shows "tr_tag r = tag" and "tr_children r = map fst xs"
    and "tr_used_quota r = foldl num_add (Num 0) (map (ch_used_quota \<circ> snd) xs)"
    and "tr_status r = (if \<exists>x \<in> set xs. ch_status (snd x) = 1 then Some 1 else None)"
    and "tr_priority r = foldl join_common UNSET (map (ch_priority \<circ> snd) xs)"
    and "tr_weight r = foldl join_common UNSET (map (ch_weight \<circ> snd) xs)"
    and "tr_response_time r = foldl halved_time (Num 0) (map (ch_response_time \<circ> snd) xs)"
    and "tr_group r = foldl join_groups [] (map (ch_group \<circ> snd) xs)"
  unfolding r_def
  by (induction xs rule: rev_induct) (force simp: new_tag_row_def add_to_tag_def halved_time_def)+

lemma tag_fold_update:
  assumes "i < length rows" and "distinct (map tr_tag rows)" and "row_tag c = tr_tag (rows ! i)"
  shows "map (\<lambda>r. tag_fold r cs) (rows[i := add_to_tag ref c (rows ! i)]) = map (\<lambda>r. tag_fold r ((ref, c) # cs)) rows"
proof (rule nth_equalityI)
  fix j assume "j < length (map (\<lambda>r. tag_fold r cs) (rows[i := add_to_tag ref c (rows ! i)]))"
  then have j: "j < length rows" by simp
  moreover have "j \<noteq> i \<Longrightarrow> tr_tag (rows ! j) \<noteq> tr_tag (rows ! i)"
    using assms(1,2) j by (auto simp: distinct_conv_nth)
  ultimately show "map (\<lambda>r. tag_fold r cs) (rows[i := add_to_tag ref c (rows ! i)]) ! j = map (\<lambda>r. tag_fold r ((ref, c) # cs)) rows ! j"
    using assms(3) by (cases "j = i") (auto simp: tag_fold_Cons)
qed simp

lemma group_by_tag_eq:
  assumes "distinct (map tr_tag rows)" and "set PROTO_NAMES \<inter> tr_tag ` set rows = {}"
  shows "group_by_tag cs rows =
    (if set PROTO_NAMES \<inter> (row_tag \<circ> snd) ` set cs \<noteq> {} then Inl TypeError
     else Inr (map (\<lambda>r. tag_fold r cs) rows @
        map (\<lambda>tag. tag_fold (new_tag_row tag) cs) (filter (\<lambda>tag. tag \<notin> tr_tag ` set rows) (js_set (map (row_tag \<circ> snd) cs)))))"
  using assms
proof (induction cs rows rule: group_by_tag.induct)
  case (1 rows)
  then show ?case by simp
next
  case (2 ref c cs rows)
  let ?tag = "row_tag c"
  show ?case
  proof (cases "find_index (\<lambda>r. tr_tag r = ?tag) rows")
    case None
    then have fresh: "?tag \<notin> tr_tag ` set rows" by (auto simp: find_index_None_iff)
    then have same: "map (\<lambda>r. tag_fold r ((ref, c) # cs)) rows = map (\<lambda>r. tag_fold r cs) rows"
      by (auto simp: tag_fold_Cons)
    show ?thesis
    proof (cases "?tag \<in> set PROTO_NAMES")
      case False
      let ?rows = "rows @ [add_to_tag ref c (new_tag_row ?tag)]"
      let ?old = "\<lambda>tag. tag \<in> tr_tag ` set rows"
      have "distinct (map tr_tag ?rows)" "set PROTO_NAMES \<inter> tr_tag ` set ?rows = {}"
        using 2(3,4) fresh False by auto
      from 2(1) [OF refl None False this] False None
      have "group_by_tag ((ref, c) # cs) rows = (if set PROTO_NAMES \<inter> (row_tag \<circ> snd) ` set cs \<noteq> {} then Inl TypeError
         else Inr (map (\<lambda>r. tag_fold r cs) ?rows @
           map (\<lambda>tag. tag_fold (new_tag_row tag) cs) (filter (\<lambda>tag. tag \<notin> tr_tag ` set ?rows) (js_set (map (row_tag \<circ> snd) cs)))))"
        by (simp only: group_by_tag.simps Let_def option.simps if_False)
      then show ?thesis
        using False fresh same
        by (auto simp: js_set_Cons tag_fold_Cons comp_def simp del: group_by_tag.simps intro!: filter_cong)
    qed (use None in simp)
  next
    case (Some i)
    from find_index_SomeD [OF this] have i: "i < length rows" "tr_tag (rows ! i) = ?tag" by auto
    then have old: "?tag \<in> tr_tag ` set rows" by (auto simp: image_iff) (metis nth_mem)
    let ?rows = "rows[i := add_to_tag ref c (rows ! i)]"
    have tags: "map tr_tag ?rows = map tr_tag rows" using i by (simp add: map_update list_update_same_conv)
    then have tag_set: "tr_tag ` set ?rows = tr_tag ` set rows" by (metis set_map)
    have proto: "?tag \<notin> set PROTO_NAMES" using old 2(4) by blast
    let ?new = "filter (\<lambda>tag. tag \<notin> tr_tag ` set rows)"
    have "map (\<lambda>tag. tag_fold (new_tag_row tag) ((ref, c) # cs)) (?new (js_set (map (row_tag \<circ> snd) ((ref, c) # cs)))) =
        map (\<lambda>tag. tag_fold (new_tag_row tag) cs) (?new (js_set (map (row_tag \<circ> snd) cs)))"
      using old by (auto simp: js_set_Cons tag_fold_Cons comp_def intro!: map_cong filter_cong) (metis imageI)
    moreover have "group_by_tag ((ref, c) # cs) rows = group_by_tag cs ?rows" using Some by simp
    moreover have "set PROTO_NAMES \<inter> (row_tag \<circ> snd) ` set ((ref, c) # cs) = set PROTO_NAMES \<inter> (row_tag \<circ> snd) ` set cs"
      using proto by auto
    ultimately show ?thesis
      using 2(2) [OF refl Some] 2(3,4) unfolding tags tag_set tag_fold_update [OF i(1) 2(3) i(2) [symmetric]]
      by (simp only: if_cancel refl)
  qed
qed


lemma tag_fold_new:
  "tag_fold (new_tag_row tag) cs = foldl (\<lambda>r (ref, c). add_to_tag ref c r) (new_tag_row tag) (filter (\<lambda>(ref, c). row_tag c = tag) cs)"
  by (simp add: tag_fold_def)

lemma alloc_channels_facts:
  assumes "alloc_channels cs st = (refs, st')"
  shows "length refs = length cs" and "map (rs_channel st') refs = cs" and "rs_next st' = rs_next st + length cs"
    and "set refs \<subseteq> {rs_next st..<rs_next st'}" and "distinct refs"
  using assms by (auto simp: alloc_channels_def Let_def intro!: nth_equalityI)

lemma alloc_tags_facts:
  assumes "alloc_tags rs st = (refs, st')"
  shows "map (rs_tag st') refs = rs" and "rs_channel st' = rs_channel st" and "distinct refs"
  using assms by (auto simp: alloc_tags_def Let_def intro!: nth_equalityI)

lemma filter_zip_snd: "length xs = length ys \<Longrightarrow> map snd (filter (\<lambda>(x, y). P y) (zip xs ys)) = filter P ys"
  by (induction xs ys rule: list_induct2) auto

lemma map_ref_filter:
  assumes "map f refs = cs"
  shows "map f (map fst (filter (\<lambda>(ref, c). P c) (zip refs cs))) = filter P cs"
  using assms by (induction refs arbitrary: cs) auto

lemma filter_zip_ex: "length xs = length ys \<Longrightarrow> (\<exists>x \<in> set (filter (\<lambda>(x, y). P y) (zip xs ys)). Q (snd x)) \<longleftrightarrow> (\<exists>y \<in> set (filter P ys). Q y)"
  by (induction xs ys rule: list_induct2) auto

lemma zip_snd_image: "length xs = length ys \<Longrightarrow> (f \<circ> snd) ` set (zip xs ys) = f ` set ys"
  by (metis image_comp list.set_map map_snd_zip)

lemma join_common_all: "xs \<noteq> [] \<Longrightarrow> \<forall>x \<in> set xs. x = v \<Longrightarrow> foldl join_common UNSET xs = Common v"
proof (induction xs rule: rev_nonempty_induct)
  case (snoc x xs)
  then show ?case by (simp add: join_common_def)
qed (simp add: join_common_def)

lemma join_common_map:
  assumes "p \<in> set xs" and "\<forall>q \<in> set xs. f q = f p"
  shows "foldl join_common UNSET (map f xs) = Common (f p)"
proof (rule join_common_all)
  show "map f xs \<noteq> []" using assms(1) by (cases xs) auto
  show "\<forall>x \<in> set (map f xs). x = f p"
  proof
    fix x assume "x \<in> set (map f xs)"
    then obtain q where "q \<in> set xs" "x = f q" unfolding set_map by (rule imageE)
    with bspec [OF assms(2)] show "x = f p" by (iprover intro: trans)
  qed
qed

text \<open>One row of the reference grouping: the channels of the tag below it, and what it sums up of them.\<close>

definition row_sums_up :: "tag_row \<Rightarrow> row_store \<Rightarrow> channel list \<Rightarrow> bool" where
  "row_sums_up r st mine \<longleftrightarrow>
     map (rs_channel st) (tr_children r) = mine \<and>
     tr_used_quota r = foldl num_add (Num 0) (map ch_used_quota mine) \<and>
     tr_response_time r = foldl halved_time (Num 0) (map ch_response_time mine) \<and>
     tr_status r = (if \<exists>p \<in> set mine. ch_status p = 1 then Some 1 else None) \<and>
     (\<forall>p \<in> set mine. (\<forall>q \<in> set mine. ch_priority q = ch_priority p) \<longrightarrow> tr_priority r = Common (ch_priority p)) \<and>
     (\<forall>p \<in> set mine. (\<forall>q \<in> set mine. ch_weight q = ch_weight p) \<longrightarrow> tr_weight r = Common (ch_weight p))"

definition row_ref :: "row \<Rightarrow> nat" where
  "row_ref r = (case r of Row_channel ref \<Rightarrow> ref | Row_tag ref \<Rightarrow> ref)"

definition rows_group :: "channel list \<Rightarrow> row list \<Rightarrow> row_store \<Rightarrow> bool" where
  "rows_group ps rows st \<longleftrightarrow>
     rows = map (\<lambda>r. Row_tag (row_ref r)) rows \<and>
     map (\<lambda>r. tr_tag (rs_tag st (row_ref r))) rows = js_set (map row_tag ps) \<and>
     list_all (\<lambda>r. let tr = rs_tag st (row_ref r) in row_sums_up tr st (filter (\<lambda>p. row_tag p = tr_tag tr) ps)) rows"

lemma row_sums_up_fold:
  assumes "map (rs_channel st) refs = ps" and "tag \<in> row_tag ` set ps"
  shows "row_sums_up (tag_fold (new_tag_row tag) (zip refs ps)) st (filter (\<lambda>p. row_tag p = tag) ps)"
proof -
  let ?mine = "filter (\<lambda>p. row_tag p = tag) ps"
  let ?zs = "filter (\<lambda>(ref, c). row_tag c = tag) (zip refs ps)"
  have len: "length refs = length ps" using assms(1) by auto
  have snds: "map (f \<circ> snd) ?zs = map f ?mine" for f :: "channel \<Rightarrow> 'a"
    using filter_zip_snd [OF len, of "\<lambda>p. row_tag p = tag"] by (metis map_map)
  have common: "foldl join_common UNSET (map f ?mine) = Common (f p)" if "p \<in> set ?mine" "\<forall>q \<in> set ?mine. f q = f p" for f and p :: channel
    using that by (rule join_common_map)
  have ex: "(\<exists>x \<in> set ?zs. ch_status (snd x) = 1) \<longleftrightarrow> (\<exists>p \<in> set ?mine. ch_status p = 1)"
    using len by (rule filter_zip_ex)
  show ?thesis unfolding row_sums_up_def tag_fold_new fold_new_row snds ex map_ref_filter [OF assms(1)]
    using common [of _ ch_priority] common [of _ ch_weight] by blast
qed

lemma setChannelFormat_groups:
  assumes "res_list (map prepare_channel channels) = Inr ps" and "set PROTO_NAMES \<inter> row_tag ` set ps = {}"
  shows "\<exists>rows st'. setChannelFormat channels True st = Inr (rows, st') \<and> rows_group ps rows st'"
proof -
  obtain refs st1 where a: "alloc_channels ps st = (refs, st1)" by fastforce
  note af = alloc_channels_facts [OF a]
  let ?row = "\<lambda>tag. tag_fold (new_tag_row tag) (zip refs ps)"
  let ?tags = "js_set (map row_tag ps)"
  have tags: "map (row_tag \<circ> snd) (zip refs ps) = map row_tag ps" using af(1) by (metis map_map map_snd_zip)
  have g: "group_by_tag (zip refs ps) [] = Inr (map ?row ?tags)"
    using group_by_tag_eq [of "[]" "zip refs ps"] assms(2) zip_snd_image [OF af(1), of row_tag] tags by simp
  obtain tagRefs st2 where b: "alloc_tags (map ?row ?tags) st1 = (tagRefs, st2)" by fastforce
  note bf = alloc_tags_facts [OF b]
  have "setChannelFormat channels True st = Inr (map Row_tag tagRefs, st2)"
    using assms(1) a b g by (simp add: setChannelFormat_def)
  moreover have "rows_group ps (map Row_tag tagRefs) st2"
  proof -
    have refs: "map (rs_channel st2) refs = ps" using af(2) bf(2) by simp
    have t: "tr_tag (?row tag) = tag" for tag by (simp add: tag_fold_new fold_new_row)
    have "map (\<lambda>ref. tr_tag (rs_tag st2 ref)) tagRefs = map tr_tag (map (rs_tag st2) tagRefs)" by simp
    then have "map (\<lambda>ref. tr_tag (rs_tag st2 ref)) tagRefs = ?tags" unfolding bf(1) by (simp add: t map_idI)
    moreover have "list_all (\<lambda>tr. row_sums_up tr st2 (filter (\<lambda>p. row_tag p = tr_tag tr) ps)) (map (rs_tag st2) tagRefs)"
      unfolding bf(1) using row_sums_up_fold [OF refs] by (auto simp: list_all_iff t)
    ultimately show ?thesis by (simp add: rows_group_def row_ref_def comp_def list_all_iff)
  qed
  ultimately show ?thesis by blast
qed

text \<open>
  C13. Grouping by tag loses and duplicates nothing: there is one row per tag, in the order of the first
  channels, and under each row stand exactly the channels with its tag, in their order. The quota of
  a row is the sum of theirs, and the row is enabled exactly when one of them is. It fails only for
  unreadable settings and for a tag that is the name of a property every object inherits.
\<close>

theorem tag_rows_exact:
  "case res_list (map prepare_channel channels) of
     Inl e \<Rightarrow> setChannelFormat channels True st = Inl e
   | Inr ps \<Rightarrow>
       if set PROTO_NAMES \<inter> row_tag ` set ps \<noteq> {} then setChannelFormat channels True st = Inl TypeError
       else \<exists>rows st'. setChannelFormat channels True st = Inr (rows, st') \<and> rows_group ps rows st'"
proof (cases "res_list (map prepare_channel channels)")
  case (Inl e)
  then show ?thesis by (simp add: setChannelFormat_def)
next
  case (Inr ps)
  show ?thesis
  proof (cases "set PROTO_NAMES \<inter> row_tag ` set ps = {}")
    case True
    then show ?thesis using Inr setChannelFormat_groups [OF Inr] by simp
  next
    case False
    obtain refs st1 where a: "alloc_channels ps st = (refs, st1)" by fastforce
    then show ?thesis
      using Inr False group_by_tag_eq [of "[]" "zip refs ps"] zip_snd_image [OF alloc_channels_facts(1) [OF a], of row_tag]
      by (simp add: setChannelFormat_def)
  qed
qed


subsection \<open>Properties: what a tag row shows\<close>

text \<open>
  The response time of a row is not the mean of its channels: every further channel halves what was
  there before, so a tag with one channel shows half of its response time.
\<close>

theorem tag_response_time_halved:
  assumes "prepare_channel c = Inr p" and "row_tag p \<notin> set PROTO_NAMES" and "ch_response_time c = Num (of_int ms)" and "\<bar>ms\<bar> \<le> 2 ^ 53" and "even ms"
  shows "\<exists>ref st'. setChannelFormat [c] True st = Inr ([Row_tag ref], st') \<and> tr_response_time (rs_tag st' ref) = Num (of_int (ms div 2))"
proof -
  have p: "ch_response_time p = Num (of_int ms)" using assms(1,3) by (auto simp: prepare_channel_def rbind_Inr_iff)
  have "\<bar>ms div 2\<bar> \<le> 2 ^ 53" using assms(4) by linarith
  moreover have "(of_int ms :: rat) / 2 = of_int (ms div 2)" using assms(5) by (auto elim: evenE)
  ultimately have half: "halved_time (Num 0) (Num (of_int ms)) = Num (of_int (ms div 2))"
    using rnd_of_int rnd_of_int [OF assms(4)] by (simp add: halved_time_def)
  have "res_list (map prepare_channel [c]) = Inr [p]" "set PROTO_NAMES \<inter> row_tag ` set [p] = {}"
    using assms(1,2) by simp_all
  from setChannelFormat_groups [OF this] obtain rows st' where
    s: "setChannelFormat [c] True st = Inr (rows, st')" "rows_group [p] rows st'" by blast
  then obtain ref where r: "rows = [Row_tag ref]" "tr_tag (rs_tag st' ref) = row_tag p"
    by (auto simp: rows_group_def js_set_Cons map_eq_Cons_conv) metis
  then have "row_sums_up (rs_tag st' ref) st' [p]" using s(2) by (simp add: rows_group_def Let_def row_ref_def)
  then show ?thesis using s(1) r half p by (auto simp: row_sums_up_def)
qed

text \<open>A group is missing from a row when its name is part of the text of the groups before it.\<close>

theorem tag_groups_missing:
  "join_groups (js ''svip'') (js ''vip'') = js ''svip''"
  by code_simp

text \<open>The priority \<open>-1\<close> counts as not set: a row with the priorities \<open>-1\<close> and \<open>v\<close> shows \<open>v\<close> instead of mixed.\<close>

theorem tag_priority_minus_one:
  "foldl join_common UNSET [Some (- 1), v] = Common v"
  by (simp add: join_common_def UNSET_def)


subsection \<open>Properties: answers that arrive late\<close>

text \<open>A ticket of a load that was started before the number of requests went beyond \<open>n\<close>.\<close>

fun load_before :: "nat \<Rightarrow> ticket \<Rightarrow> bool" where
  "load_before n (Load_ticket reqId _ _) = (reqId \<le> n)"
| "load_before n (Search_ticket _ _ _) = False"

definition answers :: "(ticket \<times> list_response) list \<Rightarrow> channels_state \<Rightarrow> channels_state" where
  "answers as s = foldl (\<lambda>s (ticket, r). list_arrived ticket r s) s as"

lemma show_toast_counter [simp]: "cs_requestCounter (show_toast k m s) = cs_requestCounter s"
  by (simp add: show_toast_def)

lemma send_call_counter [simp]: "cs_requestCounter (send_call c s) = cs_requestCounter s"
  by (simp add: send_call_def)

lemma load_response_searching: "load_response reqId tagMode r (s\<lparr>cs_searching := b\<rparr>) = (load_response reqId tagMode r s)\<lparr>cs_searching := b\<rparr>"
  by (cases r) (auto simp: show_toast_def put_type_counts_def put_page_def split: option.splits sum.splits)

lemma load_response_counter [simp]: "cs_requestCounter (load_response reqId tagMode r s) = cs_requestCounter s"
  by (cases r) (auto simp: put_type_counts_def put_page_def split: option.splits sum.splits)

lemma stale_load_ignored:
  assumes "load_before n ticket" and "n < cs_requestCounter s"
  shows "\<exists>b. list_arrived ticket r s = s\<lparr>cs_searching := b\<rparr>"
proof (cases ticket)
  case (Load_ticket reqId tagMode fromSearch)
  then have "load_response reqId tagMode r s = s" using assms by (cases r) auto
  then show ?thesis
    using Load_ticket by (intro exI [of _ "if fromSearch then False else cs_searching s"]) simp
qed (use assms in simp)

lemma stale_answers_ignored:
  assumes "\<forall>a \<in> set as. load_before n (fst a)" and "n < cs_requestCounter s"
  shows "\<exists>b. answers as s = s\<lparr>cs_searching := b\<rparr>"
  using assms
proof (induction as arbitrary: s)
  case Nil
  show ?case by (auto simp: answers_def intro!: exI [of _ "cs_searching s"])
next
  case (Cons a as)
  from stale_load_ignored [of n "fst a" s "snd a"] Cons.prems
  obtain b where b: "list_arrived (fst a) (snd a) s = s\<lparr>cs_searching := b\<rparr>" by auto
  from Cons.IH [of "s\<lparr>cs_searching := b\<rparr>"] Cons.prems
  obtain b' where "answers as (s\<lparr>cs_searching := b\<rparr>) = s\<lparr>cs_searching := b'\<rparr>" by auto
  with b show ?case by (auto simp: answers_def split_beta)
qed

text \<open>
  C12. The answers to loads may arrive in any order: only the answer to the load that was started last
  counts. Apart from the flag \<open>searching\<close> the page ends as if no older answer had ever arrived.
\<close>

theorem latest_load_wins:
  assumes "start_load page pageSize idSort tagMode typeKey statusF fromSearch s = (ticket, s0)"
    and "\<forall>a \<in> set (before @ after). load_before (cs_requestCounter s) (fst a)"
  shows "(answers (before @ [(ticket, r)] @ after) s0)\<lparr>cs_searching := False\<rparr> = (list_arrived ticket r s0)\<lparr>cs_searching := False\<rparr>"
proof -
  have s0: "cs_requestCounter s0 = cs_requestCounter s + 1" "ticket = Load_ticket (cs_requestCounter s + 1) tagMode fromSearch"
    using assms(1) by (auto simp: start_load_def Let_def)
  obtain b where b: "answers before s0 = s0\<lparr>cs_searching := b\<rparr>"
    using stale_answers_ignored [of before "cs_requestCounter s" s0] assms(2) s0 by auto
  let ?s1 = "list_arrived ticket r (s0\<lparr>cs_searching := b\<rparr>)"
  have "cs_requestCounter ?s1 = cs_requestCounter s0" using s0(2) by (simp add: Let_def)
  then obtain b' where b': "answers after ?s1 = ?s1\<lparr>cs_searching := b'\<rparr>"
    using stale_answers_ignored [of after "cs_requestCounter s" ?s1] assms(2) s0 by auto
  have "answers (before @ [(ticket, r)] @ after) s0 = answers after (list_arrived ticket r (answers before s0))"
    by (simp add: answers_def)
  also have "\<dots> = ?s1\<lparr>cs_searching := b'\<rparr>" by (simp add: b b')
  finally show ?thesis using s0(2) by (simp add: Let_def load_response_searching)
qed

text \<open>
  Searches have no such number: whenever the answer to a search arrives, its rows and its page
  replace what the table shows, even if newer requests were already answered.
\<close>

theorem late_search_replaces_rows:
  assumes "setChannelFormat (pd_items data) tagMode (cs_store s) = Inr (rows, store)"
  shows "cs_channels (list_arrived (Search_ticket tagMode page fromLoad) (List_ok data) s) = rows \<and>
    cs_activePage (list_arrived (Search_ticket tagMode page fromLoad) (List_ok data) s) = page"
  using assms by (simp add: put_page_def put_type_counts_def Let_def)

text \<open>A load whose promise is rejected, as the interceptors of the API do for every failed request, leaves the page loading.\<close>

theorem failed_load_keeps_loading:
  assumes "loadChannels page pageSize idSort tagMode typeKey statusF s = (ticket, s0)"
  shows "cs_loading (list_arrived ticket List_rejected s0)"
  using assms
  by (auto simp: loadChannels_def start_load_def start_search_def send_call_def Let_def split: if_splits)


subsection \<open>Properties: actions\<close>

definition table_refs :: "row list \<Rightarrow> row_store \<Rightarrow> nat list" where
  "table_refs rows st = concat (map (row_channels st) rows)"

lemma update_channel_fold:
  "rs_channel (cs_store (foldl (\<lambda>s ref. update_channel ref f s) s refs)) ref =
     (f ^^ count_list refs ref) (rs_channel (cs_store s) ref)"
proof (induction refs arbitrary: s)
  case (Cons r refs)
  then show ?case by (auto simp: update_channel_def funpow_swap1)
qed simp

lemma count_list_distinct: "distinct xs \<Longrightarrow> count_list xs x = (if x \<in> set xs then 1 else 0)"
  by (induction xs) auto

text \<open>
  An update by id reaches every channel of the table that has the id, also below a tag, and no other
  channel; the rows of the table stay.
\<close>

theorem update_by_id_exact:
  assumes "distinct (table_refs (cs_channels s) (cs_store s))"
  shows "rs_channel (cs_store (updateChannelProperty (cs_channels s) channelId f s)) ref =
      (if ref \<in> set (table_refs (cs_channels s) (cs_store s)) \<and> ch_id (rs_channel (cs_store s) ref) = channelId
       then f (rs_channel (cs_store s) ref) else rs_channel (cs_store s) ref) \<and>
    cs_channels (updateChannelProperty (cs_channels s) channelId f s) = cs_channels s"
proof -
  let ?refs = "filter (\<lambda>ref. ch_id (rs_channel (cs_store s) ref) = channelId) (table_refs (cs_channels s) (cs_store s))"
  have d: "distinct ?refs" using assms(1) by simp
  have rows: "cs_channels (foldl (\<lambda>s ref. update_channel ref f s) s refs) = cs_channels s" for refs
    by (induction refs rule: rev_induct) (auto simp: update_channel_def)
  show ?thesis
    unfolding updateChannelProperty_def Let_def table_refs_def [symmetric]
    using rows by (auto simp: update_channel_fold count_list_distinct [OF d] filter_empty_conv)
qed

text \<open>
  A handler works on the rows of the render that created it. When a test, a balance, a channel or a
  tag action ends after the table was loaded anew, its result brings back the old rows.
\<close>

theorem late_result_restores_rows:
  assumes "ref \<in> set (table_refs captured (cs_store s))" and "ch_id (rs_channel (cs_store s) ref) = channelId"
  shows "cs_channels (updateChannelProperty captured channelId f s) = captured \<and>
    cs_channels (manageChannel_done t captured ref action (Action_ok status) s) = captured \<and>
    cs_channels (manageTag_done t captured tag enable None s) = captured"
proof -
  have "filter (\<lambda>ref. ch_id (rs_channel (cs_store s) ref) = channelId) (table_refs captured (cs_store s)) \<noteq> []"
    using assms by (auto simp: filter_empty_conv)
  then show ?thesis
    unfolding updateChannelProperty_def manageChannel_done_def manageTag_done_def Let_def table_refs_def [symmetric] by simp
qed


subsection \<open>Witnesses\<close>

definition sample_channel :: "int \<Rightarrow> jstring \<Rightarrow> channel" where
  "sample_channel i tag = \<lparr>ch_id = i, ch_type = 1, ch_name = js ''main'', ch_status = 1, ch_group = js ''default'', ch_tag = Some tag,
     ch_priority = Some 0, ch_weight = Some 0, ch_used_quota = Num 10, ch_response_time = Num 200, ch_test_time = Num 0,
     ch_balance = Num 0, ch_balance_updated_time = Num 0, ch_models = js ''a,b'', ch_settings = [], ch_key = [], ch_channel_info = [],
     ch_upstreamUpdateMeta = \<lparr>um_enabled = False, um_pendingAddModels = [], um_pendingRemoveModels = []\<rparr>\<rparr>"

definition sample_table :: channels_state where
  "sample_table = \<lparr>cs_store = \<lparr>rs_channel = (\<lambda>_. sample_channel 7 (js ''eu'')), rs_tag = (\<lambda>_. new_tag_row []), rs_next = 1\<rparr>,
     cs_channels = [Row_channel 0], cs_channelCount = 1, cs_loading = False, cs_searching = False, cs_activePage = 1,
     cs_pageSize = 10, cs_idSort = False, cs_enableTagMode = False, cs_statusFilter = js ''all'', cs_activeTypeKey = js ''all'',
     cs_typeCounts = [], cs_form = \<lparr>sf_searchKeyword = [], sf_searchGroup = [], sf_searchModel = []\<rparr>, cs_requestCounter = 1,
     cs_selectedChannels = [], cs_batchSetTagValue = [], cs_showBatchSetTag = False, cs_sent = [], cs_toasts = []\<rparr>"

lemma sample_prepared: "prepare_channel (sample_channel i tag) = Inr ((sample_channel i tag)\<lparr>ch_key := int_text i\<rparr>)"
proof -
  have "json_parse [] = None" by code_simp
  then show ?thesis by (simp add: prepare_channel_def parseUpstreamUpdateMeta_def sample_channel_def)
qed

theorem tag_response_time_halved_witness:
  "\<exists>ref st'. setChannelFormat [sample_channel 7 (js ''eu'')] True (cs_store sample_table) = Inr ([Row_tag ref], st') \<and>
     tr_response_time (rs_tag st' ref) = Num 100"
proof -
  have "row_tag ((sample_channel 7 (js ''eu''))\<lparr>ch_key := int_text 7\<rparr>) \<notin> set PROTO_NAMES" by code_simp
  from tag_response_time_halved [OF sample_prepared this, of 200] show ?thesis by (simp add: sample_channel_def)
qed

theorem latest_load_wins_witness:
  "(answers ([] @ [(Load_ticket 2 False False, List_error (js ''down''))] @ [(Load_ticket 1 False False, List_rejected)])
      (snd (start_load 1 10 False False (js ''all'') (js ''all'') False sample_table)))\<lparr>cs_searching := False\<rparr> =
   (list_arrived (Load_ticket 2 False False) (List_error (js ''down''))
      (snd (start_load 1 10 False False (js ''all'') (js ''all'') False sample_table)))\<lparr>cs_searching := False\<rparr>"
  by (rule latest_load_wins [of 1 10 False False "js ''all''" "js ''all''" False sample_table])
     (simp_all add: start_load_def sample_table_def Let_def)

theorem late_search_replaces_rows_witness:
  "cs_channels (list_arrived (Search_ticket False 3 False) (List_ok \<lparr>pd_items = [], pd_total = 0, pd_type_counts = None\<rparr>) sample_table) = [] \<and>
   cs_activePage (list_arrived (Search_ticket False 3 False) (List_ok \<lparr>pd_items = [], pd_total = 0, pd_type_counts = None\<rparr>) sample_table) = 3"
proof -
  have "\<exists>store. setChannelFormat (pd_items \<lparr>pd_items = [], pd_total = 0, pd_type_counts = None\<rparr>) False (cs_store sample_table) = Inr ([], store)"
    by (simp add: setChannelFormat_def alloc_channels_def)
  then obtain store where "setChannelFormat (pd_items \<lparr>pd_items = [], pd_total = 0, pd_type_counts = None\<rparr>) False (cs_store sample_table) =
    Inr ([], store)" ..
  from late_search_replaces_rows [OF this, of 3 False] show ?thesis .
qed

theorem failed_load_keeps_loading_witness:
  "cs_loading (list_arrived (Load_ticket 2 False False) List_rejected
     (snd (loadChannels 1 10 False False (js ''all'') (js ''all'') sample_table)))"
  by (rule failed_load_keeps_loading [of 1 10 False False "js ''all''" "js ''all''" sample_table])
     (simp add: loadChannels_def start_load_def sample_table_def Let_def form_empty_def)

theorem update_by_id_exact_witness:
  "ch_balance (rs_channel (cs_store (updateChannelProperty (cs_channels sample_table) 7 (\<lambda>c. c\<lparr>ch_balance := Num 5\<rparr>) sample_table)) 0) = Num 5"
proof -
  have "distinct (table_refs (cs_channels sample_table) (cs_store sample_table))"
    by (simp add: table_refs_def row_channels_def sample_table_def)
  from update_by_id_exact [OF this, of 7 "\<lambda>c. c\<lparr>ch_balance := Num 5\<rparr>" 0] show ?thesis
    by (simp add: table_refs_def row_channels_def sample_table_def sample_channel_def)
qed

theorem late_result_restores_rows_witness:
  "cs_channels (manageTag_done (\<lambda>k _. k) [Row_channel 0] (js ''eu'') True None (sample_table\<lparr>cs_channels := []\<rparr>)) = [Row_channel 0]"
proof -
  have "0 \<in> set (table_refs [Row_channel 0] (cs_store (sample_table\<lparr>cs_channels := []\<rparr>)))"
    "ch_id (rs_channel (cs_store (sample_table\<lparr>cs_channels := []\<rparr>)) 0) = 7"
    by (simp_all add: table_refs_def row_channels_def sample_table_def sample_channel_def)
  from late_result_restores_rows [OF this] show ?thesis by blast
qed

end
