(* ===== verification/ChannelTests.thy ===== *)
theory ChannelTests
  imports ChannelTable
begin

text \<open>
  The model tests of a channel (\<open>hooks/channels/useChannelsData.jsx\<close>, the dialog of
  \<open>ModelTestModal.jsx\<close>): single tests, and batch tests that run in chunks of five. A batch is an
  asynchronous loop; the state holds one record per batch that was started, with the place where its
  loop waits: for the answers of a chunk, for the pause between chunks, or for the timers at the end.
  Whatever a handler captured from the render that created it is kept with the test or the batch.
  Events are the clicks of the user, the answers of the server and the timers.
\<close>

subsection \<open>State\<close>

record test_result =
  te_success :: bool
  te_message :: jstring
  te_time :: jsnum
  te_timestamp :: jsnum
  te_errorCode :: jsval

text \<open>A test that waits for its answer: the channel, the model, and the flag and rows its closure captured.\<close>

record pending_test =
  pt_ref :: nat
  pt_model :: jstring
  pt_isBatchTesting :: bool
  pt_rows :: "row list"

datatype batch_phase = Ph_chunk | Ph_pause | Ph_settle | Ph_announce nat nat | Ph_finished

text \<open>\<open>ba_i\<close> is the loop variable: the start of the chunk that runs, or of the next one during a pause.\<close>

record batch =
  ba_ref :: nat
  ba_models :: "jstring list"
  ba_i :: nat
  ba_pending :: "pending_test list"
  ba_phase :: batch_phase
  ba_isBatchTesting :: bool
  ba_rows :: "row list"
  ba_endpoint :: jstring
  ba_stream :: bool

record test_state =
  ts_table :: channels_state
  ts_showModelTestModal :: bool
  ts_currentTestChannel :: "nat option"
  ts_modelSearchKeyword :: jstring
  ts_modelTestResults :: "(jstring \<times> test_result) list"
  ts_testingModels :: "jstring list"
  ts_selectedModelKeys :: "jstring list"
  ts_isBatchTesting :: bool
  ts_modelTablePage :: nat
  ts_selectedEndpointType :: jstring
  ts_isStreamTest :: bool
  ts_shouldStop :: bool
  ts_tests :: "pending_test list"
  ts_batches :: "batch list"

definition CONCURRENCY_LIMIT :: nat where "CONCURRENCY_LIMIT = 5"

definition test_channel :: "nat \<Rightarrow> test_state \<Rightarrow> channel" where
  "test_channel ref s = rs_channel (cs_store (ts_table s)) ref"

definition on_table :: "(channels_state \<Rightarrow> channels_state) \<Rightarrow> test_state \<Rightarrow> test_state" where
  "on_table f s = s\<lparr>ts_table := f (ts_table s)\<rparr>"

definition test_key :: "nat \<Rightarrow> jstring \<Rightarrow> test_state \<Rightarrow> jstring" where
  "test_key ref model s = int_text (ch_id (test_channel ref s)) @ [45] @ model"

subsection \<open>One test\<close>

definition test_url :: "int \<Rightarrow> jstring \<Rightarrow> jstring \<Rightarrow> bool \<Rightarrow> jstring" where
  "test_url channelId model endpointType stream =
     js ''/api/channel/test/'' @ int_text channelId @ js ''?model='' @ model @
     (if endpointType \<noteq> [] then js ''&endpoint_type='' @ endpointType else []) @
     (if stream then js ''&stream=true'' else [])"

text \<open>Until the \<open>await\<close>; no test is sent when the closure saw a running batch and it was stopped.\<close>

definition testChannel :: "bool \<Rightarrow> row list \<Rightarrow> nat \<Rightarrow> jstring \<Rightarrow> jstring \<Rightarrow> bool \<Rightarrow> test_state \<Rightarrow> pending_test option \<times> test_state" where
  "testChannel isBatchTesting rows ref model endpointType stream s =
     (if ts_shouldStop s \<and> isBatchTesting then (None, s)
      else (Some \<lparr>pt_ref = ref, pt_model = model, pt_isBatchTesting = isBatchTesting, pt_rows = rows\<rparr>,
            on_table (send_call (Api_get (test_url (ch_id (test_channel ref s)) model endpointType stream)))
              (s\<lparr>ts_testingModels := js_set_add (ts_testingModels s) model\<rparr>)))"

text \<open>The answer of the server, or the message of the error that rejected the request.\<close>

datatype test_response = Test_answer bool jstring jsnum jsval | Test_rejected jstring

definition PAT_name :: jstring where "PAT_name = js ''${name}''"
definition PAT_model :: jstring where "PAT_model = js ''${model}''"
definition PAT_time :: jstring where "PAT_time = js ''${time.toFixed(2)}''"
definition MSG_test_ok :: jstring where "MSG_test_ok = [0x901A, 0x9053] @ js '' ${name} '' @ [0x6D4B, 0x8BD5, 0x6210, 0x529F, 0xFF0C, 0x8017, 0x65F6] @ js '' ${time.toFixed(2)} '' @ [0x79D2, 0x3002]"
definition MSG_test_model_ok :: jstring where "MSG_test_model_ok = [0x901A, 0x9053] @ js '' ${name} '' @ [0x6D4B, 0x8BD5, 0x6210, 0x529F, 0xFF0C, 0x6A21, 0x578B] @ js '' ${model} '' @ [0x8017, 0x65F6] @ js '' ${time.toFixed(2)} '' @ [0x79D2, 0x3002]"
definition MSG_network_error :: jstring where "MSG_network_error = [0x7F51, 0x7EDC, 0x9519, 0x8BEF]"
definition MSG_test_failed :: jstring where "MSG_test_failed = [0x6D4B, 0x8BD5, 0x5931, 0x8D25]"

definition test_message :: "i18n \<Rightarrow> jstring \<Rightarrow> jstring \<Rightarrow> jsnum \<Rightarrow> jstring" where
  "test_message t name model time =
     (if model = [] then js_replace PAT_time (to_fixed 2 time) (js_replace PAT_name name (t MSG_test_ok []))
      else js_replace PAT_time (to_fixed 2 time) (js_replace PAT_model model (js_replace PAT_name name (t MSG_test_model_ok []))))"

definition put_result :: "jstring \<Rightarrow> test_result \<Rightarrow> test_state \<Rightarrow> test_state" where
  "put_result testKey r s = s\<lparr>ts_modelTestResults := obj_set testKey r (ts_modelTestResults s)\<rparr>"

definition num_or_zero :: "jsnum \<Rightarrow> jsnum" where
  "num_or_zero n = (if truthy (JNum n) then n else Num 0)"

definition seconds :: "jsnum \<Rightarrow> jsnum" where
  "seconds now = num_div now (Num 1000)"

definition text_or :: "jstring \<Rightarrow> jstring \<Rightarrow> jstring" where
  "text_or a b = (if a \<noteq> [] then a else b)"

text \<open>After the \<open>await\<close>; \<open>now\<close> is the time of the clock.\<close>

definition test_answered :: "i18n \<Rightarrow> jsnum \<Rightarrow> pending_test \<Rightarrow> test_response \<Rightarrow> test_state \<Rightarrow> test_state" where
  "test_answered t now p r s =
     (let c = test_channel (pt_ref p) s; key = test_key (pt_ref p) (pt_model p) s
      in case r of
           Test_answer success message time errorCode \<Rightarrow>
             if ts_shouldStop s \<and> pt_isBatchTesting p then s
             else (let s1 = put_result key \<lparr>te_success = success, te_message = message, te_time = num_or_zero time,
                        te_timestamp = now, te_errorCode = js_or errorCode JNull\<rparr> s
                   in if success
                      then on_table (show_toast Toast_info (test_message t (ch_name c) (pt_model p) time))
                             (on_table (updateChannelProperty (pt_rows p) (ch_id c)
                                (\<lambda>ch. ch\<lparr>ch_response_time := num_mul time (Num 1000), ch_test_time := seconds now\<rparr>)) s1)
                      else on_table (show_toast Toast_error message) s1)
         | Test_rejected message \<Rightarrow>
             on_table (show_toast Toast_error (text_or message (t MSG_test_failed [])))
               (put_result key \<lparr>te_success = False, te_message = text_or message (t MSG_network_error []), te_time = Num 0,
                  te_timestamp = now, te_errorCode = JNull\<rparr> s))"

text \<open>The \<open>finally\<close> block takes the model out of the set of models under test.\<close>

definition test_done :: "i18n \<Rightarrow> jsnum \<Rightarrow> pending_test \<Rightarrow> test_response \<Rightarrow> test_state \<Rightarrow> test_state" where
  "test_done t now p r s =
     (let s' = test_answered t now p r s in s'\<lparr>ts_testingModels := filter (\<lambda>m. m \<noteq> pt_model p) (ts_testingModels s')\<rparr>)"

subsection \<open>Batches\<close>

definition MSG_models_incomplete :: jstring where "MSG_models_incomplete = [0x6E20, 0x9053, 0x6A21, 0x578B, 0x4FE1, 0x606F, 0x4E0D, 0x5B8C, 0x6574]"
definition MSG_no_model_found :: jstring where "MSG_no_model_found = [0x6CA1, 0x6709, 0x627E, 0x5230, 0x5339, 0x914D, 0x7684, 0x6A21, 0x578B]"
definition MSG_batch_begin :: jstring where "MSG_batch_begin = [0x5F00, 0x59CB, 0x6279, 0x91CF, 0x6D4B, 0x8BD5] @ js '' ${count} '' @ [0x4E2A, 0x6A21, 0x578B, 0xFF0C, 0x5DF2, 0x6E05, 0x7A7A, 0x4E0A, 0x6B21, 0x7ED3, 0x679C] @ js ''...''"
definition MSG_batch_stopped :: jstring where "MSG_batch_stopped = [0x6279, 0x91CF, 0x6D4B, 0x8BD5, 0x5DF2, 0x505C, 0x6B62]"
definition MSG_batch_chunk :: jstring where "MSG_batch_chunk = [0x6B63, 0x5728, 0x6D4B, 0x8BD5, 0x7B2C] @ js '' ${current} - ${end} '' @ [0x4E2A, 0x6A21, 0x578B] @ js '' ('' @ [0x5171] @ js '' ${total} '' @ [0x4E2A] @ js '')''"
definition MSG_batch_done :: jstring where "MSG_batch_done = [0x6279, 0x91CF, 0x6D4B, 0x8BD5, 0x5B8C, 0x6210, 0xFF01, 0x6210, 0x529F] @ js '': ${success}, '' @ [0x5931, 0x8D25] @ js '': ${fail}, '' @ [0x603B, 0x8BA1] @ js '': ${total}''"
definition MSG_close_stopped :: jstring where "MSG_close_stopped = [0x5173, 0x95ED, 0x5F39, 0x7A97, 0xFF0C, 0x5DF2, 0x505C, 0x6B62, 0x6279, 0x91CF, 0x6D4B, 0x8BD5]"
definition MSG_results_cleared :: jstring where "MSG_results_cleared = [0x5DF2, 0x6E05, 0x7A7A, 0x6D4B, 0x8BD5, 0x7ED3, 0x679C]"
definition MSG_stopped :: jstring where "MSG_stopped = [0x5DF2, 0x505C, 0x6B62, 0x6279, 0x91CF, 0x6D4B, 0x8BD5]"

definition info :: "jstring \<Rightarrow> test_state \<Rightarrow> test_state" where
  "info m s = on_table (show_toast Toast_info m) s"

definition chunk_message :: "i18n \<Rightarrow> nat \<Rightarrow> nat \<Rightarrow> jstring" where
  "chunk_message t i n =
     js_replace (js ''${total}'') (dec n)
       (js_replace (js ''${end}'') (dec (min (i + CONCURRENCY_LIMIT) n))
         (js_replace (js ''${current}'') (dec (i + 1)) (t MSG_batch_chunk [])))"

text \<open>The tests of a chunk, started one after the other.\<close>

fun start_tests :: "batch \<Rightarrow> jstring list \<Rightarrow> test_state \<Rightarrow> pending_test list \<times> test_state" where
  "start_tests b [] s = ([], s)"
| "start_tests b (model # models) s =
     (let (p, s1) = testChannel (ba_isBatchTesting b) (ba_rows b) (ba_ref b) model (ba_endpoint b) (ba_stream b) s;
          (ps, s2) = start_tests b models s1
      in ((case p of None \<Rightarrow> ps | Some p \<Rightarrow> p # ps), s2))"

text \<open>Behind the loop: wait for the last results, or end at once when stopped.\<close>

definition after_loop :: "batch \<Rightarrow> test_state \<Rightarrow> batch \<times> test_state" where
  "after_loop b s =
     (if \<not> ts_shouldStop s then (b\<lparr>ba_phase := Ph_settle\<rparr>, s)
      else (b\<lparr>ba_phase := Ph_finished\<rparr>, s\<lparr>ts_isBatchTesting := False\<rparr>))"

text \<open>When the tests of a chunk have all settled.\<close>

definition chunk_end :: "i18n \<Rightarrow> batch \<Rightarrow> test_state \<Rightarrow> batch \<times> test_state" where
  "chunk_end t b s =
     (if ts_shouldStop s then after_loop b (info (t MSG_batch_stopped []) s)
      else if ba_i b + CONCURRENCY_LIMIT < length (ba_models b)
      then (b\<lparr>ba_i := ba_i b + CONCURRENCY_LIMIT, ba_phase := Ph_pause\<rparr>, s)
      else after_loop b s)"

definition chunk_begin :: "i18n \<Rightarrow> batch \<Rightarrow> test_state \<Rightarrow> batch \<times> test_state" where
  "chunk_begin t b s =
     (if ts_shouldStop s then after_loop b (info (t MSG_batch_stopped []) s)
      else (let chunk = take CONCURRENCY_LIMIT (drop (ba_i b) (ba_models b));
                (ps, s1) = start_tests b chunk (info (chunk_message t (ba_i b) (length (ba_models b))) s);
                b1 = b\<lparr>ba_pending := ps, ba_phase := Ph_chunk\<rparr>
            in if ps = [] then chunk_end t b1 s1 else (b1, s1)))"

definition batch_models :: "test_state \<Rightarrow> nat \<Rightarrow> jstring list" where
  "batch_models s ref =
     filter (\<lambda>model. str_includes (to_lower model) (to_lower (ts_modelSearchKeyword s))) (split_on 44 (ch_models (test_channel ref s)))"

definition drop_results :: "nat \<Rightarrow> jstring list \<Rightarrow> test_state \<Rightarrow> test_state" where
  "drop_results ref models s =
     s\<lparr>ts_modelTestResults := foldl (\<lambda>rs model. obj_delete (test_key ref model s) rs) (ts_modelTestResults s) models\<rparr>"

definition add_batch :: "batch \<times> test_state \<Rightarrow> test_state" where
  "add_batch bs = (snd bs)\<lparr>ts_batches := ts_batches (snd bs) @ [fst bs]\<rparr>"

definition show_test_error :: "jstring \<Rightarrow> test_state \<Rightarrow> test_state" where
  "show_test_error m s = on_table (show_toast Toast_error m) s"

definition batchTestModels :: "i18n \<Rightarrow> test_state \<Rightarrow> test_state" where
  "batchTestModels t s = (case ts_currentTestChannel s of
       None \<Rightarrow> show_test_error (t MSG_models_incomplete []) s
     | Some ref \<Rightarrow>
         if ch_models (test_channel ref s) = [] then show_test_error (t MSG_models_incomplete []) s
         else (let models = batch_models s ref in
           if models = [] then show_test_error (t MSG_no_model_found []) s
           else (let b = \<lparr>ba_ref = ref, ba_models = models, ba_i = 0, ba_pending = [], ba_phase = Ph_pause,
                       ba_isBatchTesting = ts_isBatchTesting s, ba_rows = cs_channels (ts_table s),
                       ba_endpoint = ts_selectedEndpointType s, ba_stream = ts_isStreamTest s\<rparr>;
                     s1 = drop_results ref models (s\<lparr>ts_isBatchTesting := True, ts_shouldStop := False\<rparr>);
                     s2 = info (js_replace (js ''${count}'') (dec (length models)) (t MSG_batch_begin [])) s1
                 in add_batch (chunk_begin t b s2))))"

definition put_batch :: "nat \<Rightarrow> batch \<times> test_state \<Rightarrow> test_state" where
  "put_batch k bs = (snd bs)\<lparr>ts_batches := (ts_batches (snd bs))[k := fst bs]\<rparr>"

text \<open>The answer to the \<open>j\<close>-th outstanding test of the \<open>k\<close>-th batch.\<close>

definition batch_answered :: "i18n \<Rightarrow> jsnum \<Rightarrow> nat \<Rightarrow> nat \<Rightarrow> test_response \<Rightarrow> test_state \<Rightarrow> test_state" where
  "batch_answered t now k j r s =
     (let b = ts_batches s ! k; p = ba_pending b ! j;
          b1 = b\<lparr>ba_pending := take j (ba_pending b) @ drop (Suc j) (ba_pending b)\<rparr>;
          s1 = test_done t now p r s
      in put_batch k (if ba_pending b1 = [] then chunk_end t b1 s1 else (b1, s1)))"

definition count_success :: "batch \<Rightarrow> test_state \<Rightarrow> nat" where
  "count_success b s =
     length (filter (\<lambda>model. case map_of (ts_modelTestResults s) (test_key (ba_ref b) model s) of
                None \<Rightarrow> False | Some r \<Rightarrow> te_success r) (ba_models b))"

definition done_message :: "i18n \<Rightarrow> nat \<Rightarrow> nat \<Rightarrow> nat \<Rightarrow> jstring" where
  "done_message t ok failed n =
     js_replace (js ''${total}'') (dec n) (js_replace (js ''${fail}'') (dec failed) (js_replace (js ''${success}'') (dec ok) (t MSG_batch_done [])))"

text \<open>A timer of the \<open>k\<close>-th batch fires: the pause is over, the results have settled, or the message is due.\<close>

definition batch_timer :: "i18n \<Rightarrow> nat \<Rightarrow> test_state \<Rightarrow> test_state" where
  "batch_timer t k s =
     (let b = ts_batches s ! k in
      case ba_phase b of
        Ph_pause \<Rightarrow> put_batch k (chunk_begin t b s)
      | Ph_settle \<Rightarrow>
          (let ok = count_success b s
           in put_batch k (b\<lparr>ba_phase := Ph_announce ok (length (ba_models b) - ok)\<rparr>, s\<lparr>ts_isBatchTesting := False\<rparr>))
      | Ph_announce ok failed \<Rightarrow>
          put_batch k (b\<lparr>ba_phase := Ph_finished\<rparr>, on_table (show_toast Toast_success (done_message t ok failed (length (ba_models b)))) s)
      | _ \<Rightarrow> s)"

subsection \<open>The dialog\<close>

definition stopBatchTesting :: "i18n \<Rightarrow> test_state \<Rightarrow> test_state" where
  "stopBatchTesting t s =
     info (t MSG_stopped []) (s\<lparr>ts_shouldStop := True, ts_isBatchTesting := False, ts_testingModels := []\<rparr>)"

definition clearTestResults :: "i18n \<Rightarrow> test_state \<Rightarrow> test_state" where
  "clearTestResults t s = info (t MSG_results_cleared []) (s\<lparr>ts_modelTestResults := []\<rparr>)"

definition handleCloseModal :: "i18n \<Rightarrow> test_state \<Rightarrow> test_state" where
  "handleCloseModal t s =
     (let s1 = (if ts_isBatchTesting s then info (t MSG_close_stopped []) (s\<lparr>ts_shouldStop := True\<rparr>) else s)
      in s1\<lparr>ts_showModelTestModal := False, ts_modelSearchKeyword := [], ts_isBatchTesting := False, ts_testingModels := [],
            ts_selectedModelKeys := [], ts_modelTablePage := 1, ts_selectedEndpointType := [], ts_isStreamTest := False\<rparr>)"

definition open_test_modal :: "nat \<Rightarrow> test_state \<Rightarrow> test_state" where
  "open_test_modal ref s = s\<lparr>ts_currentTestChannel := Some ref, ts_showModelTestModal := True\<rparr>"

definition single_test :: "nat \<Rightarrow> jstring \<Rightarrow> jstring \<Rightarrow> bool \<Rightarrow> test_state \<Rightarrow> test_state" where
  "single_test ref model endpointType stream s =
     (let (p, s1) = testChannel (ts_isBatchTesting s) (cs_channels (ts_table s)) ref model endpointType stream s
      in case p of None \<Rightarrow> s1 | Some p \<Rightarrow> s1\<lparr>ts_tests := ts_tests s1 @ [p]\<rparr>)"

text \<open>The button that starts a batch is disabled while a batch runs.\<close>

datatype test_input =
    Ev_open nat
  | Ev_close
  | Ev_batch
  | Ev_single nat jstring jstring bool
  | Ev_answer nat jsnum test_response
  | Ev_batch_answer nat nat jsnum test_response
  | Ev_timer nat

fun test_event_enabled :: "test_input \<Rightarrow> test_state \<Rightarrow> bool" where
  "test_event_enabled (Ev_batch) s = (\<not> ts_isBatchTesting s)"
| "test_event_enabled (Ev_answer j _ _) s = (j < length (ts_tests s))"
| "test_event_enabled (Ev_batch_answer k j _ _) s = (k < length (ts_batches s) \<and> j < length (ba_pending (ts_batches s ! k)))"
| "test_event_enabled (Ev_timer k) s =
     (k < length (ts_batches s) \<and> ba_phase (ts_batches s ! k) \<notin> {Ph_chunk, Ph_finished})"
| "test_event_enabled _ s = True"

fun test_event :: "i18n \<Rightarrow> test_input \<Rightarrow> test_state \<Rightarrow> test_state" where
  "test_event t (Ev_open ref) s = open_test_modal ref s"
| "test_event t Ev_close s = handleCloseModal t s"
| "test_event t Ev_batch s = batchTestModels t s"
| "test_event t (Ev_single ref model endpointType stream) s = single_test ref model endpointType stream s"
| "test_event t (Ev_answer j now r) s =
     test_done t now (ts_tests s ! j) r (s\<lparr>ts_tests := take j (ts_tests s) @ drop (Suc j) (ts_tests s)\<rparr>)"
| "test_event t (Ev_batch_answer k j now r) s = batch_answered t now k j r s"
| "test_event t (Ev_timer k) s = batch_timer t k s"

inductive test_steps :: "i18n \<Rightarrow> test_state \<Rightarrow> test_input list \<Rightarrow> test_state \<Rightarrow> bool" where
  steps_none: "test_steps t s [] s"
| steps_more: "test_steps t s evs s' \<Longrightarrow> test_event_enabled ev s' \<Longrightarrow> test_steps t s (evs @ [ev]) (test_event t ev s')"


subsection \<open>Invariant of the batches\<close>

definition batch_ok :: "batch \<Rightarrow> bool" where
  "batch_ok b \<longleftrightarrow>
     length (ba_pending b) \<le> CONCURRENCY_LIMIT \<and> length (ba_pending b) \<le> length (ba_models b) - ba_i b \<and>
     (ba_phase b = Ph_chunk \<longleftrightarrow> ba_pending b \<noteq> []) \<and>
     (ba_phase b \<in> {Ph_chunk, Ph_pause} \<longrightarrow> ba_i b < length (ba_models b)) \<and>
     \<not> ba_isBatchTesting b \<and> (\<forall>p \<in> set (ba_pending b). \<not> pt_isBatchTesting p)"

definition batch_request :: "batch \<Rightarrow> jstring \<Rightarrow> pending_test" where
  "batch_request b model = \<lparr>pt_ref = ba_ref b, pt_model = model, pt_isBatchTesting = False, pt_rows = ba_rows b\<rparr>"

text \<open>The parts of the state that tests, answers and messages leave alone.\<close>

lemma frame_simps [simp]:
  "ts_batches (on_table f s) = ts_batches s" "ts_shouldStop (on_table f s) = ts_shouldStop s"
  "ts_batches (info m s) = ts_batches s" "ts_shouldStop (info m s) = ts_shouldStop s"
  "ts_batches (show_test_error m s) = ts_batches s" "ts_shouldStop (show_test_error m s) = ts_shouldStop s"
  "ts_batches (put_result k r s) = ts_batches s" "ts_shouldStop (put_result k r s) = ts_shouldStop s"
  "ts_batches (drop_results ref ms s) = ts_batches s" "ts_shouldStop (drop_results ref ms s) = ts_shouldStop s"
  by (simp_all add: on_table_def info_def show_test_error_def put_result_def drop_results_def)

lemma test_done_frame [simp]:
  "ts_batches (test_done t now p r s) = ts_batches s" "ts_shouldStop (test_done t now p r s) = ts_shouldStop s"
  by (auto simp: test_done_def test_answered_def Let_def split: test_response.splits)

lemma start_tests_frame:
  assumes "\<not> ba_isBatchTesting b"
  shows "fst (start_tests b models s) = map (batch_request b) models"
    and "ts_batches (snd (start_tests b models s)) = ts_batches s"
    and "ts_shouldStop (snd (start_tests b models s)) = ts_shouldStop s"
  using assms by (induction models arbitrary: s) (auto simp: testChannel_def batch_request_def split_beta)

text \<open>How many events a batch has still to wait for, at most.\<close>

definition batch_work :: "batch \<Rightarrow> nat" where
  "batch_work b = (case ba_phase b of
       Ph_chunk \<Rightarrow> length (ba_pending b) + 2 * (length (ba_models b) - (ba_i b + CONCURRENCY_LIMIT)) + 2
     | Ph_pause \<Rightarrow> 2 * (length (ba_models b) - ba_i b) + 2
     | Ph_settle \<Rightarrow> 2
     | Ph_announce _ _ \<Rightarrow> 1
     | Ph_finished \<Rightarrow> 0)"

lemma chunk_end_facts:
  assumes "ba_pending b = []" and "\<not> ba_isBatchTesting b"
  shows "batch_ok (fst (chunk_end t b s))"
    and "batch_work (fst (chunk_end t b s)) \<le> 2 * (length (ba_models b) - (ba_i b + CONCURRENCY_LIMIT)) + 2"
    and "ts_batches (snd (chunk_end t b s)) = ts_batches s" and "ts_shouldStop (snd (chunk_end t b s)) = ts_shouldStop s"
  using assms by (auto simp: chunk_end_def after_loop_def batch_ok_def batch_work_def)

lemma chunk_begin_facts:
  assumes "ba_i b < length (ba_models b)" and "ba_pending b = []" and "\<not> ba_isBatchTesting b"
  shows "batch_ok (fst (chunk_begin t b s))"
    and "batch_work (fst (chunk_begin t b s)) < 2 * (length (ba_models b) - ba_i b) + 2"
    and "ts_batches (snd (chunk_begin t b s)) = ts_batches s" and "ts_shouldStop (snd (chunk_begin t b s)) = ts_shouldStop s"
  using assms
  by (auto simp: chunk_begin_def Let_def split_beta start_tests_frame after_loop_def batch_ok_def batch_work_def batch_request_def CONCURRENCY_LIMIT_def min_def)

text \<open>An event of a batch keeps the invariant and brings the batch closer to its end.\<close>

lemma removed_pending:
  assumes "j < length ps"
  shows "length (take j ps @ drop (Suc j) ps) = length ps - 1" and "set (take j ps @ drop (Suc j) ps) \<subseteq> set ps"
  using assms by (auto dest: in_set_takeD in_set_dropD)

definition batch_advances :: "nat \<Rightarrow> test_state \<Rightarrow> test_state \<Rightarrow> bool" where
  "batch_advances k s s' \<longleftrightarrow> (\<exists>b. ts_batches s' = (ts_batches s)[k := b] \<and> batch_ok b \<and> batch_work b < batch_work (ts_batches s ! k))"

lemma batch_answered_advances:
  assumes "k < length (ts_batches s)" and "j < length (ba_pending (ts_batches s ! k))" and "batch_ok (ts_batches s ! k)"
  shows "batch_advances k s (batch_answered t now k j r s)" and "ts_shouldStop (batch_answered t now k j r s) = ts_shouldStop s"
proof -
  let ?b = "ts_batches s ! k" and ?s1 = "test_done t now (ba_pending (ts_batches s ! k) ! j) r s"
  let ?ps = "take j (ba_pending ?b) @ drop (Suc j) (ba_pending ?b)"
  let ?b1 = "?b\<lparr>ba_pending := ?ps\<rparr>"
  have b: "ba_phase ?b = Ph_chunk" "\<not> ba_isBatchTesting ?b" using assms(2,3) by (auto simp: batch_ok_def)
  note ps = removed_pending [OF assms(2)]
  have "batch_advances k s (batch_answered t now k j r s) \<and> ts_shouldStop (batch_answered t now k j r s) = ts_shouldStop s"
  proof (cases "?ps = []")
    case True
    then have "ba_pending ?b1 = []" "\<not> ba_isBatchTesting ?b1" using b(2) by auto
    note ce = chunk_end_facts [OF this, of t ?s1]
    have "batch_answered t now k j r s = put_batch k (chunk_end t ?b1 ?s1)"
      using True by (simp add: batch_answered_def Let_def)
    with ce assms(2) b(1) show ?thesis
      by (auto simp: put_batch_def batch_advances_def batch_work_def intro!: exI [of _ "fst (chunk_end t ?b1 ?s1)"])
  next
    case False
    then have "batch_answered t now k j r s = put_batch k (?b1, ?s1)" by (auto simp: batch_answered_def Let_def)
    moreover have "batch_ok ?b1" "batch_work ?b1 < batch_work ?b"
      using assms(2,3) ps b False by (auto simp: batch_ok_def batch_work_def)
    ultimately show ?thesis by (auto simp: put_batch_def batch_advances_def)
  qed
  then show "batch_advances k s (batch_answered t now k j r s)" and "ts_shouldStop (batch_answered t now k j r s) = ts_shouldStop s" by auto
qed

lemma batch_timer_advances:
  assumes "k < length (ts_batches s)" and "ba_phase (ts_batches s ! k) \<notin> {Ph_chunk, Ph_finished}" and "batch_ok (ts_batches s ! k)"
  shows "batch_advances k s (batch_timer t k s)" and "ts_shouldStop (batch_timer t k s) = ts_shouldStop s"
proof -
  let ?b = "ts_batches s ! k"
  have "batch_advances k s (batch_timer t k s) \<and> ts_shouldStop (batch_timer t k s) = ts_shouldStop s"
  proof (cases "ba_phase ?b")
    case Ph_pause
    then have "ba_i ?b < length (ba_models ?b)" "ba_pending ?b = []" "\<not> ba_isBatchTesting ?b" using assms(3) by (auto simp: batch_ok_def)
    note cb = chunk_begin_facts [OF this, of t s]
    have "batch_timer t k s = put_batch k (chunk_begin t ?b s)" using Ph_pause by (simp add: batch_timer_def Let_def)
    with cb Ph_pause show ?thesis
      by (auto simp: put_batch_def batch_advances_def batch_work_def intro!: exI [of _ "fst (chunk_begin t ?b s)"])
  qed (use assms(2,3) in \<open>auto simp: batch_timer_def Let_def put_batch_def batch_advances_def batch_ok_def batch_work_def\<close>)
  then show "batch_advances k s (batch_timer t k s)" and "ts_shouldStop (batch_timer t k s) = ts_shouldStop s" by auto
qed


lemma batchTestModels_batches:
  assumes "\<not> ts_isBatchTesting s"
  shows "ts_batches (batchTestModels t s) = ts_batches s \<or> (\<exists>b. batch_ok b \<and> ts_batches (batchTestModels t s) = ts_batches s @ [b])"
proof -
  have "ts_batches (add_batch (chunk_begin t b s')) = ts_batches s @ [fst (chunk_begin t b s')] \<and> batch_ok (fst (chunk_begin t b s'))"
    if "ba_i b < length (ba_models b)" "ba_pending b = []" "\<not> ba_isBatchTesting b" "ts_batches s' = ts_batches s" for b s'
    using chunk_begin_facts [OF that(1-3), of t s'] that(4) by (simp add: add_batch_def)
  then show ?thesis using assms by (auto simp: batchTestModels_def Let_def split: option.splits)
qed

lemma other_events_batches:
  "ts_batches (handleCloseModal t s) = ts_batches s" "ts_batches (open_test_modal ref s) = ts_batches s"
  "ts_batches (single_test ref model e st s) = ts_batches s"
  by (auto simp: handleCloseModal_def open_test_modal_def single_test_def testChannel_def Let_def)

fun batch_event :: "nat \<Rightarrow> test_input \<Rightarrow> bool" where
  "batch_event k (Ev_batch_answer k' _ _ _) = (k' = k)"
| "batch_event k (Ev_timer k') = (k' = k)"
| "batch_event k _ = False"

lemma own_event_advances:
  assumes "batch_event k ev" and "test_event_enabled ev s" and "list_all batch_ok (ts_batches s)"
  shows "k < length (ts_batches s)" and "batch_advances k s (test_event t ev s)" and "ts_shouldStop (test_event t ev s) = ts_shouldStop s"
  using assms by (cases ev; auto simp: list_all_length batch_answered_advances batch_timer_advances)+

text \<open>Every other event leaves the batches alone, except that a new one may be added.\<close>

lemma other_event_batches:
  assumes "\<forall>k. \<not> batch_event k ev" and "test_event_enabled ev s"
  shows "\<exists>bs. ts_batches (test_event t ev s) = ts_batches s @ bs \<and> list_all batch_ok bs"
proof (cases ev)
  case Ev_batch
  then show ?thesis using batchTestModels_batches [of s t] assms(2) by auto
qed (use assms in \<open>auto simp: other_events_batches\<close>)

lemma event_cases:
  obtains k where "batch_event k ev" | "\<forall>k. \<not> batch_event k ev"
  by blast

lemma batches_ok_event:
  assumes "list_all batch_ok (ts_batches s)" and "test_event_enabled ev s"
  shows "list_all batch_ok (ts_batches (test_event t ev s))"
proof (cases rule: event_cases [of ev])
  case (1 k)
  from own_event_advances(2) [OF this assms(2,1), of t] assms(1) show ?thesis
    by (auto simp: batch_advances_def list_all_iff dest!: set_update_subset_insert [THEN subsetD])
next
  case 2
  from other_event_batches [OF this assms(2), of t] assms(1) show ?thesis by auto
qed

lemma batches_ok_steps:
  "test_steps t s evs s' \<Longrightarrow> list_all batch_ok (ts_batches s) \<Longrightarrow> list_all batch_ok (ts_batches s')"
  by (induction rule: test_steps.induct) (auto intro: batches_ok_event)

lemma batch_work_steps:
  assumes "test_steps t s evs s'" and "list_all batch_ok (ts_batches s)" and "k < length (ts_batches s)"
  shows "k < length (ts_batches s') \<and> length (filter (batch_event k) evs) + batch_work (ts_batches s' ! k) \<le> batch_work (ts_batches s ! k)"
  using assms
proof (induction rule: test_steps.induct)
  case (steps_more t s evs s' ev)
  then have ih: "k < length (ts_batches s')" "length (filter (batch_event k) evs) + batch_work (ts_batches s' ! k) \<le> batch_work (ts_batches s ! k)"
    and ok: "list_all batch_ok (ts_batches s')" using batches_ok_steps by auto
  show ?case
  proof (cases rule: event_cases [of ev])
    case (1 l)
    from own_event_advances(2) [OF this steps_more.hyps(2) ok, of t] ih 1
    show ?thesis by (cases ev) (auto simp: batch_advances_def nth_list_update)
  next
    case 2
    from other_event_batches [OF this steps_more.hyps(2), of t] ih 2 show ?thesis by (auto simp: nth_append)
  qed
qed simp

lemma unfinished_enabled:
  assumes "batch_ok (ts_batches s ! k)" and "k < length (ts_batches s)" and "ba_phase (ts_batches s ! k) \<noteq> Ph_finished"
  shows "\<exists>ev. batch_event k ev \<and> test_event_enabled ev s"
proof (cases "ba_phase (ts_batches s ! k) = Ph_chunk")
  case True
  then have "test_event_enabled (Ev_batch_answer k 0 (Num 0) (Test_rejected [])) s" using assms by (auto simp: batch_ok_def)
  then show ?thesis by (intro exI [of _ "Ev_batch_answer k 0 (Num 0) (Test_rejected [])"]) simp
next
  case False
  then have "test_event_enabled (Ev_timer k) s" using assms by auto
  then show ?thesis by (intro exI [of _ "Ev_timer k"]) simp
qed

text \<open>
  C28. However answers and timers interleave with each other, with clicks and with other batches, a batch
  never has more than five tests under way, it is finished after a bounded number of its own events,
  and until then some event of it is due: an answer or a timer.
\<close>

theorem batch_ends:
  assumes "test_steps t s0 evs0 s" and "ts_batches s0 = []" and "test_steps t s evs s'" and "k < length (ts_batches s)"
  shows "k < length (ts_batches s') \<and> length (ba_pending (ts_batches s' ! k)) \<le> 5 \<and>
    length (filter (batch_event k) evs) \<le> 2 * length (ba_models (ts_batches s ! k)) + 2 \<and>
    (ba_phase (ts_batches s' ! k) = Ph_finished \<or> (\<exists>ev. batch_event k ev \<and> test_event_enabled ev s'))"
proof -
  have ok: "list_all batch_ok (ts_batches s)" using batches_ok_steps [OF assms(1)] assms(2) by simp
  then have ok': "list_all batch_ok (ts_batches s')" using batches_ok_steps [OF assms(3)] by simp
  note w = batch_work_steps [OF assms(3) ok assms(4)]
  have b: "batch_ok (ts_batches s ! k)" "batch_ok (ts_batches s' ! k)" using ok ok' w assms(4) by (auto simp: list_all_length)
  have "batch_work (ts_batches s ! k) \<le> 2 * length (ba_models (ts_batches s ! k)) + 2"
    using b(1) by (auto simp: batch_work_def batch_ok_def CONCURRENCY_LIMIT_def split: batch_phase.splits)
  then show ?thesis using w b(2) unfinished_enabled [OF b(2)] by (auto simp: batch_ok_def CONCURRENCY_LIMIT_def)
qed


subsection \<open>Which requests are sent\<close>

definition sent :: "test_state \<Rightarrow> api_call list" where
  "sent s = cs_sent (ts_table s)"

lemma update_property_frame [simp]:
  "cs_sent (updateChannelProperty rows i f s) = cs_sent s"
proof -
  have "cs_sent (foldl (\<lambda>s ref. update_channel ref f s) s refs) = cs_sent s" for refs
    by (induction refs rule: rev_induct) (auto simp: update_channel_def)
  then show ?thesis by (simp add: updateChannelProperty_def Let_def)
qed

lemma update_property_id:
  assumes "\<And>c. ch_id (f c) = ch_id c"
  shows "ch_id (rs_channel (cs_store (updateChannelProperty rows i f s)) ref) = ch_id (rs_channel (cs_store s) ref)"
proof -
  have "ch_id ((f ^^ n) c) = ch_id c" for n c by (induction n) (auto simp: assms)
  then show ?thesis by (simp add: updateChannelProperty_def Let_def update_channel_fold)
qed

lemma sent_simps [simp]:
  "sent (info m s) = sent s" "sent (show_test_error m s) = sent s" "sent (drop_results ref ms s) = sent s"
  "sent (test_done t now p r s) = sent s"
  by (auto simp: sent_def info_def show_test_error_def drop_results_def on_table_def show_toast_def test_done_def test_answered_def
        put_result_def Let_def split: test_response.splits)

lemma test_channel_frame [simp]:
  "test_channel ref (info m s) = test_channel ref s" "test_channel ref (drop_results ref0 ms s) = test_channel ref s"
  "ch_id (test_channel ref (test_done t now p r s)) = ch_id (test_channel ref s)"
  by (auto simp: test_channel_def info_def drop_results_def on_table_def show_toast_def test_done_def test_answered_def
        put_result_def update_property_id Let_def split: test_response.splits)

lemma chunk_end_sent [simp]:
  "sent (snd (chunk_end t b s)) = sent s" "test_channel ref (snd (chunk_end t b s)) = test_channel ref s"
  by (auto simp: chunk_end_def after_loop_def sent_def info_def on_table_def show_toast_def test_channel_def)

lemma chunk_begin_stopped:
  "ts_shouldStop s \<Longrightarrow> sent (snd (chunk_begin t b s)) = sent s"
  by (simp add: chunk_begin_def after_loop_def sent_def info_def on_table_def show_toast_def)

lemma put_batch_simps [simp]:
  "sent (put_batch k bs) = sent (snd bs)" "test_channel ref (put_batch k bs) = test_channel ref (snd bs)"
  by (simp_all add: put_batch_def sent_def test_channel_def)

lemma batch_answered_sent [simp]: "sent (batch_answered t now k j r s) = sent s"
  by (simp add: batch_answered_def Let_def)

lemma batch_timer_stopped: "ts_shouldStop s \<Longrightarrow> sent (batch_timer t k s) = sent s"
  by (auto simp: batch_timer_def Let_def chunk_begin_stopped split: batch_phase.splits)
     (auto simp: sent_def on_table_def show_toast_def)

fun starts_test :: "test_input \<Rightarrow> bool" where
  "starts_test Ev_batch = True"
| "starts_test (Ev_single _ _ _ _) = True"
| "starts_test _ = False"

lemma stopped_event:
  assumes "ts_shouldStop s" and "\<not> starts_test ev" and "list_all batch_ok (ts_batches s)" and "test_event_enabled ev s"
  shows "ts_shouldStop (test_event t ev s) \<and> sent (test_event t ev s) = sent s"
proof (cases ev)
  case (Ev_answer j now r)
  have "sent (s\<lparr>ts_tests := ps\<rparr>) = sent s" for ps by (simp add: sent_def)
  with Ev_answer assms(1) show ?thesis by simp
next
  case (Ev_timer k)
  then show ?thesis using own_event_advances(3) [of k ev s t] assms batch_timer_stopped by auto
next
  case (Ev_batch_answer k j now r)
  then show ?thesis using own_event_advances(3) [of k ev s t] assms by auto
qed (use assms in \<open>auto simp: handleCloseModal_def open_test_modal_def Let_def sent_def info_def on_table_def show_toast_def\<close>)

text \<open>
  C15. Closing the dialog while it takes a batch for running (\<open>isBatchTesting\<close>) stops every batch: whatever answers and timers
  follow, no further request is sent, as long as no new test is started. Without the flag, which an earlier batch that was stopped
  and revived can have reset, closing the dialog stops nothing.
\<close>

theorem closed_dialog_stays_silent:
  assumes "test_steps t s0 evs0 s" and "ts_batches s0 = []" and "ts_isBatchTesting s"
    and "test_steps t (handleCloseModal t s) evs s'" and "\<forall>ev \<in> set evs. \<not> starts_test ev"
  shows "cs_sent (ts_table s') = cs_sent (ts_table s)"
proof -
  let ?c = "handleCloseModal t s"
  have ok: "list_all batch_ok (ts_batches ?c)" using batches_ok_steps [OF assms(1)] assms(2) by (simp add: other_events_batches)
  have c: "ts_shouldStop ?c" "sent ?c = sent s"
    using assms(3) by (simp_all add: handleCloseModal_def Let_def sent_def info_def on_table_def show_toast_def)
  have "ts_shouldStop s' \<and> sent s' = sent ?c" using assms(4,5) ok c(1)
    by (induction rule: test_steps.induct) (use batches_ok_steps stopped_event in fastforce)+
  then show ?thesis using c(2) by (simp add: sent_def)
qed


text \<open>How many models of the list a batch has sent: all of the running chunk, or all before a pause.\<close>

definition batch_issued :: "batch \<Rightarrow> nat" where
  "batch_issued b = (case ba_phase b of Ph_chunk \<Rightarrow> ba_i b + CONCURRENCY_LIMIT | Ph_pause \<Rightarrow> ba_i b | _ \<Rightarrow> length (ba_models b))"

definition batch_calls :: "batch \<Rightarrow> test_state \<Rightarrow> api_call list" where
  "batch_calls b s = map (\<lambda>m. Api_get (test_url (ch_id (test_channel (ba_ref b) s)) m (ba_endpoint b) (ba_stream b))) (ba_models b)"

text \<open>The batch has sent the first requests of \<open>calls\<close>, which are the requests of all its models.\<close>

definition asked :: "api_call list \<Rightarrow> api_call list \<Rightarrow> batch \<times> test_state \<Rightarrow> bool" where
  "asked base calls bs \<longleftrightarrow> sent (snd bs) = base @ take (batch_issued (fst bs)) calls \<and> calls = batch_calls (fst bs) (snd bs) \<and> \<not> ts_shouldStop (snd bs)"

lemma start_tests_sent:
  assumes "\<not> ba_isBatchTesting b"
  shows "sent (snd (start_tests b models s)) =
      sent s @ map (\<lambda>m. Api_get (test_url (ch_id (test_channel (ba_ref b) s)) m (ba_endpoint b) (ba_stream b))) models"
    and "test_channel ref (snd (start_tests b models s)) = test_channel ref s"
  using assms
  by (induction models arbitrary: s) (auto simp: testChannel_def split_beta sent_def on_table_def send_call_def test_channel_def)

lemma chunk_end_asked:
  assumes "asked base calls (b, s)" and "ba_phase b = Ph_chunk"
  shows "asked base calls (chunk_end t b s)"
proof -
  have c: "length calls = length (ba_models b)" using assms(1) by (simp add: asked_def batch_calls_def)
  then have "take (batch_issued (fst (chunk_end t b s))) calls = take (batch_issued b) calls"
    using assms by (auto simp: asked_def chunk_end_def after_loop_def batch_issued_def)
  moreover have "batch_calls (fst (chunk_end t b s)) (snd (chunk_end t b s)) = batch_calls b s"
    by (simp add: batch_calls_def) (auto simp: chunk_end_def after_loop_def)
  moreover have "\<not> ts_shouldStop (snd (chunk_end t b s))"
    using assms(1) by (auto simp: asked_def chunk_end_def after_loop_def)
  ultimately show ?thesis using assms(1) by (simp add: asked_def)
qed

lemma chunk_begin_asked:
  assumes "asked base calls (b, s)" and "ba_phase b = Ph_pause" and "ba_i b < length (ba_models b)" and "\<not> ba_isBatchTesting b"
  shows "asked base calls (chunk_begin t b s)"
proof -
  let ?m = "chunk_message t (ba_i b) (length (ba_models b))"
  let ?st = "start_tests b (take CONCURRENCY_LIMIT (drop (ba_i b) (ba_models b))) (info ?m s)"
  have ps: "fst ?st \<noteq> []" using assms(3,4) by (simp add: start_tests_frame CONCURRENCY_LIMIT_def)
  then have cb: "chunk_begin t b s = (b\<lparr>ba_pending := fst ?st, ba_phase := Ph_chunk\<rparr>, snd ?st)"
    using assms(1) by (simp add: chunk_begin_def asked_def Let_def split_beta)
  have calls: "calls = batch_calls b s" "sent s = base @ take (ba_i b) calls" using assms(1,2) by (auto simp: asked_def batch_issued_def)
  have "sent (snd ?st) = base @ take (ba_i b) calls @ take CONCURRENCY_LIMIT (drop (ba_i b) calls)"
    using calls by (simp add: start_tests_sent [OF assms(4)] batch_calls_def take_map drop_map)
  then show ?thesis
    using assms(1) calls by (simp add: cb asked_def batch_issued_def take_add batch_calls_def start_tests_sent [OF assms(4)] start_tests_frame [OF assms(4)])
qed

lemma chunk_begin_running:
  "\<not> ts_shouldStop s \<Longrightarrow> ba_i b < length (ba_models b) \<Longrightarrow> \<not> ba_isBatchTesting b \<Longrightarrow> ba_phase (fst (chunk_begin t b s)) = Ph_chunk"
  by (simp add: chunk_begin_def Let_def split_beta start_tests_frame CONCURRENCY_LIMIT_def)

lemma own_event_asked:
  assumes "batch_event k ev" and "test_event_enabled ev s" and "list_all batch_ok (ts_batches s)" and "asked base calls (ts_batches s ! k, s)"
  shows "asked base calls (ts_batches (test_event t ev s) ! k, test_event t ev s)"
proof -
  let ?b = "ts_batches s ! k"
  have k: "k < length (ts_batches s)" using own_event_advances(1) [OF assms(1-3)] .
  have ok: "batch_ok ?b" using assms(3) k by (simp add: list_all_length)
  have put: "asked base calls (ts_batches (put_batch k bs) ! k, put_batch k bs)"
    if "asked base calls bs" "ts_batches (snd bs) = ts_batches s" for bs
    using that k by (simp add: asked_def put_batch_def sent_def batch_calls_def test_channel_def)
  show ?thesis
  proof (cases ev)
    case (Ev_batch_answer k' j now r)
    then have e: "k' = k" "j < length (ba_pending ?b)" "ba_phase ?b = Ph_chunk" using assms(1,2) ok by (auto simp: batch_ok_def)
    let ?b1 = "?b\<lparr>ba_pending := take j (ba_pending ?b) @ drop (Suc j) (ba_pending ?b)\<rparr>" and ?s1 = "test_done t now (ba_pending ?b ! j) r s"
    have a: "asked base calls (?b1, ?s1)" using assms(4) e(3) by (simp add: asked_def batch_issued_def batch_calls_def)
    let ?bs = "if ba_pending ?b1 = [] then chunk_end t ?b1 ?s1 else (?b1, ?s1)"
    have "ba_phase ?b1 = Ph_chunk" using e(3) by simp
    from chunk_end_asked [OF a this, of t] a have "asked base calls ?bs" by (simp only: split: if_split) simp
    moreover have "ts_batches (snd ?bs) = ts_batches s" by (auto simp: chunk_end_def after_loop_def)
    ultimately have "asked base calls (ts_batches (put_batch k ?bs) ! k, put_batch k ?bs)" by (rule put)
    then show ?thesis by (simp only: Ev_batch_answer e(1) test_event.simps batch_answered_def Let_def)
  next
    case (Ev_timer k')
    then have [simp]: "k' = k" using assms(1) by simp
    show ?thesis
    proof (cases "ba_phase ?b")
      case Ph_pause
      then have p: "ba_i ?b < length (ba_models ?b)" "ba_pending ?b = []" "\<not> ba_isBatchTesting ?b" using ok by (auto simp: batch_ok_def)
      from chunk_begin_asked [OF assms(4) Ph_pause p(1,3), of t] put chunk_begin_facts(3) [OF p]
      show ?thesis using Ev_timer Ph_pause by (simp add: batch_timer_def Let_def)
    qed (use assms(2,4) Ev_timer k in \<open>auto simp: batch_timer_def Let_def asked_def put_batch_def sent_def batch_issued_def batch_calls_def test_channel_def on_table_def show_toast_def\<close>)
  qed (use assms(1) in auto)
qed


lemma own_steps_asked:
  assumes "test_steps t s evs s'" and "\<forall>ev \<in> set evs. batch_event k ev" and "list_all batch_ok (ts_batches s)"
    and "asked base calls (ts_batches s ! k, s)"
  shows "asked base calls (ts_batches s' ! k, s')"
  using assms
proof (induction rule: test_steps.induct)
  case (steps_more t s evs s' ev)
  then have "asked base calls (ts_batches s' ! k, s')" "batch_event k ev" by auto
  with own_event_asked [OF this(2) steps_more.hyps(2) batches_ok_steps [OF steps_more.hyps(1) steps_more.prems(2)]] show ?case by blast
qed

lemma batchTestModels_asked:
  fixes t :: i18n
  assumes "ts_currentTestChannel s = Some ref" and "\<not> ts_isBatchTesting s" and "ch_models (test_channel ref s) \<noteq> []" and "batch_models s ref \<noteq> []"
  defines "s' \<equiv> batchTestModels t s"
  shows "length (ts_batches s') = Suc (length (ts_batches s))"
    and "asked (sent s) (map (\<lambda>m. Api_get (test_url (ch_id (test_channel ref s)) m (ts_selectedEndpointType s) (ts_isStreamTest s))) (batch_models s ref))
           (ts_batches s' ! length (ts_batches s), s')"
    and "ba_phase (ts_batches s' ! length (ts_batches s)) = Ph_chunk"
proof -
  let ?ms = "batch_models s ref"
  let ?b = "\<lparr>ba_ref = ref, ba_models = ?ms, ba_i = 0, ba_pending = [], ba_phase = Ph_pause, ba_isBatchTesting = ts_isBatchTesting s,
     ba_rows = cs_channels (ts_table s), ba_endpoint = ts_selectedEndpointType s, ba_stream = ts_isStreamTest s\<rparr>"
  let ?s2 = "info (js_replace (js ''${count}'') (dec (length ?ms)) (t MSG_batch_begin []))
     (drop_results ref ?ms (s\<lparr>ts_isBatchTesting := True, ts_shouldStop := False\<rparr>))"
  let ?calls = "map (\<lambda>m. Api_get (test_url (ch_id (test_channel ref s)) m (ts_selectedEndpointType s) (ts_isStreamTest s))) ?ms"
  have s': "s' = add_batch (chunk_begin t ?b ?s2)"
    using assms(1,3,4) unfolding s'_def batchTestModels_def Let_def by simp
  have b: "ba_i ?b < length (ba_models ?b)" "ba_pending ?b = []" "\<not> ba_isBatchTesting ?b" "ba_phase ?b = Ph_pause"
    using assms(2,4) by simp_all
  have ch: "test_channel ref (s\<lparr>ts_isBatchTesting := True, ts_shouldStop := False\<rparr>) = test_channel ref s" by (simp add: test_channel_def)
  have se: "sent (s\<lparr>ts_isBatchTesting := True, ts_shouldStop := False\<rparr>) = sent s" by (simp add: sent_def)
  have "asked (sent s) ?calls (?b, ?s2)" by (simp add: asked_def batch_issued_def batch_calls_def ch se)
  from chunk_begin_asked [OF this b(4,1,3)] have a: "asked (sent s) ?calls (chunk_begin t ?b ?s2)" .
  have bs: "ts_batches (snd (chunk_begin t ?b ?s2)) = ts_batches s" using chunk_begin_facts(3) [OF b(1-3)] by simp
  have add: "ts_batches (add_batch x) = ts_batches s @ [fst x]" "asked base calls (fst x, add_batch x) = asked base calls x"
    if "ts_batches (snd x) = ts_batches s" for x base calls
    using that by (simp_all add: add_batch_def asked_def sent_def batch_calls_def test_channel_def)
  show "length (ts_batches s') = Suc (length (ts_batches s))" by (simp add: s' add(1) [OF bs])
  show "asked (sent s) ?calls (ts_batches s' ! length (ts_batches s), s')" using a by (simp add: s' add [OF bs])
  have "ba_phase (fst (chunk_begin t ?b ?s2)) = Ph_chunk" by (rule chunk_begin_running [OF _ b(1,3)]) simp
  then show "ba_phase (ts_batches s' ! length (ts_batches s)) = Ph_chunk" by (simp add: s' add(1) [OF bs])
qed

text \<open>
  C9. A batch that is left alone sends one request per model that matches the search text, in the order of
  the list: always a prefix of these requests has been sent, and all of them when the batch reports.
\<close>

theorem batch_requests_in_order:
  assumes "test_steps t s0 evs0 s" and "ts_batches s0 = []"
    and "ts_currentTestChannel s = Some ref" and "\<not> ts_isBatchTesting s" and "ch_models (test_channel ref s) \<noteq> []" and "batch_models s ref \<noteq> []"
    and "test_steps t (batchTestModels t s) evs s'" and "\<forall>ev \<in> set evs. batch_event (length (ts_batches s)) ev"
  shows "let b = ts_batches s' ! length (ts_batches s);
      calls = map (\<lambda>m. Api_get (test_url (ch_id (test_channel ref s)) m (ts_selectedEndpointType s) (ts_isStreamTest s))) (batch_models s ref)
    in cs_sent (ts_table s') = cs_sent (ts_table s) @ take (batch_issued b) calls \<and>
       (ba_phase b \<notin> {Ph_chunk, Ph_pause} \<longrightarrow> cs_sent (ts_table s') = cs_sent (ts_table s) @ calls)"
proof -
  let ?k = "length (ts_batches s)" and ?s1 = "batchTestModels t s"
  let ?calls = "map (\<lambda>m. Api_get (test_url (ch_id (test_channel ref s)) m (ts_selectedEndpointType s) (ts_isStreamTest s))) (batch_models s ref)"
  have "test_steps t s (evs0' @ [Ev_batch]) ?s1" if "test_steps t s evs0' s" for evs0'
    using steps_more [OF that, of Ev_batch] assms(4) by simp
  from this [OF steps_none] have "list_all batch_ok (ts_batches ?s1)"
    using batches_ok_steps batches_ok_steps [OF assms(1)] assms(2) by fastforce
  from own_steps_asked [OF assms(7,8) this batchTestModels_asked(2) [OF assms(3-6)]]
  have "asked (sent s) ?calls (ts_batches s' ! ?k, s')" .
  then show ?thesis
    by (auto simp: asked_def Let_def sent_def batch_calls_def batch_issued_def split: batch_phase.splits)
qed


subsection \<open>Stopping and starting again\<close>

text \<open>
  Answers to the tests of a batch are recorded and reported even after the batch was stopped: the
  flag that would suppress them is the one of the render in which the batch was started.
\<close>

theorem stopped_answers_recorded:
  assumes "test_steps t s0 evs0 s" and "ts_batches s0 = []" and "k < length (ts_batches s)" and "j < length (ba_pending (ts_batches s ! k))"
  shows "\<exists>r. map_of (ts_modelTestResults (batch_answered t now k j (Test_answer success message time errorCode) s))
      (test_key (pt_ref (ba_pending (ts_batches s ! k) ! j)) (pt_model (ba_pending (ts_batches s ! k) ! j)) s) = Some r \<and>
    te_success r = success \<and> te_message r = message"
proof -
  let ?b = "ts_batches s ! k" let ?p = "ba_pending ?b ! j"
  have "batch_ok ?b" using batches_ok_steps [OF assms(1)] assms(2,3) by (simp add: list_all_length)
  then have p: "\<not> pt_isBatchTesting ?p" using assms(4) by (auto simp: batch_ok_def)
  have frame: "ts_modelTestResults (put_batch k bs) = ts_modelTestResults (snd bs)" for bs by (simp add: put_batch_def)
  have frame': "ts_modelTestResults (snd (chunk_end t b s')) = ts_modelTestResults s'" for b s'
    by (auto simp: chunk_end_def after_loop_def info_def on_table_def)
  have frame'': "ts_modelTestResults (on_table f s') = ts_modelTestResults s'" for f s' by (simp add: on_table_def)
  show ?thesis
    using p by (auto simp: batch_answered_def Let_def frame frame' frame'' test_done_def test_answered_def put_result_def map_of_obj_set)
qed

lemma close_frame:
  "ts_currentTestChannel (handleCloseModal t s) = ts_currentTestChannel s" "\<not> ts_isBatchTesting (handleCloseModal t s)"
  "test_channel ref (handleCloseModal t s) = test_channel ref s" "sent (handleCloseModal t s) = sent s"
  by (auto simp: handleCloseModal_def Let_def info_def on_table_def show_toast_def test_channel_def sent_def)

lemma unstopped_batch_goes_on:
  fixes t :: i18n and now :: jsnum and r :: test_response
  assumes "k < length (ts_batches s)" and "batch_ok (ts_batches s ! k)" and "ba_pending (ts_batches s ! k) = [p]"
    and "ba_i (ts_batches s ! k) + 5 < length (ba_models (ts_batches s ! k))" and "\<not> ts_shouldStop s"
  defines "s' \<equiv> batch_timer t k (batch_answered t now k 0 r s)"
  shows "sent s' = sent s @ take 5 (drop (ba_i (ts_batches s ! k) + 5) (batch_calls (ts_batches s ! k) s))"
proof -
  let ?b = "ts_batches s ! k" let ?s1 = "test_done t now p r s"
  let ?b1 = "?b\<lparr>ba_pending := [], ba_i := ba_i ?b + 5, ba_phase := Ph_pause\<rparr>"
  let ?s2 = "put_batch k (?b1, ?s1)"
  have nb: "\<not> ba_isBatchTesting ?b1" using assms(2) by (simp add: batch_ok_def)
  have s2: "batch_answered t now k 0 r s = ?s2"
    using assms(3-5) by (simp add: batch_answered_def Let_def chunk_end_def CONCURRENCY_LIMIT_def)
  have b1: "ts_batches ?s2 ! k = ?b1" using assms(1) by (simp add: put_batch_def)
  have st: "\<not> ts_shouldStop ?s2" using assms(5) by (simp add: put_batch_def)
  have "s' = put_batch k (chunk_begin t ?b1 ?s2)"
    unfolding s'_def s2 by (simp add: batch_timer_def b1 Let_def)
  then have "sent s' = sent (snd (chunk_begin t ?b1 ?s2))" by simp
  also have "\<dots> = sent ?s2 @ map (\<lambda>m. Api_get (test_url (ch_id (test_channel (ba_ref ?b1) ?s2)) m (ba_endpoint ?b1) (ba_stream ?b1)))
      (take CONCURRENCY_LIMIT (drop (ba_i ?b1) (ba_models ?b1)))"
    using st assms(4) nb
    by (simp add: chunk_begin_def Let_def split_beta start_tests_frame start_tests_sent CONCURRENCY_LIMIT_def)
  finally show ?thesis by (simp add: batch_calls_def take_map drop_map CONCURRENCY_LIMIT_def)
qed


lemma started_batch_frame:
  assumes "ts_currentTestChannel s = Some ref" and "\<not> ts_isBatchTesting s" and "ch_models (test_channel ref s) \<noteq> []"
    and "batch_models s ref \<noteq> []" and "k < length (ts_batches s)"
  shows "ts_batches (batchTestModels t s) ! k = ts_batches s ! k" and "\<not> ts_shouldStop (batchTestModels t s)"
    and "k < length (ts_batches (batchTestModels t s))"
  using batchTestModels_batches [OF assms(2), of t] batchTestModels_asked [OF assms(1-4), of t] assms(5)
  by (auto simp: nth_append asked_def)

text \<open>
  C29. Starting a new batch resets the flag that stops the old one. A batch that was stopped while tests
  were outstanding then goes on beside the new batch: its next five models are sent.
\<close>

theorem restart_revives_stopped_batch:
  assumes "k < length (ts_batches s)" and "batch_ok (ts_batches s ! k)" and "ba_pending (ts_batches s ! k) = [p]"
    and "ba_i (ts_batches s ! k) + 5 < length (ba_models (ts_batches s ! k))"
    and "ts_currentTestChannel s = Some ref" and "ch_models (test_channel ref s) \<noteq> []"
    and "s1 = batchTestModels t (handleCloseModal t s)" and "s2 = batch_timer t k (batch_answered t now k 0 r s1)"
  shows "cs_sent (ts_table s2) = cs_sent (ts_table s1) @ take 5 (drop (ba_i (ts_batches s ! k) + 5) (batch_calls (ts_batches s ! k) s1))"
proof -
  let ?c = "handleCloseModal t s"
  have nil: "str_includes m []" for m :: jstring by (cases m) auto
  have "batch_models ?c ref \<noteq> []"
    using nil by (simp add: batch_models_def close_frame handleCloseModal_def Let_def to_lower_def)
  then have c: "ts_currentTestChannel ?c = Some ref" "\<not> ts_isBatchTesting ?c" "ch_models (test_channel ref ?c) \<noteq> []" "batch_models ?c ref \<noteq> []"
    "k < length (ts_batches ?c)" "ts_batches ?c = ts_batches s"
    using assms(1,5,6) by (simp_all add: close_frame other_events_batches)
  note f = started_batch_frame [OF c(1-5), of t]
  from unstopped_batch_goes_on [of k s1 p t now r] f assms show ?thesis by (simp add: c(6) sent_def)
qed


subsection \<open>Witnesses\<close>

definition sample_batch :: batch where
  "sample_batch = \<lparr>ba_ref = 0, ba_models = map js [''a'', ''b'', ''c'', ''d'', ''e'', ''f''], ba_i = 0,
     ba_pending = [\<lparr>pt_ref = 0, pt_model = js ''a'', pt_isBatchTesting = False, pt_rows = []\<rparr>],
     ba_phase = Ph_chunk, ba_isBatchTesting = False, ba_rows = [], ba_endpoint = [], ba_stream = False\<rparr>"

definition sample_tests :: "batch list \<Rightarrow> test_state" where
  "sample_tests bs = \<lparr>ts_table = sample_table, ts_showModelTestModal = True, ts_currentTestChannel = Some 0, ts_modelSearchKeyword = [],
     ts_modelTestResults = [], ts_testingModels = [], ts_selectedModelKeys = [], ts_isBatchTesting = False, ts_modelTablePage = 1,
     ts_selectedEndpointType = [], ts_isStreamTest = False, ts_shouldStop = False, ts_tests = [], ts_batches = bs\<rparr>"

lemma sample_batch_ok: "batch_ok sample_batch"
  by (simp add: batch_ok_def sample_batch_def CONCURRENCY_LIMIT_def)

lemma sample_tests_ready:
  "ts_currentTestChannel (sample_tests bs) = Some 0" "\<not> ts_isBatchTesting (sample_tests bs)"
  "ch_models (test_channel 0 (sample_tests bs)) = js ''a,b''" "batch_models (sample_tests bs) 0 = [js ''a'', js ''b'']"
  by (simp_all add: sample_tests_def test_channel_def sample_table_def sample_channel_def batch_models_def js_def to_lower_def)

definition sample_started :: test_state where
  "sample_started = batchTestModels (\<lambda>k _. k) (sample_tests [])"

lemma sample_started_steps: "test_steps (\<lambda>k _. k) (sample_tests []) ([] @ [Ev_batch]) sample_started"
  unfolding sample_started_def test_event.simps(3) [symmetric]
  by (rule steps_more [OF steps_none]) (simp add: sample_tests_ready)

lemma sample_started_batches: "length (ts_batches sample_started) = 1" "list_all batch_ok (ts_batches sample_started)"
  using batchTestModels_asked(1) [OF sample_tests_ready(1,2), of "[]" "\<lambda>k _. k"] batches_ok_steps [OF sample_started_steps]
  by (simp_all add: sample_started_def sample_tests_ready, simp_all add: sample_tests_def js_def)

lemma no_batches [simp]: "ts_batches (sample_tests bs) = bs"
  by (simp add: sample_tests_def)

theorem batch_ends_witness:
  "length (ba_pending (ts_batches sample_started ! 0)) \<le> 5 \<and>
   (ba_phase (ts_batches sample_started ! 0) = Ph_finished \<or> (\<exists>ev. batch_event 0 ev \<and> test_event_enabled ev sample_started))"
  using batch_ends [OF sample_started_steps no_batches steps_none, of 0] sample_started_batches(1) by simp

text \<open>A channel of six models: a chunk of five is under way when the dialog is closed, and all of the five are answered.\<close>

definition sample_six :: test_state where
  "sample_six = (sample_tests [])\<lparr>ts_table := sample_table\<lparr>cs_store := (cs_store sample_table)\<lparr>rs_channel :=
     (\<lambda>_. (sample_channel 7 (js ''eu''))\<lparr>ch_models := js ''a,b,c,d,e,f''\<rparr>)\<rparr>\<rparr>\<rparr>"

definition six_started :: test_state where
  "six_started = batchTestModels (\<lambda>k _. k) sample_six"

lemma sample_six_ready:
  "ts_currentTestChannel sample_six = Some 0" "\<not> ts_isBatchTesting sample_six" "ts_batches sample_six = []"
  "ch_models (test_channel 0 sample_six) = js ''a,b,c,d,e,f''" "batch_models sample_six 0 = map js [''a'', ''b'', ''c'', ''d'', ''e'', ''f'']"
  by (simp_all add: sample_six_def sample_tests_def test_channel_def sample_table_def sample_channel_def batch_models_def js_def to_lower_def)

lemma start_tests_testing: "ts_isBatchTesting (snd (start_tests b models s)) = ts_isBatchTesting s"
  by (induction models arbitrary: s) (auto simp: testChannel_def split_beta on_table_def)

lemma batchTestModels_running:
  assumes "ts_currentTestChannel s = Some ref" "\<not> ts_isBatchTesting s" "ch_models (test_channel ref s) \<noteq> []" "batch_models s ref \<noteq> []"
  shows "ts_isBatchTesting (batchTestModels t s)" "length (ts_batches (batchTestModels t s)) = Suc (length (ts_batches s))"
    and "length (ba_pending (ts_batches (batchTestModels t s) ! length (ts_batches s))) = min (length (batch_models s ref)) 5"
  using assms by (simp_all add: batchTestModels_def drop_results_def chunk_begin_def start_tests_frame
    start_tests_testing split_beta Let_def add_batch_def CONCURRENCY_LIMIT_def info_def on_table_def)

lemma six_started_batch:
  "ts_isBatchTesting six_started" "length (ts_batches six_started) = 1" "length (ba_pending (ts_batches six_started ! 0)) = 5"
  using batchTestModels_running [OF sample_six_ready(1,2), of "\<lambda>k _. k"]
  by (simp_all add: six_started_def sample_six_ready js_def)

lemma six_started_steps: "test_steps (\<lambda>k _. k) sample_six ([] @ [Ev_batch]) six_started"
  unfolding six_started_def test_event.simps(3) [symmetric] by (rule steps_more [OF steps_none]) (simp add: sample_six_ready)

abbreviation first_answer :: test_input where
  "first_answer \<equiv> Ev_batch_answer 0 0 (Num 0) (Test_rejected [])"

lemma answers_arrive:
  assumes "0 < length (ts_batches s)" "n \<le> length (ba_pending (ts_batches s ! 0))"
  shows "\<exists>s'. test_steps t s (replicate n first_answer) s' \<and> 0 < length (ts_batches s') \<and>
    (n < length (ba_pending (ts_batches s ! 0)) \<longrightarrow> ba_pending (ts_batches s' ! 0) = drop n (ba_pending (ts_batches s ! 0)))"
  using assms(2)
proof (induction n)
  case 0
  then show ?case using assms(1) by (auto intro: steps_none)
next
  case (Suc n)
  then obtain s1 where 1: "test_steps t s (replicate n first_answer) s1" "0 < length (ts_batches s1)"
    "ba_pending (ts_batches s1 ! 0) = drop n (ba_pending (ts_batches s ! 0))" by auto
  have "test_steps t s (replicate n first_answer @ [first_answer]) (test_event t first_answer s1)"
    by (rule steps_more [OF 1(1)]) (use 1(2,3) Suc.prems in simp)
  moreover have "0 < length (ts_batches (test_event t first_answer s1))"
    using 1(2) by (simp add: batch_answered_def Let_def put_batch_def chunk_end_def after_loop_def info_def on_table_def)
  moreover have "ba_pending (ts_batches (test_event t first_answer s1) ! 0) = drop (Suc n) (ba_pending (ts_batches s ! 0))"
    if "Suc n < length (ba_pending (ts_batches s ! 0))"
    using 1(2,3) that by (auto simp: batch_answered_def Let_def put_batch_def)
  ultimately show ?case by (auto simp: replicate_append_same)
qed

theorem closed_dialog_stays_silent_witness:
  "\<exists>s'. test_steps (\<lambda>k _. k) (handleCloseModal (\<lambda>k _. k) six_started) (replicate 5 first_answer) s' \<and>
     cs_sent (ts_table s') = cs_sent (ts_table six_started)"
proof -
  have "ts_batches (handleCloseModal (\<lambda>k _. k) six_started) = ts_batches six_started" by (simp add: other_events_batches)
  then obtain s' where s': "test_steps (\<lambda>k _. k) (handleCloseModal (\<lambda>k _. k) six_started) (replicate 5 first_answer) s'"
    using answers_arrive [of "handleCloseModal (\<lambda>k _. k) six_started" 5 "\<lambda>k _. k"] six_started_batch by auto
  from closed_dialog_stays_silent [OF six_started_steps sample_six_ready(3) six_started_batch(1) this] this show ?thesis by auto
qed

theorem batch_requests_in_order_witness:
  "cs_sent (ts_table sample_started) = cs_sent sample_table @
     take (batch_issued (ts_batches sample_started ! 0)) (map (\<lambda>m. Api_get (test_url 7 m [] False)) [js ''a'', js ''b''])"
proof -
  have "ch_models (test_channel 0 (sample_tests [])) \<noteq> []" "batch_models (sample_tests []) 0 \<noteq> []"
    by (simp_all add: sample_tests_ready js_def)
  from batch_requests_in_order [OF steps_none no_batches sample_tests_ready(1,2) this steps_none, of "\<lambda>k _. k"]
  have "cs_sent (ts_table sample_started) = cs_sent (ts_table (sample_tests [])) @
      take (batch_issued (ts_batches sample_started ! 0))
        (map (\<lambda>m. Api_get (test_url (ch_id (test_channel 0 (sample_tests []))) m (ts_selectedEndpointType (sample_tests [])) (ts_isStreamTest (sample_tests []))))
          (batch_models (sample_tests []) 0))"
    by (simp add: Let_def sample_started_def)
  then show ?thesis unfolding sample_tests_ready by (simp add: sample_tests_def test_channel_def sample_table_def sample_channel_def)
qed

theorem stopped_answers_recorded_witness:
  "\<exists>r. map_of (ts_modelTestResults (batch_answered (\<lambda>k _. k) (Num 0) 0 0 (Test_answer True [] (Num 1) JNull) sample_started))
      (test_key (pt_ref (ba_pending (ts_batches sample_started ! 0) ! 0)) (pt_model (ba_pending (ts_batches sample_started ! 0) ! 0)) sample_started) = Some r \<and>
    te_success r \<and> te_message r = []"
proof -
  have "ba_phase (ts_batches sample_started ! 0) = Ph_chunk" "batch_ok (ts_batches sample_started ! 0)"
    using batchTestModels_asked(3) [OF sample_tests_ready(1,2), of "[]" "\<lambda>k _. k"] sample_started_batches
    by (simp_all add: sample_started_def sample_tests_ready js_def list_all_length)
  then have "0 < length (ba_pending (ts_batches sample_started ! 0))" by (simp add: batch_ok_def)
  from stopped_answers_recorded [OF sample_started_steps no_batches _ this, where now = "Num 0" and success = True and message = "[]" and time = "Num 1" and errorCode = JNull]
  show ?thesis using sample_started_batches(1) by simp
qed

theorem restart_revives_stopped_batch_witness:
  "let s1 = batchTestModels (\<lambda>k _. k) (handleCloseModal (\<lambda>k _. k) (sample_tests [sample_batch]))
   in cs_sent (ts_table (batch_timer (\<lambda>k _. k) 0 (batch_answered (\<lambda>k _. k) (Num 0) 0 0 (Test_rejected []) s1))) =
      cs_sent (ts_table s1) @ take 5 (drop 5 (batch_calls sample_batch s1))"
  using restart_revives_stopped_batch [of 0 "sample_tests [sample_batch]" _ 0 _ "\<lambda>k _. k", OF _ _ _ _ _ _ refl refl] sample_batch_ok
  by (simp add: sample_tests_ready Let_def) (simp add: sample_batch_def js_def)

end
