(* ===== verification/ChannelActions.thy ===== *)
theory ChannelActions
  imports ChannelTable PlaygroundStorage
begin

text \<open>
  Further actions of the channel table (\<open>hooks/channels/useChannelsData.jsx\<close>): the page settings and
  the columns kept in the local storage, edits of a tag, actions on the selected or on all channels, and
  the deletion of channels with the check for an empty page. What a handler reads after an \<open>await\<close>
  it reads from the render that created it: that state is the argument \<open>captured\<close>. Messages are the
  arguments of \<open>showError\<close>, \<open>showInfo\<close> and \<open>showSuccess\<close>.
\<close>

subsection \<open>Settings of the page\<close>

definition ITEMS_PER_PAGE :: nat where "ITEMS_PER_PAGE = 10"

definition flag_item :: "jstring \<Rightarrow> storage \<Rightarrow> bool" where
  "flag_item key st \<longleftrightarrow> st key = Some (js ''true'')"

text \<open>\<open>parseInt(item) || ITEMS_PER_PAGE\<close>; a missing item is \<open>null\<close>, which is not a number.\<close>

definition stored_page_size :: "storage \<Rightarrow> jsnum" where
  "stored_page_size st = (case st (js ''page-size'') of
       None \<Rightarrow> Num (of_nat ITEMS_PER_PAGE)
     | Some s \<Rightarrow> (let n = parse_int s in if truthy (JNum n) then n else Num (of_nat ITEMS_PER_PAGE)))"

subsection \<open>Columns\<close>

definition COLUMN_KEYS :: "jstring list" where
  "COLUMN_KEYS = map js [''id'', ''name'', ''group'', ''type'', ''status'', ''response_time'', ''balance'', ''priority'', ''weight'', ''operate'']"

definition getDefaultColumnVisibility :: jsobj where
  "getDefaultColumnVisibility = map (\<lambda>k. (k, JBool True)) COLUMN_KEYS"

definition handleColumnVisibilityChange :: "jstring \<Rightarrow> bool \<Rightarrow> jsobj \<Rightarrow> jsobj" where
  "handleColumnVisibilityChange columnKey checked columns = obj_set columnKey (JBool checked) columns"

definition handleSelectAll :: "bool \<Rightarrow> jsobj" where
  "handleSelectAll checked = foldl (\<lambda>columns key. obj_set key (JBool checked) columns) [] COLUMN_KEYS"

definition COLUMNS_ITEM :: jstring where "COLUMNS_ITEM = js ''channels-table-columns''"

text \<open>The effect that saves the columns; a missing storage item or an unreadable one gives the defaults.\<close>

definition save_columns :: "jsobj \<Rightarrow> storage \<Rightarrow> storage" where
  "save_columns columns st = (if columns \<noteq> [] then st(COLUMNS_ITEM \<mapsto> json_str (JObj columns)) else st)"

definition load_columns :: "storage \<Rightarrow> jsobj" where
  "load_columns st = (case st COLUMNS_ITEM of
       None \<Rightarrow> getDefaultColumnVisibility
     | Some s \<Rightarrow>
         if s = [] then getDefaultColumnVisibility
         else (case json_parse s of
                 Some parsed \<Rightarrow> obj_merge getDefaultColumnVisibility (spread parsed)
               | None \<Rightarrow> getDefaultColumnVisibility))"

subsection \<open>Refreshing after a request\<close>

definition refresh_from :: "channels_state \<Rightarrow> nat \<Rightarrow> channels_state \<Rightarrow> ticket \<times> channels_state" where
  "refresh_from captured page s =
     (if form_empty (cs_form s)
      then loadChannels page (cs_pageSize captured) (cs_idSort captured) (cs_enableTagMode captured) (cs_activeTypeKey captured) (cs_statusFilter captured) s
      else searchChannels (cs_enableTagMode captured) (cs_activeTypeKey captured) (cs_statusFilter captured) page (cs_pageSize captured) (cs_idSort captured) s)"

text \<open>A handler after its \<open>await\<close>: it is done, or waits for a refresh.\<close>

type_synonym continued = "ticket option \<times> channels_state"

definition then_refresh :: "channels_state \<Rightarrow> channels_state \<Rightarrow> continued" where
  "then_refresh captured s = (let (ticket, s') = refresh_from captured (cs_activePage captured) s in (Some ticket, s'))"

text \<open>An answer: success with data, or the message of a failure.\<close>

datatype 'd op_response = Op_ok 'd | Op_error jstring

subsection \<open>Editing a tag\<close>

definition MSG_priority_int :: jstring where "MSG_priority_int = [0x4F18, 0x5148, 0x7EA7, 0x5FC5, 0x987B, 0x662F, 0x6574, 0x6570, 0xFF01]"
definition MSG_weight_nonneg :: jstring where "MSG_weight_nonneg = [0x6743, 0x91CD, 0x5FC5, 0x987B, 0x662F, 0x975E, 0x8D1F, 0x6574, 0x6570, 0xFF01]"
definition MSG_updated :: jstring where "MSG_updated = [0x66F4, 0x65B0, 0x6210, 0x529F, 0xFF01]"

datatype tag_edit = Edit_priority "jstring option" | Edit_weight "jstring option"

text \<open>The edited text is missing, or the text of the input field.\<close>

definition submitTagEdit :: "jstring \<Rightarrow> tag_edit \<Rightarrow> channels_state \<Rightarrow> channels_state" where
  "submitTagEdit tag e s =
     (let put = (\<lambda>field n. send_call (Api_put (js ''/api/channel/tag'') (JObj [(js ''tag'', JStr tag), (field, JNum n)])) s)
      in case e of
           Edit_priority v \<Rightarrow>
             (case v of
                None \<Rightarrow> show_toast Toast_info MSG_priority_int s
              | Some v \<Rightarrow> if v = [] then show_toast Toast_info MSG_priority_int s else put (js ''priority'') (parse_int v))
         | Edit_weight v \<Rightarrow>
             (case v of
                None \<Rightarrow> show_toast Toast_info MSG_weight_nonneg s
              | Some v \<Rightarrow>
                  if num_lt (string_to_number v) (Num 0) \<or> v = [] then show_toast Toast_info MSG_weight_nonneg s
                  else put (js ''weight'') (parse_int v)))"

text \<open>A failure of the request is not reported.\<close>

definition submitTagEdit_done :: "channels_state \<Rightarrow> unit op_response \<Rightarrow> channels_state \<Rightarrow> continued" where
  "submitTagEdit_done captured r s = (case r of
       Op_ok _ \<Rightarrow> then_refresh captured (show_toast Toast_success MSG_updated s)
     | Op_error _ \<Rightarrow> (None, s))"

subsection \<open>Selected channels\<close>

definition MSG_select_for_tag :: jstring where "MSG_select_for_tag = [0x8BF7, 0x5148, 0x9009, 0x62E9, 0x8981, 0x8BBE, 0x7F6E, 0x6807, 0x7B7E, 0x7684, 0x6E20, 0x9053, 0xFF01]"
definition MSG_tag_empty :: jstring where "MSG_tag_empty = [0x6807, 0x7B7E, 0x4E0D, 0x80FD, 0x4E3A, 0x7A7A, 0xFF01]"
definition MSG_tag_set :: jstring where "MSG_tag_set = [0x5DF2, 0x4E3A] @ js '' ${count} '' @ [0x4E2A, 0x6E20, 0x9053, 0x8BBE, 0x7F6E, 0x6807, 0x7B7E, 0xFF01]"
definition MSG_select_for_delete :: jstring where "MSG_select_for_delete = [0x8BF7, 0x5148, 0x9009, 0x62E9, 0x8981, 0x5220, 0x9664, 0x7684, 0x901A, 0x9053, 0xFF01]"
definition MSG_channels_deleted :: jstring where "MSG_channels_deleted = [0x5DF2, 0x5220, 0x9664] @ js '' ${data} '' @ [0x4E2A, 0x901A, 0x9053, 0xFF01]"

definition batchSetChannelTag :: "i18n \<Rightarrow> channels_state \<Rightarrow> channels_state" where
  "batchSetChannelTag t s =
     (if cs_selectedChannels s = [] then show_toast Toast_error (t MSG_select_for_tag []) s
      else if cs_batchSetTagValue s = [] then show_toast Toast_error (t MSG_tag_empty []) s
      else send_call (Api_post (js ''/api/channel/batch/tag'')
             (JObj [(js ''ids'', JArr (cs_selectedChannels s)), (js ''tag'', JStr (cs_batchSetTagValue s))])) s)"

text \<open>The dialog closes when the refresh has ended.\<close>

definition batchSetChannelTag_done :: "i18n \<Rightarrow> channels_state \<Rightarrow> int op_response \<Rightarrow> channels_state \<Rightarrow> continued" where
  "batchSetChannelTag_done t captured r s = (case r of
       Op_ok n \<Rightarrow> then_refresh captured (show_toast Toast_success (js_replace (js ''${count}'') (int_text n) (t MSG_tag_set [])) s)
     | Op_error message \<Rightarrow> (None, show_toast Toast_error message s))"

definition batchSetChannelTag_refreshed :: "ticket \<Rightarrow> list_response \<Rightarrow> channels_state \<Rightarrow> channels_state" where
  "batchSetChannelTag_refreshed ticket r s =
     (let s' = list_arrived ticket r s in if r = List_rejected then s' else s'\<lparr>cs_showBatchSetTag := False\<rparr>)"

definition batchDeleteChannels :: "i18n \<Rightarrow> channels_state \<Rightarrow> channels_state" where
  "batchDeleteChannels t s =
     (if cs_selectedChannels s = [] then show_toast Toast_error (t MSG_select_for_delete []) s
      else send_call (Api_post (js ''/api/channel/batch'') (JObj [(js ''ids'', JArr (cs_selectedChannels s))])) (s\<lparr>cs_loading := True\<rparr>))"

definition batchDeleteChannels_done :: "i18n \<Rightarrow> channels_state \<Rightarrow> int op_response \<Rightarrow> channels_state \<Rightarrow> continued" where
  "batchDeleteChannels_done t captured r s = (case r of
       Op_ok data \<Rightarrow> then_refresh captured (show_toast Toast_success (js_replace (js ''${data}'') (int_text data) (t MSG_channels_deleted [])) s)
     | Op_error message \<Rightarrow> (None, (show_toast Toast_error message s)\<lparr>cs_loading := False\<rparr>))"

text \<open>After the refresh the timer of 100 ms starts; \<open>loading\<close> is reset at once.\<close>

definition batchDeleteChannels_refreshed :: "ticket \<Rightarrow> list_response \<Rightarrow> channels_state \<Rightarrow> channels_state" where
  "batchDeleteChannels_refreshed ticket r s =
     (let s' = list_arrived ticket r s in if r = List_rejected then s' else s'\<lparr>cs_loading := False\<rparr>)"

definition batchDeleteChannels_timer :: "channels_state \<Rightarrow> channels_state \<Rightarrow> continued" where
  "batchDeleteChannels_timer captured s =
     (if cs_channels captured = [] \<and> cs_activePage captured > 1
      then (let (ticket, s') = refresh_from captured (cs_activePage captured - 1) s in (Some ticket, s'))
      else (None, s))"

subsection \<open>All channels\<close>

definition MSG_test_all :: jstring where "MSG_test_all = [0x5DF2, 0x6210, 0x529F, 0x5F00, 0x59CB, 0x6D4B, 0x8BD5, 0x6240, 0x6709, 0x5DF2, 0x542F, 0x7528, 0x901A, 0x9053, 0xFF0C, 0x8BF7, 0x5237, 0x65B0, 0x9875, 0x9762, 0x67E5, 0x770B, 0x7ED3, 0x679C, 0x3002]"
definition MSG_disabled_deleted :: jstring where "MSG_disabled_deleted = [0x5DF2, 0x5220, 0x9664, 0x6240, 0x6709, 0x7981, 0x7528, 0x6E20, 0x9053, 0xFF0C, 0x5171, 0x8BA1] @ js '' ${data} '' @ [0x4E2A]"
definition MSG_balances_updated :: jstring where "MSG_balances_updated = [0x5DF2, 0x66F4, 0x65B0, 0x5B8C, 0x6BD5, 0x6240, 0x6709, 0x5DF2, 0x542F, 0x7528, 0x901A, 0x9053, 0x4F59, 0x989D, 0xFF01]"
definition MSG_balance_updated :: jstring where "MSG_balance_updated = [0x901A, 0x9053] @ js '' ${name} '' @ [0x4F59, 0x989D, 0x66F4, 0x65B0, 0x6210, 0x529F, 0xFF01]"
definition MSG_fixed :: jstring where "MSG_fixed = [0x5DF2, 0x4FEE, 0x590D] @ js '' ${success} '' @ [0x4E2A, 0x901A, 0x9053, 0xFF0C, 0x5931, 0x8D25] @ js '' ${fails} '' @ [0x4E2A, 0x901A, 0x9053, 0x3002]"
definition MSG_channel_copied :: jstring where "MSG_channel_copied = [0x6E20, 0x9053, 0x590D, 0x5236, 0x6210, 0x529F]"
definition MSG_channel_copy_failed :: jstring where "MSG_channel_copy_failed = [0x6E20, 0x9053, 0x590D, 0x5236, 0x5931, 0x8D25]"

definition testAllChannels_done :: "i18n \<Rightarrow> unit op_response \<Rightarrow> channels_state \<Rightarrow> channels_state" where
  "testAllChannels_done t r s = (case r of
       Op_ok _ \<Rightarrow> show_toast Toast_info (t MSG_test_all []) s | Op_error message \<Rightarrow> show_toast Toast_error message s)"

definition deleteAllDisabledChannels_done :: "i18n \<Rightarrow> channels_state \<Rightarrow> int op_response \<Rightarrow> channels_state \<Rightarrow> continued" where
  "deleteAllDisabledChannels_done t captured r s = (case r of
       Op_ok data \<Rightarrow> then_refresh captured (show_toast Toast_success (js_replace (js ''${data}'') (int_text data) (t MSG_disabled_deleted [])) s)
     | Op_error message \<Rightarrow> (None, show_toast Toast_error message s))"

definition updateAllChannelsBalance_done :: "i18n \<Rightarrow> unit op_response \<Rightarrow> channels_state \<Rightarrow> channels_state" where
  "updateAllChannelsBalance_done t r s = (case r of
       Op_ok _ \<Rightarrow> show_toast Toast_info (t MSG_balances_updated []) s | Op_error message \<Rightarrow> show_toast Toast_error message s)"

text \<open>For Codex channels (type 57) a dialog opens instead of the request.\<close>

definition updateChannelBalance :: "nat \<Rightarrow> channels_state \<Rightarrow> channels_state" where
  "updateChannelBalance ref s =
     (let c = rs_channel (cs_store s) ref
      in if ch_type c = 57 then s
         else send_call (Api_get (js ''/api/channel/update_balance/'' @ int_text (ch_id c) @ js ''/'')) s)"

definition updateChannelBalance_done :: "i18n \<Rightarrow> channels_state \<Rightarrow> jsnum \<Rightarrow> nat \<Rightarrow> jsnum op_response \<Rightarrow> channels_state \<Rightarrow> channels_state" where
  "updateChannelBalance_done t captured now ref r s = (case r of
       Op_ok balance \<Rightarrow>
         (let c = rs_channel (cs_store s) ref
          in show_toast Toast_info (js_replace (js ''${name}'') (ch_name c) (t MSG_balance_updated []))
               (updateChannelProperty (cs_channels captured) (ch_id c)
                  (\<lambda>ch. ch\<lparr>ch_balance := balance, ch_balance_updated_time := num_div now (Num 1000)\<rparr>) s))
     | Op_error message \<Rightarrow> show_toast Toast_error message s)"

definition fixChannelsAbilities_done :: "i18n \<Rightarrow> channels_state \<Rightarrow> (int \<times> int) op_response \<Rightarrow> channels_state \<Rightarrow> continued" where
  "fixChannelsAbilities_done t captured r s = (case r of
       Op_ok (fixed, fails) \<Rightarrow>
         then_refresh captured (show_toast Toast_success
           (js_replace (js ''${fails}'') (int_text fails) (js_replace (js ''${success}'') (int_text fixed) (t MSG_fixed []))) s)
     | Op_error message \<Rightarrow> (None, show_toast Toast_error message s))"

definition copySelectedChannel :: "nat \<Rightarrow> channels_state \<Rightarrow> channels_state" where
  "copySelectedChannel ref s = send_call (Api_post (js ''/api/channel/copy/'' @ int_text (ch_id (rs_channel (cs_store s) ref))) JUndef) s"

definition copySelectedChannel_done :: "i18n \<Rightarrow> channels_state \<Rightarrow> unit op_response \<Rightarrow> channels_state \<Rightarrow> continued" where
  "copySelectedChannel_done t captured r s = (case r of
       Op_ok _ \<Rightarrow> then_refresh captured (show_toast Toast_success (t MSG_channel_copied []) s)
     | Op_error message \<Rightarrow> (None, show_toast Toast_error (if message \<noteq> [] then message else t MSG_channel_copy_failed []) s))"

subsection \<open>Properties\<close>

lemma refresh_from_self: "refresh page s = refresh_from s page s"
  by (simp add: refresh_def refresh_from_def)

text \<open>
  The check for an empty page after a deletion looks at the rows of the render in which the button
  was clicked. These contain the channels that were selected, so the table never turns to the page
  before, even when the refresh has left it empty.
\<close>

theorem empty_page_not_left:
  assumes "cs_channels captured \<noteq> []"
  shows "batchDeleteChannels_timer captured s = (None, s)"
  using assms by (simp add: batchDeleteChannels_timer_def)

text \<open>
  The refresh at the end of an action asks for the page and with the filters of the moment when the
  action was started, whatever the user has chosen in the meantime.
\<close>

theorem late_refresh_loads_old_page:
  assumes "form_empty (cs_form s)"
  shows "last (cs_sent (snd (then_refresh captured s))) =
    Api_get (load_url (cs_activePage captured) (cs_pageSize captured) (cs_idSort captured) (cs_enableTagMode captured)
      (cs_activeTypeKey captured) (cs_statusFilter captured))"
  using assms by (simp add: then_refresh_def refresh_from_def loadChannels_def start_load_def send_call_def Let_def split_beta)

text \<open>The columns a user has chosen are shown again after the page was opened anew.\<close>

theorem columns_roundtrip:
  assumes "columns \<noteq> []" and "json_wf (JObj columns)"
  shows "get_own (load_columns (save_columns columns st)) key =
    (if key \<in> fst ` set columns then get_own columns key else get_own getDefaultColumnVisibility key)"
proof -
  have d: "distinct (map fst columns)" using assms(2) by (simp add: obj_canon_def)
  have "json_str (JObj columns) \<noteq> []" by simp
  then have "load_columns (save_columns columns st) = obj_merge getDefaultColumnVisibility columns"
    using assms json_parse_str [OF assms(2)] by (simp add: load_columns_def save_columns_def spread_def)
  then show ?thesis using d by (simp add: get_own_obj_merge)
qed

subsection \<open>Witnesses\<close>

theorem empty_page_not_left_witness:
  "batchDeleteChannels_timer sample_table (sample_table\<lparr>cs_channels := []\<rparr>) = (None, sample_table\<lparr>cs_channels := []\<rparr>)"
  by (rule empty_page_not_left) (simp add: sample_table_def)

theorem late_refresh_loads_old_page_witness:
  "last (cs_sent (snd (then_refresh sample_table (sample_table\<lparr>cs_activePage := 4\<rparr>)))) =
    Api_get (load_url 1 10 False False (js ''all'') (js ''all''))"
  using late_refresh_loads_old_page [of "sample_table\<lparr>cs_activePage := 4\<rparr>" sample_table]
  by (simp add: sample_table_def form_empty_def)

theorem columns_roundtrip_witness:
  "get_own (load_columns (save_columns [(js ''name'', JBool False)] Map.empty)) (js ''name'') = JBool False"
proof -
  have "json_wf (JObj [(js ''name'', JBool False)])" by (simp add: obj_canon_def)
  from columns_roundtrip [OF _ this, of Map.empty "js ''name''"] show ?thesis by (simp add: get_own_entry)
qed

end
