(* ===== verification/UpstreamUpdates.thy ===== *)
theory UpstreamUpdates
  imports ChannelActions
begin

text \<open>
  Model updates from the upstream provider (\<open>hooks/channels/useChannelUpstreamUpdates.jsx\<close>): the dialog
  that shows the models to add and to remove, and four requests, each guarded by a flag against being
  started twice: apply the updates of one channel or of all, detect them for one channel or for all. A
  request in flight waits for its answer and then for the refresh of the table. Error texts of the
  JavaScript engine are a parameter.
\<close>

subsection \<open>State\<close>

datatype flight = Fl_apply | Fl_apply_all | Fl_detect | Fl_detect_all

text \<open>A call in flight: what its closure captured, and the ticket once it waits for the refresh.\<close>

record flight_call =
  fc_kind :: flight
  fc_ignore :: "jstring list"
  fc_captured :: channels_state
  fc_ticket :: "ticket option"

record upstream_state =
  uu_table :: channels_state
  uu_showUpstreamUpdateModal :: bool
  uu_upstreamUpdateChannel :: "nat option"
  uu_upstreamUpdateAddModels :: "jstring list"
  uu_upstreamUpdateRemoveModels :: "jstring list"
  uu_upstreamUpdatePreferredTab :: jstring
  uu_loading :: "flight \<Rightarrow> bool"
  uu_inFlight :: "flight \<Rightarrow> bool"
  uu_calls :: "flight_call list"

definition up_toast :: "toast_kind \<Rightarrow> jstring \<Rightarrow> upstream_state \<Rightarrow> upstream_state" where
  "up_toast k m s = s\<lparr>uu_table := show_toast k m (uu_table s)\<rparr>"

definition channel_id_of :: "nat option \<Rightarrow> upstream_state \<Rightarrow> int" where
  "channel_id_of r s = (case r of None \<Rightarrow> 0 | Some ref \<Rightarrow> ch_id (rs_channel (cs_store (uu_table s)) ref))"

text \<open>The normal form of a list of names (\<open>normalizeModelList\<close> of texts).\<close>

definition normalized_names :: "jstring list \<Rightarrow> jstring list" where
  "normalized_names models = js_set (filter (\<lambda>s. s \<noteq> []) (map trim models))"

definition getManualIgnoredModelCountFromSettings :: "jsval \<Rightarrow> nat res" where
  "getManualIgnoredModelCountFromSettings settings =
     (let parsed = (case settings of
            JObj _ \<Rightarrow> settings
          | JArr _ \<Rightarrow> settings
          | JStr s \<Rightarrow> (case json_parse s of None \<Rightarrow> JNull | Some v \<Rightarrow> v)
          | _ \<Rightarrow> JNull)
      in if (case parsed of JObj _ \<Rightarrow> True | JArr _ \<Rightarrow> True | _ \<Rightarrow> False)
         then rbind (rbind (model_list_arg (opt_prop parsed (js ''upstream_model_update_ignored_models''))) normalizeModelList) (\<lambda>names. Inr (length names))
         else Inr 0)"

subsection \<open>The dialog\<close>

definition MSG_no_updates :: jstring where "MSG_no_updates = [0x8BE5, 0x6E20, 0x9053, 0x6682, 0x65E0, 0x53EF, 0x5904, 0x7406, 0x7684, 0x4E0A, 0x6E38, 0x6A21, 0x578B, 0x66F4, 0x65B0]"

definition openUpstreamUpdateModal :: "i18n \<Rightarrow> nat option \<Rightarrow> jstring list \<Rightarrow> jstring list \<Rightarrow> jstring \<Rightarrow> upstream_state \<Rightarrow> upstream_state" where
  "openUpstreamUpdateModal t record pendingAdd pendingRemove preferredTab s =
     (let adds = normalized_names pendingAdd; removes = normalized_names pendingRemove
      in if channel_id_of record s = 0 \<or> (adds = [] \<and> removes = []) then up_toast Toast_info (t MSG_no_updates []) s
         else s\<lparr>uu_upstreamUpdateChannel := record, uu_upstreamUpdateAddModels := adds, uu_upstreamUpdateRemoveModels := removes,
                uu_upstreamUpdatePreferredTab := (if preferredTab = js ''remove'' then js ''remove'' else js ''add''),
                uu_showUpstreamUpdateModal := True\<rparr>)"

definition closeUpstreamUpdateModal :: "upstream_state \<Rightarrow> upstream_state" where
  "closeUpstreamUpdateModal s =
     s\<lparr>uu_showUpstreamUpdateModal := False, uu_upstreamUpdateChannel := None, uu_upstreamUpdateAddModels := [],
       uu_upstreamUpdateRemoveModels := [], uu_upstreamUpdatePreferredTab := js ''add''\<rparr>"

subsection \<open>Starting a request\<close>

definition MSG_apply_busy :: jstring where "MSG_apply_busy = [0x6B63, 0x5728, 0x5904, 0x7406, 0xFF0C, 0x8BF7, 0x7A0D, 0x5019]"
definition MSG_apply_all_busy :: jstring where "MSG_apply_all_busy = [0x6B63, 0x5728, 0x6279, 0x91CF, 0x5904, 0x7406, 0xFF0C, 0x8BF7, 0x7A0D, 0x5019]"
definition MSG_detect_busy :: jstring where "MSG_detect_busy = [0x6B63, 0x5728, 0x68C0, 0x6D4B, 0xFF0C, 0x8BF7, 0x7A0D, 0x5019]"
definition MSG_detect_all_busy :: jstring where "MSG_detect_all_busy = [0x6B63, 0x5728, 0x6279, 0x91CF, 0x68C0, 0x6D4B, 0xFF0C, 0x8BF7, 0x7A0D, 0x5019]"

definition up_send :: "flight \<Rightarrow> jstring \<Rightarrow> jsobj \<Rightarrow> jstring list \<Rightarrow> upstream_state \<Rightarrow> upstream_state" where
  "up_send kind url body ignore s =
     s\<lparr>uu_inFlight := (uu_inFlight s)(kind := True), uu_loading := (uu_loading s)(kind := kind \<noteq> Fl_detect),
       uu_table := send_call (Api_post url (JObj body)) (uu_table s),
       uu_calls := uu_calls s @ [\<lparr>fc_kind = kind, fc_ignore = ignore, fc_captured = uu_table s, fc_ticket = None\<rparr>]\<rparr>"

definition names_val :: "jstring list \<Rightarrow> jsval" where
  "names_val ns = JArr (map JStr ns)"

definition applyUpstreamUpdates :: "i18n \<Rightarrow> jstring list \<Rightarrow> jstring list \<Rightarrow> upstream_state \<Rightarrow> upstream_state" where
  "applyUpstreamUpdates t addModels removeModels s =
     (if uu_inFlight s Fl_apply then up_toast Toast_info (t MSG_apply_busy []) s
      else if channel_id_of (uu_upstreamUpdateChannel s) s = 0 then closeUpstreamUpdateModal s
      else (let adds = normalized_names addModels;
                ignore = filter (\<lambda>m. m \<notin> set adds) (uu_upstreamUpdateAddModels s)
            in up_send Fl_apply (js ''/api/channel/upstream_updates/apply'')
                 [(js ''id'', id_val (channel_id_of (uu_upstreamUpdateChannel s) s)), (js ''add_models'', names_val adds),
                  (js ''ignore_models'', names_val ignore), (js ''remove_models'', names_val (normalized_names removeModels))] ignore s))"

definition applyAllUpstreamUpdates :: "i18n \<Rightarrow> upstream_state \<Rightarrow> upstream_state" where
  "applyAllUpstreamUpdates t s =
     (if uu_inFlight s Fl_apply_all then up_toast Toast_info (t MSG_apply_all_busy []) s
      else up_send Fl_apply_all (js ''/api/channel/upstream_updates/apply_all'') [] [] s)"

definition detectChannelUpstreamUpdates :: "i18n \<Rightarrow> nat option \<Rightarrow> upstream_state \<Rightarrow> upstream_state" where
  "detectChannelUpstreamUpdates t channel s =
     (if uu_inFlight s Fl_detect then up_toast Toast_info (t MSG_detect_busy []) s
      else if channel_id_of channel s = 0 then s
      else up_send Fl_detect (js ''/api/channel/upstream_updates/detect'') [(js ''id'', id_val (channel_id_of channel s))] [] s)"

definition detectAllUpstreamUpdates :: "i18n \<Rightarrow> upstream_state \<Rightarrow> upstream_state" where
  "detectAllUpstreamUpdates t s =
     (if uu_inFlight s Fl_detect_all then up_toast Toast_info (t MSG_detect_all_busy []) s
      else up_send Fl_detect_all (js ''/api/channel/upstream_updates/detect_all'') [] [] s)"

subsection \<open>The answer and the refresh\<close>

definition MSG_apply_failed :: jstring where "MSG_apply_failed = [0x64CD, 0x4F5C, 0x5931, 0x8D25]"
definition MSG_apply_all_failed :: jstring where "MSG_apply_all_failed = [0x6279, 0x91CF, 0x5904, 0x7406, 0x5931, 0x8D25]"
definition MSG_detect_failed :: jstring where "MSG_detect_failed = [0x68C0, 0x6D4B, 0x5931, 0x8D25]"
definition MSG_detect_all_failed :: jstring where "MSG_detect_all_failed = [0x6279, 0x91CF, 0x68C0, 0x6D4B, 0x5931, 0x8D25]"
definition MSG_apply_done :: jstring where "MSG_apply_done = [0x5DF2, 0x5904, 0x7406, 0x4E0A, 0x6E38, 0x6A21, 0x578B, 0x66F4, 0x65B0, 0xFF1A, 0x52A0, 0x5165] @ js '' {{added}} '' @ [0x4E2A, 0xFF0C, 0x5220, 0x9664] @ js '' {{removed}} '' @ [0x4E2A, 0xFF0C, 0x672C, 0x6B21, 0x5FFD, 0x7565] @ js '' {{ignored}} '' @ [0x4E2A, 0xFF0C, 0x5F53, 0x524D, 0x5DF2, 0x5FFD, 0x7565, 0x6A21, 0x578B] @ js '' {{totalIgnored}} '' @ [0x4E2A]"
definition MSG_apply_all_done :: jstring where "MSG_apply_all_done = [0x5DF2, 0x6279, 0x91CF, 0x5904, 0x7406, 0x4E0A, 0x6E38, 0x6A21, 0x578B, 0x66F4, 0x65B0, 0xFF1A, 0x6E20, 0x9053] @ js '' {{channels}} '' @ [0x4E2A, 0xFF0C, 0x52A0, 0x5165] @ js '' {{added}} '' @ [0x4E2A, 0xFF0C, 0x5220, 0x9664] @ js '' {{removed}} '' @ [0x4E2A, 0xFF0C, 0x5931, 0x8D25] @ js '' {{fails}} '' @ [0x4E2A]"
definition MSG_detect_done :: jstring where "MSG_detect_done = [0x68C0, 0x6D4B, 0x5B8C, 0x6210, 0xFF1A, 0x65B0, 0x589E] @ js '' {{add}} '' @ [0x4E2A, 0xFF0C, 0x5220, 0x9664] @ js '' {{remove}} '' @ [0x4E2A]"
definition MSG_detect_all_done :: jstring where "MSG_detect_all_done = [0x6279, 0x91CF, 0x68C0, 0x6D4B, 0x5B8C, 0x6210, 0xFF1A, 0x6E20, 0x9053] @ js '' {{channels}} '' @ [0x4E2A, 0xFF0C, 0x65B0, 0x589E] @ js '' {{add}} '' @ [0x4E2A, 0xFF0C, 0x5220, 0x9664] @ js '' {{remove}} '' @ [0x4E2A, 0xFF0C, 0x5931, 0x8D25] @ js '' {{fails}} '' @ [0x4E2A]"

definition failure_message :: "i18n \<Rightarrow> flight \<Rightarrow> jstring" where
  "failure_message t kind = (case kind of
       Fl_apply \<Rightarrow> t MSG_apply_failed [] | Fl_apply_all \<Rightarrow> t MSG_apply_all_failed []
     | Fl_detect \<Rightarrow> t MSG_detect_failed [] | Fl_detect_all \<Rightarrow> t MSG_detect_all_failed [])"

text \<open>\<open>data?.k?.length || 0\<close> and \<open>data?.k || 0\<close>.\<close>

definition length_prop :: "jsval \<Rightarrow> jstring \<Rightarrow> jsval" where
  "length_prop data k = js_or (opt_prop (opt_prop data k) (js ''length'')) (JNum (Num 0))"

definition count_prop :: "jsval \<Rightarrow> jstring \<Rightarrow> jsval" where
  "count_prop data k = js_or (opt_prop data k) (JNum (Num 0))"

definition num_val :: "nat \<Rightarrow> jsval" where
  "num_val n = JNum (Num (of_nat n))"

definition all_counts :: "jsval \<Rightarrow> jstring \<Rightarrow> jstring \<Rightarrow> jstring \<Rightarrow> jstring \<Rightarrow> jsobj" where
  "all_counts data addKey removeKey addName removeName =
     [(js ''channels'', count_prop data (js ''processed_channels'')), (addName, count_prop data addKey), (removeName, count_prop data removeKey),
      (js ''fails'', opt_prop (js_or (opt_prop data (js ''failed_channel_ids'')) (JArr [])) (js ''length''))]"

definition success_message :: "i18n \<Rightarrow> flight_call \<Rightarrow> jsval \<Rightarrow> jstring res" where
  "success_message t c data = (case fc_kind c of
       Fl_apply \<Rightarrow>
         rbind (getManualIgnoredModelCountFromSettings (opt_prop data (js ''settings''))) (\<lambda>n.
           Inr (t MSG_apply_done [(js ''added'', length_prop data (js ''added_models'')), (js ''removed'', length_prop data (js ''removed_models'')),
             (js ''ignored'', num_val (length (normalized_names (fc_ignore c)))), (js ''totalIgnored'', num_val n)]))
     | Fl_apply_all \<Rightarrow> Inr (t MSG_apply_all_done (all_counts data (js ''added_models'') (js ''removed_models'') (js ''added'') (js ''removed'')))
     | Fl_detect \<Rightarrow> Inr (t MSG_detect_done [(js ''add'', length_prop data (js ''add_models'')), (js ''remove'', length_prop data (js ''remove_models''))])
     | Fl_detect_all \<Rightarrow>
         Inr (t MSG_detect_all_done (all_counts data (js ''detected_add_models'') (js ''detected_remove_models'') (js ''add'') (js ''remove''))))"

text \<open>The answer: data, the message of a failure, or the text of the error that was thrown.\<close>

datatype up_answer = Up_ok jsval | Up_failed jstring | Up_thrown jstring

definition land :: "nat \<Rightarrow> flight \<Rightarrow> upstream_state \<Rightarrow> upstream_state" where
  "land i kind s = s\<lparr>uu_inFlight := (uu_inFlight s)(kind := False), uu_loading := (uu_loading s)(kind := False),
     uu_calls := take i (uu_calls s) @ drop (Suc i) (uu_calls s)\<rparr>"

definition land_with_error :: "i18n \<Rightarrow> nat \<Rightarrow> flight \<Rightarrow> jstring \<Rightarrow> upstream_state \<Rightarrow> upstream_state" where
  "land_with_error t i kind message s =
     land i kind (up_toast Toast_error (if message \<noteq> [] then message else failure_message t kind) s)"

definition up_answered :: "i18n \<Rightarrow> (exn \<Rightarrow> jstring) \<Rightarrow> nat \<Rightarrow> up_answer \<Rightarrow> upstream_state \<Rightarrow> upstream_state" where
  "up_answered t errorText i r s =
     (let c = uu_calls s ! i; kind = fc_kind c
      in case r of
           Up_failed message \<Rightarrow> land_with_error t i kind message s
         | Up_thrown message \<Rightarrow> land_with_error t i kind message s
         | Up_ok data \<Rightarrow>
             (case success_message t c data of
                Inl e \<Rightarrow> land_with_error t i kind (errorText e) s
              | Inr m \<Rightarrow>
                  (let s1 = up_toast Toast_success m s;
                       s2 = (if kind = Fl_apply then closeUpstreamUpdateModal s1 else s1);
                       (ticket, table) = refresh_from (fc_captured c) (cs_activePage (fc_captured c)) (uu_table s2)
                   in s2\<lparr>uu_table := table, uu_calls := (uu_calls s2)[i := c\<lparr>fc_ticket := Some ticket\<rparr>]\<rparr>)))"

text \<open>The refresh has ended: normally, or with an error whose text is shown.\<close>

definition up_refreshed :: "i18n \<Rightarrow> nat \<Rightarrow> ticket \<Rightarrow> list_response \<Rightarrow> jstring option \<Rightarrow> upstream_state \<Rightarrow> upstream_state" where
  "up_refreshed t i ticket r thrown s =
     (let kind = fc_kind (uu_calls s ! i); s1 = s\<lparr>uu_table := list_arrived ticket r (uu_table s)\<rparr>
      in case thrown of None \<Rightarrow> land i kind s1 | Some message \<Rightarrow> land_with_error t i kind message s1)"

datatype up_event =
    Up_open "nat option" "jstring list" "jstring list" jstring
  | Up_close
  | Up_apply "jstring list" "jstring list"
  | Up_apply_all
  | Up_detect "nat option"
  | Up_detect_all
  | Up_answer nat up_answer
  | Up_refresh nat list_response "jstring option"

fun up_handle :: "i18n \<Rightarrow> (exn \<Rightarrow> jstring) \<Rightarrow> up_event \<Rightarrow> upstream_state \<Rightarrow> upstream_state" where
  "up_handle t errorText (Up_open r a d tab) s = openUpstreamUpdateModal t r a d tab s"
| "up_handle t errorText Up_close s = closeUpstreamUpdateModal s"
| "up_handle t errorText (Up_apply a d) s = applyUpstreamUpdates t a d s"
| "up_handle t errorText Up_apply_all s = applyAllUpstreamUpdates t s"
| "up_handle t errorText (Up_detect c) s = detectChannelUpstreamUpdates t c s"
| "up_handle t errorText Up_detect_all s = detectAllUpstreamUpdates t s"
| "up_handle t errorText (Up_answer i r) s =
     (if i < length (uu_calls s) \<and> fc_ticket (uu_calls s ! i) = None then up_answered t errorText i r s else s)"
| "up_handle t errorText (Up_refresh i r thrown) s =
     (if i < length (uu_calls s) then
        (case fc_ticket (uu_calls s ! i) of None \<Rightarrow> s | Some ticket \<Rightarrow> up_refreshed t i ticket r thrown s)
      else s)"


subsection \<open>At most one request of a kind\<close>

text \<open>
  The interface of a guarded request: a flag, the number of its calls in flight, and the events. An
  event that finds no call in flight and the flag down may start one call and raise the flag; an event
  that finds one call and the flag up may end the call and take the flag down; nothing else changes.
\<close>

locale single_flight =
  fixes busy :: "'s \<Rightarrow> bool"
    and flying :: "'s \<Rightarrow> nat"
    and step :: "'e \<Rightarrow> 's \<Rightarrow> 's"
  assumes from_idle: "\<not> busy s \<Longrightarrow> flying s = 0 \<Longrightarrow> flying (step e s) = of_bool (busy (step e s))"
    and from_busy: "busy s \<Longrightarrow> flying s = 1 \<Longrightarrow> flying (step e s) = of_bool (busy (step e s))"
begin

definition balanced :: "'s \<Rightarrow> bool" where
  "balanced s \<longleftrightarrow> flying s = of_bool (busy s)"

lemma balanced_step: "balanced s \<Longrightarrow> balanced (step e s)"
  using from_idle [of s e] from_busy [of s e] by (cases "busy s") (simp_all add: balanced_def)

lemma balanced_steps: "balanced s \<Longrightarrow> balanced (foldl (\<lambda>s e. step e s) s es)"
  by (induction es arbitrary: s) (auto intro: balanced_step)

lemma at_most_one: "balanced s \<Longrightarrow> flying s \<le> 1"
  by (cases "busy s") (simp_all add: balanced_def)

end

definition flying :: "flight \<Rightarrow> upstream_state \<Rightarrow> nat" where
  "flying kind s = length (filter (\<lambda>c. fc_kind c = kind) (uu_calls s))"

lemma up_toast_frame [simp]:
  "uu_calls (up_toast k m s) = uu_calls s" "uu_inFlight (up_toast k m s) = uu_inFlight s"
  by (simp_all add: up_toast_def)

lemma close_modal_frame [simp]:
  "uu_calls (closeUpstreamUpdateModal s) = uu_calls s" "uu_inFlight (closeUpstreamUpdateModal s) = uu_inFlight s"
  by (simp_all add: closeUpstreamUpdateModal_def)

lemma up_send_flying:
  "flying k (up_send kind url body ignore s) = flying k s + of_bool (k = kind)"
  "uu_inFlight (up_send kind url body ignore s) k = (k = kind \<or> uu_inFlight s k)"
  by (simp_all add: up_send_def flying_def)

lemma land_flying:
  assumes "i < length (uu_calls s)" and "fc_kind (uu_calls s ! i) = kind"
  shows "flying k (land i kind s) = flying k s - of_bool (k = kind)" and "uu_inFlight (land i kind s) k = (k \<noteq> kind \<and> uu_inFlight s k)"
proof -
  from arg_cong [OF id_take_nth_drop [OF assms(1)], of "\<lambda>cs. length (filter (\<lambda>c. fc_kind c = k) cs)"] assms(2)
  have "flying k s = length (filter (\<lambda>c. fc_kind c = k) (take i (uu_calls s))) + of_bool (k = kind) +
      length (filter (\<lambda>c. fc_kind c = k) (drop (Suc i) (uu_calls s)))"
    unfolding flying_def by simp
  then show "flying k (land i kind s) = flying k s - of_bool (k = kind)" by (simp add: flying_def land_def)
  show "uu_inFlight (land i kind s) k = (k \<noteq> kind \<and> uu_inFlight s k)" by (simp add: land_def)
qed


lemma land_with_error_flying:
  assumes "i < length (uu_calls s)" and "fc_kind (uu_calls s ! i) = kind"
  shows "flying k (land_with_error t i kind m s) = flying k s - of_bool (k = kind)"
    and "uu_inFlight (land_with_error t i kind m s) k = (k \<noteq> kind \<and> uu_inFlight s k)"
  using land_flying [of i "up_toast Toast_error (if m \<noteq> [] then m else failure_message t kind) s" kind k] assms
  by (simp_all add: land_with_error_def) (simp_all add: flying_def)

text \<open>Each event leaves a kind alone, starts a call of it, or ends one.\<close>

definition flight_step :: "flight \<Rightarrow> upstream_state \<Rightarrow> upstream_state \<Rightarrow> bool" where
  "flight_step k s s' \<longleftrightarrow>
     (flying k s' = flying k s \<and> uu_inFlight s' k = uu_inFlight s k) \<or>
     (\<not> uu_inFlight s k \<and> flying k s' = flying k s + 1 \<and> uu_inFlight s' k) \<or>
     (flying k s > 0 \<and> flying k s' = flying k s - 1 \<and> \<not> uu_inFlight s' k)"

lemma flying_pos:
  "i < length (uu_calls s) \<Longrightarrow> flying (fc_kind (uu_calls s ! i)) s > 0"
  by (auto simp: flying_def filter_empty_conv intro!: nth_mem)

lemma flying_update:
  assumes "i < length (uu_calls s)"
  shows "length (filter (\<lambda>c. fc_kind c = k) ((uu_calls s)[i := (uu_calls s ! i)\<lparr>fc_ticket := x\<rparr>])) = flying k s"
proof -
  have "map fc_kind ((uu_calls s)[i := (uu_calls s ! i)\<lparr>fc_ticket := x\<rparr>]) = map fc_kind (uu_calls s)"
    using assms by (simp add: map_update list_update_same_conv)
  moreover have "length (filter (\<lambda>c. fc_kind c = k) cs) = count_list (map fc_kind cs) k" for cs :: "flight_call list"
    by (induction cs) auto
  ultimately show ?thesis by (simp add: flying_def)
qed

lemma flight_step_frame:
  "uu_calls s' = uu_calls s \<Longrightarrow> uu_inFlight s' = uu_inFlight s \<Longrightarrow> flight_step k s s'"
  by (simp add: flight_step_def flying_def)

lemma flight_step_send: "\<not> uu_inFlight s kind \<Longrightarrow> flight_step k s (up_send kind url body ignore s)"
  by (auto simp: flight_step_def up_send_flying)

lemma up_answered_flight:
  assumes "i < length (uu_calls s)"
  shows "flight_step k s (up_answered t errorText i r s)"
proof -
  have err: "flight_step k s (land_with_error t i (fc_kind (uu_calls s ! i)) m s)" for m
    using land_with_error_flying [OF assms refl, where k = k] flying_pos [OF assms]
    by (cases "k = fc_kind (uu_calls s ! i)") (auto simp: flight_step_def)
  have same: "flight_step k s s'" if "uu_inFlight s' = uu_inFlight s" "uu_calls s' = (uu_calls s)[i := (uu_calls s ! i)\<lparr>fc_ticket := x\<rparr>]" for s' x
    using that flying_update [OF assms, of k x] by (simp add: flight_step_def flying_def)
  show ?thesis
    using err same by (auto simp: up_answered_def Let_def split_beta split: up_answer.splits sum.splits)
qed

lemma up_refreshed_flight:
  assumes "i < length (uu_calls s)"
  shows "flight_step k s (up_refreshed t i ticket r thrown s)"
proof -
  let ?s1 = "s\<lparr>uu_table := list_arrived ticket r (uu_table s)\<rparr>"
  have l: "i < length (uu_calls ?s1)" "fc_kind (uu_calls ?s1 ! i) = fc_kind (uu_calls s ! i)" using assms by simp_all
  have f: "flying k ?s1 = flying k s" by (simp add: flying_def)
  show ?thesis
    using land_flying [OF l, where k = k] land_with_error_flying [OF l, where k = k] flying_pos [OF assms] f
    by (cases "k = fc_kind (uu_calls s ! i)") (auto simp: up_refreshed_def flight_step_def Let_def split: option.splits)
qed

lemma up_handle_flight: "flight_step k s (up_handle t errorText e s)"
proof (cases e)
  case (Up_answer i r)
  then show ?thesis using up_answered_flight [of i s k t errorText r] by (auto simp: flight_step_def)
next
  case (Up_refresh i r thrown)
  then show ?thesis using up_refreshed_flight [of i s k t] by (auto simp: flight_step_def split: option.splits)
next
  case (Up_open r a d tab)
  then show ?thesis by (auto simp: openUpstreamUpdateModal_def Let_def intro!: flight_step_frame)
next
  case Up_close
  then show ?thesis by (auto intro!: flight_step_frame)
next
  case (Up_apply a d)
  then show ?thesis by (auto simp: applyUpstreamUpdates_def Let_def intro!: flight_step_frame flight_step_send)
next
  case Up_apply_all
  then show ?thesis by (auto simp: applyAllUpstreamUpdates_def intro!: flight_step_frame flight_step_send)
next
  case (Up_detect c)
  then show ?thesis by (auto simp: detectChannelUpstreamUpdates_def intro!: flight_step_frame flight_step_send)
next
  case Up_detect_all
  then show ?thesis by (auto simp: detectAllUpstreamUpdates_def intro!: flight_step_frame flight_step_send)
qed

interpretation upstream: single_flight "\<lambda>s. uu_inFlight s k" "flying k" "up_handle t errorText" for k t errorText
proof
  fix s e
  show "\<not> uu_inFlight s k \<Longrightarrow> flying k s = 0 \<Longrightarrow> flying k (up_handle t errorText e s) = of_bool (uu_inFlight (up_handle t errorText e s) k)"
    using up_handle_flight [of k s t errorText e] by (auto simp: flight_step_def)
  show "uu_inFlight s k \<Longrightarrow> flying k s = 1 \<Longrightarrow> flying k (up_handle t errorText e s) = of_bool (uu_inFlight (up_handle t errorText e s) k)"
    using up_handle_flight [of k s t errorText e] by (auto simp: flight_step_def)
qed

text \<open>
  The loading state a button shows is that of the flag; the detection for one channel has none. The refresh that follows
  an answer keeps both.
\<close>

definition loading_shown :: "upstream_state \<Rightarrow> bool" where
  "loading_shown s \<longleftrightarrow> (\<forall>k. uu_loading s k \<longleftrightarrow> uu_inFlight s k \<and> k \<noteq> Fl_detect)"

lemma loading_shown_land: "loading_shown s \<Longrightarrow> loading_shown (land i kind s)"
  by (simp add: loading_shown_def land_def)

lemma loading_shown_toast [simp]: "loading_shown (up_toast k m s) = loading_shown s"
  by (simp add: loading_shown_def up_toast_def)

lemma loading_shown_close [simp]: "loading_shown (closeUpstreamUpdateModal s) = loading_shown s"
  by (simp add: loading_shown_def closeUpstreamUpdateModal_def)

lemma loading_shown_send: "loading_shown s \<Longrightarrow> loading_shown (up_send kind url body ignore s)"
  by (simp add: loading_shown_def up_send_def)

lemma loading_shown_table [simp]: "loading_shown (s\<lparr>uu_table := x\<rparr>) = loading_shown s" "loading_shown (s\<lparr>uu_calls := y\<rparr>) = loading_shown s"
  by (simp_all add: loading_shown_def)

lemma loading_shown_land_error: "loading_shown s \<Longrightarrow> loading_shown (land_with_error t i kind m s)"
  by (simp add: land_with_error_def loading_shown_land)

lemma loading_shown_open: "loading_shown s \<Longrightarrow> loading_shown (openUpstreamUpdateModal t r a d tab s)"
  by (simp add: openUpstreamUpdateModal_def Let_def) (simp add: loading_shown_def)

lemma loading_shown_answered: "loading_shown s \<Longrightarrow> loading_shown (up_answered t errorText i r s)"
  by (auto simp: up_answered_def Let_def loading_shown_land_error split: up_answer.splits sum.splits prod.splits)

lemma loading_shown_refreshed: "loading_shown s \<Longrightarrow> loading_shown (up_refreshed t i ticket r thrown s)"
  by (simp add: up_refreshed_def Let_def loading_shown_land loading_shown_land_error split: option.split)

lemma loading_shown_handle: "loading_shown s \<Longrightarrow> loading_shown (up_handle t errorText e s)"
  by (cases e) (simp_all add: loading_shown_open applyUpstreamUpdates_def applyAllUpstreamUpdates_def
    detectChannelUpstreamUpdates_def detectAllUpstreamUpdates_def Let_def loading_shown_send loading_shown_answered
    loading_shown_refreshed split: option.split)

lemma loading_shown_steps: "loading_shown s \<Longrightarrow> loading_shown (foldl (\<lambda>s e. up_handle t errorText e s) s es)"
  by (induction es arbitrary: s) (simp_all add: loading_shown_handle)

text \<open>
  C16. However often the user clicks and in whatever order answers arrive, at most one request of each of the four kinds is
  under way; its guard is up exactly while one is, until the refresh after the answer has ended, and so is the loading state of
  its button, except that the detection for a single channel has no loading state: its guard alone refuses further clicks.
\<close>

theorem one_request_per_kind:
  assumes "uu_calls s = []" and "\<And>k. \<not> uu_inFlight s k" and "\<And>k. \<not> uu_loading s k"
  shows "let s' = foldl (\<lambda>s e. up_handle t errorText e s) s es in
    flying k s' \<le> 1 \<and> (uu_inFlight s' k \<longleftrightarrow> flying k s' = 1) \<and> (uu_loading s' k \<longleftrightarrow> flying k s' = 1 \<and> k \<noteq> Fl_detect)"
proof -
  have "upstream.balanced k s" using assms by (simp add: upstream.balanced_def flying_def)
  from upstream.balanced_steps [OF this, of t errorText es]
  have b: "flying k s' = of_bool (uu_inFlight s' k)" if "s' = foldl (\<lambda>s e. up_handle t errorText e s) s es" for s'
    using that by (simp add: upstream.balanced_def)
  have "loading_shown s" using assms by (simp add: loading_shown_def)
  from loading_shown_steps [OF this, of t errorText es] b show ?thesis
    by (simp add: loading_shown_def Let_def of_bool_def)
qed

text \<open>
  Applying updates decides about every model the provider has newly: the request names the selected
  ones to be added and exactly the others to be ignored, none twice.
\<close>

theorem apply_decides_every_model:
  assumes "\<not> uu_inFlight s Fl_apply" and "channel_id_of (uu_upstreamUpdateChannel s) s \<noteq> 0"
    and "set (normalized_names addModels) \<subseteq> set (uu_upstreamUpdateAddModels s)" and "distinct (uu_upstreamUpdateAddModels s)"
  shows "\<exists>ignore.
    last (cs_sent (uu_table (applyUpstreamUpdates t addModels removeModels s))) =
      Api_post (js ''/api/channel/upstream_updates/apply'')
        (JObj [(js ''id'', id_val (channel_id_of (uu_upstreamUpdateChannel s) s)), (js ''add_models'', names_val (normalized_names addModels)),
               (js ''ignore_models'', names_val ignore), (js ''remove_models'', names_val (normalized_names removeModels))]) \<and>
    distinct (normalized_names addModels @ ignore) \<and> set (normalized_names addModels @ ignore) = set (uu_upstreamUpdateAddModels s)"
proof (intro exI conjI)
  let ?ignore = "filter (\<lambda>m. m \<notin> set (normalized_names addModels)) (uu_upstreamUpdateAddModels s)"
  show "last (cs_sent (uu_table (applyUpstreamUpdates t addModels removeModels s))) =
      Api_post (js ''/api/channel/upstream_updates/apply'')
        (JObj [(js ''id'', id_val (channel_id_of (uu_upstreamUpdateChannel s) s)), (js ''add_models'', names_val (normalized_names addModels)),
               (js ''ignore_models'', names_val ?ignore), (js ''remove_models'', names_val (normalized_names removeModels))])"
    using assms(1,2) by (simp add: applyUpstreamUpdates_def Let_def up_send_def send_call_def)
  show "distinct (normalized_names addModels @ ?ignore)" using assms(4) by (auto simp: normalized_names_def)
  show "set (normalized_names addModels @ ?ignore) = set (uu_upstreamUpdateAddModels s)" using assms(3) by auto
qed

lemma normalized_names_agree: "normalizeModelList (map JStr models) = Inr (normalized_names models)"
proof -
  have "map (\<lambda>model. js_String (js_or model (JStr []))) (map JStr models) = map Inr models"
    by (induction models) (auto simp: js_or_def)
  then show ?thesis unfolding normalizeModelList_def normalized_names_def by (simp only: res_list_Inr rbind_simps)
qed

subsection \<open>Witnesses\<close>

definition sample_updates :: upstream_state where
  "sample_updates = \<lparr>uu_table = sample_table, uu_showUpstreamUpdateModal = True, uu_upstreamUpdateChannel = Some 0,
     uu_upstreamUpdateAddModels = [js ''a'', js ''b''], uu_upstreamUpdateRemoveModels = [], uu_upstreamUpdatePreferredTab = js ''add'',
     uu_loading = (\<lambda>_. False), uu_inFlight = (\<lambda>_. False), uu_calls = []\<rparr>"

theorem one_request_per_kind_witness:
  "let s' = foldl (\<lambda>s e. up_handle (\<lambda>k _. k) (\<lambda>_. []) e s) sample_updates [Up_detect_all, Up_detect_all]
   in flying Fl_detect_all s' \<le> 1 \<and> (uu_inFlight s' Fl_detect_all \<longleftrightarrow> flying Fl_detect_all s' = 1) \<and>
     (uu_loading s' Fl_detect_all \<longleftrightarrow> flying Fl_detect_all s' = 1 \<and> Fl_detect_all \<noteq> Fl_detect)"
  by (rule one_request_per_kind) (simp_all add: sample_updates_def)

theorem apply_decides_every_model_witness:
  "\<exists>ignore.
    last (cs_sent (uu_table (applyUpstreamUpdates (\<lambda>k _. k) [js ''a''] [] sample_updates))) =
      Api_post (js ''/api/channel/upstream_updates/apply'')
        (JObj [(js ''id'', id_val (channel_id_of (uu_upstreamUpdateChannel sample_updates) sample_updates)), (js ''add_models'', names_val (normalized_names [js ''a''])),
               (js ''ignore_models'', names_val ignore), (js ''remove_models'', names_val (normalized_names []))]) \<and>
    distinct (normalized_names [js ''a''] @ ignore) \<and> set (normalized_names [js ''a''] @ ignore) = set (uu_upstreamUpdateAddModels sample_updates)"
proof (rule apply_decides_every_model)
  have "trim (js ''a'') = js ''a''" by (rule trim_no_ws) (simp add: js_def is_ws_def)
  then have "normalized_names [js ''a''] = [js ''a'']" by (simp add: normalized_names_def js_set_Cons js_def)
  then show "set (normalized_names [js ''a'']) \<subseteq> set (uu_upstreamUpdateAddModels sample_updates)" by (simp add: sample_updates_def)
qed (simp_all add: sample_updates_def channel_id_of_def sample_table_def sample_channel_def js_def)

end
