(* ===== verification/ModelMarket.thy ===== *)
theory ModelMarket
  imports JsFixed ChannelHelpers
begin

text \<open>
  The page that lists models with their prices: loading and ordering the models and the filters
  (\<open>hooks/model-pricing/useModelPricingData.jsx\<close>), the numbers shown on the filter buttons
  (\<open>usePricingFilterCounts.js\<close> and the components under \<open>model-pricing/filter\<close>), and the prices
  (\<open>calculateModelPrice\<close> and \<open>getModelPriceItems\<close> of \<open>helpers/utils.jsx\<close>). A model has the fields of the
  server's \<open>model.Pricing\<close>; a text that the server leaves out is empty, a list may be \<open>null\<close>. Lookups in the
  maps of ratios and vendors find own entries only. The order of \<open>localeCompare\<close> is a parameter.
\<close>

subsection \<open>Models\<close>

record market_model =
  mm_name :: jstring
  mm_type :: int
  mm_description :: jstring
  mm_tags :: jstring
  mm_vendor_id :: int
  mm_vendor_name :: jstring
  mm_vendor_icon :: jstring
  mm_quota_type :: int
  mm_model_ratio :: jsnum
  mm_model_price :: jsnum
  mm_completion_ratio :: jsnum
  mm_cache_ratio :: "jsnum option"
  mm_create_cache_ratio :: "jsnum option"
  mm_image_ratio :: "jsnum option"
  mm_audio_ratio :: "jsnum option"
  mm_audio_completion_ratio :: "jsnum option"
  mm_enable_groups :: "jstring list option"
  mm_endpoints :: "jstring list option"

record market_vendor =
  mv_id :: int
  mv_name :: jstring
  mv_icon :: jstring

text \<open>Later vendors with the same id replace earlier ones.\<close>

definition vendor_of :: "market_vendor list \<Rightarrow> int \<Rightarrow> market_vendor option" where
  "vendor_of vendors i = List.find (\<lambda>v. mv_id v = i) (rev vendors)"

definition add_vendor :: "market_vendor list \<Rightarrow> market_model \<Rightarrow> market_model" where
  "add_vendor vendors m =
     (if mm_vendor_id m \<noteq> 0
      then (case vendor_of vendors (mm_vendor_id m) of
              None \<Rightarrow> m
            | Some v \<Rightarrow> m\<lparr>mm_vendor_name := mv_name v, mm_vendor_icon := mv_icon v\<rparr>)
      else m)"

definition is_gpt :: "market_model \<Rightarrow> bool" where
  "is_gpt m \<longleftrightarrow> starts_with (mm_name m) (js ''gpt'')"

definition compare_models :: "(jstring \<Rightarrow> jstring \<Rightarrow> int) \<Rightarrow> market_model \<Rightarrow> market_model \<Rightarrow> int" where
  "compare_models localeCompare a b =
     (if is_gpt a \<and> \<not> is_gpt b then - 1
      else if \<not> is_gpt a \<and> is_gpt b then 1
      else localeCompare (mm_name a) (mm_name b))"

definition setModelsFormat :: "(jstring \<Rightarrow> jstring \<Rightarrow> int) \<Rightarrow> market_vendor list \<Rightarrow> market_model list \<Rightarrow> market_model list" where
  "setModelsFormat localeCompare vendors models =
     js_sort (compare_models localeCompare)
       (js_sort (\<lambda>a b. mm_quota_type a - mm_quota_type b) (map (add_vendor vendors) models))"

subsection \<open>Filters\<close>

text \<open>\<open>None\<close> is the filter \<open>'all'\<close> of the billing type.\<close>

record market_filters =
  mf_group :: jstring
  mf_quota :: "int option"
  mf_endpoint :: jstring
  mf_vendor :: jstring
  mf_tag :: jstring
  mf_search :: jstring

definition FILTER_ALL :: jstring where "FILTER_ALL = js ''all''"
definition VENDOR_UNKNOWN :: jstring where "VENDOR_UNKNOWN = js ''unknown''"

text \<open>\<open>s.split(/[,;|]+/)\<close>: a run of separators splits once.\<close>

definition tag_sep :: "nat \<Rightarrow> bool" where
  "tag_sep c \<longleftrightarrow> c = 44 \<or> c = 59 \<or> c = 124"

function split_runs :: "(nat \<Rightarrow> bool) \<Rightarrow> jstring \<Rightarrow> jstring list" where
  "split_runs P s =
     (case dropWhile (\<lambda>c. \<not> P c) s of
        [] \<Rightarrow> [s]
      | c # r \<Rightarrow> takeWhile (\<lambda>c. \<not> P c) s # split_runs P (dropWhile P r))"
  by pat_completeness auto
termination
proof (relation "measure (\<lambda>(P, s). length s)")
  fix P :: "nat \<Rightarrow> bool" and s c r assume "dropWhile (\<lambda>c. \<not> P c) s = c # r"
  then have "length (c # r) \<le> length s" by (metis length_dropWhile_le)
  moreover have "length (dropWhile P r) \<le> length r" by (rule length_dropWhile_le)
  ultimately show "((P, dropWhile P r), P, s) \<in> measure (\<lambda>(P, s). length s)" by simp
qed simp

declare split_runs.simps [simp del]

definition trimmed_tags :: "jstring \<Rightarrow> jstring list" where
  "trimmed_tags tags = map trim (split_runs tag_sep (to_lower tags))"

definition normalizeTags :: "jstring \<Rightarrow> jstring list" where
  "normalizeTags tags = filter (\<lambda>t. t \<noteq> []) (trimmed_tags tags)"

definition text_matches :: "jstring \<Rightarrow> jstring \<Rightarrow> bool" where
  "text_matches term s \<longleftrightarrow> s \<noteq> [] \<and> str_includes (to_lower s) term"

text \<open>The rows of the page: six filters, one after the other. A model without groups fails the first one.\<close>

definition group_filter :: "jstring \<Rightarrow> market_model list \<Rightarrow> market_model list res" where
  "group_filter group_name models =
     (if group_name = FILTER_ALL then Inr models
      else if \<exists>m \<in> set models. mm_enable_groups m = None then Inl TypeError
      else Inr (filter (\<lambda>m. case mm_enable_groups m of Some gs \<Rightarrow> group_name \<in> set gs | None \<Rightarrow> False) models))"

definition filteredMarketModels :: "market_filters \<Rightarrow> market_model list \<Rightarrow> market_model list res" where
  "filteredMarketModels f models =
     rbind (group_filter (mf_group f) models) (\<lambda>r1.
       let r2 = (case mf_quota f of None \<Rightarrow> r1 | Some q \<Rightarrow> filter (\<lambda>m. mm_quota_type m = q) r1);
           r3 = (if mf_endpoint f = FILTER_ALL then r2
                 else filter (\<lambda>m. case mm_endpoints m of Some es \<Rightarrow> mf_endpoint f \<in> set es | None \<Rightarrow> False) r2);
           r4 = (if mf_vendor f = FILTER_ALL then r3
                 else if mf_vendor f = VENDOR_UNKNOWN then filter (\<lambda>m. mm_vendor_name m = []) r3
                 else filter (\<lambda>m. mm_vendor_name m = mf_vendor f) r3);
           r5 = (if mf_tag f = FILTER_ALL then r4
                 else filter (\<lambda>m. mm_tags m \<noteq> [] \<and> to_lower (mf_tag f) \<in> set (normalizeTags (mm_tags m))) r4);
           term = to_lower (mf_search f);
           r6 = (if mf_search f = [] then r5
                 else filter (\<lambda>m. text_matches term (mm_name m) \<or> text_matches term (mm_description m) \<or>
                        text_matches term (mm_tags m) \<or> text_matches term (mm_vendor_name m)) r5)
       in Inr r6)"

datatype filter_kind = K_group | K_quota | K_endpoint | K_vendor | K_tag | K_search

text \<open>The test that the numbers on the buttons are computed with; \<open>ignore\<close> are the filters to leave out.\<close>

definition pass_group :: "jstring \<Rightarrow> market_model \<Rightarrow> bool" where
  "pass_group g m \<longleftrightarrow> g = FILTER_ALL \<or> (case mm_enable_groups m of None \<Rightarrow> False | Some gs \<Rightarrow> g \<in> set gs)"

definition pass_quota :: "int option \<Rightarrow> market_model \<Rightarrow> bool" where
  "pass_quota q m = (case q of None \<Rightarrow> True | Some q \<Rightarrow> mm_quota_type m = q)"

definition pass_endpoint :: "jstring \<Rightarrow> market_model \<Rightarrow> bool" where
  "pass_endpoint e m \<longleftrightarrow> e = FILTER_ALL \<or> (case mm_endpoints m of None \<Rightarrow> False | Some es \<Rightarrow> e \<in> set es)"

definition pass_vendor :: "jstring \<Rightarrow> market_model \<Rightarrow> bool" where
  "pass_vendor v m \<longleftrightarrow> v = FILTER_ALL \<or> (if v = VENDOR_UNKNOWN then mm_vendor_name m = [] else mm_vendor_name m = v)"

definition pass_tag :: "jstring \<Rightarrow> market_model \<Rightarrow> bool" where
  "pass_tag tag m \<longleftrightarrow> tag = FILTER_ALL \<or> to_lower tag \<in> set (normalizeTags (mm_tags m))"

definition pass_search :: "jstring \<Rightarrow> market_model \<Rightarrow> bool" where
  "pass_search searchValue m \<longleftrightarrow> searchValue = [] \<or>
     (let term = to_lower searchValue in
      str_includes (to_lower (mm_name m)) term \<or> text_matches term (mm_description m) \<or>
      str_includes (to_lower (mm_tags m)) term \<or> text_matches term (mm_vendor_name m))"

definition matchesFilters :: "market_filters \<Rightarrow> market_model \<Rightarrow> filter_kind list \<Rightarrow> bool" where
  "matchesFilters f m ignore \<longleftrightarrow>
     (K_group \<notin> set ignore \<longrightarrow> pass_group (mf_group f) m) \<and>
     (K_quota \<notin> set ignore \<longrightarrow> pass_quota (mf_quota f) m) \<and>
     (K_endpoint \<notin> set ignore \<longrightarrow> pass_endpoint (mf_endpoint f) m) \<and>
     (K_vendor \<notin> set ignore \<longrightarrow> pass_vendor (mf_vendor f) m) \<and>
     (K_tag \<notin> set ignore \<longrightarrow> pass_tag (mf_tag f) m) \<and>
     (K_search \<notin> set ignore \<longrightarrow> pass_search (mf_search f) m)"

definition filter_models :: "filter_kind \<Rightarrow> market_filters \<Rightarrow> market_model list \<Rightarrow> market_model list" where
  "filter_models k f models = filter (\<lambda>m. matchesFilters f m [k]) models"

subsection \<open>The numbers on the buttons\<close>

definition qtyCount :: "market_model list \<Rightarrow> int option \<Rightarrow> nat" where
  "qtyCount models type = length (filter (\<lambda>m. case type of None \<Rightarrow> True | Some q \<Rightarrow> mm_quota_type m = q) models)"

definition groupCount :: "market_model list \<Rightarrow> jstring \<Rightarrow> nat" where
  "groupCount models g =
     (if g = FILTER_ALL then length models
      else length (filter (\<lambda>m. case mm_enable_groups m of None \<Rightarrow> False | Some gs \<Rightarrow> g \<in> set gs) models))"

definition getEndpointTypeCount :: "market_model list \<Rightarrow> jstring \<Rightarrow> nat" where
  "getEndpointTypeCount models e =
     (if e = FILTER_ALL then length models
      else length (filter (\<lambda>m. case mm_endpoints m of None \<Rightarrow> False | Some es \<Rightarrow> e \<in> set es) models))"

definition getVendorCount :: "market_model list \<Rightarrow> jstring \<Rightarrow> nat" where
  "getVendorCount models v =
     (if v = FILTER_ALL then length models
      else if v = VENDOR_UNKNOWN then length (filter (\<lambda>m. mm_vendor_name m = []) models)
      else length (filter (\<lambda>m. mm_vendor_name m = v) models))"

definition getTagCount :: "market_model list \<Rightarrow> jstring \<Rightarrow> nat" where
  "getTagCount models tag =
     (if tag = FILTER_ALL then length models
      else length (filter (\<lambda>m. mm_tags m \<noteq> [] \<and> to_lower tag \<in> set (trimmed_tags (mm_tags m))) models))"

text \<open>The tags on offer, before they are ordered.\<close>

definition offered_tags :: "market_model list \<Rightarrow> jstring list" where
  "offered_tags models =
     js_set (concat (map (\<lambda>m. map to_lower (filter (\<lambda>t. t \<noteq> []) (map trim (split_runs tag_sep (mm_tags m))))) models))"

definition offered_endpoints :: "market_model list \<Rightarrow> jstring list" where
  "offered_endpoints models = js_set (concat (map (\<lambda>m. case mm_endpoints m of None \<Rightarrow> [] | Some es \<Rightarrow> es) models))"

definition offered_vendors :: "market_model list \<Rightarrow> jstring list" where
  "offered_vendors models = js_set (filter (\<lambda>v. v \<noteq> []) (map mm_vendor_name models))"

definition hasUnknownVendor :: "market_model list \<Rightarrow> bool" where
  "hasUnknownVendor models \<longleftrightarrow> (\<exists>m \<in> set models. mm_vendor_name m = [])"

subsection \<open>Prices\<close>

text \<open>What the server says about currencies; a rate that is missing is \<open>0\<close>, a missing symbol empty.\<close>

record market_status =
  ms_usd_exchange_rate :: jsnum
  ms_custom_currency_exchange_rate :: jsnum
  ms_custom_currency_symbol :: jstring

definition num_or :: "jsnum \<Rightarrow> jsnum \<Rightarrow> jsnum" where
  "num_or n d = (if truthy (JNum n) then n else d)"

definition GENERIC_SYMBOL :: jstring where "GENERIC_SYMBOL = [0xA4]"

definition currency_symbol :: "jstring \<Rightarrow> jstring \<Rightarrow> jstring" where
  "currency_symbol currency customSymbol =
     (if currency = js ''CNY'' then [0xA5]
      else if currency = js ''CUSTOM'' then (if customSymbol \<noteq> [] then customSymbol else GENERIC_SYMBOL)
      else js ''$'')"

definition currency_rate :: "market_status \<Rightarrow> jstring \<Rightarrow> jsnum \<Rightarrow> jsnum" where
  "currency_rate status currency usdPrice =
     (if currency = js ''CNY'' then num_mul usdPrice (num_or (ms_usd_exchange_rate status) (Num 7))
      else if currency = js ''CUSTOM'' then num_mul usdPrice (num_or (ms_custom_currency_exchange_rate status) (Num 1))
      else usdPrice)"

definition displayPrice :: "market_status \<Rightarrow> jstring \<Rightarrow> jsnum \<Rightarrow> jstring" where
  "displayPrice status currency usdPrice =
     currency_symbol currency (ms_custom_currency_symbol status) @ to_fixed 3 (currency_rate status currency usdPrice)"

text \<open>The group whose ratio applies: the chosen one, or the cheapest group of the model.\<close>

definition cheaper_group :: "(jstring \<times> jsnum) list \<Rightarrow> jsnum \<times> jstring \<times> jsnum option \<Rightarrow> jstring \<Rightarrow> jsnum \<times> jstring \<times> jsnum option" where
  "cheaper_group groupRatio best g =
     (case map_of groupRatio g of
        None \<Rightarrow> best
      | Some r \<Rightarrow> if num_lt r (fst best) then (r, g, Some r) else best)"

definition used_group :: "(jstring \<times> jsnum) list \<Rightarrow> jstring \<Rightarrow> market_model \<Rightarrow> jstring \<times> jsnum" where
  "used_group groupRatio selectedGroup m =
     (case map_of groupRatio selectedGroup of
        Some r \<Rightarrow>
          if selectedGroup \<noteq> FILTER_ALL then (selectedGroup, r)
          else (case foldl (cheaper_group groupRatio) (PosInf, selectedGroup, Some r) (case mm_enable_groups m of None \<Rightarrow> [] | Some gs \<Rightarrow> gs) of
                  (_, g, q) \<Rightarrow> (g, case q of None \<Rightarrow> Num 1 | Some q \<Rightarrow> q))
      | None \<Rightarrow>
          (case foldl (cheaper_group groupRatio) (PosInf, selectedGroup, None) (case mm_enable_groups m of None \<Rightarrow> [] | Some gs \<Rightarrow> gs) of
             (_, g, q) \<Rightarrow> (g, case q of None \<Rightarrow> Num 1 | Some q \<Rightarrow> q)))"

definition hasRatioValue :: "jsnum option \<Rightarrow> bool" where
  "hasRatioValue v = (case v of None \<Rightarrow> False | Some n \<Rightarrow> num_finite n)"

definition formatRatio :: "jsnum option \<Rightarrow> jsnum option" where
  "formatRatio v = (if hasRatioValue v then Some (string_to_number (to_fixed 6 (the v))) else None)"

text \<open>The price for a million tokens is printed with three decimals, read back, and printed for the unit.\<close>

definition price_digit :: "nat \<Rightarrow> bool" where
  "price_digit c \<longleftrightarrow> is_digit c \<or> c = 46"

definition formatTokenPrice :: "market_status \<Rightarrow> jstring \<Rightarrow> jsnum \<Rightarrow> nat \<Rightarrow> jsnum \<Rightarrow> jstring" where
  "formatTokenPrice status currency unitDivisor precision priceUSD =
     currency_symbol currency (ms_custom_currency_symbol status) @
     to_fixed precision (num_div (parse_float (filter price_digit (displayPrice status currency priceUSD))) unitDivisor)"

datatype model_price =
    Ratios "jsnum option" "jsnum option" "jsnum option" "jsnum option" "jsnum option" "jsnum option" "jsnum option"
  | Token_prices jstring jstring "jstring option" "jstring option" "jstring option" "jstring option" "jstring option" jstring
  | Fixed_price jstring int

record price_data =
  pc_price :: model_price
  pc_usedGroup :: jstring
  pc_usedGroupRatio :: jsnum

definition VIDEO_RATE :: jsnum where
  "VIDEO_RATE = num_mul (Num 500) (rnd (35 / 1000))"

text \<open>\<open>tokenUnit\<close> is \<open>'K'\<close> or \<open>'M'\<close>; the symbol is read from the stored status, the rates from the loaded one.\<close>

definition token_prices :: "market_status \<Rightarrow> jstring \<Rightarrow> jstring \<Rightarrow> nat \<Rightarrow> market_model \<Rightarrow> jsnum \<Rightarrow> model_price" where
  "token_prices status currency tokenUnit precision m usedGroupRatio =
     (let price = num_mul (num_mul (mm_model_ratio m) (Num 2)) usedGroupRatio;
          fmt = formatTokenPrice status currency (if tokenUnit = js ''K'' then Num 1000 else Num 1) precision;
          part = (\<lambda>v. if hasRatioValue v then Some (fmt (num_mul price (the v))) else None)
      in Token_prices (fmt price) (fmt (num_mul price (mm_completion_ratio m))) (part (mm_cache_ratio m)) (part (mm_create_cache_ratio m))
           (part (mm_image_ratio m)) (part (mm_audio_ratio m))
           (if hasRatioValue (mm_audio_ratio m) \<and> hasRatioValue (mm_audio_completion_ratio m)
            then Some (fmt (num_mul (num_mul price (the (mm_audio_ratio m))) (the (mm_audio_completion_ratio m)))) else None)
           (if tokenUnit = js ''K'' then js ''K'' else js ''M''))"

definition calculateModelPrice :: "market_status \<Rightarrow> (jstring \<times> jsnum) list \<Rightarrow> jstring \<Rightarrow> jstring \<Rightarrow> jstring \<Rightarrow> jstring \<Rightarrow> nat \<Rightarrow> market_model \<Rightarrow> price_data" where
  "calculateModelPrice status groupRatio selectedGroup tokenUnit currency quotaDisplayType precision m =
     (let (usedGroup, usedGroupRatio) = used_group groupRatio selectedGroup m;
          price =
            (if mm_quota_type m = 0 then
               (if quotaDisplayType = js ''TOKENS'' then
                  Ratios (formatRatio (Some (mm_model_ratio m))) (formatRatio (Some (mm_completion_ratio m))) (formatRatio (mm_cache_ratio m))
                    (formatRatio (mm_create_cache_ratio m)) (formatRatio (mm_image_ratio m)) (formatRatio (mm_audio_ratio m))
                    (formatRatio (mm_audio_completion_ratio m))
                else token_prices status currency tokenUnit precision m usedGroupRatio)
             else if mm_quota_type m = 1 then
               (let priceUSD = num_mul (parse_float (num_to_string (mm_model_price m))) usedGroupRatio
                in Fixed_price
                     (if mm_type m = 3
                      then currency_symbol currency (ms_custom_currency_symbol status) @ to_fixed 3 (num_mul priceUSD VIDEO_RATE)
                      else displayPrice status currency priceUSD) (mm_type m))
             else Fixed_price (js ''-'') (mm_type m))
      in \<lparr>pc_price = price, pc_usedGroup = usedGroup, pc_usedGroupRatio = usedGroupRatio\<rparr>)"


subsection \<open>Price labels and resetting\<close>

record price_item =
  pi_key :: jstring
  pi_label :: jstring
  pi_value :: jstring
  pi_suffix :: jstring

definition MSG_input_ratio :: jstring where "MSG_input_ratio = [0x8F93, 0x5165, 0x500D, 0x7387]"
definition MSG_completion_ratio :: jstring where "MSG_completion_ratio = [0x8865, 0x5168, 0x500D, 0x7387]"
definition MSG_cache_ratio :: jstring where "MSG_cache_ratio = [0x7F13, 0x5B58, 0x8BFB, 0x53D6, 0x500D, 0x7387]"
definition MSG_create_cache_ratio :: jstring where "MSG_create_cache_ratio = [0x7F13, 0x5B58, 0x521B, 0x5EFA, 0x500D, 0x7387]"
definition MSG_image_ratio :: jstring where "MSG_image_ratio = [0x56FE, 0x7247, 0x8F93, 0x5165, 0x500D, 0x7387]"
definition MSG_audio_input_ratio :: jstring where "MSG_audio_input_ratio = [0x97F3, 0x9891, 0x8F93, 0x5165, 0x500D, 0x7387]"
definition MSG_audio_output_ratio :: jstring where "MSG_audio_output_ratio = [0x97F3, 0x9891, 0x8865, 0x5168, 0x500D, 0x7387]"
definition MSG_input_price :: jstring where "MSG_input_price = [0x8F93, 0x5165, 0x4EF7, 0x683C]"
definition MSG_completion_price :: jstring where "MSG_completion_price = [0x8865, 0x5168, 0x4EF7, 0x683C]"
definition MSG_cache_price :: jstring where "MSG_cache_price = [0x7F13, 0x5B58, 0x8BFB, 0x53D6, 0x4EF7, 0x683C]"
definition MSG_create_cache_price :: jstring where "MSG_create_cache_price = [0x7F13, 0x5B58, 0x521B, 0x5EFA, 0x4EF7, 0x683C]"
definition MSG_image_price :: jstring where "MSG_image_price = [0x56FE, 0x7247, 0x8F93, 0x5165, 0x4EF7, 0x683C]"
definition MSG_audio_input_price :: jstring where "MSG_audio_input_price = [0x97F3, 0x9891, 0x8F93, 0x5165, 0x4EF7, 0x683C]"
definition MSG_audio_output_price :: jstring where "MSG_audio_output_price = [0x97F3, 0x9891, 0x8865, 0x5168, 0x4EF7, 0x683C]"
definition MSG_model_price :: jstring where "MSG_model_price = [0x6A21, 0x578B, 0x4EF7, 0x683C]"
definition MSG_second :: jstring where "MSG_second = [0x79D2]"
definition MSG_times :: jstring where "MSG_times = [0x6B21]"

text \<open>Items without a value are left out; a ratio is shown as the text of its number.\<close>

definition price_items :: "i18n \<Rightarrow> jstring \<Rightarrow> (jstring \<times> jstring \<times> jstring option) list \<Rightarrow> price_item list" where
  "price_items t suffix entries =
     concat (map (\<lambda>(key, label, v). case v of
         None \<Rightarrow> []
       | Some v \<Rightarrow> if v = [] then [] else [\<lparr>pi_key = key, pi_label = t label [], pi_value = v, pi_suffix = suffix\<rparr>]) entries)"

definition getModelPriceItems :: "i18n \<Rightarrow> model_price \<Rightarrow> price_item list" where
  "getModelPriceItems t p = (case p of
       Ratios input completion cache createCache img audioInput audioOutput \<Rightarrow>
         price_items t (js ''x'')
           [(js ''input-ratio'', MSG_input_ratio, map_option num_to_string input),
            (js ''completion-ratio'', MSG_completion_ratio, map_option num_to_string completion),
            (js ''cache-ratio'', MSG_cache_ratio, map_option num_to_string cache),
            (js ''create-cache-ratio'', MSG_create_cache_ratio, map_option num_to_string createCache),
            (js ''image-ratio'', MSG_image_ratio, map_option num_to_string img),
            (js ''audio-input-ratio'', MSG_audio_input_ratio, map_option num_to_string audioInput),
            (js ''audio-output-ratio'', MSG_audio_output_ratio, map_option num_to_string audioOutput)]
     | Token_prices input completion cache createCache img audioInput audioOutput unit_label \<Rightarrow>
         price_items t (js '' / 1'' @ unit_label @ js '' Tokens'')
           [(js ''input'', MSG_input_price, Some input), (js ''completion'', MSG_completion_price, Some completion),
            (js ''cache'', MSG_cache_price, cache), (js ''create-cache'', MSG_create_cache_price, createCache),
            (js ''image'', MSG_image_price, img), (js ''audio-input'', MSG_audio_input_price, audioInput),
            (js ''audio-output'', MSG_audio_output_price, audioOutput)]
     | Fixed_price price modelType \<Rightarrow>
         price_items t (js '' / '' @ t (if modelType = 3 then MSG_second else MSG_times) []) [(js ''fixed'', MSG_model_price, Some price)])"

text \<open>\<open>resetPricingFilters\<close>: search text and filters, and the other states of the view; the page is the first one again.\<close>

record market_view =
  mw_showRatio :: bool
  mw_viewMode :: jstring
  mw_tokenUnit :: jstring
  mw_currentPage :: nat

definition resetPricingFilters :: "market_filters \<times> market_view" where
  "resetPricingFilters =
     (\<lparr>mf_group = FILTER_ALL, mf_quota = None, mf_endpoint = FILTER_ALL, mf_vendor = FILTER_ALL, mf_tag = FILTER_ALL, mf_search = []\<rparr>,
      \<lparr>mw_showRatio = False, mw_viewMode = js ''card'', mw_tokenUnit = js ''M'', mw_currentPage = 1\<rparr>)"

subsection \<open>Properties: rows and counts\<close>

lemma text_matches_iff: "term \<noteq> [] \<Longrightarrow> text_matches term s \<longleftrightarrow> str_includes (to_lower s) term"
  by (auto simp: text_matches_def to_lower_def)

lemma normalizeTags_Nil [simp]: "normalizeTags [] = []"
  by (simp add: normalizeTags_def trimmed_tags_def to_lower_def split_runs.simps)

lemma to_lower_Nil_iff [simp]: "to_lower s = [] \<longleftrightarrow> s = []"
  by (simp add: to_lower_def)

lemmas pass_defs = pass_group_def pass_quota_def pass_endpoint_def pass_vendor_def pass_tag_def pass_search_def

text \<open>Each of the six steps keeps the models that pass the corresponding test.\<close>

lemma group_filter_eq:
  assumes "g = FILTER_ALL \<or> (\<forall>m \<in> set models. mm_enable_groups m \<noteq> None)"
  shows "group_filter g models = Inr (filter (pass_group g) models)"
  using assms by (auto simp: group_filter_def pass_group_def intro!: filter_cong split: option.splits)

lemma step_eqs:
  "(case q of None \<Rightarrow> r | Some q \<Rightarrow> filter (\<lambda>m. mm_quota_type m = q) r) = filter (pass_quota q) r"
  "(if e = FILTER_ALL then r else filter (\<lambda>m. case mm_endpoints m of Some es \<Rightarrow> e \<in> set es | None \<Rightarrow> False) r) = filter (pass_endpoint e) r"
  "(if v = FILTER_ALL then r else if v = VENDOR_UNKNOWN then filter (\<lambda>m. mm_vendor_name m = []) r else filter (\<lambda>m. mm_vendor_name m = v) r) =
     filter (pass_vendor v) r"
  "(if tag = FILTER_ALL then r else filter (\<lambda>m. mm_tags m \<noteq> [] \<and> to_lower tag \<in> set (normalizeTags (mm_tags m))) r) = filter (pass_tag tag) r"
  "(if sv = [] then r
    else filter (\<lambda>m. text_matches (to_lower sv) (mm_name m) \<or> text_matches (to_lower sv) (mm_description m) \<or>
           text_matches (to_lower sv) (mm_tags m) \<or> text_matches (to_lower sv) (mm_vendor_name m)) r) = filter (pass_search sv) r"
  by (auto simp: pass_defs Let_def text_matches_iff intro!: filter_cong split: option.splits if_splits)

lemma rows_eq_matches:
  assumes "mf_group f = FILTER_ALL \<or> (\<forall>m \<in> set models. mm_enable_groups m \<noteq> None)"
  shows "filteredMarketModels f models = Inr (filter (\<lambda>m. matchesFilters f m []) models)"
  unfolding filteredMarketModels_def group_filter_eq [OF assms] rbind_simps Let_def step_eqs
  by (simp add: matchesFilters_def conj_ac)

text \<open>
  The two implementations of the filters agree: the rows are exactly the models that pass the test
  of the counts with nothing left out. Only a model without a list of groups makes the rows fail.
\<close>

theorem rows_agree_with_counts:
  "filteredMarketModels f models =
    (if mf_group f \<noteq> FILTER_ALL \<and> (\<exists>m \<in> set models. mm_enable_groups m = None) then Inl TypeError
     else Inr (filter (\<lambda>m. matchesFilters f m []) models))"
  using rows_eq_matches [of f models] by (auto simp: filteredMarketModels_def group_filter_def)


lemma trimmed_tags_Nil [simp]: "trimmed_tags [] = [[]]"
  by (simp add: trimmed_tags_def to_lower_def split_runs.simps)

lemma tag_button: "tag \<noteq> [] \<Longrightarrow> pass_tag tag m \<longleftrightarrow> tag = FILTER_ALL \<or> mm_tags m \<noteq> [] \<and> to_lower tag \<in> set (trimmed_tags (mm_tags m))"
  by (cases "mm_tags m = []") (auto simp: pass_tag_def normalizeTags_def)

text \<open>What a button counts: the models that pass its own test, among those that pass the others.\<close>

lemma count_eqs:
  "qtyCount models q = length (filter (pass_quota q) models)"
  "groupCount models g = length (filter (pass_group g) models)"
  "getEndpointTypeCount models e = length (filter (pass_endpoint e) models)"
  "getVendorCount models v = length (filter (pass_vendor v) models)"
  "tag \<noteq> [] \<Longrightarrow> getTagCount models tag = length (filter (pass_tag tag) models)"
  by (auto simp: qtyCount_def groupCount_def getEndpointTypeCount_def getVendorCount_def getTagCount_def pass_group_def pass_quota_def
      pass_endpoint_def pass_vendor_def tag_button cong: filter_cong)

definition shown :: "market_filters \<Rightarrow> market_model list \<Rightarrow> nat" where
  "shown f models = (case filteredMarketModels f models of Inl _ \<Rightarrow> 0 | Inr rows \<Rightarrow> length rows)"

text \<open>
  C5. The number on a filter button tells how many rows the page shows once it is clicked, whatever the
  other filters and the search text are.
\<close>

theorem button_counts_exact:
  assumes "\<forall>m \<in> set models. mm_enable_groups m \<noteq> None" and "tag \<noteq> []"
  shows "shown (f\<lparr>mf_quota := q\<rparr>) models = qtyCount (filter_models K_quota f models) q \<and>
    shown (f\<lparr>mf_group := g\<rparr>) models = groupCount (filter_models K_group f models) g \<and>
    shown (f\<lparr>mf_endpoint := e\<rparr>) models = getEndpointTypeCount (filter_models K_endpoint f models) e \<and>
    shown (f\<lparr>mf_vendor := v\<rparr>) models = getVendorCount (filter_models K_vendor f models) v \<and>
    shown (f\<lparr>mf_tag := tag\<rparr>) models = getTagCount (filter_models K_tag f models) tag"
proof -
  have rows: "shown h models = length (filter (\<lambda>m. matchesFilters h m []) models)" for h
    using rows_eq_matches [of h models] assms(1) by (simp add: shown_def)
  show ?thesis unfolding rows filter_models_def count_eqs(1-4) count_eqs(5) [OF assms(2)]
    by (simp add: matchesFilters_def conj_ac)
qed

text \<open>Resetting the filters shows every model.\<close>

lemma reset_shows_all: "filteredMarketModels (fst resetPricingFilters) models = Inr models"
  by (simp add: rows_eq_matches resetPricingFilters_def matchesFilters_def pass_defs)

subsection \<open>Properties: the cheapest group\<close>

definition model_groups :: "market_model \<Rightarrow> jstring list" where
  "model_groups m = (case mm_enable_groups m of None \<Rightarrow> [] | Some gs \<Rightarrow> gs)"

text \<open>The group \<open>g\<close> has the least ratio \<open>r\<close> among the groups of the list that have one.\<close>

definition least_ratio :: "(jstring \<times> jsnum) list \<Rightarrow> jstring list \<Rightarrow> jstring \<Rightarrow> jsnum \<Rightarrow> bool" where
  "least_ratio groupRatio gs g r \<longleftrightarrow>
     g \<in> set gs \<and> map_of groupRatio g = Some r \<and> (\<forall>h \<in> set gs. case map_of groupRatio h of None \<Rightarrow> True | Some r' \<Rightarrow> num_le r r')"

lemma num_le_cases: "num_finite a \<Longrightarrow> num_finite b \<Longrightarrow> num_le a b \<or> num_lt b a"
  by (cases a; cases b) (auto simp: num_finite_def num_lt_def num_eq_def)

lemma num_le_trans': "num_finite a \<Longrightarrow> num_finite b \<Longrightarrow> num_finite c \<Longrightarrow> num_le a b \<Longrightarrow> num_le b c \<Longrightarrow> num_le a c"
  by (cases a; cases b; cases c) (auto simp: num_finite_def)

lemma cheapest_fold:
  assumes "\<forall>r \<in> ran (map_of groupRatio). num_finite r"
  shows "case foldl (cheaper_group groupRatio) (PosInf, ga, qa) gs of
    (mn, g, q) \<Rightarrow> if \<exists>h \<in> set gs. map_of groupRatio h \<noteq> None then q = Some mn \<and> least_ratio groupRatio gs g mn
                 else mn = PosInf \<and> g = ga \<and> q = qa"
proof (induction gs rule: rev_induct)
  case (snoc h gs)
  obtain mn g q where b: "foldl (cheaper_group groupRatio) (PosInf, ga, qa) gs = (mn, g, q)" by (cases "foldl (cheaper_group groupRatio) (PosInf, ga, qa) gs") auto
  let ?F = "foldl (cheaper_group groupRatio) (PosInf, ga, qa)"
  have ih: "if \<exists>h \<in> set gs. map_of groupRatio h \<noteq> None then q = Some mn \<and> least_ratio groupRatio gs g mn else mn = PosInf \<and> g = ga \<and> q = qa"
    using snoc b by simp
  have last_step: "?F (gs @ [h]) = (case map_of groupRatio h of None \<Rightarrow> (mn, g, q) | Some r \<Rightarrow> if num_lt r mn then (r, h, Some r) else (mn, g, q))"
    by (simp add: b cheaper_group_def [of groupRatio "(mn, g, q)"] split: option.split)
  show ?case
  proof (cases "map_of groupRatio h")
    case None
    then show ?thesis using ih unfolding last_step by (cases "\<exists>x \<in> set gs. map_of groupRatio x \<noteq> None") (auto simp: least_ratio_def)
  next
    case (Some r)
    have fin: "map_of groupRatio x = Some y \<Longrightarrow> num_finite y" for x y using assms by (auto simp: ran_def)
    have r: "num_finite r" using fin Some by blast
    have rr: "num_le r r" using r by (cases r; simp add: num_finite_def)
    show ?thesis
    proof (cases "\<exists>x \<in> set gs. map_of groupRatio x \<noteq> None")
      case False
      have "num_lt r PosInf" using r by (cases r; auto simp: num_lt_def num_eq_def num_finite_def)
      then show ?thesis using False Some ih rr unfolding last_step by (auto simp: least_ratio_def split: option.splits)
    next
      case True
      then have old: "q = Some mn" "least_ratio groupRatio gs g mn" using ih by auto
      then have mn: "num_finite mn" using fin by (auto simp: least_ratio_def)
      have "num_lt r mn \<Longrightarrow> least_ratio groupRatio (gs @ [h]) h r"
        using old(2) Some rr num_le_trans' [OF r mn fin] by (auto simp: least_ratio_def num_lt_def split: option.splits)
      moreover have "\<not> num_lt r mn \<Longrightarrow> least_ratio groupRatio (gs @ [h]) g mn"
        using old(2) Some num_le_cases [OF mn r] by (auto simp: least_ratio_def)
      ultimately show ?thesis using Some old(1) unfolding last_step by simp
    qed
  qed
qed simp

text \<open>
  C33. Without a chosen group a model is priced with the least ratio among its groups, and with the ratio 1
  when none of its groups has one.
\<close>

theorem cheapest_group_used:
  assumes "\<forall>r \<in> ran (map_of groupRatio). num_finite r" and "map_of groupRatio selectedGroup = None"
  shows "case used_group groupRatio selectedGroup m of
    (g, r) \<Rightarrow> if \<exists>h \<in> set (model_groups m). map_of groupRatio h \<noteq> None then least_ratio groupRatio (model_groups m) g r
             else g = selectedGroup \<and> r = Num 1"
  using cheapest_fold [OF assms(1), where ga = selectedGroup and qa = None and gs = "model_groups m"] assms(2)
  by (auto simp: used_group_def model_groups_def split: prod.splits option.splits if_splits)


subsection \<open>Properties: the order of the models\<close>

lemma sorted_js_insort:
  assumes "\<And>x y. cmp x y \<le> 0 \<or> cmp y x \<le> 0" and "\<And>x y z. cmp x y \<le> 0 \<Longrightarrow> cmp y z \<le> 0 \<Longrightarrow> cmp x z \<le> 0"
    and "sorted_wrt (\<lambda>x y. cmp x y \<le> 0) xs"
  shows "sorted_wrt (\<lambda>x y. cmp x y \<le> 0) (js_insort cmp a xs)"
  using assms(3)
proof (induction xs)
  case (Cons y ys)
  have set: "set (js_insort cmp a ys) = insert a (set ys)" by (metis mset_js_insort set_mset_add_mset_insert set_mset_mset)
  show ?case
  proof (cases "cmp a y \<le> 0")
    case True
    then show ?thesis using Cons.prems assms(2) by auto
  next
    case False
    then have "cmp y a \<le> 0" using assms(1) by blast
    then show ?thesis using Cons False set by auto
  qed
qed simp

lemma sorted_js_sort:
  assumes "\<And>x y. cmp x y \<le> 0 \<or> cmp y x \<le> 0" and "\<And>x y z. cmp x y \<le> 0 \<Longrightarrow> cmp y z \<le> 0 \<Longrightarrow> cmp x z \<le> 0"
  shows "sorted_wrt (\<lambda>x y. cmp x y \<le> 0) (js_sort cmp xs)"
  unfolding js_sort_def by (induction xs) (auto intro: sorted_js_insort [OF assms])

text \<open>
  The list shows each loaded model once, the models whose name starts with gpt first, and each
  of the two parts in the order of the browser's collation, provided that is a total order.
\<close>

theorem models_in_order:
  assumes "\<And>a b. localeCompare a b \<le> 0 \<or> localeCompare b a \<le> 0"
    and "\<And>a b c. localeCompare a b \<le> 0 \<Longrightarrow> localeCompare b c \<le> 0 \<Longrightarrow> localeCompare a c \<le> 0"
  shows "mset (setModelsFormat localeCompare vendors models) = mset (map (add_vendor vendors) models) \<and>
    sorted_wrt (\<lambda>a b. (is_gpt b \<longrightarrow> is_gpt a) \<and> (is_gpt a = is_gpt b \<longrightarrow> localeCompare (mm_name a) (mm_name b) \<le> 0))
      (setModelsFormat localeCompare vendors models)"
proof -
  have "sorted_wrt (\<lambda>a b. compare_models localeCompare a b \<le> 0) (setModelsFormat localeCompare vendors models)"
    unfolding setModelsFormat_def
  proof (rule sorted_js_sort)
    show "compare_models localeCompare x y \<le> 0 \<or> compare_models localeCompare y x \<le> 0" for x y
      using assms(1) [of "mm_name x" "mm_name y"] by (auto simp: compare_models_def)
    show "compare_models localeCompare x z \<le> 0" if "compare_models localeCompare x y \<le> 0" "compare_models localeCompare y z \<le> 0" for x y z
      using that assms(2) [of "mm_name x" "mm_name y" "mm_name z"] by (auto simp: compare_models_def split: if_splits)
  qed
  then have "sorted_wrt (\<lambda>a b. (is_gpt b \<longrightarrow> is_gpt a) \<and> (is_gpt a = is_gpt b \<longrightarrow> localeCompare (mm_name a) (mm_name b) \<le> 0))
      (setModelsFormat localeCompare vendors models)"
    by (rule sorted_wrt_mono_rel [rotated]) (auto simp: compare_models_def split: if_splits)
  then show ?thesis by (simp add: setModelsFormat_def)
qed

subsection \<open>Properties: printed prices\<close>

lemma price_digits_fixed:
  assumes "0 \<le> r" and "r < 10 ^ 21"
  shows "filter price_digit (to_fixed 3 (Num r)) = to_fixed 3 (Num r)"
proof -
  obtain ip fp where "fixed_digits 3 (nat \<lfloor>\<bar>r\<bar> * 10 ^ 3 + 1 / 2\<rfloor>) = ip @ [46] @ fp" "\<forall>c \<in> set (ip @ fp). is_digit c"
    using fixed_digits_parts [of 3] by (metis zero_less_numeral)
  then have "\<forall>c \<in> set (to_fixed 3 (Num r)). price_digit c" using assms by (auto simp: price_digit_def Let_def)
  then show ?thesis by (simp add: filter_id_conv)
qed

text \<open>
  A price is shown with the currency's symbol: the amount for a million tokens rounded to three
  decimals, divided by the unit, and rounded again, provided the symbol has neither digits nor points.
\<close>

theorem token_price_text:
  assumes "currency_rate status currency priceUSD = Num r" and "is_double r" and "0 \<le> r" and "r < 10 ^ 21"
    and "\<forall>c \<in> set (currency_symbol currency (ms_custom_currency_symbol status)). \<not> price_digit c"
  shows "formatTokenPrice status currency unitDivisor precision priceUSD =
    currency_symbol currency (ms_custom_currency_symbol status) @ to_fixed precision (num_div (fixed_value 3 r) unitDivisor)"
proof -
  have "filter price_digit (currency_symbol currency (ms_custom_currency_symbol status)) = []" using assms(5) by (simp add: filter_empty_conv)
  then have "filter price_digit (displayPrice status currency priceUSD) = to_fixed 3 (Num r)"
    using price_digits_fixed [OF assms(3,4)] assms(1) by (simp add: displayPrice_def del: to_fixed.simps)
  then show ?thesis using parse_float_to_fixed [OF assms(2), of 3] by (simp add: formatTokenPrice_def)
qed

lemma digits_val_bound: "\<forall>c \<in> set s. is_digit c \<Longrightarrow> digits_val s < 10 ^ length s"
proof (induction s rule: rev_induct)
  case (snoc c s)
  then have "digits_val s < 10 ^ length s" "c - 48 < 10" by (auto simp: is_digit_def)
  moreover have "digits_val [c] = c - 48" by (simp add: digits_val_def)
  ultimately show ?case by (simp add: digits_val_append)
qed (simp add: digits_val_def)

lemma parse_float_two_points:
  assumes "\<forall>c \<in> set ip. is_digit c" and "ip \<noteq> []"
  shows "parse_float (46 # ip @ 46 # w) = rnd (of_nat (digits_val ip) / 10 ^ length ip)"
proof -
  have long: "longest_dec (46 # ip @ 46 # w) (Suc (length ip) + n) = longest_dec (46 # ip @ 46 # w) (Suc (length ip))" for n
  proof (induction n)
    case (Suc n)
    have "takeWhile is_digit (ip @ 46 # v) = ip" "dropWhile is_digit (ip @ 46 # v) = 46 # v" for v
      using takeWhile_digits [of ip "46 # v"] assms(1) by (auto simp: is_digit_def)
    then have "dec_parts (46 # ip @ 46 # v) = None" for v
      by (simp add: dec_parts_def Let_def is_digit_def)
    then have "str_dec (46 # ip @ 46 # v) = None" for v by (simp add: str_dec_def str_udec_def js_def)
    moreover have "take (Suc (Suc (length ip) + n)) (46 # ip @ 46 # w) = 46 # ip @ 46 # take n w" by simp
    ultimately show ?case using Suc by simp
  qed simp
  have "dec_parts (46 # ip) = Some ([], Some ip, 0)"
    using dec_parts_point [of "[]" ip "[]"] assms(1) by (simp add:)
  then have "str_dec (46 # ip) = Some (rnd (of_nat (digits_val ip) / 10 ^ length ip))"
    using assms(2) by (simp add: str_dec_def str_udec_def js_def dec_value_def frac_digits_def power_int_minus divide_inverse)
  then have "longest_dec (46 # ip @ 46 # w) (Suc (length ip)) = rnd (of_nat (digits_val ip) / 10 ^ length ip)" by simp
  moreover have "length (46 # ip @ 46 # w) = Suc (length ip) + Suc (length w)" by simp
  moreover have "trim_start (46 # ip @ 46 # w) = 46 # ip @ 46 # w" by (simp add: trim_start_def is_ws_def)
  ultimately show ?thesis using long [of "Suc (length w)"] unfolding parse_float_def Let_def by metis
qed

text \<open>
  With a symbol that contains a point, such as Fr., the amount is misread: the whole part of the price
  moves behind the point and the decimals are lost.
\<close>

theorem symbol_with_point:
  assumes "currency_rate status currency priceUSD = Num r" and "0 \<le> r" and "r < 10 ^ 21"
    and "filter price_digit (currency_symbol currency (ms_custom_currency_symbol status)) = [46]"
  shows "\<exists>k > 0. nat \<lfloor>r * 1000 + 1 / 2\<rfloor> div 1000 < 10 ^ k \<and>
    formatTokenPrice status currency unitDivisor precision priceUSD =
      currency_symbol currency (ms_custom_currency_symbol status) @
      to_fixed precision (num_div (rnd (of_nat (nat \<lfloor>r * 1000 + 1 / 2\<rfloor> div 1000) / 10 ^ k)) unitDivisor)"
proof -
  let ?n = "nat \<lfloor>r * 1000 + 1 / 2\<rfloor>"
  obtain ip fp where p: "fixed_digits 3 ?n = ip @ [46] @ fp" "\<forall>c \<in> set (ip @ fp). is_digit c" "ip \<noteq> []" "length fp = 3" "digits_val (ip @ fp) = ?n"
    using fixed_digits_parts [of 3] by (metis zero_less_numeral)
  have fixed: "to_fixed 3 (Num r) = ip @ [46] @ fp" using assms(2,3) p(1) by (simp add: Let_def)
  have "filter price_digit (displayPrice status currency priceUSD) = 46 # ip @ 46 # fp"
    using price_digits_fixed [OF assms(2,3)] assms(1,4) by (simp add: displayPrice_def fixed del: to_fixed.simps)
  moreover have "parse_float (46 # ip @ 46 # fp) = rnd (of_nat (digits_val ip) / 10 ^ length ip)"
    using p(2,3) by (intro parse_float_two_points) auto
  moreover have "digits_val fp < 10 ^ 3" using digits_val_bound [of fp] p(2,4) by simp
  then have "digits_val ip = ?n div 1000" using p(4,5) by (simp add: digits_val_append)
  moreover have "digits_val ip < 10 ^ length ip" using p(2) by (intro digits_val_bound) simp
  ultimately show ?thesis using p(3) by (intro exI [of _ "length ip"]) (simp add: formatTokenPrice_def)
qed


subsection \<open>Witnesses\<close>

definition sample_market :: market_model where
  "sample_market = \<lparr>mm_name = js ''gpt-x'', mm_type = 0, mm_description = [], mm_tags = js ''fast'', mm_vendor_id = 0, mm_vendor_name = [],
     mm_vendor_icon = [], mm_quota_type = 0, mm_model_ratio = Num 1, mm_model_price = Num 0, mm_completion_ratio = Num 2, mm_cache_ratio = None,
     mm_create_cache_ratio = None, mm_image_ratio = None, mm_audio_ratio = None, mm_audio_completion_ratio = None,
     mm_enable_groups = Some [js ''default'', js ''vip''], mm_endpoints = Some [js ''openai'']\<rparr>"

definition sample_status :: "jstring \<Rightarrow> market_status" where
  "sample_status symbol = \<lparr>ms_usd_exchange_rate = Num 7, ms_custom_currency_exchange_rate = Num 1, ms_custom_currency_symbol = symbol\<rparr>"

theorem button_counts_exact_witness:
  "shown ((fst resetPricingFilters)\<lparr>mf_group := js ''vip''\<rparr>) [sample_market] = groupCount (filter_models K_group (fst resetPricingFilters) [sample_market]) (js ''vip'')"
  using button_counts_exact [where models = "[sample_market]" and tag = "js ''fast''" and f = "fst resetPricingFilters" and g = "js ''vip''"]
  by (simp add: sample_market_def js_def)

theorem cheapest_group_used_witness:
  "case used_group [(js ''default'', Num 1), (js ''vip'', Num (1 / 2))] FILTER_ALL sample_market of
     (g, r) \<Rightarrow> least_ratio [(js ''default'', Num 1), (js ''vip'', Num (1 / 2))] (model_groups sample_market) g r"
proof -
  let ?ratios = "[(js ''default'', Num 1), (js ''vip'', Num (1 / 2))]"
  have "\<forall>r \<in> ran (map_of ?ratios). num_finite r" by (auto simp: ran_def num_finite_def split: if_splits)
  moreover have "map_of ?ratios FILTER_ALL = None" by (simp add: FILTER_ALL_def js_def)
  ultimately show ?thesis
    using cheapest_group_used [of ?ratios FILTER_ALL sample_market] by (simp add: model_groups_def sample_market_def)
qed

theorem models_in_order_witness:
  "mset (setModelsFormat (\<lambda>a b. int (length a) - int (length b)) [] [sample_market, sample_market\<lparr>mm_name := js ''a''\<rparr>]) =
     mset (map (add_vendor []) [sample_market, sample_market\<lparr>mm_name := js ''a''\<rparr>])"
  using models_in_order [of "\<lambda>a b. int (length a) - int (length b)" "[]" "[sample_market, sample_market\<lparr>mm_name := js ''a''\<rparr>]"] by linarith

theorem token_price_text_witness:
  "formatTokenPrice (sample_status []) (js ''USD'') (Num 1000) 4 (Num 3) = js ''$'' @ to_fixed 4 (num_div (fixed_value 3 3) (Num 1000))"
proof -
  have "is_double 3" using rnd_of_int [of 3] by (simp add: is_double_def)
  moreover have "currency_symbol (js ''USD'') (ms_custom_currency_symbol (sample_status [])) = js ''$''"
    by (simp add: currency_symbol_def js_def)
  ultimately show ?thesis
    using token_price_text [of "sample_status []" "js ''USD''" "Num 3" 3 "Num 1000" 4]
    by (simp add: currency_rate_def js_def price_digit_def is_digit_def del: to_fixed.simps)
qed

theorem symbol_with_point_witness:
  "\<exists>k > 0. (12 :: nat) < 10 ^ k \<and>
    formatTokenPrice (sample_status (js ''Fr.'')) (js ''CUSTOM'') (Num 1) 4 (Num 12) =
      js ''Fr.'' @ to_fixed 4 (num_div (rnd (12 / 10 ^ k)) (Num 1))"
proof -
  have "rnd 12 = Num 12" using rnd_of_int [of 12] by simp
  then have "currency_rate (sample_status (js ''Fr.'')) (js ''CUSTOM'') (Num 12) = Num 12"
    by (simp add: currency_rate_def sample_status_def num_or_def js_def)
  moreover have sym: "currency_symbol (js ''CUSTOM'') (ms_custom_currency_symbol (sample_status (js ''Fr.''))) = js ''Fr.''"
    by (simp add: currency_symbol_def sample_status_def js_def)
  moreover have "nat \<lfloor>(24001 / 2 :: rat)\<rfloor> div 1000 = 12" by (simp add: floor_divide_of_int_eq [of 24001 2, simplified])
  moreover have "filter price_digit (js ''Fr.'') = [46]" by (simp add: js_def price_digit_def is_digit_def)
  ultimately show ?thesis
    using symbol_with_point [of "sample_status (js ''Fr.'')" "js ''CUSTOM''" "Num 12" 12 "Num 1" 4] by (simp del: to_fixed.simps)
qed

end
