(* ===== verification/Sidebar.thy ===== *)
theory Sidebar
  imports JsJson
begin

text \<open>
  Which entries of the side bar a user sees: the administrator's configuration merged over the defaults, the
  user's own configuration and the configuration shown (\<open>hooks/common/useSidebar.js\<close>), and the permissions
  the server reports (\<open>hooks/common/useUserPermissions.js\<close>). A configuration maps the key of a section to
  an object with the switch \<open>enabled\<close> and one switch for every module; whatever a text stored on the server
  may hold in their place is kept as it was read.
\<close>

type_synonym sidebar_config = "(jstring \<times> jsobj) list"

abbreviation K_ENABLED :: jstring where "K_ENABLED \<equiv> js ''enabled''"

text \<open>\<open>v && typeof v === 'object'\<close>, and \<open>Object.entries(v)\<close> of such a value.\<close>

definition js_object :: "jsval \<Rightarrow> bool" where
  "js_object v = (case v of JObj _ \<Rightarrow> True | JArr _ \<Rightarrow> True | _ \<Rightarrow> False)"

definition object_entries :: "jsval \<Rightarrow> jsobj" where
  "object_entries v = (case v of
       JObj ob \<Rightarrow> ob
     | JArr vs \<Rightarrow> map (\<lambda>i. (dec i, vs ! i)) [0..<length vs]
     | _ \<Rightarrow> [])"

definition switches :: "string list \<Rightarrow> jsobj" where
  "switches ks = map (\<lambda>k. (js k, JBool True)) (''enabled'' # ks)"

text \<open>\<open>config[section]?.[key]\<close>\<close>

definition setting :: "sidebar_config \<Rightarrow> jstring \<Rightarrow> jstring \<Rightarrow> jsval" where
  "setting cfg s k = (case map_of cfg s of None \<Rightarrow> JUndef | Some sec \<Rightarrow> get_own sec k)"

subsection \<open>The configuration of the administrator\<close>

definition DEFAULT_ADMIN_CONFIG :: sidebar_config where
  "DEFAULT_ADMIN_CONFIG =
     [(js ''chat'', switches [''playground'', ''textToImage'', ''textToVideo'', ''chat'']),
      (js ''console'', switches [''detail'', ''tokenPlan'', ''token'', ''log'', ''midjourney'', ''task'']),
      (js ''personal'', switches [''topup'', ''billing'', ''personal'']),
      (js ''finance'', switches [''finance'', ''orders'', ''revenue'', ''invoices'', ''supplier'']),
      (js ''supplier'',
       switches [''supplier-dashboard'', ''supplier-pricing'', ''supplier-settlement'', ''supplier-account'']),
      (js ''admin'',
       switches [''channel'', ''models'', ''deployment'', ''redemption'', ''user'', ''subscription'', ''setting''])]"

definition merge_section :: "sidebar_config \<Rightarrow> jstring \<times> jsval \<Rightarrow> sidebar_config" where
  "merge_section merged entry = (case entry of (sectionKey, sectionConfig) \<Rightarrow>
     if \<not> js_object sectionConfig then merged
     else case map_of merged sectionKey of
         None \<Rightarrow> obj_set sectionKey (obj_merge [] (object_entries sectionConfig)) merged
       | Some sec \<Rightarrow> obj_set sectionKey (obj_merge sec (object_entries sectionConfig)) merged)"

definition mergeAdminConfig :: "jsval \<Rightarrow> sidebar_config" where
  "mergeAdminConfig savedConfig =
     (if \<not> js_object savedConfig then DEFAULT_ADMIN_CONFIG
      else foldl merge_section DEFAULT_ADMIN_CONFIG (object_entries savedConfig))"

text \<open>\<open>adminConfig\<close>: the argument is \<open>statusState?.status?.SidebarModulesAdmin\<close>.\<close>

definition adminConfig :: "jsval \<Rightarrow> sidebar_config" where
  "adminConfig SidebarModulesAdmin =
     (if truthy SidebarModulesAdmin
      then case js_String SidebarModulesAdmin of
             Inl _ \<Rightarrow> mergeAdminConfig JNull
           | Inr txt' \<Rightarrow> (case json_parse txt' of None \<Rightarrow> mergeAdminConfig JNull | Some config \<Rightarrow> mergeAdminConfig config)
      else mergeAdminConfig JNull)"

subsection \<open>The configuration of the user\<close>

definition default_section :: "jsobj \<Rightarrow> jsobj" where
  "default_section sec =
     foldl (\<lambda>acc (moduleKey, v). if moduleKey \<noteq> K_ENABLED \<and> truthy v then obj_set moduleKey (JBool True) acc else acc)
       [(K_ENABLED, JBool True)] sec"

definition defaultUserConfig :: "sidebar_config \<Rightarrow> jsval" where
  "defaultUserConfig admin = JObj
     (foldl (\<lambda>acc (sectionKey, sec).
        if truthy (get_own sec K_ENABLED) then obj_set sectionKey (JObj (default_section sec)) acc else acc) [] admin)"

text \<open>
  The reply of \<open>/api/user/self\<close> is the body of the response, or the failure of the request. The configuration
  it carries is \<open>None\<close> when it carries none; a text that is not JSON makes \<open>JSON.parse\<close> throw.
\<close>

definition SyntaxError :: exn where
  "SyntaxError = Error (js ''SyntaxError'')"

definition read_config :: "jsval \<Rightarrow> jsval res" where
  "read_config modules = (case modules of
       JStr s \<Rightarrow> (case json_parse s of None \<Rightarrow> Inl SyntaxError | Some config \<Rightarrow> Inr config)
     | _ \<Rightarrow> Inr modules)"

definition reply_config :: "jsval res \<Rightarrow> jsval option res" where
  "reply_config reply =
     rbind reply (\<lambda>body.
     rbind (get_prop body (js ''success'')) (\<lambda>success.
     if \<not> truthy success then Inr None
     else rbind (get_prop body (js ''data'')) (\<lambda>data.
          rbind (get_prop data (js ''sidebar_modules'')) (\<lambda>modules.
          if truthy modules then rbind (read_config modules) (\<lambda>config. Inr (Some config)) else Inr None))))"

definition loaded_config :: "sidebar_config \<Rightarrow> jsval res \<Rightarrow> jsval" where
  "loaded_config admin reply = (case reply_config reply of
       Inl _ \<Rightarrow> defaultUserConfig admin
     | Inr None \<Rightarrow> defaultUserConfig admin
     | Inr (Some config) \<Rightarrow> config)"

text \<open>
  The state of one use of the hook. A load is in two steps, the request and its end; the default configuration
  is computed at the end, from the administrator's configuration the load began with.
\<close>

record sidebar_hook =
  sh_instanceId :: jstring
  sh_userConfig :: jsval
  sh_loading :: bool
  sh_loadedOnce :: bool

definition init_hook :: "jstring \<Rightarrow> sidebar_hook" where
  "init_hook instanceId =
     \<lparr>sh_instanceId = instanceId, sh_userConfig = JNull, sh_loading = True, sh_loadedOnce = False\<rparr>"

definition shouldShowLoader :: "bool option \<Rightarrow> sidebar_hook \<Rightarrow> bool" where
  "shouldShowLoader withLoading h = (case withLoading of Some b \<Rightarrow> b | None \<Rightarrow> \<not> sh_loadedOnce h)"

definition load_begin :: "bool \<Rightarrow> sidebar_hook \<Rightarrow> sidebar_hook" where
  "load_begin showLoader h = (if showLoader then h\<lparr>sh_loading := True\<rparr> else h)"

definition load_end :: "bool \<Rightarrow> sidebar_config \<Rightarrow> jsval res \<Rightarrow> sidebar_hook \<Rightarrow> sidebar_hook" where
  "load_end showLoader admin reply h =
     h\<lparr>sh_userConfig := loaded_config admin reply,
       sh_loading := (if showLoader then False else sh_loading h),
       sh_loadedOnce := True\<rparr>"

definition loadUserConfig :: "bool option \<Rightarrow> sidebar_config \<Rightarrow> jsval res \<Rightarrow> sidebar_hook \<Rightarrow> sidebar_hook" where
  "loadUserConfig withLoading admin reply h =
     (let showLoader = shouldShowLoader withLoading h in load_end showLoader admin reply (load_begin showLoader h))"

text \<open>
  \<open>refreshUserConfig\<close> ends with an event for the other uses of the hook; \<open>handleRefresh\<close> is their handler, which
  the use that sent the event skips.
\<close>

record refresh_event =
  re_sourceId :: jstring
  re_skipLoader :: bool

definition refreshUserConfig :: "sidebar_config \<Rightarrow> jsval res \<Rightarrow> sidebar_hook \<Rightarrow> sidebar_hook \<times> refresh_event" where
  "refreshUserConfig admin reply h =
     (if admin \<noteq> [] then loadUserConfig (Some False) admin reply h else h,
      \<lparr>re_sourceId = sh_instanceId h, re_skipLoader = True\<rparr>)"

definition handleRefresh :: "refresh_event \<Rightarrow> sidebar_config \<Rightarrow> jsval res \<Rightarrow> sidebar_hook \<Rightarrow> sidebar_hook" where
  "handleRefresh event admin reply h =
     (if re_sourceId event = sh_instanceId h then h
      else if admin \<noteq> [] then loadUserConfig (if re_skipLoader event then Some False else None) admin reply h
      else h)"

subsection \<open>The configuration shown\<close>

definition user_allows :: "jsval \<Rightarrow> jstring \<Rightarrow> bool" where
  "user_allows userSection k = (if truthy userSection then opt_prop userSection k \<noteq> JBool False else True)"

definition final_section :: "jsobj \<Rightarrow> jsval \<Rightarrow> jsobj" where
  "final_section adminSection userSection =
     (if \<not> truthy (get_own adminSection K_ENABLED) then [(K_ENABLED, JBool False)]
      else let sectionEnabled = user_allows userSection K_ENABLED
        in foldl (\<lambda>acc (moduleKey, adminAllowed).
             if moduleKey \<noteq> K_ENABLED
             then obj_set moduleKey
                    (if truthy adminAllowed then JBool (user_allows userSection moduleKey \<and> sectionEnabled)
                     else adminAllowed) acc
             else acc)
             [(K_ENABLED, JBool sectionEnabled)] adminSection)"

definition finalConfig :: "sidebar_config \<Rightarrow> jsval \<Rightarrow> sidebar_config" where
  "finalConfig admin userConfig =
     (if admin = [] \<or> \<not> truthy userConfig then []
      else foldl (\<lambda>acc (sectionKey, adminSection).
             obj_set sectionKey (final_section adminSection (opt_prop userConfig sectionKey)) acc) [] admin)"

definition isModuleVisible :: "sidebar_config \<Rightarrow> jstring \<Rightarrow> jstring option \<Rightarrow> bool" where
  "isModuleVisible final sectionKey moduleKey = (case moduleKey of
       None \<Rightarrow> setting final sectionKey K_ENABLED = JBool True
     | Some m \<Rightarrow> setting final sectionKey (if m \<noteq> [] then m else K_ENABLED) = JBool True)"

definition getVisibleModules :: "sidebar_config \<Rightarrow> jstring \<Rightarrow> jstring list" where
  "getVisibleModules final sectionKey = (case map_of final sectionKey of
       None \<Rightarrow> []
     | Some section' \<Rightarrow>
         if \<not> truthy (get_own section' K_ENABLED) then []
         else filter (\<lambda>k. k \<noteq> K_ENABLED \<and> get_own section' k = JBool True) (map fst section'))"

definition hasSectionVisibleModules :: "sidebar_config \<Rightarrow> jstring \<Rightarrow> bool" where
  "hasSectionVisibleModules final sectionKey = (case map_of final sectionKey of
       None \<Rightarrow> False
     | Some section' \<Rightarrow>
         if \<not> truthy (get_own section' K_ENABLED) then False
         else list_ex (\<lambda>k. k \<noteq> K_ENABLED \<and> get_own section' k = JBool True) (map fst section'))"

subsection \<open>Permissions\<close>

text \<open>The state of \<open>useUserPermissions\<close>; \<open>permissions\<close> is \<open>null\<close> until the server has answered. The
  server sends an object as \<open>sidebar_modules\<close>.\<close>

record permission_state =
  ps_permissions :: jsval
  ps_loading :: bool
  ps_error :: "jsval option"

definition loadPermissions :: "jsval \<Rightarrow> jsval \<Rightarrow> jsval res \<Rightarrow> permission_state \<Rightarrow> permission_state" where
  "loadPermissions msg_failed msg_network reply p0 =
     (let p = p0\<lparr>ps_loading := True, ps_error := None\<rparr>;
          outcome = rbind reply (\<lambda>body. rbind (get_prop body (js ''success'')) (\<lambda>success.
            if truthy success
            then rbind (get_prop body (js ''data'')) (\<lambda>data. rbind (get_prop data (js ''permissions'')) (\<lambda>v.
                 Inr (p\<lparr>ps_permissions := v\<rparr>)))
            else rbind (get_prop body (js ''message'')) (\<lambda>m. Inr (p\<lparr>ps_error := Some (js_or m msg_failed)\<rparr>))))
      in (case outcome of Inl _ \<Rightarrow> p\<lparr>ps_error := Some msg_network\<rparr> | Inr q \<Rightarrow> q)\<lparr>ps_loading := False\<rparr>)"

abbreviation sidebar_perms :: "jsval \<Rightarrow> jsval" where
  "sidebar_perms permissions \<equiv> opt_prop permissions (js ''sidebar_modules'')"

definition hasSidebarSettingsPermission :: "jsval \<Rightarrow> bool" where
  "hasSidebarSettingsPermission permissions \<longleftrightarrow> opt_prop permissions (js ''sidebar_settings'') = JBool True"

definition isSidebarSectionAllowed :: "jsval \<Rightarrow> jstring \<Rightarrow> bool" where
  "isSidebarSectionAllowed permissions sectionKey =
     (if \<not> truthy (sidebar_perms permissions) then True
      else opt_prop (sidebar_perms permissions) sectionKey \<noteq> JBool False)"

definition isSidebarModuleAllowed :: "jsval \<Rightarrow> jstring \<Rightarrow> jstring \<Rightarrow> bool" where
  "isSidebarModuleAllowed permissions sectionKey moduleKey =
     (if \<not> truthy (sidebar_perms permissions) then True
      else let sectionPerms = opt_prop (sidebar_perms permissions) sectionKey in
        if sectionPerms = JBool False then False
        else if truthy sectionPerms \<and> opt_prop sectionPerms moduleKey = JBool False then False
        else True)"

definition getAllowedSidebarSections :: "jsval \<Rightarrow> jstring list" where
  "getAllowedSidebarSections permissions =
     (if \<not> truthy (sidebar_perms permissions) then []
      else filter (isSidebarSectionAllowed permissions) (object_keys (sidebar_perms permissions)))"

definition getAllowedSidebarModules :: "jsval \<Rightarrow> jstring \<Rightarrow> jstring list" where
  "getAllowedSidebarModules permissions sectionKey =
     (if \<not> truthy (sidebar_perms permissions) then []
      else let sectionPerms = opt_prop (sidebar_perms permissions) sectionKey in
        if sectionPerms = JBool False then []
        else if \<not> js_object sectionPerms then []
        else filter (\<lambda>k. k \<noteq> K_ENABLED \<and> opt_prop sectionPerms k = JBool True) (object_keys sectionPerms))"

subsection \<open>Well-formed configurations\<close>

lemma map_of_set_fold:
  assumes "distinct (map fst xs)"
  shows "map_of (foldl (\<lambda>acc (k, v). if P k v then obj_set k (g k v) acc else acc) a xs) k =
     (case map_of xs k of Some v \<Rightarrow> if P k v then Some (g k v) else map_of a k | None \<Rightarrow> map_of a k)"
  using assms
proof (induction xs arbitrary: a)
  case (Cons x xs)
  obtain k' v' where x: "x = (k', v')" by fastforce
  have "map_of xs k' = None" using Cons.prems by (simp add: x map_of_eq_None_iff)
  then show ?case using Cons.IH Cons.prems by (simp add: x map_of_obj_set split: option.split)
qed simp

lemma map_of_set_all:
  assumes "distinct (map fst xs)"
  shows "map_of (foldl (\<lambda>acc (k, v). obj_set k (g k v) acc) a xs) k =
     (case map_of xs k of Some v \<Rightarrow> Some (g k v) | None \<Rightarrow> map_of a k)"
  using map_of_set_fold [OF assms, where P = "\<lambda>_ _. True" and g = g and a = a and k = k] by (simp split: option.splits)

lemma map_of_obj_merge:
  "distinct (map fst b) \<Longrightarrow> map_of (obj_merge a b) k = (case map_of b k of Some v \<Rightarrow> Some v | None \<Rightarrow> map_of a k)"
  unfolding obj_merge_def using map_of_set_all [where g = "\<lambda>_ v. v"] by blast

definition admin_wf :: "sidebar_config \<Rightarrow> bool" where
  "admin_wf cfg \<longleftrightarrow> obj_canon cfg \<and> (\<forall>sec \<in> snd ` set cfg. obj_canon sec)"

lemma admin_wf_section: "admin_wf cfg \<Longrightarrow> map_of cfg s = Some sec \<Longrightarrow> obj_canon sec"
  unfolding admin_wf_def by (drule map_of_SomeD) force

lemma admin_wf_distinct:
  "admin_wf cfg \<Longrightarrow> distinct (map fst cfg)"
  "admin_wf cfg \<Longrightarrow> map_of cfg s = Some sec \<Longrightarrow> distinct (map fst sec)"
  using admin_wf_section [of cfg s sec] by (simp_all add: admin_wf_def obj_canon_def)

lemma admin_wf_set: "admin_wf cfg \<Longrightarrow> obj_canon sec \<Longrightarrow> admin_wf (obj_set k sec cfg)"
  unfolding admin_wf_def
proof (intro conjI ballI)
  fix sec'
  assume *: "obj_canon cfg \<and> (\<forall>sec \<in> snd ` set cfg. obj_canon sec)" "obj_canon sec" "sec' \<in> snd ` set (obj_set k sec cfg)"
  then obtain kv where "kv \<in> set (obj_set k sec cfg)" "sec' = snd kv" by blast
  then show "obj_canon sec'" using set_obj_set [of kv k sec cfg] * by auto
qed (simp add: obj_canon_set)

lemma admin_wf_merge_section: "admin_wf cfg \<Longrightarrow> admin_wf (merge_section cfg e)"
  unfolding merge_section_def
  by (cases e) (simp add: admin_wf_set obj_canon_merge admin_wf_section split: option.split)

lemma admin_wf_fold: "admin_wf cfg \<Longrightarrow> admin_wf (foldl merge_section cfg es)"
  by (induction es arbitrary: cfg) (simp_all add: admin_wf_merge_section)

lemma switches_canon:
  assumes "distinct (''enabled'' # ks)" "\<forall>k \<in> set ks. k \<noteq> [] \<and> \<not> is_digit (of_char (hd k))"
  shows "obj_canon (switches ks)"
proof (rule obj_canon_names)
  show "distinct (map fst (switches ks))" using assms(1) by (auto simp: switches_def distinct_map inj_on_def comp_def)
  show "\<forall>k \<in> fst ` set (switches ks). array_index k = None"
  proof
    fix k assume "k \<in> fst ` set (switches ks)"
    then obtain k' where k': "k = js k'" "k' = ''enabled'' \<or> k' \<in> set ks" by (auto simp: switches_def)
    then have "k' \<noteq> []" "\<not> is_digit (of_char (hd k'))" using assms(2) by (auto simp: is_digit_def)
    then show "array_index k = None" by (cases k') (auto simp: k'(1))
  qed
qed

lemma admin_wf_default: "admin_wf DEFAULT_ADMIN_CONFIG"
  unfolding admin_wf_def
proof
  show "obj_canon DEFAULT_ADMIN_CONFIG"
    by (rule obj_canon_names) (auto simp: DEFAULT_ADMIN_CONFIG_def is_digit_def)
  show "\<forall>sec \<in> snd ` set DEFAULT_ADMIN_CONFIG. obj_canon sec"
    unfolding DEFAULT_ADMIN_CONFIG_def by (simp add: switches_canon is_digit_def)
qed

lemma admin_wf_mergeAdminConfig: "admin_wf (mergeAdminConfig v)"
  by (simp add: mergeAdminConfig_def admin_wf_default admin_wf_fold)

lemma admin_wf_adminConfig: "admin_wf (adminConfig v)"
  by (simp add: adminConfig_def admin_wf_mergeAdminConfig split: sum.split option.split)

subsection \<open>What the administrator saved\<close>

lemma object_entries_distinct: "json_readable v \<Longrightarrow> distinct (map fst (object_entries v))"
  by (cases v) (auto simp: object_entries_def obj_canon_def distinct_map inj_on_def comp_def)

lemma setting_obj_set: "setting (obj_set k sec cfg) s m = (if s = k then get_own sec m else setting cfg s m)"
  by (simp add: setting_def map_of_obj_set)

lemma setting_merge_section:
  assumes "distinct (map fst (object_entries sc))"
  shows "setting (merge_section cfg (k, sc)) s m =
    (if s = k \<and> js_object sc then (case map_of (object_entries sc) m of Some w \<Rightarrow> w | None \<Rightarrow> setting cfg s m)
     else setting cfg s m)"
proof -
  have "get_own (obj_merge sec (object_entries sc)) m =
      (case map_of (object_entries sc) m of Some w \<Rightarrow> w | None \<Rightarrow> get_own sec m)" for sec
    by (simp add: get_own_def map_of_obj_merge [OF assms] split: option.split)
  note merged = this
  show ?thesis
  proof (cases "map_of cfg k")
    case None
    then have "setting cfg k m = JUndef" by (simp add: setting_def)
    with None show ?thesis by (simp add: merge_section_def setting_obj_set merged split: option.split) (simp add: get_own_def)
  next
    case (Some sec)
    then have "setting cfg k m = get_own sec m" by (simp add: setting_def)
    with Some show ?thesis by (simp add: merge_section_def setting_obj_set merged split: option.split)
  qed
qed

lemma setting_merge_sections:
  assumes "distinct (map fst es)" "\<forall>e \<in> set es. distinct (map fst (object_entries (snd e)))"
  shows "setting (foldl merge_section cfg es) s m =
    (case map_of es s of
       Some sc \<Rightarrow> if js_object sc then (case map_of (object_entries sc) m of Some w \<Rightarrow> w | None \<Rightarrow> setting cfg s m)
                 else setting cfg s m
     | None \<Rightarrow> setting cfg s m)"
  using assms
proof (induction es arbitrary: cfg)
  case (Cons e es)
  obtain k sc where e: "e = (k, sc)" by fastforce
  have "map_of es k = None" using Cons.prems(1) by (simp add: e map_of_eq_None_iff)
  then show ?case
    using Cons.IH [of "merge_section cfg (k, sc)"] Cons.prems
    by (auto simp: e setting_merge_section split: option.split)
qed simp

lemma setting_mergeAdminConfig:
  assumes "json_readable v"
  shows "setting (mergeAdminConfig v) s m =
    (case map_of (object_entries v) s of
       Some sc \<Rightarrow> (case map_of (object_entries sc) m of Some w \<Rightarrow> w | None \<Rightarrow> setting DEFAULT_ADMIN_CONFIG s m)
     | None \<Rightarrow> setting DEFAULT_ADMIN_CONFIG s m)"
proof (cases "js_object v")
  case True
  have sub: "json_readable (snd e)" if "e \<in> set (object_entries v)" for e
    using assms that by (cases v) (auto simp: object_entries_def)
  have no: "\<not> js_object sc \<Longrightarrow> object_entries sc = []" for sc
    by (cases sc) (simp_all add: js_object_def object_entries_def)
  show ?thesis
    using setting_merge_sections [of "object_entries v" DEFAULT_ADMIN_CONFIG s m] sub
    by (auto simp: mergeAdminConfig_def True object_entries_distinct assms no split: option.split)
next
  case False
  then have "object_entries v = []" by (cases v) (simp_all add: js_object_def object_entries_def)
  then show ?thesis using False by (simp add: mergeAdminConfig_def)
qed

lemma map_of_get_own: "map_of ob k = Some v \<Longrightarrow> get_own ob k = v" "map_of ob k = None \<Longrightarrow> get_own ob k = JUndef"
  by (simp_all add: get_own_def)

lemma admin_setting_saved:
  assumes "json_wf (JObj saved)"
  shows "setting (adminConfig (JStr (json_str (JObj saved)))) s m =
    (case map_of (object_entries (get_own saved s)) m of Some w \<Rightarrow> w | None \<Rightarrow> setting DEFAULT_ADMIN_CONFIG s m)"
proof -
  have "json_str (JObj saved) \<noteq> []" by simp
  then have "adminConfig (JStr (json_str (JObj saved))) = mergeAdminConfig (JObj saved)"
    using compact.dec_enc [OF assms] by (simp add: adminConfig_def)
  moreover have "json_readable (JObj saved)" using assms by (rule json_wf_readable)
  ultimately show ?thesis
    using setting_mergeAdminConfig [of "JObj saved" s m]
    by (cases "map_of saved s") (simp_all add: map_of_get_own object_entries_def)
qed

text \<open>
  The configuration the administrator's page writes as JSON is read back by every use of the side bar with
  the same switches; a section or a module the saved text says nothing of has its default switch.
\<close>

theorem admin_config_read_back:
  assumes "json_wf (JObj saved)"
  shows "setting (adminConfig (JStr (json_str (JObj saved)))) s m =
    (case map_of (object_entries (get_own saved s)) m of Some w \<Rightarrow> w | None \<Rightarrow> setting DEFAULT_ADMIN_CONFIG s m)"
  using assms by (rule admin_setting_saved)

theorem admin_config_read_back_witness:
  "json_wf (JObj [(js ''chat'', JObj [(js ''enabled'', JBool False)])]) \<and>
   setting (adminConfig (JStr (json_str (JObj [(js ''chat'', JObj [(js ''enabled'', JBool False)])])))) (js ''chat'') K_ENABLED =
     JBool False"
proof -
  have "json_wf (JObj [(js ''chat'', JObj [(js ''enabled'', JBool False)])])"
    by (simp add: obj_canon_def)
  then show ?thesis
    using admin_config_read_back [of "[(js ''chat'', JObj [(js ''enabled'', JBool False)])]" "js ''chat''" K_ENABLED]
    by (simp add: get_own_def object_entries_def)
qed

subsection \<open>What is shown\<close>

lemma get_own_final_section:
  assumes "distinct (map fst sec)"
  shows "m \<noteq> K_ENABLED \<Longrightarrow> get_own (final_section sec us) m =
      (if truthy (get_own sec K_ENABLED) then
         (if truthy (get_own sec m) then JBool (user_allows us m \<and> user_allows us K_ENABLED) else get_own sec m)
       else JUndef)"
    and "get_own (final_section sec us) K_ENABLED =
      JBool (truthy (get_own sec K_ENABLED) \<and> user_allows us K_ENABLED)"
  using map_of_set_fold [OF assms, where P = "\<lambda>k v. k \<noteq> K_ENABLED"
      and g = "\<lambda>k v. if truthy v then JBool (user_allows us k \<and> user_allows us K_ENABLED) else v"
      and a = "[(K_ENABLED, JBool (user_allows us K_ENABLED))]"]
  by (auto simp: final_section_def Let_def get_own_def split: option.split)

lemma map_of_finalConfig:
  assumes "admin_wf admin"
  shows "map_of (finalConfig admin u) s =
    (if truthy u then map_option (\<lambda>sec. final_section sec (opt_prop u s)) (map_of admin s) else None)"
  using map_of_set_all [OF admin_wf_distinct(1) [OF assms],
      where g = "\<lambda>k sec. final_section sec (opt_prop u k)" and a = "[]" and k = s]
  by (auto simp: finalConfig_def split: option.split)

lemma setting_finalConfig:
  assumes "admin_wf admin" "m \<noteq> K_ENABLED"
  shows "setting (finalConfig admin u) s m =
    (if truthy u \<and> truthy (setting admin s K_ENABLED) then
       (if truthy (setting admin s m) then JBool (user_allows (opt_prop u s) m \<and> user_allows (opt_prop u s) K_ENABLED)
        else setting admin s m)
     else JUndef)"
proof (cases "map_of admin s")
  case None
  then show ?thesis by (simp add: setting_def map_of_finalConfig [OF assms(1)])
next
  case (Some sec)
  then show ?thesis
    using get_own_final_section(1) [OF admin_wf_distinct(2) [OF assms(1) Some] assms(2)]
    by (simp add: setting_def map_of_finalConfig [OF assms(1)])
qed

lemma section_finalConfig:
  assumes "admin_wf admin"
  shows "setting (finalConfig admin u) s K_ENABLED =
    (if truthy u \<and> s \<in> fst ` set admin then
      JBool (truthy (setting admin s K_ENABLED) \<and> user_allows (opt_prop u s) K_ENABLED) else JUndef)"
proof (cases "map_of admin s")
  case None
  then have "s \<notin> fst ` set admin" by (simp add: map_of_eq_None_iff)
  with None show ?thesis by (simp add: setting_def map_of_finalConfig [OF assms])
next
  case (Some sec)
  have "s \<in> fst ` set admin" using map_of_SomeD [OF Some] by force
  then show ?thesis
    using Some get_own_final_section(2) [OF admin_wf_distinct(2) [OF assms Some]]
    by (simp add: setting_def map_of_finalConfig [OF assms])
qed

lemma truthy_setting_key: "truthy (setting admin s k) \<Longrightarrow> s \<in> fst ` set admin"
  by (cases "map_of admin s") (auto simp: setting_def dest!: map_of_SomeD intro: rev_image_eqI)

lemma module_visible:
  "admin_wf admin \<Longrightarrow> m \<noteq> [] \<Longrightarrow> m \<noteq> K_ENABLED \<Longrightarrow> isModuleVisible (finalConfig admin u) s (Some m) \<longleftrightarrow>
     truthy u \<and> truthy (setting admin s K_ENABLED) \<and> truthy (setting admin s m) \<and>
     user_allows (opt_prop u s) K_ENABLED \<and> user_allows (opt_prop u s) m"
  by (auto simp: isModuleVisible_def setting_finalConfig)

lemma section_visible:
  "admin_wf admin \<Longrightarrow> isModuleVisible (finalConfig admin u) s None \<longleftrightarrow>
     truthy u \<and> truthy (setting admin s K_ENABLED) \<and> user_allows (opt_prop u s) K_ENABLED"
  using truthy_setting_key [of admin s K_ENABLED] by (auto simp: isModuleVisible_def section_finalConfig)

lemma default_setting:
  "setting (adminConfig JUndef) (js ''console'') K_ENABLED = JBool True"
  "setting (adminConfig JUndef) (js ''console'') (js ''log'') = JBool True"
  by (simp_all add: adminConfig_def mergeAdminConfig_def js_object_def setting_def DEFAULT_ADMIN_CONFIG_def
      switches_def get_own_def)

text \<open>
  What decides whether an entry of the side bar is shown, whatever texts the server keeps: the administrator
  has switched the section and the module on, and the user has hidden neither. So nothing the administrator has
  switched off can be shown by a configuration of the user.
\<close>

theorem module_visible_iff:
  assumes "m \<noteq> []" "m \<noteq> K_ENABLED"
  shows "isModuleVisible (finalConfig (adminConfig status) u) s (Some m) \<longleftrightarrow>
     truthy u \<and> truthy (setting (adminConfig status) s K_ENABLED) \<and> truthy (setting (adminConfig status) s m) \<and>
     user_allows (opt_prop u s) K_ENABLED \<and> user_allows (opt_prop u s) m"
  by (rule module_visible [OF admin_wf_adminConfig assms])

theorem module_visible_iff_witness:
  "js ''log'' \<noteq> [] \<and> js ''log'' \<noteq> K_ENABLED \<and>
   \<not> isModuleVisible (finalConfig (adminConfig JUndef) (JObj [(js ''console'', JObj [(js ''log'', JBool False)])]))
       (js ''console'') (Some (js ''log''))"
proof -
  have "\<not> user_allows (opt_prop (JObj [(js ''console'', JObj [(js ''log'', JBool False)])]) (js ''console'')) (js ''log'')"
    by (simp add: user_allows_def opt_prop_def get_prop_def get_own_def)
  then show ?thesis
    using module_visible_iff [of "js ''log''" JUndef "JObj [(js ''console'', JObj [(js ''log'', JBool False)])]" "js ''console''"]
    by simp
qed

text \<open>The list of the shown modules, the test for a section with modules and the test for one module agree.\<close>

lemma visible_keys:
  assumes "admin_wf admin" "map_of (finalConfig admin u) s = Some sec" "get_own sec k = JBool True" "k \<noteq> K_ENABLED"
  shows "k \<in> fst ` set sec" "truthy (get_own sec K_ENABLED)"
proof -
  show "k \<in> fst ` set sec"
    using assms(3) map_of_eq_None_iff [of sec k] by (cases "map_of sec k") (auto simp: get_own_def)
  have "setting (finalConfig admin u) s k = JBool True" using assms by (simp add: setting_def)
  then have "setting (finalConfig admin u) s K_ENABLED = JBool True"
    using assms(1,4) truthy_setting_key [of admin s k]
    by (auto simp: setting_finalConfig section_finalConfig split: if_splits)
  then show "truthy (get_own sec K_ENABLED)" using assms(2) by (simp add: setting_def)
qed

lemma visible_modules:
  assumes "admin_wf admin" "m \<noteq> K_ENABLED"
  shows "m \<in> set (getVisibleModules (finalConfig admin u) s) \<longleftrightarrow> setting (finalConfig admin u) s m = JBool True"
proof (cases "map_of (finalConfig admin u) s")
  case (Some sec)
  then show ?thesis
    using visible_keys [OF assms(1) Some _ assms(2)] assms(2) by (auto simp: getVisibleModules_def setting_def)
qed (simp add: getVisibleModules_def setting_def)

lemma has_visible_modules: "hasSectionVisibleModules final s \<longleftrightarrow> getVisibleModules final s \<noteq> []"
  by (auto simp: hasSectionVisibleModules_def getVisibleModules_def list_ex_iff filter_empty_conv split: option.split)

text \<open>
  The three questions the menu asks agree: a module is on the list of the shown modules of a section exactly
  when it is shown, and then its section is shown and has shown modules.
\<close>

theorem visible_lists_agree:
  assumes "m \<noteq> []" "m \<noteq> K_ENABLED"
  shows "(m \<in> set (getVisibleModules (finalConfig (adminConfig status) u) s) \<longleftrightarrow>
          isModuleVisible (finalConfig (adminConfig status) u) s (Some m)) \<and>
    (isModuleVisible (finalConfig (adminConfig status) u) s (Some m) \<longrightarrow>
       isModuleVisible (finalConfig (adminConfig status) u) s None \<and>
       hasSectionVisibleModules (finalConfig (adminConfig status) u) s)"
  using visible_modules [OF admin_wf_adminConfig [of status] assms(2), of u s] assms
    module_visible [OF admin_wf_adminConfig [of status] assms, of u s]
    section_visible [OF admin_wf_adminConfig [of status], of u s]
  by (auto simp: isModuleVisible_def has_visible_modules)

theorem visible_lists_agree_witness:
  "js ''log'' \<noteq> [] \<and> js ''log'' \<noteq> K_ENABLED \<and>
   hasSectionVisibleModules (finalConfig (adminConfig JUndef) (JObj [])) (js ''console'')"
proof -
  have "isModuleVisible (finalConfig (adminConfig JUndef) (JObj [])) (js ''console'') (Some (js ''log''))"
    using default_setting
    by (simp add: module_visible [OF admin_wf_adminConfig] user_allows_def opt_prop_def get_prop_def get_own_def)
  then show ?thesis using visible_lists_agree [of "js ''log''" JUndef "JObj []" "js ''console''"] by simp
qed

text \<open>The default configuration of a user hides nothing, whichever configuration of the administrator it came from.\<close>

lemma map_of_default_section:
  "distinct (map fst sec) \<Longrightarrow> get_own (default_section sec) k \<noteq> JBool False"
  unfolding default_section_def get_own_def
  using map_of_set_fold [where P = "\<lambda>k v. k \<noteq> K_ENABLED \<and> truthy v" and g = "\<lambda>_ _. JBool True" and xs = sec]
  by (auto split: option.split)

lemma default_allows:
  assumes "admin_wf admin"
  shows "user_allows (opt_prop (defaultUserConfig admin) s) k"
proof -
  have "map_of (case defaultUserConfig admin of JObj d \<Rightarrow> d) s =
      (case map_of admin s of
         Some sec \<Rightarrow> if truthy (get_own sec K_ENABLED) then Some (JObj (default_section sec)) else None
       | None \<Rightarrow> None)"
    using map_of_set_fold [OF admin_wf_distinct(1) [OF assms], where P = "\<lambda>_ sec. truthy (get_own sec K_ENABLED)"
        and g = "\<lambda>_ sec. JObj (default_section sec)" and a = "[]" and k = s]
    by (simp add: defaultUserConfig_def split: option.split)
  then show ?thesis
    using map_of_default_section [OF admin_wf_distinct(2) [OF assms]]
    by (auto simp: user_allows_def opt_prop_def get_prop_def get_own_def [of _ s] defaultUserConfig_def split: option.splits)
qed

text \<open>
  C32. When the server cannot be asked for the user's configuration, or has none or an unreadable one, the side
  bar shows what the administrator allows, no more and no less, even if the administrator's configuration has
  changed while the answer was awaited.
\<close>

theorem no_user_config_shows_allowed:
  assumes "reply_config reply = Inr None \<or> (\<exists>e. reply_config reply = Inl e)" "m \<noteq> []" "m \<noteq> K_ENABLED"
  shows "isModuleVisible (finalConfig (adminConfig status) (loaded_config (adminConfig earlier) reply)) s (Some m) \<longleftrightarrow>
    truthy (setting (adminConfig status) s K_ENABLED) \<and> truthy (setting (adminConfig status) s m)"
proof -
  have "loaded_config (adminConfig earlier) reply = defaultUserConfig (adminConfig earlier)"
    using assms(1) by (auto simp: loaded_config_def)
  then show ?thesis
    using module_visible [OF admin_wf_adminConfig [of status] assms(2,3)] default_allows [OF admin_wf_adminConfig [of earlier]]
    by (simp add: defaultUserConfig_def)
qed

theorem no_user_config_shows_allowed_witness:
  "reply_config (Inl TypeError) = Inl TypeError \<and>
   isModuleVisible (finalConfig (adminConfig JUndef) (loaded_config (adminConfig JUndef) (Inl TypeError)))
     (js ''console'') (Some (js ''log''))"
proof -
  show ?thesis
    using default_setting no_user_config_shows_allowed [of "Inl TypeError" "js ''log''" JUndef JUndef "js ''console''"]
    by (simp add: reply_config_def)
qed

text \<open>
  A stored configuration that is the text \<open>null\<close> is taken for one that has not been loaded: no entry of the
  side bar is shown, although an unreadable configuration is replaced by the default one.
\<close>

definition null_reply :: "jsval res" where
  "null_reply = Inr (JObj [(js ''success'', JBool True), (js ''data'', JObj [(js ''sidebar_modules'', JStr (js ''null''))])])"

theorem null_config_hides_all:
  "\<not> isModuleVisible (finalConfig (adminConfig status) (loaded_config (adminConfig earlier) null_reply)) s m"
proof -
  have "json_parse (js ''null'') = Some JNull" by code_simp
  then have "reply_config null_reply = Inr (Some JNull)"
    by (simp add: reply_config_def null_reply_def get_prop_def get_own_def read_config_def)
  then show ?thesis
    by (simp add: loaded_config_def finalConfig_def isModuleVisible_def setting_def split: option.split)
qed

subsection \<open>Permissions agree\<close>

text \<open>
  A module the permissions allow is in a section they allow, and every module on the list of the allowed
  modules is allowed; the list may leave out modules that are allowed.
\<close>

theorem module_allowed_in_section:
  "(isSidebarModuleAllowed p s m \<longrightarrow> isSidebarSectionAllowed p s) \<and>
   (m \<in> set (getAllowedSidebarModules p s) \<longrightarrow> isSidebarModuleAllowed p s m)"
  by (auto simp: isSidebarModuleAllowed_def isSidebarSectionAllowed_def getAllowedSidebarModules_def Let_def split: if_splits)

theorem module_allowed_in_section_witness:
  "isSidebarModuleAllowed JNull (js ''chat'') (js ''chat'') \<and> isSidebarSectionAllowed JNull (js ''chat'')"
  using module_allowed_in_section [of JNull "js ''chat''" "js ''chat''"]
  by (simp add: isSidebarModuleAllowed_def opt_prop_def get_prop_def)

text \<open>What the server sends an administrator: every module but the system settings.\<close>

definition admin_permissions :: jsval where
  "admin_permissions = JObj [(js ''sidebar_settings'', JBool True),
     (js ''sidebar_modules'', JObj [(js ''admin'', JObj [(js ''setting'', JBool False)])])]"

theorem allowed_list_incomplete:
  "isSidebarModuleAllowed admin_permissions (js ''admin'') (js ''channel'') \<and>
   \<not> isSidebarModuleAllowed admin_permissions (js ''admin'') (js ''setting'') \<and>
   getAllowedSidebarModules admin_permissions (js ''admin'') = []"
  by (simp add: isSidebarModuleAllowed_def getAllowedSidebarModules_def admin_permissions_def opt_prop_def get_prop_def
      get_own_def Let_def js_object_def object_keys_def)

text \<open>Once a load has ended the hook is no longer in its first load, and only a load that showed the loader hides it.\<close>

lemma loadUserConfig_ends:
  "sh_loadedOnce (loadUserConfig wl admin reply h)"
  "shouldShowLoader wl h \<Longrightarrow> \<not> sh_loading (loadUserConfig wl admin reply h)"
  "\<not> shouldShowLoader wl h \<Longrightarrow> sh_loading (loadUserConfig wl admin reply h) = sh_loading h"
  "sh_userConfig (loadUserConfig wl admin reply h) = loaded_config admin reply"
  by (simp_all add: loadUserConfig_def load_end_def load_begin_def Let_def)

text \<open>A refresh reaches every other use of the hook, which then has the same configuration.\<close>

lemma refresh_reaches_others:
  assumes "sh_instanceId h' \<noteq> sh_instanceId h" "admin \<noteq> []"
  shows "sh_userConfig (handleRefresh (snd (refreshUserConfig admin reply h)) admin reply h') =
    sh_userConfig (fst (refreshUserConfig admin reply h))"
    and "sh_loading (handleRefresh (snd (refreshUserConfig admin reply h)) admin reply h') = sh_loading h'"
  using assms by (simp_all add: refreshUserConfig_def handleRefresh_def loadUserConfig_def load_end_def load_begin_def
      shouldShowLoader_def)

end
