(* ===== verification/SidebarMenu.thy ===== *)
theory SidebarMenu
  imports Sidebar
begin

text \<open>
  The side bar itself (\<open>components/layout/SiderBar.jsx\<close>) and the two pages that switch its entries on and off:
  the administrator's (\<open>pages/Setting/Operation/SettingsSidebarModulesAdmin.jsx\<close>) and the user's
  (the side bar tab of \<open>components/settings/personal/cards/NotificationSettings.jsx\<close>). The menu keeps the selected
  and the opened keys, the routes and the chats; \<open>localStorage\<close> is a map of texts. Texts are the keys handed
  to the translation.
\<close>

subsection \<open>Roles\<close>

type_synonym local_storage = "jstring \<Rightarrow> jstring option"

definition role_at_least :: "rat \<Rightarrow> local_storage \<Rightarrow> bool res" where
  "role_at_least n store = (case store (js ''user'') of
       None \<Rightarrow> Inr False
     | Some user \<Rightarrow>
         if user = [] then Inr False
         else (case json_parse user of
                 None \<Rightarrow> Inl SyntaxError
               | Some v \<Rightarrow> rbind (get_prop v (js ''role'')) (\<lambda>role. rbind (js_Number role) (\<lambda>x. Inr (num_le (Num n) x)))))"

definition isAdmin :: "local_storage \<Rightarrow> bool res" where
  "isAdmin store = role_at_least 10 store"

definition isRoot :: "local_storage \<Rightarrow> bool res" where
  "isRoot store = role_at_least 100 store"

subsection \<open>The entries of the menu\<close>

record chat_item =
  ci_text :: jstring
  ci_key :: jstring
  ci_to :: jstring

record nav_item =
  ni_text :: jstring
  ni_key :: jstring
  ni_to :: jstring
  ni_hidden :: bool
  ni_items :: "chat_item list"

definition nav :: "jstring \<Rightarrow> string \<Rightarrow> string \<Rightarrow> bool \<Rightarrow> nav_item" where
  "nav text' key to hidden = \<lparr>ni_text = text', ni_key = js key, ni_to = js to, ni_hidden = hidden, ni_items = []\<rparr>"

definition stored_true :: "local_storage \<Rightarrow> string \<Rightarrow> bool" where
  "stored_true store k \<longleftrightarrow> store (js k) = Some (js ''true'')"

definition workspaceItems :: "local_storage \<Rightarrow> sidebar_config \<Rightarrow> nav_item list" where
  "workspaceItems store final = filter (\<lambda>item. isModuleVisible final (js ''console'') (Some (ni_key item)))
     [nav (js ''Token Plan'') ''tokenPlan'' ''/token-plan'' False,
      nav [0x4EE4, 0x724C, 0x7BA1, 0x7406] ''token'' ''/token'' False,
      nav [0x6570, 0x636E, 0x770B, 0x677F] ''detail'' ''/detail'' (\<not> stored_true store ''enable_data_export''),
      nav [0x4F7F, 0x7528, 0x65E5, 0x5FD7] ''log'' ''/log'' False,
      nav [0x7ED8, 0x56FE, 0x65E5, 0x5FD7] ''midjourney'' ''/midjourney'' (\<not> stored_true store ''enable_drawing''),
      nav [0x4EFB, 0x52A1, 0x65E5, 0x5FD7] ''task'' ''/task'' (\<not> stored_true store ''enable_task'')]"

definition financeItems :: "sidebar_config \<Rightarrow> nav_item list" where
  "financeItems final = filter (\<lambda>item. ni_key item = js ''revenue-management'' \<or>
       isModuleVisible final (js ''finance'') (Some (ni_key item)))
     [nav [0x8D22, 0x52A1, 0x6982, 0x89C8] ''finance'' ''/console/finance'' False,
      nav [0x8BA2, 0x5355, 0x7BA1, 0x7406] ''orders'' ''/console/finance/orders'' False,
      nav [0x8425, 0x6536, 0x5206, 0x6790] ''revenue'' ''/console/finance/revenue'' False,
      nav [0x8425, 0x6536, 0x7BA1, 0x7406] ''revenue-management'' ''/console/finance/revenue-management'' False,
      nav [0x53D1, 0x7968, 0x7BA1, 0x7406] ''invoices'' ''/console/finance/invoices'' False,
      nav [0x4F9B, 0x5E94, 0x5546, 0x7ED3, 0x7B97] ''supplier'' ''/console/finance/supplier-settlement'' False]"

definition personalItems :: "sidebar_config \<Rightarrow> nav_item list" where
  "personalItems final = filter (\<lambda>item. isModuleVisible final (js ''personal'') (Some (ni_key item)))
     [nav [0x94B1, 0x5305, 0x7BA1, 0x7406] ''topup'' ''/topup'' False,
      nav [0x7528, 0x6237, 0x8D26, 0x5355] ''billing'' ''/billing'' False,
      nav [0x4E2A, 0x4EBA, 0x8BBE, 0x7F6E] ''personal'' ''/personal'' False]"

definition adminItems :: "bool \<Rightarrow> bool \<Rightarrow> sidebar_config \<Rightarrow> nav_item list" where
  "adminItems admin rootUser final = filter (\<lambda>item. isModuleVisible final (js ''admin'') (Some (ni_key item)))
     [nav [0x6E20, 0x9053, 0x7BA1, 0x7406] ''channel'' ''/channel'' (\<not> admin),
      nav [0x8BA2, 0x9605, 0x7BA1, 0x7406] ''subscription'' ''/subscription'' (\<not> admin),
      nav [0x6A21, 0x578B, 0x7BA1, 0x7406] ''models'' ''/console/models'' (\<not> admin),
      nav [0x5151, 0x6362, 0x7801, 0x7BA1, 0x7406] ''redemption'' ''/redemption'' (\<not> admin),
      nav [0x7528, 0x6237, 0x7BA1, 0x7406] ''user'' ''/user'' (\<not> admin),
      nav [0x5927, 0x5C4F, 0x6570, 0x636E, 0x4E2D, 0x5FC3] ''dashboardBoard'' ''/console/dashboard'' (\<not> admin),
      nav [0x7CFB, 0x7EDF, 0x8BBE, 0x7F6E] ''setting'' ''/setting'' (\<not> rootUser)]"

definition chatMenuItems :: "chat_item list \<Rightarrow> sidebar_config \<Rightarrow> nav_item list" where
  "chatMenuItems chatItems final = filter (\<lambda>item. isModuleVisible final (js ''chat'') (Some (ni_key item)))
     [nav [0x6587, 0x672C, 0x5BF9, 0x8BDD] ''playground'' ''/playground'' False,
      nav [0x6587, 0x751F, 0x56FE] ''textToImage'' ''/console/text-to-image'' False,
      nav [0x6587, 0x751F, 0x89C6, 0x9891] ''textToVideo'' ''/console/text-to-video'' False,
      (nav [0x63A5, 0x5165, 0x5E94, 0x7528] ''chat'' '''' False)\<lparr>ni_items := chatItems\<rparr>]"

text \<open>
  What is rendered: the keys of the entries of every section, in order. An entry with chats is a submenu, with
  the chats below it; a hidden entry is left out.
\<close>

definition renderNavItem :: "nav_item \<Rightarrow> jstring list" where
  "renderNavItem item = (if ni_hidden item then [] else [ni_key item])"

definition renderSubItem :: "nav_item \<Rightarrow> jstring list" where
  "renderSubItem item =
     (if ni_items item \<noteq> [] then ni_key item # map ci_key (ni_items item) else renderNavItem item)"

definition sidebar_sections ::
  "bool \<Rightarrow> bool \<Rightarrow> local_storage \<Rightarrow> chat_item list \<Rightarrow> sidebar_config \<Rightarrow> (jstring \<times> jstring list) list" where
  "sidebar_sections admin rootUser store chatItems final =
     (if hasSectionVisibleModules final (js ''chat'')
      then [(js ''chat'', concat (map renderSubItem (chatMenuItems chatItems final)))] else []) @
     (if hasSectionVisibleModules final (js ''console'')
      then [(js ''console'', concat (map renderNavItem (workspaceItems store final)))] else []) @
     (if hasSectionVisibleModules final (js ''personal'')
      then [(js ''personal'', concat (map renderNavItem (personalItems final)))] else []) @
     (if admin \<and> hasSectionVisibleModules final (js ''finance'')
      then [(js ''finance'', concat (map renderNavItem (financeItems final)))] else []) @
     (if admin \<and> hasSectionVisibleModules final (js ''admin'')
      then [(js ''admin'', concat (map renderNavItem (adminItems admin rootUser final)))] else [])"

definition SiderBar :: "local_storage \<Rightarrow> chat_item list \<Rightarrow> sidebar_config \<Rightarrow> (jstring \<times> jstring list) list res" where
  "SiderBar store chatItems final =
     rbind (isAdmin store) (\<lambda>admin. rbind (isRoot store) (\<lambda>rootUser. Inr (sidebar_sections admin rootUser store chatItems final)))"

subsection \<open>Routes and chats\<close>

definition routerMap :: "(jstring \<times> jstring) list" where
  "routerMap = map (\<lambda>(k, p). (js k, js p))
     [(''home'', ''/''), (''channel'', ''/console/channel''), (''tokenPlan'', ''/console/token-plan''),
      (''token'', ''/console/token''), (''redemption'', ''/console/redemption''), (''topup'', ''/console/topup''),
      (''myPlan'', ''/console/my-plan''), (''billing'', ''/console/billing''), (''user'', ''/console/user''),
      (''subscription'', ''/console/subscription''), (''log'', ''/console/log''),
      (''midjourney'', ''/console/midjourney''), (''setting'', ''/console/setting''), (''about'', ''/about''),
      (''detail'', ''/console''), (''pricing'', ''/pricing''), (''task'', ''/console/task''),
      (''models'', ''/console/models''), (''deployment'', ''/console/deployment''),
      (''playground'', ''/console/playground''), (''textToImage'', ''/console/text-to-image''),
      (''personal'', ''/console/personal''), (''dashboardBoard'', ''/console/dashboard''),
      (''finance'', ''/console/finance''), (''financeDashboard'', ''/console/finance''),
      (''orders'', ''/console/finance/orders''), (''revenue'', ''/console/finance/revenue''),
      (''revenue-management'', ''/console/finance/revenue-management''),
      (''revenueManagement'', ''/console/finance/revenue-management''),
      (''invoices'', ''/console/finance/invoices''), (''supplier'', ''/console/finance/supplier-settlement'')]"

definition updateRouterMapWithChats :: "jsval list \<Rightarrow> (jstring \<times> jstring) list" where
  "updateRouterMapWithChats chats =
     foldl (\<lambda>m i. obj_set (js ''chat'' @ dec i) (js ''/console/chat/'' @ dec i) m) routerMap [0..<length chats]"

text \<open>The own properties that a spread copies and \<open>for ... in\<close> visits; those of a string are its characters.\<close>

definition spread_props :: "jsval \<Rightarrow> jsobj" where
  "spread_props v = (case v of JStr s \<Rightarrow> map (\<lambda>i. (dec i, JStr [s ! i])) [0..<length s] | _ \<Rightarrow> object_entries v)"

fun scan_links :: "jstring \<Rightarrow> jsobj \<Rightarrow> jstring option" where
  "scan_links text' [] = Some text'"
| "scan_links text' ((key, JStr link) # props) =
     (if starts_with link (js ''fluent'') \<or> starts_with link (js ''ccswitch'') then None else scan_links key props)"
| "scan_links text' (_ # props) = scan_links text' props"

definition chat_at :: "jsval list \<Rightarrow> nat \<Rightarrow> chat_item list" where
  "chat_at chats i = (case scan_links [] (spread_props (chats ! i)) of
       None \<Rightarrow> []
     | Some text' \<Rightarrow>
         if text' = [] then []
         else [\<lparr>ci_text = text', ci_key = js ''chat'' @ dec i, ci_to = js ''/console/chat/'' @ dec i\<rparr>])"

definition chat_items :: "jsval list \<Rightarrow> chat_item list" where
  "chat_items chats = concat (map (chat_at chats) [0..<length chats])"

subsection \<open>The state of the menu\<close>

record menu_state =
  ms_selected :: "jstring list"
  ms_opened :: "jstring list"
  ms_routes :: "(jstring \<times> jstring) list"
  ms_chats :: "chat_item list"

definition init_menu :: menu_state where
  "init_menu = \<lparr>ms_selected = [js ''home''], ms_opened = [], ms_routes = routerMap, ms_chats = []\<rparr>"

text \<open>The effect that reads the chats; the second component says that the error message is shown.\<close>

definition load_chats :: "local_storage \<Rightarrow> menu_state \<Rightarrow> menu_state \<times> bool" where
  "load_chats store m = (case store (js ''chats'') of
       None \<Rightarrow> (m, False)
     | Some text' \<Rightarrow>
         if text' = [] then (m, False)
         else (case json_parse text' of
                 None \<Rightarrow> (m, True)
               | Some (JArr chats) \<Rightarrow> (m\<lparr>ms_chats := chat_items chats, ms_routes := updateRouterMapWithChats chats\<rparr>, False)
               | Some _ \<Rightarrow> (m, False)))"

definition open_finance :: "menu_state \<Rightarrow> menu_state" where
  "open_finance m = (if js ''finance'' \<in> set (ms_opened m) then m else m\<lparr>ms_opened := ms_opened m @ [js ''finance'']\<rparr>)"

definition matching_key :: "(jstring \<times> jstring) list \<Rightarrow> jstring \<Rightarrow> jstring option" where
  "matching_key routes path = (case find (\<lambda>kp. snd kp = path) routes of
       Some kp \<Rightarrow> Some (fst kp)
     | None \<Rightarrow>
         if starts_with path (js ''/console/chat/'')
         then let chatIndex = last (split_on 47 path)
              in Some (if string_to_number chatIndex \<noteq> NaN then js ''chat'' @ chatIndex else js ''chat'')
         else None)"

definition on_location :: "jstring \<Rightarrow> menu_state \<Rightarrow> menu_state" where
  "on_location path m =
     (let m1 = (if path = js ''/console/finance'' \<or> starts_with path (js ''/console/finance/'') then open_finance m else m)
      in case matching_key (ms_routes m) path of None \<Rightarrow> m1 | Some k \<Rightarrow> m1\<lparr>ms_selected := [k]\<rparr>)"

text \<open>\<open>onSelect\<close>: the second component is the path it navigates to. An entry is also a link to its route.\<close>

definition finance_routes :: "(jstring \<times> jstring) list" where
  "finance_routes = map (\<lambda>(k, p). (js k, js p))
     [(''finance'', ''/console/finance''), (''orders'', ''/console/finance/orders''),
      (''revenue'', ''/console/finance/revenue''), (''invoices'', ''/console/finance/invoices''),
      (''revenue-management'', ''/console/finance/revenue-management''),
      (''supplier'', ''/console/finance/supplier-settlement'')]"

definition onSelect :: "jstring \<Rightarrow> menu_state \<Rightarrow> menu_state \<times> jstring option" where
  "onSelect itemKey m =
     (if itemKey = js ''textToImage'' then (m\<lparr>ms_selected := [itemKey]\<rparr>, Some (js ''/console/text-to-image''))
      else if itemKey = js ''textToVideo'' then (m\<lparr>ms_selected := [itemKey]\<rparr>, Some (js ''/console/text-to-video''))
      else case map_of finance_routes itemKey of
          Some path \<Rightarrow> ((open_finance m)\<lparr>ms_selected := [itemKey]\<rparr>, Some path)
        | None \<Rightarrow> (m\<lparr>ms_opened := filter (\<lambda>k. k \<noteq> itemKey) (ms_opened m), ms_selected := [itemKey]\<rparr>, None))"

definition link_target :: "menu_state \<Rightarrow> jstring \<Rightarrow> jstring option" where
  "link_target m itemKey = (case map_of (ms_routes m) itemKey of Some p \<Rightarrow> Some p | None \<Rightarrow> map_of routerMap itemKey)"

definition onOpenChange :: "jstring list \<Rightarrow> menu_state \<Rightarrow> menu_state" where
  "onOpenChange openKeys m =
     (let currentOpenKeys = filter (\<lambda>k. k \<in> set [js ''finance'', js ''admin'']) openKeys
      in m\<lparr>ms_opened := (if length currentOpenKeys > 1 then [last currentOpenKeys] else openKeys)\<rparr>)"

subsection \<open>The page of the administrator\<close>

definition resetSidebarModules :: jsval where
  "resetSidebarModules = JObj
     [(js ''chat'', JObj (switches [''playground'', ''textToImage'', ''chat''])),
      (js ''console'', JObj (switches [''detail'', ''token'', ''log'', ''midjourney'', ''task''])),
      (js ''personal'', JObj (switches [''topup'', ''personal''])),
      (js ''admin'', JObj (switches [''channel'', ''models'', ''deployment'', ''redemption'', ''user'', ''subscription'',
         ''setting'']))]"

definition set_switch :: "jstring \<Rightarrow> jstring \<Rightarrow> bool \<Rightarrow> jsval \<Rightarrow> jsval res" where
  "set_switch sectionKey k checked modules =
     rbind (get_prop modules sectionKey) (\<lambda>section'.
       Inr (JObj (obj_set sectionKey (JObj (obj_set k (JBool checked) (obj_merge [] (spread_props section'))))
              (obj_merge [] (spread_props modules)))))"

definition handleSectionChange :: "jstring \<Rightarrow> bool \<Rightarrow> jsval \<Rightarrow> jsval res" where
  "handleSectionChange sectionKey checked modules = set_switch sectionKey K_ENABLED checked modules"

definition handleModuleChange :: "jstring \<Rightarrow> jstring \<Rightarrow> bool \<Rightarrow> jsval \<Rightarrow> jsval res" where
  "handleModuleChange sectionKey moduleKey checked modules = set_switch sectionKey moduleKey checked modules"

text \<open>The effect that takes the modules from the options of the server.\<close>

definition load_modules :: "jsval \<Rightarrow> jsval \<Rightarrow> jsval" where
  "load_modules option' modules =
     (if truthy option'
      then case js_String option' of
             Inl _ \<Rightarrow> resetSidebarModules
           | Inr text' \<Rightarrow> (case json_parse text' of None \<Rightarrow> resetSidebarModules | Some v \<Rightarrow> v)
      else modules)"

text \<open>
  Saving: the value sent for the option \<open>SidebarModulesAdmin\<close>, and, from the reply, the status the side bar
  reads afterwards with the message shown (\<open>Inr\<close> for a success); the parent's \<open>refresh\<close> is left to it.
\<close>

definition submitted :: "jsval \<Rightarrow> jstring" where
  "submitted modules = json_str modules"

definition onSubmit :: "jsval \<Rightarrow> jsval res \<Rightarrow> jsval \<Rightarrow> jsval \<times> (jsval + unit)" where
  "onSubmit modules reply status =
     (case rbind reply (\<lambda>body. rbind (get_prop body (js ''success'')) (\<lambda>success.
             rbind (get_prop body (js ''message'')) (\<lambda>message. Inr (success, message)))) of
        Inl _ \<Rightarrow> (status, Inl (JStr [0x4FDD, 0x5B58, 0x5931, 0x8D25, 0xFF0C, 0x8BF7, 0x91CD, 0x8BD5]))
      | Inr (success, message) \<Rightarrow>
          if truthy success then (JStr (json_str modules), Inr ()) else (status, Inl message))"

subsection \<open>The page of the user\<close>

definition user_initial :: jsval where
  "user_initial = JObj
     [(js ''chat'', JObj (switches [''playground'', ''chat''])),
      (js ''console'', JObj (switches [''detail'', ''token'', ''log'', ''midjourney'', ''task''])),
      (js ''personal'', JObj (switches [''topup'', ''personal''])),
      (js ''admin'', JObj (switches [''channel'', ''models'', ''deployment'', ''subscription'', ''redemption'', ''user'',
         ''setting'']))]"

definition user_reset :: jsval where
  "user_reset = JObj
     [(js ''chat'', JObj (switches [''playground'', ''textToImage'', ''chat''])),
      (js ''console'', JObj (switches [''detail'', ''token'', ''log'', ''midjourney'', ''task''])),
      (js ''personal'', JObj (switches [''topup'', ''personal''])),
      (js ''admin'', JObj (switches [''channel'', ''models'', ''deployment'', ''subscription'', ''redemption'', ''user'',
         ''setting'']))]"

definition userSectionChange :: "jstring \<Rightarrow> bool \<Rightarrow> jsval \<Rightarrow> jsval res" where
  "userSectionChange sectionKey checked modules = set_switch sectionKey K_ENABLED checked modules"

definition userModuleChange :: "jstring \<Rightarrow> jstring \<Rightarrow> bool \<Rightarrow> jsval \<Rightarrow> jsval res" where
  "userModuleChange sectionKey moduleKey checked modules = set_switch sectionKey moduleKey checked modules"

text \<open>The switches on the two pages: of a whole section or of one module; a page is changed by clicks on them.\<close>

datatype switch_click = Section_switch jstring bool | Module_switch jstring jstring bool

fun click_target :: "switch_click \<Rightarrow> (jstring \<times> jstring) \<times> bool" where
  "click_target (Section_switch s b) = ((s, K_ENABLED), b)"
| "click_target (Module_switch s m b) = ((s, m), b)"

fun admin_click :: "switch_click \<Rightarrow> jsval \<Rightarrow> jsval res" where
  "admin_click (Section_switch s b) modules = handleSectionChange s b modules"
| "admin_click (Module_switch s m b) modules = handleModuleChange s m b modules"

fun user_click :: "switch_click \<Rightarrow> jsval \<Rightarrow> jsval res" where
  "user_click (Section_switch s b) modules = userSectionChange s b modules"
| "user_click (Module_switch s m b) modules = userModuleChange s m b modules"

fun run_clicks :: "(switch_click \<Rightarrow> 'c \<Rightarrow> 'c res) \<Rightarrow> switch_click list \<Rightarrow> 'c \<Rightarrow> 'c res" where
  "run_clicks click [] page = Inr page"
| "run_clicks click (c # cs) page = rbind (click c page) (run_clicks click cs)"

definition last_click :: "switch_click list \<Rightarrow> jstring \<Rightarrow> jstring \<Rightarrow> bool option" where
  "last_click cs s k = map_of (rev (map click_target cs)) (s, k)"

text \<open>\<open>loadSidebarConfigs\<close>: the administrator's configuration, and the user's if the server has one.\<close>

definition loadSidebarConfigs :: "jsval \<Rightarrow> jsval res \<Rightarrow> jsval \<Rightarrow> sidebar_config \<times> jsval" where
  "loadSidebarConfigs status reply modules =
     (adminConfig status, case reply_config reply of Inr (Some config) \<Rightarrow> config | _ \<Rightarrow> modules)"

text \<open>
  \<open>saveSidebarSettings\<close>: the value sent as \<open>sidebar_modules\<close>; on a success the hook is loaded again, with what
  the server then answers.
\<close>

definition saveSidebarSettings ::
  "jsval \<Rightarrow> jsval res \<Rightarrow> sidebar_config \<Rightarrow> jsval res \<Rightarrow> sidebar_hook \<Rightarrow> sidebar_hook \<times> (jsval + unit)" where
  "saveSidebarSettings modules saved admin reply h =
     (case rbind saved (\<lambda>body. rbind (get_prop body (js ''success'')) (\<lambda>success.
             if truthy success then Inr (Inr ()) else rbind (get_prop body (js ''message'')) (\<lambda>message. Inr (Inl message)))) of
        Inl _ \<Rightarrow> (h, Inl (JStr [0x4FDD, 0x5B58, 0x5931, 0x8D25]))
      | Inr (Inr _) \<Rightarrow> (fst (refreshUserConfig admin reply h), Inr ())
      | Inr (Inl message) \<Rightarrow> (h, Inl message))"

definition isAllowedByAdmin :: "sidebar_config option \<Rightarrow> jstring \<Rightarrow> jstring option \<Rightarrow> jsval" where
  "isAllowedByAdmin admin sectionKey moduleKey = (case admin of
       None \<Rightarrow> JBool True
     | Some cfg \<Rightarrow>
         (case moduleKey of
            None \<Rightarrow> setting cfg sectionKey K_ENABLED
          | Some m \<Rightarrow>
              if m = [] then setting cfg sectionKey K_ENABLED
              else if truthy (setting cfg sectionKey K_ENABLED) then setting cfg sectionKey m
              else setting cfg sectionKey K_ENABLED))"

definition all_sections :: "(jstring \<times> jstring list) list" where
  "all_sections = map (\<lambda>(k, ms). (js k, map js ms))
     [(''chat'', [''playground'', ''textToImage'', ''chat'']),
      (''console'', [''detail'', ''token'', ''log'', ''midjourney'', ''task'']),
      (''personal'', [''topup'', ''personal'']),
      (''admin'', [''channel'', ''models'', ''subscription'', ''redemption'', ''user'', ''setting''])]"

definition sectionConfigs :: "jsval \<Rightarrow> sidebar_config option \<Rightarrow> (jstring \<times> jstring list) list" where
  "sectionConfigs permissions admin =
     filter (\<lambda>(k, ms). ms \<noteq> [] \<and> truthy (isAllowedByAdmin admin k None))
       (map (\<lambda>(k, ms). (k, filter (isSidebarModuleAllowed permissions k) ms))
         (filter (\<lambda>(k, ms). isSidebarSectionAllowed permissions k) all_sections))"

text \<open>The modules of a section for which the page has a switch.\<close>

definition offered_modules :: "sidebar_config option \<Rightarrow> jstring \<times> jstring list \<Rightarrow> jstring list" where
  "offered_modules admin section' = (case section' of (k, ms) \<Rightarrow> filter (\<lambda>m. truthy (isAllowedByAdmin admin k (Some m))) ms)"

subsection \<open>Switching an entry on and off\<close>

lemma spread_canon: "obj_canon ob \<Longrightarrow> obj_merge [] (spread_props (JObj ob)) = ob"
  using obj_merge_canon [of "[]" ob] by (simp add: spread_props_def object_entries_def)

text \<open>
  The contract of a page of switches: a click sets its own switch and leaves the others. Whatever is clicked,
  each switch then stands as it was clicked last.
\<close>

locale switch_page =
  fixes click :: "switch_click \<Rightarrow> 'c \<Rightarrow> 'c res" and read :: "'c \<Rightarrow> jstring \<Rightarrow> jstring \<Rightarrow> jsval" and ok :: "'c \<Rightarrow> bool"
  assumes click_works: "ok page \<Longrightarrow> \<exists>page'. click c page = Inr page' \<and> ok page'"
    and read_click: "ok page \<Longrightarrow> click c page = Inr page' \<Longrightarrow>
      read page' s k = (if (s, k) = fst (click_target c) then JBool (snd (click_target c)) else read page s k)"
begin

lemma run_works: "ok page \<Longrightarrow> \<exists>page'. run_clicks click cs page = Inr page' \<and> ok page'"
proof (induction cs arbitrary: page)
  case (Cons c cs)
  obtain page1 where "click c page = Inr page1" "ok page1" using click_works Cons.prems by blast
  then show ?case using Cons.IH by simp
qed simp

lemma read_run:
  "ok page \<Longrightarrow> run_clicks click cs page = Inr page' \<Longrightarrow>
     read page' s k = (case last_click cs s k of Some b \<Rightarrow> JBool b | None \<Rightarrow> read page s k)"
proof (induction cs arbitrary: page)
  case (Cons c cs)
  obtain page1 where p1: "click c page = Inr page1" "ok page1" using click_works Cons.prems(1) by blast
  have "last_click (c # cs) s k =
      (case last_click cs s k of Some b \<Rightarrow> Some b | None \<Rightarrow> if (s, k) = fst (click_target c) then Some (snd (click_target c)) else None)"
    by (cases "click_target c") (simp add: last_click_def map_add_def split: option.split)
  then show ?case using Cons p1 read_click [OF Cons.prems(1) p1(1)] by (simp split: option.split)
qed (simp add: last_click_def)

end

text \<open>The pages hold an object of sections, each an object of values JSON can express.\<close>

definition page_ok :: "jsval \<Rightarrow> bool" where
  "page_ok page \<longleftrightarrow> json_wf page \<and>
     (case page of JObj mods \<Rightarrow> (\<forall>kv \<in> set mods. case snd kv of JObj _ \<Rightarrow> True | _ \<Rightarrow> False) | _ \<Rightarrow> False)"

definition page_switch :: "jsval \<Rightarrow> jstring \<Rightarrow> jstring \<Rightarrow> jsval" where
  "page_switch page s k = opt_prop (opt_prop page s) k"

lemma page_ok_section:
  assumes "page_ok (JObj mods)"
  shows "get_own mods s = JUndef \<or> (\<exists>sec. get_own mods s = JObj sec \<and> json_wf (JObj sec))"
proof (cases "map_of mods s")
  case (Some v)
  then have "(s, v) \<in> set mods" by (rule map_of_SomeD)
  then have "json_wf v" "case v of JObj _ \<Rightarrow> True | _ \<Rightarrow> False" using assms by (force simp: page_ok_def)+
  then show ?thesis using Some by (cases v) (simp_all add: get_own_def)
qed (simp add: get_own_def)

lemma set_switch_page:
  assumes "page_ok page"
  obtains mods sec where "page = JObj mods" "sec = object_entries (get_own mods s)" "json_wf (JObj sec)"
    "set_switch s k b page = Inr (JObj (obj_set s (JObj (obj_set k (JBool b) sec)) mods))"
proof -
  obtain mods where mods: "page = JObj mods" using assms by (auto simp: page_ok_def split: jsval.splits)
  have wf: "json_wf (JObj mods)" using assms by (simp add: page_ok_def mods)
  let ?sec = "object_entries (get_own mods s)"
  have sec: "json_wf (JObj ?sec)"
    using page_ok_section [of mods s] assms mods by (auto simp: object_entries_def)
  have "obj_merge [] (spread_props (get_own mods s)) = ?sec"
    using page_ok_section [of mods s] assms mods spread_canon by (auto simp: spread_props_def object_entries_def obj_merge_def)
  then have "set_switch s k b page = Inr (JObj (obj_set s (JObj (obj_set k (JBool b) ?sec)) mods))"
    using spread_canon [of mods] wf by (simp add: set_switch_def mods get_prop_def)
  then show thesis using that mods sec by blast
qed

lemma page_ok_set:
  assumes "page_ok (JObj mods)" "json_wf (JObj sec)"
  shows "page_ok (JObj (obj_set s (JObj (obj_set k (JBool b) sec)) mods))"
proof -
  have "json_wf (JObj (obj_set s (JObj (obj_set k (JBool b) sec)) mods))"
    by (intro json_wf_set assms(2)) (use assms(1) in \<open>simp_all add: page_ok_def\<close>)
  moreover have "case snd kv of JObj _ \<Rightarrow> True | _ \<Rightarrow> False" if "kv \<in> set (obj_set s (JObj (obj_set k (JBool b) sec)) mods)" for kv
    using set_obj_set [OF that] assms(1) by (auto simp: page_ok_def)
  ultimately show ?thesis by (simp add: page_ok_def)
qed

lemma set_switch_ok: "page_ok page \<Longrightarrow> \<exists>page'. set_switch s k b page = Inr page' \<and> page_ok page'"
  by (rule set_switch_page [of page s k b]) (auto intro: page_ok_set)

lemma set_switch_read:
  assumes "page_ok page" "set_switch s k b page = Inr page'"
  shows "page_switch page' s' k' = (if (s', k') = (s, k) then JBool b else page_switch page s' k')"
proof -
  obtain mods sec where p: "page = JObj mods" "sec = object_entries (get_own mods s)" "json_wf (JObj sec)"
    "set_switch s k b page = Inr (JObj (obj_set s (JObj (obj_set k (JBool b) sec)) mods))"
    using set_switch_page [OF assms(1)] by blast
  have "page_switch page s k' = get_own sec k'"
    using page_ok_section [of mods s] assms(1) p(1)
    by (auto simp: page_switch_def opt_prop_def get_prop_def p(1,2) object_entries_def get_own_def [of "[]"])
  then show ?thesis using assms(2) p(1,4) by (auto simp: page_switch_def opt_prop_def get_prop_def)
qed

lemma click_set_switch:
  "admin_click c page = set_switch (fst (fst (click_target c))) (snd (fst (click_target c))) (snd (click_target c)) page"
  "user_click c page = set_switch (fst (fst (click_target c))) (snd (fst (click_target c))) (snd (click_target c)) page"
  by (cases c; simp add: handleSectionChange_def handleModuleChange_def userSectionChange_def userModuleChange_def)+

interpretation admin_page: switch_page admin_click page_switch page_ok
  by unfold_locales (auto simp: click_set_switch set_switch_ok set_switch_read)

interpretation user_page: switch_page user_click page_switch page_ok
  by unfold_locales (auto simp: click_set_switch set_switch_ok set_switch_read)

text \<open>What a side bar reads of a page that was saved.\<close>

lemma saved_page_setting:
  assumes "page_ok page"
  shows "setting (adminConfig (JStr (json_str page))) s k =
    (if page_switch page s k = JUndef then setting DEFAULT_ADMIN_CONFIG s k else page_switch page s k)"
proof -
  obtain mods where mods: "page = JObj mods" using assms by (auto simp: page_ok_def split: jsval.splits)
  have wf: "json_wf (JObj mods)" using assms by (simp add: page_ok_def mods)
  have "v \<noteq> JUndef" if "json_wf (JObj sec)" "map_of sec k = Some v" for sec v
    using that by (auto dest!: map_of_SomeD)
  then show ?thesis
    using admin_setting_saved [OF wf, of s k] page_ok_section [of mods s] assms mods
    by (auto simp: page_switch_def opt_prop_def get_prop_def object_entries_def get_own_def [of _ k] split: option.split)
qed

lemma submitted_status: "onSubmit modules reply status = (status', Inr ()) \<Longrightarrow> status' = JStr (json_str modules)"
  by (auto simp: onSubmit_def split: sum.splits prod.splits if_splits)

lemma admin_clicks_setting:
  assumes "page_ok page" "run_clicks admin_click cs page = Inr modules" "onSubmit modules reply status = (status', Inr ())"
  shows "setting (adminConfig status') s k =
    (case last_click cs s k of Some b \<Rightarrow> JBool b | None \<Rightarrow> setting (adminConfig (JStr (submitted page))) s k)"
proof -
  have "page_ok modules" using admin_page.run_works [OF assms(1), of cs] assms(2) by auto
  then show ?thesis
    using admin_page.read_run [OF assms(1,2), of s k]
    by (auto simp: submitted_status [OF assms(3)] submitted_def saved_page_setting assms(1) split: option.split)
qed

text \<open>
  Whatever the administrator clicks on the page before saving, every switch that side bars read
  afterwards stands as it was clicked last, and a switch that was not clicked as it stood before.
\<close>

theorem saved_switches:
  assumes "page_ok page" "run_clicks admin_click cs page = Inr modules" "onSubmit modules reply status = (status', Inr ())"
  shows "setting (adminConfig status') s k =
    (case last_click cs s k of Some b \<Rightarrow> JBool b | None \<Rightarrow> setting (adminConfig (JStr (submitted page))) s k)"
  using assms by (rule admin_clicks_setting)

definition ok_reply :: "jsval res" where
  "ok_reply = Inr (JObj [(js ''success'', JBool True)])"

abbreviation sample_clicks :: "switch_click list" where
  "sample_clicks \<equiv> [Module_switch (js ''chat'') (js ''chat'') False]"

abbreviation sample_modules :: jsval where
  "sample_modules \<equiv> JObj [(js ''chat'', JObj [(js ''chat'', JBool False)])]"

lemma sample_switch:
  "run_clicks admin_click sample_clicks (JObj []) = Inr sample_modules"
  "run_clicks user_click sample_clicks (JObj []) = Inr sample_modules"
  "onSubmit modules ok_reply status = (JStr (json_str modules), Inr ())"
  "page_ok (JObj [])" "last_click sample_clicks (js ''chat'') (js ''chat'') = Some False"
  by (simp_all add: handleModuleChange_def userModuleChange_def set_switch_def get_prop_def get_own_def spread_props_def
      object_entries_def obj_merge_def obj_set_def onSubmit_def ok_reply_def page_ok_def last_click_def)

theorem saved_switches_witness:
  "setting (adminConfig (JStr (json_str sample_modules))) (js ''chat'') (js ''chat'') = JBool False"
  using saved_switches [OF sample_switch(4) sample_switch(1) sample_switch(3) [where status = JUndef],
      of "js ''chat''" "js ''chat''"] sample_switch(5) by simp

text \<open>
  C4. What the administrator has switched off and saved is shown to no user, whatever the user's configuration.
\<close>

theorem switched_off_is_hidden:
  assumes "page_ok page" "run_clicks admin_click cs page = Inr modules" "onSubmit modules reply status = (status', Inr ())"
    and "last_click cs s m = Some False \<or> last_click cs s K_ENABLED = Some False" "m \<noteq> []" "m \<noteq> K_ENABLED"
  shows "\<not> isModuleVisible (finalConfig (adminConfig status') u) s (Some m)"
  using admin_clicks_setting [OF assms(1-3), of s m] admin_clicks_setting [OF assms(1-3), of s K_ENABLED] assms(4)
  by (auto simp: module_visible [OF admin_wf_adminConfig assms(5,6)])

theorem switched_off_is_hidden_witness:
  "\<not> isModuleVisible (finalConfig (adminConfig (JStr (json_str sample_modules))) (JObj [])) (js ''chat'') (Some (js ''chat''))"
  using switched_off_is_hidden [OF sample_switch(4) sample_switch(1) sample_switch(3) [where status = JUndef],
      of "js ''chat''" "js ''chat''" "JObj []"] sample_switch(5) by simp

text \<open>The server answers with the text it was sent.\<close>

definition stored_reply :: "jsval \<Rightarrow> jsval res" where
  "stored_reply modules = Inr (JObj [(js ''success'', JBool True), (js ''data'',
     JObj [(js ''sidebar_modules'', JStr (json_str modules))])])"

lemma json_str_obj: "json_str (JObj ob) \<noteq> []"
  by simp

lemma stored_reply_config: "json_wf (JObj ob) \<Longrightarrow> loaded_config admin (stored_reply (JObj ob)) = JObj ob"
  using compact.dec_enc [of "JObj ob"] json_str_obj [of ob]
  by (simp add: loaded_config_def reply_config_def stored_reply_def get_prop_def get_own_def read_config_def
      del: json_str.simps json_wf.simps)

lemma adminConfig_not_Nil: "adminConfig status \<noteq> []"
proof
  assume *: "adminConfig status = []"
  have "obj_set k v ob \<noteq> []" for k :: jstring and v :: jsobj and ob
    by (metis list.distinct(1) map_of_obj_set fun_upd_same map_of.simps(1) option.distinct(1))
  then have ne: "cfg \<noteq> [] \<Longrightarrow> merge_section cfg e \<noteq> []" for cfg e
    by (cases e) (simp add: merge_section_def split: option.split)
  have "cfg \<noteq> [] \<Longrightarrow> foldl merge_section cfg es \<noteq> []" for cfg es
    by (induction es arbitrary: cfg) (simp_all add: ne)
  then have "mergeAdminConfig v \<noteq> []" for v by (simp add: mergeAdminConfig_def DEFAULT_ADMIN_CONFIG_def)
  then show False using * by (auto simp: adminConfig_def split: if_splits sum.splits option.splits)
qed

text \<open>
  C30. What the user clicks takes effect as soon as it is saved, and only within what the administrator allows: a
  module is shown exactly if the administrator has switched it and its section on, and on the page of the user
  neither stands switched off.
\<close>

theorem user_switches_take_effect:
  assumes "page_ok page" "run_clicks user_click cs page = Inr modules" "m \<noteq> []" "m \<noteq> K_ENABLED"
    and "saveSidebarSettings modules saved (adminConfig status) (stored_reply modules) h = (h', Inr ())"
  shows "isModuleVisible (finalConfig (adminConfig status) (sh_userConfig h')) s (Some m) \<longleftrightarrow>
    truthy (setting (adminConfig status) s K_ENABLED) \<and> truthy (setting (adminConfig status) s m) \<and>
    (\<forall>k \<in> {K_ENABLED, m}. case last_click cs s k of Some b \<Rightarrow> b | None \<Rightarrow> page_switch page s k \<noteq> JBool False)"
proof -
  have ok: "page_ok modules" using user_page.run_works [OF assms(1), of cs] assms(2) by auto
  then obtain ob where ob: "modules = JObj ob" "json_wf (JObj ob)" by (auto simp: page_ok_def split: jsval.splits)
  have "h' = fst (refreshUserConfig (adminConfig status) (stored_reply modules) h)"
    using assms(5) by (auto simp: saveSidebarSettings_def split: sum.splits)
  then have u: "sh_userConfig h' = JObj ob"
    using stored_reply_config [OF ob(2)] adminConfig_not_Nil by (simp add: refreshUserConfig_def loadUserConfig_ends(4) ob(1))
  have "user_allows (opt_prop (JObj ob) s) k \<longleftrightarrow> page_switch modules s k \<noteq> JBool False" for k
    using page_ok_section [of ob s] ok
    by (auto simp: user_allows_def page_switch_def ob(1) opt_prop_def get_prop_def)
  then have "user_allows (opt_prop (JObj ob) s) k \<longleftrightarrow>
      (case last_click cs s k of Some b \<Rightarrow> b | None \<Rightarrow> page_switch page s k \<noteq> JBool False)" for k
    using user_page.read_run [OF assms(1,2), of s k] by (simp split: option.split)
  then show ?thesis by (auto simp: module_visible [OF admin_wf_adminConfig assms(3,4)] u)
qed

theorem user_switches_take_effect_witness:
  "\<not> isModuleVisible (finalConfig (adminConfig JUndef) (sh_userConfig (fst (saveSidebarSettings sample_modules ok_reply
      (adminConfig JUndef) (stored_reply sample_modules) (init_hook []))))) (js ''chat'') (Some (js ''chat''))"
proof -
  let ?r = "saveSidebarSettings sample_modules ok_reply (adminConfig JUndef) (stored_reply sample_modules) (init_hook [])"
  have "?r = (fst ?r, Inr ())" by (simp add: saveSidebarSettings_def ok_reply_def get_prop_def get_own_def)
  from user_switches_take_effect [OF sample_switch(4) sample_switch(2) _ _ this, of "js ''chat''" "js ''chat''"] sample_switch(5)
  show ?thesis by simp
qed

subsection \<open>What the menu shows\<close>

lemma rendered_nav: "k \<in> set (concat (map renderNavItem items)) \<Longrightarrow> \<exists>item \<in> set items. k = ni_key item \<and> \<not> ni_hidden item"
  by (auto simp: renderNavItem_def split: if_splits)

lemma items_visible:
  "item \<in> set (workspaceItems store final) \<Longrightarrow> isModuleVisible final (js ''console'') (Some (ni_key item))"
  "item \<in> set (personalItems final) \<Longrightarrow> isModuleVisible final (js ''personal'') (Some (ni_key item))"
  "item \<in> set (financeItems final) \<Longrightarrow>
     ni_key item = js ''revenue-management'' \<or> isModuleVisible final (js ''finance'') (Some (ni_key item))"
  "item \<in> set (adminItems admin rootUser final) \<Longrightarrow> isModuleVisible final (js ''admin'') (Some (ni_key item))"
  "item \<in> set (chatMenuItems chats final) \<Longrightarrow> isModuleVisible final (js ''chat'') (Some (ni_key item))"
  by (simp_all only: workspaceItems_def personalItems_def financeItems_def adminItems_def chatMenuItems_def set_filter
      mem_Collect_eq simp_thms)

lemma setting_needs_root:
  "item \<in> set (adminItems admin rootUser final) \<Longrightarrow> ni_key item = js ''setting'' \<Longrightarrow> \<not> ni_hidden item \<Longrightarrow> rootUser"
  by (simp only: adminItems_def set_filter mem_Collect_eq) (auto simp: nav_def)

lemma chats_below_entry:
  "item \<in> set (chatMenuItems chats final) \<Longrightarrow> ni_items item \<noteq> [] \<Longrightarrow> ni_items item = chats \<and> ni_key item = js ''chat''"
  by (simp only: chatMenuItems_def set_filter mem_Collect_eq) (auto simp: nav_def)

lemma rendered_sub:
  "k \<in> set (concat (map renderSubItem (chatMenuItems chats final))) \<Longrightarrow>
     isModuleVisible final (js ''chat'') (Some k) \<or> k \<in> ci_key ` set chats \<and> isModuleVisible final (js ''chat'') (Some (js ''chat''))"
  using items_visible(5) [of _ chats final] chats_below_entry [of _ chats final]
  by (fastforce simp: renderSubItem_def renderNavItem_def split: if_splits)

text \<open>
  C31. Every entry the side bar renders is one the configuration shows; the chats appear below their own entry;
  the entry for managing revenue alone is not looked up. The financial and the administrator's sections appear
  for administrators only, and the system settings for the root user only.
\<close>

theorem menu_entries_allowed:
  assumes "SiderBar store chats final = Inr menu" "(sec, keys) \<in> set menu" "k \<in> set keys"
  shows "(isModuleVisible final sec (Some k) \<or>
      sec = js ''chat'' \<and> k \<in> ci_key ` set chats \<and> isModuleVisible final sec (Some (js ''chat'')) \<or>
      sec = js ''finance'' \<and> k = js ''revenue-management'') \<and>
    hasSectionVisibleModules final sec \<and>
    (sec = js ''finance'' \<or> sec = js ''admin'' \<longrightarrow> isAdmin store = Inr True) \<and>
    (sec = js ''admin'' \<and> k = js ''setting'' \<longrightarrow> isRoot store = Inr True)"
proof -
  obtain admin rootUser where r: "isAdmin store = Inr admin" "isRoot store = Inr rootUser"
    "menu = sidebar_sections admin rootUser store chats final"
    using assms(1) by (auto simp: SiderBar_def rbind_Inr_iff)
  consider (chat) "sec = js ''chat''" "keys = concat (map renderSubItem (chatMenuItems chats final))" "hasSectionVisibleModules final sec"
    | (console) "sec = js ''console''" "keys = concat (map renderNavItem (workspaceItems store final))" "hasSectionVisibleModules final sec"
    | (personal) "sec = js ''personal''" "keys = concat (map renderNavItem (personalItems final))" "hasSectionVisibleModules final sec"
    | (finance) "sec = js ''finance''" "keys = concat (map renderNavItem (financeItems final))" "hasSectionVisibleModules final sec" admin
    | (admin) "sec = js ''admin''" "keys = concat (map renderNavItem (adminItems admin rootUser final))" "hasSectionVisibleModules final sec" admin
    using assms(2) by (auto simp: r(3) sidebar_sections_def split: if_splits)
  then show ?thesis
  proof cases
    case chat
    then show ?thesis using rendered_sub [of k chats final] assms(3) by auto
  next
    case console
    then show ?thesis using rendered_nav [of k "workspaceItems store final"] items_visible(1) assms(3) by auto
  next
    case personal
    then show ?thesis using rendered_nav [of k "personalItems final"] items_visible(2) assms(3) by auto
  next
    case finance
    then show ?thesis using rendered_nav [of k "financeItems final"] items_visible(3) assms(3) r by auto
  next
    case admin
    obtain item where item: "item \<in> set (adminItems admin rootUser final)" "k = ni_key item" "\<not> ni_hidden item"
      using rendered_nav [of k] assms(3) admin(2) by blast
    have "rootUser" if "k = js ''setting''" using setting_needs_root item that by blast
    moreover have "isModuleVisible final sec (Some k)" using items_visible(4) item admin(1) by blast
    ultimately show ?thesis using admin r by auto
  qed
qed

definition sample_final :: sidebar_config where
  "sample_final = [(js ''console'', switches [''log''])]"

lemma sample_menu: "SiderBar (\<lambda>_. None) [] sample_final = Inr [(js ''console'', [js ''log''])]"
  by (simp add: SiderBar_def isAdmin_def isRoot_def role_at_least_def sidebar_sections_def sample_final_def
      hasSectionVisibleModules_def switches_def get_own_def workspaceItems_def renderNavItem_def isModuleVisible_def
      setting_def nav_def)

theorem menu_entries_allowed_witness:
  "SiderBar (\<lambda>_. None) [] sample_final = Inr [(js ''console'', [js ''log''])] \<and>
   isModuleVisible sample_final (js ''console'') (Some (js ''log''))"
  using menu_entries_allowed [OF sample_menu, of "js ''console''" "[js ''log'']" "js ''log''"] sample_menu by simp

text \<open>
  The entry of the data centre is never shown, to the root user either, unless the administrator's stored
  text itself has a switch \<open>dashboardBoard\<close>: neither the defaults nor the page of the administrator has one.
\<close>

theorem dashboard_entry_missing:
  assumes "json_wf (JObj saved)" "js ''dashboardBoard'' \<notin> fst ` set (object_entries (get_own saved (js ''admin'')))"
  shows "js ''dashboardBoard'' \<notin>
    ni_key ` set (adminItems True True (finalConfig (adminConfig (JStr (submitted (JObj saved)))) u))"
proof -
  have "setting (adminConfig (JStr (submitted (JObj saved)))) (js ''admin'') (js ''dashboardBoard'') =
      setting DEFAULT_ADMIN_CONFIG (js ''admin'') (js ''dashboardBoard'')"
    using admin_setting_saved [OF assms(1), of "js ''admin''" "js ''dashboardBoard''"] assms(2)
    by (auto simp: submitted_def split: option.split dest!: map_of_SomeD intro: rev_image_eqI)
  also have "\<dots> = JUndef" by (simp add: DEFAULT_ADMIN_CONFIG_def setting_def switches_def get_own_def)
  finally have "\<not> isModuleVisible (finalConfig (adminConfig (JStr (submitted (JObj saved)))) u) (js ''admin'') (Some (js ''dashboardBoard''))"
    by (simp add: module_visible [OF admin_wf_adminConfig])
  then show ?thesis using items_visible(4) by fastforce
qed

theorem dashboard_entry_missing_witness:
  "js ''dashboardBoard'' \<notin> ni_key ` set (adminItems True True (finalConfig (adminConfig (JStr (submitted (JObj [])))) (JObj [])))"
  using dashboard_entry_missing [of "[]" "JObj []"] by (simp add: get_own_def object_entries_def)

subsection \<open>Navigation\<close>

abbreviation bottom_open :: "menu_state \<Rightarrow> jstring list" where
  "bottom_open m \<equiv> filter (\<lambda>k. k \<in> {js ''finance'', js ''admin''}) (ms_opened m)"

text \<open>
  Opening a submenu by hand leaves at most one of the two submenus at the bottom open, as the comment in the
  source asks. Following a route does not: a visit to a financial page while the administrator's submenu is open
  leaves both open.
\<close>

theorem open_change_accordion: "length (bottom_open (onOpenChange keys m)) \<le> 1"
proof (cases "length (filter (\<lambda>k. k \<in> set [js ''finance'', js ''admin'']) keys) > 1")
  case True
  then show ?thesis by (simp add: onOpenChange_def Let_def)
next
  case False
  then show ?thesis by (simp add: onOpenChange_def Let_def)
qed

theorem route_opens_both:
  "bottom_open (on_location (js ''/console/finance'') (onOpenChange [js ''admin''] init_menu)) = [js ''admin'', js ''finance'']"
  by (simp add: on_location_def Let_def onOpenChange_def init_menu_def open_finance_def split: option.split)

text \<open>The page that makes videos has an entry but no route: opening its address selects no entry.\<close>

theorem video_page_not_selected:
  "on_location (js ''/console/text-to-video'') init_menu = init_menu \<and>
   ms_selected (fst (onSelect (js ''textToVideo'') init_menu)) = [js ''textToVideo''] \<and>
   link_target init_menu (js ''textToVideo'') = None"
proof -
  have "matching_key routerMap (js ''/console/text-to-video'') = None"
    by (simp add: matching_key_def routerMap_def) (simp add: js_def)
  moreover have "\<not> starts_with (js ''/console/text-to-video'') (js ''/console/finance/'')" by (simp add: js_def)
  ultimately show ?thesis
    by (simp add: on_location_def init_menu_def onSelect_def link_target_def routerMap_def Let_def)
qed

lemma obj_set_last: "array_index k = None \<Longrightarrow> k \<notin> fst ` set ob \<Longrightarrow> obj_set k v ob = ob @ [(k, v)]"
proof -
  assume "array_index k = None" "k \<notin> fst ` set ob"
  moreover from this(1) have "obj_insert k v ob = ob @ [(k, v)]" by (induction ob) auto
  ultimately show ?thesis by (simp add: obj_set_def)
qed

lemma chat_key_fresh: "js ''chat'' @ dec i \<notin> fst ` set routerMap"
  by (simp add: routerMap_def) (simp add: js_def)

lemma chat_path_fresh: "js ''/console/chat/'' @ dec i \<notin> snd ` set routerMap"
  by (simp add: routerMap_def) (simp add: js_def)

lemma chat_routes:
  "updateRouterMapWithChats chats =
     routerMap @ map (\<lambda>i. (js ''chat'' @ dec i, js ''/console/chat/'' @ dec i)) [0..<length chats]"
proof -
  have "foldl (\<lambda>m i. obj_set (js ''chat'' @ dec i) (js ''/console/chat/'' @ dec i) m) routerMap [0..<n] =
      routerMap @ map (\<lambda>i. (js ''chat'' @ dec i, js ''/console/chat/'' @ dec i)) [0..<n]" for n
  proof (induction n)
    case (Suc n)
    have "array_index (js ''chat'' @ dec n) = None" by (simp add: array_index_def js_def is_digit_def)
    moreover have "js ''chat'' @ dec n \<notin>
        fst ` set (routerMap @ map (\<lambda>i. (js ''chat'' @ dec i, js ''/console/chat/'' @ dec i)) [0..<n])"
      using chat_key_fresh [of n] by (auto simp: image_Un)
    ultimately have "obj_set (js ''chat'' @ dec n) (js ''/console/chat/'' @ dec n)
          (routerMap @ map (\<lambda>i. (js ''chat'' @ dec i, js ''/console/chat/'' @ dec i)) [0..<n]) =
        (routerMap @ map (\<lambda>i. (js ''chat'' @ dec i, js ''/console/chat/'' @ dec i)) [0..<n]) @
          [(js ''chat'' @ dec n, js ''/console/chat/'' @ dec n)]"
      by (rule obj_set_last)
    then show ?case using Suc by simp
  qed simp
  then show ?thesis by (simp add: updateRouterMapWithChats_def)
qed

lemma chat_route_lookup:
  assumes "i < length chats"
  shows "map_of (updateRouterMapWithChats chats) (js ''chat'' @ dec i) = Some (js ''/console/chat/'' @ dec i)"
    and "matching_key (updateRouterMapWithChats chats) (js ''/console/chat/'' @ dec i) = Some (js ''chat'' @ dec i)"
proof -
  let ?added = "map (\<lambda>i. (js ''chat'' @ dec i, js ''/console/chat/'' @ dec i)) [0..<length chats]"
  have "map_of routerMap (js ''chat'' @ dec i) = None" using chat_key_fresh by (simp add: map_of_eq_None_iff)
  moreover have "map_of ?added (js ''chat'' @ dec i) = Some (js ''/console/chat/'' @ dec i)"
    by (rule map_of_is_SomeI) (use assms in \<open>auto simp: distinct_map inj_on_def comp_def\<close>)
  ultimately show "map_of (updateRouterMapWithChats chats) (js ''chat'' @ dec i) = Some (js ''/console/chat/'' @ dec i)"
    by (simp add: chat_routes map_add_def del: map_map)
  have "find (\<lambda>kp. snd kp = js ''/console/chat/'' @ dec i) (updateRouterMapWithChats chats) =
      Some (js ''chat'' @ dec i, js ''/console/chat/'' @ dec i)"
    unfolding find_Some_iff
  proof (intro exI conjI allI impI)
    show "length routerMap + i < length (updateRouterMapWithChats chats)" using assms by (simp add: chat_routes)
    show "\<not> snd (updateRouterMapWithChats chats ! j) = js ''/console/chat/'' @ dec i" if "j < length routerMap + i" for j
    proof (cases "j < length routerMap")
      case True
      then have "updateRouterMapWithChats chats ! j \<in> set routerMap" by (simp add: chat_routes nth_append)
      then show ?thesis using chat_path_fresh [of i] by (metis imageI)
    next
      case False
      moreover from False that assms have "j - length routerMap < length chats" "j - length routerMap \<noteq> i" by auto
      ultimately show ?thesis by (simp add: chat_routes nth_append)
    qed
  qed (use assms in \<open>simp_all add: chat_routes nth_append\<close>)
  then show "matching_key (updateRouterMapWithChats chats) (js ''/console/chat/'' @ dec i) = Some (js ''chat'' @ dec i)"
    by (simp add: matching_key_def)
qed

text \<open>
  The entry of a chat leads to the page of the chat, and on that page the entry is the one selected.
\<close>

theorem chat_entry_selected:
  assumes "store (js ''chats'') = Some txt'" "json_parse txt' = Some (JArr chats)" "txt' \<noteq> []"
    and "item \<in> set (ms_chats (fst (load_chats store init_menu)))"
  shows "link_target (fst (load_chats store init_menu)) (ci_key item) = Some (ci_to item) \<and>
    ms_selected (on_location (ci_to item) (fst (load_chats store init_menu))) = [ci_key item]"
proof -
  let ?m = "fst (load_chats store init_menu)"
  have m: "ms_chats ?m = chat_items chats" "ms_routes ?m = updateRouterMapWithChats chats"
    using assms(1-3) by (simp_all add: load_chats_def)
  obtain i where i: "i < length chats" "ci_key item = js ''chat'' @ dec i" "ci_to item = js ''/console/chat/'' @ dec i"
    using assms(4) by (auto simp: m chat_items_def chat_at_def split: option.splits if_splits)
  show ?thesis
    using chat_route_lookup [OF i(1)] by (simp add: i(2,3) m(2) link_target_def on_location_def Let_def)
qed

definition sample_chats :: "jsval list" where
  "sample_chats = [JObj [(js ''App'', JStr (js ''https://app''))]]"

definition sample_store :: local_storage where
  "sample_store k = (if k = js ''chats'' then Some (json_str (JArr sample_chats)) else None)"

theorem chat_entry_selected_witness:
  "link_target (fst (load_chats sample_store init_menu)) (js ''chat0'') = Some (js ''/console/chat/0'') \<and>
   ms_selected (on_location (js ''/console/chat/0'') (fst (load_chats sample_store init_menu))) = [js ''chat0'']"
proof -
  let ?item = "\<lparr>ci_text = js ''App'', ci_key = js ''chat0'', ci_to = js ''/console/chat/0''\<rparr>"
  have p: "json_parse (json_str (JArr sample_chats)) = Some (JArr sample_chats)"
    by (rule compact.dec_enc) (simp add: sample_chats_def obj_canon_def)
  have ne: "json_str (JArr sample_chats) \<noteq> []" by simp
  have store: "sample_store (js ''chats'') = Some (json_str (JArr sample_chats))" by (simp add: sample_store_def)
  have "chat_items sample_chats = [?item]"
    by (simp add: chat_items_def chat_at_def sample_chats_def spread_props_def object_entries_def) (simp add: js_def dec.simps [of 0])
  then have "?item \<in> set (ms_chats (fst (load_chats sample_store init_menu)))"
    using p ne store by (simp add: load_chats_def del: json_str.simps)
  from chat_entry_selected [OF store p ne this] show ?thesis by simp
qed

text \<open>
  The page of the user offers a section only if the permissions and the administrator allow it and some module of
  it is left.
\<close>

lemma sectionConfigs_offered:
  "(k, ms) \<in> set (sectionConfigs permissions admin) \<Longrightarrow>
     ms \<noteq> [] \<and> isSidebarSectionAllowed permissions k \<and> truthy (isAllowedByAdmin admin k None) \<and>
     (\<forall>m \<in> set ms. isSidebarModuleAllowed permissions k m)"
  by (auto simp: sectionConfigs_def)

text \<open>What the user can switch is what the administrator's configuration lets be shown.\<close>

lemma offered_can_be_shown:
  assumes "(k, ms) \<in> set (sectionConfigs permissions (Some (adminConfig status)))"
    and "m \<in> set (offered_modules (Some (adminConfig status)) (k, ms))" "m \<noteq> []" "m \<noteq> K_ENABLED"
  shows "isModuleVisible (finalConfig (adminConfig status) (JObj [])) k (Some m)"
  using assms by (auto simp: offered_modules_def isAllowedByAdmin_def module_visible [OF admin_wf_adminConfig]
      user_allows_def opt_prop_def get_prop_def get_own_def split: if_splits)

end
