(* ===== verification/QuotaDisplay.thy ===== *)
theory QuotaDisplay
  imports JsFixed JsJson "HOL-Library.Word"
begin

text \<open>
  How amounts and names are shown: quotas and prices in the chosen currency, abbreviated numbers and colours
  (\<open>helpers/render.jsx\<close>), and the conversion between a quota and the amount typed for it (\<open>helpers/quota.js\<close>).
  The settings come from \<open>localStorage\<close>: the kind of display, the quota per unit, and the text of the server's
  status with the exchange rates. A rate or a symbol that is no number or text is converted as in arithmetic and
  concatenation. \<open>Math.pow(10, -d)\<close> is the double nearest to the power.
\<close>

unbundle bit_operations_syntax

type_synonym display_store = "jstring \<Rightarrow> jstring option"

subsection \<open>Settings\<close>

definition T_USD :: jstring where "T_USD = js ''USD''"
definition T_CNY :: jstring where "T_CNY = js ''CNY''"
definition T_CUSTOM :: jstring where "T_CUSTOM = js ''CUSTOM''"
definition T_TOKENS :: jstring where "T_TOKENS = js ''TOKENS''"
definition SYM_DOLLAR :: jstring where "SYM_DOLLAR = js ''$''"
definition SYM_YEN :: jstring where "SYM_YEN = [0xA5]"
definition SYM_GENERIC :: jstring where "SYM_GENERIC = [0xA4]"

lemmas display_texts = T_USD_def T_CNY_def T_CUSTOM_def T_TOKENS_def SYM_DOLLAR_def SYM_YEN_def SYM_GENERIC_def

definition getQuotaDisplayType :: "display_store \<Rightarrow> jstring" where
  "getQuotaDisplayType store = (case store (js ''quota_display_type'') of
       None \<Rightarrow> T_USD
     | Some s \<Rightarrow> if s = [] then T_USD else s)"

text \<open>The parsed status, if there is a text and it is JSON.\<close>

definition stored_status :: "display_store \<Rightarrow> jsval option" where
  "stored_status store = (case store (js ''status'') of
       None \<Rightarrow> None
     | Some s \<Rightarrow> if s = [] then None else json_parse s)"

definition val_number :: "jsval \<Rightarrow> jsnum" where
  "val_number v = (case js_Number v of Inr n \<Rightarrow> n | Inl _ \<Rightarrow> NaN)"

definition val_text :: "jsval \<Rightarrow> jstring" where
  "val_text v = (case js_String v of Inr s \<Rightarrow> s | Inl _ \<Rightarrow> [])"

definition status_rate :: "jsval \<Rightarrow> string \<Rightarrow> jsnum" where
  "status_rate s k = val_number (js_or (opt_prop s (js k)) (JNum (Num 1)))"

definition status_symbol :: "jsval \<Rightarrow> jstring" where
  "status_symbol s = val_text (js_or (opt_prop s (js ''custom_currency_symbol'')) (JStr SYM_GENERIC))"

record currency =
  cu_symbol :: jstring
  cu_rate :: jsnum
  cu_type :: jstring

definition getCurrencyConfig :: "display_store \<Rightarrow> currency" where
  "getCurrencyConfig store =
     (let type = getQuotaDisplayType store in
      if type = T_CNY
      then \<lparr>cu_symbol = SYM_YEN,
            cu_rate = (case stored_status store of None \<Rightarrow> Num 1 | Some s \<Rightarrow> status_rate s ''usd_exchange_rate''), cu_type = type\<rparr>
      else if type = T_CUSTOM
      then (case stored_status store of
              None \<Rightarrow> \<lparr>cu_symbol = SYM_DOLLAR, cu_rate = Num 1, cu_type = type\<rparr>
            | Some s \<Rightarrow> \<lparr>cu_symbol = status_symbol s, cu_rate = status_rate s ''custom_currency_exchange_rate'', cu_type = type\<rparr>)
      else \<lparr>cu_symbol = SYM_DOLLAR, cu_rate = Num 1, cu_type = type\<rparr>)"

text \<open>\<open>parseFloat(localStorage.getItem(k))\<close>; for a missing item this reads the text null.\<close>

definition stored_number :: "display_store \<Rightarrow> string \<Rightarrow> jsnum" where
  "stored_number store k = (case store (js k) of None \<Rightarrow> parse_float (js ''null'') | Some s \<Rightarrow> parse_float s)"

subsection \<open>Numbers and amounts as texts\<close>

definition renderNumber :: "jsnum \<Rightarrow> jsval" where
  "renderNumber num =
     (if num_le (Num 1000000000) num then JStr (to_fixed 1 (num_div num (Num 1000000000)) @ js ''B'')
      else if num_le (Num 1000000) num then JStr (to_fixed 1 (num_div num (Num 1000000)) @ js ''M'')
      else if num_le (Num 10000) num then JStr (to_fixed 1 (num_div num (Num 1000)) @ js ''k'')
      else JNum num)"

definition renderQuotaNumberWithDigit :: "display_store \<Rightarrow> jsval \<Rightarrow> nat \<Rightarrow> jsval" where
  "renderQuotaNumberWithDigit store v digits = (case v of
       JNum num \<Rightarrow>
         if num = NaN then JNum (Num 0)
         else (let type = getQuotaDisplayType store;
                   (rate, symbol) = (case stored_status store of
                     None \<Rightarrow> (Num 1, SYM_DOLLAR)
                   | Some s \<Rightarrow>
                       if type = T_CNY then (status_rate s ''usd_exchange_rate'', SYM_YEN)
                       else if type = T_CUSTOM then (status_rate s ''custom_currency_exchange_rate'', status_symbol s)
                       else (Num 1, SYM_DOLLAR))
               in JStr (symbol @ to_fixed digits (num_mul num rate)))
     | _ \<Rightarrow> JNum (Num 0))"

definition renderNumberWithPoint :: "jsnum option \<Rightarrow> jstring" where
  "renderNumberWithPoint num = (case num of
       None \<Rightarrow> []
     | Some n \<Rightarrow>
         (let numStr = to_fixed 2 n in
          if num_le (Num 100000) (string_to_number numStr)
          then (let (wholePart, decimalPart) =
                      (if 46 \<in> set numStr then (takeWhile (\<lambda>c. c \<noteq> 46) numStr, dropWhile (\<lambda>c. c \<noteq> 46) numStr)
                       else (numStr, []))
                in js_slice 0 2 wholePart @ js ''..'' @ js_slice (- 2) (int (length wholePart)) wholePart @ decimalPart)
          else numStr))"

definition getQuotaPerUnit_raw :: "display_store \<Rightarrow> jsnum" where
  "getQuotaPerUnit_raw store = stored_number store ''quota_per_unit''"

definition renderUnitWithQuota :: "display_store \<Rightarrow> jsval \<Rightarrow> jsnum" where
  "renderUnitWithQuota store quota = num_mul (stored_number store ''quota_per_unit'') (parse_float (val_text quota))"

definition getQuotaWithUnit :: "display_store \<Rightarrow> jsnum \<Rightarrow> nat \<Rightarrow> jstring" where
  "getQuotaWithUnit store quota digits = to_fixed digits (num_div quota (stored_number store ''quota_per_unit''))"

definition renderQuotaWithAmount :: "display_store \<Rightarrow> jsval \<Rightarrow> bool \<Rightarrow> jsval" where
  "renderQuotaWithAmount store amount skipConversion =
     (let type = getQuotaDisplayType store in
      if type = T_TOKENS then renderNumber (renderUnitWithQuota store amount)
      else (let numericAmount = val_number amount;
                formattedAmount = (if num_finite numericAmount then to_fixed 2 numericAmount else val_text amount);
                symbol = (case stored_status store of None \<Rightarrow> SYM_GENERIC | Some s \<Rightarrow> status_symbol s) in
        if skipConversion then
          (if type = T_CNY then JStr (SYM_YEN @ formattedAmount)
           else if type = T_CUSTOM then JStr (symbol @ formattedAmount)
           else JStr (SYM_DOLLAR @ formattedAmount))
        else if type = T_CNY then
          JStr (SYM_YEN @ to_fixed 2 (num_mul numericAmount
            (case stored_status store of None \<Rightarrow> Num 1 | Some s \<Rightarrow> status_rate s ''usd_exchange_rate'')))
        else if type = T_CUSTOM then
          JStr (symbol @ to_fixed 2 (num_mul numericAmount
            (case stored_status store of None \<Rightarrow> Num 1 | Some s \<Rightarrow> status_rate s ''custom_currency_exchange_rate'')))
        else JStr (SYM_DOLLAR @ formattedAmount)))"

definition convertUSDToCurrency :: "display_store \<Rightarrow> jsnum \<Rightarrow> nat \<Rightarrow> jstring" where
  "convertUSDToCurrency store usdAmount digits =
     (let c = getCurrencyConfig store in cu_symbol c @ to_fixed digits (num_mul usdAmount (cu_rate c)))"

definition convertUSDToCurrencyFixed :: "jsval \<Rightarrow> nat \<Rightarrow> jstring" where
  "convertUSDToCurrencyFixed usdAmount digits = SYM_DOLLAR @ to_fixed digits (val_number (js_or usdAmount (JNum (Num 0))))"

definition power_of_ten :: "nat \<Rightarrow> jsnum" where
  "power_of_ten digits = rnd (1 / 10 ^ digits)"

definition quota_currency :: "display_store \<Rightarrow> jsnum \<Rightarrow> jstring \<times> jsnum" where
  "quota_currency store resultUSD =
     (let type = getQuotaDisplayType store in
      if type = T_CNY
      then (SYM_YEN, num_mul resultUSD (case stored_status store of None \<Rightarrow> Num 1 | Some s \<Rightarrow> status_rate s ''usd_exchange_rate''))
      else if type = T_CUSTOM
      then (case stored_status store of
              None \<Rightarrow> (SYM_GENERIC, num_mul resultUSD (Num 1))
            | Some s \<Rightarrow> (status_symbol s, num_mul resultUSD (status_rate s ''custom_currency_exchange_rate'')))
      else (SYM_DOLLAR, resultUSD))"

definition renderQuota :: "display_store \<Rightarrow> jsnum \<Rightarrow> nat \<Rightarrow> jsval" where
  "renderQuota store quota digits =
     (if getQuotaDisplayType store = T_TOKENS then renderNumber quota
      else (let (symbol, v) = quota_currency store (num_div quota (stored_number store ''quota_per_unit''));
                fixedResult = to_fixed digits v in
        if parse_float fixedResult = Num 0 \<and> num_lt (Num 0) quota \<and> num_lt (Num 0) v
        then JStr (symbol @ to_fixed digits (power_of_ten digits))
        else JStr (symbol @ fixedResult)))"

subsection \<open>Quotas and typed amounts\<close>

definition number_or_zero :: "jsnum \<Rightarrow> jsnum" where
  "number_or_zero x = (if x = NaN then Num 0 else x)"

definition getQuotaPerUnit :: "display_store \<Rightarrow> jsnum" where
  "getQuotaPerUnit store =
     (let raw = parse_float (case store (js ''quota_per_unit'') of None \<Rightarrow> js ''1'' | Some s \<Rightarrow> if s = [] then js ''1'' else s)
      in if num_finite raw \<and> num_lt (Num 0) raw then raw else Num 1)"

definition quotaToDisplayAmount :: "display_store \<Rightarrow> jsnum \<Rightarrow> jsnum" where
  "quotaToDisplayAmount store quota =
     (let q = number_or_zero quota in
      if \<not> num_finite q \<or> q = Num 0 then Num 0
      else (let c = getCurrencyConfig store in
        if cu_type c = T_TOKENS then q
        else (let amountInUSD = num_div (math_abs q) (getQuotaPerUnit store);
                  result = num_mul (num_mul (math_sign q) amountInUSD) (cu_rate c)
              in string_to_number (to_fixed 6 result))))"

definition displayAmountToQuota :: "display_store \<Rightarrow> jsnum \<Rightarrow> jsnum" where
  "displayAmountToQuota store amount =
     (let val = number_or_zero amount in
      if \<not> num_finite val \<or> val = Num 0 then Num 0
      else (let c = getCurrencyConfig store in
        if cu_type c = T_TOKENS then math_round val
        else num_mul (math_sign val)
               (math_round (num_mul (num_div (math_abs val) (cu_rate c)) (getQuotaPerUnit store)))))"

subsection \<open>Colours and cut texts\<close>

definition colors :: "jstring list" where
  "colors = map js
     [''amber'', ''blue'', ''cyan'', ''green'', ''grey'',
      ''indigo'', ''light-blue'', ''lime'', ''orange'', ''pink'',
      ''purple'', ''red'', ''teal'', ''violet'', ''yellow'']"

definition baseColors :: "jstring list" where
  "baseColors = map js
     [''#1664FF'', ''#1AC6FF'', ''#FF8A00'', ''#3CC780'', ''#7442D4'',
      ''#FFC400'', ''#304D77'', ''#B48DEB'', ''#009488'', ''#FF7DDA'']"

definition extendedColors :: "jstring list" where
  "extendedColors = map js
     [''#1664FF'', ''#B2CFFF'', ''#1AC6FF'', ''#94EFFF'', ''#FF8A00'',
      ''#FFCE7A'', ''#3CC780'', ''#B9EDCD'', ''#7442D4'', ''#DDC5FA'',
      ''#FFC400'', ''#FAE878'', ''#304D77'', ''#8B959E'', ''#B48DEB'',
      ''#EFE3FF'', ''#009488'', ''#59BAA8'', ''#FF7DDA'', ''#FFCFEE'']"

definition modelColorMap :: "(jstring \<times> jstring) list" where
  "modelColorMap = map (\<lambda>(k, c). (js k, js c))
     [(''dall-e'', ''rgb(147,112,219)''),
      (''dall-e-3'', ''rgb(153,50,204)''),
      (''gpt-3.5-turbo'', ''rgb(184,227,167)''),
      (''gpt-3.5-turbo-0613'', ''rgb(60,179,113)''),
      (''gpt-3.5-turbo-1106'', ''rgb(32,178,170)''),
      (''gpt-3.5-turbo-16k'', ''rgb(149,252,206)''),
      (''gpt-3.5-turbo-16k-0613'', ''rgb(119,255,214)''),
      (''gpt-3.5-turbo-instruct'', ''rgb(175,238,238)''),
      (''gpt-4'', ''rgb(135,206,235)''),
      (''gpt-4-0613'', ''rgb(100,149,237)''),
      (''gpt-4-1106-preview'', ''rgb(30,144,255)''),
      (''gpt-4-0125-preview'', ''rgb(2,177,236)''),
      (''gpt-4-turbo-preview'', ''rgb(2,177,255)''),
      (''gpt-4-32k'', ''rgb(104,111,238)''),
      (''gpt-4-32k-0613'', ''rgb(61,71,139)''),
      (''gpt-4-all'', ''rgb(65,105,225)''),
      (''gpt-4-gizmo-*'', ''rgb(0,0,255)''),
      (''gpt-4-vision-preview'', ''rgb(25,25,112)''),
      (''text-ada-001'', ''rgb(255,192,203)''),
      (''text-babbage-001'', ''rgb(255,160,122)''),
      (''text-curie-001'', ''rgb(219,112,147)''),
      (''text-davinci-003'', ''rgb(219,112,147)''),
      (''text-davinci-edit-001'', ''rgb(255,105,180)''),
      (''text-embedding-ada-002'', ''rgb(255,182,193)''),
      (''text-embedding-v1'', ''rgb(255,174,185)''),
      (''text-moderation-latest'', ''rgb(255,130,171)''),
      (''text-moderation-stable'', ''rgb(255,160,122)''),
      (''tts-1'', ''rgb(255,140,0)''),
      (''tts-1-1106'', ''rgb(255,165,0)''),
      (''tts-1-hd'', ''rgb(255,215,0)''),
      (''tts-1-hd-1106'', ''rgb(255,223,0)''),
      (''whisper-1'', ''rgb(245,245,220)''),
      (''claude-3-opus-20240229'', ''rgb(255,132,31)''),
      (''claude-3-sonnet-20240229'', ''rgb(253,135,93)''),
      (''claude-3-haiku-20240307'', ''rgb(255,175,146)'')]"

text \<open>
  One round of the hash: \<open>(hash << 5) - hash + c\<close> is an integer below \<open>2 ^ 53\<close>, and \<open>hash & hash\<close> converts it to a
  signed number of 32 bits.
\<close>

definition hash_step :: "32 word \<Rightarrow> nat \<Rightarrow> 32 word" where
  "hash_step hash c = word_of_int (sint (push_bit 5 hash) - sint hash + int c)"

definition model_hash :: "jstring \<Rightarrow> 32 word" where
  "model_hash modelName = foldl hash_step 0 modelName"

definition colorPalette :: "jstring \<Rightarrow> jstring list" where
  "colorPalette modelName = (if length modelName > 10 then extendedColors else baseColors)"

text \<open>The colour of a model; \<open>None\<close> for a name that the table inherits, where the function found is returned.\<close>

definition modelToColor :: "jstring \<Rightarrow> jstring option" where
  "modelToColor modelName = (case map_of modelColorMap modelName of
       Some c \<Rightarrow> Some c
     | None \<Rightarrow>
         if modelName \<in> set PROTO_NAMES then None
         else (let hash = \<bar>sint (model_hash modelName)\<bar>; palette = colorPalette modelName
               in Some (palette ! nat (hash mod int (length palette)))))"

definition stringToColor :: "jstring \<Rightarrow> jstring" where
  "stringToColor str = colors ! (sum_list str mod length colors)"

definition renderText :: "jstring \<Rightarrow> int \<Rightarrow> jstring" where
  "renderText text' limit = (if int (length text') > limit then js_slice 0 (limit - 3) text' @ js ''...'' else text')"

subsection \<open>Colours\<close>

lemma hash_step_mult: "hash_step h c = 31 * h + of_nat c"
proof -
  have "hash_step h c = word_of_int (sint (push_bit 5 h)) - word_of_int (sint h) + of_nat c"
    by (simp add: hash_step_def)
  also have "\<dots> = push_bit 5 h - h + of_nat c" by simp
  also have "\<dots> = 31 * h + of_nat c" by (simp add: push_bit_eq_mult)
  finally show ?thesis .
qed

text \<open>The value of a name as a number in base 31, which the hash computes modulo \<open>2 ^ 32\<close>.\<close>

definition name_value :: "jstring \<Rightarrow> int" where
  "name_value name = foldl (\<lambda>h c. 31 * h + int c) 0 name"

lemma model_hash_value: "model_hash name = word_of_int (name_value name)"
proof -
  have "foldl hash_step (word_of_int a) name = word_of_int (foldl (\<lambda>h c. 31 * h + int c) a name)" for a
  proof (induction name arbitrary: a)
    case (Cons c name)
    then show ?case using Cons.IH [of "31 * a + int c"] by (simp add: hash_step_mult)
  qed simp
  from this [of 0] show ?thesis by (simp add: model_hash_def name_value_def)
qed

text \<open>
  C35. The colour of a model that has none of its own in \<open>modelColorMap\<close> and is not named like an inherited property is the entry of the palette (of ten colours for names of up to
  ten units, else of twenty) at the absolute value of the signed 32-bit remainder of the name read in base 31,
  modulo the size of the palette; the index is always within the palette.
\<close>

theorem model_color_exact:
  assumes "modelName \<notin> fst ` set modelColorMap" "modelName \<notin> set PROTO_NAMES"
  shows "\<exists>i < length (colorPalette modelName). modelToColor modelName = Some (colorPalette modelName ! i) \<and>
    int i = \<bar>signed_take_bit 31 (name_value modelName)\<bar> mod int (length (colorPalette modelName))"
proof -
  let ?h = "\<bar>signed_take_bit 31 (name_value modelName)\<bar> mod int (length (colorPalette modelName))"
  have len: "0 < length (colorPalette modelName)" by (simp add: colorPalette_def extendedColors_def baseColors_def)
  have "map_of modelColorMap modelName = None" using assms(1) by (simp add: map_of_eq_None_iff)
  moreover have "sint (model_hash modelName) = signed_take_bit 31 (name_value modelName)"
    by (simp add: model_hash_value signed_of_int)
  ultimately have "modelToColor modelName = Some (colorPalette modelName ! nat ?h)"
    using assms(2) by (simp add: modelToColor_def Let_def)
  moreover have "0 \<le> ?h" "?h < int (length (colorPalette modelName))" using len by simp_all
  then have "nat ?h < length (colorPalette modelName)" "int (nat ?h) = ?h" by linarith+
  ultimately show ?thesis by blast
qed

theorem model_color_exact_witness: "\<exists>i. modelToColor (js ''m'') = Some (baseColors ! i) \<and> i < 10"
  using model_color_exact [of "js ''m''"] by (auto simp: PROTO_NAMES_def modelColorMap_def colorPalette_def baseColors_def)

lemma stringToColor_in: "stringToColor str \<in> set colors"
  unfolding stringToColor_def by (rule nth_mem) (simp add: colors_def)

text \<open>A cut text is never longer than the limit, if the limit leaves room for the dots.\<close>

theorem renderText_bound: "3 \<le> limit \<Longrightarrow> int (length (renderText text' limit)) \<le> limit"
  using length_js_slice [of 0 "limit - 3" text'] by (simp add: renderText_def)

theorem renderText_bound_witness: "int (length (renderText (js ''abcdefgh'') 5)) \<le> 5"
  using renderText_bound [of 5 "js ''abcdefgh''"] by simp

subsection \<open>Settings that are missing\<close>

lemma parse_float_null: "parse_float (js ''null'') = NaN"
proof -
  have "str_dec (110 # s) = None" for s
    by (simp add: str_dec_def str_udec_def dec_parts_def is_digit_def js_def)
  then have "longest_dec (110 # s) n = NaN" for s n
    by (induction n) simp_all
  then show ?thesis by (simp add: parse_float_def trim_start_def is_ws_def js_def Let_def del: longest_dec.simps)
qed

text \<open>Without a stored quota per unit every quota is shown as NaN, while typed amounts count one quota per unit.\<close>

theorem missing_unit:
  "renderQuota (\<lambda>_. None) (Num q) digits = JStr (js ''$NaN'') \<and> getQuotaPerUnit (\<lambda>_. None) = Num 1"
proof -
  have "num_to_string (Num 1) = js ''1''" using num_to_string_of_nat [of 1] by (simp add: dec.simps [of "Suc 0"] js_def)
  moreover have "is_double 1" using is_double_of_nat [of 1] by simp
  ultimately have "parse_float (js ''1'') = Num 1" using parse_float_to_string [of 1] by simp
  then show ?thesis
    by (simp add: renderQuota_def getQuotaDisplayType_def quota_currency_def stored_number_def parse_float_null
        getQuotaPerUnit_def num_finite_def num_lt_def num_eq_def display_texts Let_def) (simp add: js_def)
qed

text \<open>
  When no status is stored, amounts in a custom currency carry the generic symbol in one place and the
  dollar in another.
\<close>

theorem custom_symbol_disagrees:
  assumes "store (js ''quota_display_type'') = Some T_CUSTOM" "store (js ''status'') = None"
  shows "cu_symbol (getCurrencyConfig store) = SYM_DOLLAR \<and> fst (quota_currency store v) = SYM_GENERIC"
  using assms by (simp add: getCurrencyConfig_def quota_currency_def getQuotaDisplayType_def stored_status_def display_texts)

theorem custom_symbol_disagrees_witness:
  "cu_symbol (getCurrencyConfig ((\<lambda>_. None)(js ''quota_display_type'' \<mapsto> T_CUSTOM))) = SYM_DOLLAR"
  using custom_symbol_disagrees [of "(\<lambda>_. None)(js ''quota_display_type'' \<mapsto> T_CUSTOM)"] by simp

subsection \<open>Small amounts\<close>

lemma num_lt_pos: "num_lt (Num 0) (Num r) \<longleftrightarrow> 0 < r"
  by (auto simp: num_lt_def num_eq_def)

lemma rnd_power_of_ten:
  assumes "digits \<le> 15"
  obtains y where "rnd (1 / 10 ^ digits) = Num y" "y \<noteq> 0"
proof -
  have "(1 :: rat) / 10 ^ digits < 2 ^ 1000" by (rule order_le_less_trans [of _ 1]) (simp_all add: field_simps)
  then obtain y where y: "rnd (1 / 10 ^ digits) = Num y" using rnd_finite [of "1 / 10 ^ digits"] by auto
  have "(2 :: rat) powi - 50 \<le> 1 / 10 ^ 15" by (simp add: power_int_def field_simps)
  also have "\<dots> \<le> 1 / 10 ^ digits" using assms by (intro frac_le power_increasing) auto
  finally have "(2 :: rat) powi - 50 \<le> \<bar>1 / 10 ^ digits\<bar>" by simp
  from rnd_ge_leading [OF y this] have "(2 :: rat) powi - 50 \<le> \<bar>y\<bar>" by simp
  moreover have "(0 :: rat) < 2 powi - 50" by simp
  ultimately have "y \<noteq> 0" by auto
  with y show thesis by (rule that)
qed

text \<open>
  C34. A positive quota is never shown as nothing: whatever the currency and its rate, the number behind the symbol
  is not zero unless the amount itself vanished.
\<close>

theorem positive_quota_visible:
  assumes "getQuotaDisplayType store \<noteq> T_TOKENS" "0 < digits" "digits \<le> 15" "num_lt (Num 0) quota"
    and "quota_currency store (num_div quota (stored_number store ''quota_per_unit'')) = (symbol, Num v)" "0 < v"
  shows "\<exists>number. renderQuota store quota digits = JStr (symbol @ number) \<and> parse_float number \<noteq> Num 0"
proof (cases "parse_float (to_fixed digits (Num v)) = Num 0")
  case True
  obtain y where y: "rnd (1 / 10 ^ digits) = Num y" "y \<noteq> 0" using rnd_power_of_ten [OF assms(3)] .
  then have "is_double y" using rnd_idem by (simp add: is_double_def)
  then have "parse_float (to_fixed digits (Num y)) = fixed_value digits y" using assms(2) by (rule parse_float_to_fixed)
  also have "\<dots> = Num y" using fixed_value_on_grid(1) [of 1 digits y] y(1) assms(3) by simp
  finally have "parse_float (to_fixed digits (power_of_ten digits)) \<noteq> Num 0" using y by (simp add: power_of_ten_def)
  moreover have "renderQuota store quota digits = JStr (symbol @ to_fixed digits (power_of_ten digits))"
    using assms True by (simp add: renderQuota_def num_lt_pos del: to_fixed.simps)
  ultimately show ?thesis by blast
next
  case False
  then show ?thesis using assms by (simp add: renderQuota_def del: to_fixed.simps)
qed

lemma parse_float_dec: "n < 10 ^ 15 \<Longrightarrow> parse_float (dec n) = Num (of_nat n)"
proof -
  assume n: "n < 10 ^ 15"
  then have "is_double (of_nat n)" by (intro is_double_of_nat) simp
  from parse_float_to_string [OF this] show ?thesis using num_to_string_of_nat [OF n] by simp
qed

definition unit_store :: "nat \<Rightarrow> display_store" where
  "unit_store n = (\<lambda>_. None)(js ''quota_per_unit'' \<mapsto> dec n)"

lemma unit_store_simps:
  "getQuotaDisplayType (unit_store n) = T_USD" "quota_currency (unit_store n) x = (SYM_DOLLAR, x)"
  "n < 10 ^ 15 \<Longrightarrow> stored_number (unit_store n) ''quota_per_unit'' = Num (of_nat n)"
  "0 < n \<Longrightarrow> n < 10 ^ 15 \<Longrightarrow> getQuotaPerUnit (unit_store n) = Num (of_nat n)"
  "getCurrencyConfig (unit_store n) = \<lparr>cu_symbol = SYM_DOLLAR, cu_rate = Num 1, cu_type = T_USD\<rparr>"
  by (simp_all add: unit_store_def getQuotaDisplayType_def quota_currency_def stored_number_def parse_float_dec
      getQuotaPerUnit_def num_finite_def num_lt_pos getCurrencyConfig_def display_texts)

theorem positive_quota_visible_witness:
  "\<exists>number. renderQuota (unit_store 500000) (Num 1) 2 = JStr (SYM_DOLLAR @ number) \<and> parse_float number \<noteq> Num 0"
proof -
  obtain v where v: "rnd (1 / 500000) = Num v" using rnd_finite [of "1 / 500000"] by auto
  have "2 powi - 20 \<le> \<bar>v\<bar>" by (rule rnd_ge_leading [OF v]) (simp_all add: power_int_def power_one_over)
  moreover have "0 \<le> v" using rnd_err [OF v] by simp
  moreover have "(0 :: rat) < 2 powi - 20" by simp
  ultimately have "0 < v" by linarith
  then show ?thesis
    using positive_quota_visible [of "unit_store 500000" 2 "Num 1" SYM_DOLLAR v] v
    by (simp add: unit_store_simps num_lt_pos) (simp add: display_texts)
qed

subsection \<open>A quota typed back\<close>

lemma rnd_rel_err:
  assumes "rnd x = Num y" "2 powi - 1022 \<le> x"
  shows "\<bar>y - x\<bar> \<le> 1 / 2 ^ 53 * x"
proof -
  have x: "0 < x" using assms(2) by (rule order_less_le_trans [rotated]) simp
  have b: "2 powi ilog2 x \<le> x" "x < 2 powi (ilog2 x + 1)" using ilog2_bounds [OF x] by auto
  have "(2 :: rat) powi - 1022 < 2 powi (ilog2 x + 1)" using assms(2) b(2) by (rule order_le_less_trans)
  then have "- 1022 \<le> ilog2 x" by (simp only: powi2_less_iff)
  then have "qexp x = ilog2 x - 52" using x by (simp add: qexp_def)
  then have "(2 :: rat) powi qexp x / 2 = 2 powi ilog2 x * (1 / 2 ^ 53)" by (simp add: power_int_diff)
  also have "\<dots> \<le> x * (1 / 2 ^ 53)" by (intro mult_right_mono b(1)) simp
  finally show ?thesis using rnd_err [OF assms(1)] x by simp
qed

lemma string_to_number_to_fixed:
  assumes "is_double r" "0 < f"
  shows "string_to_number (to_fixed f (Num r)) = fixed_value f r"
proof (cases "\<bar>r\<bar> \<ge> 10 ^ 21")
  case True
  then show ?thesis using string_to_number_to_string [OF assms(1)]
    by (simp add: fixed_value_def del: num_to_string.simps)
next
  case False
  define n where "n = nat \<lfloor>\<bar>r\<bar> * 10 ^ f + 1 / 2\<rfloor>"
  define t where "t = (if r < 0 then [45] else []) @ fixed_digits f n"
  have d: "str_udec (fixed_digits f n) = Some (rnd (of_nat n / 10 ^ f))" "fixed_digits f n \<noteq> []" "is_digit (hd (fixed_digits f n))"
    using str_udec_fixed_digits [OF assms(2), of n] by simp_all
  have t: "to_fixed f (Num r) = t" using False by (simp add: n_def t_def Let_def)
  obtain ip fp where p: "fixed_digits f n = ip @ [46] @ fp" "\<forall>c \<in> set (ip @ fp). is_digit c"
    using fixed_digits_parts [OF assms(2)] by metis
  have c: "\<forall>c \<in> set t. is_num_char c" using p by (auto simp: t_def is_num_char_def)
  have "str_dec t = Some (with_sign (r < 0) (rnd (of_nat n / 10 ^ f)))"
    unfolding t_def using d by (cases "fixed_digits f n") (auto simp: str_dec_def with_sign_def is_digit_def)
  moreover have "trim t = t" by (rule trim_no_ws) (use c num_char_not_ws in blast)
  moreover have "t \<noteq> []" using d by (simp add: t_def)
  ultimately have "string_to_number t = with_sign (r < 0) (rnd (of_nat n / 10 ^ f))"
    using str_radix_num_chars [OF c] by (simp add: string_to_number_def Let_def)
  then show ?thesis unfolding t using False by (simp add: fixed_value_def n_def)
qed

abbreviation eps :: rat where "eps \<equiv> 1 / 9007199254740992"

lemma rnd_normal:
  assumes "1 / 100000000000000000000 \<le> x" "x \<le> 10000000000000000000000000"
  obtains y where "rnd x = Num y" "\<bar>y - x\<bar> \<le> eps * x" "is_double y"
proof -
  have "(10000000000000000000000000 :: rat) < 2 ^ 1000" by simp
  then have "x < 2 ^ 1000" using assms(2) by (rule order_le_less_trans [rotated])
  moreover have "0 \<le> x" using assms(1) by (rule order_trans [rotated]) simp
  ultimately obtain y where y: "rnd x = Num y" using rnd_finite by blast
  have "(2 :: rat) powi - 1022 \<le> 2 powi - 67" by (simp only: powi2_le_iff)
  also have "\<dots> \<le> 1 / 100000000000000000000" by (simp add: power_int_def field_simps)
  also have "\<dots> \<le> x" by (rule assms(1))
  finally have "\<bar>y - x\<bar> \<le> eps * x" using rnd_rel_err [OF y] by simp
  moreover have "is_double y" using rnd_idem [OF y] by (simp add: is_double_def)
  ultimately show thesis using y that by blast
qed

text \<open>
  Through the display and back: with a rate of at least one and at most 500000 quotas per unit the errors of the
  six decimals and of the roundings add up to less than half a quota.
\<close>

lemma quota_there_and_back:
  fixes q u r :: rat
  assumes q: "1 \<le> q" "q \<le> 1099511627776" and u: "1 \<le> u" "u \<le> 500000" and r: "1 \<le> r" "r \<le> 1048576"
  obtains a c y e f where "rnd (q / u) = Num a" "is_double a" "rnd (a * r) = Num c" "is_double c" "0 < c"
    "fixed_value 6 c = Num y" "0 < y" "rnd (y / r) = Num e" "rnd (e * u) = Num f" "\<bar>f - q\<bar> < 1 / 2"
proof -
  have u0: "0 < u" and r0: "0 < r" using u r by linarith+
  define Q where "Q = q / u"
  have Qu: "Q * u = q" using u0 by (simp add: Q_def)
  have "1 / 500000 \<le> Q" unfolding Q_def using q u by (intro frac_le) auto
  moreover have "Q \<le> q" unfolding Q_def using q u by (simp add: divide_le_eq)
  ultimately have Q: "1 / 500000 \<le> Q" "Q \<le> 1099511627776" using q by linarith+
  have nQ: "1 / 100000000000000000000 \<le> Q" "Q \<le> 10000000000000000000000000" using Q by linarith+
  obtain a where a: "rnd Q = Num a" "\<bar>a - Q\<bar> \<le> eps * Q" "is_double a" by (rule rnd_normal [OF nQ])
  have a_up: "a \<le> 2199023255552" "1 / 1000000 \<le> a" using a(2) Q by linarith+
  define A where "A = a * r"
  have "1 / 1000000 * 1 \<le> A" unfolding A_def using a_up r by (intro mult_mono) auto
  moreover have "A \<le> 2199023255552 * 1048576" unfolding A_def using a_up r by (intro mult_mono) auto
  ultimately have A: "1 / 1000000 \<le> A" "A \<le> 2305843009213693952" by simp_all
  have nA: "1 / 100000000000000000000 \<le> A" "A \<le> 10000000000000000000000000" using A by linarith+
  obtain c where c: "rnd A = Num c" "\<bar>c - A\<bar> \<le> eps * A" "is_double c" by (rule rnd_normal [OF nA])
  define P where "P = Q * r"
  have "\<bar>A - P\<bar> = \<bar>a - Q\<bar> * r" using r0 by (simp add: A_def P_def abs_mult left_diff_distrib [symmetric])
  also have "\<dots> \<le> eps * Q * r" using a(2) r0 by (intro mult_right_mono) auto
  finally have AP: "\<bar>A - P\<bar> \<le> eps * P" by (simp add: P_def)
  have "1 / 500000 * 1 \<le> P" unfolding P_def using Q r by (intro mult_mono) auto
  then have P0: "1 / 500000 \<le> P" by simp
  have cP: "\<bar>c - P\<bar> \<le> 3 * eps * P" using AP c(2) P0 by linarith
  have c_b: "c < 1000000000000000000000" "0 < c" "1 / 1000000 < c" using c(2) A cP P0 by linarith+
  obtain k y where k: "rnd (of_nat k / 1000000) = Num y" "\<bar>of_nat k / 1000000 - \<bar>c\<bar>\<bar> \<le> 1 / 2000000"
    and fy: "fixed_value 6 c = Num (if c < 0 then - y else y)"
    by (rule fixed_value_grid [of c 6]) (use c_b in \<open>simp_all\<close>)
  define K where "K = (of_nat k / 1000000 :: rat)"
  have K: "\<bar>K - c\<bar> \<le> 1 / 2000000" "fixed_value 6 c = Num y" "rnd K = Num y"
    using k fy c_b(2) by (simp_all add: K_def)
  have Kb: "1 / 2000000 \<le> K" "K \<le> 10000000000000000000000" using K(1) c_b by linarith+
  have nK: "1 / 100000000000000000000 \<le> K" "K \<le> 10000000000000000000000000" using Kb by linarith+
  obtain y' where "rnd K = Num y'" "\<bar>y' - K\<bar> \<le> eps * K" by (rule rnd_normal [OF nK])
  then have yK: "\<bar>y - K\<bar> \<le> eps * K" using K(3) by simp
  have yP: "\<bar>y - P\<bar> \<le> 5 * eps * P + 51 / 100000000" "1 / 4000000 \<le> y" "y \<le> 100000000000000000000000"
    using yK K(1) cP Kb P0 by linarith+
  define Y where "Y = y / r"
  have "\<bar>Y - Q\<bar> = \<bar>y - P\<bar> / r" using r0 by (simp add: Y_def P_def diff_divide_distrib [symmetric] abs_divide field_simps)
  also have "\<dots> \<le> (5 * eps * P + 51 / 100000000) / r" using yP(1) r0 by (intro divide_right_mono) auto
  also have "\<dots> = 5 * eps * Q + 51 / 100000000 / r" using r0 by (simp add: P_def add_divide_distrib)
  also have "\<dots> \<le> 5 * eps * Q + 51 / 100000000" using r by (simp add: divide_le_eq)
  finally have YQ: "\<bar>Y - Q\<bar> \<le> 5 * eps * Q + 51 / 100000000" .
  have Yb: "1 / 100000000000000000000 \<le> Y" "Y \<le> 10000000000000000000000000" using YQ Q by linarith+
  obtain e where e: "rnd Y = Num e" "\<bar>e - Y\<bar> \<le> eps * Y" by (rule rnd_normal [OF Yb])
  have eQ: "\<bar>e - Q\<bar> \<le> 7 * eps * Q + 52 / 100000000" "1 / 1000000 \<le> e" using e(2) YQ Q by linarith+
  define E where "E = e * u"
  have "\<bar>E - q\<bar> = \<bar>e - Q\<bar> * u" using u0 by (simp add: E_def Qu [symmetric] abs_mult left_diff_distrib [symmetric])
  also have "\<dots> \<le> (7 * eps * Q + 52 / 100000000) * u" using eQ(1) u0 by (intro mult_right_mono) auto
  also have "\<dots> = 7 * eps * q + 52 / 100000000 * u" by (simp add: distrib_right Qu [symmetric])
  finally have Eq: "\<bar>E - q\<bar> \<le> 7 * eps * q + 26 / 100" using u by linarith
  have Eb: "1 / 100000000000000000000 \<le> E" "E \<le> 10000000000000000000000000" using Eq q by linarith+
  obtain f where f: "rnd E = Num f" "\<bar>f - E\<bar> \<le> eps * E" by (rule rnd_normal [OF Eb])
  have "\<bar>f - q\<bar> < 1 / 2" using f(2) Eq q by linarith
  then show thesis
    using that a c c_b(2) K(2) yP(2) e(1) f(1) by (simp add: Q_def A_def Y_def E_def)
qed

lemma fixed_value_neg: "0 < c \<Longrightarrow> fixed_value f c = Num y \<Longrightarrow> fixed_value f (- c) = Num (- y)"
  by (auto simp: fixed_value_def with_sign_def split: if_splits)

lemma rnd_minus: "rnd x = Num y \<Longrightarrow> rnd (- x) = Num (- y)"
proof -
  have "rnd (- x) = num_neg (rnd x)" by (simp add: rnd_def Let_def qexp_def sgn_minus)
  then show "rnd x = Num y \<Longrightarrow> rnd (- x) = Num (- y)" by simp
qed

lemma quota_roundtrip_nonzero:
  fixes q u r :: rat
  assumes q: "1 \<le> q" "q \<le> 2 ^ 40" "q = of_int n" and s: "s = 1 \<or> s = - 1"
    and st: "getQuotaPerUnit store = Num u" "cu_rate (getCurrencyConfig store) = Num r" "cu_type (getCurrencyConfig store) \<noteq> T_TOKENS"
    and u: "1 \<le> u" "u \<le> 500000" and r: "1 \<le> r" "r \<le> 2 ^ 20"
  shows "displayAmountToQuota store (quotaToDisplayAmount store (Num (s * q))) = Num (s * q)"
proof -
  obtain a c y e f where h: "rnd (q / u) = Num a" "is_double a" "rnd (a * r) = Num c" "is_double c" "0 < c"
    "fixed_value 6 c = Num y" "0 < y" "rnd (y / r) = Num e" "rnd (e * u) = Num f" "\<bar>f - q\<bar> < 1 / 2"
    by (rule quota_there_and_back [of q u r]) (use q u r in simp_all)
  have s1: "sgn (s * q) = s" "\<bar>s * q\<bar> = q" "sgn (s * y) = s" "\<bar>s * y\<bar> = y" "s * q \<noteq> 0" "s * y \<noteq> 0"
    using s q h(7) by auto
  have sa: "rnd (s * a) = Num (s * a)" using h(2) s by (auto simp: is_double_def intro: rnd_minus)
  have sc: "rnd (s * a * r) = Num (s * c)" using s h(3) rnd_minus [OF h(3)] by auto
  have scd: "is_double (s * c)" using s h(4) by (auto simp: is_double_uminus)
  have sf: "fixed_value 6 (s * c) = Num (s * y)" using s h(6) fixed_value_neg [OF h(5,6)] by auto
  have "quotaToDisplayAmount store (Num (s * q)) = string_to_number (to_fixed 6 (Num (s * c)))"
    using st u s1 h(1) sa sc by (simp add: quotaToDisplayAmount_def number_or_zero_def num_finite_def Let_def del: to_fixed.simps)
  then have there: "quotaToDisplayAmount store (Num (s * q)) = Num (s * y)"
    using string_to_number_to_fixed [OF scd, of 6] sf by simp
  have "\<lfloor>f + 1 / 2\<rfloor> = n" using floor_half_unique [of n f] h(10) q(3) by (simp add: abs_minus_commute)
  moreover have "\<bar>n\<bar> \<le> 2 ^ 53" using q by simp
  ultimately have round: "math_round (Num f) = Num q" using rnd_of_int [of n] q(3) by simp
  have "\<bar>s * q\<bar> \<le> 2 ^ 53" "s * q = of_int (if s = 1 then n else - n)" using s q by auto
  then have "rnd (s * q) = Num (s * q)" using rnd_of_int [of "if s = 1 then n else - n"] q by (auto split: if_splits)
  then show ?thesis
    using there st u r s1 h(8,9) round
    by (simp add: displayAmountToQuota_def number_or_zero_def num_finite_def Let_def)
qed

text \<open>
  C6. A quota shown as an amount and typed back unchanged is the same quota, in any currency whose rate is at least
  one and at most \<open>2 ^ 20\<close>, with between one and 500000 quotas per unit and for quotas up to \<open>2 ^ 40\<close>.
\<close>

theorem typed_amount_gives_quota:
  assumes "\<bar>n\<bar> \<le> 2 ^ 40" "getQuotaPerUnit store = Num u" "1 \<le> u" "u \<le> 500000"
    and "cu_rate (getCurrencyConfig store) = Num r" "1 \<le> r" "r \<le> 2 ^ 20"
  shows "displayAmountToQuota store (quotaToDisplayAmount store (Num (of_int n))) = Num (of_int n)"
proof (cases "n = 0 \<or> cu_type (getCurrencyConfig store) = T_TOKENS")
  case True
  have "rnd (of_int n) = Num (of_int n)" using rnd_of_int [of n] assms(1) by simp
  moreover have "\<lfloor>(1 / 2 :: rat)\<rfloor> = 0" by (simp add: floor_eq_iff)
  ultimately show ?thesis using True
    by (auto simp: quotaToDisplayAmount_def displayAmountToQuota_def number_or_zero_def num_finite_def Let_def)
next
  case False
  have "of_int n = (if n > 0 then 1 else - 1) * (of_int \<bar>n\<bar> :: rat)" by simp
  moreover have "displayAmountToQuota store (quotaToDisplayAmount store (Num ((if n > 0 then 1 else - 1) * (of_int \<bar>n\<bar>)))) =
      Num ((if n > 0 then 1 else - 1) * (of_int \<bar>n\<bar>))"
  proof (rule quota_roundtrip_nonzero [OF _ _ refl _ assms(2,5) _ assms(3,4,6,7)])
    have "1 \<le> \<bar>n\<bar>" using False by linarith
    then show "1 \<le> (of_int \<bar>n\<bar> :: rat)" by (simp only: of_int_1_le_iff)
    have "(of_int \<bar>n\<bar> :: rat) \<le> of_int (2 ^ 40)" using assms(1) by (simp only: of_int_le_iff)
    then show "(of_int \<bar>n\<bar> :: rat) \<le> 2 ^ 40" by simp
  qed (use False in auto)
  ultimately show ?thesis by simp
qed

theorem typed_amount_gives_quota_witness:
  "displayAmountToQuota (unit_store 500000) (quotaToDisplayAmount (unit_store 500000) (Num 123457)) = Num 123457"
  using typed_amount_gives_quota [of 123457 "unit_store 500000" 500000 1] by (simp add: unit_store_simps)

subsection \<open>Abbreviated numbers\<close>

text \<open>Numbers just below a million are rounded up within their unit: they are shown as 1000.0k, not as 1.0M.\<close>

theorem just_below_a_million:
  assumes "999951 \<le> n" "n < 1000000"
  shows "renderNumber (Num (of_nat n)) = JStr (js ''1000.0k'')"
proof -
  define x where "x = (of_nat n / 1000 :: rat)"
  have n: "(999951 :: rat) \<le> of_nat n" "(of_nat n :: rat) < 1000000" using assms by simp_all
  then have x: "999951 / 1000 \<le> x" "x < 1000" by (simp_all add: x_def)
  have xb: "1 / 100000000000000000000 \<le> x" "x \<le> 10000000000000000000000000" using x by linarith+
  obtain y where y: "rnd x = Num y" "\<bar>y - x\<bar> \<le> eps * x" by (rule rnd_normal [OF xb])
  have yb: "99995 / 100 \<le> y" "y < 100005 / 100" using y(2) x by linarith+
  have "\<lfloor>y * 10 + 1 / 2\<rfloor> = 10000" using yb by (simp add: floor_eq_iff)
  moreover have "0 \<le> y" "y < 10 ^ 21" using yb by simp_all
  ultimately have "to_fixed 1 (Num y) = fixed_digits 1 10000" by (simp add: Let_def)
  also have "\<dots> = js ''1000.0''" by (simp add: fixed_digits_def dec.simps js_def)
  finally have "to_fixed 1 (num_div (Num (of_nat n)) (Num 1000)) = js ''1000.0''"
    using y(1) by (simp add: x_def del: to_fixed.simps)
  then show ?thesis using n by (simp add: renderNumber_def js_def del: to_fixed.simps)
qed

theorem just_below_a_million_witness: "renderNumber (Num 999999) = JStr (js ''1000.0k'')"
  using just_below_a_million [of 999999] by simp

end
