(* ===== verification/BillingText.thy ===== *)
theory BillingText
  imports QuotaDisplay
begin

text \<open>
  The texts that explain what a request was billed (\<open>helpers/render.jsx\<close>): the short summary of a log row, the
  step by step account of a model billed by tokens or by call, and that of models with split cache
  creation. The translation \<open>i18next.t(key, vars)\<close> is a parameter; an account is the list of its lines. Numbers are
  those the server logs; the ratio of the user's own group may be missing.
\<close>

definition vars :: "(string \<times> jsval) list \<Rightarrow> jsobj" where
  "vars kvs = map (\<lambda>(k, v). (js k, v)) kvs"

datatype billing_view = Article "jstring list" | Plain jstring

subsection \<open>Shared parts\<close>

definition isValidGroupRatio :: "jsnum option \<Rightarrow> bool" where
  "isValidGroupRatio ratio = (case ratio of None \<Rightarrow> False | Some n \<Rightarrow> num_finite n \<and> n \<noteq> Num (- 1))"

definition MSG_own_ratio :: jstring where "MSG_own_ratio = [0x4E13, 0x5C5E, 0x500D, 0x7387]"
definition MSG_group_ratio :: jstring where "MSG_group_ratio = [0x5206, 0x7EC4, 0x500D, 0x7387]"

record effective_ratio =
  er_ratio :: jsnum
  er_label :: jstring
  er_useUser :: bool

definition getEffectiveRatio :: "i18n \<Rightarrow> jsnum \<Rightarrow> jsnum option \<Rightarrow> effective_ratio" where
  "getEffectiveRatio t groupRatio user_group_ratio =
     (let useUserGroupRatio = isValidGroupRatio user_group_ratio
      in \<lparr>er_ratio = (if useUserGroupRatio then the user_group_ratio else groupRatio),
          er_label = (if useUserGroupRatio then t MSG_own_ratio [] else t MSG_group_ratio []),
          er_useUser = useUserGroupRatio\<rparr>)"

abbreviation no_price :: jsnum where "no_price \<equiv> Num (- 1)"

definition M_PRICE :: jstring where "M_PRICE = js ''price''"
definition M_RATIO :: jstring where "M_RATIO = js ''ratio''"

definition resolveBillingDisplayMode :: "display_store \<Rightarrow> jstring \<Rightarrow> jsnum \<Rightarrow> jstring" where
  "resolveBillingDisplayMode store displayMode modelPrice =
     (if \<not> num_eq modelPrice no_price then M_PRICE
      else if getQuotaDisplayType store = T_TOKENS then M_RATIO
      else if displayMode = M_RATIO then M_RATIO else M_PRICE)"

definition isPriceDisplayMode :: "display_store \<Rightarrow> jstring \<Rightarrow> jsnum \<Rightarrow> bool" where
  "isPriceDisplayMode store displayMode modelPrice \<longleftrightarrow> resolveBillingDisplayMode store displayMode modelPrice = M_PRICE"

definition shouldUseRatioBillingProcess :: "display_store \<Rightarrow> jsnum \<Rightarrow> bool" where
  "shouldUseRatioBillingProcess store modelPrice \<longleftrightarrow>
     num_eq modelPrice no_price \<and> getQuotaDisplayType store = T_TOKENS"

definition formatCompactDisplayPrice :: "display_store \<Rightarrow> jsnum \<Rightarrow> nat \<Rightarrow> jstring" where
  "formatCompactDisplayPrice store usdAmount digits =
     (let c = getCurrencyConfig store
      in cu_symbol c @ num_to_string (string_to_number (to_fixed digits (num_mul usdAmount (cu_rate c)))))"

definition appendPricePart :: "i18n \<Rightarrow> jstring list \<Rightarrow> bool \<Rightarrow> jstring \<Rightarrow> jsobj \<Rightarrow> jstring list" where
  "appendPricePart t parts condition key vs = (if condition then parts @ [t key vs] else parts)"

definition SEP_SUMMARY :: jstring where "SEP_SUMMARY = [0xFF0C]"

definition joinBillingSummary :: "jstring list \<Rightarrow> jstring" where
  "joinBillingSummary parts = join SEP_SUMMARY (filter (\<lambda>p. p \<noteq> []) parts)"

definition MSG_ratio_times :: jstring where "MSG_ratio_times = js ''{{ratioType}} {{ratio}}x''"

definition getGroupRatioText :: "i18n \<Rightarrow> jsnum \<Rightarrow> jsnum option \<Rightarrow> jstring" where
  "getGroupRatioText t groupRatio user_group_ratio =
     (let e = getEffectiveRatio t groupRatio user_group_ratio
      in t MSG_ratio_times (vars [(''ratioType'', JStr (er_label e)), (''ratio'', JNum (er_ratio e))]))"

definition formatRatioValue :: "jsnum \<Rightarrow> nat \<Rightarrow> jsnum" where
  "formatRatioValue v digits = (if num_finite v then string_to_number (to_fixed digits v) else Num 0)"

definition renderDisplayAmountFromUsd :: "display_store \<Rightarrow> jsnum \<Rightarrow> nat \<Rightarrow> jsval" where
  "renderDisplayAmountFromUsd store usdAmount digits =
     renderQuotaWithAmount store (JNum (string_to_number (to_fixed digits (number_or_zero usdAmount)))) False"

definition formatBillingDisplayPrice :: "jsnum \<Rightarrow> jsnum \<Rightarrow> nat \<Rightarrow> jstring" where
  "formatBillingDisplayPrice usdAmount rate digits = to_fixed digits (num_mul usdAmount rate)"

definition buildBillingText :: "i18n \<Rightarrow> jstring \<Rightarrow> jsobj \<Rightarrow> jstring" where
  "buildBillingText t key vs = t key vs"

definition buildBillingPriceText ::
  "i18n \<Rightarrow> jstring \<Rightarrow> jstring \<Rightarrow> jsnum \<Rightarrow> jsnum \<Rightarrow> string \<Rightarrow> nat \<Rightarrow> jsobj \<Rightarrow> jstring" where
  "buildBillingPriceText t key symbol usdAmount rate amountKey digits vs =
     buildBillingText t key (obj_merge (vars [(''symbol'', JStr symbol),
       (amountKey, JStr (formatBillingDisplayPrice usdAmount rate digits))]) vs)"

definition MSG_reference_only :: jstring where "MSG_reference_only = [0x4EC5, 0x4F9B, 0x53C2, 0x8003, 0xFF0C, 0x4EE5, 0x5B9E, 0x9645, 0x6263, 0x8D39, 0x4E3A, 0x51C6]"

text \<open>The lines of an account; \<open>None\<close> and empty lines are left out.\<close>

definition renderBillingArticle :: "i18n \<Rightarrow> jstring option list \<Rightarrow> bool \<Rightarrow> billing_view" where
  "renderBillingArticle t lines showReferenceNote =
     Article (filter (\<lambda>l. l \<noteq> []) (map the (filter (\<lambda>l. l \<noteq> None) lines)) @
       (if showReferenceNote then [buildBillingText t MSG_reference_only []] else []))"

definition line_if :: "bool \<Rightarrow> jstring \<Rightarrow> jstring option" where
  "line_if b line = (if b then Some line else None)"

definition MSG_task_preconsumed :: jstring where "MSG_task_preconsumed = [0x4EFB, 0x52A1, 0x9884, 0x6263, 0x8D39, 0xFF08, 0x5C06, 0x5728, 0x4EFB, 0x52A1, 0x5B8C, 0x6210, 0x540E, 0x6309, 0x5B9E, 0x9645] @ js ''token'' @ [0x91CD, 0x7B97, 0xFF09]"

definition renderTaskBillingProcess :: "i18n \<Rightarrow> jsval \<Rightarrow> jstring \<Rightarrow> billing_view" where
  "renderTaskBillingProcess t other content =
     (if \<not> nullish (opt_prop other (js ''task_id''))
      then renderBillingArticle t (filter (\<lambda>l. l \<noteq> Some []) [Some content]) False
      else renderBillingArticle t [Some (buildBillingText t MSG_task_preconsumed [])] True)"

definition MSG_equivalent :: jstring where "MSG_equivalent = [0x7B49, 0x4EF7, 0x91D1, 0x989D, 0xFF1A]"

definition renderQuotaWithPrompt :: "i18n \<Rightarrow> display_store \<Rightarrow> jsnum \<Rightarrow> nat \<Rightarrow> jstring" where
  "renderQuotaWithPrompt t store quota digits =
     (if getQuotaDisplayType store \<noteq> T_TOKENS then t MSG_equivalent [] @ val_text (renderQuota store quota digits) else [])"

subsection \<open>The summary of a log row\<close>

record simple_price =
  sp_modelRatio :: jsnum
  sp_modelPrice :: jsnum
  sp_groupRatio :: jsnum
  sp_user_group_ratio :: "jsnum option"
  sp_cacheTokens :: jsnum
  sp_cacheRatio :: jsnum
  sp_cacheCreationTokens :: jsnum
  sp_cacheCreationRatio :: jsnum
  sp_cacheCreationTokens5m :: jsnum
  sp_cacheCreationRatio5m :: jsnum
  sp_cacheCreationTokens1h :: jsnum
  sp_cacheCreationRatio1h :: jsnum
  sp_image :: bool
  sp_imageRatio :: jsnum
  sp_isSystemPromptOverride :: bool
  sp_displayMode :: jstring

abbreviation positive :: "jsnum \<Rightarrow> bool" where "positive x \<equiv> num_lt (Num 0) x"

definition hasSplitCacheCreation :: "simple_price \<Rightarrow> bool" where
  "hasSplitCacheCreation a \<longleftrightarrow> positive (sp_cacheCreationTokens5m a) \<or> positive (sp_cacheCreationTokens1h a)"

definition shouldShowLegacyCacheCreation :: "simple_price \<Rightarrow> bool" where
  "shouldShowLegacyCacheCreation a \<longleftrightarrow> \<not> hasSplitCacheCreation a \<and> \<not> num_eq (sp_cacheCreationTokens a) (Num 0)"

definition shouldShowCache :: "simple_price \<Rightarrow> bool" where
  "shouldShowCache a \<longleftrightarrow> \<not> num_eq (sp_cacheTokens a) (Num 0)"

definition shouldShowCacheCreation5m :: "simple_price \<Rightarrow> bool" where
  "shouldShowCacheCreation5m a \<longleftrightarrow> hasSplitCacheCreation a \<and> positive (sp_cacheCreationTokens5m a)"

definition shouldShowCacheCreation1h :: "simple_price \<Rightarrow> bool" where
  "shouldShowCacheCreation1h a \<longleftrightarrow> hasSplitCacheCreation a \<and> positive (sp_cacheCreationTokens1h a)"

text \<open>The price per million tokens at the model's ratio times another ratio.\<close>

definition ratio_price :: "jsnum \<Rightarrow> jsnum \<Rightarrow> jsnum" where
  "ratio_price modelRatio ratio = num_mul (num_mul modelRatio (Num 2)) ratio"

datatype tone = Primary | Secondary

type_synonym segment = "tone \<times> jstring"

definition MSG_model_price_short :: jstring where "MSG_model_price_short = [0x6A21, 0x578B, 0x4EF7, 0x683C] @ js '' {{price}}''"
definition MSG_per_call :: jstring where "MSG_per_call = [0x6309, 0x6B21]"
definition MSG_input_1m :: jstring where "MSG_input_1m = [0x8F93, 0x5165] @ js '' {{price}} / 1M tokens''"
definition MSG_cache_read_1m :: jstring where "MSG_cache_read_1m = [0x7F13, 0x5B58, 0x8BFB] @ js '' {{price}} / 1M tokens''"
definition MSG_creation5m_1m :: jstring where "MSG_creation5m_1m = js ''5m'' @ [0x7F13, 0x5B58, 0x521B, 0x5EFA] @ js '' {{price}} / 1M tokens''"
definition MSG_creation1h_1m :: jstring where "MSG_creation1h_1m = js ''1h'' @ [0x7F13, 0x5B58, 0x521B, 0x5EFA] @ js '' {{price}} / 1M tokens''"
definition MSG_creation_1m :: jstring where "MSG_creation_1m = [0x7F13, 0x5B58, 0x521B, 0x5EFA] @ js '' {{price}} / 1M tokens''"
definition MSG_image_input_1m :: jstring where "MSG_image_input_1m = [0x56FE, 0x7247, 0x8F93, 0x5165] @ js '' {{price}} / 1M tokens''"
definition MSG_model_is :: jstring where "MSG_model_is = [0x6A21, 0x578B] @ js '': {{ratio}}''"
definition MSG_cache_is :: jstring where "MSG_cache_is = [0x7F13, 0x5B58] @ js '': {{cacheRatio}}''"
definition MSG_creation_both :: jstring where "MSG_creation_both = [0x7F13, 0x5B58, 0x521B, 0x5EFA] @ js '': 5m {{cacheCreationRatio5m}} / 1h {{cacheCreationRatio1h}}''"
definition MSG_creation_5m :: jstring where "MSG_creation_5m = [0x7F13, 0x5B58, 0x521B, 0x5EFA] @ js '': 5m {{cacheCreationRatio5m}}''"
definition MSG_creation_1h :: jstring where "MSG_creation_1h = [0x7F13, 0x5B58, 0x521B, 0x5EFA] @ js '': 1h {{cacheCreationRatio1h}}''"
definition MSG_creation_is :: jstring where "MSG_creation_is = [0x7F13, 0x5B58, 0x521B, 0x5EFA] @ js '': {{cacheCreationRatio}}''"
definition MSG_image_input_is :: jstring where "MSG_image_input_is = [0x56FE, 0x7247, 0x8F93, 0x5165] @ js '': {{imageRatio}}''"
definition MSG_prompt_override :: jstring where "MSG_prompt_override = [0x7CFB, 0x7EDF, 0x63D0, 0x793A, 0x8986, 0x76D6]"
definition MSG_model_price_colon :: jstring where "MSG_model_price_colon = [0x6A21, 0x578B, 0x4EF7, 0x683C, 0xFF1A] @ js ''{{symbol}}{{price}}''"
definition MSG_price_times_ratio :: jstring where "MSG_price_times_ratio = [0x4EF7, 0x683C, 0xFF1A] @ js ''{{symbol}}{{price}} * {{ratioType}}'' @ [0xFF1A] @ js ''{{ratio}}''"

text \<open>
  The source writes the lists of prices and of ratios twice, for the segments of the compact form and for the summary; here
  they are two pairs of definitions as well.
\<close>

definition secondary :: "i18n \<Rightarrow> jstring \<Rightarrow> (string \<times> jsval) list \<Rightarrow> segment" where
  "secondary t key vs = (Secondary, t key (vars vs))"

definition price_segment :: "i18n \<Rightarrow> display_store \<Rightarrow> jstring \<Rightarrow> jsnum \<Rightarrow> segment" where
  "price_segment t store key price = secondary t key [(''price'', JStr (formatCompactDisplayPrice store price 6))]"

definition segment_prices :: "i18n \<Rightarrow> display_store \<Rightarrow> simple_price \<Rightarrow> segment list" where
  "segment_prices t store a =
     [price_segment t store MSG_input_1m (num_mul (sp_modelRatio a) (Num 2))] @
     (if shouldShowCache a
      then [price_segment t store MSG_cache_read_1m (ratio_price (sp_modelRatio a) (sp_cacheRatio a))] else []) @
     (if hasSplitCacheCreation a \<and> shouldShowCacheCreation5m a
      then [price_segment t store MSG_creation5m_1m (ratio_price (sp_modelRatio a) (sp_cacheCreationRatio5m a))] else []) @
     (if hasSplitCacheCreation a \<and> shouldShowCacheCreation1h a
      then [price_segment t store MSG_creation1h_1m (ratio_price (sp_modelRatio a) (sp_cacheCreationRatio1h a))] else []) @
     (if \<not> hasSplitCacheCreation a \<and> shouldShowLegacyCacheCreation a
      then [price_segment t store MSG_creation_1m (ratio_price (sp_modelRatio a) (sp_cacheCreationRatio a))] else []) @
     (if sp_image a then [price_segment t store MSG_image_input_1m (ratio_price (sp_modelRatio a) (sp_imageRatio a))] else [])"

definition segment_ratios :: "i18n \<Rightarrow> simple_price \<Rightarrow> segment list" where
  "segment_ratios t a =
     [secondary t MSG_model_is [(''ratio'', JNum (sp_modelRatio a))]] @
     (if shouldShowCache a then [secondary t MSG_cache_is [(''cacheRatio'', JNum (sp_cacheRatio a))]] else []) @
     (if hasSplitCacheCreation a then
        (if shouldShowCacheCreation5m a \<and> shouldShowCacheCreation1h a
         then [secondary t MSG_creation_both [(''cacheCreationRatio5m'', JNum (sp_cacheCreationRatio5m a)),
                 (''cacheCreationRatio1h'', JNum (sp_cacheCreationRatio1h a))]]
         else if shouldShowCacheCreation5m a
         then [secondary t MSG_creation_5m [(''cacheCreationRatio5m'', JNum (sp_cacheCreationRatio5m a))]]
         else if shouldShowCacheCreation1h a
         then [secondary t MSG_creation_1h [(''cacheCreationRatio1h'', JNum (sp_cacheCreationRatio1h a))]]
         else [])
      else if shouldShowLegacyCacheCreation a
      then [secondary t MSG_creation_is [(''cacheCreationRatio'', JNum (sp_cacheCreationRatio a))]]
      else []) @
     (if sp_image a then [secondary t MSG_image_input_is [(''imageRatio'', JNum (sp_imageRatio a))]] else [])"

definition price_segments :: "i18n \<Rightarrow> display_store \<Rightarrow> simple_price \<Rightarrow> segment list" where
  "price_segments t store a =
     [(Primary, getGroupRatioText t (sp_groupRatio a) (sp_user_group_ratio a))] @
     (if \<not> num_eq (sp_modelPrice a) no_price then
        [(Secondary, if isPriceDisplayMode store (sp_displayMode a) (sp_modelPrice a)
           then t MSG_model_price_short (vars [(''price'', JStr (formatCompactDisplayPrice store (sp_modelPrice a) 6))])
           else t MSG_per_call [])]
      else if isPriceDisplayMode store (sp_displayMode a) (sp_modelPrice a) then segment_prices t store a
      else segment_ratios t a) @
     (if sp_isSystemPromptOverride a then [(Primary, t MSG_prompt_override [])] else [])"

definition with_override :: "i18n \<Rightarrow> simple_price \<Rightarrow> jstring \<Rightarrow> jstring" where
  "with_override t a result = (if sp_isSystemPromptOverride a then result @ [10, 13] @ t MSG_prompt_override [] else result)"

text \<open>The parts of the summary in prices, and the summary; its first branch is never reached, since a price per call is handled before.\<close>

definition price_text :: "i18n \<Rightarrow> display_store \<Rightarrow> jstring \<Rightarrow> jsnum \<Rightarrow> jstring" where
  "price_text t store key price = t key (vars [(''price'', JStr (formatCompactDisplayPrice store price 6))])"

definition summary_price_parts :: "i18n \<Rightarrow> display_store \<Rightarrow> simple_price \<Rightarrow> jstring list" where
  "summary_price_parts t store a =
     (let inputPrice = num_mul (sp_modelRatio a) (Num 2);
          parts = [price_text t store MSG_input_1m inputPrice];
          parts = (if shouldShowCache a
            then parts @ [price_text t store MSG_cache_read_1m (num_mul inputPrice (sp_cacheRatio a))] else parts);
          parts = (if hasSplitCacheCreation a \<and> shouldShowCacheCreation5m a
            then parts @ [price_text t store MSG_creation5m_1m (num_mul inputPrice (sp_cacheCreationRatio5m a))] else parts);
          parts = (if hasSplitCacheCreation a \<and> shouldShowCacheCreation1h a
            then parts @ [price_text t store MSG_creation1h_1m (num_mul inputPrice (sp_cacheCreationRatio1h a))] else parts);
          parts = (if \<not> hasSplitCacheCreation a \<and> shouldShowLegacyCacheCreation a
            then parts @ [price_text t store MSG_creation_1m (num_mul inputPrice (sp_cacheCreationRatio a))] else parts);
          parts = (if sp_image a
            then parts @ [price_text t store MSG_image_input_1m (num_mul inputPrice (sp_imageRatio a))] else parts)
      in parts @ [getGroupRatioText t (sp_groupRatio a) (sp_user_group_ratio a)])"

definition price_summary :: "i18n \<Rightarrow> display_store \<Rightarrow> simple_price \<Rightarrow> jstring" where
  "price_summary t store a =
     (if \<not> num_eq (sp_modelPrice a) no_price
      then joinBillingSummary [price_text t store MSG_model_price_short (sp_modelPrice a),
        getGroupRatioText t (sp_groupRatio a) (sp_user_group_ratio a)]
      else with_override t a (joinBillingSummary (summary_price_parts t store a)))"

text \<open>The parts of the summary in ratios are translated without values; the values are put into the joined text.\<close>

definition summary_ratio_parts :: "i18n \<Rightarrow> simple_price \<Rightarrow> jstring list" where
  "summary_ratio_parts t a =
     (let parts = [t MSG_model_is []];
          parts = (if shouldShowCache a then parts @ [t MSG_cache_is []] else parts);
          parts = (if hasSplitCacheCreation a then
              (if shouldShowCacheCreation5m a \<and> shouldShowCacheCreation1h a then parts @ [t MSG_creation_both []]
               else if shouldShowCacheCreation5m a then parts @ [t MSG_creation_5m []]
               else if shouldShowCacheCreation1h a then parts @ [t MSG_creation_1h []]
               else parts)
            else if shouldShowLegacyCacheCreation a then parts @ [t MSG_creation_is []]
            else parts);
          parts = (if sp_image a then parts @ [t MSG_image_input_is []] else parts)
      in parts @ [js ''{{ratioType}}: {{groupRatio}}''])"

definition summary_ratio_values :: "effective_ratio \<Rightarrow> simple_price \<Rightarrow> jsobj" where
  "summary_ratio_values e a =
     vars [(''ratio'', JNum (sp_modelRatio a)), (''ratioType'', JStr (er_label e)), (''groupRatio'', JNum (er_ratio e)),
       (''cacheRatio'', JNum (sp_cacheRatio a)), (''cacheCreationRatio'', JNum (sp_cacheCreationRatio a)),
       (''cacheCreationRatio5m'', JNum (sp_cacheCreationRatio5m a)),
       (''cacheCreationRatio1h'', JNum (sp_cacheCreationRatio1h a)), (''imageRatio'', JNum (sp_imageRatio a))]"

definition simple_text :: "i18n \<Rightarrow> display_store \<Rightarrow> simple_price \<Rightarrow> jstring" where
  "simple_text t store a =
     (let e = getEffectiveRatio t (sp_groupRatio a) (sp_user_group_ratio a); c = getCurrencyConfig store;
          groupText = getGroupRatioText t (sp_groupRatio a) (sp_user_group_ratio a) in
      if \<not> num_eq (sp_modelPrice a) no_price then
        (let displayPrice = to_fixed 6 (num_mul (sp_modelPrice a) (cu_rate c)) in
         if isPriceDisplayMode store (sp_displayMode a) (sp_modelPrice a)
         then joinBillingSummary
           [t MSG_model_price_colon (vars [(''symbol'', JStr (cu_symbol c)), (''price'', JStr displayPrice)]), groupText]
         else t MSG_price_times_ratio (vars [(''symbol'', JStr (cu_symbol c)), (''price'', JStr displayPrice),
                (''ratioType'', JStr (er_label e)), (''ratio'', JNum (er_ratio e))]))
      else if isPriceDisplayMode store (sp_displayMode a) (sp_modelPrice a) then price_summary t store a
      else with_override t a (t (join (js '' * '') (summary_ratio_parts t a)) (summary_ratio_values e a)))"

definition renderPriceSimpleCore :: "i18n \<Rightarrow> display_store \<Rightarrow> simple_price \<Rightarrow> bool \<Rightarrow> jstring + segment list" where
  "renderPriceSimpleCore t store a segments =
     (if segments then Inr (price_segments t store a) else Inl (simple_text t store a))"

subsection \<open>The account of a request\<close>

record model_usage =
  mu_inputTokens :: jsnum
  mu_completionTokens :: jsnum
  mu_modelRatio :: jsnum
  mu_modelPrice :: jsnum
  mu_completionRatio :: "jsnum option"
  mu_groupRatio :: jsnum
  mu_user_group_ratio :: "jsnum option"
  mu_cacheTokens :: jsnum
  mu_cacheRatio :: jsnum
  mu_image :: bool
  mu_imageRatio :: jsnum
  mu_imageOutputTokens :: jsnum
  mu_webSearch :: bool
  mu_webSearchCallCount :: jsnum
  mu_webSearchPrice :: jsnum
  mu_fileSearch :: bool
  mu_fileSearchCallCount :: jsnum
  mu_fileSearchPrice :: jsnum
  mu_audioInputSeperatePrice :: bool
  mu_audioInputTokens :: jsnum
  mu_audioInputPrice :: jsnum
  mu_imageGenerationCall :: bool
  mu_imageGenerationCallPrice :: jsnum

definition num_sub :: "jsnum \<Rightarrow> jsnum \<Rightarrow> jsnum" where
  "num_sub a b = num_add a (num_neg b)"

definition num_max :: "jsnum \<Rightarrow> jsnum \<Rightarrow> jsnum" where
  "num_max a b = (if a = NaN \<or> b = NaN then NaN else if num_le a b then b else a)"

definition completion_ratio :: "model_usage \<Rightarrow> jsnum" where
  "completion_ratio a = (case mu_completionRatio a of None \<Rightarrow> Num 0 | Some r \<Rightarrow> r)"

definition has_image_input :: "model_usage \<Rightarrow> bool" where
  "has_image_input a \<longleftrightarrow> mu_image a \<and> positive (mu_imageOutputTokens a)"

text \<open>\<open>(count / unit) * price * groupRatio\<close>\<close>

definition charge :: "jsnum \<Rightarrow> rat \<Rightarrow> jsnum \<Rightarrow> jsnum \<Rightarrow> jsnum" where
  "charge count' unit price groupRatio = num_mul (num_mul (num_div count' (Num unit)) price) groupRatio"

text \<open>The amount in dollars of an account by prices.\<close>

definition effectiveInputTokens :: "model_usage \<Rightarrow> jsnum" where
  "effectiveInputTokens a =
     (let tokens =
        (if has_image_input a
         then num_add (num_sub (mu_inputTokens a) (mu_imageOutputTokens a)) (num_mul (mu_imageOutputTokens a) (mu_imageRatio a))
         else num_add (num_sub (mu_inputTokens a) (mu_cacheTokens a)) (num_mul (mu_cacheTokens a) (mu_cacheRatio a)))
      in if positive (mu_audioInputTokens a) then num_sub tokens (mu_audioInputTokens a) else tokens)"

definition price_usd :: "model_usage \<Rightarrow> jsnum \<Rightarrow> jsnum" where
  "price_usd a groupRatio =
     (let inputRatioPrice = num_mul (mu_modelRatio a) (Num 2);
          completionRatioPrice = ratio_price (mu_modelRatio a) (completion_ratio a)
      in num_add (num_add (num_add (num_add (num_add
           (charge (effectiveInputTokens a) 1000000 inputRatioPrice groupRatio)
           (charge (mu_audioInputTokens a) 1000000 (mu_audioInputPrice a) groupRatio))
           (charge (mu_completionTokens a) 1000000 completionRatioPrice groupRatio))
           (charge (mu_webSearchCallCount a) 1000 (mu_webSearchPrice a) groupRatio))
           (charge (mu_fileSearchCallCount a) 1000 (mu_fileSearchPrice a) groupRatio))
           (num_mul (mu_imageGenerationCallPrice a) groupRatio))"

definition MSG_call_price :: jstring where "MSG_call_price = [0x6309, 0x6B21, 0xFF1A] @ js ''{{symbol}}{{price}}''"
definition MSG_call_total :: jstring where "MSG_call_total = [0x6309, 0x6B21] @ js '' {{symbol}}{{price}} * {{ratioType}} {{ratio}} = {{symbol}}{{total}}''"
definition MSG_desc_image :: jstring where "MSG_desc_image = js ''('' @ [0x8F93, 0x5165] @ js '' {{nonImageInput}} tokens + '' @ [0x56FE, 0x7247, 0x8F93, 0x5165] @ js '' {{imageInput}} tokens / 1M tokens * {{symbol}}{{price}}''"
definition MSG_desc_cache :: jstring where "MSG_desc_cache = js ''('' @ [0x8F93, 0x5165] @ js '' {{nonCacheInput}} tokens / 1M tokens * {{symbol}}{{price}} + '' @ [0x7F13, 0x5B58] @ js '' {{cacheInput}} tokens / 1M tokens * {{symbol}}{{cachePrice}}''"
definition MSG_desc_audio :: jstring where "MSG_desc_audio = js ''('' @ [0x8F93, 0x5165] @ js '' {{nonAudioInput}} tokens / 1M tokens * {{symbol}}{{price}} + '' @ [0x97F3, 0x9891, 0x8F93, 0x5165] @ js '' {{audioInput}} tokens / 1M tokens * {{symbol}}{{audioPrice}}''"
definition MSG_desc_input :: jstring where "MSG_desc_input = js ''('' @ [0x8F93, 0x5165] @ js '' {{input}} tokens / 1M tokens * {{symbol}}{{price}}''"
definition MSG_desc_output :: jstring where "MSG_desc_output = [0x8F93, 0x51FA] @ js '' {{completion}} tokens / 1M tokens * {{symbol}}{{compPrice}}) * {{ratioType}} {{ratio}}''"
definition MSG_extra_web :: jstring where "MSG_extra_web = js '' + Web'' @ [0x641C, 0x7D22] @ js '' {{count}}'' @ [0x6B21] @ js '' / 1K '' @ [0x6B21] @ js '' * {{symbol}}{{price}} * {{ratioType}} {{ratio}}''"
definition MSG_extra_file :: jstring where "MSG_extra_file = js '' + '' @ [0x6587, 0x4EF6, 0x641C, 0x7D22] @ js '' {{count}}'' @ [0x6B21] @ js '' / 1K '' @ [0x6B21] @ js '' * {{symbol}}{{price}} * {{ratioType}} {{ratio}}''"
definition MSG_extra_picture :: jstring where "MSG_extra_picture = js '' + '' @ [0x56FE, 0x7247, 0x751F, 0x6210, 0x8C03, 0x7528] @ js '' {{symbol}}{{price}} / 1'' @ [0x6B21] @ js '' * {{ratioType}} {{ratio}}''"
definition MSG_line_input :: jstring where "MSG_line_input = [0x8F93, 0x5165, 0x4EF7, 0x683C, 0xFF1A] @ js ''{{symbol}}{{price}} / 1M tokens{{audioPrice}}''"
definition MSG_audio_input_label :: jstring where "MSG_audio_input_label = [0x97F3, 0x9891, 0x8F93, 0x5165, 0x4EF7, 0x683C]"
definition MSG_line_output :: jstring where "MSG_line_output = [0x8F93, 0x51FA, 0x4EF7, 0x683C, 0xFF1A] @ js ''{{symbol}}{{total}} / 1M tokens''"
definition MSG_line_cache :: jstring where "MSG_line_cache = [0x7F13, 0x5B58, 0x8BFB, 0x53D6, 0x4EF7, 0x683C, 0xFF1A] @ js ''{{symbol}}{{total}} / 1M tokens''"
definition MSG_line_image :: jstring where "MSG_line_image = [0x56FE, 0x7247, 0x8F93, 0x5165, 0x4EF7, 0x683C, 0xFF1A] @ js ''{{symbol}}{{total}} / 1M tokens''"
definition MSG_line_web :: jstring where "MSG_line_web = js ''Web'' @ [0x641C, 0x7D22, 0x4EF7, 0x683C, 0xFF1A] @ js ''{{symbol}}{{price}} / 1K '' @ [0x6B21]"
definition MSG_line_file :: jstring where "MSG_line_file = [0x6587, 0x4EF6, 0x641C, 0x7D22, 0x4EF7, 0x683C, 0xFF1A] @ js ''{{symbol}}{{price}} / 1K '' @ [0x6B21]"
definition MSG_line_picture :: jstring where "MSG_line_picture = [0x56FE, 0x7247, 0x751F, 0x6210, 0x8C03, 0x7528, 0xFF1A] @ js ''{{symbol}}{{price}} / 1'' @ [0x6B21]"
definition MSG_line_total :: jstring where "MSG_line_total = js ''{{inputDesc}} + {{outputDesc}}{{extraServices}} = {{symbol}}{{total}}''"

definition inputDesc :: "i18n \<Rightarrow> jstring \<Rightarrow> jsnum \<Rightarrow> model_usage \<Rightarrow> jstring" where
  "inputDesc t symbol rate a =
     (let inputRatioPrice = num_mul (mu_modelRatio a) (Num 2);
          price = JStr (formatBillingDisplayPrice inputRatioPrice rate 6) in
      if has_image_input a
      then buildBillingPriceText t MSG_desc_image symbol inputRatioPrice rate ''price'' 6
        (vars [(''nonImageInput'', JNum (num_sub (mu_inputTokens a) (mu_imageOutputTokens a))),
          (''imageInput'', JNum (mu_imageOutputTokens a))])
      else if positive (mu_cacheTokens a)
      then buildBillingText t MSG_desc_cache
        (vars [(''nonCacheInput'', JNum (num_sub (mu_inputTokens a) (mu_cacheTokens a))), (''cacheInput'', JNum (mu_cacheTokens a)),
          (''symbol'', JStr symbol), (''price'', price),
          (''cachePrice'', JStr (formatBillingDisplayPrice (ratio_price (mu_modelRatio a) (mu_cacheRatio a)) rate 6))])
      else if mu_audioInputSeperatePrice a \<and> positive (mu_audioInputTokens a)
      then buildBillingText t MSG_desc_audio
        (vars [(''nonAudioInput'', JNum (num_sub (mu_inputTokens a) (mu_audioInputTokens a))),
          (''audioInput'', JNum (mu_audioInputTokens a)), (''symbol'', JStr symbol), (''price'', price),
          (''audioPrice'', JStr (formatBillingDisplayPrice (mu_audioInputPrice a) rate 6))])
      else buildBillingPriceText t MSG_desc_input symbol inputRatioPrice rate ''price'' 6
        (vars [(''input'', JNum (mu_inputTokens a))]))"

definition extraServices :: "i18n \<Rightarrow> jstring \<Rightarrow> jsnum \<Rightarrow> effective_ratio \<Rightarrow> model_usage \<Rightarrow> jstring" where
  "extraServices t symbol rate e a =
     (let ratio = [(''ratio'', JNum (er_ratio e)), (''ratioType'', JStr (er_label e))] in
      (if mu_webSearch a \<and> positive (mu_webSearchCallCount a)
       then buildBillingPriceText t MSG_extra_web symbol (mu_webSearchPrice a) rate ''price'' 6
         (vars ((''count'', JNum (mu_webSearchCallCount a)) # ratio)) else []) @
      (if mu_fileSearch a \<and> positive (mu_fileSearchCallCount a)
       then buildBillingPriceText t MSG_extra_file symbol (mu_fileSearchPrice a) rate ''price'' 6
         (vars ((''count'', JNum (mu_fileSearchCallCount a)) # ratio)) else []) @
      (if mu_imageGenerationCall a \<and> positive (mu_imageGenerationCallPrice a)
       then buildBillingPriceText t MSG_extra_picture symbol (mu_imageGenerationCallPrice a) rate ''price'' 6 (vars ratio) else []))"

definition price_account :: "i18n \<Rightarrow> jstring \<Rightarrow> jsnum \<Rightarrow> effective_ratio \<Rightarrow> model_usage \<Rightarrow> billing_view" where
  "price_account t symbol rate e a =
     (let inputRatioPrice = num_mul (mu_modelRatio a) (Num 2);
          completionRatioPrice = ratio_price (mu_modelRatio a) (completion_ratio a);
          outputDesc = buildBillingText t MSG_desc_output
            (vars [(''completion'', JNum (mu_completionTokens a)), (''symbol'', JStr symbol),
              (''compPrice'', JStr (formatBillingDisplayPrice completionRatioPrice rate 6)),
              (''ratio'', JNum (er_ratio e)), (''ratioType'', JStr (er_label e))]);
          audioPrice = (if mu_audioInputSeperatePrice a
            then SEP_SUMMARY @ t MSG_audio_input_label [] @ js '' '' @ symbol @
              formatBillingDisplayPrice (mu_audioInputPrice a) rate 6 @ js '' / 1M tokens''
            else [])
      in renderBillingArticle t
        [Some (buildBillingPriceText t MSG_line_input symbol inputRatioPrice rate ''price'' 6 (vars [(''audioPrice'', JStr audioPrice)])),
         Some (buildBillingPriceText t MSG_line_output symbol completionRatioPrice rate ''total'' 6 []),
         line_if (positive (mu_cacheTokens a))
           (buildBillingPriceText t MSG_line_cache symbol (num_mul inputRatioPrice (mu_cacheRatio a)) rate ''total'' 6 []),
         line_if (has_image_input a)
           (buildBillingPriceText t MSG_line_image symbol (ratio_price (mu_modelRatio a) (mu_imageRatio a)) rate ''total'' 6 []),
         line_if (mu_webSearch a \<and> positive (mu_webSearchCallCount a))
           (buildBillingPriceText t MSG_line_web symbol (mu_webSearchPrice a) rate ''price'' 6 []),
         line_if (mu_fileSearch a \<and> positive (mu_fileSearchCallCount a))
           (buildBillingPriceText t MSG_line_file symbol (mu_fileSearchPrice a) rate ''price'' 6 []),
         line_if (mu_imageGenerationCall a \<and> positive (mu_imageGenerationCallPrice a))
           (buildBillingPriceText t MSG_line_picture symbol (mu_imageGenerationCallPrice a) rate ''price'' 6 []),
         Some (buildBillingText t MSG_line_total
           (vars [(''inputDesc'', JStr (inputDesc t symbol rate a)), (''outputDesc'', JStr outputDesc),
             (''extraServices'', JStr (extraServices t symbol rate e a)), (''symbol'', JStr symbol),
             (''total'', JStr (formatBillingDisplayPrice (price_usd a (er_ratio e)) rate 6))]))]
        True)"

definition call_account :: "i18n \<Rightarrow> jstring \<Rightarrow> jsnum \<Rightarrow> effective_ratio \<Rightarrow> jsnum \<Rightarrow> billing_view" where
  "call_account t symbol rate e modelPrice =
     renderBillingArticle t
       [Some (buildBillingPriceText t MSG_call_price symbol modelPrice rate ''price'' 6 []),
        Some (buildBillingPriceText t MSG_call_total symbol modelPrice rate ''price'' 6
          (vars [(''ratioType'', JStr (er_label e)), (''ratio'', JNum (er_ratio e)),
            (''total'', JStr (formatBillingDisplayPrice (num_mul modelPrice (er_ratio e)) rate 6))]))]
       True"

text \<open>The account by ratios, for displays in tokens.\<close>

definition textInputTokens :: "model_usage \<Rightarrow> jsnum" where
  "textInputTokens a = num_max (num_sub (num_sub (mu_inputTokens a) (mu_cacheTokens a)) (mu_audioInputTokens a)) (Num 0)"

definition imageInputTokens :: "model_usage \<Rightarrow> jsnum" where
  "imageInputTokens a = (if has_image_input a then mu_imageOutputTokens a else Num 0)"

record ratio_amounts =
  ra_text :: jsnum
  ra_cache :: jsnum
  ra_image :: jsnum
  ra_audio :: jsnum
  ra_completion :: jsnum
  ra_web :: jsnum
  ra_file :: jsnum
  ra_picture :: jsnum

definition ratio_amounts_of :: "model_usage \<Rightarrow> jsnum \<Rightarrow> ratio_amounts" where
  "ratio_amounts_of a groupRatio =
     (let inputRatioPrice = num_mul (mu_modelRatio a) (Num 2);
          completionRatioPrice = ratio_price (mu_modelRatio a) (formatRatioValue (completion_ratio a) 6)
      in \<lparr>ra_text = charge (textInputTokens a) 1000000 inputRatioPrice groupRatio,
          ra_cache = num_mul (num_mul (num_mul (num_div (mu_cacheTokens a) (Num 1000000)) inputRatioPrice)
            (formatRatioValue (mu_cacheRatio a) 6)) groupRatio,
          ra_image = num_mul (num_mul (num_mul (num_div (imageInputTokens a) (Num 1000000)) inputRatioPrice)
            (formatRatioValue (mu_imageRatio a) 6)) groupRatio,
          ra_audio = charge (mu_audioInputTokens a) 1000000 (mu_audioInputPrice a) groupRatio,
          ra_completion = charge (mu_completionTokens a) 1000000 completionRatioPrice groupRatio,
          ra_web = charge (mu_webSearchCallCount a) 1000 (mu_webSearchPrice a) groupRatio,
          ra_file = charge (mu_fileSearchCallCount a) 1000 (mu_fileSearchPrice a) groupRatio,
          ra_picture = num_mul (mu_imageGenerationCallPrice a) groupRatio\<rparr>)"

definition totalAmount :: "model_usage \<Rightarrow> jsnum \<Rightarrow> jsnum" where
  "totalAmount a groupRatio =
     (let r = ratio_amounts_of a groupRatio
      in num_add (num_add (num_add (num_add (num_add (num_add (num_add (ra_text r) (ra_cache r)) (ra_image r)) (ra_audio r))
           (ra_completion r)) (ra_web r)) (ra_file r)) (ra_picture r))"

definition audioRatioValue :: "model_usage \<Rightarrow> jsnum option" where
  "audioRatioValue a =
     (if mu_audioInputSeperatePrice a \<and> positive (mu_audioInputPrice a)
      then Some (formatRatioValue (num_div (mu_audioInputPrice a) (num_mul (mu_modelRatio a) (Num 2))) 6) else None)"

definition MSG_r_model :: jstring where "MSG_r_model = [0x6A21, 0x578B, 0x500D, 0x7387] @ js '' {{modelRatio}}''"
definition MSG_r_completion :: jstring where "MSG_r_completion = [0x8865, 0x5168, 0x500D, 0x7387] @ js '' {{completionRatio}}''"
definition MSG_r_cache :: jstring where "MSG_r_cache = [0x7F13, 0x5B58, 0x500D, 0x7387] @ js '' {{cacheRatio}}''"
definition MSG_r_image :: jstring where "MSG_r_image = [0x56FE, 0x7247, 0x500D, 0x7387] @ js '' {{imageRatio}}''"
definition MSG_r_audio :: jstring where "MSG_r_audio = [0x97F3, 0x9891, 0x500D, 0x7387] @ js '' {{audioRatio}}''"
definition MSG_r_group :: jstring where "MSG_r_group = js ''{{ratioType}} {{ratio}}''"
definition MSG_a_text :: jstring where "MSG_a_text = [0x666E, 0x901A, 0x8F93, 0x5165, 0xFF1A] @ js ''{{tokens}} / 1M * '' @ [0x6A21, 0x578B, 0x500D, 0x7387] @ js '' {{modelRatio}} * {{ratioType}} {{ratio}} = {{amount}}''"
definition MSG_a_cache :: jstring where "MSG_a_cache = [0x7F13, 0x5B58, 0x8F93, 0x5165, 0xFF1A] @ js ''{{tokens}} / 1M * '' @ [0x6A21, 0x578B, 0x500D, 0x7387] @ js '' {{modelRatio}} * '' @ [0x7F13, 0x5B58, 0x500D, 0x7387] @ js '' {{cacheRatio}} * {{ratioType}} {{ratio}} = {{amount}}''"
definition MSG_a_image :: jstring where "MSG_a_image = [0x56FE, 0x7247, 0x8F93, 0x5165, 0xFF1A] @ js ''{{tokens}} / 1M * '' @ [0x6A21, 0x578B, 0x500D, 0x7387] @ js '' {{modelRatio}} * '' @ [0x56FE, 0x7247, 0x500D, 0x7387] @ js '' {{imageRatio}} * {{ratioType}} {{ratio}} = {{amount}}''"
definition MSG_a_audio :: jstring where "MSG_a_audio = [0x97F3, 0x9891, 0x8F93, 0x5165, 0xFF1A] @ js ''{{tokens}} / 1M * '' @ [0x6A21, 0x578B, 0x500D, 0x7387] @ js '' {{modelRatio}} * '' @ [0x97F3, 0x9891, 0x500D, 0x7387] @ js '' {{audioRatio}} * {{ratioType}} {{ratio}} = {{amount}}''"
definition MSG_a_output :: jstring where "MSG_a_output = [0x8F93, 0x51FA, 0xFF1A] @ js ''{{tokens}} / 1M * '' @ [0x6A21, 0x578B, 0x500D, 0x7387] @ js '' {{modelRatio}} * '' @ [0x8865, 0x5168, 0x500D, 0x7387] @ js '' {{completionRatio}} * {{ratioType}} {{ratio}} = {{amount}}''"
definition MSG_a_web :: jstring where "MSG_a_web = js ''Web '' @ [0x641C, 0x7D22, 0xFF1A] @ js ''{{count}} / 1K * '' @ [0x5355, 0x4EF7] @ js '' {{price}} * {{ratioType}} {{ratio}} = {{amount}}''"
definition MSG_a_file :: jstring where "MSG_a_file = [0x6587, 0x4EF6, 0x641C, 0x7D22, 0xFF1A] @ js ''{{count}} / 1K * '' @ [0x5355, 0x4EF7] @ js '' {{price}} * {{ratioType}} {{ratio}} = {{amount}}''"
definition MSG_a_picture :: jstring where "MSG_a_picture = [0x56FE, 0x7247, 0x751F, 0x6210, 0xFF1A] @ js ''1 '' @ [0x6B21] @ js '' * '' @ [0x5355, 0x4EF7] @ js '' {{price}} * {{ratioType}} {{ratio}} = {{amount}}''"
definition MSG_a_total :: jstring where "MSG_a_total = [0x5408, 0x8BA1, 0xFF1A] @ js ''{{total}}''"

definition ratio_header :: "i18n \<Rightarrow> effective_ratio \<Rightarrow> model_usage \<Rightarrow> jstring" where
  "ratio_header t e a = join SEP_SUMMARY (filter (\<lambda>l. l \<noteq> [])
     ([buildBillingText t MSG_r_model (vars [(''modelRatio'', JNum (formatRatioValue (mu_modelRatio a) 6))]),
       buildBillingText t MSG_r_completion (vars [(''completionRatio'', JNum (formatRatioValue (completion_ratio a) 6))])] @
      (if positive (mu_cacheTokens a)
       then [buildBillingText t MSG_r_cache (vars [(''cacheRatio'', JNum (formatRatioValue (mu_cacheRatio a) 6))])] else []) @
      (if positive (imageInputTokens a)
       then [buildBillingText t MSG_r_image (vars [(''imageRatio'', JNum (formatRatioValue (mu_imageRatio a) 6))])] else []) @
      (case audioRatioValue a of Some r \<Rightarrow> [buildBillingText t MSG_r_audio (vars [(''audioRatio'', JNum r)])] | None \<Rightarrow> []) @
      [buildBillingText t MSG_r_group (vars [(''ratioType'', JStr (er_label e)), (''ratio'', JNum (er_ratio e))])]))"

definition ratio_account :: "i18n \<Rightarrow> display_store \<Rightarrow> effective_ratio \<Rightarrow> model_usage \<Rightarrow> billing_view" where
  "ratio_account t store e a =
     (let r = ratio_amounts_of a (er_ratio e);
          model = (''modelRatio'', JNum (formatRatioValue (mu_modelRatio a) 6));
          ratio = [(''ratioType'', JStr (er_label e)), (''ratio'', JNum (er_ratio e))];
          amount = (\<lambda>x. (''amount'', renderDisplayAmountFromUsd store x 6))
      in renderBillingArticle t
        [Some (ratio_header t e a),
         line_if (positive (textInputTokens a)) (buildBillingText t MSG_a_text
           (vars ([(''tokens'', JNum (textInputTokens a)), model] @ ratio @ [amount (ra_text r)]))),
         line_if (positive (mu_cacheTokens a)) (buildBillingText t MSG_a_cache
           (vars ([(''tokens'', JNum (mu_cacheTokens a)), model, (''cacheRatio'', JNum (formatRatioValue (mu_cacheRatio a) 6))] @
             ratio @ [amount (ra_cache r)]))),
         line_if (positive (imageInputTokens a)) (buildBillingText t MSG_a_image
           (vars ([(''tokens'', JNum (imageInputTokens a)), model, (''imageRatio'', JNum (formatRatioValue (mu_imageRatio a) 6))] @
             ratio @ [amount (ra_image r)]))),
         (case audioRatioValue a of
            Some x \<Rightarrow> line_if (positive (mu_audioInputTokens a)) (buildBillingText t MSG_a_audio
              (vars ([(''tokens'', JNum (mu_audioInputTokens a)), model, (''audioRatio'', JNum x)] @ ratio @ [amount (ra_audio r)])))
          | None \<Rightarrow> None),
         Some (buildBillingText t MSG_a_output
           (vars ([(''tokens'', JNum (mu_completionTokens a)), model, (''completionRatio'', JNum (formatRatioValue (completion_ratio a) 6))] @
             ratio @ [amount (ra_completion r)]))),
         line_if (mu_webSearch a \<and> positive (mu_webSearchCallCount a)) (buildBillingText t MSG_a_web
           (vars ([(''count'', JNum (mu_webSearchCallCount a)), (''price'', renderDisplayAmountFromUsd store (mu_webSearchPrice a) 6)] @
             ratio @ [amount (ra_web r)]))),
         line_if (mu_fileSearch a \<and> positive (mu_fileSearchCallCount a)) (buildBillingText t MSG_a_file
           (vars ([(''count'', JNum (mu_fileSearchCallCount a)), (''price'', renderDisplayAmountFromUsd store (mu_fileSearchPrice a) 6)] @
             ratio @ [amount (ra_file r)]))),
         line_if (mu_imageGenerationCall a \<and> positive (mu_imageGenerationCallPrice a)) (buildBillingText t MSG_a_picture
           (vars ([(''price'', renderDisplayAmountFromUsd store (mu_imageGenerationCallPrice a) 6)] @ ratio @ [amount (ra_picture r)]))),
         Some (buildBillingText t MSG_a_total (vars [(''total'', renderDisplayAmountFromUsd store (totalAmount a (er_ratio e)) 6)]))]
        True)"

definition MSG_call_plain :: jstring where "MSG_call_plain = [0x6309, 0x6B21, 0xFF1A] @ js ''{{symbol}}{{price}} * {{ratioType}}'' @ [0xFF1A] @ js ''{{ratio}} = {{symbol}}{{total}}''"

definition renderModelPrice :: "i18n \<Rightarrow> display_store \<Rightarrow> model_usage \<Rightarrow> billing_view" where
  "renderModelPrice t store a =
     (let e = getEffectiveRatio t (mu_groupRatio a) (mu_user_group_ratio a); c = getCurrencyConfig store in
      if \<not> shouldUseRatioBillingProcess store (mu_modelPrice a) then
        (if \<not> num_eq (mu_modelPrice a) no_price then call_account t (cu_symbol c) (cu_rate c) e (mu_modelPrice a)
         else price_account t (cu_symbol c) (cu_rate c) e a)
      else if \<not> num_eq (mu_modelPrice a) no_price then
        Plain (t MSG_call_plain (vars [(''symbol'', JStr (cu_symbol c)),
          (''price'', JStr (to_fixed 6 (num_mul (mu_modelPrice a) (cu_rate c)))), (''ratio'', JNum (er_ratio e)),
          (''total'', JStr (to_fixed 6 (num_mul (num_mul (mu_modelPrice a) (er_ratio e)) (cu_rate c)))),
          (''ratioType'', JStr (er_label e))]))
      else ratio_account t store e a)"

subsection \<open>What the accounts say\<close>

text \<open>The two lists of prices are the same, and so are the two lists of ratios, but for the values.\<close>

lemma prices_agree:
  "summary_price_parts t store a = map snd (segment_prices t store a) @ [getGroupRatioText t (sp_groupRatio a) (sp_user_group_ratio a)]"
  by (simp add: summary_price_parts_def segment_prices_def price_segment_def secondary_def price_text_def ratio_price_def Let_def)

definition ratio_keys :: "simple_price \<Rightarrow> (jstring \<times> jsobj) list \<Rightarrow> bool" where
  "ratio_keys a parts \<longleftrightarrow>
     (\<forall>t. segment_ratios t a = map (\<lambda>(key, vs). (Secondary, t key vs)) parts) \<and>
     (\<forall>t. summary_ratio_parts t a = map (\<lambda>(key, vs). t key []) parts @ [js ''{{ratioType}}: {{groupRatio}}'']) \<and>
     (\<forall>e. \<forall>(key, vs) \<in> set parts. set vs \<subseteq> set (summary_ratio_values e a))"

lemma vars_subset: "set xs \<subseteq> set ys \<Longrightarrow> set (vars xs) \<subseteq> set (vars ys)"
  by (auto simp: vars_def)

lemma ratios_agree: "\<exists>parts. ratio_keys a parts"
proof -
  define parts where "parts =
     (MSG_model_is, vars [(''ratio'', JNum (sp_modelRatio a))]) #
     (if shouldShowCache a then [(MSG_cache_is, vars [(''cacheRatio'', JNum (sp_cacheRatio a))])] else []) @
     (if shouldShowCacheCreation5m a \<and> shouldShowCacheCreation1h a
      then [(MSG_creation_both, vars [(''cacheCreationRatio5m'', JNum (sp_cacheCreationRatio5m a)),
              (''cacheCreationRatio1h'', JNum (sp_cacheCreationRatio1h a))])]
      else if shouldShowCacheCreation5m a then [(MSG_creation_5m, vars [(''cacheCreationRatio5m'', JNum (sp_cacheCreationRatio5m a))])]
      else if shouldShowCacheCreation1h a then [(MSG_creation_1h, vars [(''cacheCreationRatio1h'', JNum (sp_cacheCreationRatio1h a))])]
      else if shouldShowLegacyCacheCreation a then [(MSG_creation_is, vars [(''cacheCreationRatio'', JNum (sp_cacheCreationRatio a))])]
      else []) @
     (if sp_image a then [(MSG_image_input_is, vars [(''imageRatio'', JNum (sp_imageRatio a))])] else [])"
  note show_defs = shouldShowCacheCreation5m_def shouldShowCacheCreation1h_def shouldShowLegacyCacheCreation_def hasSplitCacheCreation_def
  have "segment_ratios t a = map (\<lambda>(key, vs). (Secondary, t key vs)) parts" for t
    by (auto simp: segment_ratios_def parts_def secondary_def show_defs)
  moreover have "summary_ratio_parts t a = map (\<lambda>(key, vs). t key []) parts @ [js ''{{ratioType}}: {{groupRatio}}'']" for t
    by (auto simp: summary_ratio_parts_def parts_def show_defs Let_def)
  moreover have "list_all (\<lambda>(key, vs). set vs \<subseteq> set (summary_ratio_values e a)) parts" for e
    by (simp add: parts_def summary_ratio_values_def vars_subset)
  ultimately show ?thesis unfolding ratio_keys_def list_all_iff by blast
qed

text \<open>
  C36. The summary of a log row and the segments of its compact form, which the source lists separately, say the same about
  a model billed per token. In prices, the summary is the secondary segments and then the group's ratio, joined. In ratios, both
  translate the same keys in the same order, the group's ratio following in the summary, and every value given to a
  segment is among the values of the summary.
\<close>

theorem summary_agrees_with_segments:
  assumes "num_eq (sp_modelPrice a) no_price"
  shows "let segments = price_segments t store a; details = map snd (filter (\<lambda>s. fst s = Secondary) segments);
      e = getEffectiveRatio t (sp_groupRatio a) (sp_user_group_ratio a) in
    if isPriceDisplayMode store (sp_displayMode a) (sp_modelPrice a)
    then renderPriceSimpleCore t store a False = Inl (with_override t a (joinBillingSummary (details @ [snd (hd segments)])))
    else \<exists>parts. details = map (\<lambda>(key, vs). t key vs) parts \<and>
      renderPriceSimpleCore t store a False = Inl (with_override t a
        (t (join (js '' * '') (map (\<lambda>(key, vs). t key []) parts @ [js ''{{ratioType}}: {{groupRatio}}''])) (summary_ratio_values e a))) \<and>
      (\<forall>(key, vs) \<in> set parts. set vs \<subseteq> set (summary_ratio_values e a))"
proof (cases "isPriceDisplayMode store (sp_displayMode a) (sp_modelPrice a)")
  case True
  have "filter (\<lambda>s. fst s = Secondary) (segment_prices t store a) = segment_prices t store a"
    by (simp add: segment_prices_def price_segment_def secondary_def)
  then show ?thesis
    using True assms by (simp add: renderPriceSimpleCore_def simple_text_def price_summary_def price_segments_def prices_agree Let_def)
next
  case False
  obtain parts where p: "ratio_keys a parts" using ratios_agree by blast
  have "filter (\<lambda>s. fst s = Secondary) (map (\<lambda>(key, vs). (Secondary, t key vs)) parts) = map (\<lambda>(key, vs). (Secondary, t key vs)) parts"
    by (induction parts) auto
  then have "map snd (filter (\<lambda>s. fst s = Secondary) (price_segments t store a)) = map (\<lambda>(key, vs). t key vs) parts"
    using False assms p by (simp add: price_segments_def ratio_keys_def comp_def case_prod_unfold)
  moreover have "simple_text t store a = with_override t a
      (t (join (js '' * '') (map (\<lambda>(key, vs). t key []) parts @ [js ''{{ratioType}}: {{groupRatio}}'']))
        (summary_ratio_values (getEffectiveRatio t (sp_groupRatio a) (sp_user_group_ratio a)) a))"
    using False assms p by (simp add: simple_text_def Let_def ratio_keys_def)
  moreover have "\<forall>(key, vs) \<in> set parts. set vs \<subseteq> set (summary_ratio_values e a)" for e
    using p unfolding ratio_keys_def by blast
  ultimately show ?thesis
    using False by (simp add: Let_def renderPriceSimpleCore_def) blast
qed

definition sample_simple :: simple_price where
  "sample_simple = \<lparr>sp_modelRatio = Num 1, sp_modelPrice = no_price, sp_groupRatio = Num 2, sp_user_group_ratio = None,
     sp_cacheTokens = Num 0, sp_cacheRatio = Num 1, sp_cacheCreationTokens = Num 0, sp_cacheCreationRatio = Num 1,
     sp_cacheCreationTokens5m = Num 0, sp_cacheCreationRatio5m = Num 1, sp_cacheCreationTokens1h = Num 0,
     sp_cacheCreationRatio1h = Num 1, sp_image = True, sp_imageRatio = Num 3, sp_isSystemPromptOverride = False,
     sp_displayMode = M_PRICE\<rparr>"

lemma sample_simple_in_prices:
  "num_eq (sp_modelPrice sample_simple) no_price"
  "isPriceDisplayMode (unit_store n) (sp_displayMode sample_simple) (sp_modelPrice sample_simple)"
  by (simp_all add: sample_simple_def num_eq_def isPriceDisplayMode_def resolveBillingDisplayMode_def M_PRICE_def M_RATIO_def
      unit_store_simps display_texts js_def)

theorem summary_agrees_with_segments_witness:
  "renderPriceSimpleCore (\<lambda>key vs. key) (unit_store 500000) sample_simple False =
     Inl (joinBillingSummary [MSG_input_1m, MSG_image_input_1m, MSG_ratio_times])"
proof -
  have "snd (hd (price_segments (\<lambda>key vs. key) (unit_store 500000) sample_simple)) = MSG_ratio_times"
    by (simp add: price_segments_def getGroupRatioText_def Let_def)
  moreover have "map snd (filter (\<lambda>s. fst s = Secondary) (price_segments (\<lambda>key vs. key) (unit_store 500000) sample_simple)) =
      [MSG_input_1m, MSG_image_input_1m]"
    unfolding price_segments_def segment_prices_def price_segment_def secondary_def
    by (simp add: sample_simple_in_prices del: to_fixed.simps)
      (simp add: sample_simple_def shouldShowCache_def hasSplitCacheCreation_def shouldShowCacheCreation5m_def
        shouldShowCacheCreation1h_def shouldShowLegacyCacheCreation_def num_eq_def num_lt_def)
  moreover have "with_override (\<lambda>key vs. key) sample_simple result = result" for result
    by (simp add: with_override_def sample_simple_def)
  ultimately show ?thesis
    using summary_agrees_with_segments [OF sample_simple_in_prices(1), of "\<lambda>key vs. key" "unit_store 500000"]
    by (simp add: sample_simple_in_prices Let_def)
qed

text \<open>
  With picture input the account by prices charges cached tokens like other input: its total does not depend on
  the number of cached tokens or on their ratio, although the account lists a price for them.
\<close>

theorem image_input_hides_cache:
  assumes "has_image_input a"
  shows "price_usd (a\<lparr>mu_cacheTokens := n, mu_cacheRatio := r\<rparr>) groupRatio = price_usd a groupRatio"
  using assms by (simp add: price_usd_def effectiveInputTokens_def has_image_input_def completion_ratio_def Let_def)


text \<open>Whole numbers of moderate size are exact doubles and survive the six digits of \<open>formatRatioValue\<close>.\<close>

lemma formatRatioValue_nat:
  assumes "n < 10 ^ 9"
  shows "formatRatioValue (Num (of_nat n)) 6 = Num (of_nat n)"
proof -
  have r: "rnd (of_nat m) = Num (of_nat m)" if "m \<le> 10 ^ 9" for m
    using rnd_of_int [of "int m"] that by simp
  have d: "is_double (of_nat n)" using r [of n] assms by (simp add: is_double_def)
  have "(of_nat n :: rat) < of_nat (10 ^ 9)" using assms by (simp only: of_nat_less_iff)
  then have b: "\<not> (10 :: rat) ^ 21 \<le> of_nat n" by simp
  have "\<lfloor>(of_nat n :: rat) * 1000000 + 1 / 2\<rfloor> = int n * 1000000" by (rule floor_unique) simp_all
  then have "nat \<lfloor>(of_nat n :: rat) * 10 ^ 6 + 1 / 2\<rfloor> = n * 1000000" by (simp add: nat_mult_distrib)
  then have "fixed_value 6 (of_nat n) = Num (of_nat n)"
    using b r [of n] assms by (simp add: fixed_value_def with_sign_def)
  then show ?thesis
    using string_to_number_to_fixed [OF d, of 6] by (simp add: formatRatioValue_def num_finite_def del: to_fixed.simps)
qed

lemma rnd_numeral: "(numeral k :: int) \<le> 2 ^ 53 \<Longrightarrow> rnd (numeral k) = Num (numeral k)"
  using rnd_of_int [of "numeral k"] by simp

lemma rnd_one: "rnd 1 = Num 1"
  using rnd_of_int [of 1] by simp

definition picture_usage :: model_usage where
  "picture_usage = \<lparr>mu_inputTokens = Num 2000000, mu_completionTokens = Num 0, mu_modelRatio = Num 1, mu_modelPrice = no_price,
     mu_completionRatio = None, mu_groupRatio = Num 1, mu_user_group_ratio = None, mu_cacheTokens = Num 0, mu_cacheRatio = Num 1,
     mu_image = True, mu_imageRatio = Num 2, mu_imageOutputTokens = Num 1000000,
     mu_webSearch = False, mu_webSearchCallCount = Num 0, mu_webSearchPrice = Num 0,
     mu_fileSearch = False, mu_fileSearchCallCount = Num 0, mu_fileSearchPrice = Num 0,
     mu_audioInputSeperatePrice = False, mu_audioInputTokens = Num 0, mu_audioInputPrice = Num 0,
     mu_imageGenerationCall = False, mu_imageGenerationCallPrice = Num 0\<rparr>"

theorem image_input_hides_cache_witness:
  "price_usd (picture_usage\<lparr>mu_cacheTokens := Num 1000000, mu_cacheRatio := Num 0\<rparr>) (Num 1) = price_usd picture_usage (Num 1)"
  by (rule image_input_hides_cache) (simp add: has_image_input_def picture_usage_def num_lt_def num_eq_def)

text \<open>
  The two accounts of a request with picture input disagree. The account by prices takes the picture tokens out of
  the input before it charges them; the account by ratios charges them as text and again as pictures. Two million
  tokens at 2 dollars per million, half of them pictures at twice the price, come to 6 dollars and to 8.
\<close>

theorem accounts_disagree:
  "price_usd picture_usage (Num 1) = Num 6 \<and> totalAmount picture_usage (Num 1) = Num 8"
proof (intro conjI)
  have f: "formatRatioValue (Num 1) 6 = Num 1" "formatRatioValue (Num 0) 6 = Num 0" "formatRatioValue (Num 2) 6 = Num 2"
    using formatRatioValue_nat [of 1] formatRatioValue_nat [of 0] formatRatioValue_nat [of 2] by simp_all
  show "price_usd picture_usage (Num 1) = Num 6"
    by (simp add: price_usd_def picture_usage_def effectiveInputTokens_def has_image_input_def completion_ratio_def
        ratio_price_def charge_def num_sub_def num_lt_def num_eq_def Let_def rnd_numeral rnd_one)
  show "totalAmount picture_usage (Num 1) = Num 8"
    by (simp add: totalAmount_def ratio_amounts_of_def picture_usage_def textInputTokens_def imageInputTokens_def
        has_image_input_def completion_ratio_def ratio_price_def charge_def num_sub_def num_max_def num_lt_def num_eq_def
        Let_def f rnd_numeral rnd_one)
qed

end
