(* ===== verification/BillingAccounts.thy ===== *)
theory BillingAccounts
  imports BillingText
begin

text \<open>
  More billing texts of \<open>helpers/render.jsx\<close>: the content of a log row, the account of models with split cache
  creation (Claude), and the account of audio models. As in \<open>BillingText\<close> an account is the list of its lines and the
  numbers are those the server logs.
\<close>

subsection \<open>The content of a log row\<close>

record log_prices =
  lp_modelRatio :: jsnum
  lp_completionRatio :: jsnum
  lp_modelPrice :: jsnum
  lp_groupRatio :: jsnum
  lp_user_group_ratio :: "jsnum option"
  lp_cacheRatio :: jsnum
  lp_image :: bool
  lp_imageRatio :: jsnum
  lp_webSearch :: bool
  lp_webSearchCallCount :: jsnum
  lp_fileSearch :: bool
  lp_fileSearchCallCount :: jsnum
  lp_displayMode :: jstring

definition MSG_per_call_price :: jstring where "MSG_per_call_price = [0x6A21, 0x578B, 0x4EF7, 0x683C] @ js '' {{symbol}}{{price}} / '' @ [0x6B21]"
definition MSG_log_input :: jstring where "MSG_log_input = [0x8F93, 0x5165, 0x4EF7, 0x683C] @ js '' {{symbol}}{{price}} / 1M tokens''"
definition MSG_log_output :: jstring where "MSG_log_output = [0x8F93, 0x51FA, 0x4EF7, 0x683C] @ js '' {{symbol}}{{price}} / 1M tokens''"
definition MSG_log_cache :: jstring where "MSG_log_cache = [0x7F13, 0x5B58, 0x8BFB, 0x53D6, 0x4EF7, 0x683C] @ js '' {{symbol}}{{price}} / 1M tokens''"
definition MSG_log_image :: jstring where "MSG_log_image = [0x56FE, 0x7247, 0x8F93, 0x5165, 0x4EF7, 0x683C] @ js '' {{symbol}}{{price}} / 1M tokens''"
definition MSG_web_calls :: jstring where "MSG_web_calls = js ''Web '' @ [0x641C, 0x7D22, 0x8C03, 0x7528] @ js '' {{webSearchCallCount}} '' @ [0x6B21]"
definition MSG_file_calls :: jstring where "MSG_file_calls = [0x6587, 0x4EF6, 0x641C, 0x7D22, 0x8C03, 0x7528] @ js '' {{fileSearchCallCount}} '' @ [0x6B21]"
definition MSG_price_and_ratio :: jstring where "MSG_price_and_ratio = [0x6A21, 0x578B, 0x4EF7, 0x683C] @ js '' {{symbol}}{{price}}'' @ [0xFF0C] @ js ''{{ratioType}} {{ratio}}''"
definition MSG_ratios_image :: jstring where "MSG_ratios_image = [0x6A21, 0x578B, 0x500D, 0x7387] @ js '' {{modelRatio}}'' @ [0xFF0C, 0x7F13, 0x5B58, 0x500D, 0x7387] @ js '' {{cacheRatio}}'' @ [0xFF0C, 0x8F93, 0x51FA, 0x500D, 0x7387] @ js '' {{completionRatio}}'' @ [0xFF0C, 0x56FE, 0x7247, 0x8F93, 0x5165, 0x500D, 0x7387] @ js '' {{imageRatio}}'' @ [0xFF0C] @ js ''{{ratioType}} {{ratio}}''"
definition MSG_ratios_web :: jstring where "MSG_ratios_web = [0x6A21, 0x578B, 0x500D, 0x7387] @ js '' {{modelRatio}}'' @ [0xFF0C, 0x7F13, 0x5B58, 0x500D, 0x7387] @ js '' {{cacheRatio}}'' @ [0xFF0C, 0x8F93, 0x51FA, 0x500D, 0x7387] @ js '' {{completionRatio}}'' @ [0xFF0C] @ js ''{{ratioType}} {{ratio}}'' @ [0xFF0C] @ js ''Web '' @ [0x641C, 0x7D22, 0x8C03, 0x7528] @ js '' {{webSearchCallCount}} '' @ [0x6B21]"
definition MSG_ratios_plain :: jstring where "MSG_ratios_plain = [0x6A21, 0x578B, 0x500D, 0x7387] @ js '' {{modelRatio}}'' @ [0xFF0C, 0x7F13, 0x5B58, 0x500D, 0x7387] @ js '' {{cacheRatio}}'' @ [0xFF0C, 0x8F93, 0x51FA, 0x500D, 0x7387] @ js '' {{completionRatio}}'' @ [0xFF0C] @ js ''{{ratioType}} {{ratio}}''"

text \<open>\<open>(usd * rate).toFixed(6)\<close> behind the symbol of the currency.\<close>

definition priced :: "currency \<Rightarrow> jsnum \<Rightarrow> jsobj" where
  "priced c usd = vars [(''symbol'', JStr (cu_symbol c)), (''price'', JStr (to_fixed 6 (num_mul usd (cu_rate c))))]"

definition log_price_parts :: "i18n \<Rightarrow> currency \<Rightarrow> log_prices \<Rightarrow> jstring list" where
  "log_price_parts t c a =
     (let unit = num_mul (lp_modelRatio a) (Num 2);
          parts = [t MSG_log_input (priced c unit), t MSG_log_output (priced c (num_mul unit (lp_completionRatio a)))];
          parts = appendPricePart t parts (\<not> num_eq (lp_cacheRatio a) (Num 1)) MSG_log_cache (priced c (num_mul unit (lp_cacheRatio a)));
          parts = appendPricePart t parts (lp_image a) MSG_log_image (priced c (num_mul unit (lp_imageRatio a)));
          parts = appendPricePart t parts (lp_webSearch a) MSG_web_calls (vars [(''webSearchCallCount'', JNum (lp_webSearchCallCount a))]);
          parts = appendPricePart t parts (lp_fileSearch a) MSG_file_calls (vars [(''fileSearchCallCount'', JNum (lp_fileSearchCallCount a))])
      in parts @ [getGroupRatioText t (lp_groupRatio a) (lp_user_group_ratio a)])"

definition log_ratio_text :: "i18n \<Rightarrow> effective_ratio \<Rightarrow> log_prices \<Rightarrow> jstring" where
  "log_ratio_text t e a =
     (let ratios = [(''modelRatio'', JNum (lp_modelRatio a)), (''cacheRatio'', JNum (lp_cacheRatio a)),
            (''completionRatio'', JNum (lp_completionRatio a))];
          group_ratio = [(''ratioType'', JStr (er_label e)), (''ratio'', JNum (er_ratio e))] in
      if lp_image a then t MSG_ratios_image (vars (ratios @ [(''imageRatio'', JNum (lp_imageRatio a))] @ group_ratio))
      else if lp_webSearch a
      then t MSG_ratios_web (vars (ratios @ group_ratio @ [(''webSearchCallCount'', JNum (lp_webSearchCallCount a))]))
      else t MSG_ratios_plain (vars (ratios @ group_ratio)))"

definition renderLogContent :: "i18n \<Rightarrow> display_store \<Rightarrow> log_prices \<Rightarrow> jstring" where
  "renderLogContent t store a =
     (let e = getEffectiveRatio t (lp_groupRatio a) (lp_user_group_ratio a); c = getCurrencyConfig store in
      if isPriceDisplayMode store (lp_displayMode a) (lp_modelPrice a) then
        (if \<not> num_eq (lp_modelPrice a) no_price
         then joinBillingSummary [t MSG_per_call_price (priced c (lp_modelPrice a)),
           getGroupRatioText t (lp_groupRatio a) (lp_user_group_ratio a)]
         else joinBillingSummary (log_price_parts t c a))
      else if \<not> num_eq (lp_modelPrice a) no_price
      then t MSG_price_and_ratio (priced c (lp_modelPrice a) @
        vars [(''ratioType'', JStr (er_label e)), (''ratio'', JNum (er_ratio e))])
      else log_ratio_text t e a)"

definition renderModelPriceSimple :: "i18n \<Rightarrow> display_store \<Rightarrow> simple_price \<Rightarrow> bool \<Rightarrow> jstring + segment list" where
  "renderModelPriceSimple t store a segments = renderPriceSimpleCore t store a segments"

subsection \<open>Split cache creation\<close>

record claude_usage =
  cl_inputTokens :: jsnum
  cl_completionTokens :: jsnum
  cl_modelRatio :: jsnum
  cl_modelPrice :: jsnum
  cl_completionRatio :: "jsnum option"
  cl_groupRatio :: jsnum
  cl_user_group_ratio :: "jsnum option"
  cl_cacheTokens :: jsnum
  cl_cacheRatio :: jsnum
  cl_cacheCreationTokens :: jsnum
  cl_cacheCreationRatio :: jsnum
  cl_cacheCreationTokens5m :: jsnum
  cl_cacheCreationRatio5m :: jsnum
  cl_cacheCreationTokens1h :: jsnum
  cl_cacheCreationRatio1h :: jsnum

text \<open>The kinds of input that have a ratio of their own.\<close>

datatype cache_kind = CacheRead | Creation | Creation5m | Creation1h

fun kind_tokens :: "claude_usage \<Rightarrow> cache_kind \<Rightarrow> jsnum" where
  "kind_tokens a CacheRead = cl_cacheTokens a"
| "kind_tokens a Creation = cl_cacheCreationTokens a"
| "kind_tokens a Creation5m = cl_cacheCreationTokens5m a"
| "kind_tokens a Creation1h = cl_cacheCreationTokens1h a"

fun kind_ratio :: "claude_usage \<Rightarrow> cache_kind \<Rightarrow> jsnum" where
  "kind_ratio a CacheRead = cl_cacheRatio a"
| "kind_ratio a Creation = cl_cacheCreationRatio a"
| "kind_ratio a Creation5m = cl_cacheCreationRatio5m a"
| "kind_ratio a Creation1h = cl_cacheCreationRatio1h a"

definition split_creation :: "claude_usage \<Rightarrow> bool" where
  "split_creation a \<longleftrightarrow> positive (cl_cacheCreationTokens5m a) \<or> positive (cl_cacheCreationTokens1h a)"

text \<open>\<open>shouldShowCache\<close>, \<open>shouldShowLegacyCacheCreation\<close>, \<open>shouldShowCacheCreation5m\<close> and \<open>shouldShowCacheCreation1h\<close>.\<close>

fun kind_shown :: "claude_usage \<Rightarrow> cache_kind \<Rightarrow> bool" where
  "kind_shown a CacheRead \<longleftrightarrow> positive (cl_cacheTokens a)"
| "kind_shown a Creation \<longleftrightarrow> \<not> split_creation a \<and> positive (cl_cacheCreationTokens a)"
| "kind_shown a Creation5m \<longleftrightarrow> split_creation a \<and> positive (cl_cacheCreationTokens5m a)"
| "kind_shown a Creation1h \<longleftrightarrow> split_creation a \<and> positive (cl_cacheCreationTokens1h a)"

definition shown_kinds :: "claude_usage \<Rightarrow> cache_kind list" where
  "shown_kinds a = filter (kind_shown a) [CacheRead, Creation, Creation5m, Creation1h]"

definition legacyCacheCreationTokens :: "claude_usage \<Rightarrow> jsnum" where
  "legacyCacheCreationTokens a = (if split_creation a then Num 0 else cl_cacheCreationTokens a)"

text \<open>The input tokens weighted by the ratios \<open>r\<close>: the logged ones, or those cut to six digits.\<close>

definition claude_effective_tokens :: "claude_usage \<Rightarrow> (cache_kind \<Rightarrow> jsnum) \<Rightarrow> jsnum" where
  "claude_effective_tokens a r =
     num_add (num_add (num_add (num_add (cl_inputTokens a)
       (num_mul (cl_cacheTokens a) (r CacheRead)))
       (num_mul (legacyCacheCreationTokens a) (r Creation)))
       (num_mul (cl_cacheCreationTokens5m a) (r Creation5m)))
       (num_mul (cl_cacheCreationTokens1h a) (r Creation1h))"

definition claude_total :: "claude_usage \<Rightarrow> (cache_kind \<Rightarrow> jsnum) \<Rightarrow> jsnum \<Rightarrow> jsnum \<Rightarrow> jsnum" where
  "claude_total a r completionRatio groupRatio =
     num_add (charge (claude_effective_tokens a r) 1000000 (num_mul (cl_modelRatio a) (Num 2)) groupRatio)
       (charge (cl_completionTokens a) 1000000 (ratio_price (cl_modelRatio a) completionRatio) groupRatio)"

definition claude_completion_ratio :: "claude_usage \<Rightarrow> jsnum" where
  "claude_completion_ratio a = (case cl_completionRatio a of None \<Rightarrow> Num 0 | Some r \<Rightarrow> r)"

definition claude_price :: "claude_usage \<Rightarrow> jsnum \<Rightarrow> jsnum" where
  "claude_price a groupRatio = claude_total a (kind_ratio a) (claude_completion_ratio a) groupRatio"

definition shown_ratio :: "claude_usage \<Rightarrow> cache_kind \<Rightarrow> jsnum" where
  "shown_ratio a k = formatRatioValue (kind_ratio a k) 6"

definition claude_totalAmount :: "claude_usage \<Rightarrow> jsnum \<Rightarrow> jsnum" where
  "claude_totalAmount a groupRatio =
     claude_total a (shown_ratio a) (formatRatioValue (claude_completion_ratio a) 6) groupRatio"

definition MSG_p_call :: jstring where "MSG_p_call = [0x6A21, 0x578B, 0x4EF7, 0x683C, 0xFF1A] @ js ''{{symbol}}{{price}} / '' @ [0x6B21]"
definition MSG_p_call_total :: jstring where "MSG_p_call_total = [0x6A21, 0x578B, 0x4EF7, 0x683C] @ js '' {{symbol}}{{price}} / '' @ [0x6B21] @ js '' * {{ratioType}} {{ratio}} = {{symbol}}{{total}}''"
definition MSG_p_call_plain :: jstring where "MSG_p_call_plain = [0x6A21, 0x578B, 0x4EF7, 0x683C, 0xFF1A] @ js ''{{symbol}}{{price}} * {{ratioType}}'' @ [0xFF1A] @ js ''{{ratio}} = {{symbol}}{{total}}''"
definition MSG_b_input :: jstring where "MSG_b_input = [0x63D0, 0x793A] @ js '' {{input}} tokens / 1M tokens * {{symbol}}{{price}}''"
definition MSG_b_cache :: jstring where "MSG_b_cache = [0x7F13, 0x5B58] @ js '' {{tokens}} tokens / 1M tokens * {{symbol}}{{price}}''"
definition MSG_b_creation :: jstring where "MSG_b_creation = [0x7F13, 0x5B58, 0x521B, 0x5EFA] @ js '' {{tokens}} tokens / 1M tokens * {{symbol}}{{price}}''"
definition MSG_b_5m :: jstring where "MSG_b_5m = js ''5m'' @ [0x7F13, 0x5B58, 0x521B, 0x5EFA] @ js '' {{tokens}} tokens / 1M tokens * {{symbol}}{{price}}''"
definition MSG_b_1h :: jstring where "MSG_b_1h = js ''1h'' @ [0x7F13, 0x5B58, 0x521B, 0x5EFA] @ js '' {{tokens}} tokens / 1M tokens * {{symbol}}{{price}}''"
definition MSG_b_output :: jstring where "MSG_b_output = [0x8865, 0x5168] @ js '' {{completion}} tokens / 1M tokens * {{symbol}}{{price}}''"
definition MSG_p_input :: jstring where "MSG_p_input = [0x8F93, 0x5165, 0x4EF7, 0x683C, 0xFF1A] @ js ''{{symbol}}{{price}} / 1M tokens''"
definition MSG_p_output :: jstring where "MSG_p_output = [0x8F93, 0x51FA, 0x4EF7, 0x683C, 0xFF1A] @ js ''{{symbol}}{{price}} / 1M tokens''"
definition MSG_p_cache :: jstring where "MSG_p_cache = [0x7F13, 0x5B58, 0x8BFB, 0x53D6, 0x4EF7, 0x683C, 0xFF1A] @ js ''{{symbol}}{{price}} / 1M tokens''"
definition MSG_p_creation :: jstring where "MSG_p_creation = [0x7F13, 0x5B58, 0x521B, 0x5EFA, 0x4EF7, 0x683C, 0xFF1A] @ js ''{{symbol}}{{price}} / 1M tokens''"
definition MSG_p_5m :: jstring where "MSG_p_5m = js ''5m'' @ [0x7F13, 0x5B58, 0x521B, 0x5EFA, 0x4EF7, 0x683C, 0xFF1A] @ js ''{{symbol}}{{price}} / 1M tokens''"
definition MSG_p_1h :: jstring where "MSG_p_1h = js ''1h'' @ [0x7F13, 0x5B58, 0x521B, 0x5EFA, 0x4EF7, 0x683C, 0xFF1A] @ js ''{{symbol}}{{price}} / 1M tokens''"
definition MSG_breakdown :: jstring where "MSG_breakdown = js ''{{breakdown}} * {{ratioType}} {{ratio}} = {{symbol}}{{total}}''"
definition MSG_c_ratios :: jstring where "MSG_c_ratios = [0x6A21, 0x578B, 0x500D, 0x7387] @ js '' {{modelRatio}}'' @ [0xFF0C, 0x8F93, 0x51FA, 0x500D, 0x7387] @ js '' {{completionRatio}}'' @ [0xFF0C, 0x7F13, 0x5B58, 0x500D, 0x7387] @ js '' {{cacheRatio}}'' @ [0xFF0C] @ js ''{{ratioType}} {{ratio}}''"
definition MSG_c_split :: jstring where "MSG_c_split = [0x7F13, 0x5B58, 0x521B, 0x5EFA, 0x500D, 0x7387] @ js '' 5m {{cacheCreationRatio5m}} / 1h {{cacheCreationRatio1h}}''"
definition MSG_c_legacy :: jstring where "MSG_c_legacy = [0x7F13, 0x5B58, 0x521B, 0x5EFA, 0x500D, 0x7387] @ js '' {{cacheCreationRatio}}''"
definition MSG_c_5m :: jstring where "MSG_c_5m = [0x7F13, 0x5B58, 0x521B, 0x5EFA, 0x500D, 0x7387] @ js '' 5m {{cacheCreationRatio5m}}''"
definition MSG_c_1h :: jstring where "MSG_c_1h = [0x7F13, 0x5B58, 0x521B, 0x5EFA, 0x500D, 0x7387] @ js '' 1h {{cacheCreationRatio1h}}''"
definition MSG_l_cache :: jstring where "MSG_l_cache = [0x7F13, 0x5B58, 0x8BFB, 0x53D6, 0xFF1A] @ js ''{{tokens}} / 1M * '' @ [0x6A21, 0x578B, 0x500D, 0x7387] @ js '' {{modelRatio}} * '' @ [0x7F13, 0x5B58, 0x500D, 0x7387] @ js '' {{cacheRatio}} * {{ratioType}} {{ratio}} = {{amount}}''"
definition MSG_l_creation :: jstring where "MSG_l_creation = [0x7F13, 0x5B58, 0x521B, 0x5EFA, 0xFF1A] @ js ''{{tokens}} / 1M * '' @ [0x6A21, 0x578B, 0x500D, 0x7387] @ js '' {{modelRatio}} * '' @ [0x7F13, 0x5B58, 0x521B, 0x5EFA, 0x500D, 0x7387] @ js '' {{cacheCreationRatio}} * {{ratioType}} {{ratio}} = {{amount}}''"
definition MSG_l_5m :: jstring where "MSG_l_5m = js ''5m'' @ [0x7F13, 0x5B58, 0x521B, 0x5EFA, 0xFF1A] @ js ''{{tokens}} / 1M * '' @ [0x6A21, 0x578B, 0x500D, 0x7387] @ js '' {{modelRatio}} * 5m'' @ [0x7F13, 0x5B58, 0x521B, 0x5EFA, 0x500D, 0x7387] @ js '' {{cacheCreationRatio5m}} * {{ratioType}} {{ratio}} = {{amount}}''"
definition MSG_l_1h :: jstring where "MSG_l_1h = js ''1h'' @ [0x7F13, 0x5B58, 0x521B, 0x5EFA, 0xFF1A] @ js ''{{tokens}} / 1M * '' @ [0x6A21, 0x578B, 0x500D, 0x7387] @ js '' {{modelRatio}} * 1h'' @ [0x7F13, 0x5B58, 0x521B, 0x5EFA, 0x500D, 0x7387] @ js '' {{cacheCreationRatio1h}} * {{ratioType}} {{ratio}} = {{amount}}''"
definition MSG_l_completion :: jstring where "MSG_l_completion = [0x8865, 0x5168] @ js '' {{completion}} tokens * '' @ [0x8F93, 0x51FA, 0x500D, 0x7387] @ js '' {{completionRatio}}''"
definition MSG_l_output :: jstring where "MSG_l_output = [0x8F93, 0x51FA, 0xFF1A] @ js ''{{tokens}} / 1M * '' @ [0x6A21, 0x578B, 0x500D, 0x7387] @ js '' {{modelRatio}} * '' @ [0x8F93, 0x51FA, 0x500D, 0x7387] @ js '' {{completionRatio}} * {{ratioType}} {{ratio}} = {{amount}}''"

fun breakdown_key :: "cache_kind \<Rightarrow> jstring" where
  "breakdown_key CacheRead = MSG_b_cache"
| "breakdown_key Creation = MSG_b_creation"
| "breakdown_key Creation5m = MSG_b_5m"
| "breakdown_key Creation1h = MSG_b_1h"

fun price_key :: "cache_kind \<Rightarrow> jstring" where
  "price_key CacheRead = MSG_p_cache"
| "price_key Creation = MSG_p_creation"
| "price_key Creation5m = MSG_p_5m"
| "price_key Creation1h = MSG_p_1h"

fun amount_key :: "cache_kind \<Rightarrow> jstring" where
  "amount_key CacheRead = MSG_l_cache"
| "amount_key Creation = MSG_l_creation"
| "amount_key Creation5m = MSG_l_5m"
| "amount_key Creation1h = MSG_l_1h"

fun ratio_var :: "cache_kind \<Rightarrow> string" where
  "ratio_var CacheRead = ''cacheRatio''"
| "ratio_var Creation = ''cacheCreationRatio''"
| "ratio_var Creation5m = ''cacheCreationRatio5m''"
| "ratio_var Creation1h = ''cacheCreationRatio1h''"

definition breakdownSegments :: "i18n \<Rightarrow> currency \<Rightarrow> claude_usage \<Rightarrow> jstring list" where
  "breakdownSegments t c a =
     [t MSG_b_input (vars [(''input'', JNum (cl_inputTokens a))] @ priced c (num_mul (cl_modelRatio a) (Num 2)))] @
     map (\<lambda>k. t (breakdown_key k) (vars [(''tokens'', JNum (kind_tokens a k))] @
       priced c (ratio_price (cl_modelRatio a) (kind_ratio a k)))) (shown_kinds a) @
     [t MSG_b_output (vars [(''completion'', JNum (cl_completionTokens a))] @
       priced c (ratio_price (cl_modelRatio a) (claude_completion_ratio a)))]"

definition claude_price_account :: "i18n \<Rightarrow> currency \<Rightarrow> effective_ratio \<Rightarrow> claude_usage \<Rightarrow> billing_view" where
  "claude_price_account t c e a =
     (let line = (\<lambda>key usd. buildBillingPriceText t key (cu_symbol c) usd (cu_rate c) ''price'' 6 []) in
      renderBillingArticle t
        ([Some (line MSG_p_input (num_mul (cl_modelRatio a) (Num 2))),
          Some (line MSG_p_output (ratio_price (cl_modelRatio a) (claude_completion_ratio a)))] @
         map (\<lambda>k. line_if (kind_shown a k) (line (price_key k) (ratio_price (cl_modelRatio a) (kind_ratio a k))))
           [CacheRead, Creation, Creation5m, Creation1h] @
         [Some (buildBillingText t MSG_breakdown
           (vars [(''breakdown'', JStr (join (js '' + '') (breakdownSegments t c a))), (''ratioType'', JStr (er_label e)),
             (''ratio'', JNum (er_ratio e)), (''symbol'', JStr (cu_symbol c)),
             (''total'', JStr (formatBillingDisplayPrice (claude_price a (er_ratio e)) (cu_rate c) 6))]))])
        True)"

definition model_call_account :: "i18n \<Rightarrow> currency \<Rightarrow> effective_ratio \<Rightarrow> jsnum \<Rightarrow> billing_view" where
  "model_call_account t c e modelPrice =
     renderBillingArticle t
       [Some (buildBillingPriceText t MSG_p_call (cu_symbol c) modelPrice (cu_rate c) ''price'' 6 []),
        Some (buildBillingPriceText t MSG_p_call_total (cu_symbol c) modelPrice (cu_rate c) ''price'' 6
          (vars [(''ratioType'', JStr (er_label e)), (''ratio'', JNum (er_ratio e)),
            (''total'', JStr (formatBillingDisplayPrice (num_mul modelPrice (er_ratio e)) (cu_rate c) 6))]))]
       True"

definition model_call_plain :: "i18n \<Rightarrow> currency \<Rightarrow> effective_ratio \<Rightarrow> jsnum \<Rightarrow> billing_view" where
  "model_call_plain t c e modelPrice = Plain (t MSG_p_call_plain (priced c modelPrice @
     vars [(''ratioType'', JStr (er_label e)), (''ratio'', JNum (er_ratio e)),
       (''total'', JStr (to_fixed 6 (num_mul (num_mul modelPrice (er_ratio e)) (cu_rate c))))]))"

definition claude_ratio_account :: "i18n \<Rightarrow> display_store \<Rightarrow> effective_ratio \<Rightarrow> claude_usage \<Rightarrow> billing_view" where
  "claude_ratio_account t store e a =
     (let unit = num_mul (cl_modelRatio a) (Num 2); g = er_ratio e;
          model = (''modelRatio'', JNum (formatRatioValue (cl_modelRatio a) 6));
          completion = formatRatioValue (claude_completion_ratio a) 6;
          ratio = [(''ratioType'', JStr (er_label e)), (''ratio'', JNum g)];
          amount = (\<lambda>x. [(''amount'', renderDisplayAmountFromUsd store x 6)]);
          weighted = (\<lambda>tokens r. num_mul (num_mul (num_mul (num_div tokens (Num 1000000)) unit) r) g)
      in renderBillingArticle t
        ([Some (buildBillingText t MSG_c_ratios
            (vars ([model, (''completionRatio'', JNum completion), (''cacheRatio'', JNum (shown_ratio a CacheRead))] @ ratio))),
          Some (if split_creation a
            then buildBillingText t MSG_c_split (vars [(''cacheCreationRatio5m'', JNum (shown_ratio a Creation5m)),
              (''cacheCreationRatio1h'', JNum (shown_ratio a Creation1h))])
            else buildBillingText t MSG_c_legacy (vars [(''cacheCreationRatio'', JNum (shown_ratio a Creation))])),
          Some (buildBillingText t MSG_a_text
            (vars ([(''tokens'', JNum (cl_inputTokens a)), model] @ ratio @ amount (charge (cl_inputTokens a) 1000000 unit g))))] @
         map (\<lambda>k. line_if (kind_shown a k) (buildBillingText t (amount_key k)
            (vars ([(''tokens'', JNum (kind_tokens a k)), model, (ratio_var k, JNum (shown_ratio a k))] @ ratio @
              amount (weighted (kind_tokens a k) (shown_ratio a k))))))
           [CacheRead, Creation, Creation5m, Creation1h] @
         [Some (buildBillingText t MSG_l_completion
            (vars [(''completion'', JNum (cl_completionTokens a)), (''completionRatio'', JNum completion)])),
          Some (buildBillingText t MSG_l_output
            (vars ([(''tokens'', JNum (cl_completionTokens a)), model, (''completionRatio'', JNum completion)] @ ratio @
              amount (weighted (cl_completionTokens a) completion)))),
          Some (buildBillingText t MSG_a_total
            (vars [(''total'', renderDisplayAmountFromUsd store (claude_totalAmount a g) 6)]))])
        True)"

definition renderClaudeModelPrice :: "i18n \<Rightarrow> display_store \<Rightarrow> claude_usage \<Rightarrow> billing_view" where
  "renderClaudeModelPrice t store a =
     (let e = getEffectiveRatio t (cl_groupRatio a) (cl_user_group_ratio a); c = getCurrencyConfig store in
      if \<not> shouldUseRatioBillingProcess store (cl_modelPrice a) then
        (if \<not> num_eq (cl_modelPrice a) no_price then model_call_account t c e (cl_modelPrice a)
         else claude_price_account t c e a)
      else if \<not> num_eq (cl_modelPrice a) no_price then model_call_plain t c e (cl_modelPrice a)
      else claude_ratio_account t store e a)"


definition MSG_5m_price :: jstring where "MSG_5m_price = js ''5m'' @ [0x7F13, 0x5B58, 0x521B, 0x5EFA, 0x4EF7, 0x683C] @ js '' {{symbol}}{{price}} / 1M tokens''"
definition MSG_1h_price :: jstring where "MSG_1h_price = js ''1h'' @ [0x7F13, 0x5B58, 0x521B, 0x5EFA, 0x4EF7, 0x683C] @ js '' {{symbol}}{{price}} / 1M tokens''"
definition MSG_creation_price :: jstring where "MSG_creation_price = [0x7F13, 0x5B58, 0x521B, 0x5EFA, 0x4EF7, 0x683C] @ js '' {{symbol}}{{price}} / 1M tokens''"
definition MSG_s_model :: jstring where "MSG_s_model = [0x6A21, 0x578B, 0x500D, 0x7387] @ js '' {{modelRatio}}''"
definition MSG_s_output :: jstring where "MSG_s_output = [0x8F93, 0x51FA, 0x500D, 0x7387] @ js '' {{completionRatio}}''"
definition MSG_s_cache :: jstring where "MSG_s_cache = [0x7F13, 0x5B58, 0x500D, 0x7387] @ js '' {{cacheRatio}}''"
definition MSG_s_group :: jstring where "MSG_s_group = js ''{{ratioType}} {{ratio}}''"

text \<open>A missing completion ratio is \<open>undefined\<close> here, and NaN in a product.\<close>

definition opt_num :: "jsnum option \<Rightarrow> jsval" where
  "opt_num x = (case x of None \<Rightarrow> JUndef | Some n \<Rightarrow> JNum n)"

definition claude_log_prices :: "i18n \<Rightarrow> currency \<Rightarrow> claude_usage \<Rightarrow> jstring list" where
  "claude_log_prices t c a =
     (let unit = num_mul (cl_modelRatio a) (Num 2);
          parts = [t MSG_log_input (priced c unit),
            t MSG_log_output (priced c (num_mul unit (val_number (opt_num (cl_completionRatio a))))),
            t MSG_log_cache (priced c (num_mul unit (cl_cacheRatio a)))];
          parts = appendPricePart t parts (split_creation a \<and> positive (cl_cacheCreationTokens5m a)) MSG_5m_price
            (priced c (num_mul unit (cl_cacheCreationRatio5m a)));
          parts = appendPricePart t parts (split_creation a \<and> positive (cl_cacheCreationTokens1h a)) MSG_1h_price
            (priced c (num_mul unit (cl_cacheCreationRatio1h a)))
      in appendPricePart t parts (\<not> split_creation a) MSG_creation_price (priced c (num_mul unit (cl_cacheCreationRatio a))))"

definition cacheCreationPart :: "i18n \<Rightarrow> claude_usage \<Rightarrow> jstring" where
  "cacheCreationPart t a =
     (let r5 = (''cacheCreationRatio5m'', JNum (cl_cacheCreationRatio5m a));
          r1 = (''cacheCreationRatio1h'', JNum (cl_cacheCreationRatio1h a));
          part = (if kind_shown a Creation5m \<and> kind_shown a Creation1h then t MSG_c_split (vars [r5, r1])
            else if kind_shown a Creation5m then t MSG_c_5m (vars [r5])
            else if kind_shown a Creation1h then t MSG_c_1h (vars [r1]) else [])
      in if part = [] then t MSG_c_legacy (vars [(''cacheCreationRatio'', JNum (cl_cacheCreationRatio a))]) else part)"

definition renderClaudeLogContent :: "i18n \<Rightarrow> display_store \<Rightarrow> jstring \<Rightarrow> claude_usage \<Rightarrow> jstring" where
  "renderClaudeLogContent t store displayMode a =
     (let e = getEffectiveRatio t (cl_groupRatio a) (cl_user_group_ratio a); c = getCurrencyConfig store;
          groupText = getGroupRatioText t (er_ratio e) (cl_user_group_ratio a) in
      if isPriceDisplayMode store displayMode (cl_modelPrice a) then
        (if \<not> num_eq (cl_modelPrice a) no_price
         then joinBillingSummary [t MSG_per_call_price (priced c (cl_modelPrice a)), groupText]
         else joinBillingSummary (claude_log_prices t c a @ [groupText]))
      else if \<not> num_eq (cl_modelPrice a) no_price
      then t MSG_price_and_ratio (priced c (cl_modelPrice a) @
        vars [(''ratioType'', JStr (er_label e)), (''ratio'', JNum (er_ratio e))])
      else join SEP_SUMMARY
        [t MSG_s_model (vars [(''modelRatio'', JNum (cl_modelRatio a))]),
         t MSG_s_output (vars [(''completionRatio'', opt_num (cl_completionRatio a))]),
         t MSG_s_cache (vars [(''cacheRatio'', JNum (cl_cacheRatio a))]),
         cacheCreationPart t a,
         t MSG_s_group (vars [(''ratioType'', JStr (er_label e)), (''ratio'', JNum (er_ratio e))])])"

subsection \<open>Audio models\<close>

record audio_usage =
  au_inputTokens :: jsnum
  au_completionTokens :: jsnum
  au_modelRatio :: jsnum
  au_modelPrice :: jsnum
  au_completionRatio :: "jsnum option"
  au_audioInputTokens :: jsnum
  au_audioCompletionTokens :: jsnum
  au_audioRatio :: jsnum
  au_audioCompletionRatio :: jsnum
  au_groupRatio :: jsnum
  au_user_group_ratio :: "jsnum option"
  au_cacheTokens :: jsnum
  au_cacheRatio :: jsnum

definition audio_completion_ratio :: "audio_usage \<Rightarrow> jsnum" where
  "audio_completion_ratio a = (case au_completionRatio a of None \<Rightarrow> Num 0 | Some r \<Rightarrow> r)"

text \<open>The text and the audio part of the amount, for given ratios.\<close>

definition audio_text_amount :: "audio_usage \<Rightarrow> jsnum \<Rightarrow> jsnum \<Rightarrow> jsnum \<Rightarrow> jsnum" where
  "audio_text_amount a cacheRatio completionRatio groupRatio =
     num_add
       (charge (num_add (num_sub (au_inputTokens a) (au_cacheTokens a)) (num_mul (au_cacheTokens a) cacheRatio)) 1000000
         (num_mul (au_modelRatio a) (Num 2)) groupRatio)
       (charge (au_completionTokens a) 1000000 (ratio_price (au_modelRatio a) completionRatio) groupRatio)"

definition audio_amount :: "audio_usage \<Rightarrow> jsnum \<Rightarrow> jsnum \<Rightarrow> jsnum \<Rightarrow> jsnum" where
  "audio_amount a audioRatio audioCompletionRatio groupRatio =
     (let unit = num_mul (au_modelRatio a) (Num 2) in
      num_add (num_mul (charge (au_audioInputTokens a) 1000000 unit audioRatio) groupRatio)
        (num_mul (num_mul (charge (au_audioCompletionTokens a) 1000000 unit audioRatio) audioCompletionRatio) groupRatio))"

text \<open>\<open>parseFloat(audioRatio).toFixed(6)\<close>, a text that the products convert back.\<close>

definition audio_ratio_text :: "audio_usage \<Rightarrow> jstring" where
  "audio_ratio_text a = to_fixed 6 (parse_float (num_to_string (au_audioRatio a)))"

definition audio_price_total :: "audio_usage \<Rightarrow> jsnum \<Rightarrow> jsnum" where
  "audio_price_total a groupRatio =
     num_add (audio_text_amount a (au_cacheRatio a) (audio_completion_ratio a) groupRatio)
       (audio_amount a (string_to_number (audio_ratio_text a)) (au_audioCompletionRatio a) groupRatio)"

definition MSG_p_audio_in :: jstring where "MSG_p_audio_in = [0x97F3, 0x9891, 0x8F93, 0x5165, 0x4EF7, 0x683C, 0xFF1A] @ js ''{{symbol}}{{price}} / 1M tokens''"
definition MSG_p_audio_out :: jstring where "MSG_p_audio_out = [0x97F3, 0x9891, 0x8865, 0x5168, 0x4EF7, 0x683C, 0xFF1A] @ js ''{{symbol}}{{price}} / 1M tokens''"
definition MSG_audio_breakdown :: jstring where "MSG_audio_breakdown = [0x6587, 0x5B57, 0x63D0, 0x793A] @ js '' {{input}} tokens / 1M tokens * {{symbol}}{{textInputPrice}} + '' @ [0x6587, 0x5B57, 0x8865, 0x5168] @ js '' {{completion}} tokens / 1M tokens * {{symbol}}{{textCompPrice}} + '' @ [0x97F3, 0x9891, 0x63D0, 0x793A] @ js '' {{audioInput}} tokens / 1M tokens * {{symbol}}{{audioInputPrice}} + '' @ [0x97F3, 0x9891, 0x8865, 0x5168] @ js '' {{audioCompletion}} tokens / 1M tokens * {{symbol}}{{audioCompPrice}} * {{ratioType}} {{ratio}} = {{symbol}}{{total}}''"
definition MSG_audio_ratios :: jstring where "MSG_audio_ratios = [0x6A21, 0x578B, 0x500D, 0x7387] @ js '' {{modelRatio}}'' @ [0xFF0C, 0x8865, 0x5168, 0x500D, 0x7387] @ js '' {{completionRatio}}'' @ [0xFF0C, 0x97F3, 0x9891, 0x500D, 0x7387] @ js '' {{audioRatio}}'' @ [0xFF0C, 0x97F3, 0x9891, 0x8865, 0x5168, 0x500D, 0x7387] @ js '' {{audioCompletionRatio}}'' @ [0xFF0C] @ js ''{{cachePart}}{{ratioType}} {{ratio}}''"
definition MSG_cache_ratio_label :: jstring where "MSG_cache_ratio_label = [0x7F13, 0x5B58, 0x500D, 0x7387]"
definition MSG_text_output :: jstring where "MSG_text_output = [0x6587, 0x5B57, 0x8F93, 0x51FA, 0xFF1A] @ js ''{{tokens}} / 1M * '' @ [0x6A21, 0x578B, 0x500D, 0x7387] @ js '' {{modelRatio}} * '' @ [0x8865, 0x5168, 0x500D, 0x7387] @ js '' {{completionRatio}} * {{ratioType}} {{ratio}} = {{amount}}''"
definition MSG_audio_input :: jstring where "MSG_audio_input = [0x97F3, 0x9891, 0x8F93, 0x5165, 0xFF1A] @ js ''{{tokens}} / 1M * '' @ [0x6A21, 0x578B, 0x500D, 0x7387] @ js '' {{modelRatio}} * '' @ [0x97F3, 0x9891, 0x500D, 0x7387] @ js '' {{audioRatio}} * {{ratioType}} {{ratio}} = {{amount}}''"
definition MSG_audio_output :: jstring where "MSG_audio_output = [0x97F3, 0x9891, 0x8F93, 0x51FA, 0xFF1A] @ js ''{{tokens}} / 1M * '' @ [0x6A21, 0x578B, 0x500D, 0x7387] @ js '' {{modelRatio}} * '' @ [0x97F3, 0x9891, 0x500D, 0x7387] @ js '' {{audioRatio}} * '' @ [0x97F3, 0x9891, 0x8865, 0x5168, 0x500D, 0x7387] @ js '' {{audioCompletionRatio}} * {{ratioType}} {{ratio}} = {{amount}}''"
definition MSG_audio_total :: jstring where "MSG_audio_total = [0x5408, 0x8BA1, 0xFF1A, 0x6587, 0x5B57, 0x90E8, 0x5206] @ js '' {{textTotal}} + '' @ [0x97F3, 0x9891, 0x90E8, 0x5206] @ js '' {{audioTotal}} = {{total}}''"

text \<open>The terms of the last line of the account by prices, all but the total.\<close>

definition audio_breakdown :: "currency \<Rightarrow> effective_ratio \<Rightarrow> audio_usage \<Rightarrow> jsobj" where
  "audio_breakdown c e a =
     (let unit = num_mul (au_modelRatio a) (Num 2); audio = string_to_number (audio_ratio_text a);
          shown = (\<lambda>usd. JStr (formatBillingDisplayPrice usd (cu_rate c) 6)) in
      vars [(''input'', JNum (au_inputTokens a)), (''completion'', JNum (au_completionTokens a)),
        (''audioInput'', JNum (au_audioInputTokens a)), (''audioCompletion'', JNum (au_audioCompletionTokens a)),
        (''textInputPrice'', shown unit),
        (''textCompPrice'', shown (ratio_price (au_modelRatio a) (audio_completion_ratio a))),
        (''audioInputPrice'', shown (num_mul audio unit)),
        (''audioCompPrice'', shown (num_mul (num_mul audio (au_audioCompletionRatio a)) unit)),
        (''ratioType'', JStr (er_label e)), (''ratio'', JNum (er_ratio e)), (''symbol'', JStr (cu_symbol c))])"

definition audio_price_account :: "i18n \<Rightarrow> currency \<Rightarrow> effective_ratio \<Rightarrow> audio_usage \<Rightarrow> billing_view" where
  "audio_price_account t c e a =
     (let unit = num_mul (au_modelRatio a) (Num 2); audio = string_to_number (audio_ratio_text a);
          line = (\<lambda>key usd. buildBillingPriceText t key (cu_symbol c) usd (cu_rate c) ''price'' 6 []) in
      renderBillingArticle t
        [Some (line MSG_p_input unit),
         Some (line MSG_p_output (ratio_price (au_modelRatio a) (audio_completion_ratio a))),
         line_if (positive (au_cacheTokens a)) (line MSG_p_cache (num_mul unit (au_cacheRatio a))),
         Some (line MSG_p_audio_in (num_mul unit audio)),
         Some (line MSG_p_audio_out (num_mul (num_mul unit audio) (au_audioCompletionRatio a))),
         Some (buildBillingText t MSG_audio_breakdown (audio_breakdown c e a @
           vars [(''total'', JStr (formatBillingDisplayPrice (audio_price_total a (er_ratio e)) (cu_rate c) 6))]))]
        True)"

definition audio_ratio_account :: "i18n \<Rightarrow> display_store \<Rightarrow> effective_ratio \<Rightarrow> audio_usage \<Rightarrow> billing_view" where
  "audio_ratio_account t store e a =
     (let unit = num_mul (au_modelRatio a) (Num 2); g = er_ratio e;
          cache = formatRatioValue (au_cacheRatio a) 6; completion = formatRatioValue (audio_completion_ratio a) 6;
          audio = formatRatioValue (au_audioRatio a) 6; audioOut = formatRatioValue (au_audioCompletionRatio a) 6;
          model = (''modelRatio'', JNum (formatRatioValue (au_modelRatio a) 6));
          ratio = [(''ratioType'', JStr (er_label e)), (''ratio'', JNum g)];
          amount = (\<lambda>x. [(''amount'', renderDisplayAmountFromUsd store x 6)]);
          plain = num_max (num_sub (au_inputTokens a) (au_cacheTokens a)) (Num 0);
          textPrice = audio_text_amount a cache completion g; audioPrice = audio_amount a audio audioOut g
      in renderBillingArticle t
        [Some (buildBillingText t MSG_audio_ratios (vars ([model, (''completionRatio'', JNum completion),
            (''audioRatio'', JNum audio), (''audioCompletionRatio'', JNum audioOut),
            (''cachePart'', JStr (if positive (au_cacheTokens a)
              then t MSG_cache_ratio_label [] @ js '' '' @ num_to_string cache @ SEP_SUMMARY else []))] @ ratio))),
         Some (buildBillingText t MSG_a_text
            (vars ([(''tokens'', JNum plain), model] @ ratio @ amount (charge plain 1000000 unit g)))),
         line_if (positive (au_cacheTokens a)) (buildBillingText t MSG_a_cache
            (vars ([(''tokens'', JNum (au_cacheTokens a)), model, (''cacheRatio'', JNum cache)] @ ratio @
              amount (num_mul (charge (au_cacheTokens a) 1000000 unit cache) g)))),
         Some (buildBillingText t MSG_text_output
            (vars ([(''tokens'', JNum (au_completionTokens a)), model, (''completionRatio'', JNum completion)] @ ratio @
              amount (num_mul (charge (au_completionTokens a) 1000000 unit completion) g)))),
         Some (buildBillingText t MSG_audio_input
            (vars ([(''tokens'', JNum (au_audioInputTokens a)), model, (''audioRatio'', JNum audio)] @ ratio @
              amount (num_mul (charge (au_audioInputTokens a) 1000000 unit audio) g)))),
         Some (buildBillingText t MSG_audio_output
            (vars ([(''tokens'', JNum (au_audioCompletionTokens a)), model, (''audioRatio'', JNum audio),
                (''audioCompletionRatio'', JNum audioOut)] @ ratio @
              amount (num_mul (num_mul (charge (au_audioCompletionTokens a) 1000000 unit audio) audioOut) g)))),
         Some (buildBillingText t MSG_audio_total
            (vars [(''textTotal'', renderDisplayAmountFromUsd store textPrice 6),
              (''audioTotal'', renderDisplayAmountFromUsd store audioPrice 6),
              (''total'', renderDisplayAmountFromUsd store (num_add textPrice audioPrice) 6)]))]
        True)"

definition renderAudioModelPrice :: "i18n \<Rightarrow> display_store \<Rightarrow> audio_usage \<Rightarrow> billing_view" where
  "renderAudioModelPrice t store a =
     (let e = getEffectiveRatio t (au_groupRatio a) (au_user_group_ratio a); c = getCurrencyConfig store in
      if \<not> shouldUseRatioBillingProcess store (au_modelPrice a) then
        (if \<not> num_eq (au_modelPrice a) no_price then model_call_account t c e (au_modelPrice a)
         else audio_price_account t c e a)
      else if \<not> num_eq (au_modelPrice a) no_price then model_call_plain t c e (au_modelPrice a)
      else audio_ratio_account t store e a)"

subsection \<open>What the accounts show\<close>

lemma num_add_zero: "num_wf x \<Longrightarrow> num_add x (Num 0) = x"
  by (cases x) (auto simp: is_double_def)

lemma num_wf_add: "num_wf (num_add a b)"
  by (cases a; cases b) auto

text \<open>A count that is not shown adds nothing.\<close>

lemma hidden_count_adds_nothing:
  assumes "num_wf x" "\<not> positive n" "num_finite n" "num_le (Num 0) n" "num_finite r"
  shows "num_add x (num_mul n r) = x"
proof -
  have "n = Num 0" using assms(2-4) by (cases n) (auto simp: num_lt_def num_eq_def)
  moreover obtain q where "r = Num q" using assms(5) by (cases r) (auto simp: num_finite_def)
  ultimately have "num_mul n r = Num 0" by simp
  then show ?thesis using num_add_zero [OF assms(1)] by simp
qed

text \<open>
  C38. What the account of a request with split cache creation lists is all that is charged: the charged input is the
  sum, from the plain input on, of the tokens of the listed kinds weighted by their ratios. Kinds that are not listed,
  and the undivided creation tokens once there are divided ones, add nothing. This holds for any ratios, those logged
  and those cut to six digits.
\<close>

theorem listed_kinds_are_charged:
  assumes "num_wf (cl_inputTokens a)"
    and "\<And>k. num_finite (kind_tokens a k) \<and> num_le (Num 0) (kind_tokens a k)"
    and "\<And>k. num_finite (r k)"
  shows "claude_effective_tokens a r =
    foldl num_add (cl_inputTokens a) (map (\<lambda>k. num_mul (kind_tokens a k) (r k)) (shown_kinds a))"
proof -
  have h: "num_add x (num_mul (kind_tokens a k) (r k)) = x" if "num_wf x" "\<not> positive (kind_tokens a k)" for x k
    using hidden_count_adds_nothing that assms(2,3) by blast
  have z: "num_add x (num_mul (Num 0) (r k)) = x" if "num_wf x" for x k
    using hidden_count_adds_nothing [OF that, of "Num 0" "r k"] assms(3) by (simp add: num_lt_def num_eq_def num_finite_def)
  note h' = h [of _ CacheRead, simplified] h [of _ Creation, simplified] h [of _ Creation5m, simplified] h [of _ Creation1h, simplified]
  show ?thesis
    by (cases "positive (cl_cacheTokens a)"; cases "positive (cl_cacheCreationTokens a)";
        cases "positive (cl_cacheCreationTokens5m a)"; cases "positive (cl_cacheCreationTokens1h a)")
      (simp_all add: claude_effective_tokens_def shown_kinds_def legacyCacheCreationTokens_def split_creation_def h' z
        num_wf_add assms(1))
qed


definition split_usage :: claude_usage where
  "split_usage = \<lparr>cl_inputTokens = Num 1000000, cl_completionTokens = Num 1000000, cl_modelRatio = Num 1, cl_modelPrice = no_price,
     cl_completionRatio = Some (Num 5), cl_groupRatio = Num 1, cl_user_group_ratio = None,
     cl_cacheTokens = Num 0, cl_cacheRatio = Num 1, cl_cacheCreationTokens = Num 3000000, cl_cacheCreationRatio = Num 2,
     cl_cacheCreationTokens5m = Num 2000000, cl_cacheCreationRatio5m = Num 2,
     cl_cacheCreationTokens1h = Num 1000000, cl_cacheCreationRatio1h = Num 4\<rparr>"

theorem listed_kinds_are_charged_witness:
  "claude_effective_tokens split_usage (kind_ratio split_usage) =
     num_add (num_add (Num 1000000) (num_mul (Num 2000000) (Num 2))) (num_mul (Num 1000000) (Num 4))"
proof -
  have "shown_kinds split_usage = [Creation5m, Creation1h]"
    by (simp add: shown_kinds_def split_creation_def split_usage_def num_lt_pos)
  moreover have "claude_effective_tokens split_usage (kind_ratio split_usage) =
      foldl num_add (cl_inputTokens split_usage)
        (map (\<lambda>k. num_mul (kind_tokens split_usage k) (kind_ratio split_usage k)) (shown_kinds split_usage))"
  proof (rule listed_kinds_are_charged)
    show "num_wf (cl_inputTokens split_usage)"
      by (simp add: split_usage_def is_double_def rnd_numeral)
    show "num_finite (kind_tokens split_usage k) \<and> num_le (Num 0) (kind_tokens split_usage k)" for k
      by (cases k) (simp_all add: split_usage_def num_finite_def)
    show "num_finite (kind_ratio split_usage k)" for k
      by (cases k) (simp_all add: split_usage_def num_finite_def)
  qed
  ultimately show ?thesis by (simp add: split_usage_def)
qed

text \<open>
  The two accounts of a request with split cache creation come to the same amount when six digits are enough for
  its ratios.
\<close>

theorem claude_accounts_agree:
  assumes "\<And>k. formatRatioValue (kind_ratio a k) 6 = kind_ratio a k"
    and "formatRatioValue (claude_completion_ratio a) 6 = claude_completion_ratio a"
  shows "claude_totalAmount a groupRatio = claude_price a groupRatio"
proof -
  have "shown_ratio a = kind_ratio a" using assms(1) by (simp add: fun_eq_iff shown_ratio_def)
  then show ?thesis using assms(2) by (simp add: claude_totalAmount_def claude_price_def)
qed

theorem claude_accounts_agree_witness:
  "claude_totalAmount split_usage (Num 1) = claude_price split_usage (Num 1)"
proof (rule claude_accounts_agree)
  have f: "formatRatioValue (Num 1) 6 = Num 1" "formatRatioValue (Num 2) 6 = Num 2" "formatRatioValue (Num 4) 6 = Num 4"
    "formatRatioValue (Num 5) 6 = Num 5"
    using formatRatioValue_nat [of 1] formatRatioValue_nat [of 2] formatRatioValue_nat [of 4] formatRatioValue_nat [of 5] by simp_all
  show "formatRatioValue (kind_ratio split_usage k) 6 = kind_ratio split_usage k" for k
    by (cases k) (simp_all add: split_usage_def f)
  show "formatRatioValue (claude_completion_ratio split_usage) 6 = claude_completion_ratio split_usage"
    by (simp add: split_usage_def claude_completion_ratio_def f)
qed

text \<open>
  The group's ratio of a Claude log row is chosen twice, which changes nothing.
\<close>

theorem effective_ratio_idem:
  "getGroupRatioText t (er_ratio (getEffectiveRatio t groupRatio user_group_ratio)) user_group_ratio =
     getGroupRatioText t groupRatio user_group_ratio"
  by (simp add: getGroupRatioText_def getEffectiveRatio_def Let_def)

definition audio_sample :: "jsnum \<Rightarrow> audio_usage" where
  "audio_sample cached = \<lparr>au_inputTokens = Num 1000000, au_completionTokens = Num 0, au_modelRatio = Num 1, au_modelPrice = no_price,
     au_completionRatio = None, au_audioInputTokens = Num 0, au_audioCompletionTokens = Num 0, au_audioRatio = Num 1,
     au_audioCompletionRatio = Num 1, au_groupRatio = Num 1, au_user_group_ratio = None,
     au_cacheTokens = cached, au_cacheRatio = Num 0\<rparr>"

lemma audio_ratio_num: "string_to_number (audio_ratio_text (audio_sample cached)) = Num 1"
proof -
  have d: "is_double 1" by (simp add: is_double_def rnd_one)
  have "num_to_string (Num 1) = js ''1''" using num_to_string_of_nat [of 1] by (simp add: dec.simps js_def)
  moreover have "parse_float (js ''1'') = Num 1" using parse_float_dec [of 1] by (simp add: dec.simps js_def)
  moreover have "string_to_number (to_fixed 6 (Num 1)) = Num 1"
    using formatRatioValue_nat [of 1] by (simp add: formatRatioValue_def num_finite_def del: to_fixed.simps)
  ultimately show ?thesis by (simp add: audio_ratio_text_def audio_sample_def del: to_fixed.simps num_to_string.simps)
qed

text \<open>
  The last line of an audio model's account by prices does not add up when input was cached: the terms it lists
  are the same with and without cached tokens, while its total differs. A million free cached tokens are listed at the
  full price of 2 dollars, and the total is 0.
\<close>

theorem audio_breakdown_omits_cache:
  "audio_breakdown c e (audio_sample (Num 1000000)) = audio_breakdown c e (audio_sample (Num 0)) \<and>
   audio_price_total (audio_sample (Num 0)) (Num 1) = Num 2 \<and>
   audio_price_total (audio_sample (Num 1000000)) (Num 1) = Num 0"
proof (intro conjI)
  note defs = audio_price_total_def audio_text_amount_def audio_amount_def audio_ratio_num audio_completion_ratio_def
    ratio_price_def charge_def num_sub_def Let_def
  show "audio_breakdown c e (audio_sample (Num 1000000)) = audio_breakdown c e (audio_sample (Num 0))"
    unfolding audio_breakdown_def audio_ratio_num by (simp add: audio_sample_def audio_completion_ratio_def)
  show "audio_price_total (audio_sample (Num 0)) (Num 1) = Num 2" unfolding defs
    by (simp add: audio_sample_def rnd_numeral rnd_one)
  show "audio_price_total (audio_sample (Num 1000000)) (Num 1) = Num 0" unfolding defs
    by (simp add: audio_sample_def rnd_numeral rnd_one)
qed

text \<open>
  In the display by ratios the content of a log row says nothing about file searches, although the display by
  prices lists their number.
\<close>

theorem ratio_log_hides_searches:
  assumes "\<not> isPriceDisplayMode store (lp_displayMode a) (lp_modelPrice a)"
  shows "renderLogContent t store (a\<lparr>lp_fileSearch := b, lp_fileSearchCallCount := n\<rparr>) = renderLogContent t store a"
  using assms by (simp add: renderLogContent_def log_ratio_text_def Let_def)

definition ratio_log :: log_prices where
  "ratio_log = \<lparr>lp_modelRatio = Num 1, lp_completionRatio = Num 1, lp_modelPrice = no_price, lp_groupRatio = Num 1,
     lp_user_group_ratio = None, lp_cacheRatio = Num 1, lp_image = False, lp_imageRatio = Num 1, lp_webSearch = False,
     lp_webSearchCallCount = Num 0, lp_fileSearch = True, lp_fileSearchCallCount = Num 7, lp_displayMode = M_RATIO\<rparr>"

theorem ratio_log_hides_searches_witness:
  "renderLogContent (\<lambda>key vs. key) (unit_store 500000) (ratio_log\<lparr>lp_fileSearch := False, lp_fileSearchCallCount := Num 0\<rparr>) =
     renderLogContent (\<lambda>key vs. key) (unit_store 500000) ratio_log"
  by (rule ratio_log_hides_searches) (simp add: ratio_log_def isPriceDisplayMode_def resolveBillingDisplayMode_def num_eq_def
      M_PRICE_def M_RATIO_def js_def unit_store_simps display_texts)

end
