(* ===== verification/UsageLogs.thy ===== *)
theory UsageLogs
  imports BillingAccounts ChannelHelpers ChannelActions
begin

text \<open>
  The usage log table (\<open>hooks/usage-logs/useUsageLogsData.jsx\<close>): the columns and the billing display kept in the local
  storage, the details shown below each row, and the loading of a page. A row is the object the server sends; its
  \<open>other\<close> column is read by \<open>getLogOther\<close>. A number that is missing there counts as NaN, as it does in arithmetic,
  and a value put into a text is converted like in a template. Parameters are the translation, \<open>new Date\<close> in local time
  as its year, month, day, hour, minute and second, and \<open>Date.parse\<close>.
\<close>

subsection \<open>Points in time as texts\<close>

type_synonym local_time = "jsnum \<Rightarrow> nat \<times> nat \<times> nat \<times> nat \<times> nat \<times> nat"

definition pad2 :: "nat \<Rightarrow> jstring" where
  "pad2 n = (if length (dec n) = 1 then js ''0'' @ dec n else dec n)"

definition timestamp2string :: "local_time \<Rightarrow> jsnum \<Rightarrow> jstring" where
  "timestamp2string local_date timestamp =
     (let (year, month, day, hour, minute, second) = local_date (num_mul timestamp (Num 1000))
      in dec year @ js ''-'' @ pad2 month @ js ''-'' @ pad2 day @ js '' '' @ pad2 hour @ js '':'' @ pad2 minute @ js '':'' @ pad2 second)"

subsection \<open>Columns and billing display\<close>

definition LOG_COLUMN_KEYS :: "jstring list" where
  "LOG_COLUMN_KEYS = map js
     [''time'', ''channel'', ''username'', ''token'', ''group'', ''type'', ''model'', ''use_time'', ''prompt'', ''completion'',
      ''cost'', ''retry'', ''ip'', ''user_agent'', ''details'']"

definition LOG_STORAGE_KEY :: "bool \<Rightarrow> jstring" where
  "LOG_STORAGE_KEY admin = (if admin then js ''logs-table-columns-admin'' else js ''logs-table-columns-user'')"

definition BILLING_MODE_KEY :: "bool \<Rightarrow> jstring" where
  "BILLING_MODE_KEY admin = (if admin then js ''logs-billing-display-mode-admin'' else js ''logs-billing-display-mode-user'')"

definition default_log_columns :: "bool \<Rightarrow> jsobj" where
  "default_log_columns admin = map (\<lambda>(k, b). (js k, JBool b))
     [(''time'', True), (''channel'', admin), (''username'', admin), (''token'', True), (''group'', True), (''type'', True),
      (''model'', True), (''use_time'', True), (''prompt'', True), (''completion'', True), (''cost'', True), (''retry'', admin),
      (''ip'', True), (''details'', True)]"

definition hide_admin_columns :: "jsobj \<Rightarrow> jsobj" where
  "hide_admin_columns merged =
     obj_set (js ''retry'') (JBool False) (obj_set (js ''username'') (JBool False) (obj_set (js ''channel'') (JBool False) merged))"

definition getInitialVisibleColumns :: "bool \<Rightarrow> storage \<Rightarrow> jsobj" where
  "getInitialVisibleColumns admin st = (case st (LOG_STORAGE_KEY admin) of
       None \<Rightarrow> default_log_columns admin
     | Some s \<Rightarrow>
         if s = [] then default_log_columns admin
         else (case json_parse s of
                 None \<Rightarrow> default_log_columns admin
               | Some parsed \<Rightarrow>
                   (let merged = obj_merge (default_log_columns admin) (spread parsed)
                    in if \<not> admin then hide_admin_columns merged else merged)))"

definition getInitialBillingDisplayMode :: "bool \<Rightarrow> storage \<Rightarrow> jstring" where
  "getInitialBillingDisplayMode admin st = (case st (BILLING_MODE_KEY admin) of
       Some m \<Rightarrow> if m = M_PRICE \<or> m = M_RATIO then m
         else if st (js ''quota_display_type'') = Some T_TOKENS then M_RATIO else M_PRICE
     | None \<Rightarrow> if st (js ''quota_display_type'') = Some T_TOKENS then M_RATIO else M_PRICE)"

definition initDefaultColumns :: "bool \<Rightarrow> storage \<Rightarrow> jsobj \<times> storage" where
  "initDefaultColumns admin st =
     (default_log_columns admin, st(LOG_STORAGE_KEY admin \<mapsto> json_str (JObj (default_log_columns admin))))"

definition logs_column_change :: "jstring \<Rightarrow> bool \<Rightarrow> jsobj \<Rightarrow> jsobj" where
  "logs_column_change columnKey checked visible = obj_set columnKey (JBool checked) visible"

definition logs_select_all :: "bool \<Rightarrow> bool \<Rightarrow> jsobj" where
  "logs_select_all admin checked =
     map (\<lambda>key. (key, JBool (if key \<in> {js ''channel'', js ''username'', js ''retry''} \<and> \<not> admin then False else checked)))
       LOG_COLUMN_KEYS"

text \<open>The effects that save the columns and the billing display.\<close>

definition save_log_columns :: "bool \<Rightarrow> jsobj \<Rightarrow> storage \<Rightarrow> storage" where
  "save_log_columns admin visible st =
     (if visible \<noteq> [] then st(LOG_STORAGE_KEY admin \<mapsto> json_str (JObj visible)) else st)"

definition save_billing_mode :: "bool \<Rightarrow> jstring \<Rightarrow> storage \<Rightarrow> storage" where
  "save_billing_mode admin mode st = st(BILLING_MODE_KEY admin \<mapsto> mode)"

subsection \<open>The details of a row\<close>

text \<open>A value, an account, a value in a block of its own, or the entry that opens the list of overridden parameters.\<close>

datatype detail = Shown jsval | Account billing_view | Block jstring | OverrideEntry nat

type_synonym detail_rows = "(jstring \<times> detail) list"

text \<open>Numbers read from \<open>other\<close>: as they are, and with a value in place of a falsy one.\<close>

definition num_at :: "jsval \<Rightarrow> string \<Rightarrow> jsnum" where
  "num_at other k = val_number (opt_prop other (js k))"

definition num_at_or :: "jsval \<Rightarrow> string \<Rightarrow> rat \<Rightarrow> jsnum" where
  "num_at_or other k d = val_number (js_or (opt_prop other (js k)) (JNum (Num d)))"

definition flag_at :: "jsval \<Rightarrow> string \<Rightarrow> bool" where
  "flag_at other k = truthy (opt_prop other (js k))"

text \<open>A price that is \<open>undefined\<close> takes the default of the parameter, \<open>-1\<close>.\<close>

definition price_at :: "jsval \<Rightarrow> jsnum" where
  "price_at other = (if opt_prop other (js ''model_price'') = JUndef then no_price else num_at other ''model_price'')"

definition own_ratio_at :: "jsval \<Rightarrow> jsnum option" where
  "own_ratio_at other = (case opt_prop other (js ''user_group_ratio'') of JNum n \<Rightarrow> Some n | _ \<Rightarrow> None)"

definition completion_at :: "jsval \<Rightarrow> jsnum option" where
  "completion_at other =
     (if opt_prop other (js ''completion_ratio'') = JUndef then None else Some (num_at other ''completion_ratio''))"

definition creation_ratio_at :: "jsval \<Rightarrow> string \<Rightarrow> jsnum" where
  "creation_ratio_at other k =
     val_number (js_or (js_or (opt_prop other (js k)) (opt_prop other (js ''cache_creation_ratio''))) (JNum (Num 1)))"

definition log_args :: "jstring \<Rightarrow> jsval \<Rightarrow> log_prices" where
  "log_args mode other =
     \<lparr>lp_modelRatio = num_at other ''model_ratio'', lp_completionRatio = num_at other ''completion_ratio'',
      lp_modelPrice = price_at other, lp_groupRatio = num_at other ''group_ratio'', lp_user_group_ratio = own_ratio_at other,
      lp_cacheRatio = num_at_or other ''cache_ratio'' 1, lp_image = False, lp_imageRatio = Num 1,
      lp_webSearch = flag_at other ''web_search'', lp_webSearchCallCount = num_at_or other ''web_search_call_count'' 0,
      lp_fileSearch = flag_at other ''file_search'', lp_fileSearchCallCount = num_at_or other ''file_search_call_count'' 0,
      lp_displayMode = mode\<rparr>"

definition claude_args :: "jsval \<Rightarrow> jsval \<Rightarrow> claude_usage" where
  "claude_args row other =
     \<lparr>cl_inputTokens = num_at row ''prompt_tokens'', cl_completionTokens = num_at row ''completion_tokens'',
      cl_modelRatio = num_at other ''model_ratio'', cl_modelPrice = price_at other, cl_completionRatio = completion_at other,
      cl_groupRatio = num_at other ''group_ratio'', cl_user_group_ratio = own_ratio_at other,
      cl_cacheTokens = num_at_or other ''cache_tokens'' 0, cl_cacheRatio = num_at_or other ''cache_ratio'' 1,
      cl_cacheCreationTokens = num_at_or other ''cache_creation_tokens'' 0,
      cl_cacheCreationRatio = num_at_or other ''cache_creation_ratio'' 1,
      cl_cacheCreationTokens5m = num_at_or other ''cache_creation_tokens_5m'' 0,
      cl_cacheCreationRatio5m = creation_ratio_at other ''cache_creation_ratio_5m'',
      cl_cacheCreationTokens1h = num_at_or other ''cache_creation_tokens_1h'' 0,
      cl_cacheCreationRatio1h = creation_ratio_at other ''cache_creation_ratio_1h''\<rparr>"

definition audio_args :: "jsval \<Rightarrow> audio_usage" where
  "audio_args other =
     \<lparr>au_inputTokens = num_at other ''text_input'', au_completionTokens = num_at other ''text_output'',
      au_modelRatio = num_at other ''model_ratio'', au_modelPrice = price_at other, au_completionRatio = completion_at other,
      au_audioInputTokens = num_at other ''audio_input'', au_audioCompletionTokens = num_at other ''audio_output'',
      au_audioRatio = num_at other ''audio_ratio'', au_audioCompletionRatio = num_at other ''audio_completion_ratio'',
      au_groupRatio = num_at other ''group_ratio'', au_user_group_ratio = own_ratio_at other,
      au_cacheTokens = num_at_or other ''cache_tokens'' 0, au_cacheRatio = num_at_or other ''cache_ratio'' 1\<rparr>"

definition model_args :: "jsval \<Rightarrow> jsval \<Rightarrow> model_usage" where
  "model_args row other =
     \<lparr>mu_inputTokens = num_at row ''prompt_tokens'', mu_completionTokens = num_at row ''completion_tokens'',
      mu_modelRatio = num_at other ''model_ratio'', mu_modelPrice = price_at other, mu_completionRatio = completion_at other,
      mu_groupRatio = num_at other ''group_ratio'', mu_user_group_ratio = own_ratio_at other,
      mu_cacheTokens = num_at_or other ''cache_tokens'' 0, mu_cacheRatio = num_at_or other ''cache_ratio'' 1,
      mu_image = flag_at other ''image'', mu_imageRatio = num_at_or other ''image_ratio'' 0,
      mu_imageOutputTokens = num_at_or other ''image_output'' 0,
      mu_webSearch = flag_at other ''web_search'', mu_webSearchCallCount = num_at_or other ''web_search_call_count'' 0,
      mu_webSearchPrice = num_at_or other ''web_search_price'' 0,
      mu_fileSearch = flag_at other ''file_search'', mu_fileSearchCallCount = num_at_or other ''file_search_call_count'' 0,
      mu_fileSearchPrice = num_at_or other ''file_search_price'' 0,
      mu_audioInputSeperatePrice = flag_at other ''audio_input_seperate_price'',
      mu_audioInputTokens = num_at_or other ''audio_input_token_count'' 0, mu_audioInputPrice = num_at_or other ''audio_input_price'' 0,
      mu_imageGenerationCall = flag_at other ''image_generation_call'',
      mu_imageGenerationCallPrice = num_at_or other ''image_generation_call_price'' 0\<rparr>"

record log_env =
  le_t :: i18n
  le_store :: storage
  le_admin :: bool
  le_mode :: jstring

abbreviation tr :: "log_env \<Rightarrow> jstring \<Rightarrow> jstring" where "tr e m \<equiv> le_t e m []"

definition MSG_channel_info :: jstring where "MSG_channel_info = [0x6E20, 0x9053, 0x4FE1, 0x606F]"
definition MSG_unknown_channel :: jstring where "MSG_unknown_channel = js ''['' @ [0x672A, 0x77E5] @ js '']''"
definition MSG_request_id :: jstring where "MSG_request_id = js ''Request ID''"
definition MSG_voice_in :: jstring where "MSG_voice_in = [0x8BED, 0x97F3, 0x8F93, 0x5165]"
definition MSG_voice_out :: jstring where "MSG_voice_out = [0x8BED, 0x97F3, 0x8F93, 0x51FA]"
definition MSG_text_in :: jstring where "MSG_text_in = [0x6587, 0x5B57, 0x8F93, 0x5165]"
definition MSG_text_out :: jstring where "MSG_text_out = [0x6587, 0x5B57, 0x8F93, 0x51FA]"
definition MSG_cache_tokens :: jstring where "MSG_cache_tokens = [0x7F13, 0x5B58] @ js '' Tokens''"
definition MSG_creation_tokens :: jstring where "MSG_creation_tokens = [0x7F13, 0x5B58, 0x521B, 0x5EFA] @ js '' Tokens''"
definition MSG_log_details :: jstring where "MSG_log_details = [0x65E5, 0x5FD7, 0x8BE6, 0x60C5]"
definition MSG_other_details :: jstring where "MSG_other_details = [0x5176, 0x4ED6, 0x8BE6, 0x60C5]"
definition MSG_reject_reason :: jstring where "MSG_reject_reason = [0x62E6, 0x622A, 0x539F, 0x56E0]"
definition MSG_billed_model :: jstring where "MSG_billed_model = [0x8BF7, 0x6C42, 0x5E76, 0x8BA1, 0x8D39, 0x6A21, 0x578B]"
definition MSG_actual_model :: jstring where "MSG_actual_model = [0x5B9E, 0x9645, 0x6A21, 0x578B]"
definition MSG_billing_process :: jstring where "MSG_billing_process = [0x8BA1, 0x8D39, 0x8FC7, 0x7A0B]"
definition MSG_reasoning_effort :: jstring where "MSG_reasoning_effort = js ''Reasoning Effort''"
definition MSG_task_id :: jstring where "MSG_task_id = [0x4EFB, 0x52A1] @ js ''ID''"
definition MSG_failure_reason :: jstring where "MSG_failure_reason = [0x5931, 0x8D25, 0x539F, 0x56E0]"
definition MSG_request_path :: jstring where "MSG_request_path = [0x8BF7, 0x6C42, 0x8DEF, 0x5F84]"
definition MSG_stream_ok :: jstring where "MSG_stream_ok = [0x6B63, 0x5E38]"
definition MSG_stream_bad :: jstring where "MSG_stream_bad = [0x5F02, 0x5E38]"
definition MSG_soft_errors :: jstring where "MSG_soft_errors = [0x8F6F, 0x9519, 0x8BEF]"
definition MSG_stream_status :: jstring where "MSG_stream_status = [0x6D41, 0x72B6, 0x6001]"
definition MSG_stream_errors :: jstring where "MSG_stream_errors = [0x6D41, 0x9519, 0x8BEF, 0x8BE6, 0x60C5]"
definition MSG_param_override :: jstring where "MSG_param_override = [0x53C2, 0x6570, 0x8986, 0x76D6]"
definition MSG_quota_unit :: jstring where "MSG_quota_unit = [0x989D, 0x5EA6]"
definition MSG_plan :: jstring where "MSG_plan = [0x8BA2, 0x9605, 0x5957, 0x9910]"
definition MSG_subscription :: jstring where "MSG_subscription = [0x8BA2, 0x9605, 0x5B9E, 0x4F8B]"
definition MSG_preconsumed :: jstring where "MSG_preconsumed = [0x9884, 0x6263]"
definition MSG_delta :: jstring where "MSG_delta = [0x7ED3, 0x7B97, 0x5DEE, 0x989D]"
definition MSG_final :: jstring where "MSG_final = [0x6700, 0x7EC8, 0x62B5, 0x6263]"
definition MSG_settlement :: jstring where "MSG_settlement = [0x8BA2, 0x9605, 0x7ED3, 0x7B97]"
definition MSG_remaining :: jstring where "MSG_remaining = [0x8BA2, 0x9605, 0x5269, 0x4F59]"
definition MSG_plan_note :: jstring where "MSG_plan_note = [0x8BA2, 0x9605, 0x8BF4, 0x660E]"
definition MSG_plan_note_text :: jstring where "MSG_plan_note_text = js ''token '' @ [0x4F1A, 0x6309, 0x500D, 0x7387, 0x6362, 0x7B97, 0x6210, 0x201C, 0x989D, 0x5EA6] @ js ''/'' @ [0x6B21, 0x6570, 0x201D, 0xFF0C, 0x8BF7, 0x6C42, 0x7ED3, 0x675F, 0x540E, 0x518D, 0x505A, 0x5DEE, 0x989D, 0x7ED3, 0x7B97, 0xFF08, 0x8865, 0x6263] @ js ''/'' @ [0x8FD4, 0x8FD8, 0xFF09, 0x3002]"
definition MSG_conversion :: jstring where "MSG_conversion = [0x8BF7, 0x6C42, 0x8F6C, 0x6362]"
definition MSG_native_format :: jstring where "MSG_native_format = [0x539F, 0x751F, 0x683C, 0x5F0F]"
definition MSG_billing_mode :: jstring where "MSG_billing_mode = [0x8BA1, 0x8D39, 0x6A21, 0x5F0F]"
definition MSG_local_count :: jstring where "MSG_local_count = [0x672C, 0x5730, 0x8BA1, 0x8D39]"
definition MSG_upstream_count :: jstring where "MSG_upstream_count = [0x4E0A, 0x6E38, 0x8FD4, 0x56DE]"

definition row_if :: "bool \<Rightarrow> jstring \<Rightarrow> detail \<Rightarrow> detail_rows" where
  "row_if b key d = (if b then [(key, d)] else [])"

definition joined :: "jstring \<Rightarrow> jsval list \<Rightarrow> jstring" where
  "joined sep vs = join sep (map (\<lambda>v. if nullish v then [] else val_text v) vs)"

definition requestConversionDisplayValue :: "log_env \<Rightarrow> jsval \<Rightarrow> jstring" where
  "requestConversionDisplayValue e conversionChain =
     (let chain = (case conversionChain of JArr vs \<Rightarrow> filter truthy vs | _ \<Rightarrow> [])
      in if length chain \<le> 1 then tr e MSG_native_format else joined (js '' -> '') chain)"

definition LOG_SYSTEM :: jsval where "LOG_SYSTEM = JNum (Num 0)"
definition LOG_CONSUME :: jsval where "LOG_CONSUME = JNum (Num 2)"
definition LOG_REFUND :: jsval where "LOG_REFUND = JNum (Num 6)"

abbreviation log_type :: "jsval \<Rightarrow> jsval" where "log_type row \<equiv> opt_prop row (js ''type'')"

definition request_rows :: "log_env \<Rightarrow> jsval \<Rightarrow> jsval \<Rightarrow> detail_rows" where
  "request_rows e row other =
     row_if (le_admin e \<and> log_type row \<in> {LOG_SYSTEM, LOG_CONSUME, LOG_REFUND}) (tr e MSG_channel_info)
       (Shown (JStr (val_text (opt_prop row (js ''channel'')) @ js '' - '' @
         val_text (js_or (opt_prop row (js ''channel_name'')) (JStr MSG_unknown_channel))))) @
     row_if (truthy (opt_prop row (js ''request_id''))) (tr e MSG_request_id) (Shown (opt_prop row (js ''request_id''))) @
     (if flag_at other ''ws'' \<or> flag_at other ''audio'' then
        [(tr e MSG_voice_in, Shown (opt_prop other (js ''audio_input''))), (tr e MSG_voice_out, Shown (opt_prop other (js ''audio_output''))),
         (tr e MSG_text_in, Shown (opt_prop other (js ''text_input''))), (tr e MSG_text_out, Shown (opt_prop other (js ''text_output'')))]
      else []) @
     row_if (positive (num_at other ''cache_tokens'')) (tr e MSG_cache_tokens) (Shown (opt_prop other (js ''cache_tokens''))) @
     row_if (positive (num_at other ''cache_creation_tokens'')) (tr e MSG_creation_tokens)
       (Shown (opt_prop other (js ''cache_creation_tokens'')))"

text \<open>The content of a row; where \<open>other\<close> is \<open>null\<close>, reading \<open>other.completion_ratio\<close> raises a TypeError.\<close>

definition log_content :: "log_env \<Rightarrow> jsval \<Rightarrow> jsval \<Rightarrow> jstring res" where
  "log_content e row other =
     (if flag_at other ''claude'' then Inr (renderClaudeLogContent (le_t e) (le_store e) (le_mode e) (claude_args row other))
      else rbind (get_prop other (js ''completion_ratio''))
        (\<lambda>_. Inr (renderLogContent (le_t e) (le_store e) (log_args (le_mode e) other))))"

definition isViolationFeeLog :: "jsval \<Rightarrow> bool" where
  "isViolationFeeLog other \<longleftrightarrow> opt_prop other (js ''violation_fee'') = JBool True \<or>
     flag_at other ''violation_fee_code'' \<or> flag_at other ''violation_fee_marker''"

definition isTaskLog :: "jsval \<Rightarrow> bool" where
  "isTaskLog other \<longleftrightarrow> opt_prop other (js ''is_task'') = JBool True \<or> \<not> nullish (opt_prop other (js ''task_id''))"

definition billing_process :: "log_env \<Rightarrow> jsval \<Rightarrow> jsval \<Rightarrow> billing_view" where
  "billing_process e row other =
     (if isTaskLog other \<and> opt_prop other (js ''model_price'') = JNum (Num (- 1))
      then renderTaskBillingProcess (le_t e) other (val_text (opt_prop row (js ''content'')))
      else if flag_at other ''ws'' \<or> flag_at other ''audio'' then renderAudioModelPrice (le_t e) (le_store e) (audio_args other)
      else if flag_at other ''claude'' then renderClaudeModelPrice (le_t e) (le_store e) (claude_args row other)
      else renderModelPrice (le_t e) (le_store e) (model_args row other))"

definition consume_rows :: "log_env \<Rightarrow> jsval \<Rightarrow> jsval \<Rightarrow> detail_rows res" where
  "consume_rows e row other =
     (if log_type row \<noteq> LOG_CONSUME then Inr []
      else rbind (log_content e row other) (\<lambda>content. Inr (
        [(tr e MSG_log_details, Shown (JStr content))] @
        row_if (truthy (opt_prop row (js ''content''))) (tr e MSG_other_details) (Shown (opt_prop row (js ''content''))) @
        row_if (le_admin e \<and> flag_at other ''reject_reason'') (tr e MSG_reject_reason) (Shown (opt_prop other (js ''reject_reason''))) @
        (if flag_at other ''is_model_mapped'' \<and> flag_at other ''upstream_model_name'' then
           [(tr e MSG_billed_model, Shown (opt_prop row (js ''model_name''))),
            (tr e MSG_actual_model, Shown (opt_prop other (js ''upstream_model_name'')))]
         else []) @
        row_if (\<not> isViolationFeeLog other) (tr e MSG_billing_process) (Account (billing_process e row other)) @
        row_if (flag_at other ''reasoning_effort'') (tr e MSG_reasoning_effort) (Shown (opt_prop other (js ''reasoning_effort''))))))"

definition refund_rows :: "log_env \<Rightarrow> jsval \<Rightarrow> jsval \<Rightarrow> detail_rows" where
  "refund_rows e row other =
     (if log_type row = LOG_REFUND then
        row_if (flag_at other ''task_id'') (tr e MSG_task_id) (Shown (opt_prop other (js ''task_id''))) @
        row_if (flag_at other ''reason'') (tr e MSG_failure_reason) (Block (val_text (opt_prop other (js ''reason''))))
      else []) @
     row_if (flag_at other ''request_path'') (tr e MSG_request_path) (Shown (opt_prop other (js ''request_path'')))"

definition stream_value :: "log_env \<Rightarrow> jsval \<Rightarrow> jstring" where
  "stream_value e ss =
     (if opt_prop ss (js ''status'') = JStr (js ''ok'') then [0x2713] @ js '' '' @ tr e MSG_stream_ok
      else [0x2717] @ js '' '' @ tr e MSG_stream_bad) @
     js '' ('' @ val_text (js_or (opt_prop ss (js ''end_reason'')) (JStr (js ''unknown''))) @ js '')'' @
     (if positive (num_at ss ''error_count'')
      then js '' ['' @ tr e MSG_soft_errors @ js '': '' @ val_text (opt_prop ss (js ''error_count'')) @ js '']'' else []) @
     (if flag_at ss ''end_error'' then js '' - '' @ val_text (opt_prop ss (js ''end_error'')) else [])"

definition stream_rows :: "log_env \<Rightarrow> jsval \<Rightarrow> detail_rows" where
  "stream_rows e other =
     (if le_admin e \<and> flag_at other ''stream_status'' then
        (let ss = opt_prop other (js ''stream_status'') in
         [(tr e MSG_stream_status, Shown (JStr (stream_value e ss)))] @
         (case opt_prop ss (js ''errors'') of
            JArr vs \<Rightarrow> row_if (vs \<noteq> []) (tr e MSG_stream_errors) (Block (joined [10] vs))
          | _ \<Rightarrow> []))
      else [])"

definition override_rows :: "log_env \<Rightarrow> jsval \<Rightarrow> detail_rows" where
  "override_rows e other = (case opt_prop other (js ''po'') of
       JArr vs \<Rightarrow> row_if (vs \<noteq> []) (tr e MSG_param_override) (OverrideEntry (length vs))
     | _ \<Rightarrow> [])"

text \<open>\<open>a + b\<close> of two values: a sum of numbers, or the texts joined.\<close>

definition js_plus :: "jsval \<Rightarrow> jsval \<Rightarrow> jsval" where
  "js_plus a b =
     (let textual = (\<lambda>v. case v of JStr _ \<Rightarrow> True | JArr _ \<Rightarrow> True | JObj _ \<Rightarrow> True | _ \<Rightarrow> False) in
      if textual a \<or> textual b then JStr (val_text a @ val_text b) else JNum (num_add (val_number a) (val_number b)))"

definition settlement_lines :: "log_env \<Rightarrow> jsval \<Rightarrow> jstring" where
  "settlement_lines e other =
     (let unit = js '' '' @ tr e MSG_quota_unit;
          pre = js_nullish_or (opt_prop other (js ''subscription_pre_consumed'')) (JNum (Num 0));
          postDelta = js_nullish_or (opt_prop other (js ''subscription_post_delta'')) (JNum (Num 0));
          finalConsumed = js_nullish_or (opt_prop other (js ''subscription_consumed'')) (js_plus pre postDelta)
      in join [10]
        [tr e MSG_preconsumed @ [0xFF1A] @ val_text pre @ unit,
         tr e MSG_delta @ [0xFF1A] @ (if positive (val_number postDelta) then js ''+'' else []) @ val_text postDelta @ unit,
         tr e MSG_final @ [0xFF1A] @ val_text finalConsumed @ unit])"

definition subscription_rows :: "log_env \<Rightarrow> jsval \<Rightarrow> detail_rows" where
  "subscription_rows e other =
     (if opt_prop other (js ''billing_source'') = JStr (js ''subscription'') then
        (let planId = opt_prop other (js ''subscription_plan_id''); subscriptionId = opt_prop other (js ''subscription_id'');
             remain = opt_prop other (js ''subscription_remain''); total' = opt_prop other (js ''subscription_total'')
         in row_if (truthy planId) (tr e MSG_plan)
              (Shown (JStr (trim (js ''#'' @ val_text planId @ js '' '' @
                val_text (js_or (opt_prop other (js ''subscription_plan_title'')) (JStr [])))))) @
            row_if (truthy subscriptionId) (tr e MSG_subscription) (Shown (JStr (js ''#'' @ val_text subscriptionId))) @
            [(tr e MSG_settlement, Block (settlement_lines e other))] @
            row_if (remain \<noteq> JUndef \<and> total' \<noteq> JUndef) (tr e MSG_remaining)
              (Shown (JStr (val_text remain @ js ''/'' @ val_text total' @ js '' '' @ tr e MSG_quota_unit))) @
            [(tr e MSG_plan_note, Shown (JStr (tr e MSG_plan_note_text)))])
      else [])"

definition admin_rows :: "log_env \<Rightarrow> jsval \<Rightarrow> jsval \<Rightarrow> detail_rows" where
  "admin_rows e row other =
     (if le_admin e \<and> log_type row \<noteq> LOG_REFUND then
        [(tr e MSG_conversion, Shown (JStr (requestConversionDisplayValue e (opt_prop other (js ''request_conversion''))))),
         (tr e MSG_billing_mode, Shown (JStr (
           if truthy (opt_prop (opt_prop other (js ''admin_info'')) (js ''local_count_tokens''))
           then tr e MSG_local_count else tr e MSG_upstream_count)))]
      else [])"

definition expand_rows :: "log_env \<Rightarrow> jsval \<Rightarrow> jsval \<Rightarrow> detail_rows res" where
  "expand_rows e row other =
     rbind (consume_rows e row other) (\<lambda>rows. Inr (request_rows e row other @ rows @ refund_rows e row other @
       stream_rows e other @ override_rows e other @ subscription_rows e other @ admin_rows e row other))"

text \<open>One round of the loop: the row with its time and key, and its details under that key.\<close>

definition format_log :: "log_env \<Rightarrow> local_time \<Rightarrow> jsobj \<Rightarrow> (jsobj \<times> detail_rows) res" where
  "format_log e local_date row =
     (let row = obj_set (js ''timestamp2string'')
            (JStr (timestamp2string local_date (num_at (JObj row) ''created_at''))) row;
          row = obj_set (js ''key'') (get_own row (js ''id'')) row
      in rbind (getLogOther (get_own row (js ''other''))) (\<lambda>other.
         rbind (expand_rows e (JObj row) other) (\<lambda>rows. Inr (row, rows))))"

definition setLogsFormat :: "log_env \<Rightarrow> local_time \<Rightarrow> jsobj list \<Rightarrow> (jsobj list \<times> (jstring \<times> detail_rows) list) res" where
  "setLogsFormat e local_date logs =
     rbind (res_list (map (format_log e local_date) logs)) (\<lambda>formatted.
       Inr (map fst formatted,
            foldl (\<lambda>expand (row, rows). obj_set (val_text (get_own row (js ''key''))) rows expand) [] formatted))"


definition lookup_rows :: "jstring \<Rightarrow> (jstring \<times> detail_rows) list \<Rightarrow> detail_rows" where
  "lookup_rows key expand = (case map_of expand key of None \<Rightarrow> [] | Some rows \<Rightarrow> rows)"

definition hasExpandableRows :: "jsobj list \<Rightarrow> (jstring \<times> detail_rows) list \<Rightarrow> bool" where
  "hasExpandableRows logs expand \<longleftrightarrow> (\<exists>row \<in> set logs. lookup_rows (val_text (get_own row (js ''key''))) expand \<noteq> [])"

subsection \<open>Requests\<close>

text \<open>\<open>encodeURI\<close>: characters of addresses are kept, others are written as their UTF-8 bytes; a lone surrogate is an error.\<close>

definition uri_kept :: "nat \<Rightarrow> bool" where
  "uri_kept c \<longleftrightarrow> is_digit c \<or> (65 \<le> c \<and> c \<le> 90) \<or> (97 \<le> c \<and> c \<le> 122) \<or> c \<in> set (js '';,/?:@&=+$-_.!~*()#'') \<or> c = 39"

definition percent_byte :: "nat \<Rightarrow> jstring" where
  "percent_byte b = (let hex = (\<lambda>d. if d < 10 then 48 + d else 55 + d) in [37, hex (b div 16), hex (b mod 16)])"

definition utf8_bytes :: "nat \<Rightarrow> nat list" where
  "utf8_bytes c =
     (if c < 0x80 then [c]
      else if c < 0x800 then [0xC0 + c div 0x40, 0x80 + c mod 0x40]
      else if c < 0x10000 then [0xE0 + c div 0x1000, 0x80 + c div 0x40 mod 0x40, 0x80 + c mod 0x40]
      else [0xF0 + c div 0x40000, 0x80 + c div 0x1000 mod 0x40, 0x80 + c div 0x40 mod 0x40, 0x80 + c mod 0x40])"

definition percent_char :: "nat \<Rightarrow> jstring" where
  "percent_char c = concat (map percent_byte (utf8_bytes c))"

fun encodeURI :: "jstring \<Rightarrow> jstring option" where
  "encodeURI [] = Some []"
| "encodeURI (c # cs) =
     (if uri_kept c then map_option (\<lambda>r. c # r) (encodeURI cs)
      else if 0xDC00 \<le> c \<and> c \<le> 0xDFFF then None
      else if 0xD800 \<le> c \<and> c \<le> 0xDBFF then
        (case cs of
           [] \<Rightarrow> None
         | d # ds \<Rightarrow>
             if 0xDC00 \<le> d \<and> d \<le> 0xDFFF
             then map_option (\<lambda>r. percent_char ((c - 0xD800) * 0x400 + (d - 0xDC00) + 0x10000) @ r) (encodeURI ds)
             else None)
      else map_option (\<lambda>r. percent_char c @ r) (encodeURI cs))"

record log_filter =
  lf_username :: jstring
  lf_token_name :: jstring
  lf_model_name :: jstring
  lf_start :: jsval
  lf_end :: jsval
  lf_channel :: jstring
  lf_group :: jstring
  lf_request_id :: jstring
  lf_logType :: jsnum

definition text_at :: "jsval \<Rightarrow> string \<Rightarrow> jstring" where
  "text_at v k = val_text (js_or (opt_prop v (js k)) (JStr []))"

text \<open>The filter of the form, or, before the form is ready, of its initial values.\<close>

definition getFormValues :: "local_time \<Rightarrow> (jsval \<Rightarrow> jsnum) \<Rightarrow> jsnum \<Rightarrow> jsnum \<Rightarrow> jsval \<Rightarrow> jsval option \<Rightarrow> log_filter" where
  "getFormValues local_date date_parse todayStart now formInitValues formApi =
     (let v = (case formApi of None \<Rightarrow> formInitValues | Some values' \<Rightarrow> values');
          tx = (\<lambda>k. text_at v k);
          dateRange = opt_prop v (js ''dateRange'');
          (start, finish) = (case formApi of
              None \<Rightarrow> (let shown = (\<lambda>i. JStr (timestamp2string local_date (num_div (date_parse (opt_prop dateRange (dec i))) (Num 1000))))
                in (shown 0, shown 1))
            | Some _ \<Rightarrow> (case dateRange of
                JArr [a, b] \<Rightarrow> (a, b)
              | _ \<Rightarrow> (JStr (timestamp2string local_date todayStart),
                  JStr (timestamp2string local_date (num_add (num_div now (Num 1000)) (Num 3600))))))
      in \<lparr>lf_username = tx ''username'', lf_token_name = tx ''token_name'', lf_model_name = tx ''model_name'',
          lf_start = start, lf_end = finish, lf_channel = tx ''channel'', lf_group = tx ''group'', lf_request_id = tx ''request_id'',
          lf_logType = (if flag_at v ''logType'' then parse_int (val_text (opt_prop v (js ''logType''))) else Num 0)\<rparr>)"

definition epoch_seconds :: "(jsval \<Rightarrow> jsnum) \<Rightarrow> jsval \<Rightarrow> jstring" where
  "epoch_seconds date_parse d = num_to_string (num_div (date_parse d) (Num 1000))"

definition logs_url :: "(jsval \<Rightarrow> jsnum) \<Rightarrow> bool \<Rightarrow> jsnum \<Rightarrow> jsval \<Rightarrow> jsnum \<Rightarrow> log_filter \<Rightarrow> jstring" where
  "logs_url date_parse admin startIdx pageSize currentLogType f =
     (if admin then js ''/api/log/?p='' else js ''/api/log/self/?p='') @ num_to_string startIdx @
     js ''&page_size='' @ val_text pageSize @ js ''&type='' @ num_to_string currentLogType @
     (if admin then js ''&username='' @ lf_username f else []) @
     js ''&token_name='' @ lf_token_name f @ js ''&model_name='' @ lf_model_name f @
     js ''&start_timestamp='' @ epoch_seconds date_parse (lf_start f) @ js ''&end_timestamp='' @ epoch_seconds date_parse (lf_end f) @
     (if admin then js ''&channel='' @ lf_channel f else []) @
     js ''&group='' @ lf_group f @ js ''&request_id='' @ lf_request_id f"

definition stat_url :: "(jsval \<Rightarrow> jsnum) \<Rightarrow> bool \<Rightarrow> log_filter \<Rightarrow> jstring" where
  "stat_url date_parse admin f =
     (if admin then js ''/api/log/stat?type='' else js ''/api/log/self/stat?type='') @ num_to_string (lf_logType f) @
     (if admin then js ''&username='' @ lf_username f else []) @
     js ''&token_name='' @ lf_token_name f @ js ''&model_name='' @ lf_model_name f @
     js ''&start_timestamp='' @ epoch_seconds date_parse (lf_start f) @ js ''&end_timestamp='' @ epoch_seconds date_parse (lf_end f) @
     (if admin then js ''&channel='' @ lf_channel f else []) @ js ''&group='' @ lf_group f"

subsection \<open>The page\<close>

record logs_page =
  lg_logs :: "jsobj list"
  lg_expand :: "(jstring \<times> detail_rows) list"
  lg_showStat :: bool
  lg_loading :: bool
  lg_loadingStat :: bool
  lg_activePage :: jsval
  lg_logCount :: jsval
  lg_pageSize :: jsval
  lg_stat :: jsval
  lg_userInfo :: "jsval option"
  lg_affinityTarget :: "jsobj option"
  lg_overrideTarget :: "jsobj option"
  lg_errors :: "jsval list"

text \<open>The answer of the server to a request for a page.\<close>

record logs_reply =
  lr_success :: bool
  lr_message :: jsval
  lr_items :: "jsobj list"
  lr_page :: jsval
  lr_page_size :: jsval
  lr_total :: jsval

definition loadLogs :: "(jsval \<Rightarrow> jsnum) \<Rightarrow> bool \<Rightarrow> log_filter \<Rightarrow> jsnum \<Rightarrow> jsval \<Rightarrow> jsnum option \<Rightarrow> logs_page \<Rightarrow> jstring option \<times> logs_page" where
  "loadLogs date_parse admin f startIdx pageSize customLogType s =
     (let currentLogType = (case customLogType of Some c \<Rightarrow> c | None \<Rightarrow> lf_logType f)
      in (encodeURI (logs_url date_parse admin startIdx pageSize currentLogType f), s\<lparr>lg_loading := True\<rparr>))"

definition logs_loaded :: "log_env \<Rightarrow> local_time \<Rightarrow> logs_reply \<Rightarrow> logs_page \<Rightarrow> exn option \<times> logs_page" where
  "logs_loaded e local_date r s =
     (if lr_success r then
        (let s = s\<lparr>lg_activePage := lr_page r, lg_pageSize := lr_page_size r, lg_logCount := lr_total r\<rparr> in
         case setLogsFormat e local_date (lr_items r) of
           Inl err \<Rightarrow> (Some err, s)
         | Inr (logs, expand) \<Rightarrow> (None, s\<lparr>lg_expand := expand, lg_logs := logs, lg_loading := False\<rparr>))
      else (None, s\<lparr>lg_errors := lg_errors s @ [lr_message r], lg_loading := False\<rparr>))"

definition stat_loaded :: "bool \<Rightarrow> jsval \<Rightarrow> jsval \<Rightarrow> logs_page \<Rightarrow> logs_page" where
  "stat_loaded success message data s =
     (if success then s\<lparr>lg_stat := data, lg_showStat := True\<rparr> else s\<lparr>lg_errors := lg_errors s @ [message]\<rparr>)"

definition handleEyeClick :: "(jsval \<Rightarrow> jsnum) \<Rightarrow> bool \<Rightarrow> log_filter \<Rightarrow> logs_page \<Rightarrow> jstring option \<times> logs_page" where
  "handleEyeClick date_parse admin f s =
     (if lg_loadingStat s then (None, s)
      else (encodeURI (stat_url date_parse admin f), s\<lparr>lg_loadingStat := True\<rparr>))"

definition eye_answered :: "bool \<Rightarrow> jsval \<Rightarrow> jsval \<Rightarrow> logs_page \<Rightarrow> logs_page" where
  "eye_answered success message data s = (stat_loaded success message data s)\<lparr>lg_showStat := True, lg_loadingStat := False\<rparr>"

definition showUserInfoFunc :: "bool \<Rightarrow> bool \<Rightarrow> jsval \<Rightarrow> jsval \<Rightarrow> logs_page \<Rightarrow> logs_page" where
  "showUserInfoFunc admin success message data s =
     (if \<not> admin then s
      else if success then s\<lparr>lg_userInfo := Some data\<rparr>
      else s\<lparr>lg_errors := lg_errors s @ [message]\<rparr>)"

definition openChannelAffinityUsageCacheModal :: "jsval \<Rightarrow> logs_page \<Rightarrow> logs_page" where
  "openChannelAffinityUsageCacheModal affinity s =
     (let tx = (\<lambda>k. opt_prop affinity (js k)); E = JStr [] in
      s\<lparr>lg_affinityTarget := Some
        [(js ''rule_name'', js_or (js_or (tx ''rule_name'') (tx ''reason'')) E), (js ''using_group'', js_or (tx ''using_group'') E),
         (js ''key_hint'', js_or (tx ''key_hint'') E), (js ''key_fp'', js_or (tx ''key_fp'') E)]\<rparr>)"

definition openParamOverrideModal :: "jsval \<Rightarrow> jsval \<Rightarrow> logs_page \<Rightarrow> logs_page" where
  "openParamOverrideModal row other s =
     (let lines = (case opt_prop other (js ''po'') of JArr vs \<Rightarrow> filter truthy vs | _ \<Rightarrow> []); E = JStr [] in
      if lines = [] then s
      else s\<lparr>lg_overrideTarget := Some
        [(js ''lines'', JArr lines), (js ''modelName'', js_or (opt_prop row (js ''model_name'')) E),
         (js ''requestId'', js_or (opt_prop row (js ''request_id'')) E),
         (js ''requestPath'', js_or (opt_prop other (js ''request_path'')) E)]\<rparr>)"

definition logs_page_change :: "(jsval \<Rightarrow> jsnum) \<Rightarrow> bool \<Rightarrow> log_filter \<Rightarrow> jsnum \<Rightarrow> logs_page \<Rightarrow> jstring option \<times> logs_page" where
  "logs_page_change date_parse admin f page s =
     loadLogs date_parse admin f page (lg_pageSize s) None (s\<lparr>lg_activePage := JNum page\<rparr>)"

text \<open>The handler asks for the page that was active before, although it sets the first one.\<close>

definition logs_page_size_change ::
  "(jsval \<Rightarrow> jsnum) \<Rightarrow> bool \<Rightarrow> log_filter \<Rightarrow> jsnum \<Rightarrow> storage \<Rightarrow> logs_page \<Rightarrow> jstring option \<times> logs_page \<times> storage" where
  "logs_page_size_change date_parse admin f size' st s =
     (let (url, s') = loadLogs date_parse admin f (val_number (lg_activePage s)) (JNum size') None
            (s\<lparr>lg_pageSize := JNum size', lg_activePage := JNum (Num 1)\<rparr>)
      in (url, s', st(js ''page-size'' \<mapsto> num_to_string size')))"

definition logs_refresh ::
  "(jsval \<Rightarrow> jsnum) \<Rightarrow> bool \<Rightarrow> log_filter \<Rightarrow> logs_page \<Rightarrow> jstring option \<times> jstring option \<times> logs_page" where
  "logs_refresh date_parse admin f s =
     (let (stat, s') = handleEyeClick date_parse admin f (s\<lparr>lg_activePage := JNum (Num 1)\<rparr>);
          (url, s'') = loadLogs date_parse admin f (Num 1) (lg_pageSize s) None s'
      in (stat, url, s''))"


definition logs_init :: logs_page where
  "logs_init = \<lparr>lg_logs = [], lg_expand = [], lg_showStat = False, lg_loading = False, lg_loadingStat = False,
     lg_activePage = JNum (Num 1), lg_logCount = JNum (Num 0), lg_pageSize = JNum (Num (of_nat ITEMS_PER_PAGE)),
     lg_stat = JObj [(js ''quota'', JNum (Num 0)), (js ''token'', JNum (Num 0)), (js ''refundQuota'', JNum (Num 0))],
     lg_userInfo = None, lg_affinityTarget = None, lg_overrideTarget = None, lg_errors = []\<rparr>"

subsection \<open>Columns of administrators\<close>

text \<open>
  Whatever is in the local storage, a user who is no administrator starts without the columns of channels, user
  names and retries.
\<close>

theorem users_start_without_admin_columns:
  assumes "c \<in> {js ''channel'', js ''username'', js ''retry''}"
  shows "get_own (getInitialVisibleColumns False st) c = JBool False"
proof -
  have "get_own (default_log_columns False) c = JBool False"
    using assms by (auto simp: default_log_columns_def get_own_def)
  then show ?thesis
    using assms by (auto simp: getInitialVisibleColumns_def hide_admin_columns_def Let_def split: option.splits)
qed

theorem users_start_without_admin_columns_witness:
  "get_own (getInitialVisibleColumns False (\<lambda>_. Some (js ''{''))) (js ''channel'') = JBool False"
  by (rule users_start_without_admin_columns) simp

subsection \<open>What a user sees\<close>

text \<open>
  Two values that agree but for some of their properties; the fields of a row and of its column \<open>other\<close> that only administrators
  see. The column itself is among those of the row: its text holds the fields of administrators, and no detail may show it raw.
\<close>

definition same_but :: "jstring set \<Rightarrow> jsval \<Rightarrow> jsval \<Rightarrow> bool" where
  "same_but hidden v w \<longleftrightarrow> nullish v = nullish w \<and> (\<forall>k. k \<notin> hidden \<longrightarrow> opt_prop v k = opt_prop w k)"

definition ADMIN_ROW_FIELDS :: "jstring set" where
  "ADMIN_ROW_FIELDS = {js ''channel'', js ''channel_name'', js ''other''}"

definition ADMIN_OTHER_FIELDS :: "jstring set" where
  "ADMIN_OTHER_FIELDS = {js ''reject_reason'', js ''stream_status'', js ''request_conversion'', js ''admin_info''}"

lemma opt_prop_obj: "opt_prop (JObj ob) k = get_own ob k"
  by (simp add: opt_prop_def get_prop_def)

lemma get_prop_opt: "get_prop v k = (if nullish v then Inl TypeError else Inr (opt_prop v k))"
  by (cases v) (auto simp: get_prop_def opt_prop_def nullish_def split: option.splits)

text \<open>
  The details of a row read only some of the fields: of those that only administrators see nothing is used for others,
  and the cache ratio is used with one in place of zero.
\<close>

lemma expand_rows_cong:
  assumes r: "\<And>k. k \<notin> {''channel'', ''channel_name'', ''other''} \<Longrightarrow> opt_prop row (js k) = opt_prop row' (js k)"
    and o: "\<And>k. k \<notin> {''reject_reason'', ''stream_status'', ''request_conversion'', ''admin_info'', ''cache_ratio''} \<Longrightarrow>
      opt_prop other (js k) = opt_prop other' (js k)"
    and c: "num_at_or other ''cache_ratio'' 1 = num_at_or other' ''cache_ratio'' 1"
    and n: "nullish other = nullish other'"
    and admin: "le_admin e \<Longrightarrow> row = row' \<and> (\<forall>k. k \<noteq> ''cache_ratio'' \<longrightarrow> opt_prop other (js k) = opt_prop other' (js k))"
  shows "expand_rows e row other = expand_rows e row' other'"
proof -
  have a: "num_at other k = num_at other' k" "num_at_or other k d = num_at_or other' k d" "flag_at other k = flag_at other' k"
    if "k \<notin> {''reject_reason'', ''stream_status'', ''request_conversion'', ''admin_info'', ''cache_ratio''}" for k d
    using o [OF that] by (simp_all add: num_at_def num_at_or_def flag_at_def)
  have b: "num_at row k = num_at row' k" if "k \<notin> {''channel'', ''channel_name'', ''other''}" for k
    using r [OF that] by (simp add: num_at_def)
  have base: "price_at other = price_at other'" "own_ratio_at other = own_ratio_at other'" "completion_at other = completion_at other'"
    "creation_ratio_at other ''cache_creation_ratio_5m'' = creation_ratio_at other' ''cache_creation_ratio_5m''"
    "creation_ratio_at other ''cache_creation_ratio_1h'' = creation_ratio_at other' ''cache_creation_ratio_1h''"
    by (simp_all add: price_at_def own_ratio_at_def completion_at_def creation_ratio_at_def o a)
  have args1: "log_args m other = log_args m other'" for m
    by (simp add: log_args_def base a c)
  have args2: "claude_args row other = claude_args row' other'"
    by (simp add: claude_args_def base a b c)
  have args3: "audio_args other = audio_args other'"
    by (simp add: audio_args_def base a c)
  have args4: "model_args row other = model_args row' other'"
    by (simp add: model_args_def base a b c)
  have q: "request_rows e row other = request_rows e row' other'"
    using admin by (cases "le_admin e") (simp_all add: request_rows_def row_if_def o a r)
  have t: "log_content e row other = log_content e row' other'"
    by (simp add: log_content_def get_prop_opt n a args1 args2)
  have p: "billing_process e row other = billing_process e row' other'"
    by (simp add: billing_process_def isTaskLog_def renderTaskBillingProcess_def o a r args2 args3 args4)
  have v: "isViolationFeeLog other = isViolationFeeLog other'"
    by (simp add: isViolationFeeLog_def o a)
  have j: "row_if (le_admin e \<and> flag_at other ''reject_reason'') m (Shown (opt_prop other (js ''reject_reason''))) =
      row_if (le_admin e \<and> flag_at other' ''reject_reason'') m (Shown (opt_prop other' (js ''reject_reason'')))" for m
    using admin by (cases "le_admin e") (simp_all add: row_if_def flag_at_def)
  have "consume_rows e row other = consume_rows e row' other'"
    by (simp add: consume_rows_def t p v j o a r)
  moreover have "refund_rows e row other = refund_rows e row' other'"
    by (simp add: refund_rows_def row_if_def o a r)
  moreover have "stream_rows e other = stream_rows e other'" "admin_rows e row other = admin_rows e row' other'"
    using admin by (cases "le_admin e"; simp add: stream_rows_def admin_rows_def flag_at_def)+
  moreover have "override_rows e other = override_rows e other'" "subscription_rows e other = subscription_rows e other'"
    by (simp_all add: override_rows_def subscription_rows_def settlement_lines_def o)
  ultimately show ?thesis by (simp add: expand_rows_def q)
qed

text \<open>
  Two rows of the server are the same for a user: they agree but for the channel and the raw text of the column \<open>other\<close>, and
  what the columns hold agrees but for the fields of administrators.
\<close>

definition same_for_user :: "jsobj \<Rightarrow> jsobj \<Rightarrow> bool" where
  "same_for_user row row' \<longleftrightarrow> same_but ADMIN_ROW_FIELDS (JObj row) (JObj row') \<and>
     (\<exists>other other'. getLogOther (get_own row (js ''other'')) = Inr other \<and>
       getLogOther (get_own row' (js ''other'')) = Inr other' \<and> same_but ADMIN_OTHER_FIELDS other other')"

lemma expand_rows_user:
  assumes "\<not> le_admin e" "same_but ADMIN_ROW_FIELDS row row'" "same_but ADMIN_OTHER_FIELDS other other'"
  shows "expand_rows e row other = expand_rows e row' other'"
proof (rule expand_rows_cong)
  show "opt_prop row (js k) = opt_prop row' (js k)" if "k \<notin> {''channel'', ''channel_name'', ''other''}" for k
    using assms(2) that by (auto simp: same_but_def ADMIN_ROW_FIELDS_def)
  show "opt_prop other (js k) = opt_prop other' (js k)"
    if "k \<notin> {''reject_reason'', ''stream_status'', ''request_conversion'', ''admin_info'', ''cache_ratio''}" for k
    using assms(3) that by (auto simp: same_but_def ADMIN_OTHER_FIELDS_def)
  show "num_at_or other ''cache_ratio'' 1 = num_at_or other' ''cache_ratio'' 1"
    using assms(3) by (simp add: same_but_def ADMIN_OTHER_FIELDS_def num_at_or_def)
qed (use assms in \<open>auto simp: same_but_def\<close>)

lemma same_but_obj_set: "same_but hidden (JObj ob) (JObj ob') \<Longrightarrow> same_but hidden (JObj (obj_set k v ob)) (JObj (obj_set k v ob'))"
  by (auto simp: same_but_def opt_prop_obj get_own_obj_set nullish_def)

definition keyed_details :: "jsobj \<times> detail_rows \<Rightarrow> jstring \<times> detail_rows" where
  "keyed_details p = (val_text (get_own (fst p) (js ''key'')), snd p)"

lemma format_log_user:
  assumes "\<not> le_admin e" "same_for_user row row'"
  shows "rbind (format_log e local_date row) (\<lambda>p. Inr (keyed_details p)) =
    rbind (format_log e local_date row') (\<lambda>p. Inr (keyed_details p))"
proof -
  obtain other other' where o: "getLogOther (get_own row (js ''other'')) = Inr other"
    "getLogOther (get_own row' (js ''other'')) = Inr other'" "same_but ADMIN_OTHER_FIELDS other other'"
    and r: "same_but ADMIN_ROW_FIELDS (JObj row) (JObj row')"
    using assms(2) by (auto simp: same_for_user_def)
  have same: "get_own row (js k) = get_own row' (js k)" if "k \<notin> {''channel'', ''channel_name'', ''other''}" for k
    using r that by (auto simp: same_but_def ADMIN_ROW_FIELDS_def opt_prop_obj)
  define T where "T = JStr (timestamp2string local_date (num_at (JObj row) ''created_at''))"
  define stamped where
    "stamped ob = obj_set (js ''key'') (get_own row (js ''id'')) (obj_set (js ''timestamp2string'') T ob)" for ob
  have T: "T = JStr (timestamp2string local_date (num_at (JObj row') ''created_at''))"
    by (simp add: T_def num_at_def opt_prop_obj same)
  have f: "format_log e local_date row = rbind (expand_rows e (JObj (stamped row)) other) (\<lambda>rows. Inr (stamped row, rows))"
    by (simp add: format_log_def Let_def o T_def stamped_def get_own_obj_set)
  have f': "format_log e local_date row' = rbind (expand_rows e (JObj (stamped row')) other') (\<lambda>rows. Inr (stamped row', rows))"
    by (simp add: format_log_def Let_def o T stamped_def get_own_obj_set same)
  have "expand_rows e (JObj (stamped row)) other = expand_rows e (JObj (stamped row')) other'"
    unfolding stamped_def by (intro expand_rows_user same_but_obj_set assms r o)
  moreover have "get_own (stamped row) (js ''key'') = get_own (stamped row') (js ''key'')"
    by (simp add: stamped_def get_own_obj_set)
  ultimately show ?thesis
    unfolding f f' by (cases "expand_rows e (JObj (stamped row')) other'") (simp_all add: keyed_details_def)
qed

lemma res_list_user:
  assumes "\<not> le_admin e" "list_all2 same_for_user logs logs'"
  shows "rbind (res_list (map (format_log e local_date) logs)) (\<lambda>ps. Inr (map keyed_details ps)) =
    rbind (res_list (map (format_log e local_date) logs')) (\<lambda>ps. Inr (map keyed_details ps))"
  using assms(2)
proof (induction rule: list_all2_induct)
  case (Cons row logs row' logs')
  show ?case
    using format_log_user [OF assms(1) Cons.hyps(1), of local_date] Cons.IH
    by (cases "format_log e local_date row"; cases "format_log e local_date row'";
      cases "res_list (map (format_log e local_date) logs)"; cases "res_list (map (format_log e local_date) logs')") simp_all
qed simp

lemma setLogsFormat_details:
  "rbind (setLogsFormat e local_date logs) (\<lambda>p. Inr (snd p)) =
   rbind (rbind (res_list (map (format_log e local_date) logs)) (\<lambda>ps. Inr (map keyed_details ps)))
     (\<lambda>ks. Inr (foldl (\<lambda>expand (key, rows). obj_set key rows expand) [] ks))"
  by (cases "res_list (map (format_log e local_date) logs)")
    (simp_all add: setLogsFormat_def foldl_map keyed_details_def case_prod_unfold)

text \<open>
  C7. The details of a page of logs shown to a user who is no administrator do not depend on the channels of the requests,
  on why they were rejected, on how their streams ended, on their conversions, or on the server's notes for administrators:
  two pages whose rows differ only in these, and so in the raw text of the column \<open>other\<close>, have the same details.
\<close>

theorem users_see_no_channel:
  assumes "\<not> le_admin e" "list_all2 same_for_user logs logs'"
  shows "rbind (setLogsFormat e local_date logs) (\<lambda>p. Inr (snd p)) = rbind (setLogsFormat e local_date logs') (\<lambda>p. Inr (snd p))"
  unfolding setLogsFormat_details res_list_user [OF assms] ..

definition noon :: local_time where
  "noon timestamp = (2024, 1, 2, 12, 0, 0)"

definition plain_user_env :: log_env where
  "plain_user_env = \<lparr>le_t = \<lambda>key vs. key, le_store = (\<lambda>_. None), le_admin = False, le_mode = M_PRICE\<rparr>"

definition rejected_row :: jsobj where
  "rejected_row = [(js ''id'', JNum (Num 1)), (js ''type'', JNum (Num 2)), (js ''channel'', JNum (Num 7)),
     (js ''other'', JStr (js ''{\"reject_reason\":\"x\",\"admin_info\":\"y\"}''))]"

definition ordinary_row :: jsobj where
  "ordinary_row = [(js ''id'', JNum (Num 1)), (js ''type'', JNum (Num 2)), (js ''other'', JStr (js ''{}''))]"

theorem users_see_no_channel_witness:
  "rbind (setLogsFormat plain_user_env noon [rejected_row]) (\<lambda>p. Inr (snd p)) =
   rbind (setLogsFormat plain_user_env noon [ordinary_row]) (\<lambda>p. Inr (snd p))"
proof (rule users_see_no_channel)
  have "json_parse (js ''{\"reject_reason\":\"x\",\"admin_info\":\"y\"}'') =
      Some (JObj [(js ''reject_reason'', JStr (js ''x'')), (js ''admin_info'', JStr (js ''y''))])" by code_simp
  moreover have "json_parse (js ''{}'') = Some (JObj [])" by code_simp
  ultimately have "getLogOther (get_own rejected_row (js ''other'')) =
      Inr (JObj [(js ''reject_reason'', JStr (js ''x'')), (js ''admin_info'', JStr (js ''y''))])"
    "getLogOther (get_own ordinary_row (js ''other'')) = Inr (JObj [])"
    by (simp_all add: rejected_row_def ordinary_row_def get_own_def getLogOther_def)
  moreover have "same_but ADMIN_OTHER_FIELDS (JObj [(js ''reject_reason'', JStr (js ''x'')), (js ''admin_info'', JStr (js ''y''))]) (JObj [])"
    by (auto simp: same_but_def ADMIN_OTHER_FIELDS_def nullish_def opt_prop_obj get_own_def)
  moreover have "same_but ADMIN_ROW_FIELDS (JObj rejected_row) (JObj ordinary_row)"
    by (auto simp: same_but_def ADMIN_ROW_FIELDS_def nullish_def opt_prop_obj get_own_def rejected_row_def ordinary_row_def)
  ultimately show "list_all2 same_for_user [rejected_row] [ordinary_row]" by (auto simp: same_for_user_def)
qed (simp add: plain_user_env_def)

subsection \<open>Reading a page\<close>

lemma getLogOther_total: "\<exists>v. getLogOther w = Inr v"
proof (cases w)
  case (JArr vs)
  then show ?thesis by (simp add: getLogOther_def)
next
  case (JObj ob)
  then show ?thesis by (simp add: getLogOther_def)
qed (auto simp: getLogOther_def)

text \<open>A row is readable unless it is a consumption whose \<open>other\<close> column reads as \<open>null\<close>.\<close>

definition readable :: "jsobj \<Rightarrow> bool" where
  "readable row \<longleftrightarrow> get_own row (js ''type'') = LOG_CONSUME \<longrightarrow> getLogOther (get_own row (js ''other'')) \<noteq> Inr JNull"

lemma json_parse_not_undef: "json_parse t \<noteq> Some JUndef"
  using json_parse_readable by fastforce

lemma getLogOther_not_undef: "getLogOther w \<noteq> Inr JUndef"
proof -
  have "(case json_parse t of Some v \<Rightarrow> v | None \<Rightarrow> JNull) \<noteq> JUndef" for t
    using json_parse_not_undef [of t] by (cases "json_parse t") auto
  then show ?thesis by (cases w) (auto simp: getLogOther_def)
qed

lemma expand_rows_Inr_iff:
  "(\<exists>rows. expand_rows e row other = Inr rows) \<longleftrightarrow> (log_type row = LOG_CONSUME \<longrightarrow> \<not> nullish other)"
proof -
  have "\<not> flag_at other k" if "nullish other" for k
    using that by (auto simp: nullish_def flag_at_def opt_prop_def get_prop_def)
  then show ?thesis
    by (auto simp: expand_rows_def consume_rows_def log_content_def get_prop_opt)
qed


lemma format_log_Inr_iff: "(\<exists>p. format_log e local_date row = Inr p) \<longleftrightarrow> readable row"
proof -
  obtain v where v: "getLogOther (get_own row (js ''other'')) = Inr v" using getLogOther_total by blast
  have n: "nullish v \<longleftrightarrow> v = JNull" using getLogOther_not_undef [of "get_own row (js ''other'')"] v by (auto simp: nullish_def)
  define row' where "row' = obj_set (js ''key'') (get_own row (js ''id''))
    (obj_set (js ''timestamp2string'') (JStr (timestamp2string local_date (num_at (JObj row) ''created_at''))) row)"
  have "(\<exists>p. format_log e local_date row = Inr p) \<longleftrightarrow> (\<exists>rows. expand_rows e (JObj row') v = Inr rows)"
    by (cases "expand_rows e (JObj row') v") (simp_all add: format_log_def Let_def v row'_def)
  also have "\<dots> \<longleftrightarrow> readable row"
    unfolding expand_rows_Inr_iff by (simp add: row'_def opt_prop_obj readable_def v n)
  finally show ?thesis .
qed

lemma res_list_defined_iff: "(\<exists>ys. res_list (map f xs) = Inr ys) \<longleftrightarrow> (\<forall>x \<in> set xs. \<exists>y. f x = Inr y)"
  by (induction xs) (auto simp: rbind_Inr_iff)

lemma setLogsFormat_Inr_iff: "(\<exists>p. setLogsFormat e local_date logs = Inr p) \<longleftrightarrow> (\<forall>row \<in> set logs. readable row)"
proof -
  have "(\<exists>p. setLogsFormat e local_date logs = Inr p) \<longleftrightarrow> (\<exists>ys. res_list (map (format_log e local_date) logs) = Inr ys)"
    by (auto simp: setLogsFormat_def rbind_Inr_iff)
  then show ?thesis by (simp only: res_list_defined_iff format_log_Inr_iff)
qed

text \<open>
  C39. One consumption row whose \<open>other\<close> column is not JSON blocks the whole page: \<open>getLogOther\<close> handles the failure,
  but the row is then read without a check. The rows shown do not change and the table stays in its loading state.
\<close>

theorem one_bad_row_blocks_page:
  assumes "lr_success r" "row \<in> set (lr_items r)" "get_own row (js ''type'') = JNum (Num 2)"
    and "get_own row (js ''other'') = JStr s" "s \<noteq> []" "json_parse s = None"
  shows "fst (logs_loaded e local_date r p) \<noteq> None \<and> lg_logs (snd (logs_loaded e local_date r p)) = lg_logs p \<and>
    lg_loading (snd (logs_loaded e local_date r p)) = lg_loading p"
proof -
  have "\<not> readable row" using assms(3-6) by (simp add: readable_def LOG_CONSUME_def getLogOther_def)
  then have "\<nexists>q. setLogsFormat e local_date (lr_items r) = Inr q" using assms(2) setLogsFormat_Inr_iff by blast
  then obtain err where "setLogsFormat e local_date (lr_items r) = Inl err"
    by (cases "setLogsFormat e local_date (lr_items r)") auto
  then show ?thesis using assms(1) by (simp add: logs_loaded_def Let_def)
qed

definition broken_reply :: logs_reply where
  "broken_reply = \<lparr>lr_success = True, lr_message = JStr [],
     lr_items = [[(js ''id'', JNum (Num 1)), (js ''type'', JNum (Num 1))],
       [(js ''id'', JNum (Num 2)), (js ''type'', JNum (Num 2)), (js ''other'', JStr (js ''{''))]],
     lr_page = JNum (Num 1), lr_page_size = JNum (Num 10), lr_total = JNum (Num 2)\<rparr>"

definition plain_env :: log_env where
  "plain_env = \<lparr>le_t = \<lambda>key vs. key, le_store = (\<lambda>_. None), le_admin = True, le_mode = M_PRICE\<rparr>"

theorem one_bad_row_blocks_page_witness:
  "lg_logs (snd (logs_loaded plain_env noon broken_reply (logs_init\<lparr>lg_loading := True\<rparr>))) = [] \<and>
   lg_loading (snd (logs_loaded plain_env noon broken_reply (logs_init\<lparr>lg_loading := True\<rparr>)))"
proof -
  have "json_parse (js ''{'') = None" by code_simp
  then show ?thesis
    using one_bad_row_blocks_page [of broken_reply "lr_items broken_reply ! 1" "js ''{''" plain_env noon "logs_init\<lparr>lg_loading := True\<rparr>"]
    by (simp add: broken_reply_def logs_init_def get_own_def)
qed

text \<open>The details of every row are found under its key, if the keys differ.\<close>

lemma map_of_put_all:
  assumes "distinct (map (val_text \<circ> (\<lambda>l. get_own l (js ''key'')) \<circ> fst) formatted)" "(l, rows) \<in> set formatted"
  shows "map_of (foldl (\<lambda>expand (row, rows). obj_set (val_text (get_own row (js ''key''))) rows expand) acc formatted)
    (val_text (get_own l (js ''key''))) = Some rows"
  using assms
proof (induction formatted arbitrary: acc rule: rev_induct)
  case (snoc x xs)
  then show ?case by (cases x) (force simp: map_of_obj_set)
qed simp


lemma format_log_fields:
  assumes "format_log e local_date row = Inr (l, rows)"
  shows "get_own l (js ''id'') = get_own row (js ''id'')" "get_own l (js ''key'') = get_own row (js ''id'')"
    and "rbind (getLogOther (get_own l (js ''other''))) (expand_rows e (JObj l)) = Inr rows"
  using assms by (auto simp: format_log_def Let_def rbind_Inr_iff)

text \<open>
  C8. A page whose rows are readable is shown: the rows keep their order, the details of each, found under its key,
  are those of the row, and the table is no longer loading. The ids of the rows differ.
\<close>

theorem readable_page_shown:
  assumes "lr_success r" "\<forall>row \<in> set (lr_items r). readable row"
    and "distinct (map (\<lambda>row. val_text (get_own row (js ''id''))) (lr_items r))"
    and "logs_loaded e local_date r p = (err, p')"
  shows "err = None \<and> \<not> lg_loading p' \<and>
    map (\<lambda>row. get_own row (js ''id'')) (lg_logs p') = map (\<lambda>row. get_own row (js ''id'')) (lr_items r) \<and>
    (\<forall>row \<in> set (lg_logs p'). rbind (getLogOther (get_own row (js ''other''))) (expand_rows e (JObj row)) =
      Inr (lookup_rows (val_text (get_own row (js ''key''))) (lg_expand p')))"
proof -
  obtain logs expand where f: "setLogsFormat e local_date (lr_items r) = Inr (logs, expand)"
    using assms(2) setLogsFormat_Inr_iff by (metis surj_pair)
  then obtain formatted where l: "list_all2 (\<lambda>x y. format_log e local_date x = Inr y) (lr_items r) formatted"
    and logs: "logs = map fst formatted"
    and expand: "expand = foldl (\<lambda>expand (row, rows). obj_set (val_text (get_own row (js ''key''))) rows expand) [] formatted"
    by (auto simp: setLogsFormat_def rbind_Inr_iff res_list_Inr_iff)
  have ids: "map (\<lambda>p. get_own (fst p) (js ''id'')) formatted = map (\<lambda>row. get_own row (js ''id'')) (lr_items r)"
    "map (\<lambda>p. get_own (fst p) (js ''key'')) formatted = map (\<lambda>row. get_own row (js ''id'')) (lr_items r)"
    "\<forall>(row, rows) \<in> set formatted. rbind (getLogOther (get_own row (js ''other''))) (expand_rows e (JObj row)) = Inr rows"
    using l by (induction rule: list_all2_induct) (auto simp: format_log_fields)
  have "map (val_text \<circ> (\<lambda>l. get_own l (js ''key'')) \<circ> fst) formatted = map val_text (map (\<lambda>p. get_own (fst p) (js ''key'')) formatted)"
    by simp
  then have d: "distinct (map (val_text \<circ> (\<lambda>l. get_own l (js ''key'')) \<circ> fst) formatted)"
    using assms(3) unfolding ids(2) by (simp add: comp_def)
  have "rbind (getLogOther (get_own row (js ''other''))) (expand_rows e (JObj row)) =
      Inr (lookup_rows (val_text (get_own row (js ''key''))) expand)" if "(row, rows) \<in> set formatted" for row rows
    using map_of_put_all [OF d that, of "[]"] ids(3) that by (auto simp: lookup_rows_def expand)
  moreover have "err = None" "p' = p\<lparr>lg_activePage := lr_page r, lg_pageSize := lr_page_size r, lg_logCount := lr_total r,
      lg_expand := expand, lg_logs := logs, lg_loading := False\<rparr>"
    using assms(1,4) f by (simp_all add: logs_loaded_def Let_def)
  ultimately show ?thesis using ids(1) by (auto simp: logs comp_def)
qed

definition good_reply :: logs_reply where
  "good_reply = broken_reply\<lparr>lr_items := [[(js ''id'', JNum (Num 1)), (js ''type'', JNum (Num 1)), (js ''request_id'', JStr (js ''r''))]]\<rparr>"

theorem readable_page_shown_witness:
  "map (\<lambda>row. get_own row (js ''id'')) (lg_logs (snd (logs_loaded plain_env noon good_reply logs_init))) = [JNum (Num 1)]"
proof -
  obtain err p' where l: "logs_loaded plain_env noon good_reply logs_init = (err, p')" by force
  have "lr_success good_reply" "\<forall>row \<in> set (lr_items good_reply). readable row"
    "distinct (map (\<lambda>row. val_text (get_own row (js ''id''))) (lr_items good_reply))"
    by (simp_all add: good_reply_def broken_reply_def readable_def LOG_CONSUME_def get_own_def)
  from readable_page_shown [OF this l] show ?thesis
    unfolding l by (simp add: good_reply_def get_own_def)
qed

subsection \<open>Free cached tokens\<close>

text \<open>
  C40. A row with a cache ratio of zero, for free cached tokens, is explained as if they cost as much as other input:
  its details are those of the same row with a ratio of one.
\<close>

theorem free_cache_shown_at_full_price:
  "expand_rows e row (JObj (obj_set (js ''cache_ratio'') (JNum (Num 0)) ob)) =
   expand_rows e row (JObj (obj_set (js ''cache_ratio'') (JNum (Num 1)) ob))"
  by (rule expand_rows_cong) (auto simp: opt_prop_obj num_at_or_def js_or_def nullish_def)


subsection \<open>Addresses\<close>

text \<open>
  Different searches can send the same request: \<open>encodeURI\<close> keeps the characters that separate the parameters of
  an address, so a part of one field is read as another parameter.
\<close>

theorem searches_collide:
  "loadLogs date_parse admin (f\<lparr>lf_token_name := a, lf_model_name := b @ js ''&model_name='' @ c\<rparr>) i n ct s =
   loadLogs date_parse admin (f\<lparr>lf_token_name := a @ js ''&model_name='' @ b, lf_model_name := c\<rparr>) i n ct s"
  by (simp add: loadLogs_def logs_url_def split: option.split)

lemma percent_byte_chars:
  assumes "b < 256" "c \<in> set (percent_byte b)"
  shows "uri_kept c \<or> c = 37"
proof -
  have "b div 16 < 16" "b mod 16 < 16" using assms(1) by simp_all
  then show ?thesis using assms(2) by (auto simp: percent_byte_def uri_kept_def is_digit_def Let_def split: if_splits)
qed

lemma utf8_bytes_bound: "c < 0x110000 \<Longrightarrow> b \<in> set (utf8_bytes c) \<Longrightarrow> b < 256"
proof -
  assume c: "c < 0x110000" and b: "b \<in> set (utf8_bytes c)"
  have m: "x mod 0x40 < 0x40" for x :: nat by simp
  have "c < 0x800 \<Longrightarrow> c div 0x40 < 0x20" "c < 0x10000 \<Longrightarrow> c div 0x1000 < 0x10" "c div 0x40000 < 5" using c by auto
  then show "b < 256" using b m [of c] m [of "c div 0x40"] m [of "c div 0x1000"]
    by (auto simp: utf8_bytes_def split: if_splits)
qed

lemma percent_char_chars: "c < 0x110000 \<Longrightarrow> d \<in> set (percent_char c) \<Longrightarrow> uri_kept d \<or> d = 37"
  using percent_byte_chars utf8_bytes_bound by (auto simp: percent_char_def)

text \<open>An encoded address consists of characters allowed in addresses and of the percent sign.\<close>

theorem encoded_address_chars:
  assumes "encodeURI s = Some r" "\<forall>c \<in> set s. c < 0x10000"
  shows "\<forall>d \<in> set r. uri_kept d \<or> d = 37"
  using assms
proof (induction s arbitrary: r rule: encodeURI.induct)
  case (2 c cs)
  show ?case
  proof (cases "uri_kept c")
    case True
    then show ?thesis using 2 by auto
  next
    case kept: False
    show ?thesis
    proof (cases "0xD800 \<le> c \<and> c \<le> 0xDFFF")
      case False
      then obtain r' where r': "encodeURI cs = Some r'" "r = percent_char c @ r'" using 2(4) kept by auto
      moreover have "c < 0x110000" using 2(5) by simp
      moreover have "\<not> (0xDC00 \<le> c \<and> c \<le> 0xDFFF)" "\<not> (0xD800 \<le> c \<and> c \<le> 0xDBFF)" "\<forall>c \<in> set cs. c < 0x10000"
        using False 2(5) by auto
      then have "\<forall>d \<in> set r'. uri_kept d \<or> d = 37" by (rule 2(3) [OF kept _ _ r'(1)])
      ultimately show ?thesis using percent_char_chars [of c] by auto
    next
      case True
      then obtain d ds r' where d: "cs = d # ds" "\<not> (0xDC00 \<le> c \<and> c \<le> 0xDFFF)" "0xD800 \<le> c \<and> c \<le> 0xDBFF"
        "0xDC00 \<le> d \<and> d \<le> 0xDFFF" "encodeURI ds = Some r'"
        "r = percent_char ((c - 0xD800) * 0x400 + (d - 0xDC00) + 0x10000) @ r'"
        using 2(4) kept by (auto split: list.splits if_splits)
      have "(c - 0xD800) * 0x400 + (d - 0xDC00) + 0x10000 < 0x110000" using d(3,4) by arith
      note percent_char_chars [OF this]
      moreover have "\<forall>d \<in> set r'. uri_kept d \<or> d = 37" using 2(2) [OF kept d(2,3,1,4,5)] 2(5) d(1) by simp
      ultimately show ?thesis unfolding d(6) by auto
    qed
  qed
qed simp

theorem encoded_address_chars_witness:
  "encodeURI [0x4E2D, 32, 97] = Some (js ''%E4%B8%AD%20a'') \<and> (\<forall>d \<in> set (js ''%E4%B8%AD%20a''). uri_kept d \<or> d = 37)"
proof -
  have e: "encodeURI [0x4E2D, 32, 97] = Some (js ''%E4%B8%AD%20a'')"
    by (simp add: percent_char_def utf8_bytes_def percent_byte_def uri_kept_def is_digit_def js_def Let_def)
  then show ?thesis using encoded_address_chars [OF e] by simp
qed

end
