(* ===== verification/ChannelForm.thy ===== *)
theory ChannelForm
  imports StatusCodeRiskGuard ChannelTable QuotaDisplay
begin

text \<open>
  The dialog that creates and edits a channel (\<open>components/table/channels/modals/EditChannelModal.jsx\<close>): reading the
  channel the server sends into the fields of the form, and submitting the form. A submission asks the user up to two
  questions; the answers are arguments, what it reads from the state is that of the render it was started in. It either
  stops with a message, is given up by the user, throws, or sends one request. The fields are a JavaScript object, since
  the code passes on fields it does not know. Parameters are the translation, the messages of \<open>JSON.parse\<close> and the values the form
  library returns. The models that the user adds in answer to a question also go into the form, which is not part of the result;
  of several key files that cannot be read, the first is reported.
\<close>

subsection \<open>Steps of a submission\<close>

datatype stop = Info jstring | Fail jstring | GivenUp | Thrown exn

type_synonym 'a step = "stop + 'a"

definition sbind :: "'a step \<Rightarrow> ('a \<Rightarrow> 'b step) \<Rightarrow> 'b step" where
  "sbind m f = (case m of Inl s \<Rightarrow> Inl s | Inr a \<Rightarrow> f a)"

definition require :: "bool \<Rightarrow> stop \<Rightarrow> unit step" where
  "require b s = (if b then Inr () else Inl s)"

definition lift_res :: "'a res \<Rightarrow> 'a step" where
  "lift_res r = (case r of Inl e \<Rightarrow> Inl (Thrown e) | Inr a \<Rightarrow> Inr a)"

named_theorems step_iff \<open>when a step goes on\<close>

lemma sbind_simps [simp]: "sbind (Inl s) f = Inl s" "sbind (Inr a) f = f a"
  by (simp_all add: sbind_def)

lemma sbind_Inr_iff [step_iff]: "sbind m f = Inr b \<longleftrightarrow> (\<exists>a. m = Inr a \<and> f a = Inr b)"
  by (cases m) auto

lemma require_Inr_iff [step_iff]: "require b s = Inr u \<longleftrightarrow> b"
  by (simp add: require_def)

lemma lift_res_Inr_iff [step_iff]: "lift_res r = Inr a \<longleftrightarrow> r = Inr a"
  by (cases r) (auto simp: lift_res_def)

lemma require_True [simp]: "require True s = Inr ()"
  by (simp add: require_def)

lemma lift_res_Inr [simp]: "lift_res (Inr a) = Inr a"
  by (simp add: lift_res_def)

abbreviation field :: "jsobj \<Rightarrow> string \<Rightarrow> jsval" where "field ob k \<equiv> get_own ob (js k)"

text \<open>\<open>v || ''\<close> where a method of strings is called next.\<close>

definition text_or_empty :: "jsval \<Rightarrow> jstring res" where
  "text_or_empty v = (case js_or v (JStr []) of JStr s \<Rightarrow> Inr s | _ \<Rightarrow> Inl TypeError)"

definition blank_field :: "jsobj \<Rightarrow> string \<Rightarrow> bool res" where
  "blank_field l k = rbind (text_or_empty (field l k)) (\<lambda>s. Inr (trim s = []))"

definition array_join :: "jsval \<Rightarrow> jstring res" where
  "array_join v = (case v of
       JArr vs \<Rightarrow> Inr (join [44] (map (\<lambda>v. if nullish v then [] else val_text v) vs))
     | _ \<Rightarrow> Inl TypeError)"

subsection \<open>The state a submission reads\<close>

record dialog =
  dg_isEdit :: bool
  dg_channelId :: jsval
  dg_inputs :: jsobj
  dg_batch :: bool
  dg_multiToSingle :: bool
  dg_multiKeyMode :: jsval
  dg_isMultiKeyChannel :: bool
  dg_keyMode :: jstring
  dg_useManualInput :: bool
  dg_vertexKeys :: "jsval list"
  dg_vertexFiles :: "jstring option list"
  dg_initialModels :: "jstring list"
  dg_initialModelMapping :: jsval
  dg_initialStatusCodeMapping :: jsval

record form_env =
  fe_t :: i18n
  fe_json_error :: "jstring \<Rightarrow> jstring"

abbreviation tf :: "form_env \<Rightarrow> jstring \<Rightarrow> jstring" where "tf e m \<equiv> fe_t e m []"

datatype missing_action = MA_cancel | MA_submit | MA_add

record user_answers =
  an_missing :: missing_action
  an_risk :: bool

datatype channel_request = PutChannel jsobj | PostChannel jstring jsval jsobj

abbreviation type_is :: "jsobj \<Rightarrow> rat \<Rightarrow> bool" where "type_is l n \<equiv> field l ''type'' = JNum (Num n)"

subsection \<open>Keys\<close>

definition MSG_codex_batch :: jstring where "MSG_codex_batch = js ''Codex '' @ [0x6E20, 0x9053, 0x4E0D, 0x652F, 0x6301, 0x6279, 0x91CF, 0x521B, 0x5EFA]"
definition MSG_enter_key :: jstring where "MSG_enter_key = [0x8BF7, 0x8F93, 0x5165, 0x5BC6, 0x94A5, 0xFF01]"
definition MSG_key_json :: jstring where "MSG_key_json = [0x5BC6, 0x94A5, 0x5FC5, 0x987B, 0x662F, 0x5408, 0x6CD5, 0x7684] @ js '' JSON '' @ [0x683C, 0x5F0F, 0xFF01]"
definition MSG_key_object :: jstring where "MSG_key_object = [0x5BC6, 0x94A5, 0x5FC5, 0x987B, 0x662F] @ js '' JSON '' @ [0x5BF9, 0x8C61]"
definition MSG_key_token :: jstring where "MSG_key_token = [0x5BC6, 0x94A5] @ js '' JSON '' @ [0x5FC5, 0x987B, 0x5305, 0x542B] @ js '' access_token''"
definition MSG_key_account :: jstring where "MSG_key_account = [0x5BC6, 0x94A5] @ js '' JSON '' @ [0x5FC5, 0x987B, 0x5305, 0x542B] @ js '' account_id''"
definition MSG_key_format :: jstring where "MSG_key_format = [0x5BC6, 0x94A5, 0x683C, 0x5F0F, 0x65E0, 0x6548, 0xFF0C, 0x8BF7, 0x8F93, 0x5165, 0x6709, 0x6548, 0x7684] @ js '' JSON '' @ [0x683C, 0x5F0F, 0x5BC6, 0x94A5]"
definition MSG_key_files :: jstring where "MSG_key_files = [0x89E3, 0x6790, 0x5BC6, 0x94A5, 0x6587, 0x4EF6, 0x5931, 0x8D25] @ js '': {{msg}}''"
definition MSG_upload_key :: jstring where "MSG_upload_key = [0x8BF7, 0x4E0A, 0x4F20, 0x5BC6, 0x94A5, 0x6587, 0x4EF6, 0xFF01]"
definition MSG_name_and_key :: jstring where "MSG_name_and_key = [0x8BF7, 0x586B, 0x5199, 0x6E20, 0x9053, 0x540D, 0x79F0, 0x548C, 0x6E20, 0x9053, 0x5BC6, 0x94A5, 0xFF01]"
definition MSG_choose_model :: jstring where "MSG_choose_model = [0x8BF7, 0x81F3, 0x5C11, 0x9009, 0x62E9, 0x4E00, 0x4E2A, 0x6A21, 0x578B, 0xFF01]"
definition MSG_enter_url :: jstring where "MSG_enter_url = [0x8BF7, 0x8F93, 0x5165] @ js ''API'' @ [0x5730, 0x5740, 0xFF01]"
definition MSG_mapping_json :: jstring where "MSG_mapping_json = [0x6A21, 0x578B, 0x6620, 0x5C04, 0x5FC5, 0x987B, 0x662F, 0x5408, 0x6CD5, 0x7684] @ js '' JSON '' @ [0x683C, 0x5F0F, 0xFF01]"
definition MSG_bad_codes :: jstring where "MSG_bad_codes = [0x72B6, 0x6001, 0x7801, 0x590D, 0x5199, 0x5305, 0x542B, 0x65E0, 0x6548, 0x7684, 0x72B6, 0x6001, 0x7801]"

text \<open>The credentials of a Codex channel: an object with a token and an account.\<close>

definition codex_credentials :: "form_env \<Rightarrow> jstring \<Rightarrow> jstring step" where
  "codex_credentials e rawKey = (case json_parse rawKey of
       None \<Rightarrow> Inl (Info (tf e MSG_key_json))
     | Some (JObj ob) \<Rightarrow>
         (case (trim_string (js_or (field ob ''access_token'') (JStr [])), trim_string (js_or (field ob ''account_id'') (JStr []))) of
            (Inr accessToken, Inr accountId) \<Rightarrow>
              if accessToken = [] then Inl (Info (tf e MSG_key_token))
              else if accountId = [] then Inl (Info (tf e MSG_key_account))
              else Inr (json_str (JObj ob))
          | _ \<Rightarrow> Inl (Info (tf e MSG_key_json)))
     | Some _ \<Rightarrow> Inl (Info (tf e MSG_key_object)))"

definition codex_key :: "form_env \<Rightarrow> 'a dialog_scheme \<Rightarrow> jsobj \<Rightarrow> jsobj step" where
  "codex_key e d l =
     (if \<not> type_is l 57 then Inr l
      else sbind (require (\<not> dg_batch d) (Info (tf e MSG_codex_batch))) (\<lambda>_.
        sbind (lift_res (text_or_empty (field l ''key''))) (\<lambda>key.
          let rawKey = trim key in
          sbind (require (dg_isEdit d \<or> rawKey \<noteq> []) (Info (tf e MSG_enter_key))) (\<lambda>_.
            if rawKey = [] then Inr l
            else sbind (codex_credentials e rawKey) (\<lambda>k. Inr (obj_set (js ''key'') (JStr k) l))))))"

text \<open>The key files of a Vertex channel, read again if their keys are not known yet.\<close>

definition vertex_file_keys :: "form_env \<Rightarrow> 'a dialog_scheme \<Rightarrow> jsval list step" where
  "vertex_file_keys e d =
     (if dg_vertexKeys d = [] \<and> dg_vertexFiles d \<noteq> [] then
        (case filter (\<lambda>s. json_parse s = None) (map the (filter (\<lambda>f. f \<noteq> None) (dg_vertexFiles d))) of
           bad # _ \<Rightarrow> Inl (Fail (fe_t e MSG_key_files [(js ''msg'', JStr (fe_json_error e bad))]))
         | [] \<Rightarrow> Inr (filter truthy (map (\<lambda>f. case f of None \<Rightarrow> JNull | Some s \<Rightarrow> the (json_parse s)) (dg_vertexFiles d))))
      else Inr (dg_vertexKeys d))"

definition vertex_key :: "form_env \<Rightarrow> 'a dialog_scheme \<Rightarrow> jsobj \<Rightarrow> jsobj step" where
  "vertex_key e d l =
     (if \<not> type_is l 41 then Inr l
      else if js_or (field l ''vertex_key_type'') (JStr (js ''json'')) = JStr (js ''api_key'') then
        (if dg_isEdit d then Inr l
         else sbind (lift_res (blank_field l ''key'')) (\<lambda>blank. sbind (require (\<not> blank) (Info (tf e MSG_enter_key))) (\<lambda>_. Inr l)))
      else if dg_useManualInput d then
        sbind (lift_res (text_or_empty (field l ''key''))) (\<lambda>key.
          if trim key \<noteq> [] then
            (case json_parse key of
               None \<Rightarrow> Inl (Fail (tf e MSG_key_format))
             | Some parsedKey \<Rightarrow> Inr (obj_set (js ''key'') (JStr (json_str parsedKey)) l))
          else sbind (require (dg_isEdit d) (Info (tf e MSG_enter_key))) (\<lambda>_. Inr l))
      else sbind (vertex_file_keys e d) (\<lambda>keys.
        if keys = [] then sbind (require (dg_isEdit d) (Info (tf e MSG_upload_key))) (\<lambda>_. Inr (obj_delete (js ''key'') l))
        else Inr (obj_set (js ''key'') (JStr (if dg_batch d then json_str (JArr keys) else json_str (hd keys))) l)))"

text \<open>An empty key of an existing channel is not sent.\<close>

definition drop_empty_key :: "'a dialog_scheme \<Rightarrow> jsobj \<Rightarrow> jsobj step" where
  "drop_empty_key d l =
     (if \<not> dg_isEdit d then Inr (obj_delete (js ''vertex_files'') l)
      else sbind (lift_res (blank_field l ''key'')) (\<lambda>blank.
        Inr (obj_delete (js ''vertex_files'') (if blank then obj_delete (js ''key'') l else l))))"

subsection \<open>Models and status codes\<close>

definition required_fields :: "form_env \<Rightarrow> 'a dialog_scheme \<Rightarrow> jsobj \<Rightarrow> jsval list step" where
  "required_fields e d l =
     sbind (require (dg_isEdit d \<or> truthy (field l ''name'') \<and> truthy (field l ''key'')) (Info (tf e MSG_name_and_key))) (\<lambda>_.
     sbind (case field l ''models'' of
         JArr (v # vs) \<Rightarrow> Inr (v # vs)
       | _ \<Rightarrow> Inl (Info (tf e MSG_choose_model))) (\<lambda>models.
     if type_is l 45
     then sbind (lift_res (blank_field l ''base_url'')) (\<lambda>blank.
       sbind (require (\<not> blank) (Info (tf e MSG_enter_url))) (\<lambda>_. Inr models))
     else Inr models))"

definition parsed_mapping :: "form_env \<Rightarrow> jsobj \<Rightarrow> jsval step" where
  "parsed_mapping e l = (case field l ''model_mapping'' of
       JStr s \<Rightarrow> if trim s = [] then Inr JNull
         else (case json_parse s of None \<Rightarrow> Inl (Info (tf e MSG_mapping_json)) | Some v \<Rightarrow> Inr v)
     | _ \<Rightarrow> Inr JNull)"

definition normalized_models :: "jsval list \<Rightarrow> jstring list res" where
  "normalized_models models =
     rbind (res_list (map text_or_empty models)) (\<lambda>ss. Inr (filter (\<lambda>s. s \<noteq> []) (map trim ss)))"

definition hasModelConfigChanged :: "'a dialog_scheme \<Rightarrow> jstring list \<Rightarrow> jsval \<Rightarrow> bool" where
  "hasModelConfigChanged d normalizedModels modelMappingStr \<longleftrightarrow>
     \<not> dg_isEdit d \<or> normalizedModels \<noteq> dg_initialModels d \<or>
     trim (val_text (js_or modelMappingStr (JStr []))) \<noteq> trim (val_text (js_or (dg_initialModelMapping d) (JStr [])))"

definition missing_models :: "jstring list \<Rightarrow> jsval \<Rightarrow> jstring list" where
  "missing_models normalizedModels mapping = (case mapping of
       JObj ob \<Rightarrow> filter (\<lambda>k. k \<noteq> [] \<and> k \<notin> set normalizedModels) (map (\<lambda>kv. trim (fst kv)) ob)
     | _ \<Rightarrow> [])"

text \<open>The models to send, after the question about redirected models that are not in the list.\<close>

definition chosen_models :: "'a dialog_scheme \<Rightarrow> user_answers \<Rightarrow> jsobj \<Rightarrow> jstring list \<Rightarrow> jsval \<Rightarrow> jstring list step" where
  "chosen_models d an l models mapping =
     (let missing = missing_models models mapping in
      if missing \<noteq> [] \<and> hasModelConfigChanged d models (field l ''model_mapping'') then
        (case an_missing an of
           MA_cancel \<Rightarrow> Inl GivenUp
         | MA_submit \<Rightarrow> Inr models
         | MA_add \<Rightarrow> Inr (js_set (models @ missing)))
      else Inr models)"

definition status_codes_ok :: "form_env \<Rightarrow> 'a dialog_scheme \<Rightarrow> user_answers \<Rightarrow> jsobj \<Rightarrow> unit step" where
  "status_codes_ok e d an l =
     sbind (lift_res (collectInvalidStatusCodeEntries (field l ''status_code_mapping''))) (\<lambda>invalid.
     sbind (require (invalid = []) (Fail (tf e MSG_bad_codes @ js '': '' @ join (js '', '') invalid))) (\<lambda>_.
     require (collectNewDisallowedStatusCodeRedirects (dg_initialStatusCodeMapping d) (field l ''status_code_mapping'') = [] \<or> an_risk an)
       GivenUp))"

subsection \<open>What is sent\<close>

definition trim_slash :: "jsobj \<Rightarrow> jsobj res" where
  "trim_slash l = (case field l ''base_url'' of
       JStr s \<Rightarrow> Inr (if s \<noteq> [] \<and> last s = 47 then obj_set (js ''base_url'') (JStr (butlast s)) l else l)
     | v \<Rightarrow> if truthy v then Inl TypeError else Inr l)"

definition channelExtraSettings :: "jsobj \<Rightarrow> jsobj" where
  "channelExtraSettings l =
     [(js ''force_format'', js_or (field l ''force_format'') (JBool False)),
      (js ''thinking_to_content'', js_or (field l ''thinking_to_content'') (JBool False)),
      (js ''proxy'', js_or (field l ''proxy'') (JStr [])),
      (js ''pass_through_body_enabled'', js_or (field l ''pass_through_body_enabled'') (JBool False)),
      (js ''system_prompt'', js_or (field l ''system_prompt'') (JStr [])),
      (js ''system_prompt_override'', js_or (field l ''system_prompt_override'') (JBool False))]"

definition is_true :: "jsval \<Rightarrow> jsval" where
  "is_true v = JBool (v = JBool True)"

definition put_flag :: "jsobj \<Rightarrow> string \<Rightarrow> jsobj \<Rightarrow> jsobj" where
  "put_flag l k ob = obj_set (js k) (is_true (field l k)) ob"

definition type_settings :: "jsobj \<Rightarrow> jsobj \<Rightarrow> jsobj" where
  "type_settings l ob =
     (let ob = (if type_is l 20 then obj_set (js ''openrouter_enterprise'') (is_true (field l ''is_enterprise_account'')) ob else ob);
          ob = (if type_is l 33 then obj_set (js ''aws_key_type'') (js_or (field l ''aws_key_type'') (JStr (js ''ak_sk''))) ob else ob);
          ob = (if type_is l 41 then obj_set (js ''vertex_key_type'') (js_or (field l ''vertex_key_type'') (JStr (js ''json''))) ob
                else obj_delete (js ''vertex_key_type'') ob);
          ob = (if type_is l 1 \<or> type_is l 14 then put_flag l ''allow_service_tier'' ob else ob);
          ob = (if type_is l 1 then put_flag l ''allow_include_obfuscation'' (put_flag l ''allow_safety_identifier''
                  (put_flag l ''disable_store'' ob)) else ob)
      in if type_is l 14 then put_flag l ''claude_beta_query'' (put_flag l ''allow_inference_geo'' ob) else ob)"

definition ignored_models :: "jsobj \<Rightarrow> jstring list" where
  "ignored_models l =
     js_set (filter (\<lambda>s. s \<noteq> []) (map trim (split_on 44
       (val_text (js_or (field l ''upstream_model_update_ignored_models'') (JStr []))))))"

definition update_settings :: "jsobj \<Rightarrow> jsobj \<Rightarrow> jsobj" where
  "update_settings l ob =
     (let checked = (field l ''upstream_model_update_check_enabled'' = JBool True);
          ob = put_flag l ''upstream_model_update_check_enabled'' ob;
          ob = obj_set (js ''upstream_model_update_auto_sync_enabled'')
            (JBool (checked \<and> field l ''upstream_model_update_auto_sync_enabled'' = JBool True)) ob;
          ob = obj_set (js ''upstream_model_update_ignored_models'') (JArr (map JStr (ignored_models l))) ob;
          ob = (case field ob ''upstream_model_update_last_detected_models'' of
              JArr _ \<Rightarrow> if checked then ob else obj_set (js ''upstream_model_update_last_detected_models'') (JArr []) ob
            | _ \<Rightarrow> obj_set (js ''upstream_model_update_last_detected_models'') (JArr []) ob)
      in case field ob ''upstream_model_update_last_check_time'' of
           JNum _ \<Rightarrow> ob
         | _ \<Rightarrow> obj_set (js ''upstream_model_update_last_check_time'') (JNum (Num 0)) ob)"

text \<open>
  The settings so far; a text that is not JSON counts as empty. Assigning to a property of a value that is neither
  object nor array is a TypeError; those of an array are not printed.
\<close>

definition sent_settings :: "jsobj \<Rightarrow> jsval res" where
  "sent_settings l =
     (case (if truthy (field l ''settings'') then (case json_parse (val_text (field l ''settings'')) of None \<Rightarrow> JObj [] | Some v \<Rightarrow> v)
            else JObj []) of
        JObj ob \<Rightarrow> Inr (JObj (update_settings l (type_settings l ob)))
      | JArr vs \<Rightarrow> Inr (JArr vs)
      | _ \<Rightarrow> Inl TypeError)"

definition FORM_ONLY_FIELDS :: "string list" where
  "FORM_ONLY_FIELDS =
     [''force_format'', ''thinking_to_content'', ''proxy'', ''pass_through_body_enabled'', ''system_prompt'', ''system_prompt_override'',
      ''is_enterprise_account'', ''vertex_key_type'', ''aws_key_type'', ''allow_service_tier'', ''disable_store'',
      ''allow_safety_identifier'', ''allow_include_obfuscation'', ''allow_inference_geo'', ''claude_beta_query'',
      ''upstream_model_update_check_enabled'', ''upstream_model_update_auto_sync_enabled'', ''upstream_model_update_last_check_time'',
      ''upstream_model_update_last_detected_models'', ''upstream_model_update_ignored_models'']"

definition sent_channel :: "jsobj \<Rightarrow> jstring list \<Rightarrow> jsobj res" where
  "sent_channel l models =
     rbind (trim_slash l) (\<lambda>l.
     let l = (if type_is l 18 \<and> field l ''other'' = JStr [] then obj_set (js ''other'') (JStr (js ''v2.1'')) l else l);
         l = obj_set (js ''setting'') (JStr (json_str (JObj (channelExtraSettings l)))) l in
     rbind (sent_settings l) (\<lambda>settings.
     let l = obj_set (js ''settings'') (JStr (json_str settings)) l;
         l = foldl (\<lambda>l k. obj_delete (js k) l) l FORM_ONLY_FIELDS;
         l = obj_set (js ''auto_ban'') (JNum (Num (if truthy (field l ''auto_ban'') then 1 else 0))) l;
         l = obj_set (js ''models'') (JStr (join [44] models)) l in
     rbind (array_join (js_or (field l ''groups'') (JArr []))) (\<lambda>group'.
     Inr (obj_set (js ''group'') (JStr group') l))))"

definition channel_request_of :: "'a dialog_scheme \<Rightarrow> jsobj \<Rightarrow> channel_request" where
  "channel_request_of d l =
     (if dg_isEdit d
      then PutChannel (obj_set (js ''key_mode'') (if dg_isMultiKeyChannel d then JStr (dg_keyMode d) else JUndef)
        (obj_set (js ''id'') (JNum (parse_int (val_text (dg_channelId d)))) l))
      else (let mode = (if dg_batch d then (if dg_multiToSingle d then js ''multi_to_single'' else js ''batch'') else js ''single'')
            in PostChannel mode (if mode = js ''multi_to_single'' then dg_multiKeyMode d else JUndef) l))"

definition submit :: "form_env \<Rightarrow> user_answers \<Rightarrow> 'a dialog_scheme \<Rightarrow> jsobj \<Rightarrow> channel_request step" where
  "submit e an d formValues =
     (let l = obj_set (js ''param_override'') (field (dg_inputs d) ''param_override'') formValues in
      sbind (codex_key e d l) (\<lambda>l.
      sbind (vertex_key e d l) (\<lambda>l.
      sbind (drop_empty_key d l) (\<lambda>l.
      sbind (required_fields e d l) (\<lambda>models.
      sbind (parsed_mapping e l) (\<lambda>mapping.
      sbind (lift_res (normalized_models models)) (\<lambda>normalizedModels.
      sbind (chosen_models d an l normalizedModels mapping) (\<lambda>models.
      sbind (status_codes_ok e d an l) (\<lambda>_.
      sbind (lift_res (sent_channel l models)) (\<lambda>l.
      Inr (channel_request_of d l)))))))))))"

subsection \<open>Reading a channel\<close>















subsection \<open>Fields that stay\<close>


lemma get_own_obj_delete: "get_own (obj_delete k ob) k' = (if k' = k then JUndef else get_own ob k')"
proof -
  have "map_of (filter (\<lambda>kv. fst kv \<noteq> k) ob) k' = (if k' = k then None else map_of ob k')"
    by (induction ob) auto
  then show ?thesis by (simp add: obj_delete_def get_own_def)
qed

lemma js_image_iff [simp]: "js k \<in> js ` K \<longleftrightarrow> k \<in> K"
  by auto

lemma get_own_delete_all:
  "get_own (foldl (\<lambda>l k. obj_delete (js k) l) l ks) k' = (if k' \<in> js ` set ks then JUndef else get_own l k')"
  by (induction ks arbitrary: l) (auto simp: get_own_obj_delete)








subsection \<open>Guards of a submission\<close>

lemma codex_key_frame: "codex_key e d l = Inr l' \<Longrightarrow> k \<noteq> ''key'' \<Longrightarrow> get_own l' (js k) = get_own l (js k)"
  by (auto simp: codex_key_def step_iff Let_def split: if_splits)

lemma vertex_key_frame: "vertex_key e d l = Inr l' \<Longrightarrow> k \<noteq> ''key'' \<Longrightarrow> get_own l' (js k) = get_own l (js k)"
  by (auto simp: vertex_key_def step_iff get_own_obj_delete split: if_splits option.splits)

lemma drop_empty_key_frame:
  "drop_empty_key d l = Inr l' \<Longrightarrow> k \<noteq> ''key'' \<Longrightarrow> k \<noteq> ''vertex_files'' \<Longrightarrow> get_own l' (js k) = get_own l (js k)"
  by (auto simp: drop_empty_key_def step_iff get_own_obj_delete split: if_splits)

text \<open>
  No request is sent with a status code that is invalid, or with a new redirect away from a code that must not be
  redirected unless the user has confirmed it.
\<close>

theorem no_unconfirmed_redirects:
  assumes "submit e an d formValues = Inr req"
  shows "collectInvalidStatusCodeEntries (field formValues ''status_code_mapping'') = Inr [] \<and>
    (collectNewDisallowedStatusCodeRedirects (dg_initialStatusCodeMapping d) (field formValues ''status_code_mapping'') = [] \<or> an_risk an)"
proof -
  let ?l0 = "obj_set (js ''param_override'') (field (dg_inputs d) ''param_override'') formValues"
  obtain l1 l2 l3 where l: "codex_key e d ?l0 = Inr l1" "vertex_key e d l1 = Inr l2" "drop_empty_key d l2 = Inr l3"
    "status_codes_ok e d an l3 = Inr ()"
    using assms by (auto simp: submit_def Let_def step_iff)
  have "field l3 ''status_code_mapping'' = field formValues ''status_code_mapping''"
    using codex_key_frame [OF l(1)] vertex_key_frame [OF l(2)] drop_empty_key_frame [OF l(3)] by simp
  then show ?thesis using l(4) by (auto simp: status_codes_ok_def step_iff)
qed

text \<open>The key of an existing channel that is sent is not blank.\<close>

lemma dropped_key:
  assumes "dg_isEdit d" "drop_empty_key d l = Inr l'"
  shows "field l' ''key'' = JUndef \<or> (\<exists>s. field l' ''key'' = JStr s \<and> trim s \<noteq> [])"
  using assms by (auto simp: drop_empty_key_def blank_field_def text_or_empty_def step_iff rbind_Inr_iff js_or_def get_own_obj_delete
      split: jsval.splits if_splits)

lemma sent_channel_frame:
  assumes "sent_channel l models = Inr l'"
    and "k \<notin> set FORM_ONLY_FIELDS \<union> {''base_url'', ''other'', ''setting'', ''settings'', ''auto_ban'', ''models'', ''group''}"
  shows "get_own l' (js k) = get_own l (js k)"
proof -
  have t: "get_own m (js k) = get_own l (js k)" if "trim_slash l = Inr m" for m
    using that assms(2) by (auto simp: trim_slash_def split: jsval.splits if_splits)
  show ?thesis using assms t by (auto simp: sent_channel_def rbind_Inr_iff Let_def get_own_delete_all)
qed

text \<open>
  The stored key of a channel is never replaced by a blank one: an update carries no key, or one that is not blank.
\<close>

theorem update_keeps_key:
  assumes "dg_isEdit d" "submit e an d formValues = Inr (PutChannel req)"
  shows "get_own req (js ''key'') = JUndef \<or> (\<exists>s. get_own req (js ''key'') = JStr s \<and> trim s \<noteq> [])"
proof -
  obtain l2 l3 models l4 where l: "drop_empty_key d l2 = Inr l3" "sent_channel l3 models = Inr l4" "PutChannel req = channel_request_of d l4"
    using assms(2) by (auto simp: submit_def Let_def step_iff)
  have "get_own req (js ''key'') = field l4 ''key''" using l(3) assms(1) by (simp add: channel_request_of_def)
  also have "\<dots> = field l3 ''key''" by (rule sent_channel_frame [OF l(2)]) (simp add: FORM_ONLY_FIELDS_def)
  finally show ?thesis using dropped_key [OF assms(1) l(1)] by simp
qed


subsection \<open>Saving a channel unchanged\<close>



lemma no_new_redirects: "collectNewDisallowedStatusCodeRedirects m m = []"
  by (simp add: collectNewDisallowedStatusCodeRedirects_def Let_def)


lemma normalized_models_names:
  assumes "\<forall>m \<in> set ms. m \<noteq> [] \<and> trim m = m"
  shows "normalized_models (map JStr ms) = Inr ms"
proof -
  have a: "map text_or_empty (map JStr ms) = map Inr ms" using assms by (simp add: text_or_empty_def js_or_def)
  have b: "map trim ms = ms" "filter (\<lambda>s. s \<noteq> []) ms = ms" using assms by (simp_all add: map_idI filter_id_conv)
  show ?thesis unfolding normalized_models_def a res_list_Inr by (simp only: rbind_simps b)
qed

lemma array_join_texts: "array_join (JArr (map JStr ss)) = Inr (join [44] ss)"
  by (simp add: array_join_def nullish_def val_text_def comp_def)




lemma sent_settings_defined:
  assumes "field l ''settings'' = JStr s" "s = [] \<or> (\<exists>ob. json_parse s = Some (JObj ob))"
  shows "\<exists>v. sent_settings l = Inr v"
  using assms by (auto simp: sent_settings_def val_text_def)

lemma sent_channel_defined:
  assumes "trim_slash l = Inr l" "\<not> (type_is l 18 \<and> field l ''other'' = JStr [])"
    and "field l ''settings'' = JStr s" "s = [] \<or> (\<exists>ob. json_parse s = Some (JObj ob))"
    and "field l ''groups'' = JArr (map JStr gs)" "field l ''auto_ban'' \<in> {JNum (Num 0), JNum (Num 1)}"
  obtains l' where "sent_channel l models = Inr l'" "field l' ''group'' = JStr (join [44] gs)" "field l' ''models'' = JStr (join [44] models)"
    and "field l' ''auto_ban'' = field l ''auto_ban''" "field l' ''base_url'' = field l ''base_url''" "field l' ''other'' = field l ''other''"
proof -
  have n: "(type_is l 18 \<and> field l ''other'' = JStr []) = False" using assms(2) by simp
  define l1 where "l1 = obj_set (js ''setting'') (JStr (json_str (JObj (channelExtraSettings l)))) l"
  obtain v where v: "sent_settings l1 = Inr v"
    using sent_settings_defined [of l1 s] assms(3,4) by (auto simp: l1_def)
  define l2 where "l2 = foldl (\<lambda>l k. obj_delete (js k) l) (obj_set (js ''settings'') (JStr (json_str v)) l1) FORM_ONLY_FIELDS"
  have k: "get_own l2 (js k) = get_own l (js k)" if "k \<notin> set FORM_ONLY_FIELDS \<union> {''setting'', ''settings''}" for k
    using that by (simp add: l2_def l1_def get_own_delete_all)
  define l3 where "l3 = obj_set (js ''models'') (JStr (join [44] models))
    (obj_set (js ''auto_ban'') (JNum (Num (if truthy (field l2 ''auto_ban'') then 1 else 0))) l2)"
  have "array_join (js_or (field l3 ''groups'') (JArr [])) = Inr (join [44] gs)"
    using assms(5) k [of "''groups''"] by (simp add: l3_def FORM_ONLY_FIELDS_def js_or_def array_join_texts)
  then have "sent_channel l models = Inr (obj_set (js ''group'') (JStr (join [44] gs)) l3)"
    using v by (simp only: assms(1) sent_channel_def rbind_simps Let_def n if_False l1_def [symmetric] l2_def [symmetric] l3_def [symmetric])
  then show thesis
    using that assms(6) k [of "''auto_ban''"] k [of "''base_url''"] k [of "''other''"] by (auto simp: l3_def FORM_ONLY_FIELDS_def)
qed







definition edit_dialog :: dialog where
  "edit_dialog = \<lparr>dg_isEdit = True, dg_channelId = JNum (Num 7), dg_inputs = [], dg_batch = False, dg_multiToSingle = False,
     dg_multiKeyMode = JStr (js ''random''), dg_isMultiKeyChannel = False, dg_keyMode = js ''append'', dg_useManualInput = False,
     dg_vertexKeys = [], dg_vertexFiles = [], dg_initialModels = [], dg_initialModelMapping = JStr [],
     dg_initialStatusCodeMapping = JStr []\<rparr>"

definition plain_form_env :: form_env where
  "plain_form_env = \<lparr>fe_t = \<lambda>key vs. key, fe_json_error = \<lambda>s. s\<rparr>"



text \<open>An example: the key of a channel is replaced.\<close>

definition typed_form :: jsobj where
  "typed_form =
     [(js ''name'', JStr (js ''c'')), (js ''type'', JNum (Num 1)), (js ''key'', JStr (js ''k'')), (js ''models'', JArr [JStr (js ''a'')]),
      (js ''groups'', JArr [JStr (js ''g'')]), (js ''model_mapping'', JStr []), (js ''status_code_mapping'', JStr []),
      (js ''base_url'', JStr []), (js ''other'', JStr []), (js ''settings'', JStr []), (js ''auto_ban'', JNum (Num 1))]"

lemma typed_form_sent: "\<exists>req. submit plain_form_env an edit_dialog typed_form = Inr (PutChannel req)"
proof -
  define l where "l = obj_set (js ''param_override'') JUndef typed_form"
  define l3 where "l3 = obj_delete (js ''vertex_files'') l"
  have f: "get_own l3 (js k) = get_own typed_form (js k)" if "k \<notin> {''vertex_files'', ''param_override''}" for k
    using that by (simp add: l3_def l_def get_own_obj_delete)
  have v: "field typed_form ''type'' = JNum (Num 1)" "field typed_form ''key'' = JStr (js ''k'')" "field typed_form ''models'' = JArr [JStr (js ''a'')]"
    "field typed_form ''model_mapping'' = JStr []" "field typed_form ''status_code_mapping'' = JStr []" "field typed_form ''base_url'' = JStr []"
    "field typed_form ''settings'' = JStr []" "field typed_form ''groups'' = JArr (map JStr [js ''g''])" "field typed_form ''auto_ban'' = JNum (Num 1)"
    by (simp_all add: typed_form_def get_own_def)
  have t: "trim [] = []" "trim (js ''k'') = js ''k''" "trim (js ''a'') = js ''a''"
    by (simp_all add: trim_def trim_start_def trim_end_def js_def is_ws_def)
  have "codex_key plain_form_env edit_dialog l = Inr l" "vertex_key plain_form_env edit_dialog l = Inr l" "drop_empty_key edit_dialog l = Inr l3"
    using v(1,2) t(2) by (simp_all add: codex_key_def vertex_key_def drop_empty_key_def blank_field_def text_or_empty_def js_or_def
        edit_dialog_def l_def l3_def)
  moreover have "required_fields plain_form_env edit_dialog l3 = Inr [JStr (js ''a'')]"
    using v(1,3) by (simp add: required_fields_def edit_dialog_def f)
  moreover have "parsed_mapping plain_form_env l3 = Inr JNull" using v(4) t(1) by (simp add: parsed_mapping_def f)
  moreover have "normalized_models [JStr (js ''a'')] = Inr [js ''a'']" using normalized_models_names [of "[js ''a'']"] t(3) by simp
  moreover have "chosen_models edit_dialog an l3 [js ''a''] JNull = Inr [js ''a'']" by (simp add: chosen_models_def missing_models_def)
  moreover have "status_codes_ok plain_form_env edit_dialog an l3 = Inr ()"
    using v(5) t(1) by (simp add: status_codes_ok_def collectInvalidStatusCodeEntries_def mapping_entries_def edit_dialog_def f no_new_redirects)
  moreover obtain l4 where "sent_channel l3 [js ''a''] = Inr l4"
    by (rule sent_channel_defined [of l3 "[]" "[js ''g'']" "[js ''a'']"]) (simp_all add: f v trim_slash_def)
  moreover have "dg_inputs edit_dialog = []" "dg_isEdit edit_dialog" by (simp_all add: edit_dialog_def)
  ultimately show ?thesis by (simp add: submit_def Let_def channel_request_of_def l_def [symmetric] get_own_def [of "[]"])
qed

theorem no_unconfirmed_redirects_witness:
  "\<exists>req. submit plain_form_env \<lparr>an_missing = MA_submit, an_risk = False\<rparr> edit_dialog typed_form = Inr req \<and>
     collectNewDisallowedStatusCodeRedirects (dg_initialStatusCodeMapping edit_dialog) (field typed_form ''status_code_mapping'') = []"
proof -
  obtain req where r: "submit plain_form_env \<lparr>an_missing = MA_submit, an_risk = False\<rparr> edit_dialog typed_form = Inr (PutChannel req)"
    using typed_form_sent by blast
  then show ?thesis using no_unconfirmed_redirects [OF r] by simp
qed

theorem update_keeps_key_witness:
  "\<exists>req. submit plain_form_env \<lparr>an_missing = MA_submit, an_risk = False\<rparr> edit_dialog typed_form = Inr (PutChannel req) \<and>
     (get_own req (js ''key'') = JUndef \<or> (\<exists>s. get_own req (js ''key'') = JStr s \<and> trim s \<noteq> []))"
proof -
  obtain req where r: "submit plain_form_env \<lparr>an_missing = MA_submit, an_risk = False\<rparr> edit_dialog typed_form = Inr (PutChannel req)"
    using typed_form_sent by blast
  then show ?thesis using update_keeps_key [OF _ r] by (simp add: edit_dialog_def)
qed

subsection \<open>Settings\<close>

definition MANAGED_SETTINGS :: "string set" where
  "MANAGED_SETTINGS = {''openrouter_enterprise'', ''aws_key_type'', ''vertex_key_type'', ''allow_service_tier'', ''disable_store'',
     ''allow_safety_identifier'', ''allow_include_obfuscation'', ''allow_inference_geo'', ''claude_beta_query'',
     ''upstream_model_update_check_enabled'', ''upstream_model_update_auto_sync_enabled'', ''upstream_model_update_ignored_models'',
     ''upstream_model_update_last_detected_models'', ''upstream_model_update_last_check_time''}"

lemma detected_models_frame:
  "k' \<noteq> k \<Longrightarrow> get_own (case v of JArr _ \<Rightarrow> if b then ob else obj_set k x ob | _ \<Rightarrow> obj_set k x ob) k' = get_own ob k'"
  by (cases v) auto

lemma check_time_frame: "k' \<noteq> k \<Longrightarrow> get_own (case v of JNum _ \<Rightarrow> ob | _ \<Rightarrow> obj_set k x ob) k' = get_own ob k'"
  by (cases v) auto

lemma json_parse_Nil: "json_parse [] = None"
  by code_simp

text \<open>Settings that the dialog does not manage are sent back unchanged.\<close>

theorem unknown_settings_kept:
  assumes "field l ''settings'' = JStr s" "json_parse s = Some (JObj ob)"
  shows "\<exists>ob'. sent_settings l = Inr (JObj ob') \<and> (\<forall>k. k \<notin> MANAGED_SETTINGS \<longrightarrow> get_own ob' (js k) = get_own ob (js k))"
proof -
  have "s \<noteq> []" using assms(2) by (auto simp: json_parse_Nil)
  then have "sent_settings l = Inr (JObj (update_settings l (type_settings l ob)))"
    using assms by (simp add: sent_settings_def val_text_def)
  moreover have "get_own (type_settings l ob) (js k) = get_own ob (js k)" if "k \<notin> MANAGED_SETTINGS" for k
    using that by (simp add: type_settings_def Let_def put_flag_def MANAGED_SETTINGS_def get_own_obj_delete)
  moreover have "get_own (update_settings l ob) (js k) = get_own ob (js k)" if "k \<notin> MANAGED_SETTINGS" for k ob
    using that unfolding update_settings_def Let_def put_flag_def
    by (simp add: detected_models_frame check_time_frame MANAGED_SETTINGS_def)
  ultimately show ?thesis by simp
qed

end
