(* ===== verification/Spec2Isabelle.thy ===== *)
theory Spec2Isabelle
  imports StatusCodeRules StatusCodeRiskGuard ParamOverrideInvariants PricingProperties ChannelHelpers
    PlaygroundActions PlaygroundSync ChannelTests UpstreamUpdates ModelMarket SidebarMenu UsageLogs ChannelForm
begin

text \<open>
  A verification library for the web console of the token gateway (\<open>src/web/src\<close>, React with
  JavaScript). The console edits the gateway's configuration and has a chat playground. The library
  models the parts with logic of their own and proves what makes them correct; where the code does
  something else than it means to, a theorem says exactly what.

  \<^bold>\<open>JavaScript.\<close> \<open>JsPrelude\<close> holds the shared rule collections, list lemmas, and the interfaces
  \<open>keyed_store\<close>, \<open>codec\<close> and \<open>reformatting_codec\<close>. \<open>JsString\<close> has strings as lists of UTF-16 code
  units, \<open>JsNumber\<close> and \<open>JsFixed\<close> IEEE binary64 numbers as rationals with an explicit rounding
  \<open>rnd\<close>, printing of the shortest decimal and reading of decimals, \<open>JsValue\<close> values, objects as
  property lists in enumeration order, and exceptions as the left summand of \<open>res\<close>, \<open>JsJson\<close> the JSON
  printer and a total parser, interpreted as codecs (\<open>compact\<close>, \<open>pretty\<close>). The search for the shortest
  decimal of a double tries 1400 decimal exponents downwards from its leading digit: a finite binary64
  number is a multiple of \<open>2^-1074\<close> below \<open>2^1024\<close>, so its exact decimal ends within that range, and
  \<open>JsNumber\<close> proves that a result is always found.

  \<^bold>\<open>Parameter override editor\<close> (\<open>components/table/channels/modals/ParamOverrideEditorModal.jsx\<close>).
  \<open>LocalIds\<close> is the counter of ids (locale \<open>id_source\<close>); \<open>ParamOverrideTables\<close> the tables and templates;
  \<open>ParamOverrideDrafts\<close> the value texts and structured drafts; \<open>ParamOverrideOperations\<close> reading,
  validating, reordering and printing rules; \<open>ParamOverrideEditor\<close> the component as a state machine, one
  definition per handler, with its effects; \<open>ParamOverrideInvariants\<close> the reachable states. Shown: rules
  that were saved and opened again save to the same text; validation accepts exactly complete rules; ids
  stay distinct and a rule stays selected in every reachable state (locale \<open>editor_contract\<close>); a
  duplicate saves alike.

  \<^bold>\<open>Price editor\<close> (\<open>pages/Setting/Ratio/hooks/useModelPricingEditorState.js\<close>). \<open>PricingModel\<close> turns
  ratios into prices and back, \<open>PricingEditor\<close> is the hook as a state machine, \<open>PricingProperties\<close> its
  theorems: a refinement to a map from model names to models, invariants of the reachable states, the
  requests of a submission, stability of saved numbers, and that saving resolves conflicts.

  \<^bold>\<open>Status codes\<close> (\<open>helpers/statusCodeRules.js\<close>, \<open>channels/modals/statusCodeRiskGuard.js\<close>).
  \<open>StatusCodeRules\<close>: the parsed ranges cover exactly the codes of the tokens and are a normal form.
  \<open>StatusCodeRiskGuard\<close>: exactly the risky redirects are reported.

  \<^bold>\<open>Playground\<close> (\<open>pages/Playground/index.jsx\<close>, \<open>hooks/playground\<close>, \<open>components/playground/configStorage.js\<close>,
  parts of \<open>helpers/utils.jsx\<close> and \<open>helpers/api.js\<close>). \<open>Playground\<close> has messages, think tags and request
  bodies; \<open>PlaygroundStream\<close> the events of a request (fetch, server-sent events, stop); \<open>PlaygroundReplies\<close>
  the interface \<open>reply_events\<close>, interpreted on them: events touch only the open reply, chunks add up to
  it, the endings the code handles finish it, and two others leave it loading; \<open>PlaygroundStorage\<close> the local storage; \<open>PlaygroundPage\<close> the page with
  its tasks and message actions; \<open>PlaygroundActions\<close> a question with its streamed answer from click to
  storage, deletion, regeneration and reload; \<open>PlaygroundSync\<close> the two effects that synchronise the
  conversation with the custom request body, which come to rest.

  \<^bold>\<open>Channels\<close> (\<open>hooks/channels\<close>, \<open>helpers/token.js\<close>, \<open>helpers/boolean.js\<close>, \<open>helpers/log.js\<close>).
  \<open>ChannelHelpers\<close> has keys, connection strings and model lists. \<open>ChannelTable\<close> models the rows as
  objects in a store, because handlers share and change them in place: grouping by tag (equal to a
  reference grouping), loading and searching (only the last load counts, but searches have no such
  guard), actions on channels and tags. \<open>ChannelTests\<close> is the batch test of models as a machine over
  clicks, answers and timers: order and number of requests, at most five at once, the end of
  every batch, silence after closing, and how a restart revives a stopped batch. \<open>ChannelActions\<close> has the
  columns, tag edits and batch actions, \<open>UpstreamUpdates\<close> the four guarded requests for model
  updates (locale \<open>single_flight\<close>). \<open>ChannelForm\<close> is the core of the editor dialog
  (\<open>components/table/channels/modals/EditChannelModal.jsx\<close>): reading a channel into the form, and a submission as a chain of
  checks and questions that ends in a message or in one request. A channel saved unchanged stays as it is, a stored key is never
  replaced by a blank one, and risky redirects are sent only after a confirmation. The form library is a parameter: its values are
  an argument of \<open>submit\<close>, and \<open>form_shows\<close> says what the round trip needs of them.

  \<^bold>\<open>Model market\<close> (\<open>hooks/model-pricing\<close>, \<open>components/table/model-pricing/filter\<close>, \<open>calculateModelPrice\<close> and
  \<open>getModelPriceItems\<close> of \<open>helpers/utils.jsx\<close>). \<open>ModelMarket\<close> orders and filters the models, counts them for the
  filter buttons and computes the prices shown. The counts are the numbers of rows that a click would show, the
  cheapest group is used, and the text of a price is right unless the currency symbol contains a point or digit.

  \<^bold>\<open>Side bar\<close> (\<open>hooks/common/useSidebar.js\<close>, \<open>hooks/common/useUserPermissions.js\<close>, \<open>components/layout/SiderBar.jsx\<close>
  and the pages \<open>SettingsSidebarModulesAdmin.jsx\<close> and \<open>NotificationSettings.jsx\<close>). \<open>Sidebar\<close> merges the
  configurations of administrator and user and has the permissions; \<open>SidebarMenu\<close> has the entries, the navigation and
  the pages of switches (locale \<open>switch_page\<close>, interpreted on both pages). From click to menu: every switch
  stands as it was clicked last, what the administrator has switched off no user sees, a user's switches
  act within that, and without a readable configuration of the user exactly what is allowed is shown.

  \<^bold>\<open>Amounts and billing texts\<close> (\<open>helpers/render.jsx\<close>, \<open>helpers/quota.js\<close>). \<open>QuotaDisplay\<close> has the display settings,
  amounts and quotas as texts, and the colours (a hash on 32-bit words): a quota shown and typed back is the same
  quota, a positive one is never shown as zero. \<open>BillingText\<close> and \<open>BillingAccounts\<close> have the texts that explain what a
  request was billed, by prices and by ratios, for plain, split-cache and audio models: what is listed is what is
  charged, the two lists the source writes for a summary and for its compact form agree, and the theorems say where two
  accounts of one request disagree.

  \<^bold>\<open>Usage logs\<close> (\<open>hooks/usage-logs/useUsageLogsData.jsx\<close>). \<open>UsageLogs\<close> reads the rows of a page, chooses the
  account of each and assembles its details, with the columns, filters, addresses (\<open>encodeURI\<close>) and paging. Readable
  pages are shown completely, users see nothing reserved to administrators, and one unreadable row blocks a page.

  \<^bold>\<open>Conventions.\<close> A component's state is a record, a handler a function on it; errors are values. A
  handler that awaits is split there; what its closure captured is an argument or part of the pending
  request, so a stale closure is visible in the model. Events may come in any order. The translation
  function \<open>t\<close>, the collation order, the clock, the texts of engine errors, whether the storage
  accepts a write, and the answers of the server are parameters or events.

  \<^bold>\<open>Not modelled.\<close> The Go server and the desktop shell (other programs; the server's answers are
  inputs), rendering and layout (JSX, icons, tags), translations and assets, of the channel editor
  dialog the handlers of single fields, key display and what follows the answer, the finance dashboard, system settings, deployments, invoices, and the other tables, which follow the
  patterns of the parts above; of the channel table the lists that are only fetched and shown, and the Ollama dialog.
  Upper and lower case cover the letters stated in \<open>JsString\<close>; the two zeros of binary64 are one
  value, since no modelled operation tells them apart.
\<close>

end
